(* ===== verification/Prelude.thy ===== *)
theory Prelude
  imports Complex_Main "HOL-Library.Sublist" "HOL-Library.Multiset" "HOL-Library.List_Lexorder"
    "HOL-Library.Char_ord"
begin

text \<open>
  Shared foundations of the development: results of fallible Go functions, the parts of the
  Go standard library the sources call on strings and numbers (\<open>strings.TrimSpace\<close>,
  \<open>strings.Fields\<close>, \<open>strings.ReplaceAll\<close> of a byte, \<open>strconv.Itoa\<close>, \<open>strconv.Atoi\<close>), and the
  generic list lemmas the components share.

  A Go \<open>string\<close> or \<open>[]byte\<close> is a HOL \<^typ>\<open>string\<close> read as a sequence of bytes. A function that
  returns \<open>(T, error)\<close> returns a sum: \<open>Inl\<close> carries the error, \<open>Inr\<close> the value.
\<close>

section \<open>Fact collections\<close>

named_theorems go_str \<open>rewrite rules for the modelled string library\<close>
named_theorems res_simps \<open>rewrite rules for fallible computations\<close>

section \<open>Results\<close>

text \<open>Sequencing of fallible calls: \<^verbatim>\<open>v, err := f(); if err != nil { return err }\<close>.\<close>

definition rbind :: "'e + 'a \<Rightarrow> ('a \<Rightarrow> 'e + 'b) \<Rightarrow> 'e + 'b" where
  "rbind m f = (case m of Inl e \<Rightarrow> Inl e | Inr a \<Rightarrow> f a)"

lemma rbind_Inl [simp, res_simps]: "rbind (Inl e) f = Inl e"
  by (simp add: rbind_def)

lemma rbind_Inr [simp, res_simps]: "rbind (Inr a) f = f a"
  by (simp add: rbind_def)

lemma rbind_eq_Inr [res_simps]: "rbind m f = Inr b \<longleftrightarrow> (\<exists>a. m = Inr a \<and> f a = Inr b)"
  by (cases m) auto

lemma rbind_eq_Inl [res_simps]:
  "rbind m f = Inl e \<longleftrightarrow> m = Inl e \<or> (\<exists>a. m = Inr a \<and> f a = Inl e)"
  by (cases m) auto

lemma rbind_assoc [res_simps]: "rbind (rbind m f) g = rbind m (\<lambda>a. rbind (f a) g)"
  by (cases m) auto

text \<open>Running a fallible function over a list, stopping at the first error.\<close>

fun traverse :: "('a \<Rightarrow> 'e + 'b) \<Rightarrow> 'a list \<Rightarrow> 'e + 'b list" where
  "traverse f [] = Inr []"
| "traverse f (x # xs) = rbind (f x) (\<lambda>y. rbind (traverse f xs) (\<lambda>ys. Inr (y # ys)))"

lemma traverse_Inr_length: "traverse f xs = Inr ys \<Longrightarrow> length ys = length xs"
  by (induction xs arbitrary: ys) (auto simp: res_simps)

lemma traverse_Inr_nth:
  "traverse f xs = Inr ys \<Longrightarrow> i < length xs \<Longrightarrow> f (xs ! i) = Inr (ys ! i)"
proof (induction xs arbitrary: ys i)
  case (Cons x xs)
  then show ?case by (cases i) (auto simp: res_simps)
qed simp

lemma traverse_Inr_all:
  "traverse f xs = Inr ys \<longleftrightarrow> list_all2 (\<lambda>x y. f x = Inr y) xs ys"
proof (induction xs arbitrary: ys)
  case Nil
  then show ?case by (cases ys) auto
next
  case (Cons x xs)
  then show ?case by (cases ys) (auto simp: res_simps)
qed

section \<open>Sorting by a key\<close>

text \<open>
  \<open>slices.SortStableFunc\<close> with a comparison of keys is \<^const>\<open>sort_key\<close>. A list sorted by a key
  that is injective on its elements is determined by its multiset, so that the unstable
  \<open>slices.SortFunc\<close> has the same result there.
\<close>

lemma sorted_key_unique:
  assumes "mset xs = mset ys" and "sorted (map f xs)" and "sorted (map f ys)"
    and "inj_on f (set xs)"
  shows "xs = ys"
proof -
  have "set ys = set xs"
    using assms(1) by (metis set_mset_mset)
  moreover have "map f xs = map f ys"
    using assms(1-3) by (metis mset_map properties_for_sort)
  ultimately show ?thesis
    using assms(4) by (metis inf_sup_aci(5) inj_on_map_eq_map sup.idem)
qed

lemma sorted_distinct_map_unique:
  assumes "mset xs = mset ys" and "sorted (map f xs)" and "distinct (map f ys)"
    and "sorted (map f ys)"
  shows "xs = ys"
proof -
  have "inj_on f (set ys)"
    using assms(3) by (simp add: distinct_map)
  moreover have "set xs = set ys"
    using assms(1) by (metis set_mset_mset)
  ultimately show ?thesis
    using assms by (metis sorted_key_unique)
qed

section \<open>Bytes and decimal digits\<close>

definition byte :: "char \<Rightarrow> nat" where
  "byte c = of_char c"

definition is_digit :: "char \<Rightarrow> bool" where
  "is_digit c \<longleftrightarrow> 48 \<le> byte c \<and> byte c \<le> 57"

definition digit_value :: "char \<Rightarrow> nat" where
  "digit_value c = byte c - 48"

definition digit_char :: "nat \<Rightarrow> char" where
  "digit_char d = char_of (48 + d)"

lemma byte_digit_char [simp]: "d < 10 \<Longrightarrow> byte (digit_char d) = 48 + d"
  by (simp add: byte_def digit_char_def)

lemma is_digit_digit_char [simp]: "d < 10 \<Longrightarrow> is_digit (digit_char d)"
  by (simp add: is_digit_def)

lemma digit_value_digit_char [simp]: "d < 10 \<Longrightarrow> digit_value (digit_char d) = d"
  by (simp add: digit_value_def)

lemma digit_value_less [simp]: "is_digit c \<Longrightarrow> digit_value c < 10"
  by (auto simp: is_digit_def digit_value_def)

lemma digit_char_digit_value [simp]: "is_digit c \<Longrightarrow> digit_char (digit_value c) = c"
  by (simp add: is_digit_def digit_value_def digit_char_def byte_def)

lemma digit_not_punct [simp]:
  "is_digit c \<Longrightarrow> c \<noteq> CHR ''-''" "is_digit c \<Longrightarrow> c \<noteq> CHR ''+''"
  "is_digit c \<Longrightarrow> c \<noteq> CHR ''.''" "is_digit c \<Longrightarrow> c \<noteq> CHR ''/''" "is_digit c \<Longrightarrow> c \<noteq> CHR '' ''"
  "is_digit c \<Longrightarrow> c \<noteq> CHR '',''"
  by (auto simp: is_digit_def byte_def)

text \<open>The number a run of decimal digits denotes, most significant digit first.\<close>

fun digits_value_from :: "nat \<Rightarrow> string \<Rightarrow> nat" where
  "digits_value_from acc [] = acc"
| "digits_value_from acc (c # cs) = digits_value_from (10 * acc + digit_value c) cs"

definition digits_value :: "string \<Rightarrow> nat" where
  "digits_value s = digits_value_from 0 s"

lemma digits_value_from_eq:
  "digits_value_from acc s = acc * 10 ^ length s + digits_value_from 0 s"
proof (induction s arbitrary: acc)
  case (Cons c s)
  show ?case
    using Cons [of "10 * acc + digit_value c"] Cons [of "digit_value c"]
    by (simp add: algebra_simps)
qed simp

lemma digits_value_Nil [simp]: "digits_value [] = 0"
  by (simp add: digits_value_def)

lemma digits_value_append:
  "digits_value (s @ t) = digits_value s * 10 ^ length t + digits_value t"
proof -
  have "digits_value_from acc (s @ t) = digits_value_from (digits_value_from acc s) t" for acc
    by (induction s arbitrary: acc) auto
  then show ?thesis
    using digits_value_from_eq [of "digits_value_from 0 s" t] by (simp add: digits_value_def)
qed

lemma digits_value_single [simp]: "digits_value [c] = digit_value c"
  by (simp add: digits_value_def)

lemma digits_value_Cons: "digits_value (c # s) = digit_value c * 10 ^ length s + digits_value s"
  using digits_value_append [of "[c]" s] by simp

lemma digits_value_bound: "list_all is_digit s \<Longrightarrow> digits_value s < 10 ^ length s"
proof (induction s)
  case (Cons c s)
  then have "digit_value c * 10 ^ length s + digits_value s < (digit_value c + 1) * 10 ^ length s"
    by (simp add: algebra_simps)
  also have "\<dots> \<le> 10 * 10 ^ length s"
  proof (rule mult_right_mono)
    have "digit_value c < 10" using Cons.prems by simp
    then show "digit_value c + 1 \<le> 10" by linarith
  qed simp
  finally show ?case by (simp add: digits_value_Cons)
qed simp

lemma digits_value_zeros [simp]: "digits_value (replicate n (CHR ''0'')) = 0"
  by (induction n) (simp_all add: digits_value_Cons digit_value_def byte_def)

text \<open>\<open>strconv.Itoa\<close> on a natural number, and padding to a width as \<open>%0wd\<close> does.\<close>

fun utoa :: "nat \<Rightarrow> string" where
  "utoa n = (if n < 10 then [digit_char n] else utoa (n div 10) @ [digit_char (n mod 10)])"

declare utoa.simps [simp del]

definition itoa :: "int \<Rightarrow> string" where
  "itoa i = (if i < 0 then CHR ''-'' # utoa (nat (- i)) else utoa (nat i))"

definition pad_zero :: "nat \<Rightarrow> string \<Rightarrow> string" where
  "pad_zero w s = replicate (w - length s) (CHR ''0'') @ s"

lemma zero_is_digit [simp]: "is_digit (CHR ''0'')"
  by (simp add: is_digit_def byte_def)

lemma utoa_digits: "list_all is_digit (utoa n)"
proof (induction n rule: utoa.induct)
  case (1 n)
  then show ?case by (subst utoa.simps) auto
qed

lemma utoa_not_Nil [simp]: "utoa n \<noteq> []"
  by (subst utoa.simps) simp

lemma digits_value_utoa [simp]: "digits_value (utoa n) = n"
proof (induction n rule: utoa.induct)
  case (1 n)
  then show ?case by (subst utoa.simps) (auto simp: digits_value_append)
qed

lemma length_utoa_le: "n < 10 ^ w \<Longrightarrow> 0 < w \<Longrightarrow> length (utoa n) \<le> w"
proof (induction n arbitrary: w rule: utoa.induct)
  case (1 n)
  show ?case
  proof (cases "n < 10")
    case True
    with "1.prems" show ?thesis by (subst utoa.simps) simp
  next
    case False
    with "1.prems" obtain v where w: "w = Suc v" and v: "0 < v"
      by (cases w; cases "w - 1") auto
    with False "1.prems" have "length (utoa (n div 10)) \<le> v"
      by (intro "1.IH") auto
    with False w show ?thesis by (subst utoa.simps) simp
  qed
qed

lemma pad_zero_digits: "list_all is_digit s \<Longrightarrow> list_all is_digit (pad_zero w s)"
  by (auto simp: pad_zero_def list_all_iff)

lemma digits_value_pad_zero [simp]: "digits_value (pad_zero w s) = digits_value s"
  by (simp add: pad_zero_def digits_value_append)

lemma length_pad_zero: "length (pad_zero w s) = max w (length s)"
  by (simp add: pad_zero_def)

text \<open>\<open>strconv.Atoi\<close> and \<open>strconv.ParseInt(s, 10, 64)\<close>: an optional sign, digits, 64-bit range.\<close>

definition in_int64 :: "int \<Rightarrow> bool" where
  "in_int64 i \<longleftrightarrow> - (2 ^ 63) \<le> i \<and> i < 2 ^ 63"

definition atoi :: "string \<Rightarrow> int option" where
  "atoi s =
     (let (neg, ds) = (case s of [] \<Rightarrow> (False, [])
                       | c # cs \<Rightarrow> if c = CHR ''-'' then (True, cs)
                                   else if c = CHR ''+'' then (False, cs) else (False, s));
          v = (if neg then - int (digits_value ds) else int (digits_value ds))
      in if ds = [] \<or> \<not> list_all is_digit ds \<or> \<not> in_int64 v then None else Some v)"

lemma atoi_int64: "atoi s = Some v \<Longrightarrow> in_int64 v"
  by (auto simp: atoi_def Let_def split: list.splits if_splits prod.splits)

lemma atoi_digits:
  assumes "list_all is_digit s" and "s \<noteq> []" and "in_int64 (int (digits_value s))"
  shows "atoi s = Some (int (digits_value s))"
  using assms by (cases s) (auto simp: atoi_def)

lemma atoi_itoa: "in_int64 i \<Longrightarrow> atoi (itoa i) = Some i"
proof (cases "i < 0")
  case True
  then show "in_int64 i \<Longrightarrow> ?thesis" by (simp add: atoi_def itoa_def utoa_digits)
next
  case False
  then show "in_int64 i \<Longrightarrow> ?thesis"
    by (simp add: itoa_def atoi_digits utoa_digits)
qed

section \<open>White space\<close>

text \<open>
  The UTF-8 encodings of the code points \<open>unicode.IsSpace\<close> accepts: the ASCII ones, U+0085,
  U+00A0, U+1680, U+2000 to U+200A, U+2028, U+2029, U+202F, U+205F and U+3000.
\<close>

definition space_runes :: "string list" where
  "space_runes =
    [[CHR 0x20], [CHR 0x09], [CHR 0x0A], [CHR 0x0B], [CHR 0x0C], [CHR 0x0D],
     [CHR 0xC2, CHR 0x85], [CHR 0xC2, CHR 0xA0], [CHR 0xE1, CHR 0x9A, CHR 0x80],
     [CHR 0xE2, CHR 0x80, CHR 0x80], [CHR 0xE2, CHR 0x80, CHR 0x81],
     [CHR 0xE2, CHR 0x80, CHR 0x82], [CHR 0xE2, CHR 0x80, CHR 0x83],
     [CHR 0xE2, CHR 0x80, CHR 0x84], [CHR 0xE2, CHR 0x80, CHR 0x85],
     [CHR 0xE2, CHR 0x80, CHR 0x86], [CHR 0xE2, CHR 0x80, CHR 0x87],
     [CHR 0xE2, CHR 0x80, CHR 0x88], [CHR 0xE2, CHR 0x80, CHR 0x89],
     [CHR 0xE2, CHR 0x80, CHR 0x8A], [CHR 0xE2, CHR 0x80, CHR 0xA8],
     [CHR 0xE2, CHR 0x80, CHR 0xA9], [CHR 0xE2, CHR 0x80, CHR 0xAF],
     [CHR 0xE2, CHR 0x81, CHR 0x9F], [CHR 0xE3, CHR 0x80, CHR 0x80]]"

text \<open>Drop leading occurrences of any of the patterns.\<close>

function strip_any :: "string list \<Rightarrow> string \<Rightarrow> string" where
  "strip_any ps s =
     (case find (\<lambda>p. p \<noteq> [] \<and> prefix p s) ps of
        None \<Rightarrow> s | Some p \<Rightarrow> strip_any ps (drop (length p) s))"
  by pat_completeness auto
termination
  by (relation "measure (\<lambda>(ps, s). length s)")
    (auto simp: find_Some_iff prefix_def)

declare strip_any.simps [simp del]

definition trim_space :: "string \<Rightarrow> string" where
  "trim_space s = rev (strip_any (map rev space_runes) (rev (strip_any space_runes s)))"

lemma strip_any_suffix: "suffix (strip_any ps s) s"
proof (induction ps s rule: strip_any.induct)
  case (1 ps s)
  show ?case
  proof (cases "find (\<lambda>p. p \<noteq> [] \<and> prefix p s) ps")
    case None
    then show ?thesis by (simp add: strip_any.simps [of ps s])
  next
    case (Some p)
    from "1" [OF Some] have "suffix (strip_any ps (drop (length p) s)) s"
      using suffix_drop suffix_order.trans by blast
    with Some show ?thesis by (simp add: strip_any.simps [of ps s])
  qed
qed

lemma strip_any_fixed: "find (\<lambda>p. p \<noteq> [] \<and> prefix p s) ps = None \<Longrightarrow> strip_any ps s = s"
  by (simp add: strip_any.simps)

lemma strip_any_result: "find (\<lambda>p. p \<noteq> [] \<and> prefix p (strip_any ps s)) ps = None"
proof (induction ps s rule: strip_any.induct)
  case (1 ps s)
  then show ?case
    by (cases "find (\<lambda>p. p \<noteq> [] \<and> prefix p s) ps") (simp_all add: strip_any.simps [of ps s])
qed

lemma find_prefix_None_iff:
  "find (\<lambda>p. p \<noteq> [] \<and> prefix p s) ps = None \<longleftrightarrow> (\<forall>p \<in> set ps. p \<noteq> [] \<longrightarrow> \<not> prefix p s)"
  by (auto simp: find_None_iff)

lemma trim_space_Nil [simp]: "trim_space [] = []"
proof -
  have "strip_any ps [] = []" for ps
    by (rule strip_any_fixed) (auto simp: find_None_iff)
  then show ?thesis by (simp add: trim_space_def)
qed

text \<open>Trimming changes nothing on a string that neither starts nor ends with white space.\<close>

definition trimmed :: "string \<Rightarrow> bool" where
  "trimmed s \<longleftrightarrow> (\<forall>p \<in> set space_runes. \<not> prefix p s \<and> \<not> suffix p s)"

lemma space_runes_nonempty: "p \<in> set space_runes \<Longrightarrow> p \<noteq> []"
  by (auto simp: space_runes_def)

lemma trim_space_trimmed: "trimmed s \<Longrightarrow> trim_space s = s"
proof -
  assume t: "trimmed s"
  then have "strip_any space_runes s = s"
    by (intro strip_any_fixed) (auto simp: trimmed_def find_None_iff)
  moreover have "strip_any (map rev space_runes) (rev s) = rev s"
    using t by (intro strip_any_fixed)
      (auto simp: trimmed_def find_None_iff suffix_to_prefix)
  ultimately show ?thesis by (simp add: trim_space_def)
qed

lemma trimmed_trim_space: "trimmed (trim_space s)"
proof -
  let ?l = "strip_any space_runes s"
  let ?t = "trim_space s"
  have "suffix (rev ?t) (rev ?l)"
    unfolding trim_space_def using strip_any_suffix by simp
  then have pre: "prefix ?t ?l"
    by (simp add: suffix_to_prefix)
  have "\<not> prefix p ?t" if "p \<in> set space_runes" for p
  proof
    assume "prefix p ?t"
    with pre have "prefix p ?l" using prefix_order.trans by blast
    with that strip_any_result [of space_runes s] show False
      by (auto simp: find_None_iff dest: space_runes_nonempty)
  qed
  moreover have "\<not> suffix p ?t" if "p \<in> set space_runes" for p
    using that strip_any_result [of "map rev space_runes" "rev ?l"]
    by (auto simp: find_None_iff suffix_to_prefix trim_space_def dest: space_runes_nonempty)
  ultimately show ?thesis by (simp add: trimmed_def)
qed

lemma trim_space_idem [simp]: "trim_space (trim_space s) = trim_space s"
  by (rule trim_space_trimmed) (rule trimmed_trim_space)

text \<open>A string of visible ASCII bytes at both ends is trimmed.\<close>

lemma graphic_ends_trimmed:
  assumes "s \<noteq> []" and "33 \<le> byte (hd s)" and "byte (hd s) < 128"
    and "33 \<le> byte (last s)" and "byte (last s) < 128"
  shows "trimmed s"
proof -
  have hd_bad: "byte (hd p) < 33 \<or> 128 \<le> byte (hd p)" if "p \<in> set space_runes" for p
    using that by (auto simp: space_runes_def byte_def)
  have last_bad: "byte (last p) < 33 \<or> 128 \<le> byte (last p)" if "p \<in> set space_runes" for p
    using that by (auto simp: space_runes_def byte_def)
  have "\<not> prefix p s" if p: "p \<in> set space_runes" for p
  proof
    assume "prefix p s"
    with space_runes_nonempty [OF p] have "hd p = hd s"
      by (auto simp: prefix_def)
    with hd_bad [OF p] assms show False by auto
  qed
  moreover have "\<not> suffix p s" if p: "p \<in> set space_runes" for p
  proof
    assume "suffix p s"
    with space_runes_nonempty [OF p] have "last p = last s"
      by (auto simp: suffix_def)
    with last_bad [OF p] assms show False by auto
  qed
  ultimately show ?thesis by (simp add: trimmed_def)
qed

lemma digits_trimmed: "list_all is_digit s \<Longrightarrow> trimmed s"
proof (cases "s = []")
  case False
  assume "list_all is_digit s"
  with False have "is_digit (hd s)" and "is_digit (last s)"
    by (auto simp: list_all_iff)
  with False show ?thesis by (intro graphic_ends_trimmed) (auto simp: is_digit_def)
qed (auto simp: trimmed_def dest: space_runes_nonempty)

section \<open>Byte-wise string operations\<close>

text \<open>\<open>strings.ReplaceAll(s, "c", "")\<close> and \<open>strings.ReplaceAll(s, "c", "d")\<close>.\<close>

definition remove_byte :: "char \<Rightarrow> string \<Rightarrow> string" where
  "remove_byte c s = filter (\<lambda>x. x \<noteq> c) s"

definition replace_byte :: "char \<Rightarrow> char \<Rightarrow> string \<Rightarrow> string" where
  "replace_byte c d s = map (\<lambda>x. if x = c then d else x) s"

text \<open>\<open>strings.Split(s, "c")\<close> for a one-byte separator; never empty.\<close>

fun split_byte :: "char \<Rightarrow> string \<Rightarrow> string list" where
  "split_byte c [] = [[]]"
| "split_byte c (x # xs) =
     (if x = c then [] # split_byte c xs
      else (case split_byte c xs of [] \<Rightarrow> [[x]] | p # ps \<Rightarrow> (x # p) # ps))"

lemma split_byte_not_Nil [simp]: "split_byte c s \<noteq> []"
  by (induction s) (auto split: list.splits)

lemma length_split_byte: "length (split_byte c s) = Suc (count_list s c)"
proof (induction s)
  case (Cons x s)
  then show ?case by (cases "split_byte c s") auto
qed simp

text \<open>\<open>strings.Cut(s, "c")\<close>: the text before the first occurrence, after it, and whether there is one.\<close>

fun cut_byte :: "char \<Rightarrow> string \<Rightarrow> string \<times> string \<times> bool" where
  "cut_byte c [] = ([], [], False)"
| "cut_byte c (x # xs) =
     (if x = c then ([], xs, True)
      else (case cut_byte c xs of (b, a, f) \<Rightarrow> (x # b, a, f)))"

text \<open>\<open>strings.Join(parts, sep)\<close>.\<close>

fun join :: "string \<Rightarrow> string list \<Rightarrow> string" where
  "join sep [] = []"
| "join sep [x] = x"
| "join sep (x # y # zs) = x @ sep @ join sep (y # zs)"

lemma split_byte_absent: "c \<notin> set s \<Longrightarrow> split_byte c s = [s]"
  by (induction s) auto

lemma split_byte_append: "c \<notin> set s \<Longrightarrow> split_byte c (s @ c # t) = s # split_byte c t"
  by (induction s) (auto split: list.split)

lemma split_join: "xs \<noteq> [] \<Longrightarrow> \<forall>x \<in> set xs. c \<notin> set x \<Longrightarrow> split_byte c (join [c] xs) = xs"
  by (induction "[c]" xs rule: join.induct) (simp_all add: split_byte_absent split_byte_append)

lemma cut_byte_absent: "c \<notin> set i \<Longrightarrow> cut_byte c i = (i, [], False)"
  by (induction i) auto

text \<open>\<open>strings.Contains\<close>.\<close>

definition contains :: "string \<Rightarrow> string \<Rightarrow> bool" where
  "contains s sub = sublist sub s"

text \<open>\<open>strings.ToLower\<close> and \<open>strings.ToUpper\<close> on one ASCII byte.\<close>

definition ascii_lower :: "char \<Rightarrow> char" where
  "ascii_lower c = (if 65 \<le> byte c \<and> byte c \<le> 90 then char_of (byte c + 32) else c)"

definition ascii_upper :: "char \<Rightarrow> char" where
  "ascii_upper c = (if 97 \<le> byte c \<and> byte c \<le> 122 then char_of (byte c - 32) else c)"

definition is_ascii :: "string \<Rightarrow> bool" where
  "is_ascii s \<longleftrightarrow> list_all (\<lambda>c. byte c < 128) s"

text \<open>
  \<open>strings.ToLower\<close> takes a byte-wise path on ASCII strings and maps code points by the Unicode
  tables otherwise; the tables are the argument \<open>uni\<close>.
\<close>

definition to_lower :: "(string \<Rightarrow> string) \<Rightarrow> string \<Rightarrow> string" where
  "to_lower uni s = (if is_ascii s then map ascii_lower s else uni s)"

definition to_upper :: "(string \<Rightarrow> string) \<Rightarrow> string \<Rightarrow> string" where
  "to_upper uni s = (if is_ascii s then map ascii_upper s else uni s)"

end
