(* ===== verification/Loan_Values.thy ===== *)
theory Loan_Values
  imports Prelude
begin

text \<open>
  The value types of \<open>src/internal/loan\<close>: the sentinel errors (\<open>errors.go\<close>), the exact rational
  \<open>Money\<close> with its parsing and printing (\<open>money.go\<close>) and the civil \<open>Date\<close> (\<open>date.go\<close>).

  \<open>Money\<close> wraps a \<open>big.Rat\<close> whose nil value is zero, so it is a HOL \<^typ>\<open>rat\<close>; its arithmetic
  methods are the operations of \<^typ>\<open>rat\<close>. A \<open>Date\<close> is a civil date of the business time zone.
  Midnight exists on every day there (the default zone, Asia/Jakarta, has a fixed offset), so
  going through \<open>time.Time\<close> and back does not change it.
\<close>

section \<open>Errors\<close>

datatype sentinel =
    ErrNotFound | ErrAmbiguousAccountResolution | ErrInvalidInput | ErrUnsupportedCalculation
  | ErrUnsupportedRepaymentReversal | ErrUnsupportedRepaymentAdjustment | ErrHistoricalEvidence
  | ErrCurrentSnapshot | ErrFincloudCredentials | ErrFincloudSession | ErrFincloudUnavailable
  | ErrDWHUnavailable | ErrMSOUnavailable | ErrInvariant

text \<open>
  An error value is the list of sentinels it wraps (\<open>fmt.Errorf("%w")\<close>, \<open>errors.Join\<close>); the
  message text is not modelled, and an error that wraps no sentinel is the empty list.
\<close>

type_synonym err = "sentinel list"
type_synonym 'a res = "err + 'a"

fun sentinel_chain :: "sentinel \<Rightarrow> sentinel list" where
  "sentinel_chain ErrUnsupportedRepaymentReversal =
     [ErrUnsupportedRepaymentReversal, ErrUnsupportedCalculation]"
| "sentinel_chain ErrUnsupportedRepaymentAdjustment =
     [ErrUnsupportedRepaymentAdjustment, ErrUnsupportedCalculation]"
| "sentinel_chain s = [s]"

definition errors_is :: "err \<Rightarrow> sentinel \<Rightarrow> bool" where
  "errors_is e target = list_ex (\<lambda>s. target \<in> set (sentinel_chain s)) e"

section \<open>Money\<close>

type_synonym money = rat

abbreviation is_zero :: "money \<Rightarrow> bool" where "is_zero m \<equiv> m = 0"
abbreviation is_negative :: "money \<Rightarrow> bool" where "is_negative m \<equiv> m < 0"
abbreviation is_positive :: "money \<Rightarrow> bool" where "is_positive m \<equiv> 0 < m"

definition min_money :: "money \<Rightarrow> money \<Rightarrow> money" where
  "min_money left right = (if left \<le> right then left else right)"

definition div_int :: "money \<Rightarrow> int \<Rightarrow> money res" where
  "div_int m divisor = (if divisor = 0 then Inl [] else Inr (m / of_int divisor))"

text \<open>The pattern \<^verbatim>\<open>^[+-]?[0-9]+(?:\.[0-9]+)?$\<close> and the value \<open>big.Rat.SetString\<close> gives to a match.\<close>

definition drop_sign :: "string \<Rightarrow> string" where
  "drop_sign s = (case s of [] \<Rightarrow> [] | c # cs \<Rightarrow> if c = CHR ''-'' \<or> c = CHR ''+'' then cs else s)"

definition decimal_pattern :: "string \<Rightarrow> bool" where
  "decimal_pattern s =
     (case cut_byte (CHR ''.'') (drop_sign s) of (i, f, found) \<Rightarrow>
        i \<noteq> [] \<and> list_all is_digit i \<and> (found \<longrightarrow> f \<noteq> [] \<and> list_all is_digit f))"

definition rat_set_string :: "string \<Rightarrow> rat" where
  "rat_set_string s =
     (case cut_byte (CHR ''.'') (drop_sign s) of (i, f, found) \<Rightarrow>
        (if s \<noteq> [] \<and> hd s = CHR ''-'' then -1 else 1)
        * (of_nat (digits_value (i @ f)) / 10 ^ length f))"

definition parse_money :: "string \<Rightarrow> money res" where
  "parse_money raw =
     (let s = trim_space raw
      in if \<not> decimal_pattern s then Inl [] else Inr (rat_set_string s))"

text \<open>\<open>big.Rat.FloatString\<close>: decimal digits after the point, rounded half away from zero.\<close>

definition float_string :: "nat \<Rightarrow> rat \<Rightarrow> string" where
  "float_string prec x =
     (case quotient_of x of (a, b) \<Rightarrow>
        if b = 1 then itoa a @ (if 0 < prec then CHR ''.'' # replicate prec (CHR ''0'') else [])
        else
          let n = nat \<bar>a\<bar>; d = nat b; p = 10 ^ prec; q = n div d;
              r = (n mod d * p) div d; r2 = (n mod d * p) mod d;
              (q', r') = (if d \<le> 2 * r2
                          then (if p \<le> r + 1 then (q + 1, r + 1 - p) else (q, r + 1))
                          else (q, r))
          in (if a < 0 then ''-'' else '''') @ utoa q' @
             (if 0 < prec then CHR ''.'' # pad_zero prec (utoa r') else []))"

definition money_format :: "int \<Rightarrow> money \<Rightarrow> string" where
  "money_format scale m = float_string (nat scale) m"

definition trim_right_byte :: "char \<Rightarrow> string \<Rightarrow> string" where
  "trim_right_byte c s = rev (dropWhile (\<lambda>x. x = c) (rev s))"

definition money_string :: "money \<Rightarrow> string" where
  "money_string m =
     (let v = trim_right_byte (CHR ''.'') (trim_right_byte (CHR ''0'') (money_format 10 m))
      in if v = '''' \<or> v = ''-0'' then ''0'' else v)"

text \<open>The two division loops of \<open>ExactDecimal\<close>; a denominator is positive, so they end.\<close>

function strip_factor :: "nat \<Rightarrow> nat \<Rightarrow> nat \<times> nat" where
  "strip_factor p d =
     (if 1 < p \<and> 0 < d \<and> d mod p = 0
      then (case strip_factor p (d div p) of (d', k) \<Rightarrow> (d', Suc k)) else (d, 0))"
  by pat_completeness auto
termination
  by (relation "measure snd") auto

declare strip_factor.simps [simp del]

definition exact_decimal :: "money \<Rightarrow> string res" where
  "exact_decimal m =
     (case quotient_of m of (num, den) \<Rightarrow>
      case strip_factor 2 (nat den) of (d2, two) \<Rightarrow>
      case strip_factor 5 d2 of (d5, five) \<Rightarrow>
        if d5 \<noteq> 1 then Inl []
        else
          let scale = max two five;
              digits = nat \<bar>num\<bar> * 2 ^ (scale - two) * 5 ^ (scale - five);
              raw0 = utoa digits;
              raw1 = (if length raw0 \<le> scale
                      then replicate (scale - length raw0 + 1) (CHR ''0'') @ raw0 else raw0);
              raw = (if 0 < scale
                     then trim_right_byte (CHR ''.'') (trim_right_byte (CHR ''0'')
                            (take (length raw1 - scale) raw1 @ CHR ''.'' #
                             drop (length raw1 - scale) raw1))
                     else raw0)
          in Inr (if num < 0 \<and> raw \<noteq> ''0'' then CHR ''-'' # raw else raw))"

text \<open>\<open>Scan\<close> of a driver value and \<open>Value\<close>, the form sent to the database.\<close>

datatype sql_value = SqlNull | SqlString string | SqlBytes string | SqlInt64 int | SqlOther

fun money_scan :: "sql_value \<Rightarrow> money res" where
  "money_scan SqlNull = Inl []"
| "money_scan (SqlString raw) = parse_money raw"
| "money_scan (SqlBytes raw) = parse_money raw"
| "money_scan (SqlInt64 v) = Inr (of_int v)"
| "money_scan SqlOther = Inl []"

definition money_value :: "money \<Rightarrow> sql_value" where
  "money_value m = SqlString (money_format 10 m)"

section \<open>Dates\<close>

record date =
  year :: int
  month :: int
  day :: int

definition mk_date :: "int \<Rightarrow> int \<Rightarrow> int \<Rightarrow> date" where
  "mk_date y m d = \<lparr>year = y, month = m, day = d\<rparr>"

definition zero_date :: date where
  "zero_date = mk_date 0 0 0"

definition date_is_zero :: "date \<Rightarrow> bool" where
  "date_is_zero d \<longleftrightarrow> year d = 0"

definition date_key :: "date \<Rightarrow> int" where
  "date_key d = year d * 10000 + month d * 100 + day d"

definition date_before :: "date \<Rightarrow> date \<Rightarrow> bool" where
  "date_before a b \<longleftrightarrow> date_key a < date_key b"

definition date_after :: "date \<Rightarrow> date \<Rightarrow> bool" where
  "date_after a b \<longleftrightarrow> date_key a > date_key b"

definition date_equal :: "date \<Rightarrow> date \<Rightarrow> bool" where
  "date_equal a b \<longleftrightarrow> date_key a = date_key b"

text \<open>The proleptic Gregorian calendar of package \<open>time\<close>.\<close>

definition leap_year :: "int \<Rightarrow> bool" where
  "leap_year y \<longleftrightarrow> y mod 4 = 0 \<and> (y mod 100 \<noteq> 0 \<or> y mod 400 = 0)"

definition days_in_month :: "int \<Rightarrow> int \<Rightarrow> int" where
  "days_in_month y m =
     (if m = 2 then (if leap_year y then 29 else 28)
      else if m \<in> {4, 6, 9, 11} then 30 else 31)"

definition civil :: "date \<Rightarrow> bool" where
  "civil d \<longleftrightarrow> 1 \<le> month d \<and> month d \<le> 12 \<and> 1 \<le> day d \<and> day d \<le> days_in_month (year d) (month d)"

definition next_day :: "date \<Rightarrow> date" where
  "next_day d =
     (if day d < days_in_month (year d) (month d) then d\<lparr>day := day d + 1\<rparr>
      else if month d < 12 then mk_date (year d) (month d + 1) 1
      else mk_date (year d + 1) 1 1)"

definition prev_day :: "date \<Rightarrow> date" where
  "prev_day d =
     (if 1 < day d then d\<lparr>day := day d - 1\<rparr>
      else if 1 < month d then mk_date (year d) (month d - 1) (days_in_month (year d) (month d - 1))
      else mk_date (year d - 1) 12 31)"

definition add_days :: "date \<Rightarrow> int \<Rightarrow> date" where
  "add_days d n = (if 0 \<le> n then (next_day ^^ nat n) d else (prev_day ^^ nat (- n)) d)"

text \<open>
  \<open>time.ParseInLocation\<close> for the layouts the sources use: two-digit months and days, four-digit
  years, nothing else in the text, and a day that exists in its month.
\<close>

definition civil_of_texts :: "string \<Rightarrow> string \<Rightarrow> string \<Rightarrow> date option" where
  "civil_of_texts y m d =
     (if length y = 4 \<and> length m = 2 \<and> length d = 2 \<and> list_all is_digit (y @ m @ d)
      then (let v = mk_date (int (digits_value y)) (int (digits_value m)) (int (digits_value d))
            in if civil v then Some v else None)
      else None)"

text \<open>Layout \<open>2006-01-02\<close> (the constant \<open>DateLayout\<close>).\<close>

definition time_parse_dashed :: "string \<Rightarrow> date option" where
  "time_parse_dashed s =
     (if length s = 10 \<and> s ! 4 = CHR ''-'' \<and> s ! 7 = CHR ''-''
      then civil_of_texts (take 4 s) (take 2 (drop 5 s)) (drop 8 s) else None)"

text \<open>Layout \<open>20060102\<close>.\<close>

definition time_parse_compact :: "string \<Rightarrow> date option" where
  "time_parse_compact s =
     (if length s = 8 then civil_of_texts (take 4 s) (take 2 (drop 4 s)) (drop 6 s) else None)"

text \<open>Layout \<open>02/01/2006\<close>.\<close>

definition time_parse_slashed :: "string \<Rightarrow> date option" where
  "time_parse_slashed s =
     (if length s = 10 \<and> s ! 2 = CHR ''/'' \<and> s ! 5 = CHR ''/''
      then civil_of_texts (drop 6 s) (take 2 (drop 3 s)) (take 2 s) else None)"

text \<open>A \<open>*time.Location\<close>: \<^const>\<open>None\<close> is nil, otherwise the zone's name.\<close>

type_synonym location = "string option"

definition parse_date :: "string \<Rightarrow> location \<Rightarrow> date res" where
  "parse_date raw loc =
     (case loc of None \<Rightarrow> Inl []
      | Some _ \<Rightarrow> (case time_parse_dashed raw of None \<Rightarrow> Inl [] | Some d \<Rightarrow> Inr d))"

definition date_string :: "date \<Rightarrow> string" where
  "date_string d =
     (if date_is_zero d then ''''
      else pad_zero 4 (itoa (year d)) @ ''-'' @ pad_zero 2 (itoa (month d)) @ ''-''
           @ pad_zero 2 (itoa (day d)))"

text \<open>\<open>now\<close> is read as its civil date \<open>today\<close> in the location.\<close>

definition default_reporting_date :: "date \<Rightarrow> date" where
  "default_reporting_date today =
     (let tomorrow = add_days today 1
      in if month tomorrow \<noteq> month today then today
         else add_days (mk_date (year today) (month today) 1) (-1))"

section \<open>Money: parsing and printing\<close>

lemma cut_byte_found: "c \<notin> set i \<Longrightarrow> cut_byte c (i @ c # f) = (i, f, True)"
  by (induction i) auto

lemma digits_no_dot: "list_all is_digit s \<Longrightarrow> CHR ''.'' \<notin> set s"
  using digit_not_punct(3) by (fastforce simp: list_all_iff)

text \<open>A printed decimal: optional minus sign, integer digits, optional fraction.\<close>

definition decimal_text :: "bool \<Rightarrow> string \<Rightarrow> string \<Rightarrow> string" where
  "decimal_text neg i f = (if neg then ''-'' else '''') @ i @ (if f = [] then [] else CHR ''.'' # f)"

lemma decimal_text_cut:
  assumes "list_all is_digit i" and "i \<noteq> []" and "list_all is_digit f"
  shows "cut_byte (CHR ''.'') (drop_sign (decimal_text neg i f)) = (i, f, f \<noteq> [])"
proof -
  have "drop_sign (decimal_text neg i f) = i @ (if f = [] then [] else CHR ''.'' # f)"
    using assms by (cases i) (auto simp: drop_sign_def decimal_text_def)
  then show ?thesis
    using cut_byte_found [OF digits_no_dot [OF assms(1)]]
      cut_byte_absent [OF digits_no_dot [OF assms(1)]] by simp
qed

lemma decimal_text_trimmed:
  assumes "list_all is_digit i" and "i \<noteq> []" and "list_all is_digit f"
  shows "trimmed (decimal_text neg i f)"
proof (rule graphic_ends_trimmed)
  let ?s = "decimal_text neg i f"
  show "?s \<noteq> []" using assms by (simp add: decimal_text_def)
  have "is_digit (hd i)" and "is_digit (last i)" using assms by (auto simp: list_all_iff)
  moreover have "f \<noteq> [] \<Longrightarrow> is_digit (last f)" using assms(3) by (auto simp: list_all_iff)
  ultimately have "hd ?s = CHR ''-'' \<or> is_digit (hd ?s)" and "is_digit (last ?s)"
    using assms(2) by (auto simp: decimal_text_def)
  then show "33 \<le> byte (hd ?s)" "byte (hd ?s) < 128" "33 \<le> byte (last ?s)" "byte (last ?s) < 128"
    by (auto simp: is_digit_def byte_def)
qed

lemma parse_money_decimal_text:
  assumes "list_all is_digit i" and "i \<noteq> []" and "list_all is_digit f"
  shows "parse_money (decimal_text neg i f) =
    Inr ((if neg then -1 else 1) * (of_nat (digits_value (i @ f)) / 10 ^ length f))"
proof -
  have "decimal_text neg i f \<noteq> [] \<and> hd (decimal_text neg i f) = CHR ''-'' \<longleftrightarrow> neg"
    using assms by (cases i) (auto simp: decimal_text_def)
  then show ?thesis
    using assms decimal_text_cut [OF assms, of neg]
    by (auto simp: parse_money_def trim_space_trimmed decimal_text_trimmed decimal_pattern_def
        rat_set_string_def)
qed

definition round_away :: "nat \<Rightarrow> money \<Rightarrow> money" where
  "round_away s x = (if x < 0 then -1 else 1) * (of_int \<lfloor>\<bar>x\<bar> * 10 ^ s + 1 / 2\<rfloor> / 10 ^ s)"

lemma round_div:
  assumes "0 < (d::nat)"
  shows "(2 * m + d) div (2 * d) = m div d + (if d \<le> 2 * (m mod d) then 1 else 0)"
proof -
  let ?r = "m mod d"
  have "2 * m = 2 * (m div d * d) + 2 * ?r"
    using div_mult_mod_eq [of m d] by linarith
  then have "2 * m + d = (2 * ?r + d) + m div d * (2 * d)"
    by (simp add: mult.left_commute)
  then have eq: "(2 * m + d) div (2 * d) = m div d + (2 * ?r + d) div (2 * d)"
    using assms by (metis div_mult_self3 mult_eq_0_iff not_gr0 zero_neq_numeral add.commute)
  have "?r < d" using assms by simp
  then have "(2 * ?r + d) div (2 * d) = (if d \<le> 2 * ?r then 1 else 0)"
    by (auto intro!: div_nat_eqI)
  with eq show ?thesis by simp
qed

lemma floor_half:
  assumes "0 < d"
  shows "\<lfloor>of_nat m / of_nat d + 1 / 2 :: rat\<rfloor> = int (m div d + (if d \<le> 2 * (m mod d) then 1 else 0))"
proof -
  have "(of_nat m / of_nat d + 1 / 2 :: rat) = of_nat (2 * m + d) / of_nat (2 * d)"
    using assms by (simp add: field_simps)
  then show ?thesis
    using round_div [OF assms, of m] by (simp only: floor_divide_of_nat_eq)
qed

lemma scale_split:
  assumes "0 < (d::nat)"
  shows "n div d * p + (n mod d * p) div d = (n * p) div d" and "(n mod d * p) mod d = (n * p) mod d"
proof -
  have "n * p = n mod d * p + (n div d * p) * d"
    using div_mult_mod_eq [of n d] by (metis add.commute add_mult_distrib mult.assoc mult.commute)
  then show "n div d * p + (n mod d * p) div d = (n * p) div d"
    using assms by (metis add.commute div_mult_self1 not_less0)
  show "(n mod d * p) mod d = (n * p) mod d"
    by (simp add: mod_mult_left_eq)
qed

lemma quotient_of_nat:
  assumes "quotient_of x = (a, b)"
  shows "0 < b" and "\<bar>x\<bar> = of_nat (nat \<bar>a\<bar>) / of_nat (nat b)" and "x < 0 \<longleftrightarrow> a < 0"
proof -
  show b: "0 < b" using assms by (rule quotient_of_denom_pos)
  have x: "x = of_int a / of_int b" using assms by (rule quotient_of_div)
  show "\<bar>x\<bar> = of_nat (nat \<bar>a\<bar>) / of_nat (nat b)" using b by (simp add: x)
  show "x < 0 \<longleftrightarrow> a < 0" using b by (simp add: x divide_less_0_iff)
qed

text \<open>The digits \<open>FloatString\<close> prints: the integer part and the fraction after rounding.\<close>

lemma float_string_text:
  "\<exists>i f. float_string p x = decimal_text (x < 0) i f \<and> list_all is_digit i \<and> i \<noteq> []
     \<and> list_all is_digit f \<and> length f = p
     \<and> int (digits_value (i @ f)) = \<lfloor>\<bar>x\<bar> * 10 ^ p + 1 / 2\<rfloor>"
proof -
  obtain a b where ab: "quotient_of x = (a, b)" by (cases "quotient_of x")
  note q = quotient_of_nat [OF ab]
  show ?thesis
  proof (cases "b = 1")
    case True
    let ?i = "utoa (nat \<bar>a\<bar>)" and ?f = "replicate p (CHR ''0'')"
    have "float_string p x = decimal_text (x < 0) ?i ?f"
      using True q(3) by (auto simp: float_string_def ab itoa_def decimal_text_def)
    moreover have "\<lfloor>\<bar>x\<bar> * 10 ^ p + 1 / 2\<rfloor> = \<bar>a\<bar> * 10 ^ p"
    proof -
      have "\<bar>x\<bar> * 10 ^ p + 1 / 2 = of_int (\<bar>a\<bar> * 10 ^ p) + 1 / 2"
        using True q(2) by simp
      then show ?thesis by linarith
    qed
    moreover have "int (digits_value (?i @ ?f)) = \<bar>a\<bar> * 10 ^ p"
      by (simp add: digits_value_append)
    moreover have "list_all is_digit ?f" by (auto simp: list_all_iff)
    ultimately show ?thesis using utoa_digits by (metis length_replicate utoa_not_Nil)
  next
    case False
    let ?n = "nat \<bar>a\<bar>" and ?d = "nat b" and ?p = "10 ^ p :: nat"
    let ?q = "?n div ?d" and ?r = "(?n mod ?d * ?p) div ?d" and ?r2 = "(?n mod ?d * ?p) mod ?d"
    define qr where "qr = (if ?d \<le> 2 * ?r2
      then (if ?p \<le> ?r + 1 then (?q + 1, ?r + 1 - ?p) else (?q, ?r + 1)) else (?q, ?r))"
    have d: "0 < ?d" using q(1) by simp
    have "?r < ?p"
      using d by (simp add: div_less_iff_less_mult)
    then have bound: "snd qr < ?p"
      and val: "fst qr * ?p + snd qr = ?q * ?p + ?r + (if ?d \<le> 2 * ?r2 then 1 else 0)"
      by (auto simp: qr_def algebra_simps)
    let ?i = "utoa (fst qr)"
      and ?f = "if 0 < p then pad_zero p (utoa (snd qr)) else []"
    have len: "length ?f = p"
      using length_utoa_le [OF bound] by (auto simp: length_pad_zero)
    have "float_string p x = (if a < 0 then ''-'' else '''') @ ?i @
        (if 0 < p then CHR ''.'' # pad_zero p (utoa (snd qr)) else [])"
      using False unfolding float_string_def ab Let_def prod.case qr_def [symmetric]
      by (simp add: case_prod_beta)
    then have "float_string p x = decimal_text (x < 0) ?i ?f"
      using q(3) len by (auto simp: decimal_text_def)
    moreover have "list_all is_digit ?f" by (simp add: pad_zero_digits utoa_digits)
    moreover have "int (digits_value (?i @ ?f)) = \<lfloor>\<bar>x\<bar> * 10 ^ p + 1 / 2\<rfloor>"
    proof -
      have "digits_value ?f = snd qr" using bound by (cases "p = 0") auto
      then have "digits_value (?i @ ?f) = ?q * ?p + ?r + (if ?d \<le> 2 * ?r2 then 1 else 0)"
        by (simp only: digits_value_append digits_value_utoa len val)
      also have "\<dots> = (?n * ?p) div ?d + (if ?d \<le> 2 * ((?n * ?p) mod ?d) then 1 else 0)"
        by (simp only: scale_split [OF d])
      finally have "int (digits_value (?i @ ?f)) = \<lfloor>of_nat (?n * ?p) / of_nat ?d + 1 / 2 :: rat\<rfloor>"
        unfolding floor_half [OF d] by (rule arg_cong)
      also have "of_nat (?n * ?p) / of_nat ?d = \<bar>x\<bar> * (10 ^ p :: rat)"
        using q(2) by simp
      finally show ?thesis .
    qed
    ultimately show ?thesis using len utoa_digits utoa_not_Nil by blast
  qed
qed

lemma parse_float_string: "parse_money (float_string p x) = Inr (round_away p x)"
proof -
  obtain i f where t: "float_string p x = decimal_text (x < 0) i f"
    and i: "list_all is_digit i" "i \<noteq> []" and f: "list_all is_digit f" "length f = p"
    and v: "int (digits_value (i @ f)) = \<lfloor>\<bar>x\<bar> * 10 ^ p + 1 / 2\<rfloor>"
    using float_string_text by blast
  have "(of_nat (digits_value (i @ f)) :: rat) = of_int \<lfloor>\<bar>x\<bar> * 10 ^ p + 1 / 2\<rfloor>"
    using v by (metis of_int_of_nat_eq)
  then show ?thesis
    using parse_money_decimal_text [OF i f(1), of "x < 0"] f(2) by (simp add: t round_away_def)
qed

lemma round_away_error: "\<bar>round_away s x - x\<bar> \<le> 1 / (2 * 10 ^ s)"
proof -
  let ?y = "\<bar>x\<bar> * 10 ^ s"
  have "\<bar>of_int \<lfloor>?y + 1 / 2\<rfloor> - ?y\<bar> \<le> 1 / 2" by linarith
  then have "\<bar>of_int \<lfloor>?y + 1 / 2\<rfloor> - ?y\<bar> / 10 ^ s \<le> 1 / 2 / 10 ^ s"
    by (rule divide_right_mono) simp
  then have "\<bar>(of_int \<lfloor>?y + 1 / 2\<rfloor> - ?y) / 10 ^ s\<bar> \<le> 1 / 2 / 10 ^ s"
    by (simp add: abs_divide)
  moreover have "\<bar>round_away s x - x\<bar> = \<bar>(of_int \<lfloor>?y + 1 / 2\<rfloor> - ?y) / 10 ^ s\<bar>"
    by (auto simp: round_away_def diff_divide_distrib abs_if)
  ultimately show ?thesis by (simp add: field_simps)
qed

lemma digit_value_zero [simp]: "digit_value (CHR ''0'') = 0"
  by (simp add: digit_value_def byte_def)

lemma strip_factor_correct:
  assumes "1 < p" and "0 < d" and "strip_factor p d = (d', k)"
  shows "d = d' * p ^ k" and "\<not> p dvd d'"
proof -
  have "d = d' * p ^ k \<and> \<not> p dvd d'"
    using assms
  proof (induction p d arbitrary: d' k rule: strip_factor.induct)
    case (1 p d)
    show ?case
    proof (cases "d mod p = 0")
      case True
      with "1.prems" obtain k0 where k: "k = Suc k0" and rec: "strip_factor p (d div p) = (d', k0)"
        by (auto simp: strip_factor.simps [of p d] split: prod.splits)
      have "0 < d div p"
        using True "1.prems" by (auto simp: mod_eq_0_iff_dvd div_greater_zero_iff dvd_imp_le)
      with "1.IH" "1.prems" True rec have "d div p = d' * p ^ k0 \<and> \<not> p dvd d'"
        by auto
      moreover have "d = d div p * p" using True by (simp add: mod_eq_0_iff_dvd)
      ultimately show ?thesis by (metis k mult.assoc power_Suc2)
    next
      case False
      with "1.prems" have "d' = d" and "k = 0" by (auto simp: strip_factor.simps [of p d])
      with False show ?thesis by (simp add: dvd_eq_mod_eq_0)
    qed
  qed
  then show "d = d' * p ^ k" and "\<not> p dvd d'" by auto
qed

lemma coprime_5: "\<not> 5 dvd (d::nat) \<Longrightarrow> coprime d 5"
proof -
  assume "\<not> 5 dvd d"
  then have "d mod 5 \<noteq> 0" by (simp add: dvd_eq_mod_eq_0)
  moreover have "d mod 5 < 5" by simp
  ultimately have "d mod 5 \<in> {1, 2, 3, 4}" by auto
  moreover have "\<forall>r \<in> {1, 2, 3, 4}. coprime r (5::nat)"
    by code_simp
  ultimately have "coprime (d mod 5) 5" by blast
  then show ?thesis by simp
qed

lemma trim_zeros_after_dot:
  "trim_right_byte (CHR ''0'') (i @ CHR ''.'' # f) = i @ CHR ''.'' # trim_right_byte (CHR ''0'') f"
proof -
  have "dropWhile (\<lambda>x. x = CHR ''0'') (rev f @ CHR ''.'' # rev i)
      = dropWhile (\<lambda>x. x = CHR ''0'') (rev f) @ CHR ''.'' # rev i"
    by (induction "rev f") (simp_all add: dropWhile_append3)
  then show ?thesis by (simp add: trim_right_byte_def)
qed

lemma trim_right_byte_split: "\<exists>n. s = trim_right_byte c s @ replicate n c"
proof -
  have "rev s = takeWhile (\<lambda>x. x = c) (rev s) @ dropWhile (\<lambda>x. x = c) (rev s)" by simp
  then have "s = trim_right_byte c s @ rev (takeWhile (\<lambda>x. x = c) (rev s))"
    unfolding trim_right_byte_def by (metis rev_append rev_rev_ident)
  moreover have "rev (takeWhile (\<lambda>x. x = c) (rev s)) = replicate (length (takeWhile (\<lambda>x. x = c) (rev s))) c"
    by (rule replicate_eqI) (auto dest: set_takeWhileD)
  ultimately show ?thesis by metis
qed

lemma trim_right_byte_fixed: "s = [] \<or> last s \<noteq> c \<Longrightarrow> trim_right_byte c s = s"
  by (cases s rule: rev_cases) (auto simp: trim_right_byte_def)

lemma trim_right_byte_snoc [simp]: "trim_right_byte c (s @ [c]) = trim_right_byte c s"
  by (simp add: trim_right_byte_def)

lemma trim_decimal:
  assumes "list_all is_digit i" and "i \<noteq> []" and "list_all is_digit f"
  shows "trim_right_byte (CHR ''.'') (trim_right_byte (CHR ''0'') (i @ CHR ''.'' # f))
    = decimal_text False i (trim_right_byte (CHR ''0'') f)"
proof -
  let ?g = "trim_right_byte (CHR ''0'') f"
  have g: "list_all is_digit ?g"
    using trim_right_byte_split [of f "CHR ''0''"] assms(3) by (metis list_all_append)
  show ?thesis
  proof (cases "?g = []")
    case True
    have "is_digit (last i)" using assms by (auto simp: list_all_iff)
    then have "last i \<noteq> CHR ''.''" by auto
    with True show ?thesis
      by (simp add: trim_zeros_after_dot decimal_text_def trim_right_byte_fixed)
  next
    case False
    with g have "is_digit (last ?g)" by (auto simp: list_all_iff)
    then have "last ?g \<noteq> CHR ''.''" by auto
    with False show ?thesis
      by (simp add: trim_zeros_after_dot decimal_text_def trim_right_byte_fixed)
  qed
qed

lemma decimal_value_trim:
  "of_nat (digits_value (i @ f)) / 10 ^ length f
   = (of_nat (digits_value (i @ trim_right_byte (CHR ''0'') f)) / 10 ^ length (trim_right_byte (CHR ''0'') f) :: rat)"
proof -
  let ?g = "trim_right_byte (CHR ''0'') f"
  obtain n where n: "f = ?g @ replicate n (CHR ''0'')" using trim_right_byte_split by blast
  have "digits_value (i @ f) = digits_value ((i @ ?g) @ replicate n (CHR ''0''))"
    by (metis append_assoc n)
  also have "\<dots> = digits_value (i @ ?g) * 10 ^ n"
    by (simp only: digits_value_append digits_value_zeros) simp
  finally have "of_nat (digits_value (i @ f)) = (of_nat (digits_value (i @ ?g)) * 10 ^ n :: rat)"
    by simp
  moreover have "length f = length ?g + n" by (metis n length_append length_replicate)
  ultimately show ?thesis by (simp add: power_add)
qed

text \<open>The unsigned text of \<open>digits / 10^scale\<close> before trimming.\<close>

lemma exact_decimal_raw:
  fixes digits scale :: nat
  defines "raw0 \<equiv> utoa digits"
  defines "raw1 \<equiv> (if length raw0 \<le> scale then replicate (scale - length raw0 + 1) (CHR ''0'') @ raw0 else raw0)"
  shows "list_all is_digit raw1" and "scale < length raw1" and "digits_value raw1 = digits"
  using utoa_digits [of digits]
  by (auto simp: raw1_def raw0_def digits_value_append digits_value_Cons list_all_iff)

lemma exact_decimal_text:
  fixes digits scale :: nat and neg :: bool
  defines "raw0 \<equiv> utoa digits"
  defines "raw1 \<equiv> (if length raw0 \<le> scale then replicate (scale - length raw0 + 1) (CHR ''0'') @ raw0 else raw0)"
  defines "raw \<equiv> (if 0 < scale then trim_right_byte (CHR ''.'') (trim_right_byte (CHR ''0'')
       (take (length raw1 - scale) raw1 @ CHR ''.'' # drop (length raw1 - scale) raw1)) else raw0)"
  shows "\<exists>i f. raw = decimal_text False i f \<and> list_all is_digit i \<and> i \<noteq> [] \<and> list_all is_digit f
    \<and> of_nat (digits_value (i @ f)) / 10 ^ length f = (of_nat digits / 10 ^ scale :: rat)"
proof (cases "0 < scale")
  case True
  note r = exact_decimal_raw [where digits = digits and scale = scale, folded raw0_def, folded raw1_def]
  let ?i = "take (length raw1 - scale) raw1" and ?f = "drop (length raw1 - scale) raw1"
  let ?g = "trim_right_byte (CHR ''0'') ?f"
  have i: "list_all is_digit ?i" "?i \<noteq> []" and f: "list_all is_digit ?f" "length ?f = scale"
    using r(1,2) by (auto simp: list_all_iff dest: in_set_takeD in_set_dropD)
  have "raw = decimal_text False ?i ?g"
    using True trim_decimal [OF i f(1)] by (simp add: raw_def)
  moreover have "list_all is_digit ?g"
    using trim_right_byte_split [of ?f "CHR ''0''"] f(1) by (metis list_all_append)
  moreover have "of_nat (digits_value (?i @ ?g)) / 10 ^ length ?g = (of_nat digits / 10 ^ scale :: rat)"
    using decimal_value_trim [of ?i ?f] r(3) f(2) by simp
  ultimately show ?thesis using i by blast
next
  case False
  then have "raw = decimal_text False raw0 []" by (simp add: raw_def decimal_text_def)
  moreover have "list_all is_digit raw0" "raw0 \<noteq> []"
    by (simp_all add: raw0_def utoa_digits)
  moreover have "of_nat (digits_value (raw0 @ [])) / 10 ^ length [] = (of_nat digits / 10 ^ scale :: rat)"
    using False by (simp add: raw0_def)
  ultimately show ?thesis by (intro exI [of _ raw0] exI [of _ "[]"]) simp
qed

lemma exact_decimal_factors:
  assumes "quotient_of m = (num, den)" and "strip_factor 2 (nat den) = (d2, two)"
    and "strip_factor 5 d2 = (d5, five)"
  shows "nat den = d5 * 5 ^ five * 2 ^ two" and "coprime d5 10"
proof -
  have den: "0 < nat den" using quotient_of_denom_pos [OF assms(1)] by simp
  have two: "nat den = d2 * 2 ^ two" "\<not> 2 dvd d2"
    using strip_factor_correct [OF _ den assms(2)] by auto
  then have d2: "0 < d2" using den by (cases d2) auto
  have five: "d2 = d5 * 5 ^ five" "\<not> 5 dvd d5"
    using strip_factor_correct [OF _ d2 assms(3)] by auto
  show "nat den = d5 * 5 ^ five * 2 ^ two" using two five by simp
  have "\<not> 2 dvd d5" using two(2) five(1) by auto
  then have "coprime d5 2" by simp
  with coprime_5 [OF five(2)] have "coprime d5 (2 * 5)"
    by (simp only: coprime_mult_right_iff)
  then show "coprime d5 10" by simp
qed

lemma exact_decimal_roundtrip:
  assumes "exact_decimal m = Inr s"
  shows "parse_money s = Inr m"
proof -
  obtain num den where q: "quotient_of m = (num, den)" by (cases "quotient_of m")
  obtain d2 two where f2: "strip_factor 2 (nat den) = (d2, two)" by (cases "strip_factor 2 (nat den)")
  obtain d5 five where f5: "strip_factor 5 d2 = (d5, five)" by (cases "strip_factor 5 d2")
  note den = exact_decimal_factors [OF q f2 f5] and qn = quotient_of_nat [OF q]
  let ?scale = "max two five"
  let ?digits = "nat \<bar>num\<bar> * 2 ^ (?scale - two) * 5 ^ (?scale - five)"
  let ?raw0 = "utoa ?digits"
  let ?raw1 = "if length ?raw0 \<le> ?scale
    then replicate (?scale - length ?raw0 + 1) (CHR ''0'') @ ?raw0 else ?raw0"
  define raw where "raw = (if 0 < ?scale
    then trim_right_byte (CHR ''.'') (trim_right_byte (CHR ''0'')
      (take (length ?raw1 - ?scale) ?raw1 @ CHR ''.'' # drop (length ?raw1 - ?scale) ?raw1))
    else ?raw0)"
  have eq: "exact_decimal m = (if d5 \<noteq> 1 then Inl [] else
        Inr (if num < 0 \<and> raw \<noteq> ''0'' then CHR ''-'' # raw else raw))"
    by (simp only: exact_decimal_def q f2 f5 prod.case Let_def raw_def)
  obtain i f where raw: "raw = decimal_text False i f"
    and i: "list_all is_digit i" "i \<noteq> []" and f: "list_all is_digit f"
    and v: "of_nat (digits_value (i @ f)) / 10 ^ length f = (of_nat ?digits / 10 ^ ?scale :: rat)"
    using exact_decimal_text [where digits = ?digits and scale = ?scale] unfolding raw_def by blast
  have d5: "d5 = 1" using assms eq by (auto split: if_splits)
  have ten: "10 ^ ?scale = (2 ^ two * 2 ^ (?scale - two)) * (5 ^ five * 5 ^ (?scale - five) :: rat)"
    by (simp add: power_add [symmetric] power_mult_distrib [symmetric])
  have "of_nat ?digits / 10 ^ ?scale = (of_nat (nat \<bar>num\<bar>) / of_nat (nat den) :: rat)"
    unfolding den(1) d5 ten by (simp add: field_simps)
  with v qn(2) have val: "of_nat (digits_value (i @ f)) / 10 ^ length f = \<bar>m\<bar>" by simp
  have "decimal_text False i f \<noteq> ''0''" if "num < 0"
  proof
    assume "decimal_text False i f = ''0''"
    then have "parse_money (decimal_text False i f) = Inr 0"
      using parse_money_decimal_text [of "''0''" "[]" False]
      by (simp add: decimal_text_def is_digit_def digit_value_def byte_def)
    then have "m = 0" using parse_money_decimal_text [OF i f, of False] val by simp
    with that qn(3) show False by simp
  qed
  then have "s = decimal_text (m < 0) i f"
    using assms eq raw d5 qn(3) by (auto simp: decimal_text_def split: if_splits)
  then show ?thesis
    using parse_money_decimal_text [OF i f, of "m < 0"] val by simp
qed

lemma exact_decimal_total: "(\<exists>s. exact_decimal m = Inr s) \<longleftrightarrow> (\<exists>k z. m * 10 ^ k = of_int z)"
proof -
  obtain num den where q: "quotient_of m = (num, den)" by (cases "quotient_of m")
  obtain d2 two where f2: "strip_factor 2 (nat den) = (d2, two)" by (cases "strip_factor 2 (nat den)")
  obtain d5 five where f5: "strip_factor 5 d2 = (d5, five)" by (cases "strip_factor 5 d2")
  note den = exact_decimal_factors [OF q f2 f5]
  have pos: "0 < den" using q by (rule quotient_of_denom_pos)
  have m: "m = of_int num / of_int den" using q by (rule quotient_of_div)
  have cop: "coprime num den" using q by (rule quotient_of_coprime)
  have "(\<exists>s. exact_decimal m = Inr s) \<longleftrightarrow> d5 = 1"
    unfolding exact_decimal_def q f2 f5 prod.case Let_def by auto
  also have "\<dots> \<longleftrightarrow> (\<exists>k. den dvd 10 ^ k)"
  proof
    assume "d5 = 1"
    then have "int (nat den) = 5 ^ five * 2 ^ two" using den(1) by simp
    moreover have "(5 ^ five * 2 ^ two :: int) dvd 10 ^ (max two five)"
    proof -
      have "(5 ^ five :: int) dvd 5 ^ max two five" "(2 ^ two :: int) dvd 2 ^ max two five"
        by (simp_all add: le_imp_power_dvd)
      then have "(5 ^ five * 2 ^ two :: int) dvd 5 ^ max two five * 2 ^ max two five"
        by (rule mult_dvd_mono)
      then show ?thesis by (simp add: power_mult_distrib [symmetric])
    qed
    ultimately show "\<exists>k. den dvd 10 ^ k" using pos by auto
  next
    assume "\<exists>k. den dvd 10 ^ k"
    then obtain k where k: "den dvd 10 ^ k" by blast
    have "int d5 dvd den" using den(1) pos by (metis dvd_mult2 dvd_triv_left int_nat_eq less_imp_le of_nat_dvd_iff)
    with k have "int d5 dvd int (10 ^ k)" using dvd_trans by (metis of_nat_numeral of_nat_power)
    then have "d5 dvd 10 ^ k" by (simp only: of_nat_dvd_iff)
    moreover have "coprime d5 (10 ^ k)" using den(2) by simp
    ultimately show "d5 = 1" using coprime_common_divisor_nat dvd_refl by blast
  qed
  also have "\<dots> \<longleftrightarrow> (\<exists>k z. m * 10 ^ k = of_int z)"
  proof
    assume "\<exists>k. den dvd 10 ^ k"
    then obtain k c where k: "10 ^ k = den * c" by (auto elim: dvdE)
    have "m * of_int (10 ^ k) = of_int (num * c)" unfolding k using pos by (simp add: m)
    then have "m * 10 ^ k = of_int (num * c)" by simp
    then show "\<exists>k z. m * 10 ^ k = of_int z" by blast
  next
    assume "\<exists>k z. m * 10 ^ k = of_int z"
    then obtain k z where "m * 10 ^ k = of_int z" by blast
    then have "of_int (num * 10 ^ k) = (of_int (z * den) :: rat)"
      using pos by (simp add: m field_simps)
    then have "num * 10 ^ k = z * den" by (simp only: of_int_eq_iff)
    then have "den dvd num * 10 ^ k" by simp
    then show "\<exists>k. den dvd 10 ^ k" using cop by (metis coprime_commute coprime_dvd_mult_right_iff)
  qed
  finally show ?thesis .
qed

lemma trim_right_byte_append:
  "trim_right_byte c t \<noteq> [] \<Longrightarrow> trim_right_byte c (s @ t) = s @ trim_right_byte c t"
  by (auto simp: trim_right_byte_def dropWhile_append)

lemma trim_decimal_signed:
  assumes "list_all is_digit i" and "i \<noteq> []" and "list_all is_digit f" and "f \<noteq> []"
  shows "trim_right_byte (CHR ''.'') (trim_right_byte (CHR ''0'') (decimal_text neg i f))
    = decimal_text neg i (trim_right_byte (CHR ''0'') f)"
proof -
  let ?t = "trim_right_byte (CHR ''0'') (i @ CHR ''.'' # f)"
  have t: "trim_right_byte (CHR ''.'') ?t = decimal_text False i (trim_right_byte (CHR ''0'') f)"
    by (rule trim_decimal [OF assms(1-3)])
  then have ne: "?t \<noteq> []" "trim_right_byte (CHR ''.'') ?t \<noteq> []"
    using assms(2) by (auto simp: decimal_text_def trim_right_byte_def)
  let ?sg = "if neg then ''-'' else ''''"
  have "decimal_text neg i f = ?sg @ i @ CHR ''.'' # f"
    using assms(4) by (simp add: decimal_text_def)
  then show ?thesis
    using trim_right_byte_append [OF ne(1), of ?sg] trim_right_byte_append [OF ne(2), of ?sg] t
    by (simp add: decimal_text_def)
qed

lemma parse_money_string: "parse_money (money_string m) = parse_money (money_format 10 m)"
proof -
  obtain i f where t: "float_string 10 m = decimal_text (m < 0) i f"
    and i: "list_all is_digit i" "i \<noteq> []" and f: "list_all is_digit f" "length f = 10"
    using float_string_text by blast
  let ?g = "trim_right_byte (CHR ''0'') f"
  have g: "list_all is_digit ?g"
    using trim_right_byte_split [of f "CHR ''0''"] f(1) by (metis list_all_append)
  have "f \<noteq> []" using f(2) by auto
  then have v: "trim_right_byte (CHR ''.'') (trim_right_byte (CHR ''0'') (money_format 10 m))
      = decimal_text (m < 0) i ?g"
    using trim_decimal_signed [OF i f(1)] by (simp add: money_format_def t)
  have p: "parse_money (decimal_text (m < 0) i ?g) = parse_money (money_format 10 m)"
    using parse_money_decimal_text [OF i g] parse_money_decimal_text [OF i f(1)]
      decimal_value_trim [of i f] by (simp add: money_format_def t)
  have "parse_money ''-0'' = parse_money ''0''"
    using parse_money_decimal_text [of "''0''" "[]" True] parse_money_decimal_text [of "''0''" "[]" False]
    by (simp add: decimal_text_def)
  then show ?thesis
    using p i(2) by (auto simp: money_string_def Let_def v) (simp add: decimal_text_def)
qed

lemma round_away_exact: "m * 10 ^ s = of_int z \<Longrightarrow> round_away s m = m"
proof -
  assume z: "m * 10 ^ s = of_int z"
  have "\<bar>m\<bar> * 10 ^ s = of_int \<bar>z\<bar>"
    using z by (metis abs_mult abs_of_nonneg of_int_abs zero_le_numeral zero_le_power)
  then have "\<lfloor>\<bar>m\<bar> * 10 ^ s + 1 / 2\<rfloor> = \<bar>z\<bar>"
    by linarith
  then have "round_away s m = (if m < 0 then -1 else 1) * (\<bar>m\<bar> * 10 ^ s / 10 ^ s)"
    by (simp add: round_away_def \<open>\<bar>m\<bar> * 10 ^ s = of_int \<bar>z\<bar>\<close>)
  then show ?thesis by simp
qed

section \<open>Dates: calendar, parsing and printing\<close>

lemma leap_cases: "days_in_month y m \<in> {28, 29, 30, 31}"
  by (auto simp: days_in_month_def)

lemma civil_bounds:
  assumes "civil d"
  shows "1 \<le> month d" "month d \<le> 12" "1 \<le> day d" "day d \<le> 31" "day d \<le> days_in_month (year d) (month d)"
  using assms leap_cases [of "year d" "month d"] by (auto simp: civil_def)

lemma mk_date_simps [simp]:
  "year (mk_date y m d) = y" "month (mk_date y m d) = m" "day (mk_date y m d) = d"
  by (simp_all add: mk_date_def)

lemma digits3_less:
  fixes y m d y' m' d' :: int
  assumes "1 \<le> m" "m \<le> 12" "1 \<le> d" "d \<le> 31" "1 \<le> m'" "m' \<le> 12" "1 \<le> d'" "d' \<le> 31"
  shows "y * 10000 + m * 100 + d < y' * 10000 + m' * 100 + d' \<longleftrightarrow>
    y < y' \<or> y = y' \<and> (m < m' \<or> m = m' \<and> d < d')"
proof (cases y y' rule: linorder_cases)
  case equal
  then show ?thesis using assms by (cases m m' rule: linorder_cases) auto
qed (use assms in auto)

lemma date_key_less_lex:
  assumes "civil a" and "civil b"
  shows "date_key a < date_key b \<longleftrightarrow>
    year a < year b \<or> year a = year b \<and> (month a < month b \<or> month a = month b \<and> day a < day b)"
  unfolding date_key_def
  by (rule digits3_less) (use civil_bounds [OF assms(1)] civil_bounds [OF assms(2)] in simp_all)

lemma mk_date_eta [simp]: "mk_date (year d) (month d) (day d) = d"
  by (simp add: mk_date_def)

lemma civil_key_inject: "civil a \<Longrightarrow> civil b \<Longrightarrow> date_key a = date_key b \<longleftrightarrow> a = b"
proof -
  have "date_key a = date_key b \<longleftrightarrow> \<not> date_key a < date_key b \<and> \<not> date_key b < date_key a"
    by linarith
  moreover assume "civil a" "civil b"
  ultimately show ?thesis
    by (auto simp: date_key_less_lex intro!: date.equality)
qed

lemma civil_next_day: "civil d \<Longrightarrow> civil (next_day d)"
  using leap_cases [of "year d" "month d"] leap_cases [of "year d" "month d + 1"]
    leap_cases [of "year d + 1" 1]
  by (auto simp: civil_def next_day_def)

lemma civil_prev_day: "civil d \<Longrightarrow> civil (prev_day d)"
  using leap_cases [of "year d" "month d - 1"]
  by (auto simp: civil_def prev_day_def days_in_month_def)

lemma prev_next_day: "civil d \<Longrightarrow> prev_day (next_day d) = d"
  by (auto simp: civil_def next_day_def prev_day_def days_in_month_def mk_date_def split: if_splits
      intro!: date.equality)

lemma next_prev_day: "civil d \<Longrightarrow> next_day (prev_day d) = d"
  by (auto simp: civil_def next_day_def prev_day_def days_in_month_def mk_date_def split: if_splits
      intro!: date.equality)

lemma next_day_greater:
  assumes "civil d"
  shows "date_key d < date_key (next_day d)"
  using civil_bounds [OF assms] by (subst date_key_less_lex [OF assms civil_next_day [OF assms]])
    (auto simp: next_day_def)

lemma no_day_between:
  assumes "civil d" and "civil e" and "date_key d < date_key e"
  shows "date_key (next_day d) \<le> date_key e"
proof -
  note be = civil_bounds [OF assms(2)]
  consider "year d < year e" | "year d = year e" "month d < month e"
    | "year d = year e" "month d = month e" "day d < day e"
    using assms(3) date_key_less_lex [OF assms(1,2)] by blast
  then have "\<not> (year e < year (next_day d) \<or> year e = year (next_day d) \<and>
    (month e < month (next_day d) \<or> month e = month (next_day d) \<and> day e < day (next_day d)))"
  proof cases
    case 1
    then show ?thesis using be(1,3) civil_bounds(2) [OF assms(1)] by (auto simp: next_day_def)
  next
    case 2
    then show ?thesis using be(1,2,3) by (simp add: next_day_def)
  next
    case 3
    then show ?thesis using be(5) by (simp add: next_day_def)
  qed
  then show ?thesis
    unfolding date_key_less_lex [OF assms(2) civil_next_day [OF assms(1)], symmetric] by simp
qed

lemma add_days_1 [simp]: "add_days d 1 = next_day d"
  by (simp add: add_days_def)

lemma add_days_neg1 [simp]: "add_days d (-1) = prev_day d"
  by (simp add: add_days_def)

text \<open>Parsing and printing of dates.\<close>

lemma text_of_field:
  assumes "0 \<le> v" and "v < 10 ^ w" and "0 < w"
  shows "length (pad_zero w (itoa v)) = w" and "list_all is_digit (pad_zero w (itoa v))"
    and "int (digits_value (pad_zero w (itoa v))) = v"
proof -
  have "nat v < 10 ^ w" using assms by (simp add: nat_less_iff)
  then have "length (utoa (nat v)) \<le> w" using assms(3) by (rule length_utoa_le)
  then show "length (pad_zero w (itoa v)) = w"
    using assms by (simp add: itoa_def length_pad_zero)
  show "list_all is_digit (pad_zero w (itoa v))" and "int (digits_value (pad_zero w (itoa v))) = v"
    using assms by (simp_all add: itoa_def pad_zero_digits utoa_digits)
qed

lemma digits_text_unique:
  assumes "list_all is_digit s" and "list_all is_digit t" and "length s = length t"
    and "digits_value s = digits_value t"
  shows "s = t"
  using assms
proof (induction s t rule: list_induct2')
  case (4 c s d t)
  have b: "digits_value s < 10 ^ length t" "digits_value t < 10 ^ length t"
    using "4.prems" digits_value_bound [of s] digits_value_bound [of t] by auto
  have eq: "digit_value c * 10 ^ length t + digits_value s = digit_value d * 10 ^ length t + digits_value t"
    using "4.prems" by (simp add: digits_value_Cons)
  from arg_cong [OF eq, of "\<lambda>n. n div 10 ^ length t"] b have "digit_value c = digit_value d"
    by simp
  moreover from arg_cong [OF eq, of "\<lambda>n. n mod 10 ^ length t"] b have "digits_value s = digits_value t"
    by simp
  ultimately show ?case
    using "4.prems" "4.IH" by (auto dest: arg_cong [of _ _ digit_char])
qed auto

definition dashed :: "string \<Rightarrow> string \<Rightarrow> string \<Rightarrow> string" where
  "dashed y m d = y @ ''-'' @ m @ ''-'' @ d"

lemma time_parse_dashed_text:
  assumes "length y = 4" and "length m = 2" and "length d = 2"
  shows "time_parse_dashed (dashed y m d) = civil_of_texts y m d"
proof -
  have "dashed y m d ! 4 = CHR ''-''" "dashed y m d ! 7 = CHR ''-''"
    using assms by (auto simp: dashed_def nth_append)
  moreover have "take 4 (dashed y m d) = y" "take 2 (drop 5 (dashed y m d)) = m" "drop 8 (dashed y m d) = d"
    using assms by (auto simp: dashed_def)
  ultimately show ?thesis using assms by (simp add: time_parse_dashed_def dashed_def)
qed

lemma time_parse_dashed_inv:
  assumes "time_parse_dashed s = Some v"
  obtains y m d where "s = dashed y m d" "civil_of_texts y m d = Some v"
proof -
  let ?y = "take 4 s" and ?m = "take 2 (drop 5 s)" and ?d = "drop 8 s"
  from assms have len: "length s = 10" and dash: "s ! 4 = CHR ''-''" "s ! 7 = CHR ''-''"
    and v: "civil_of_texts ?y ?m ?d = Some v"
    by (auto simp: time_parse_dashed_def split: if_splits)
  have "s = ?y @ drop 4 s" by simp
  also have "drop 4 s = s ! 4 # drop 5 s" using len Cons_nth_drop_Suc [of 4 s] by simp
  also have "drop 5 s = ?m @ drop 7 s" using append_take_drop_id [of 2 "drop 5 s"] by simp
  also have "drop 7 s = s ! 7 # ?d" using len Cons_nth_drop_Suc [of 7 s] by simp
  finally have "s = dashed ?y ?m ?d" using dash by (simp add: dashed_def)
  then show thesis using v that by blast
qed

lemma civil_of_texts_Some:
  "civil_of_texts y m d = Some v \<longleftrightarrow>
     length y = 4 \<and> length m = 2 \<and> length d = 2 \<and> list_all is_digit (y @ m @ d)
     \<and> civil v \<and> year v = int (digits_value y) \<and> month v = int (digits_value m) \<and> day v = int (digits_value d)"
proof -
  have "mk_date (int (digits_value y)) (int (digits_value m)) (int (digits_value d)) = v \<longleftrightarrow>
    year v = int (digits_value y) \<and> month v = int (digits_value m) \<and> day v = int (digits_value d)"
    by (cases v) (auto simp: mk_date_def)
  then show ?thesis by (auto simp: civil_of_texts_def Let_def)
qed

lemma date_string_dashed:
  "\<not> date_is_zero d \<Longrightarrow> date_string d =
     dashed (pad_zero 4 (itoa (year d))) (pad_zero 2 (itoa (month d))) (pad_zero 2 (itoa (day d)))"
  by (simp add: date_string_def dashed_def)

lemma parse_date_Inr:
  "parse_date raw loc = Inr d \<longleftrightarrow> loc \<noteq> None \<and> time_parse_dashed raw = Some d"
  by (auto simp: parse_date_def split: option.splits)

lemma parse_date_civil: "parse_date raw loc = Inr d \<Longrightarrow> civil d"
  by (auto simp: parse_date_Inr civil_of_texts_Some elim: time_parse_dashed_inv)

lemma parse_date_string:
  assumes "civil d" and "1 \<le> year d" and "year d \<le> 9999"
  shows "parse_date (date_string d) (Some z) = Inr d"
proof -
  note b = civil_bounds [OF assms(1)]
  have y: "0 \<le> year d" "year d < 10 ^ 4" and m: "0 \<le> month d" "month d < 10 ^ 2"
    and d: "0 \<le> day d" "day d < 10 ^ 2" using b assms by auto
  note ty = text_of_field [OF y] and tm = text_of_field [OF m] and td = text_of_field [OF d]
  have "\<not> date_is_zero d" using assms by (simp add: date_is_zero_def)
  then show ?thesis
    using ty tm td assms(1)
    by (simp add: parse_date_def date_string_dashed time_parse_dashed_text civil_of_texts_def
        Let_def)
qed

lemma date_string_parse:
  assumes "parse_date raw loc = Inr d" and "\<not> date_is_zero d"
  shows "date_string d = raw"
proof -
  from assms(1) have "time_parse_dashed raw = Some d" by (simp add: parse_date_Inr)
  then obtain ys ms ds where raw: "raw = dashed ys ms ds" and c: "civil_of_texts ys ms ds = Some d"
    by (rule time_parse_dashed_inv)
  from c have l: "length ys = 4" "length ms = 2" "length ds = 2"
    and dg: "list_all is_digit ys" "list_all is_digit ms" "list_all is_digit ds"
    and v: "year d = int (digits_value ys)" "month d = int (digits_value ms)" "day d = int (digits_value ds)"
    by (auto simp: civil_of_texts_Some)
  have field: "pad_zero w (itoa (int (digits_value t))) = t"
    if "length t = w" "list_all is_digit t" "0 < w" for w t
  proof -
    have "int (digits_value t) < 10 ^ w" using digits_value_bound [OF that(2)] that(1)
      by (metis of_nat_less_iff of_nat_numeral of_nat_power)
    note f = text_of_field [OF _ this that(3)]
    then show ?thesis using that by (intro digits_text_unique) auto
  qed
  show ?thesis
    using assms(2) l dg by (simp add: date_string_dashed raw v field)
qed

text \<open>The last day of a month, and the default reporting date.\<close>

definition month_end :: "date \<Rightarrow> bool" where
  "month_end d \<longleftrightarrow> civil d \<and> day d = days_in_month (year d) (month d)"

lemma next_day_month: "civil d \<Longrightarrow> month (next_day d) \<noteq> month d \<longleftrightarrow> month_end d"
  by (auto simp: next_day_def month_end_def civil_def)

lemma prev_month_end:
  assumes "civil t" and "day t = 1"
  shows "month_end (prev_day t)"
proof -
  have "civil (prev_day t)" using civil_prev_day [OF assms(1)] .
  then show ?thesis
    using assms by (auto simp: month_end_def prev_day_def days_in_month_def)
qed

lemma default_reporting_date_spec:
  assumes "civil today"
  shows "month_end (default_reporting_date today)"
    and "\<not> date_after (default_reporting_date today) today"
    and "month_end e \<Longrightarrow> \<not> date_after e today \<Longrightarrow> \<not> date_after e (default_reporting_date today)"
proof -
  let ?first = "mk_date (year today) (month today) 1"
  have first: "civil ?first" "day ?first = 1"
    using assms leap_cases [of "year today" "month today"] by (auto simp: civil_def)
  have def: "default_reporting_date today = (if month_end today then today else prev_day ?first)"
    using next_day_month [OF assms] by (simp add: default_reporting_date_def Let_def)
  have prev: "next_day (prev_day ?first) = ?first" "civil (prev_day ?first)"
    using next_prev_day [OF first(1)] civil_prev_day [OF first(1)] .
  show "month_end (default_reporting_date today)"
    using prev_month_end [OF first] by (simp add: def)
  have "date_key (prev_day ?first) < date_key ?first"
    using next_day_greater [OF prev(2)] prev(1) by simp
  also have "date_key ?first \<le> date_key today" using civil_bounds [OF assms] by (simp add: date_key_def)
  finally show "\<not> date_after (default_reporting_date today) today"
    by (auto simp: def date_after_def)
  show "\<not> date_after e (default_reporting_date today)"
    if e: "month_end e" and le: "\<not> date_after e today"
  proof (cases "month_end today")
    case True
    then show ?thesis using le by (simp add: def)
  next
    case False
    have ce: "civil e" using e by (simp add: month_end_def)
    have "date_key e < date_key ?first"
    proof (rule ccontr)
      assume "\<not> date_key e < date_key ?first"
      then have "year e = year today \<and> month e = month today"
        using le date_key_less_lex [OF ce first(1)] date_key_less_lex [OF assms ce]
        by (auto simp: date_after_def)
      then show False
        using e le False assms date_key_less_lex [OF assms ce]
        by (auto simp: month_end_def date_after_def civil_def)
    qed
    then show ?thesis
      using no_day_between [OF prev(2) ce] prev(1) False by (auto simp: def date_after_def)
  qed
qed

section \<open>Properties\<close>

text \<open>
  C14. A value written to the database by \<open>Value\<close> and read back by \<open>Scan\<close> is the value rounded half
  away from zero to ten decimals, so it is at most half a unit of the tenth decimal away and
  exact when the value has at most ten decimals; \<open>String\<close> prints a decimal with the same value.
\<close>

theorem money_sql_roundtrip:
  "money_scan (money_value m) = Inr (round_away 10 m)
   \<and> parse_money (money_string m) = Inr (round_away 10 m)
   \<and> \<bar>round_away 10 m - m\<bar> \<le> 1 / (2 * 10 ^ 10)
   \<and> (m * 10 ^ 10 = of_int z \<longrightarrow> round_away 10 m = m)"
  using parse_float_string [of 10 m] parse_money_string [of m] round_away_error [of 10 m]
    round_away_exact [of m 10 z] by (simp add: money_value_def money_format_def)

theorem money_sql_roundtrip_witness:
  "money_scan (money_value (25 / 2)) = Inr (25 / 2) \<and> parse_money (money_string (25 / 2)) = Inr (25 / 2)"
  using money_sql_roundtrip [of "25 / 2" 125000000000] by simp

text \<open>
  C12. \<open>ExactDecimal\<close> succeeds on exactly the values with a finite decimal expansion, and the text it
  returns denotes the value itself, with no rounding.
\<close>

theorem exact_decimal_correct:
  "case exact_decimal m of
     Inr s \<Rightarrow> parse_money s = Inr m
   | Inl e \<Rightarrow> e = [] \<and> (\<nexists>k z. m * 10 ^ k = of_int z)"
proof (cases "exact_decimal m")
  case (Inl e)
  then have "e = []"
    by (auto simp: exact_decimal_def Let_def split: prod.splits if_splits)
  then show ?thesis using Inl exact_decimal_total [of m] by auto
next
  case (Inr s)
  then show ?thesis using exact_decimal_roundtrip by auto
qed

text \<open>
  Printing and parsing of dates are inverse: the text of a civil date of the years 1 to 9999
  parses back to it in every location, and every text that parses to a date other than one of
  the year 0 is the text of that date.
\<close>

theorem date_text_roundtrip:
  "(civil d \<and> 1 \<le> year d \<and> year d \<le> 9999 \<longrightarrow> parse_date (date_string d) (Some z) = Inr d)
   \<and> (parse_date raw loc = Inr e \<and> \<not> date_is_zero e \<longrightarrow> date_string e = raw \<and> civil e)"
  using parse_date_string [of d z] date_string_parse [of raw loc e] parse_date_civil [of raw loc e]
  by auto

theorem date_text_roundtrip_witness:
  "parse_date (date_string (mk_date 2024 2 29)) (Some ''Asia/Jakarta'') = Inr (mk_date 2024 2 29)
   \<and> parse_date ''2025-10-12'' (Some ''UTC'') = Inr (mk_date 2025 10 12)
   \<and> date_string (mk_date 2025 10 12) = ''2025-10-12''"
proof -
  have "civil (mk_date 2024 2 29)" by code_simp
  moreover have "parse_date ''2025-10-12'' (Some ''UTC'') = Inr (mk_date 2025 10 12)" by code_simp
  ultimately show ?thesis
    using date_text_roundtrip [of "mk_date 2024 2 29" "''Asia/Jakarta''" "''2025-10-12''" "Some ''UTC''"
        "mk_date 2025 10 12"]
    by (simp add: date_is_zero_def)
qed

text \<open>
  The default reporting date is the latest month end that is not after today, for every civil
  date, leap years included.
\<close>

theorem default_reporting_date_latest_month_end:
  assumes "civil today"
  shows "month_end (default_reporting_date today)
    \<and> \<not> date_after (default_reporting_date today) today
    \<and> (\<forall>e. month_end e \<and> \<not> date_after e today \<longrightarrow> \<not> date_after e (default_reporting_date today))"
  using default_reporting_date_spec [OF assms] by blast

theorem default_reporting_date_latest_month_end_witness:
  "month_end (default_reporting_date (mk_date 2024 3 30))
   \<and> default_reporting_date (mk_date 2024 3 30) = mk_date 2024 2 29
   \<and> \<not> date_after (mk_date 2024 2 29) (mk_date 2024 3 30)"
proof -
  have c: "civil (mk_date 2024 3 30)" by code_simp
  have "default_reporting_date (mk_date 2024 3 30) = mk_date 2024 2 29" by code_simp
  then show ?thesis
    using default_reporting_date_latest_month_end [OF c] by simp
qed

end
