(* ===== verification/Loan_Model.thy ===== *)
theory Loan_Model
  imports Loan_Values
begin

text \<open>
  The data structures of \<open>src/internal/loan/model.go\<close>, one record per struct in the order of the
  file. A field keeps the source's name behind a prefix for its struct (HOL records share one name
  space). \<open>SourceUpdatedAt\<close> is a nullable instant, an optional number of nanoseconds. The
  schedule evidence is the one slice whose nil-ness the program tests, so it is an optional list.
\<close>

datatype position_source = SourceMSO | SourceDWH | SourceTodaySnapshot | SourceReconstructed | SourceClosed

record loan_position =
  lp_as_of :: date
  lp_loan_start_date :: date
  lp_account_number :: string
  lp_principal_outstanding :: money
  lp_principal_due :: money
  lp_interest_due :: money
  lp_penalty_due :: money
  lp_collectability_bi :: int
  lp_unapplied_amount :: money
  lp_source :: "position_source option"
  lp_branch :: string
  lp_product :: string
  lp_cif :: string
  lp_contract_number :: string
  lp_source_updated_at :: "int option"

text \<open>The zero value of the struct; an unset \<open>Source\<close> (the empty string) is \<^const>\<open>None\<close>.\<close>

definition empty_position :: loan_position where
  "empty_position =
     \<lparr>lp_as_of = zero_date, lp_loan_start_date = zero_date, lp_account_number = '''',
      lp_principal_outstanding = 0, lp_principal_due = 0, lp_interest_due = 0, lp_penalty_due = 0,
      lp_collectability_bi = 0, lp_unapplied_amount = 0, lp_source = None, lp_branch = '''',
      lp_product = '''', lp_cif = '''', lp_contract_number = '''', lp_source_updated_at = None\<rparr>"

record opening_loan_state =
  op_account_number :: string
  op_interest_type :: string
  op_principal_outstanding :: money
  op_principal_due :: money
  op_interest_due :: money
  op_penalty_due :: money
  op_collectability_bi :: int

definition empty_opening :: opening_loan_state where
  "empty_opening =
     \<lparr>op_account_number = '''', op_interest_type = '''', op_principal_outstanding = 0,
      op_principal_due = 0, op_interest_due = 0, op_penalty_due = 0, op_collectability_bi = 0\<rparr>"

record collectability_point =
  cp_date :: date
  cp_value :: int

record repayment =
  rp_date :: date
  rp_principal_component :: money
  rp_interest_component :: money
  rp_penalty_component :: money
  rp_early_penalty_component :: money
  rp_dwp_component :: money
  rp_total_payment :: money
  rp_journal_number :: string
  rp_source_order :: int

record contractual_installment =
  ci_number :: int
  ci_due_date :: date

record contractual_installment_evidence =
  ie_number :: int
  ie_raw_due_date :: string
  ie_raw_payment_status :: string

record contractual_schedule_row =
  sr_number :: int
  sr_due_date :: date
  sr_principal :: money
  sr_interest :: money
  sr_installment :: money
  sr_scheduled_balance :: money

record contract_data =
  cd_primary_account :: string
  cd_alternate_account :: string
  cd_cif :: string
  cd_customer_name :: string
  cd_branch :: string
  cd_product :: string
  cd_plafond_limit :: money
  cd_tenor_months :: int
  cd_flat_rate_percent :: money
  cd_reference_rate_percent :: money
  cd_current_collectability :: int
  cd_current_principal_due :: money
  cd_current_interest_due :: money
  cd_penalty_due :: money
  cd_status :: string
  cd_close_date :: date
  cd_raw_schedule_count :: int
  cd_contract_schedule_evidence :: "contractual_installment_evidence list option"
  cd_contract_schedule :: "contractual_installment list"
  cd_repayments :: "repayment list"

record calculation_input =
  in_as_of :: date
  in_cutoff :: date
  in_contractual_principal :: money
  in_tenor_months :: int
  in_flat_rate_percent :: money
  in_opening :: opening_loan_state
  in_contract_schedule :: "contractual_installment list"
  in_repayments :: "repayment list"
  in_collectability_timeline :: "collectability_point list"

record calculation_trace =
  tr_opening :: opening_loan_state
  tr_periods_accrued :: int
  tr_repayments_applied :: int
  tr_last_payment_date :: date
  tr_last_due_date_accrued :: date

definition empty_trace :: calculation_trace where
  "empty_trace =
     \<lparr>tr_opening = empty_opening, tr_periods_accrued = 0, tr_repayments_applied = 0,
      tr_last_payment_date = zero_date, tr_last_due_date_accrued = zero_date\<rparr>"

record calculation_result =
  cr_as_of :: date
  cr_principal_outstanding :: money
  cr_principal_due :: money
  cr_interest_due :: money
  cr_collectability_bi :: int
  cr_unapplied_amount :: money
  cr_trace :: calculation_trace
  cr_contractual_schedule :: "contractual_schedule_row list"

record resolved_position =
  res_loan :: contract_data
  res_position :: loan_position
  res_actual_position :: loan_position
  res_trace :: calculation_trace
  res_contractual_schedule :: "contractual_schedule_row list"

text \<open>
  The well-formedness every balance the system reports is meant to have: no negative amount, and
  not more principal due than outstanding.
\<close>

definition balances_ok :: "money \<Rightarrow> money \<Rightarrow> money \<Rightarrow> bool" where
  "balances_ok outstanding due interest \<longleftrightarrow> 0 \<le> due \<and> due \<le> outstanding \<and> 0 \<le> interest"

definition position_ok :: "loan_position \<Rightarrow> bool" where
  "position_ok p \<longleftrightarrow>
     balances_ok (lp_principal_outstanding p) (lp_principal_due p) (lp_interest_due p)
     \<and> 0 \<le> lp_penalty_due p \<and> 0 \<le> lp_unapplied_amount p
     \<and> 1 \<le> lp_collectability_bi p \<and> lp_collectability_bi p \<le> 5"

definition opening_ok :: "opening_loan_state \<Rightarrow> bool" where
  "opening_ok op \<longleftrightarrow>
     balances_ok (op_principal_outstanding op) (op_principal_due op) (op_interest_due op)
     \<and> 1 \<le> op_collectability_bi op \<and> op_collectability_bi op \<le> 5"

end
