(* ===== verification/Contractual.thy ===== *)
theory Contractual
  imports Loan_Model "HOL-Library.Product_Lexorder"
begin

text \<open>
  The flat-rate calculator of \<open>src/internal/contractual/calculator.go\<close>: the contractual schedule
  (\<open>BuildSchedule\<close>), the selection of effective repayments (\<open>effectiveRepayments\<close>, with its in-place
  compaction of the slice), the allocation of payments to interest and principal and the accrual
  loop of \<open>Calculate\<close>. The \<open>Round\<close> hook of the calculator is an optional function.
\<close>

section \<open>State and allocation\<close>

record calculation_state =
  st_principal :: money
  st_principal_due :: money
  st_interest_due :: money
  st_unapplied :: money

definition pay_principal_due :: "money \<Rightarrow> calculation_state \<Rightarrow> money \<times> calculation_state" where
  "pay_principal_due payment st =
     (let paid = min_money payment (st_principal_due st)
      in (payment - paid, st\<lparr>st_principal_due := st_principal_due st - paid,
                             st_principal := st_principal st - paid\<rparr>))"

definition pay_principal_advance :: "money \<Rightarrow> calculation_state \<Rightarrow> money \<times> calculation_state" where
  "pay_principal_advance payment st =
     (let paid = min_money payment (st_principal st)
      in (payment - paid, st\<lparr>st_principal := st_principal st - paid\<rparr>))"

definition pay_bucket :: "money \<Rightarrow> money \<Rightarrow> money \<times> money" where
  "pay_bucket payment bucket =
     (let paid = min_money payment bucket in (payment - paid, bucket - paid))"

definition pay_interest_due :: "money \<Rightarrow> calculation_state \<Rightarrow> money \<times> calculation_state" where
  "pay_interest_due payment st =
     (case pay_bucket payment (st_interest_due st) of
        (left, bucket) \<Rightarrow> (left, st\<lparr>st_interest_due := bucket\<rparr>))"

definition allocate :: "money \<Rightarrow> int \<Rightarrow> calculation_state \<Rightarrow> calculation_state" where
  "allocate payment collectability st =
     (let (left, st') =
        (if collectability \<le> 2 then
           (let (p1, s1) = pay_interest_due payment st;
                (p2, s2) = pay_principal_due p1 s1
            in pay_principal_advance p2 s2)
         else
           (let (p1, s1) = pay_principal_due payment st;
                (p2, s2) = pay_principal_advance p1 s1
            in pay_interest_due p2 s2))
      in st'\<lparr>st_unapplied := st_unapplied st' + left\<rparr>)"

section \<open>The contractual schedule\<close>

definition calc_round :: "(money \<Rightarrow> money) option \<Rightarrow> money \<Rightarrow> money" where
  "calc_round rnd v = (case rnd of None \<Rightarrow> v | Some f \<Rightarrow> f v)"

text \<open>The numbering and chronology check over the sorted installments, from an index on.\<close>

fun check_installments :: "nat \<Rightarrow> date option \<Rightarrow> contractual_installment list \<Rightarrow> unit res" where
  "check_installments index prev [] = Inr ()"
| "check_installments index prev (c # cs) =
     (if ci_number c \<noteq> int index + 1 \<or> date_is_zero (ci_due_date c)
      then Inl [ErrUnsupportedCalculation]
      else if (case prev of None \<Rightarrow> False | Some p \<Rightarrow> \<not> date_after (ci_due_date c) p)
      then Inl [ErrUnsupportedCalculation]
      else check_installments (index + 1) (Some (ci_due_date c)) cs)"

text \<open>The loop that fills the rows, with the running balance.\<close>

fun schedule_rows ::
  "int \<Rightarrow> money \<Rightarrow> money \<Rightarrow> nat \<Rightarrow> money \<Rightarrow> contractual_installment list \<Rightarrow> contractual_schedule_row list res"
where
  "schedule_rows tenor per_period interest index balance [] = Inr []"
| "schedule_rows tenor per_period interest index balance (c # cs) =
     (if int index \<noteq> tenor - 1 \<and> per_period > balance then Inl [ErrInvariant]
      else
        (let period_principal = (if int index = tenor - 1 then balance else per_period);
             balance' = balance - period_principal
         in rbind (schedule_rows tenor per_period interest (index + 1) balance' cs)
              (\<lambda>rows. Inr (\<lparr>sr_number = ci_number c, sr_due_date = ci_due_date c,
                 sr_principal = period_principal, sr_interest = interest,
                 sr_installment = period_principal + interest,
                 sr_scheduled_balance = balance'\<rparr> # rows))))"

definition invalid_terms :: "money \<Rightarrow> int \<Rightarrow> money \<Rightarrow> bool" where
  "invalid_terms principal0 tenor rate \<longleftrightarrow>
     is_negative principal0 \<or> is_zero principal0 \<or> tenor \<le> 0 \<or> is_negative rate"

text \<open>\<open>BuildSchedule\<close> after its sort.\<close>

definition build_sorted ::
  "(money \<Rightarrow> money) option \<Rightarrow> money \<Rightarrow> int \<Rightarrow> money \<Rightarrow> contractual_installment list
   \<Rightarrow> contractual_schedule_row list res" where
  "build_sorted rnd principal0 tenor rate installments =
     (if int (length installments) \<noteq> tenor then Inl [ErrUnsupportedCalculation]
      else rbind (check_installments 0 None installments) (\<lambda>_.
        case div_int principal0 tenor of Inl _ \<Rightarrow> Inl [ErrInvariant] | Inr per0 \<Rightarrow>
        case div_int (principal0 * rate) 1200 of Inl _ \<Rightarrow> Inl [ErrInvariant] | Inr int0 \<Rightarrow>
          (let per_period = calc_round rnd per0; interest = calc_round rnd int0
           in if is_negative per_period \<or> is_negative interest then Inl [ErrInvariant]
              else schedule_rows tenor per_period interest 0 principal0 installments)))"

definition build_schedule ::
  "(money \<Rightarrow> money) option \<Rightarrow> money \<Rightarrow> int \<Rightarrow> money \<Rightarrow> contractual_installment list
   \<Rightarrow> contractual_schedule_row list res" where
  "build_schedule rnd principal0 tenor rate source =
     (if invalid_terms principal0 tenor rate then Inl [ErrInvariant]
      else build_sorted rnd principal0 tenor rate (sort_key ci_number source))"

section \<open>Effective repayments\<close>

definition zero_repayment_components :: "repayment \<Rightarrow> bool" where
  "zero_repayment_components p \<longleftrightarrow>
     is_zero (rp_principal_component p) \<and> is_zero (rp_interest_component p)
     \<and> is_zero (rp_penalty_component p) \<and> is_zero (rp_early_penalty_component p)
     \<and> is_zero (rp_dwp_component p)"

definition repayment_components_equal_total :: "repayment \<Rightarrow> bool" where
  "repayment_components_equal_total p \<longleftrightarrow>
     rp_principal_component p + rp_interest_component p + rp_penalty_component p
     + rp_early_penalty_component p + rp_dwp_component p = rp_total_payment p"

definition exact_repayment_inverse :: "repayment \<Rightarrow> repayment \<Rightarrow> bool" where
  "exact_repayment_inverse pos neg \<longleftrightarrow>
     is_zero (rp_principal_component pos + rp_principal_component neg)
     \<and> is_zero (rp_interest_component pos + rp_interest_component neg)
     \<and> is_zero (rp_penalty_component pos + rp_penalty_component neg)
     \<and> is_zero (rp_early_penalty_component pos + rp_early_penalty_component neg)
     \<and> is_zero (rp_dwp_component pos + rp_dwp_component neg)
     \<and> is_zero (rp_total_payment pos + rp_total_payment neg)"

definition repayment_amount :: "repayment \<Rightarrow> money" where
  "repayment_amount p = rp_principal_component p + rp_interest_component p"

text \<open>
  The compaction loop over the backing array \<open>arr\<close>: \<open>index\<close> reads it and \<open>w\<close>, the length of
  \<open>effective\<close>, is where the next append writes it.
\<close>

function compact_repayments :: "repayment list \<Rightarrow> nat \<Rightarrow> nat \<Rightarrow> repayment list res" where
  "compact_repayments arr w index =
     (if \<not> index < length arr then Inr (take w arr)
      else
        let payment = arr ! index in
        if is_negative (rp_total_payment payment) then Inl [ErrUnsupportedRepaymentReversal]
        else if is_zero (rp_total_payment payment) then
          (if \<not> zero_repayment_components payment then Inl [ErrUnsupportedRepaymentAdjustment]
           else compact_repayments arr w (index + 1))
        else
          let reversal = (index + 1 < length arr \<and> is_negative (rp_total_payment (arr ! (index + 1)))) in
          if reversal \<and> (\<not> date_equal (rp_date payment) (rp_date (arr ! (index + 1)))
                         \<or> \<not> exact_repayment_inverse payment (arr ! (index + 1)))
          then Inl [ErrUnsupportedRepaymentReversal]
          else if \<not> repayment_components_equal_total payment then Inl [ErrHistoricalEvidence]
          else if reversal then compact_repayments arr w (index + 2)
          else if is_negative (repayment_amount payment) then Inl [ErrUnsupportedCalculation]
          else compact_repayments (arr[w := payment]) (w + 1) (index + 1))"
  by pat_completeness auto
termination
  by (relation "measure (\<lambda>(arr, w, index). length arr - index)") auto

declare compact_repayments.simps [simp del]

definition repayment_key :: "repayment \<Rightarrow> int \<times> int" where
  "repayment_key p = (date_key (rp_date p), rp_source_order p)"

definition effective_repayments :: "repayment list \<Rightarrow> date \<Rightarrow> date \<Rightarrow> repayment list res" where
  "effective_repayments source cutoff as_of =
     (let repayments = sort_key repayment_key
            (filter (\<lambda>p. date_after (rp_date p) cutoff \<and> \<not> date_after (rp_date p) as_of) source)
      in compact_repayments repayments 0 0)"

section \<open>Validation and collectability\<close>

definition validate_opening :: "opening_loan_state \<Rightarrow> unit res" where
  "validate_opening op =
     (if is_negative (op_principal_outstanding op) \<or> is_negative (op_principal_due op)
         \<or> is_negative (op_interest_due op) \<or> op_principal_due op > op_principal_outstanding op
      then Inl [ErrInvariant]
      else if op_collectability_bi op < 1 \<or> op_collectability_bi op > 5 then Inl [ErrInvariant]
      else Inr ())"

fun validate_timeline_from :: "collectability_point option \<Rightarrow> collectability_point list \<Rightarrow> unit res" where
  "validate_timeline_from prev [] = Inr ()"
| "validate_timeline_from prev (p # ps) =
     (if date_is_zero (cp_date p) \<or> cp_value p < 1 \<or> cp_value p > 5 then Inl [ErrHistoricalEvidence]
      else if (case prev of None \<Rightarrow> False
               | Some q \<Rightarrow> date_equal (cp_date p) (cp_date q) \<and> cp_value p \<noteq> cp_value q)
      then Inl [ErrHistoricalEvidence]
      else validate_timeline_from (Some p) ps)"

definition validate_timeline :: "collectability_point list \<Rightarrow> unit res" where
  "validate_timeline timeline = validate_timeline_from None timeline"

fun scan_timeline :: "int \<Rightarrow> collectability_point list \<Rightarrow> date \<Rightarrow> int" where
  "scan_timeline v [] d = v"
| "scan_timeline v (p # ps) d = (if date_after (cp_date p) d then v else scan_timeline (cp_value p) ps d)"

definition collectability_at :: "int \<Rightarrow> collectability_point list \<Rightarrow> date \<Rightarrow> int res" where
  "collectability_at opening timeline d =
     (if opening < 1 \<or> opening > 5 then Inl [ErrHistoricalEvidence]
      else let v = scan_timeline opening timeline d
           in if v < 1 \<or> v > 5 then Inl [ErrHistoricalEvidence] else Inr v)"

section \<open>The calculation\<close>

text \<open>
  The variables the loops of \<open>Calculate\<close> share: the balances, the trace and \<open>nextDue\<close>.
\<close>

record calculation_run =
  run_state :: calculation_state
  run_trace :: calculation_trace
  run_next_due :: nat

definition accrue_row :: "contractual_schedule_row \<Rightarrow> calculation_state \<Rightarrow> calculation_state" where
  "accrue_row row st =
     (if is_positive (st_principal st) then
        (let available = st_principal st - st_principal_due st;
             st1 = (if is_positive available
                    then st\<lparr>st_principal_due := st_principal_due st + min_money (sr_principal row) available\<rparr>
                    else st)
         in st1\<lparr>st_interest_due := st_interest_due st1 + sr_interest row\<rparr>)
      else st)"

function accrue_through :: "contractual_schedule_row list \<Rightarrow> date \<Rightarrow> calculation_run \<Rightarrow> calculation_run" where
  "accrue_through schedule d run =
     (if run_next_due run < length schedule
         \<and> \<not> date_after (sr_due_date (schedule ! run_next_due run)) d
      then
        (let row = schedule ! run_next_due run; tr = run_trace run
         in accrue_through schedule d
              \<lparr>run_state = accrue_row row (run_state run),
               run_trace = tr\<lparr>tr_periods_accrued := tr_periods_accrued tr + 1,
                              tr_last_due_date_accrued := sr_due_date row\<rparr>,
               run_next_due = run_next_due run + 1\<rparr>)
      else run)"
  by pat_completeness auto
termination
  by (relation "measure (\<lambda>(schedule, d, run). length schedule - run_next_due run)") auto

declare accrue_through.simps [simp del]

fun skip_until :: "contractual_schedule_row list \<Rightarrow> date \<Rightarrow> nat" where
  "skip_until [] cutoff = 0"
| "skip_until (r # rs) cutoff = (if date_after (sr_due_date r) cutoff then 0 else Suc (skip_until rs cutoff))"

fun apply_repayments ::
  "contractual_schedule_row list \<Rightarrow> int \<Rightarrow> collectability_point list \<Rightarrow> repayment list
   \<Rightarrow> calculation_run \<Rightarrow> calculation_run res"
where
  "apply_repayments schedule opening timeline [] run = Inr run"
| "apply_repayments schedule opening timeline (p # ps) run =
     (let amount = repayment_amount p; run1 = accrue_through schedule (rp_date p) run
      in rbind (collectability_at opening timeline (rp_date p)) (\<lambda>collectability.
           if is_zero amount then apply_repayments schedule opening timeline ps run1
           else
             (let tr = run_trace run1
              in apply_repayments schedule opening timeline ps
                   (run1\<lparr>run_state := allocate amount collectability (run_state run1),
                         run_trace := tr\<lparr>tr_repayments_applied := tr_repayments_applied tr + 1,
                                         tr_last_payment_date := rp_date p\<rparr>\<rparr>))))"

definition finish :: "calculation_result \<Rightarrow> calculation_state \<Rightarrow> calculation_result res" where
  "finish result st =
     (if is_negative (st_principal st) \<or> is_negative (st_principal_due st)
         \<or> is_negative (st_interest_due st) \<or> is_negative (st_unapplied st)
         \<or> st_principal_due st > st_principal st
      then Inl [ErrInvariant]
      else Inr (result\<lparr>cr_principal_outstanding := st_principal st,
                       cr_principal_due := st_principal_due st,
                       cr_interest_due := st_interest_due st,
                       cr_unapplied_amount := st_unapplied st\<rparr>))"

definition opening_calculation :: "opening_loan_state \<Rightarrow> calculation_state" where
  "opening_calculation op =
     \<lparr>st_principal = op_principal_outstanding op, st_principal_due = op_principal_due op,
      st_interest_due = op_interest_due op, st_unapplied = 0\<rparr>"

definition initial_result :: "calculation_input \<Rightarrow> calculation_result" where
  "initial_result inp =
     \<lparr>cr_as_of = in_as_of inp, cr_principal_outstanding = 0, cr_principal_due = 0,
      cr_interest_due = 0, cr_collectability_bi = op_collectability_bi (in_opening inp),
      cr_unapplied_amount = 0, cr_trace = empty_trace\<lparr>tr_opening := in_opening inp\<rparr>,
      cr_contractual_schedule = []\<rparr>"

definition calculate :: "(money \<Rightarrow> money) option \<Rightarrow> calculation_input \<Rightarrow> calculation_result res" where
  "calculate rnd inp =
     (if date_is_zero (in_as_of inp) \<or> date_is_zero (in_cutoff inp)
         \<or> date_before (in_as_of inp) (in_cutoff inp)
      then Inl [ErrInvalidInput]
      else rbind (validate_opening (in_opening inp)) (\<lambda>_.
        let st = opening_calculation (in_opening inp); result = initial_result inp;
            opening = op_collectability_bi (in_opening inp)
        in if date_equal (in_as_of inp) (in_cutoff inp) then finish result st
        else if invalid_terms (in_contractual_principal inp) (in_tenor_months inp) (in_flat_rate_percent inp)
        then Inl [ErrInvariant]
        else rbind (build_schedule rnd (in_contractual_principal inp) (in_tenor_months inp)
               (in_flat_rate_percent inp) (in_contract_schedule inp)) (\<lambda>schedule.
          let timeline = sort_key (\<lambda>p. date_key (cp_date p)) (in_collectability_timeline inp)
          in rbind (validate_timeline timeline) (\<lambda>_.
             rbind (effective_repayments (in_repayments inp) (in_cutoff inp) (in_as_of inp)) (\<lambda>repayments.
             rbind (apply_repayments schedule opening timeline repayments
                      \<lparr>run_state = st, run_trace = cr_trace result,
                       run_next_due = skip_until schedule (in_cutoff inp)\<rparr>) (\<lambda>run0.
             let run = accrue_through schedule (in_as_of inp) run0
             in rbind (collectability_at opening timeline (in_as_of inp)) (\<lambda>collectability.
                finish (result\<lparr>cr_contractual_schedule := schedule, cr_trace := run_trace run,
                               cr_collectability_bi := collectability\<rparr>) (run_state run))))))))"

section \<open>The schedule\<close>

text \<open>What the check over the sorted installments accepts.\<close>

definition chronological :: "contractual_installment list \<Rightarrow> bool" where
  "chronological cs \<longleftrightarrow> sorted_wrt (\<lambda>a b. date_key (ci_due_date a) < date_key (ci_due_date b)) cs"

lemma check_installments_ok:
  "check_installments k prev cs = Inr () \<longleftrightarrow>
     map ci_number cs = map (\<lambda>i. int i + 1) [k..<k + length cs]
     \<and> list_all (\<lambda>c. \<not> date_is_zero (ci_due_date c)) cs
     \<and> chronological cs
     \<and> (\<forall>p. prev = Some p \<longrightarrow> list_all (\<lambda>c. date_key p < date_key (ci_due_date c)) cs)"
proof (induction cs arbitrary: k prev)
  case (Cons c cs)
  have up: "[k..<k + length (c # cs)] = k # [Suc k..<Suc k + length cs]"
    by (simp add: upt_rec)
  show ?case
    unfolding up
    by (auto simp: Cons.IH chronological_def date_after_def list_all_iff split: option.splits)
qed (simp add: chronological_def)

lemma check_installments_error:
  "check_installments k prev cs = Inl e \<Longrightarrow> e = [ErrUnsupportedCalculation]"
  by (induction cs arbitrary: k prev) (auto split: if_splits)

lemma check_installments_cases:
  obtains "check_installments k prev cs = Inr ()"
  | "check_installments k prev cs = Inl [ErrUnsupportedCalculation]"
  by (cases "check_installments k prev cs") (auto dest: check_installments_error)

text \<open>The rows the loop produces, from any index and balance.\<close>

lemma schedule_rows_sound:
  assumes "schedule_rows tenor per i k bal cs = Inr rows" and "0 \<le> per" and "0 \<le> bal"
    and "cs \<noteq> [] \<Longrightarrow> int k + int (length cs) = tenor"
  shows "map sr_number rows = map ci_number cs \<and> map sr_due_date rows = map ci_due_date cs
    \<and> list_all (\<lambda>r. 0 \<le> sr_principal r \<and> sr_interest r = i \<and> 0 \<le> sr_scheduled_balance r
         \<and> sr_installment r = sr_principal r + sr_interest r) rows
    \<and> (cs \<noteq> [] \<longrightarrow> sum_list (map sr_principal rows) = bal \<and> sr_scheduled_balance (last rows) = 0)"
  using assms
proof (induction cs arbitrary: k bal rows)
  case (Cons c cs)
  show ?case
  proof (cases cs)
    case Nil
    with Cons.prems show ?thesis by (auto simp: Let_def split: if_splits)
  next
    case (Cons c2 cs2)
    then have k: "int k \<noteq> tenor - 1" using Cons.prems(4) by simp
    with Cons.prems(1) obtain rs where le: "per \<le> bal"
      and rs: "schedule_rows tenor per i (k + 1) (bal - per) cs = Inr rs"
      and rows: "rows = \<lparr>sr_number = ci_number c, sr_due_date = ci_due_date c, sr_principal = per,
        sr_interest = i, sr_installment = per + i, sr_scheduled_balance = bal - per\<rparr> # rs"
      by (auto simp: Let_def res_simps split: if_splits)
    have ih: "map sr_number rs = map ci_number cs \<and> map sr_due_date rs = map ci_due_date cs
      \<and> list_all (\<lambda>r. 0 \<le> sr_principal r \<and> sr_interest r = i \<and> 0 \<le> sr_scheduled_balance r
           \<and> sr_installment r = sr_principal r + sr_interest r) rs
      \<and> (cs \<noteq> [] \<longrightarrow> sum_list (map sr_principal rs) = bal - per \<and> sr_scheduled_balance (last rs) = 0)"
      using Cons.IH [OF rs Cons.prems(2)] le Cons.prems(4) by simp
    have "rs \<noteq> []" using ih Cons by auto
    then show ?thesis using ih le Cons.prems(2) Cons by (simp add: rows)
  qed
qed auto

text \<open>Without rounding the loop never runs out of principal, and the balance is linear.\<close>

lemma schedule_rows_exact:
  assumes "0 < tenor" and "0 \<le> p" and "int k + int (length cs) = tenor"
  shows "\<exists>rows. schedule_rows tenor (p / of_int tenor) i k (p * of_int (tenor - int k) / of_int tenor) cs = Inr rows
    \<and> (\<forall>j < length cs. sr_principal (rows ! j) = p / of_int tenor
         \<and> sr_scheduled_balance (rows ! j) = p * of_int (tenor - int (k + j + 1)) / of_int tenor)"
  using assms(3)
proof (induction cs arbitrary: k)
  case (Cons c cs)
  let ?per = "p / of_int tenor" and ?bal = "p * of_int (tenor - int k) / of_int tenor"
  have k: "int k \<le> tenor - 1" and ik: "int (k + 1) + int (length cs) = tenor" using Cons.prems by auto
  have step: "?bal - ?per = p * of_int (tenor - int (k + 1)) / of_int tenor"
    by (simp add: diff_divide_distrib [symmetric] algebra_simps)
  have le: "?per \<le> ?bal"
  proof -
    have "p * 1 \<le> p * of_int (tenor - int k)" using k assms(2) by (intro mult_left_mono) auto
    then show ?thesis using assms(1) by (simp add: divide_right_mono)
  qed
  have last: "?bal = ?per" if "int k = tenor - 1" using that by simp
  from Cons.IH [OF ik] obtain rs where
    rs: "schedule_rows tenor ?per i (k + 1) (?bal - ?per) cs = Inr rs"
    and nth: "\<forall>j < length cs. sr_principal (rs ! j) = ?per
         \<and> sr_scheduled_balance (rs ! j) = p * of_int (tenor - int (k + 1 + j + 1)) / of_int tenor"
    unfolding step by blast
  let ?row = "\<lparr>sr_number = ci_number c, sr_due_date = ci_due_date c, sr_principal = ?per,
    sr_interest = i, sr_installment = ?per + i, sr_scheduled_balance = ?bal - ?per\<rparr>"
  have "schedule_rows tenor ?per i k ?bal (c # cs) = Inr (?row # rs)"
  proof -
    define b where "b = ?bal"
    show ?thesis
      using le last rs unfolding b_def [symmetric]
      by (cases "int k = tenor - 1") (auto simp: Let_def)
  qed
  moreover have "\<forall>j < length (c # cs). sr_principal ((?row # rs) ! j) = ?per
         \<and> sr_scheduled_balance ((?row # rs) ! j) = p * of_int (tenor - int (k + j + 1)) / of_int tenor"
  proof (intro allI impI)
    fix j
    assume "j < length (c # cs)"
    then show "sr_principal ((?row # rs) ! j) = ?per
         \<and> sr_scheduled_balance ((?row # rs) ! j) = p * of_int (tenor - int (k + j + 1)) / of_int tenor"
      using nth step by (cases j) auto
  qed
  ultimately show ?case by blast
qed simp

lemma build_sorted_ok_numbers:
  "build_sorted rnd p tenor rate cs = Inr rows \<Longrightarrow>
     map ci_number cs = map (\<lambda>i. int i + 1) [0..<length cs] \<and> chronological cs
     \<and> int (length cs) = tenor \<and> list_all (\<lambda>c. \<not> date_is_zero (ci_due_date c)) cs"
  by (auto simp: build_sorted_def res_simps check_installments_ok split: if_splits sum.splits)

text \<open>The sort before the check may be any sort: only the numbers decide.\<close>

lemma build_sorted_any_sort:
  assumes "mset ys = mset xs" and "sorted (map ci_number ys)"
  shows "build_sorted rnd p tenor rate ys = build_sorted rnd p tenor rate (sort_key ci_number xs)"
proof (cases "distinct (map ci_number ys)")
  case True
  have "sort_key ci_number xs = ys"
    using assms True by (intro sorted_distinct_map_unique [of _ _ ci_number]) auto
  then show ?thesis by simp
next
  case False
  have len: "length ys = length xs" using assms(1) by (rule mset_eq_length)
  have bad: "check_installments 0 None zs = Inl [ErrUnsupportedCalculation]"
    if "\<not> distinct (map ci_number zs)" for zs
  proof (rule check_installments_cases [of 0 None zs])
    assume "check_installments 0 None zs = Inr ()"
    then have "map ci_number zs = map (\<lambda>i. int i + 1) [0..<length zs]"
      by (simp add: check_installments_ok)
    moreover have "distinct (map (\<lambda>i. int i + 1) [0..<length zs])"
      by (simp add: distinct_map inj_on_def)
    ultimately show ?thesis using that by simp
  qed
  have "mset (map ci_number (sort_key ci_number xs)) = mset (map ci_number ys)"
    using assms(1) by simp
  then have "\<not> distinct (map ci_number (sort_key ci_number xs))"
    using False by (metis mset_eq_imp_distinct_iff)
  then show ?thesis
    using bad [OF False] bad [of "sort_key ci_number xs"] by (simp add: build_sorted_def len)
qed

definition valid_installments :: "int \<Rightarrow> contractual_installment list \<Rightarrow> bool" where
  "valid_installments tenor cs \<longleftrightarrow>
     map ci_number cs = map (\<lambda>i. int i + 1) [0..<nat tenor] \<and> chronological cs
     \<and> list_all (\<lambda>c. \<not> date_is_zero (ci_due_date c)) cs"

lemma valid_installments_check:
  assumes "0 < tenor"
  shows "valid_installments tenor cs \<longleftrightarrow>
    int (length cs) = tenor \<and> check_installments 0 None cs = Inr ()"
proof -
  have "map ci_number cs = map (\<lambda>i. int i + 1) [0..<nat tenor] \<Longrightarrow> length cs = nat tenor"
    by (metis length_map length_upt minus_nat.diff_0)
  then show ?thesis using assms by (auto simp: valid_installments_def check_installments_ok)
qed

lemma build_schedule_sound:
  assumes "build_schedule rnd p tenor rate src = Inr rows"
  shows "map sr_number rows = map (\<lambda>i. int i + 1) [0..<nat tenor]"
    and "sorted_wrt (\<lambda>r s. date_key (sr_due_date r) < date_key (sr_due_date s)) rows"
    and "list_all (\<lambda>r. 0 \<le> sr_principal r \<and> 0 \<le> sr_interest r \<and> 0 \<le> sr_scheduled_balance r
         \<and> sr_installment r = sr_principal r + sr_interest r) rows"
    and "sum_list (map sr_principal rows) = p" and "rows \<noteq> []" and "sr_scheduled_balance (last rows) = 0"
    and "0 < p" and "0 < tenor" and "int (length rows) = tenor"
proof -
  let ?cs = "sort_key ci_number src"
  from assms have terms: "\<not> invalid_terms p tenor rate"
    and bs: "build_sorted rnd p tenor rate ?cs = Inr rows"
    by (auto simp: build_schedule_def split: if_splits)
  then show p: "0 < p" and t: "0 < tenor" by (auto simp: invalid_terms_def)
  from build_sorted_ok_numbers [OF bs] have num: "map ci_number ?cs = map (\<lambda>i. int i + 1) [0..<nat tenor]"
    and chr: "chronological ?cs" and len: "int (length ?cs) = tenor" by auto
  from bs obtain per i where rows: "schedule_rows tenor per i 0 p ?cs = Inr rows" and pos: "0 \<le> per" "0 \<le> i"
    by (auto simp: build_sorted_def res_simps Let_def split: if_splits sum.splits)
  have ne: "?cs \<noteq> []" using len t by (metis less_irrefl list.size(3) of_nat_0)
  note sound = schedule_rows_sound [OF rows pos(1), unfolded ne]
  then have s: "map sr_number rows = map ci_number ?cs" "map sr_due_date rows = map ci_due_date ?cs"
    and l: "list_all (\<lambda>r. 0 \<le> sr_principal r \<and> sr_interest r = i \<and> 0 \<le> sr_scheduled_balance r
         \<and> sr_installment r = sr_principal r + sr_interest r) rows"
    and sm: "sum_list (map sr_principal rows) = p" "sr_scheduled_balance (last rows) = 0"
    using p len ne by auto
  show "map sr_number rows = map (\<lambda>i. int i + 1) [0..<nat tenor]" using s(1) num by simp
  show "int (length rows) = tenor" using s(1) len by (metis length_map)
  show "rows \<noteq> []" using s(1) ne by auto
  have "sorted_wrt (\<lambda>a b. date_key a < date_key b) (map sr_due_date rows)"
    using chr unfolding s(2) by (simp add: chronological_def sorted_wrt_map)
  then show "sorted_wrt (\<lambda>r s. date_key (sr_due_date r) < date_key (sr_due_date s)) rows"
    by (simp add: sorted_wrt_map)
  show "list_all (\<lambda>r. 0 \<le> sr_principal r \<and> 0 \<le> sr_interest r \<and> 0 \<le> sr_scheduled_balance r
         \<and> sr_installment r = sr_principal r + sr_interest r) rows"
    using l pos(2) by (auto simp: list_all_iff)
  show "sum_list (map sr_principal rows) = p" "sr_scheduled_balance (last rows) = 0" using sm .
qed

lemma build_schedule_exact:
  assumes "\<not> invalid_terms p tenor rate" and "valid_installments tenor (sort_key ci_number src)"
  shows "\<exists>rows. build_schedule None p tenor rate src = Inr rows
    \<and> (\<forall>j < nat tenor. sr_principal (rows ! j) = p / of_int tenor
         \<and> sr_interest (rows ! j) = p * rate / 1200
         \<and> sr_scheduled_balance (rows ! j) = p * of_int (tenor - int j - 1) / of_int tenor)"
proof -
  let ?cs = "sort_key ci_number src"
  from assms(1) have t: "0 < tenor" and p: "0 \<le> p" and r: "0 \<le> rate" by (auto simp: invalid_terms_def)
  from assms(2) have len: "int (length ?cs) = tenor" and chk: "check_installments 0 None ?cs = Inr ()"
    by (simp_all add: valid_installments_check [OF t])
  let ?i = "p * rate / 1200"
  from schedule_rows_exact [OF t p, of 0 ?cs ?i] len t obtain rows where
    rows: "schedule_rows tenor (p / of_int tenor) ?i 0 p ?cs = Inr rows"
    and nth: "\<forall>j < length ?cs. sr_principal (rows ! j) = p / of_int tenor
         \<and> sr_scheduled_balance (rows ! j) = p * of_int (tenor - int (0 + j + 1)) / of_int tenor"
    by auto
  have pos: "0 \<le> p / of_int tenor" "0 \<le> ?i" using p r t by auto
  have b: "build_schedule None p tenor rate src = Inr rows"
    using assms(1) len chk t rows pos
    by (simp add: build_schedule_def build_sorted_def div_int_def calc_round_def)
  have "?cs \<noteq> []" using len t by (metis less_irrefl list.size(3) of_nat_0)
  then have "list_all (\<lambda>r. sr_interest r = ?i) rows" and lr: "length rows = length ?cs"
    using schedule_rows_sound [OF rows pos(1) p] len
    by (auto simp: list_all_iff dest: arg_cong [of _ _ length])
  then have "\<forall>j < nat tenor. sr_interest (rows ! j) = ?i"
    using len by (auto simp: list_all_length)
  moreover have "\<forall>j < nat tenor. sr_principal (rows ! j) = p / of_int tenor
      \<and> sr_scheduled_balance (rows ! j) = p * of_int (tenor - int j - 1) / of_int tenor"
    using nth len by (auto simp: algebra_simps)
  ultimately show ?thesis using b by blast
qed

section \<open>Effective repayments\<close>

text \<open>The compaction as a recursion on lists, with no array.\<close>

fun effective_spec :: "repayment list \<Rightarrow> repayment list res" where
  "effective_spec [] = Inr []"
| "effective_spec (p # ps) =
     (if rp_total_payment p < 0 then Inl [ErrUnsupportedRepaymentReversal]
      else if rp_total_payment p = 0 then
        (if zero_repayment_components p then effective_spec ps else Inl [ErrUnsupportedRepaymentAdjustment])
      else if ps \<noteq> [] \<and> rp_total_payment (hd ps) < 0 then
        (if \<not> date_equal (rp_date p) (rp_date (hd ps)) \<or> \<not> exact_repayment_inverse p (hd ps)
         then Inl [ErrUnsupportedRepaymentReversal]
         else if \<not> repayment_components_equal_total p then Inl [ErrHistoricalEvidence]
         else effective_spec (tl ps))
      else if \<not> repayment_components_equal_total p then Inl [ErrHistoricalEvidence]
      else if repayment_amount p < 0 then Inl [ErrUnsupportedCalculation]
      else rbind (effective_spec ps) (\<lambda>e. Inr (p # e)))"

lemma compact_repayments_spec:
  "w \<le> index \<Longrightarrow> compact_repayments arr w index =
     rbind (effective_spec (drop index arr)) (\<lambda>e. Inr (take w arr @ e))"
proof (induction arr w index rule: compact_repayments.induct)
  case (1 arr w index)
  show ?case
  proof (cases "index < length arr")
    case False
    then show ?thesis by (simp add: compact_repayments.simps [of arr w index])
  next
    case True
    let ?p = "arr ! index" and ?ps = "drop (Suc index) arr"
    have d: "drop index arr = ?p # ?ps" using True by (rule Cons_nth_drop_Suc [symmetric])
    have hd: "?ps \<noteq> [] \<longleftrightarrow> index + 1 < length arr" "index + 1 < length arr \<Longrightarrow> hd ?ps = arr ! (index + 1)"
      by (auto simp: hd_drop_conv_nth)
    have tl: "tl ?ps = drop (index + 2) arr" by (simp add: drop_Suc tl_drop)
    have app: "take (Suc w) (arr[w := ?p]) = take w arr @ [?p]"
      and dr: "drop (Suc index) (arr[w := ?p]) = ?ps"
      using "1.prems" True by (auto simp: take_Suc_conv_app_nth)
    show ?thesis
      using "1.prems" True "1.IH" [OF _ refl]
      unfolding compact_repayments.simps [of arr w index] d
      by (auto simp: Let_def hd tl app dr rbind_assoc)
  qed
qed

lemma effective_spec_properties:
  "effective_spec ps = Inr es \<Longrightarrow>
     subseq es ps
     \<and> list_all (\<lambda>p. 0 < rp_total_payment p \<and> repayment_components_equal_total p \<and> 0 \<le> repayment_amount p) es
     \<and> sum_list (map repayment_amount es) = sum_list (map repayment_amount ps)"
proof (induction ps arbitrary: es rule: effective_spec.induct)
  case (2 p ps)
  consider (zero) "rp_total_payment p = 0" "zero_repayment_components p" "effective_spec ps = Inr es"
    | (rev) n qs where "ps = n # qs" "rp_total_payment n < 0" "exact_repayment_inverse p n" "effective_spec qs = Inr es"
        "rp_total_payment p > 0" "repayment_components_equal_total p" "date_equal (rp_date p) (rp_date n)"
    | (keep) fs where "0 < rp_total_payment p" "repayment_components_equal_total p" "0 \<le> repayment_amount p"
        "effective_spec ps = Inr fs" "es = p # fs" "\<not> (ps \<noteq> [] \<and> rp_total_payment (hd ps) < 0)"
    using "2.prems" by (cases ps) (auto simp: res_simps split: if_splits)
  then show ?case
  proof cases
    case zero
    then show ?thesis
      using "2.IH"(1) [of es] by (auto simp: zero_repayment_components_def repayment_amount_def)
  next
    case rev
    have "repayment_amount p + repayment_amount n = 0"
      using rev(3) by (simp add: exact_repayment_inverse_def repayment_amount_def)
    then show ?thesis
      using rev "2.IH"(2) [of es] by (auto intro: subseq_drop_many)
  next
    case keep
    then show ?thesis using "2.IH"(3) [of fs] by auto
  qed
qed simp

definition in_window :: "date \<Rightarrow> date \<Rightarrow> repayment \<Rightarrow> bool" where
  "in_window cutoff as_of p \<longleftrightarrow> date_after (rp_date p) cutoff \<and> \<not> date_after (rp_date p) as_of"

lemma effective_repayments_spec:
  "effective_repayments source cutoff as_of =
     effective_spec (sort_key repayment_key (filter (in_window cutoff as_of) source))"
  using compact_repayments_spec [of 0 0]
  by (cases "effective_spec (sort_key repayment_key (filter (in_window cutoff as_of) source))")
    (simp_all add: effective_repayments_def in_window_def [abs_def])

lemma subseq_set: "subseq xs ys \<Longrightarrow> set xs \<subseteq> set ys"
  by (auto elim: list_emb_set)

lemma sorted_wrt_subseq: "subseq xs ys \<Longrightarrow> sorted_wrt P ys \<Longrightarrow> sorted_wrt P xs"
  by (induction rule: list_emb.induct) (auto dest: subseq_set)

lemma effective_repayments_sorted:
  assumes "effective_repayments source cutoff as_of = Inr es"
  shows "sorted (map repayment_key es)" and "list_all (in_window cutoff as_of) es"
proof -
  let ?s = "sort_key repayment_key (filter (in_window cutoff as_of) source)"
  have sub: "subseq es ?s"
    using assms effective_spec_properties unfolding effective_repayments_spec by blast
  have "sorted (map repayment_key ?s)" by simp
  then show "sorted (map repayment_key es)"
    using sorted_wrt_subseq [OF subseq_map [OF sub]] by blast
  show "list_all (in_window cutoff as_of) es"
    using subseq_set [OF sub] by (auto simp: list_all_iff)
qed

lemma repayment_key_dates:
  "sorted (map repayment_key es) \<Longrightarrow> sorted (map (\<lambda>p. date_key (rp_date p)) es)"
  by (induction es) (auto simp: repayment_key_def less_eq_prod_def)

section \<open>Balances\<close>

text \<open>The invariant of the running balances, and the amount they owe in total.\<close>

definition state_ok :: "calculation_state \<Rightarrow> bool" where
  "state_ok st \<longleftrightarrow>
     balances_ok (st_principal st) (st_principal_due st) (st_interest_due st) \<and> 0 \<le> st_unapplied st"

definition net_owed :: "calculation_state \<Rightarrow> money" where
  "net_owed st = st_principal st + st_interest_due st - st_unapplied st"

lemmas pay_defs = pay_principal_due_def pay_principal_advance_def pay_interest_due_def pay_bucket_def
  min_money_def Let_def

text \<open>Closed forms of the two allocation orders.\<close>

lemma allocate_performing:
  assumes "state_ok st" and "0 \<le> a" and "k \<le> 2"
  shows "allocate a k st =
    (let i = min a (st_interest_due st); p = min (a - i) (st_principal st)
     in st\<lparr>st_principal := st_principal st - p,
           st_principal_due := st_principal_due st - min p (st_principal_due st),
           st_interest_due := st_interest_due st - i,
           st_unapplied := st_unapplied st + (a - i - p)\<rparr>)"
  using assms by (cases st) (auto simp: allocate_def pay_defs state_ok_def balances_ok_def)

lemma allocate_nonperforming:
  assumes "state_ok st" and "0 \<le> a" and "2 < k"
  shows "allocate a k st =
    (let p = min a (st_principal st); i = min (a - p) (st_interest_due st)
     in st\<lparr>st_principal := st_principal st - p,
           st_principal_due := st_principal_due st - min p (st_principal_due st),
           st_interest_due := st_interest_due st - i,
           st_unapplied := st_unapplied st + (a - p - i)\<rparr>)"
  using assms by (cases st) (auto simp: allocate_def pay_defs state_ok_def balances_ok_def)

lemma allocate_ok:
  assumes "state_ok st" and "0 \<le> a"
  shows "state_ok (allocate a k st)" and "net_owed (allocate a k st) = net_owed st - a"
proof -
  have "state_ok (allocate a k st) \<and> net_owed (allocate a k st) = net_owed st - a"
  proof (cases "k \<le> 2")
    case True
    then show ?thesis using assms
      by (subst allocate_performing, simp, simp, simp, subst allocate_performing)
        (auto simp: Let_def state_ok_def balances_ok_def net_owed_def min_def)
  next
    case False
    then show ?thesis using assms
      by (subst allocate_nonperforming, simp, simp, simp, subst allocate_nonperforming)
        (auto simp: Let_def state_ok_def balances_ok_def net_owed_def min_def)
  qed
  then show "state_ok (allocate a k st)" and "net_owed (allocate a k st) = net_owed st - a" by auto
qed

lemma accrue_row_ok:
  assumes "state_ok st" and "0 \<le> sr_principal r" and "0 \<le> sr_interest r"
  shows "state_ok (accrue_row r st)"
    and "net_owed (accrue_row r st) = net_owed st + (if 0 < st_principal st then sr_interest r else 0)"
  using assms by (auto simp: accrue_row_def state_ok_def balances_ok_def net_owed_def min_money_def Let_def)

lemma opening_calculation_ok:
  "validate_opening op = Inr () \<longleftrightarrow> opening_ok op"
  "opening_ok op \<Longrightarrow> state_ok (opening_calculation op)"
  by (auto simp: validate_opening_def opening_ok_def balances_ok_def state_ok_def opening_calculation_def)

lemma finish_ok:
  "state_ok st \<Longrightarrow> finish res st = Inr (res\<lparr>cr_principal_outstanding := st_principal st,
     cr_principal_due := st_principal_due st, cr_interest_due := st_interest_due st,
     cr_unapplied_amount := st_unapplied st\<rparr>)"
  by (auto simp: finish_def state_ok_def balances_ok_def)

section \<open>Collectability\<close>

lemma validate_timeline_from_values:
  "validate_timeline_from prev ps = Inr () \<Longrightarrow> list_all (\<lambda>p. 1 \<le> cp_value p \<and> cp_value p \<le> 5) ps"
  by (induction ps arbitrary: prev) (auto split: if_splits)

lemma scan_timeline_range:
  "1 \<le> v \<Longrightarrow> v \<le> 5 \<Longrightarrow> list_all (\<lambda>p. 1 \<le> cp_value p \<and> cp_value p \<le> 5) ps
   \<Longrightarrow> 1 \<le> scan_timeline v ps d \<and> scan_timeline v ps d \<le> 5"
  by (induction ps arbitrary: v) auto

lemma collectability_at_total:
  assumes "1 \<le> op" and "op \<le> 5" and "validate_timeline ps = Inr ()"
  shows "collectability_at op ps d = Inr (scan_timeline op ps d)"
  using scan_timeline_range [OF assms(1,2), of ps d] assms validate_timeline_from_values [of None ps]
  by (auto simp: collectability_at_def validate_timeline_def Let_def)

section \<open>The accrual loop\<close>

abbreviation due_by :: "date \<Rightarrow> contractual_schedule_row \<Rightarrow> bool" where
  "due_by d r \<equiv> \<not> date_after (sr_due_date r) d"

definition accrue_trace :: "contractual_schedule_row list \<Rightarrow> calculation_trace \<Rightarrow> calculation_trace" where
  "accrue_trace rs tr =
     tr\<lparr>tr_periods_accrued := tr_periods_accrued tr + int (length rs),
        tr_last_due_date_accrued := (if rs = [] then tr_last_due_date_accrued tr else sr_due_date (last rs))\<rparr>"

lemma accrue_through_eq:
  "accrue_through schedule d run =
     (let rs = takeWhile (due_by d) (drop (run_next_due run) schedule)
      in \<lparr>run_state = fold accrue_row rs (run_state run), run_trace = accrue_trace rs (run_trace run),
          run_next_due = run_next_due run + length rs\<rparr>)"
proof (induction schedule d run rule: accrue_through.induct)
  case (1 schedule d run)
  let ?n = "run_next_due run"
  show ?case
  proof (cases "?n < length schedule \<and> due_by d (schedule ! ?n)")
    case True
    then have "drop ?n schedule = schedule ! ?n # drop (Suc ?n) schedule"
      by (simp add: Cons_nth_drop_Suc)
    with True "1.IH" [OF True refl refl] show ?thesis
      unfolding accrue_through.simps [of schedule d run]
      by (auto simp: Let_def accrue_trace_def)
  next
    case False
    then have "takeWhile (due_by d) (drop ?n schedule) = []"
      by (cases "?n < length schedule") (auto simp: Cons_nth_drop_Suc [symmetric])
    with False show ?thesis
      unfolding accrue_through.simps [of schedule d run]
      by (auto simp: Let_def accrue_trace_def)
  qed
qed

lemma skip_until_eq: "drop (skip_until rs cutoff) rs = dropWhile (due_by cutoff) rs"
  by (induction rs) auto

section \<open>The calculation as a fold over dated events\<close>

datatype calc_event = Due contractual_schedule_row | Pay repayment

fun event_key :: "calc_event \<Rightarrow> int" where
  "event_key (Due r) = date_key (sr_due_date r)"
| "event_key (Pay p) = date_key (rp_date p)"

text \<open>One event, given the collectability of each date.\<close>

fun event_step :: "(date \<Rightarrow> int) \<Rightarrow> calc_event \<Rightarrow> calculation_state \<Rightarrow> calculation_state" where
  "event_step coll (Due r) st = accrue_row r st"
| "event_step coll (Pay p) st =
     (if repayment_amount p = 0 then st else allocate (repayment_amount p) (coll (rp_date p)) st)"

text \<open>All due dates and payments in date order; a due date comes before a payment of the same day.\<close>

definition calc_events :: "contractual_schedule_row list \<Rightarrow> repayment list \<Rightarrow> calc_event list" where
  "calc_events rows payments = sort_key event_key (map Due rows @ map Pay payments)"

lemma sort_key_merge:
  assumes "sorted (map f xs)" and "\<forall>x \<in> set xs. f x \<le> f p" and "\<forall>y \<in> set ys. f p < f y"
    and "\<forall>z \<in> set zs. f p \<le> f z"
  shows "sort_key f (xs @ ys @ p # zs) = xs @ p # sort_key f (ys @ zs)"
proof (rule properties_for_sort_key)
  let ?r = "xs @ p # sort_key f (ys @ zs)"
  show "mset ?r = mset (xs @ ys @ p # zs)" by simp
  show "filter (\<lambda>x. f k = f x) ?r = filter (\<lambda>x. f k = f x) (xs @ ys @ p # zs)" for k
  proof -
    have "filter (\<lambda>x. f k = f x) (sort_key f (ys @ zs)) = filter (\<lambda>x. f k = f x) (ys @ zs)"
      using sort_key_stable [of f "f k" "ys @ zs"] by (simp add: eq_commute)
    moreover have "filter (\<lambda>x. f k = f x) ys = []" if "f k = f p"
      using assms(3) that by (auto simp: filter_empty_conv)
    ultimately show ?thesis by auto
  qed
  show "sorted (map f ?r)"
    using assms by (fastforce simp: sorted_append intro: order_trans less_imp_le)
qed

lemma accrue_rows_fold: "fold accrue_row rs st = fold (event_step coll) (map Due rs) st"
  by (induction rs arbitrary: st) auto

definition strictly_dated :: "contractual_schedule_row list \<Rightarrow> bool" where
  "strictly_dated rows \<longleftrightarrow> sorted_wrt (\<lambda>r s. date_key (sr_due_date r) < date_key (sr_due_date s)) rows"

lemma strictly_dated_Cons [simp]:
  "strictly_dated (r # rows) \<longleftrightarrow>
     (\<forall>s \<in> set rows. date_key (sr_due_date r) < date_key (sr_due_date s)) \<and> strictly_dated rows"
  "strictly_dated []"
  by (auto simp: strictly_dated_def)

lemma strictly_dated_append:
  "strictly_dated (xs @ ys) \<Longrightarrow> strictly_dated xs \<and> strictly_dated ys"
  by (auto simp: strictly_dated_def sorted_wrt_append)

lemma strictly_dated_while:
  assumes "strictly_dated rows"
  shows "strictly_dated (dropWhile (due_by d) rows)" and "strictly_dated (takeWhile (due_by d) rows)"
  using strictly_dated_append [of "takeWhile (due_by d) rows" "dropWhile (due_by d) rows"] assms
  by auto

lemma strictly_dated_after:
  "strictly_dated rows \<Longrightarrow> r \<in> set (dropWhile (due_by d) rows) \<Longrightarrow> date_key d < date_key (sr_due_date r)"
proof (induction rows)
  case (Cons a rows)
  then show ?case by (cases "due_by d a") (auto simp: date_after_def)
qed simp

lemma strictly_dated_filter: "strictly_dated rows \<Longrightarrow> filter (due_by d) rows = takeWhile (due_by d) rows"
proof (induction rows)
  case (Cons a rows)
  have "filter (due_by d) rows = []" if "\<not> due_by d a"
    using that Cons.prems by (fastforce simp: date_after_def filter_empty_conv)
  with Cons show ?case by simp
qed simp

lemma strictly_dated_sorted: "strictly_dated rows \<Longrightarrow> sorted (map (\<lambda>r. date_key (sr_due_date r)) rows)"
  by (induction rows) (auto intro: less_imp_le)

lemma event_key_Due: "event_key \<circ> Due = (\<lambda>r. date_key (sr_due_date r))"
  by (rule ext) simp

text \<open>
  The loop over the payments followed by the final accrual has the effect of the events in order.
\<close>

lemma apply_repayments_events:
  assumes "strictly_dated (drop (run_next_due run) schedule)"
    and "sorted (map (\<lambda>p. date_key (rp_date p)) ps)" and "list_all (\<lambda>p. \<not> date_after (rp_date p) as_of) ps"
    and "\<And>d. collectability_at opening timeline d = Inr (coll d)"
  shows "\<exists>run'. apply_repayments schedule opening timeline ps run = Inr run'
    \<and> run_state (accrue_through schedule as_of run') =
        fold (event_step coll)
          (calc_events (filter (due_by as_of) (drop (run_next_due run) schedule)) ps) (run_state run)
    \<and> tr_repayments_applied (run_trace (accrue_through schedule as_of run')) =
        tr_repayments_applied (run_trace run) + int (length (filter (\<lambda>p. repayment_amount p \<noteq> 0) ps))
    \<and> tr_periods_accrued (run_trace (accrue_through schedule as_of run')) =
        tr_periods_accrued (run_trace run) + int (length (filter (due_by as_of) (drop (run_next_due run) schedule)))"
  using assms(1-3)
proof (induction ps arbitrary: run)
  case Nil
  let ?D = "drop (run_next_due run) schedule"
  have "calc_events (filter (due_by as_of) ?D) [] = map Due (takeWhile (due_by as_of) ?D)"
    using strictly_dated_sorted [OF strictly_dated_while(2) [OF Nil.prems(1)], of as_of]
    by (simp add: calc_events_def sort_key_id_if_sorted event_key_Due strictly_dated_filter [OF Nil.prems(1)])
  then show ?case
    using strictly_dated_filter [OF Nil.prems(1), of as_of]
    by (simp add: accrue_through_eq Let_def accrue_rows_fold [where coll = coll] accrue_trace_def)
next
  case (Cons p ps)
  let ?D = "drop (run_next_due run) schedule" and ?d = "rp_date p"
  let ?A = "takeWhile (due_by ?d) ?D" and ?R = "dropWhile (due_by ?d) ?D"
  define run1 where "run1 = accrue_through schedule ?d run"
  define run2 where "run2 = (if repayment_amount p = 0 then run1 else
    run1\<lparr>run_state := allocate (repayment_amount p) (coll ?d) (run_state run1),
         run_trace := (run_trace run1)\<lparr>tr_repayments_applied := tr_repayments_applied (run_trace run1) + 1,
                                       tr_last_payment_date := ?d\<rparr>\<rparr>)"
  have unfold: "apply_repayments schedule opening timeline (p # ps) run =
      apply_repayments schedule opening timeline ps run2"
    by (simp add: assms(4) Let_def run2_def run1_def)
  have next2: "run_next_due run2 = run_next_due run + length ?A"
    by (simp add: run2_def run1_def accrue_through_eq Let_def)
  have D2: "drop (run_next_due run2) schedule = ?R"
    unfolding next2 by (metis add.commute drop_drop dropWhile_eq_drop)
  note split = strictly_dated_while [OF Cons.prems(1), of ?d] strictly_dated_after [OF Cons.prems(1), of _ ?d]
  have st2: "run_state run2 = event_step coll (Pay p) (fold (event_step coll) (map Due ?A) (run_state run))"
    by (simp add: run2_def run1_def accrue_through_eq Let_def accrue_rows_fold [where coll = coll])
  have AF: "filter (due_by as_of) ?D = ?A @ filter (due_by as_of) ?R"
  proof -
    have "filter (due_by as_of) ?D = filter (due_by as_of) (?A @ ?R)" by simp
    also have "\<dots> = filter (due_by as_of) ?A @ filter (due_by as_of) ?R" by (rule filter_append)
    also have "filter (due_by as_of) ?A = ?A"
      using Cons.prems(3) by (auto simp: date_after_def dest!: set_takeWhileD intro!: filter_True)
    finally show ?thesis .
  qed
  have "calc_events (filter (due_by as_of) ?D) (p # ps) =
      map Due ?A @ Pay p # calc_events (filter (due_by as_of) ?R) ps"
    unfolding calc_events_def AF map_append append_assoc list.map
  proof (rule sort_key_merge)
    show "sorted (map event_key (map Due ?A))"
      using strictly_dated_sorted [OF split(2)] by (simp add: event_key_Due)
    show "\<forall>x \<in> set (map Due ?A). event_key x \<le> event_key (Pay p)"
      by (auto dest!: set_takeWhileD simp: date_after_def)
    show "\<forall>x \<in> set (map Due (filter (due_by as_of) ?R)). event_key (Pay p) < event_key x"
      using split(3) by simp
    show "\<forall>x \<in> set (map Pay ps). event_key (Pay p) \<le> event_key x"
      using Cons.prems(2) by simp
  qed
  moreover have "strictly_dated (drop (run_next_due run2) schedule)" using D2 split(1) by simp
  ultimately show ?case
    using Cons.IH [of run2] Cons.prems(2,3) AF unfolding unfold D2
    by (auto simp: st2) (auto simp: run2_def run1_def accrue_through_eq Let_def accrue_trace_def)
qed

text \<open>The interest that falls due along a sequence of events: a row accrues while principal is owed.\<close>

fun accrued_interest :: "(date \<Rightarrow> int) \<Rightarrow> calc_event list \<Rightarrow> calculation_state \<Rightarrow> money" where
  "accrued_interest coll [] st = 0"
| "accrued_interest coll (Due r # es) st =
     (if 0 < st_principal st then sr_interest r else 0) + accrued_interest coll es (accrue_row r st)"
| "accrued_interest coll (Pay p # es) st = accrued_interest coll es (event_step coll (Pay p) st)"

fun event_paid :: "calc_event \<Rightarrow> money" where
  "event_paid (Due r) = 0"
| "event_paid (Pay p) = repayment_amount p"

fun event_ok :: "calc_event \<Rightarrow> bool" where
  "event_ok (Due r) \<longleftrightarrow> 0 \<le> sr_principal r \<and> 0 \<le> sr_interest r"
| "event_ok (Pay p) \<longleftrightarrow> 0 \<le> repayment_amount p"

lemma events_fold:
  "list_all event_ok es \<Longrightarrow> state_ok st \<Longrightarrow>
     state_ok (fold (event_step coll) es st)
     \<and> net_owed (fold (event_step coll) es st) =
         net_owed st + accrued_interest coll es st - sum_list (map event_paid es)"
proof (induction es arbitrary: st)
  case (Cons e es)
  show ?case
  proof (cases e)
    case (Due r)
    then show ?thesis
      using Cons accrue_row_ok [of st r] Cons.IH [of "accrue_row r st"] by simp
  next
    case (Pay p)
    have "state_ok (event_step coll (Pay p) st)"
      and "net_owed (event_step coll (Pay p) st) = net_owed st - repayment_amount p"
      using Cons.prems Pay allocate_ok [of st "repayment_amount p" "coll (rp_date p)"] by auto
    then show ?thesis
      using Cons.IH [of "event_step coll (Pay p) st"] Cons.prems(1) Pay
      by (simp del: event_step.simps)
  qed
qed simp

lemma calc_events_paid: "sum_list (map event_paid (calc_events rows ps)) = sum_list (map repayment_amount ps)"
proof -
  have "mset (map event_paid (calc_events rows ps)) = mset (map event_paid (map Due rows @ map Pay ps))"
    by (simp add: calc_events_def multiset.map_comp)
  then have "sum_list (map event_paid (calc_events rows ps)) = sum_list (map event_paid (map Due rows @ map Pay ps))"
    by (metis sum_mset_sum_list)
  then show ?thesis by (simp add: comp_def)
qed

lemma calc_events_ok:
  "list_all event_ok (calc_events rows ps) \<longleftrightarrow>
     list_all (\<lambda>r. 0 \<le> sr_principal r \<and> 0 \<le> sr_interest r) rows \<and> list_all (\<lambda>p. 0 \<le> repayment_amount p) ps"
  by (simp add: calc_events_def list_all_iff ball_Un)

text \<open>
  The reference calculation: the same checks, then one fold over the dated events. The window of
  due dates is half open, after the cutoff and up to the reporting date.
\<close>

definition due_rows :: "contractual_schedule_row list \<Rightarrow> date \<Rightarrow> date \<Rightarrow> contractual_schedule_row list" where
  "due_rows schedule cutoff as_of =
     filter (\<lambda>r. date_after (sr_due_date r) cutoff \<and> \<not> date_after (sr_due_date r) as_of) schedule"

definition sorted_timeline :: "calculation_input \<Rightarrow> collectability_point list" where
  "sorted_timeline inp = sort_key (\<lambda>p. date_key (cp_date p)) (in_collectability_timeline inp)"

definition coll_of :: "calculation_input \<Rightarrow> date \<Rightarrow> int" where
  "coll_of inp = scan_timeline (op_collectability_bi (in_opening inp)) (sorted_timeline inp)"

text \<open>An input past the cutoff on which every check of \<open>Calculate\<close> succeeds.\<close>

definition calculable ::
  "(money \<Rightarrow> money) option \<Rightarrow> calculation_input \<Rightarrow> contractual_schedule_row list \<Rightarrow> repayment list \<Rightarrow> bool" where
  "calculable rnd inp schedule repayments \<longleftrightarrow>
     \<not> date_is_zero (in_as_of inp) \<and> \<not> date_is_zero (in_cutoff inp)
     \<and> date_after (in_as_of inp) (in_cutoff inp) \<and> opening_ok (in_opening inp)
     \<and> build_schedule rnd (in_contractual_principal inp) (in_tenor_months inp)
         (in_flat_rate_percent inp) (in_contract_schedule inp) = Inr schedule
     \<and> validate_timeline (sorted_timeline inp) = Inr ()
     \<and> effective_repayments (in_repayments inp) (in_cutoff inp) (in_as_of inp) = Inr repayments"

lemma strictly_dated_due_rows:
  assumes "strictly_dated schedule"
  shows "filter (due_by as_of) (drop (skip_until schedule cutoff) schedule) = due_rows schedule cutoff as_of"
proof -
  have "due_rows schedule cutoff as_of = filter (due_by as_of) (filter (\<lambda>r. \<not> due_by cutoff r) schedule)"
    by (simp add: due_rows_def conj_commute)
  also have "filter (\<lambda>r. \<not> due_by cutoff r) schedule = dropWhile (due_by cutoff) schedule"
    using assms
  proof (induction schedule)
    case (Cons r rs)
    have "filter (\<lambda>r. \<not> due_by cutoff r) rs = rs" if "\<not> due_by cutoff r"
      using that Cons.prems by (fastforce simp: date_after_def filter_id_conv)
    with Cons show ?case by simp
  qed simp
  finally show ?thesis by (simp add: skip_until_eq)
qed

definition final_state :: "calculation_input \<Rightarrow> contractual_schedule_row list \<Rightarrow> repayment list \<Rightarrow> calculation_state" where
  "final_state inp schedule repayments =
     fold (event_step (coll_of inp))
       (calc_events (due_rows schedule (in_cutoff inp) (in_as_of inp)) repayments)
       (opening_calculation (in_opening inp))"

lemma calculable_events_ok:
  assumes "calculable rnd inp schedule repayments"
  shows "list_all event_ok (calc_events (due_rows schedule (in_cutoff inp) (in_as_of inp)) repayments)"
    and "sum_list (map repayment_amount repayments) =
      sum_list (map repayment_amount (filter (in_window (in_cutoff inp) (in_as_of inp)) (in_repayments inp)))"
proof -
  from assms have b: "build_schedule rnd (in_contractual_principal inp) (in_tenor_months inp)
         (in_flat_rate_percent inp) (in_contract_schedule inp) = Inr schedule"
    and e: "effective_repayments (in_repayments inp) (in_cutoff inp) (in_as_of inp) = Inr repayments"
    by (auto simp: calculable_def)
  let ?w = "filter (in_window (in_cutoff inp) (in_as_of inp)) (in_repayments inp)"
  note ep = effective_spec_properties [OF e [unfolded effective_repayments_spec]]
  show "list_all event_ok (calc_events (due_rows schedule (in_cutoff inp) (in_as_of inp)) repayments)"
    unfolding calc_events_ok using build_schedule_sound(3) [OF b] ep
    by (auto simp: due_rows_def list_all_iff)
  have "mset (map repayment_amount (sort_key repayment_key ?w)) = mset (map repayment_amount ?w)" by simp
  then show "sum_list (map repayment_amount repayments) = sum_list (map repayment_amount ?w)"
    using ep by (metis sum_mset_sum_list)
qed

lemma apply_repayments_opening:
  "apply_repayments schedule op0 tml ps run = Inr run' \<Longrightarrow> tr_opening (run_trace run') = tr_opening (run_trace run)"
proof (induction ps arbitrary: run)
  case (Cons p ps)
  from Cons.prems obtain run2 where "apply_repayments schedule op0 tml ps run2 = Inr run'"
    and "tr_opening (run_trace run2) = tr_opening (run_trace run)"
    by (auto simp: Let_def res_simps accrue_through_eq accrue_trace_def split: if_splits)
  with Cons.IH show ?case by metis
qed simp

lemma calculate_total:
  assumes c: "calculable rnd inp schedule repayments"
  defines "st \<equiv> final_state inp schedule repayments"
  shows "\<exists>r. calculate rnd inp = Inr r \<and> state_ok st
    \<and> cr_as_of r = in_as_of inp \<and> cr_contractual_schedule r = schedule
    \<and> cr_collectability_bi r = coll_of inp (in_as_of inp)
    \<and> cr_principal_outstanding r = st_principal st \<and> cr_principal_due r = st_principal_due st
    \<and> cr_interest_due r = st_interest_due st \<and> cr_unapplied_amount r = st_unapplied st
    \<and> tr_opening (cr_trace r) = in_opening inp
    \<and> tr_repayments_applied (cr_trace r) = int (length (filter (\<lambda>p. repayment_amount p \<noteq> 0) repayments))
    \<and> tr_periods_accrued (cr_trace r) = int (length (due_rows schedule (in_cutoff inp) (in_as_of inp)))"
proof -
  let ?op = "in_opening inp" and ?tl = "sorted_timeline inp"
  let ?run0 = "\<lparr>run_state = opening_calculation ?op, run_trace = cr_trace (initial_result inp),
    run_next_due = skip_until schedule (in_cutoff inp)\<rparr>"
  from c have op: "opening_ok ?op"
    and b: "build_schedule rnd (in_contractual_principal inp) (in_tenor_months inp)
         (in_flat_rate_percent inp) (in_contract_schedule inp) = Inr schedule"
    and tl: "validate_timeline ?tl = Inr ()"
    and e: "effective_repayments (in_repayments inp) (in_cutoff inp) (in_as_of inp) = Inr repayments"
    by (auto simp: calculable_def)
  have coll: "collectability_at (op_collectability_bi ?op) ?tl d = Inr (coll_of inp d)" for d
    unfolding coll_of_def using op tl by (intro collectability_at_total) (auto simp: opening_ok_def)
  have sd: "strictly_dated schedule"
    using build_schedule_sound(2) [OF b] by (simp add: strictly_dated_def)
  then have "strictly_dated (drop (run_next_due ?run0) schedule)"
    by (simp add: skip_until_eq strictly_dated_while)
  moreover have "sorted (map (\<lambda>p. date_key (rp_date p)) repayments)"
    using effective_repayments_sorted(1) [OF e] by (rule repayment_key_dates)
  moreover have "list_all (\<lambda>p. \<not> date_after (rp_date p) (in_as_of inp)) repayments"
    using effective_repayments_sorted(2) [OF e] by (auto simp: list_all_iff in_window_def)
  ultimately obtain run where
    run: "apply_repayments schedule (op_collectability_bi ?op) ?tl repayments ?run0 = Inr run"
      "run_state (accrue_through schedule (in_as_of inp) run) = st"
      "tr_repayments_applied (run_trace (accrue_through schedule (in_as_of inp) run)) =
        int (length (filter (\<lambda>p. repayment_amount p \<noteq> 0) repayments))"
      "tr_periods_accrued (run_trace (accrue_through schedule (in_as_of inp) run)) =
        int (length (due_rows schedule (in_cutoff inp) (in_as_of inp)))"
    using apply_repayments_events [OF _ _ _ coll, of ?run0 schedule repayments "in_as_of inp"]
      strictly_dated_due_rows [OF sd]
    by (auto simp: st_def final_state_def initial_result_def empty_trace_def)
  have ok: "state_ok st"
    using events_fold [OF calculable_events_ok(1) [OF c] opening_calculation_ok(2) [OF op]]
    by (simp add: st_def final_state_def)
  have terms: "\<not> invalid_terms (in_contractual_principal inp) (in_tenor_months inp) (in_flat_rate_percent inp)"
    using b by (auto simp: build_schedule_def split: if_splits)
  have date: "\<not> date_before (in_as_of inp) (in_cutoff inp)" "\<not> date_equal (in_as_of inp) (in_cutoff inp)"
      "\<not> date_is_zero (in_as_of inp)" "\<not> date_is_zero (in_cutoff inp)"
    using c by (auto simp: calculable_def date_after_def date_before_def date_equal_def)
  have "tr_opening (run_trace (accrue_through schedule (in_as_of inp) run)) = ?op"
    using apply_repayments_opening [OF run(1)]
    by (simp add: accrue_through_eq Let_def accrue_trace_def initial_result_def)
  moreover have "calculate rnd inp = finish ((initial_result inp)\<lparr>cr_contractual_schedule := schedule,
      cr_trace := run_trace (accrue_through schedule (in_as_of inp) run),
      cr_collectability_bi := coll_of inp (in_as_of inp)\<rparr>) st"
    using date terms op [folded opening_calculation_ok(1)] b tl e run(1) coll
    by (simp add: calculate_def Let_def sorted_timeline_def [symmetric] run(2))
  ultimately show ?thesis
    using ok run(3,4) by (simp add: finish_ok initial_result_def)
qed

lemma calculate_calculable:
  assumes "calculate rnd inp = Inr r" and "\<not> date_equal (in_as_of inp) (in_cutoff inp)"
  obtains schedule repayments where "calculable rnd inp schedule repayments"
proof -
  from assms obtain schedule repayments where
    "\<not> date_is_zero (in_as_of inp)" "\<not> date_is_zero (in_cutoff inp)"
    "\<not> date_before (in_as_of inp) (in_cutoff inp)" "validate_opening (in_opening inp) = Inr ()"
    "build_schedule rnd (in_contractual_principal inp) (in_tenor_months inp)
       (in_flat_rate_percent inp) (in_contract_schedule inp) = Inr schedule"
    "validate_timeline (sorted_timeline inp) = Inr ()"
    "effective_repayments (in_repayments inp) (in_cutoff inp) (in_as_of inp) = Inr repayments"
    by (auto simp: calculate_def Let_def res_simps sorted_timeline_def split: if_splits)
  with assms(2) have "calculable rnd inp schedule repayments"
    by (auto simp: calculable_def opening_calculation_ok date_before_def date_equal_def date_after_def)
  then show thesis by (rule that)
qed

lemma calculate_cutoff:
  assumes "date_equal (in_as_of inp) (in_cutoff inp)"
  shows "calculate rnd inp = Inr r \<longleftrightarrow>
    \<not> date_is_zero (in_as_of inp) \<and> \<not> date_is_zero (in_cutoff inp) \<and> opening_ok (in_opening inp)
    \<and> r = (initial_result inp)\<lparr>cr_principal_outstanding := op_principal_outstanding (in_opening inp),
        cr_principal_due := op_principal_due (in_opening inp), cr_interest_due := op_interest_due (in_opening inp)\<rparr>"
proof -
  have "\<not> date_before (in_as_of inp) (in_cutoff inp)"
    using assms by (simp add: date_before_def date_equal_def)
  moreover have "finish (initial_result inp) (opening_calculation (in_opening inp)) =
     Inr ((initial_result inp)\<lparr>cr_principal_outstanding := op_principal_outstanding (in_opening inp),
        cr_principal_due := op_principal_due (in_opening inp), cr_interest_due := op_interest_due (in_opening inp)\<rparr>)"
    if "opening_ok (in_opening inp)"
    using finish_ok [OF opening_calculation_ok(2) [OF that]]
    by (simp add: opening_calculation_def initial_result_def)
  ultimately show ?thesis
    using assms by (auto simp: calculate_def Let_def res_simps opening_calculation_ok)
qed

lemma calculate_result_ok:
  assumes "calculate rnd inp = Inr r"
  shows "balances_ok (cr_principal_outstanding r) (cr_principal_due r) (cr_interest_due r)
    \<and> 0 \<le> cr_unapplied_amount r \<and> 1 \<le> cr_collectability_bi r \<and> cr_collectability_bi r \<le> 5"
proof (cases "date_equal (in_as_of inp) (in_cutoff inp)")
  case True
  with assms show ?thesis
    by (auto simp: calculate_cutoff [OF True] opening_ok_def initial_result_def)
next
  case False
  with assms obtain schedule repayments where c: "calculable rnd inp schedule repayments"
    by (rule calculate_calculable)
  then have "1 \<le> coll_of inp d \<and> coll_of inp d \<le> 5" for d
    unfolding coll_of_def
    by (intro scan_timeline_range)
      (auto simp: calculable_def opening_ok_def validate_timeline_def dest: validate_timeline_from_values)
  then show ?thesis
    using calculate_total [OF c] assms by (auto simp: state_ok_def)
qed

section \<open>A sample loan\<close>

text \<open>A two-month loan of 1200 at 12 percent, with a reversed and an effective payment, for the witnesses.\<close>

definition sample_installments :: "contractual_installment list" where
  "sample_installments =
     [\<lparr>ci_number = 2, ci_due_date = mk_date 2025 12 1\<rparr>, \<lparr>ci_number = 1, ci_due_date = mk_date 2025 11 1\<rparr>]"

definition sample_payment :: "int \<Rightarrow> money \<Rightarrow> money \<Rightarrow> repayment" where
  "sample_payment order principal0 interest =
     \<lparr>rp_date = mk_date 2025 11 5, rp_principal_component = principal0, rp_interest_component = interest,
      rp_penalty_component = 0, rp_early_penalty_component = 0, rp_dwp_component = 0,
      rp_total_payment = principal0 + interest, rp_journal_number = ''J'', rp_source_order = order\<rparr>"

definition sample_input :: calculation_input where
  "sample_input =
     \<lparr>in_as_of = mk_date 2025 12 31, in_cutoff = mk_date 2025 10 12, in_contractual_principal = 1200,
      in_tenor_months = 2, in_flat_rate_percent = 12,
      in_opening = empty_opening\<lparr>op_principal_outstanding := 1200, op_collectability_bi := 1\<rparr>,
      in_contract_schedule = sample_installments,
      in_repayments = [sample_payment 2 (-600) (-12), sample_payment 1 600 12, sample_payment 3 600 12],
      in_collectability_timeline = [\<lparr>cp_date = mk_date 2025 11 1, cp_value = 3\<rparr>]\<rparr>"

definition sample_rows :: "contractual_schedule_row list" where
  "sample_rows =
     [\<lparr>sr_number = 1, sr_due_date = mk_date 2025 11 1, sr_principal = 600, sr_interest = 12,
       sr_installment = 612, sr_scheduled_balance = 600\<rparr>,
      \<lparr>sr_number = 2, sr_due_date = mk_date 2025 12 1, sr_principal = 600, sr_interest = 12,
       sr_installment = 612, sr_scheduled_balance = 0\<rparr>]"

lemma sample_schedule: "build_schedule None 1200 2 12 sample_installments = Inr sample_rows"
  by code_simp

lemma sample_effective:
  "effective_repayments (in_repayments sample_input) (mk_date 2025 10 12) (mk_date 2025 12 31)
     = Inr [sample_payment 3 600 12]"
  by code_simp

lemma sample_timeline: "validate_timeline (sorted_timeline sample_input) = Inr ()"
  by code_simp

lemma sample_calculable: "calculable None sample_input sample_rows [sample_payment 3 600 12]"
  using sample_schedule sample_effective sample_timeline
  by (simp add: calculable_def sample_input_def date_is_zero_def date_after_def date_key_def
      opening_ok_def balances_ok_def empty_opening_def)

section \<open>Properties\<close>

text \<open>
  C4. Whatever the rounding hook, a schedule that \<open>BuildSchedule\<close> returns repays the principal
  exactly: one row per month numbered from 1, due dates strictly increasing, no negative part,
  principal parts that add up to the principal, and a last balance of zero.
\<close>

theorem build_schedule_repays_principal:
  assumes "build_schedule rnd p tenor rate src = Inr rows"
  shows "map sr_number rows = map (\<lambda>i. int i + 1) [0..<nat tenor]
    \<and> sorted_wrt (\<lambda>r s. date_before (sr_due_date r) (sr_due_date s)) rows
    \<and> list_all (\<lambda>r. 0 \<le> sr_principal r \<and> 0 \<le> sr_interest r \<and> 0 \<le> sr_scheduled_balance r
         \<and> sr_installment r = sr_principal r + sr_interest r) rows
    \<and> sum_list (map sr_principal rows) = p
    \<and> rows \<noteq> [] \<and> sr_scheduled_balance (last rows) = 0"
  using build_schedule_sound [OF assms] by (simp add: date_before_def)

theorem build_schedule_repays_principal_witness:
  "sum_list (map sr_principal sample_rows) = 1200 \<and> sr_scheduled_balance (last sample_rows) = 0"
  using build_schedule_repays_principal [OF sample_schedule] by blast

text \<open>
  C6. With the exact arithmetic the program uses (no rounding hook) \<open>BuildSchedule\<close> succeeds on all
  valid terms and installments, and gives every month the same principal and the flat interest
  \<open>principal * rate / 1200\<close>, with a balance that falls linearly.
\<close>

theorem build_schedule_flat:
  assumes "\<not> invalid_terms p tenor rate" and "valid_installments tenor (sort_key ci_number src)"
  shows "\<exists>rows. build_schedule None p tenor rate src = Inr rows \<and> int (length rows) = tenor
    \<and> (\<forall>j < nat tenor. sr_principal (rows ! j) = p / of_int tenor
         \<and> sr_interest (rows ! j) = p * rate / 1200
         \<and> sr_scheduled_balance (rows ! j) = p * of_int (tenor - int j - 1) / of_int tenor)"
  using build_schedule_exact [OF assms] build_schedule_sound(9) by blast

theorem build_schedule_flat_witness:
  "\<exists>rows. build_schedule None 1200 2 12 sample_installments = Inr rows \<and> int (length rows) = 2
     \<and> sr_principal (rows ! 0) = 600 \<and> sr_interest (rows ! 1) = 12"
proof -
  have "\<not> invalid_terms 1200 2 12" by (simp add: invalid_terms_def)
  moreover have "valid_installments 2 (sort_key ci_number sample_installments)"
    by (simp add: valid_installments_def sample_installments_def chronological_def date_key_def
        date_is_zero_def numeral_2_eq_2)
  ultimately show ?thesis using build_schedule_flat [of 1200 2 12 sample_installments] by force
qed

text \<open>
  The schedule does not depend on the order in which the installments arrive nor on the sorting
  algorithm: any arrangement sorted by number gives the same rows or the same error.
\<close>

theorem build_schedule_any_order:
  assumes "mset ys = mset xs"
  shows "build_schedule rnd p tenor rate ys = build_schedule rnd p tenor rate xs
    \<and> (sorted (map ci_number ys) \<and> \<not> invalid_terms p tenor rate \<longrightarrow>
        build_sorted rnd p tenor rate ys = build_schedule rnd p tenor rate xs)"
  using build_sorted_any_sort [of "sort_key ci_number ys" xs] build_sorted_any_sort [of ys xs] assms
  by (simp add: build_schedule_def)

theorem build_schedule_any_order_witness:
  "build_schedule None 1200 2 12 (rev sample_installments) = Inr sample_rows
   \<and> build_sorted None 1200 2 12 (rev sample_installments) = Inr sample_rows"
  using build_schedule_any_order [of "rev sample_installments" sample_installments, where rnd = None and p = 1200 and tenor = 2 and rate = 12] sample_schedule
  by (simp add: invalid_terms_def) (simp add: sample_installments_def)

text \<open>
  C7. The in-place compaction of \<open>effectiveRepayments\<close>, which overwrites the slice it is still
  reading, computes the same as the list recursion without a shared array.
\<close>

theorem effective_repayments_in_place:
  "effective_repayments source cutoff as_of =
     effective_spec (sort_key repayment_key (filter (in_window cutoff as_of) source))"
  by (rule effective_repayments_spec)

text \<open>
  The effective repayments are a date-ordered selection of the repayments in the window, each
  positive, with components that add up to its total and an allocable amount that is not
  negative; and dropping the reversed pairs and the empty entries keeps the net amount paid.
\<close>

theorem effective_repayments_net:
  assumes "effective_repayments source cutoff as_of = Inr es"
  shows "subseq es (sort_key repayment_key (filter (in_window cutoff as_of) source))
    \<and> list_all (\<lambda>p. 0 < rp_total_payment p \<and> repayment_components_equal_total p
        \<and> 0 \<le> repayment_amount p) es
    \<and> sum_list (map repayment_amount es) =
        sum_list (map repayment_amount (filter (in_window cutoff as_of) source))"
proof -
  let ?w = "filter (in_window cutoff as_of) source"
  have "mset (map repayment_amount (sort_key repayment_key ?w)) = mset (map repayment_amount ?w)" by simp
  then have "sum_list (map repayment_amount (sort_key repayment_key ?w)) = sum_list (map repayment_amount ?w)"
    by (metis sum_mset_sum_list)
  then show ?thesis
    using effective_spec_properties [OF assms [unfolded effective_repayments_spec]] by simp
qed

theorem effective_repayments_net_witness:
  "sum_list (map repayment_amount [sample_payment 3 600 12]) =
     sum_list (map repayment_amount (filter (in_window (mk_date 2025 10 12) (mk_date 2025 12 31))
       (in_repayments sample_input)))"
  using effective_repayments_net [OF sample_effective] by blast

text \<open>
  C1. \<open>Calculate\<close> is a fold over the due dates and payments in date order. After the cutoff it
  returns a result exactly when its input checks succeed (the ending-state check of \<open>finish\<close> never
  fails), and the balances are those reached from the opening balances by taking every due date
  of the window and every effective payment in date order, a due date before a payment of its day.
\<close>

theorem calculate_event_fold:
  assumes "date_after (in_as_of inp) (in_cutoff inp)"
  shows "((\<exists>r. calculate rnd inp = Inr r) \<longleftrightarrow> (\<exists>schedule ps. calculable rnd inp schedule ps))
    \<and> (\<forall>schedule ps r. calculable rnd inp schedule ps \<and> calculate rnd inp = Inr r \<longrightarrow>
        (let due = due_rows schedule (in_cutoff inp) (in_as_of inp);
             st = fold (event_step (coll_of inp)) (calc_events due ps) (opening_calculation (in_opening inp))
         in cr_principal_outstanding r = st_principal st \<and> cr_principal_due r = st_principal_due st
            \<and> cr_interest_due r = st_interest_due st \<and> cr_unapplied_amount r = st_unapplied st
            \<and> cr_collectability_bi r = coll_of inp (in_as_of inp) \<and> cr_contractual_schedule r = schedule
            \<and> tr_periods_accrued (cr_trace r) = int (length due)
            \<and> tr_repayments_applied (cr_trace r) = int (length (filter (\<lambda>p. repayment_amount p \<noteq> 0) ps))))"
proof (intro conjI allI impI)
  have "\<not> date_equal (in_as_of inp) (in_cutoff inp)"
    using assms by (simp add: date_after_def date_equal_def)
  then show "(\<exists>r. calculate rnd inp = Inr r) \<longleftrightarrow> (\<exists>schedule ps. calculable rnd inp schedule ps)"
    using calculate_total calculate_calculable by metis
qed (use calculate_total in \<open>fastforce simp: final_state_def Let_def\<close>)

theorem calculate_event_fold_witness:
  "\<exists>r. calculate None sample_input = Inr r \<and> cr_principal_due r = 588 \<and> cr_interest_due r = 24
     \<and> cr_principal_outstanding r = 588 \<and> tr_periods_accrued (cr_trace r) = 2"
proof -
  have after: "date_after (in_as_of sample_input) (in_cutoff sample_input)" by code_simp
  then obtain r where r: "calculate None sample_input = Inr r"
    using calculate_event_fold [OF after] sample_calculable by blast
  have "fold (event_step (coll_of sample_input))
      (calc_events (due_rows sample_rows (in_cutoff sample_input) (in_as_of sample_input)) [sample_payment 3 600 12])
      (opening_calculation (in_opening sample_input)) =
    \<lparr>st_principal = 588, st_principal_due = 588, st_interest_due = 24, st_unapplied = 0\<rparr>"
    by code_simp
  moreover have "length (due_rows sample_rows (in_cutoff sample_input) (in_as_of sample_input)) = 2"
    by code_simp
  ultimately show ?thesis
    using calculate_event_fold [OF after, of None] sample_calculable r by (fastforce simp: Let_def)
qed

text \<open>
  C2. Money is conserved by \<open>Calculate\<close>: what is still owed (principal and interest, less the
  unapplied surplus) is what was owed at the cutoff, plus the interest of the due dates that fell
  while principal was outstanding, minus the net amount of all repayments in the window.
\<close>

theorem calculate_conserves_money:
  assumes "calculable rnd inp schedule ps" and "calculate rnd inp = Inr r"
  shows "cr_principal_outstanding r + cr_interest_due r - cr_unapplied_amount r =
    op_principal_outstanding (in_opening inp) + op_interest_due (in_opening inp)
    + accrued_interest (coll_of inp) (calc_events (due_rows schedule (in_cutoff inp) (in_as_of inp)) ps)
        (opening_calculation (in_opening inp))
    - sum_list (map repayment_amount (filter (in_window (in_cutoff inp) (in_as_of inp)) (in_repayments inp)))"
proof -
  have "opening_ok (in_opening inp)" using assms(1) by (simp add: calculable_def)
  note fold = events_fold [OF calculable_events_ok(1) [OF assms(1)] opening_calculation_ok(2) [OF this]]
  have "net_owed (final_state inp schedule ps) =
    op_principal_outstanding (in_opening inp) + op_interest_due (in_opening inp)
    + accrued_interest (coll_of inp) (calc_events (due_rows schedule (in_cutoff inp) (in_as_of inp)) ps)
        (opening_calculation (in_opening inp))
    - sum_list (map repayment_amount (filter (in_window (in_cutoff inp) (in_as_of inp)) (in_repayments inp)))"
    using fold [of "coll_of inp"] calculable_events_ok(2) [OF assms(1)]
    by (simp add: final_state_def calc_events_paid) (simp add: net_owed_def opening_calculation_def)
  then show ?thesis
    using calculate_total [OF assms(1)] assms(2) by (auto simp: net_owed_def)
qed

theorem calculate_conserves_money_witness:
  "\<exists>r. calculate None sample_input = Inr r
     \<and> cr_principal_outstanding r + cr_interest_due r - cr_unapplied_amount r = 1200 + 0 + 24 - 612"
proof -
  obtain r where r: "calculate None sample_input = Inr r"
    using calculate_total [OF sample_calculable] by blast
  have "accrued_interest (coll_of sample_input)
      (calc_events (due_rows sample_rows (in_cutoff sample_input) (in_as_of sample_input)) [sample_payment 3 600 12])
      (opening_calculation (in_opening sample_input)) = 24" by code_simp
  moreover have "sum_list (map repayment_amount (filter (in_window (in_cutoff sample_input) (in_as_of sample_input))
      (in_repayments sample_input))) = 612" by code_simp
  moreover have "op_principal_outstanding (in_opening sample_input) = 1200"
    "op_interest_due (in_opening sample_input) = 0" by code_simp+
  ultimately show ?thesis
    using calculate_conserves_money [OF sample_calculable r] r by simp
qed

text \<open>
  C13. Every result of \<open>Calculate\<close> is well formed: no negative amount, no more principal due than
  outstanding, and a collectability between 1 and 5.
\<close>

theorem calculate_well_formed:
  assumes "calculate rnd inp = Inr r"
  shows "balances_ok (cr_principal_outstanding r) (cr_principal_due r) (cr_interest_due r)
    \<and> 0 \<le> cr_unapplied_amount r \<and> 1 \<le> cr_collectability_bi r \<and> cr_collectability_bi r \<le> 5"
  using assms by (rule calculate_result_ok)

theorem calculate_well_formed_witness:
  "\<exists>r. calculate None sample_input = Inr r
     \<and> balances_ok (cr_principal_outstanding r) (cr_principal_due r) (cr_interest_due r)"
proof -
  obtain r where "calculate None sample_input = Inr r"
    using calculate_total [OF sample_calculable] by blast
  then show ?thesis using calculate_well_formed by blast
qed

text \<open>
  A payment is used up in the regulatory order: for collectability 1 and 2 interest first, then
  principal; from 3 on principal first; in both cases the principal due falls with the principal
  paid, and a surplus appears only when principal and interest are both fully paid.
\<close>

theorem allocate_order:
  fixes k :: int
  assumes "state_ok st" and "0 \<le> a"
  shows "let st' = allocate a k st in
      (k \<le> 2 \<longrightarrow> st_interest_due st' = max 0 (st_interest_due st - a)
        \<and> st_principal st' = max 0 (st_principal st - max 0 (a - st_interest_due st)))
    \<and> (2 < k \<longrightarrow> st_principal st' = max 0 (st_principal st - a)
        \<and> st_interest_due st' = max 0 (st_interest_due st - max 0 (a - st_principal st)))
    \<and> st_principal_due st' = max 0 (st_principal_due st - (st_principal st - st_principal st'))
    \<and> (st_unapplied st < st_unapplied st' \<longrightarrow> st_principal st' = 0 \<and> st_interest_due st' = 0)"
proof (cases "k \<le> 2")
  case True
  then show ?thesis
    using assms unfolding allocate_performing [OF assms True]
    by (auto simp: Let_def min_def max_def state_ok_def balances_ok_def split: if_splits)
next
  case False
  then have "2 < k" by simp
  then show ?thesis
    using assms unfolding allocate_nonperforming [OF assms \<open>2 < k\<close>]
    by (auto simp: Let_def min_def max_def state_ok_def balances_ok_def split: if_splits)
qed

theorem allocate_order_witness:
  "st_interest_due (allocate 100 1 \<lparr>st_principal = 500, st_principal_due = 50, st_interest_due = 30, st_unapplied = 0\<rparr>) = 0
   \<and> st_principal (allocate 100 1 \<lparr>st_principal = 500, st_principal_due = 50, st_interest_due = 30, st_unapplied = 0\<rparr>) = 430
   \<and> st_principal (allocate 100 3 \<lparr>st_principal = 500, st_principal_due = 50, st_interest_due = 30, st_unapplied = 0\<rparr>) = 400
   \<and> st_unapplied (allocate 600 3 \<lparr>st_principal = 500, st_principal_due = 50, st_interest_due = 30, st_unapplied = 0\<rparr>) = 70
   \<and> st_interest_due (allocate 600 3 \<lparr>st_principal = 500, st_principal_due = 50, st_interest_due = 30, st_unapplied = 0\<rparr>) = 0"
proof -
  let ?st = "\<lparr>st_principal = 500, st_principal_due = 50, st_interest_due = 30, st_unapplied = 0\<rparr>"
  have ok: "state_ok ?st" by (simp add: state_ok_def balances_ok_def)
  have "st_unapplied (allocate 600 3 ?st) = 70" by code_simp
  then show ?thesis
    using allocate_order [OF ok, of 100 1] allocate_order [OF ok, of 100 3] allocate_order [OF ok, of 600 3]
    by (simp add: Let_def)
qed

end
