(* ===== verification/Evidence.thy ===== *)
theory Evidence
  imports Loan_Model
begin

text \<open>
  The repositories that read a loan's position from stored evidence: the data warehouse
  (\<open>src/internal/dwh/repository.go\<close>), the retired core system MSO (\<open>src/internal/mso/repository.go\<close>)
  and the current-day snapshot table (\<open>ExactPosition\<close> of \<open>src/internal/snapshot/repository.go\<close>).

  The database itself is a parameter: a query is a function of its arguments to the row it scans,
  to no row (\<open>sql.ErrNoRows\<close>) or to a failure. A \<open>time.Time\<close> column is read as its civil date in the
  repository's location. The locale \<open>evidence_source\<close> states what the position service relies on,
  and it is interpreted on all three repositories.
\<close>

section \<open>Queries\<close>

datatype 'a query = Row 'a | NoRows | Failed err

text \<open>\<open>errors.Join(sentinel, err)\<close> for a driver error, with the sentinels for no row.\<close>

fun scan_row :: "sentinel list \<Rightarrow> sentinel \<Rightarrow> 'a query \<Rightarrow> 'a res" where
  "scan_row missing unavailable (Row r) = Inr r"
| "scan_row missing unavailable NoRows = Inl missing"
| "scan_row missing unavailable (Failed e) = Inl (unavailable # e)"

section \<open>The data warehouse\<close>

record dwh_position_row =
  dw_as_of :: date
  dw_account_number :: string
  dw_period_start :: "string option"
  dw_principal_outstanding :: money
  dw_collectability_bi :: int
  dw_principal_due :: money
  dw_interest_due :: money
  dw_penalty_due :: money

record dwh_collectability_row =
  dc_date :: date
  dc_value :: int

definition validate_balances :: "money \<Rightarrow> money \<Rightarrow> money \<Rightarrow> money \<Rightarrow> int \<Rightarrow> unit res" where
  "validate_balances outstanding due interest penalty collectability =
     (if is_negative outstanding \<or> is_negative due \<or> is_negative interest \<or> is_negative penalty
         \<or> due > outstanding \<or> collectability < 1 \<or> collectability > 5
      then Inl [ErrHistoricalEvidence] else Inr ())"

text \<open>\<open>time.Time.Format\<close> with the layout \<open>02/01/2006\<close>, for the years 0 to 9999.\<close>

definition time_format_slashed :: "date \<Rightarrow> string" where
  "time_format_slashed d =
     pad_zero 2 (itoa (day d)) @ ''/'' @ pad_zero 2 (itoa (month d)) @ ''/'' @ pad_zero 4 (itoa (year d))"

definition dwh_exact_position ::
  "(string \<Rightarrow> string \<Rightarrow> dwh_position_row query) \<Rightarrow> string \<Rightarrow> date \<Rightarrow> loan_position res" where
  "dwh_exact_position db account as_of =
     rbind (scan_row [ErrNotFound, ErrHistoricalEvidence] ErrDWHUnavailable
              (db (trim_space account) (date_string as_of))) (\<lambda>row.
     rbind (validate_balances (dw_principal_outstanding row) (dw_principal_due row)
              (dw_interest_due row) (dw_penalty_due row) (dw_collectability_bi row)) (\<lambda>_.
       case dw_period_start row of None \<Rightarrow> Inl [ErrHistoricalEvidence]
       | Some raw \<Rightarrow>
           let period_start = trim_space raw in
           (case time_parse_slashed period_start of None \<Rightarrow> Inl [ErrHistoricalEvidence]
            | Some parsed_start \<Rightarrow>
                if time_format_slashed parsed_start \<noteq> period_start then Inl [ErrHistoricalEvidence]
                else Inr (empty_position
                  \<lparr>lp_as_of := dw_as_of row, lp_loan_start_date := parsed_start,
                   lp_account_number := trim_space (dw_account_number row),
                   lp_principal_outstanding := dw_principal_outstanding row,
                   lp_principal_due := dw_principal_due row, lp_interest_due := dw_interest_due row,
                   lp_penalty_due := dw_penalty_due row,
                   lp_collectability_bi := dw_collectability_bi row, lp_source := Some SourceDWH\<rparr>))))"

text \<open>The loop of \<open>CollectabilityTimeline\<close>; \<open>points\<close> grows at its end.\<close>

fun timeline_points ::
  "collectability_point list \<Rightarrow> dwh_collectability_row list \<Rightarrow> collectability_point list res"
where
  "timeline_points points [] = Inr points"
| "timeline_points points (row # rows) =
     (if dc_value row < 1 \<or> dc_value row > 5 then Inl [ErrHistoricalEvidence]
      else if points \<noteq> [] \<and> date_equal (cp_date (last points)) (dc_date row) then
        (if cp_value (last points) \<noteq> dc_value row then Inl [ErrHistoricalEvidence]
         else timeline_points points rows)
      else timeline_points (points @ [\<lparr>cp_date = dc_date row, cp_value = dc_value row\<rparr>]) rows)"

definition dwh_collectability_timeline ::
  "(string \<Rightarrow> string \<Rightarrow> string \<Rightarrow> err + dwh_collectability_row list)
   \<Rightarrow> string \<Rightarrow> date \<Rightarrow> date \<Rightarrow> collectability_point list res" where
  "dwh_collectability_timeline db account from_date to_date =
     (if date_before to_date from_date then Inr []
      else case db (trim_space account) (date_string from_date) (date_string to_date) of
             Inl e \<Rightarrow> Inl (ErrDWHUnavailable # e)
           | Inr rows \<Rightarrow> timeline_points [] rows)"

section \<open>MSO\<close>

record mso_state_row =
  ms_principal_outstanding :: money
  ms_principal_due :: money
  ms_interest_due :: money
  ms_penalty_due :: money
  ms_collectability_bi :: int
  ms_collectability_code :: string

text \<open>\<open>strings.ToUpper\<close> beyond ASCII is the argument \<open>uni\<close>.\<close>

definition parse_collectability_bi :: "(string \<Rightarrow> string) \<Rightarrow> string \<Rightarrow> int res" where
  "parse_collectability_bi uni v =
     (let code = to_upper uni (trim_space v) in
      if code = ''1'' \<or> code = ''L'' then Inr 1
      else if code = ''2'' \<or> code = ''DPK'' \<or> code = ''DP'' then Inr 2
      else if code = ''3'' \<or> code = ''KL'' then Inr 3
      else if code = ''4'' \<or> code = ''D'' then Inr 4
      else if code = ''5'' \<or> code = ''M'' then Inr 5
      else Inl [ErrHistoricalEvidence])"

definition mso_state ::
  "(string \<Rightarrow> string) \<Rightarrow> (string \<Rightarrow> string \<Rightarrow> mso_state_row query) \<Rightarrow> string \<Rightarrow> date \<Rightarrow> mso_state_row res" where
  "mso_state uni db account as_of =
     rbind (scan_row [ErrNotFound, ErrHistoricalEvidence] ErrMSOUnavailable
              (db (trim_space account) (date_string as_of))) (\<lambda>row.
     rbind (parse_collectability_bi uni (ms_collectability_code row)) (\<lambda>collectability.
       let row' = row\<lparr>ms_collectability_bi := collectability\<rparr> in
       if is_negative (ms_principal_outstanding row') \<or> is_negative (ms_principal_due row')
          \<or> is_negative (ms_interest_due row') \<or> is_negative (ms_penalty_due row')
          \<or> ms_principal_due row' > ms_principal_outstanding row'
          \<or> ms_collectability_bi row' < 1 \<or> ms_collectability_bi row' > 5
       then Inl [ErrHistoricalEvidence] else Inr row'))"

definition mso_historical_position ::
  "(string \<Rightarrow> string) \<Rightarrow> (string \<Rightarrow> string \<Rightarrow> mso_state_row query) \<Rightarrow> string \<Rightarrow> date \<Rightarrow> loan_position res" where
  "mso_historical_position uni db account as_of =
     rbind (mso_state uni db account as_of) (\<lambda>row.
       Inr (empty_position
         \<lparr>lp_as_of := as_of, lp_account_number := trim_space account,
          lp_principal_outstanding := ms_principal_outstanding row,
          lp_principal_due := ms_principal_due row, lp_interest_due := ms_interest_due row,
          lp_penalty_due := ms_penalty_due row, lp_collectability_bi := ms_collectability_bi row,
          lp_source := Some SourceMSO\<rparr>))"

definition mso_opening_state ::
  "(string \<Rightarrow> string) \<Rightarrow> (string \<Rightarrow> string \<Rightarrow> mso_state_row query) \<Rightarrow> (string \<Rightarrow> string query)
   \<Rightarrow> string \<Rightarrow> date \<Rightarrow> opening_loan_state res" where
  "mso_opening_state uni db master account cutoff =
     rbind (mso_state uni db account cutoff) (\<lambda>row.
     rbind (scan_row [ErrNotFound, ErrHistoricalEvidence] ErrMSOUnavailable (master (trim_space account)))
       (\<lambda>interest_type.
         Inr \<lparr>op_account_number = trim_space account, op_interest_type = trim_space interest_type,
              op_principal_outstanding = ms_principal_outstanding row,
              op_principal_due = ms_principal_due row, op_interest_due = ms_interest_due row,
              op_penalty_due = ms_penalty_due row, op_collectability_bi = ms_collectability_bi row\<rparr>))"

definition debtor_type_by_alternate_cif :: "(string \<Rightarrow> string query) \<Rightarrow> string \<Rightarrow> string res" where
  "debtor_type_by_alternate_cif db cif = scan_row [ErrNotFound] ErrMSOUnavailable (db cif)"

section \<open>The current-day snapshot\<close>

record snapshot_row =
  sn_account_number :: string
  sn_as_of :: date
  sn_loan_start_date :: "date option"
  sn_principal_outstanding :: money
  sn_collectability_bi :: int
  sn_principal_due :: money
  sn_interest_due :: money
  sn_penalty_due :: money
  sn_branch :: "string option"
  sn_product :: "string option"
  sn_cif :: "string option"
  sn_contract_number :: "string option"
  sn_source_updated_at :: "int option"

text \<open>The \<open>String\<close> field of a \<open>sql.NullString\<close>: empty when the column is NULL.\<close>

definition null_string :: "string option \<Rightarrow> string" where
  "null_string s = (case s of None \<Rightarrow> '''' | Some v \<Rightarrow> v)"

text \<open>\<open>time.Time.Format\<close> with \<open>DateLayout\<close> for the years 0 to 9999; the zero instant is 1 January of year 1.\<close>

definition time_format_dashed :: "date \<Rightarrow> string" where
  "time_format_dashed d =
     pad_zero 4 (itoa (year d)) @ ''-'' @ pad_zero 2 (itoa (month d)) @ ''-'' @ pad_zero 2 (itoa (day d))"

definition snapshot_exact_position ::
  "location \<Rightarrow> (string \<Rightarrow> string \<Rightarrow> snapshot_row query) \<Rightarrow> string \<Rightarrow> date \<Rightarrow> loan_position res" where
  "snapshot_exact_position loc db account as_of =
     rbind (scan_row [ErrNotFound, ErrCurrentSnapshot] ErrCurrentSnapshot
              (db (trim_space account) (date_string as_of))) (\<lambda>row.
       if sn_collectability_bi row < 1 \<or> sn_collectability_bi row > 5
          \<or> is_negative (sn_principal_outstanding row) \<or> is_negative (sn_principal_due row)
          \<or> is_negative (sn_interest_due row) \<or> is_negative (sn_penalty_due row)
          \<or> sn_principal_due row > sn_principal_outstanding row
       then Inl [ErrCurrentSnapshot]
       else case sn_loan_start_date row of None \<Rightarrow> Inl [ErrCurrentSnapshot, ErrHistoricalEvidence]
       | Some start \<Rightarrow>
           if start = mk_date 1 1 1 then Inl [ErrCurrentSnapshot, ErrHistoricalEvidence]
           else
             (case parse_date (time_format_dashed start) loc of
                Inl _ \<Rightarrow> Inl [ErrCurrentSnapshot, ErrHistoricalEvidence]
              | Inr loan_start \<Rightarrow>
                  if date_after loan_start as_of then Inl [ErrCurrentSnapshot, ErrHistoricalEvidence]
                  else Inr (empty_position
                    \<lparr>lp_as_of := sn_as_of row, lp_loan_start_date := loan_start,
                     lp_account_number := sn_account_number row,
                     lp_principal_outstanding := sn_principal_outstanding row,
                     lp_principal_due := sn_principal_due row, lp_interest_due := sn_interest_due row,
                     lp_penalty_due := sn_penalty_due row,
                     lp_collectability_bi := sn_collectability_bi row,
                     lp_source := Some SourceTodaySnapshot, lp_branch := null_string (sn_branch row),
                     lp_product := null_string (sn_product row), lp_cif := null_string (sn_cif row),
                     lp_contract_number := null_string (sn_contract_number row),
                     lp_source_updated_at := sn_source_updated_at row\<rparr>)))"

section \<open>The contract of an evidence source\<close>

text \<open>
  A source answers with a well-formed position of its own kind and with no unapplied amount, or
  with an error that wraps one of the sentinels it promises.
\<close>

locale evidence_source =
  fixes exact :: "string \<Rightarrow> date \<Rightarrow> loan_position res"
    and kind :: position_source
    and classes :: "sentinel set"
  assumes answer_ok: "exact account as_of = Inr p \<Longrightarrow>
      position_ok p \<and> lp_source p = Some kind \<and> lp_unapplied_amount p = 0"
    and error_classified: "exact account as_of = Inl e \<Longrightarrow> \<exists>s \<in> classes. errors_is e s"
begin

text \<open>Every query is settled one way or the other, and never with an unclassified error.\<close>

lemma settled:
  "(\<exists>p. exact account as_of = Inr p \<and> position_ok p \<and> lp_source p = Some kind)
   \<or> (\<exists>e s. exact account as_of = Inl e \<and> s \<in> classes \<and> errors_is e s)"
  using answer_ok [of account as_of] error_classified [of account as_of]
  by (cases "exact account as_of") auto

lemma balances:
  "exact account as_of = Inr p \<Longrightarrow>
     0 \<le> lp_principal_due p \<and> lp_principal_due p \<le> lp_principal_outstanding p"
  using answer_ok [of account as_of p] by (simp add: position_ok_def balances_ok_def)

end

lemmas position_simps = position_ok_def balances_ok_def empty_position_def errors_is_def

lemma scan_row_Inr [res_simps]: "scan_row ms u q = Inr r \<longleftrightarrow> q = Row r"
  by (cases q) auto

lemma scan_row_Inl [res_simps]:
  "scan_row ms u q = Inl e \<longleftrightarrow> q = NoRows \<and> e = ms \<or> (\<exists>f. q = Failed f \<and> e = u # f)"
  by (cases q) auto

interpretation dwh: evidence_source "dwh_exact_position db" SourceDWH "{ErrHistoricalEvidence, ErrDWHUnavailable}"
  for db
proof
  show "position_ok p \<and> lp_source p = Some SourceDWH \<and> lp_unapplied_amount p = 0"
    if "dwh_exact_position db account as_of = Inr p" for account as_of p
    using that
    by (cases "db (trim_space account) (date_string as_of)")
      (auto simp: dwh_exact_position_def validate_balances_def position_simps Let_def
        split: option.split_asm if_split_asm)
  show "\<exists>s \<in> {ErrHistoricalEvidence, ErrDWHUnavailable}. errors_is e s"
    if "dwh_exact_position db account as_of = Inl e" for account as_of e
    using that
    by (cases "db (trim_space account) (date_string as_of)")
      (auto simp: dwh_exact_position_def validate_balances_def errors_is_def Let_def
        split: option.split_asm if_split_asm)
qed

lemma parse_collectability_range: "parse_collectability_bi uni v = Inr k \<Longrightarrow> 1 \<le> k \<and> k \<le> 5"
  by (auto simp: parse_collectability_bi_def Let_def split: if_splits)

lemma mso_state_ok:
  "mso_state uni db account as_of = Inr row \<Longrightarrow>
     balances_ok (ms_principal_outstanding row) (ms_principal_due row) (ms_interest_due row)
     \<and> 0 \<le> ms_penalty_due row \<and> 1 \<le> ms_collectability_bi row \<and> ms_collectability_bi row \<le> 5"
  by (auto simp: mso_state_def res_simps Let_def balances_ok_def split: if_splits)

lemma mso_state_error:
  "mso_state uni db account as_of = Inl e \<Longrightarrow> errors_is e ErrHistoricalEvidence \<or> errors_is e ErrMSOUnavailable"
  by (auto simp: mso_state_def parse_collectability_bi_def res_simps Let_def errors_is_def split: if_splits)

interpretation mso: evidence_source "mso_historical_position uni db" SourceMSO "{ErrHistoricalEvidence, ErrMSOUnavailable}"
  for uni db
proof
  show "position_ok p \<and> lp_source p = Some SourceMSO \<and> lp_unapplied_amount p = 0"
    if "mso_historical_position uni db account as_of = Inr p" for account as_of p
    using that mso_state_ok [of uni db account as_of]
    by (auto simp: mso_historical_position_def res_simps position_simps)
  show "\<exists>s \<in> {ErrHistoricalEvidence, ErrMSOUnavailable}. errors_is e s"
    if "mso_historical_position uni db account as_of = Inl e" for account as_of e
    using that mso_state_error [of uni db account as_of]
    by (auto simp: mso_historical_position_def res_simps)
qed

interpretation snap: evidence_source "snapshot_exact_position loc db" SourceTodaySnapshot "{ErrCurrentSnapshot}"
  for loc db
proof
  show "position_ok p \<and> lp_source p = Some SourceTodaySnapshot \<and> lp_unapplied_amount p = 0"
    if "snapshot_exact_position loc db account as_of = Inr p" for account as_of p
    using that
    by (clarsimp simp: snapshot_exact_position_def res_simps)
      (auto simp: position_simps split: option.split_asm if_split_asm sum.split_asm)
  show "\<exists>s \<in> {ErrCurrentSnapshot}. errors_is e s"
    if "snapshot_exact_position loc db account as_of = Inl e" for account as_of e
    using that
    by (cases "db (trim_space account) (date_string as_of)")
      (auto simp: snapshot_exact_position_def errors_is_def
        split: option.split_asm if_split_asm sum.split_asm)
qed

lemma mso_opening_ok:
  assumes "mso_opening_state uni db master account cutoff = Inr op"
  shows "opening_ok op" and "0 \<le> op_penalty_due op"
  using assms mso_state_ok [of uni db account cutoff]
  by (auto simp: mso_opening_state_def res_simps opening_ok_def)

lemma mso_opening_error:
  "mso_opening_state uni db master account cutoff = Inl e \<Longrightarrow>
     errors_is e ErrHistoricalEvidence \<or> errors_is e ErrMSOUnavailable"
  using mso_state_error [of uni db account cutoff]
  by (auto simp: mso_opening_state_def res_simps errors_is_def)

text \<open>
  The timeline of rows in date order has strictly increasing dates and valid values, so that it
  passes the calculator's own check.
\<close>

abbreviation point_key :: "collectability_point \<Rightarrow> int" where
  "point_key p \<equiv> date_key (cp_date p)"

lemma timeline_points_ok:
  "timeline_points points rows = Inr ps \<Longrightarrow> sorted (map (\<lambda>r. date_key (dc_date r)) rows) \<Longrightarrow>
   sorted_wrt (<) (map point_key points) \<Longrightarrow> list_all (\<lambda>p. 1 \<le> cp_value p \<and> cp_value p \<le> 5) points \<Longrightarrow>
   (points \<noteq> [] \<Longrightarrow> list_all (\<lambda>r. point_key (last points) \<le> date_key (dc_date r)) rows) \<Longrightarrow>
   sorted_wrt (<) (map point_key ps) \<and> list_all (\<lambda>p. 1 \<le> cp_value p \<and> cp_value p \<le> 5) ps"
proof (induction points rows rule: timeline_points.induct)
  case (2 points row rows)
  show ?case
  proof (cases "points \<noteq> [] \<and> date_equal (cp_date (last points)) (dc_date row)")
    case True
    then show ?thesis using "2.prems" "2.IH"(1) by (auto split: if_split_asm)
  next
    case False
    let ?points = "points @ [\<lparr>cp_date = dc_date row, cp_value = dc_value row\<rparr>]"
    have rec: "timeline_points ?points rows = Inr ps" and v: "1 \<le> dc_value row" "dc_value row \<le> 5"
      using False "2.prems"(1) by (auto split: if_split_asm)
    have lt: "point_key q < date_key (dc_date row)" if q: "q \<in> set points" for q
    proof -
      have ne: "points \<noteq> []" using q by auto
      have "point_key q \<le> point_key (last points)"
        using "2.prems"(3) q by (cases points rule: rev_cases) (auto simp: sorted_wrt_append)
      moreover have "point_key (last points) < date_key (dc_date row)"
        using "2.prems"(5) [OF ne] False ne by (auto simp: date_equal_def)
      ultimately show ?thesis by linarith
    qed
    show ?thesis
    proof (rule "2.IH"(2) [OF _ _ rec])
      show "\<not> (dc_value row < 1 \<or> 5 < dc_value row)" using v by simp
      show "\<not> (points \<noteq> [] \<and> date_equal (cp_date (last points)) (dc_date row))" by (rule False)
      show "sorted (map (\<lambda>r. date_key (dc_date r)) rows)" using "2.prems"(2) by simp
      show "sorted_wrt (<) (map point_key ?points)"
        using "2.prems"(3) lt by (simp add: sorted_wrt_append)
      show "list_all (\<lambda>p. 1 \<le> cp_value p \<and> cp_value p \<le> 5) ?points" using "2.prems"(4) v by simp
      show "list_all (\<lambda>r. point_key (last ?points) \<le> date_key (dc_date r)) rows"
        using "2.prems"(2) by (simp add: list_all_iff)
    qed
  qed
qed simp

end
