(* ===== verification/Position.thy ===== *)
theory Position
  imports Contractual Evidence
begin

text \<open>
  The position service of \<open>src/internal/position/service.go\<close>: it resolves a loan at Fincloud and
  routes the inquiry to the evidence that is authoritative for the date (the closing of the loan,
  MSO up to the cutoff, the data warehouse or today's snapshot after it) or to the flat-rate
  reconstruction. The service's dependencies are the fields of a record, the clock is the civil
  date \<open>sv_today\<close>. Logging is not modelled, and a result returned next to an error (which callers
  discard) is just the error.
\<close>

section \<open>The service\<close>

record position_service =
  sv_resolve_loan :: "string \<Rightarrow> location \<Rightarrow> contract_data res"
  sv_mso_historical :: "string \<Rightarrow> date \<Rightarrow> loan_position res"
  sv_mso_opening :: "string \<Rightarrow> date \<Rightarrow> opening_loan_state res"
  sv_dwh_exact :: "string \<Rightarrow> date \<Rightarrow> loan_position res"
  sv_dwh_timeline :: "string \<Rightarrow> date \<Rightarrow> date \<Rightarrow> collectability_point list res"
  sv_snapshot_exact :: "string \<Rightarrow> date \<Rightarrow> loan_position res"
  sv_calculate :: "calculation_input \<Rightarrow> calculation_result res"
  sv_build_schedule :: "money \<Rightarrow> int \<Rightarrow> money \<Rightarrow> contractual_installment list \<Rightarrow> contractual_schedule_row list res"
  sv_location :: location
  sv_cutoff :: date
  sv_today :: date

text \<open>The constants of the package, and the cutoff that \<open>NewService\<close> parses.\<close>

definition flat_interest_type :: string where
  "flat_interest_type = ''10''"

definition service_cutoff :: "location \<Rightarrow> date res" where
  "service_cutoff loc = parse_date ''2025-10-12'' loc"

definition format_fincloud_alt_no_to_mso :: "string \<Rightarrow> string" where
  "format_fincloud_alt_no_to_mso raw =
     (let account = trim_space raw in
      if length account \<noteq> 10 then account
      else take 2 account @ ''.'' @ take 3 (drop 2 account) @ ''.'' @ drop 5 account)"

definition exact_position :: "position_service \<Rightarrow> string \<Rightarrow> date \<Rightarrow> loan_position res" where
  "exact_position svc account as_of =
     (if date_equal as_of (sv_today svc) then sv_snapshot_exact svc account as_of
      else sv_dwh_exact svc account as_of)"

definition opening_position :: "opening_loan_state \<Rightarrow> date \<Rightarrow> loan_position" where
  "opening_position op as_of =
     empty_position\<lparr>lp_as_of := as_of, lp_account_number := op_account_number op,
       lp_principal_outstanding := op_principal_outstanding op, lp_principal_due := op_principal_due op,
       lp_interest_due := op_interest_due op, lp_penalty_due := op_penalty_due op,
       lp_collectability_bi := op_collectability_bi op, lp_source := Some SourceMSO\<rparr>"

fun valid_schedule_from :: "nat \<Rightarrow> date option \<Rightarrow> contractual_installment list \<Rightarrow> bool" where
  "valid_schedule_from index prev [] = True"
| "valid_schedule_from index prev (c # cs) =
     (if ci_number c \<noteq> int index + 1 \<or> date_is_zero (ci_due_date c) then False
      else if (case prev of None \<Rightarrow> False | Some p \<Rightarrow> \<not> date_after (ci_due_date c) p) then False
      else valid_schedule_from (index + 1) (Some (ci_due_date c)) cs)"

definition valid_schedule :: "contract_data \<Rightarrow> bool" where
  "valid_schedule contract =
     (if cd_tenor_months contract \<le> 0
         \<or> int (length (cd_contract_schedule contract)) \<noteq> cd_tenor_months contract then False
      else valid_schedule_from 0 None (cd_contract_schedule contract))"

section \<open>Normalising the contractual schedule\<close>

fun normalize_rows ::
  "int \<Rightarrow> location \<Rightarrow> int set \<Rightarrow> contractual_installment_evidence list \<Rightarrow> contractual_installment list res"
where
  "normalize_rows tenor loc seen [] = Inr []"
| "normalize_rows tenor loc seen (row # rows) =
     (if ie_number row < 0 \<or> ie_number row > tenor then Inl [ErrUnsupportedCalculation]
      else if ie_number row = 0 then normalize_rows tenor loc seen rows
      else if ie_number row \<in> seen then Inl [ErrUnsupportedCalculation]
      else
        let raw0 = trim_space (ie_raw_due_date row);
            raw = (if 10 \<le> length raw0 then take 10 raw0 else raw0)
        in (case parse_date raw loc of
              Inl _ \<Rightarrow> Inl [ErrUnsupportedCalculation]
            | Inr d \<Rightarrow>
                rbind (normalize_rows tenor loc (insert (ie_number row) seen) rows)
                  (\<lambda>cs. Inr (\<lparr>ci_number = ie_number row, ci_due_date = d\<rparr> # cs))))"

fun check_normalized :: "nat \<Rightarrow> date option \<Rightarrow> contractual_installment list \<Rightarrow> unit res" where
  "check_normalized index prev [] = Inr ()"
| "check_normalized index prev (c # cs) =
     (if ci_number c \<noteq> int index + 1 then Inl [ErrUnsupportedCalculation]
      else if (case prev of None \<Rightarrow> False | Some p \<Rightarrow> \<not> date_after (ci_due_date c) p)
      then Inl [ErrUnsupportedCalculation]
      else check_normalized (index + 1) (Some (ci_due_date c)) cs)"

definition normalize_contract_schedule ::
  "contractual_installment_evidence list \<Rightarrow> int \<Rightarrow> location \<Rightarrow> contractual_installment list res" where
  "normalize_contract_schedule source tenor loc =
     rbind (normalize_rows tenor loc {} source) (\<lambda>cs.
       let schedule = sort_key ci_number cs in
       if int (length schedule) \<noteq> tenor then Inl [ErrUnsupportedCalculation]
       else rbind (check_normalized 0 None schedule) (\<lambda>_. Inr schedule))"

definition display_schedule :: "position_service \<Rightarrow> contract_data \<Rightarrow> contractual_schedule_row list" where
  "display_schedule svc contract =
     (case cd_contract_schedule_evidence contract of
        None \<Rightarrow> [] | Some [] \<Rightarrow> []
      | Some evidence \<Rightarrow>
          (case normalize_contract_schedule evidence (cd_tenor_months contract) (sv_location svc) of
             Inl _ \<Rightarrow> []
           | Inr installments \<Rightarrow>
               (case sv_build_schedule svc (cd_plafond_limit contract) (cd_tenor_months contract)
                       (cd_flat_rate_percent contract) installments of
                  Inl _ \<Rightarrow> [] | Inr rows \<Rightarrow> rows)))"

section \<open>Resolving a position\<close>

definition plain_result :: "contract_data \<Rightarrow> loan_position \<Rightarrow> resolved_position" where
  "plain_result contract p =
     \<lparr>res_loan = contract, res_position = p, res_actual_position = p, res_trace = empty_trace,
      res_contractual_schedule = []\<rparr>"

text \<open>The exact position after the cutoff, with its checks; before it there is none.\<close>

definition checked_exact :: "position_service \<Rightarrow> string \<Rightarrow> date \<Rightarrow> loan_position res" where
  "checked_exact svc account as_of =
     (case exact_position svc account as_of of
        Inl e \<Rightarrow> Inl (if date_equal as_of (sv_today svc) \<and> errors_is e ErrNotFound
                      then ErrCurrentSnapshot # e else e)
      | Inr p \<Rightarrow>
          if date_is_zero (lp_loan_start_date p) \<or> date_after (lp_loan_start_date p) as_of
          then Inl [ErrHistoricalEvidence] else Inr p)"

text \<open>The flat-rate reconstruction (the last part of \<open>resolvePosition\<close>).\<close>

definition reconstruct ::
  "position_service \<Rightarrow> contract_data \<Rightarrow> string \<Rightarrow> date \<Rightarrow> loan_position \<Rightarrow> opening_loan_state
   \<Rightarrow> resolved_position res" where
  "reconstruct svc contract0 account as_of exact opening =
     rbind (case cd_contract_schedule_evidence contract0 of
              None \<Rightarrow> Inr contract0
            | Some evidence \<Rightarrow>
                rbind (normalize_contract_schedule evidence (cd_tenor_months contract0) (sv_location svc))
                  (\<lambda>s. Inr (contract0\<lparr>cd_contract_schedule := s\<rparr>))) (\<lambda>contract.
       if \<not> valid_schedule contract then Inl [ErrUnsupportedCalculation]
       else
         let timeline_end = (if date_equal as_of (sv_today svc) then add_days (sv_today svc) (-1) else as_of) in
         rbind (sv_dwh_timeline svc account (add_days (sv_cutoff svc) 1) timeline_end) (\<lambda>timeline0.
         let timeline = (if date_equal as_of (sv_today svc)
               then timeline0 @ [\<lparr>cp_date = sv_today svc, cp_value = lp_collectability_bi exact\<rparr>] else timeline0) in
         rbind (sv_calculate svc
                  \<lparr>in_as_of = as_of, in_cutoff = sv_cutoff svc,
                   in_contractual_principal = cd_plafond_limit contract,
                   in_tenor_months = cd_tenor_months contract,
                   in_flat_rate_percent = cd_flat_rate_percent contract, in_opening = opening,
                   in_contract_schedule = cd_contract_schedule contract,
                   in_repayments = cd_repayments contract,
                   in_collectability_timeline = timeline\<rparr>) (\<lambda>calculation.
         Inr \<lparr>res_loan = contract,
              res_position = empty_position
                \<lparr>lp_as_of := as_of, lp_loan_start_date := lp_loan_start_date exact,
                 lp_account_number := account,
                 lp_principal_outstanding := cr_principal_outstanding calculation,
                 lp_principal_due := cr_principal_due calculation,
                 lp_interest_due := cr_interest_due calculation,
                 lp_collectability_bi := cr_collectability_bi calculation,
                 lp_unapplied_amount := cr_unapplied_amount calculation,
                 lp_source := Some SourceReconstructed\<rparr>,
              res_actual_position = exact, res_trace = cr_trace calculation,
              res_contractual_schedule = cr_contractual_schedule calculation\<rparr>)))"

text \<open>The part that needs the MSO account; \<open>exact\<close> is the zero value up to the cutoff.\<close>

definition resolve_with_mso ::
  "position_service \<Rightarrow> contract_data \<Rightarrow> string \<Rightarrow> date \<Rightarrow> loan_position \<Rightarrow> resolved_position res" where
  "resolve_with_mso svc contract account as_of exact =
     (let alternate = trim_space (cd_alternate_account contract) in
      if alternate = '''' then Inl [ErrHistoricalEvidence]
      else
        let mso_account = format_fincloud_alt_no_to_mso alternate in
        if date_before as_of (sv_cutoff svc) then
          rbind (sv_mso_historical svc mso_account as_of)
            (\<lambda>p. Inr (plain_result contract (p\<lparr>lp_account_number := account\<rparr>)))
        else
          rbind (sv_mso_opening svc mso_account (sv_cutoff svc)) (\<lambda>op0.
            let op = op0\<lparr>op_account_number := account\<rparr> in
            if date_equal as_of (sv_cutoff svc) then Inr (plain_result contract (opening_position op as_of))
            else if op_interest_type op \<noteq> flat_interest_type then Inr (plain_result contract exact)
            else reconstruct svc contract account as_of exact op))"

definition resolve_position :: "position_service \<Rightarrow> string \<Rightarrow> date \<Rightarrow> resolved_position res" where
  "resolve_position svc account0 as_of =
     (let account = trim_space account0 in
      if account = '''' \<or> date_is_zero as_of then Inl [ErrInvalidInput]
      else if date_after as_of (sv_today svc) then Inl [ErrInvalidInput]
      else
        rbind (sv_resolve_loan svc account (sv_location svc)) (\<lambda>contract.
          let primary = trim_space (cd_primary_account contract) in
          if primary = '''' then Inl [ErrInvariant]
          else if \<not> date_is_zero (cd_close_date contract) \<and> \<not> date_after (cd_close_date contract) as_of then
            Inr (plain_result contract
                  (empty_position\<lparr>lp_as_of := as_of, lp_account_number := primary,
                     lp_collectability_bi := cd_current_collectability contract,
                     lp_source := Some SourceClosed\<rparr>))
          else if date_after as_of (sv_cutoff svc) then
            rbind (checked_exact svc primary as_of) (\<lambda>exact.
              if date_after (lp_loan_start_date exact) (sv_cutoff svc)
              then Inr (plain_result contract exact)
              else resolve_with_mso svc contract primary as_of exact)
          else resolve_with_mso svc contract primary as_of empty_position))"

definition get_loan_position :: "position_service \<Rightarrow> string \<Rightarrow> date \<Rightarrow> resolved_position res" where
  "get_loan_position svc account as_of =
     rbind (resolve_position svc account as_of) (\<lambda>resolved.
       Inr (if lp_source (res_position resolved) \<noteq> Some SourceReconstructed
            then resolved\<lparr>res_contractual_schedule := display_schedule svc (res_loan resolved)\<rparr>
            else resolved))"

section \<open>Schedules\<close>

lemma valid_schedule_from_check:
  "valid_schedule_from k prev cs \<longleftrightarrow> check_installments k prev cs = Inr ()"
  by (induction cs arbitrary: k prev) (auto split: option.splits)

lemma valid_schedule_iff:
  "valid_schedule contract \<longleftrightarrow> 0 < cd_tenor_months contract
     \<and> valid_installments (cd_tenor_months contract) (cd_contract_schedule contract)"
  using valid_installments_check [of "cd_tenor_months contract" "cd_contract_schedule contract"]
  by (auto simp: valid_schedule_def valid_schedule_from_check)

lemma valid_installments_sorted:
  "valid_installments tenor cs \<Longrightarrow> sort_key ci_number cs = cs"
proof -
  assume "valid_installments tenor cs"
  then have m: "map ci_number cs = map (\<lambda>i. int i + 1) [0..<nat tenor]"
    by (simp add: valid_installments_def)
  have "sorted (map (\<lambda>i. int i + 1) [0..<n])" for n
    by (induction n) (auto simp: sorted_append)
  with m have "sorted (map ci_number cs)" by metis
  then show ?thesis by (rule sort_key_id_if_sorted)
qed

lemma check_normalized_check:
  "check_normalized k prev cs = Inr () \<Longrightarrow> list_all (\<lambda>c. \<not> date_is_zero (ci_due_date c)) cs
   \<Longrightarrow> check_installments k prev cs = Inr ()"
  by (induction cs arbitrary: k prev) (auto split: if_splits option.splits)

lemma normalize_rows_civil:
  "normalize_rows tenor loc seen rows = Inr cs \<Longrightarrow> list_all (\<lambda>c. civil (ci_due_date c)) cs"
  by (induction rows arbitrary: seen cs)
    (auto simp: Let_def res_simps split: if_splits sum.splits dest: parse_date_civil)

lemma normalize_contract_schedule_ok:
  assumes "normalize_contract_schedule source tenor loc = Inr cs" and "0 < tenor"
    and "list_all (\<lambda>c. \<not> date_is_zero (ci_due_date c)) cs"
  shows "valid_installments tenor cs"
  using assms check_normalized_check [of 0 None cs]
  by (auto simp: normalize_contract_schedule_def Let_def res_simps valid_installments_check split: if_splits)

lemma normalize_error:
  "normalize_contract_schedule source tenor loc = Inl e \<Longrightarrow> e = [ErrUnsupportedCalculation]"
proof -
  have rows: "normalize_rows tenor loc seen source = Inl e \<Longrightarrow> e = [ErrUnsupportedCalculation]" for seen
    by (induction source arbitrary: seen)
      (auto simp: Let_def res_simps split: if_splits sum.splits)
  have chk: "check_normalized k prev cs = Inl e \<Longrightarrow> e = [ErrUnsupportedCalculation]" for k prev cs
    by (induction cs arbitrary: k prev) (auto split: if_splits)
  show "normalize_contract_schedule source tenor loc = Inl e \<Longrightarrow> e = [ErrUnsupportedCalculation]"
    using rows chk by (auto simp: normalize_contract_schedule_def Let_def res_simps split: if_splits)
qed

section \<open>Calculator errors\<close>

definition calculation_errors :: "sentinel set" where
  "calculation_errors = {ErrInvalidInput, ErrInvariant, ErrUnsupportedCalculation, ErrHistoricalEvidence}"

definition classified :: "sentinel set \<Rightarrow> err \<Rightarrow> bool" where
  "classified S e \<longleftrightarrow> (\<exists>s \<in> S. errors_is e s)"

lemma classified_mono: "classified S e \<Longrightarrow> S \<subseteq> T \<Longrightarrow> classified T e"
  by (auto simp: classified_def)

lemma schedule_rows_error: "schedule_rows tenor per i k bal cs = Inl e \<Longrightarrow> e = [ErrInvariant]"
  by (induction cs arbitrary: k bal) (auto simp: Let_def res_simps split: if_splits)

lemma build_schedule_error:
  "build_schedule rnd p tenor rate src = Inl e \<Longrightarrow> classified calculation_errors e"
  by (auto simp: build_schedule_def build_sorted_def div_int_def Let_def res_simps classified_def
      calculation_errors_def errors_is_def dest!: schedule_rows_error check_installments_error split: if_splits)

lemma effective_spec_error: "effective_spec ps = Inl e \<Longrightarrow> classified calculation_errors e"
  by (induction ps rule: effective_spec.induct)
    (auto simp: res_simps classified_def calculation_errors_def errors_is_def split: if_splits)

lemma validate_timeline_error: "validate_timeline ps = Inl e \<Longrightarrow> e = [ErrHistoricalEvidence]"
proof -
  have "validate_timeline_from prev ps = Inl e \<Longrightarrow> e = [ErrHistoricalEvidence]" for prev
    by (induction ps arbitrary: prev) (auto split: if_splits)
  then show "validate_timeline ps = Inl e \<Longrightarrow> e = [ErrHistoricalEvidence]"
    by (simp add: validate_timeline_def)
qed

lemma calculate_error:
  assumes "calculate rnd inp = Inl e"
  shows "classified calculation_errors e"
proof (rule ccontr)
  assume bad: "\<not> classified calculation_errors e"
  have single: "classified calculation_errors [s]" if "s \<in> calculation_errors" for s
    using that by (auto simp: classified_def errors_is_def calculation_errors_def)
  have ok: "ErrInvalidInput \<in> calculation_errors" "ErrInvariant \<in> calculation_errors"
    "ErrHistoricalEvidence \<in> calculation_errors" by (auto simp: calculation_errors_def)
  have v: "validate_opening op = Inl e' \<Longrightarrow> e' = [ErrInvariant]" for op e'
    by (auto simp: validate_opening_def split: if_splits)
  have f: "finish res st = Inl e' \<Longrightarrow> e' = [ErrInvariant]" for res st e'
    by (auto simp: finish_def split: if_splits)
  have c: "collectability_at op tml d = Inl e' \<Longrightarrow> e' = [ErrHistoricalEvidence]" for op tml d e'
    by (auto simp: collectability_at_def Let_def split: if_splits)
  have a: "apply_repayments sch op tml ps run = Inl e' \<Longrightarrow> e' = [ErrHistoricalEvidence]" for sch op tml ps run e'
    by (induction ps arbitrary: run) (auto simp: Let_def res_simps split: if_splits dest: c)
  show False
    using assms bad single ok
    by (auto simp: calculate_def Let_def res_simps effective_repayments_spec split: if_splits
        dest!: v f c a validate_timeline_error dest: build_schedule_error effective_spec_error)
qed

section \<open>What the service relies on\<close>

text \<open>
  The contract of the service's dependencies: three evidence sources, opening states that are well
  formed, and a calculator whose results are well formed; all errors are classified.
\<close>

definition dwh_errors :: "sentinel set" where "dwh_errors = {ErrHistoricalEvidence, ErrDWHUnavailable}"
definition mso_errors :: "sentinel set" where "mso_errors = {ErrHistoricalEvidence, ErrMSOUnavailable}"

text \<open>Whether the loan was closed by the date.\<close>

definition closed_by :: "contract_data \<Rightarrow> date \<Rightarrow> bool" where
  "closed_by contract as_of \<longleftrightarrow> \<not> date_is_zero (cd_close_date contract) \<and> \<not> date_after (cd_close_date contract) as_of"

text \<open>The sentinels a position inquiry can fail with, beside those of the gateway.\<close>

definition position_errors :: "sentinel set" where
  "position_errors = calculation_errors \<union> dwh_errors \<union> mso_errors \<union> {ErrCurrentSnapshot}"

locale position_deps =
  dw: evidence_source "sv_dwh_exact svc" SourceDWH dwh_errors +
  sn: evidence_source "sv_snapshot_exact svc" SourceTodaySnapshot "{ErrCurrentSnapshot}" +
  ms: evidence_source "sv_mso_historical svc" SourceMSO mso_errors
  for svc :: position_service +
  assumes opening_law: "sv_mso_opening svc account cutoff = Inr op \<Longrightarrow> opening_ok op \<and> 0 \<le> op_penalty_due op"
    and opening_error: "sv_mso_opening svc account cutoff = Inl e \<Longrightarrow> classified mso_errors e"
    and timeline_error: "sv_dwh_timeline svc account d1 d2 = Inl e \<Longrightarrow> classified dwh_errors e"
    and calculate_law: "sv_calculate svc inp = Inr r \<Longrightarrow>
      balances_ok (cr_principal_outstanding r) (cr_principal_due r) (cr_interest_due r)
      \<and> 0 \<le> cr_unapplied_amount r \<and> 1 \<le> cr_collectability_bi r \<and> cr_collectability_bi r \<le> 5"
    and calculate_class: "sv_calculate svc inp = Inl e \<Longrightarrow> classified calculation_errors e"
begin

lemma checked_exact_ok:
  assumes "checked_exact svc account as_of = Inr p"
  shows "position_ok p" and "lp_unapplied_amount p = 0"
    and "lp_source p = Some (if date_equal as_of (sv_today svc) then SourceTodaySnapshot else SourceDWH)"
    and "\<not> date_is_zero (lp_loan_start_date p)" and "\<not> date_after (lp_loan_start_date p) as_of"
  using assms dw.answer_ok [of account as_of p] sn.answer_ok [of account as_of p]
  by (auto simp: checked_exact_def exact_position_def split: sum.split_asm if_split_asm)

lemma checked_exact_class:
  "checked_exact svc account as_of = Inl e \<Longrightarrow> classified (insert ErrCurrentSnapshot dwh_errors) e"
  using dw.error_classified [of account as_of] sn.error_classified [of account as_of]
  by (fastforce simp: checked_exact_def exact_position_def classified_def errors_is_def dwh_errors_def
      split: sum.split_asm if_split_asm)

lemma reconstruct_ok:
  assumes "reconstruct svc contract account as_of exact op = Inr r"
  shows "position_ok (res_position r)" and "lp_source (res_position r) = Some SourceReconstructed"
    and "res_actual_position r = exact" and "lp_loan_start_date (res_position r) = lp_loan_start_date exact"
    and "cd_primary_account (res_loan r) = cd_primary_account contract"
    and "cd_close_date (res_loan r) = cd_close_date contract"
  using assms
  by (auto simp: reconstruct_def Let_def res_simps position_simps split: option.split_asm if_split_asm
      dest!: calculate_law)

lemma reconstruct_class:
  "reconstruct svc contract account as_of exact op = Inl e \<Longrightarrow> classified (calculation_errors \<union> dwh_errors) e"
  by (auto simp: reconstruct_def Let_def res_simps split: option.split_asm if_split_asm
      dest!: normalize_error timeline_error calculate_class
      intro: classified_mono simp: classified_def calculation_errors_def errors_is_def)

text \<open>The MSO part: source and well-formedness, given the exact position past the cutoff.\<close>

lemma resolve_with_mso_ok:
  assumes "resolve_with_mso svc contract account as_of exact = Inr r"
    and "date_after as_of (sv_cutoff svc) \<Longrightarrow> position_ok exact"
  shows "position_ok (res_position r)"
    and "\<not> date_after as_of (sv_cutoff svc) \<Longrightarrow> lp_source (res_position r) = Some SourceMSO"
    and "date_after as_of (sv_cutoff svc) \<Longrightarrow> res_actual_position r = exact
      \<and> (res_position r = exact \<or> lp_source (res_position r) = Some SourceReconstructed)"
proof -
  let ?mso = "format_fincloud_alt_no_to_mso (trim_space (cd_alternate_account contract))"
  consider (before) p where "date_before as_of (sv_cutoff svc)" "sv_mso_historical svc ?mso as_of = Inr p"
      "r = plain_result contract (p\<lparr>lp_account_number := account\<rparr>)"
    | (cutoff) op where "date_equal as_of (sv_cutoff svc)" "sv_mso_opening svc ?mso (sv_cutoff svc) = Inr op"
      "r = plain_result contract (opening_position (op\<lparr>op_account_number := account\<rparr>) as_of)"
    | (exact) "date_after as_of (sv_cutoff svc)" "r = plain_result contract exact"
    | (rebuilt) op where "date_after as_of (sv_cutoff svc)" "reconstruct svc contract account as_of exact op = Inr r"
    using assms(1)
    by (cases "date_key as_of" "date_key (sv_cutoff svc)" rule: linorder_cases)
      (auto simp: resolve_with_mso_def Let_def res_simps date_before_def date_equal_def date_after_def
        split: if_split_asm)
  then have "position_ok (res_position r)
    \<and> (\<not> date_after as_of (sv_cutoff svc) \<longrightarrow> lp_source (res_position r) = Some SourceMSO)
    \<and> (date_after as_of (sv_cutoff svc) \<longrightarrow> res_actual_position r = exact
      \<and> (res_position r = exact \<or> lp_source (res_position r) = Some SourceReconstructed))"
  proof cases
    case before
    then show ?thesis using ms.answer_ok [OF before(2)]
      by (auto simp: plain_result_def position_ok_def date_after_def date_before_def)
  next
    case cutoff
    then show ?thesis using opening_law [OF cutoff(2)]
      by (auto simp: plain_result_def opening_position_def position_simps opening_ok_def
          date_after_def date_equal_def)
  next
    case exact
    then show ?thesis using assms(2) by (simp add: plain_result_def)
  next
    case rebuilt
    then show ?thesis using reconstruct_ok [OF rebuilt(2)] by simp
  qed
  then show "position_ok (res_position r)"
    and "\<not> date_after as_of (sv_cutoff svc) \<Longrightarrow> lp_source (res_position r) = Some SourceMSO"
    and "date_after as_of (sv_cutoff svc) \<Longrightarrow> res_actual_position r = exact
      \<and> (res_position r = exact \<or> lp_source (res_position r) = Some SourceReconstructed)" by auto
qed

lemma resolve_with_mso_class:
  assumes "resolve_with_mso svc contract account as_of exact = Inl e"
  shows "classified (calculation_errors \<union> dwh_errors \<union> mso_errors) e"
proof -
  have h: "sv_mso_historical svc a d = Inl e' \<Longrightarrow> classified mso_errors e'" for a d e'
    using ms.error_classified [of a d e'] by (simp add: classified_def)
  show ?thesis
    using assms
    by (auto simp: resolve_with_mso_def Let_def res_simps split: if_split_asm
        dest!: h opening_error reconstruct_class intro: classified_mono)
      (auto simp: classified_def mso_errors_def errors_is_def)
qed

text \<open>The two ways an open loan is resolved, with the contract the gateway returned.\<close>

lemma resolve_position_cases:
  assumes "resolve_position svc account as_of = Inr r"
  obtains (closed) contract where "sv_resolve_loan svc (trim_space account) (sv_location svc) = Inr contract"
      "closed_by contract as_of"
      "r = plain_result contract (empty_position\<lparr>lp_as_of := as_of,
         lp_account_number := trim_space (cd_primary_account contract),
         lp_collectability_bi := cd_current_collectability contract, lp_source := Some SourceClosed\<rparr>)"
  | (native) contract exact where "sv_resolve_loan svc (trim_space account) (sv_location svc) = Inr contract"
      "\<not> closed_by contract as_of" "date_after as_of (sv_cutoff svc)"
      "checked_exact svc (trim_space (cd_primary_account contract)) as_of = Inr exact"
      "date_after (lp_loan_start_date exact) (sv_cutoff svc)" "r = plain_result contract exact"
  | (migrated) contract exact where "sv_resolve_loan svc (trim_space account) (sv_location svc) = Inr contract"
      "\<not> closed_by contract as_of" "date_after as_of (sv_cutoff svc)"
      "checked_exact svc (trim_space (cd_primary_account contract)) as_of = Inr exact"
      "\<not> date_after (lp_loan_start_date exact) (sv_cutoff svc)"
      "resolve_with_mso svc contract (trim_space (cd_primary_account contract)) as_of exact = Inr r"
  | (before) contract where "sv_resolve_loan svc (trim_space account) (sv_location svc) = Inr contract"
      "\<not> closed_by contract as_of" "\<not> date_after as_of (sv_cutoff svc)"
      "resolve_with_mso svc contract (trim_space (cd_primary_account contract)) as_of empty_position = Inr r"
proof -
  from assms obtain contract where
    c: "sv_resolve_loan svc (trim_space account) (sv_location svc) = Inr contract"
    by (auto simp: resolve_position_def Let_def res_simps split: if_split_asm)
  show thesis
  proof (cases "closed_by contract as_of")
    case True
    then show thesis using assms c closed
      by (auto simp: resolve_position_def Let_def closed_by_def split: if_split_asm)
  next
    case opn: False
    show thesis
    proof (cases "date_after as_of (sv_cutoff svc)")
      case False
      then show thesis using assms c opn before
        by (auto simp: resolve_position_def Let_def closed_by_def split: if_split_asm)
    next
      case True
      then obtain exact where e: "checked_exact svc (trim_space (cd_primary_account contract)) as_of = Inr exact"
        and rest: "(if date_after (lp_loan_start_date exact) (sv_cutoff svc)
              then Inr (plain_result contract exact)
              else resolve_with_mso svc contract (trim_space (cd_primary_account contract)) as_of exact) = Inr r"
        using assms c opn
        by (auto simp: resolve_position_def Let_def closed_by_def res_simps split: if_split_asm)
      show thesis
        by (cases "date_after (lp_loan_start_date exact) (sv_cutoff svc)")
          (use rest native [OF c opn True e] migrated [OF c opn True e] in auto)
    qed
  qed
qed

lemma resolve_position_ok:
  assumes "resolve_position svc account as_of = Inr r" and "lp_source (res_position r) \<noteq> Some SourceClosed"
  shows "position_ok (res_position r)"
  using assms(1)
proof (cases rule: resolve_position_cases)
  case closed
  then show ?thesis using assms(2) by (simp add: plain_result_def empty_position_def)
next
  case native
  then show ?thesis using checked_exact_ok(1) by (simp add: plain_result_def)
next
  case migrated
  then show ?thesis using checked_exact_ok(1) resolve_with_mso_ok(1) by blast
next
  case before
  then show ?thesis using resolve_with_mso_ok(1) by blast
qed

lemma resolve_position_source:
  assumes "resolve_position svc account as_of = Inr r"
    and "sv_resolve_loan svc (trim_space account) (sv_location svc) = Inr contract"
  shows "lp_source (res_position r) =
    (if closed_by contract as_of then Some SourceClosed
     else if \<not> date_after as_of (sv_cutoff svc) then Some SourceMSO
     else if lp_source (res_position r) = Some SourceReconstructed then Some SourceReconstructed
     else if date_equal as_of (sv_today svc) then Some SourceTodaySnapshot else Some SourceDWH)"
    and "lp_source (res_position r) = Some SourceReconstructed \<Longrightarrow>
      \<not> closed_by contract as_of \<and> date_after as_of (sv_cutoff svc)
      \<and> \<not> date_after (lp_loan_start_date (res_actual_position r)) (sv_cutoff svc)"
proof -
  have "lp_source (res_position r) =
    (if closed_by contract as_of then Some SourceClosed
     else if \<not> date_after as_of (sv_cutoff svc) then Some SourceMSO
     else if lp_source (res_position r) = Some SourceReconstructed then Some SourceReconstructed
     else if date_equal as_of (sv_today svc) then Some SourceTodaySnapshot else Some SourceDWH)
    \<and> (lp_source (res_position r) = Some SourceReconstructed \<longrightarrow>
      \<not> closed_by contract as_of \<and> date_after as_of (sv_cutoff svc)
      \<and> \<not> date_after (lp_loan_start_date (res_actual_position r)) (sv_cutoff svc))"
    using assms(1)
  proof (cases rule: resolve_position_cases)
    case closed
    then show ?thesis using assms(2) by (auto simp: plain_result_def empty_position_def)
  next
    case native
    then show ?thesis using assms(2) checked_exact_ok(3) [OF native(4)] by (auto simp: plain_result_def)
  next
    case migrated
    then show ?thesis
      using assms(2) checked_exact_ok [OF migrated(4)] resolve_with_mso_ok(3) [OF migrated(6)] by auto
  next
    case before
    then show ?thesis using assms(2) resolve_with_mso_ok(2) [OF before(4)] by auto
  qed
  then show "lp_source (res_position r) =
    (if closed_by contract as_of then Some SourceClosed
     else if \<not> date_after as_of (sv_cutoff svc) then Some SourceMSO
     else if lp_source (res_position r) = Some SourceReconstructed then Some SourceReconstructed
     else if date_equal as_of (sv_today svc) then Some SourceTodaySnapshot else Some SourceDWH)"
    and "lp_source (res_position r) = Some SourceReconstructed \<Longrightarrow>
      \<not> closed_by contract as_of \<and> date_after as_of (sv_cutoff svc)
      \<and> \<not> date_after (lp_loan_start_date (res_actual_position r)) (sv_cutoff svc)"
    by blast+
qed

lemma resolve_position_class:
  assumes "resolve_position svc account as_of = Inl e"
  shows "classified position_errors e \<or> sv_resolve_loan svc (trim_space account) (sv_location svc) = Inl e"
proof -
  have s: "classified position_errors [x]" if "x \<in> calculation_errors" for x
    using that by (auto simp: classified_def position_errors_def calculation_errors_def errors_is_def)
  have m: "classified position_errors e" if "resolve_with_mso svc contract a as_of ex = Inl e" for contract a ex
    using resolve_with_mso_class [OF that] by (rule classified_mono) (auto simp: position_errors_def)
  have x: "classified position_errors e" if "checked_exact svc a as_of = Inl e" for a
    using checked_exact_class [OF that] by (rule classified_mono) (auto simp: position_errors_def)
  show ?thesis
    using assms s m x
    by (auto simp: resolve_position_def Let_def res_simps calculation_errors_def split: if_split_asm)
qed

end

section \<open>The wired service\<close>

text \<open>
  The service as \<open>app.Run\<close> builds it: the repositories over their databases and the calculator
  without a rounding hook. The databases and the Unicode tables are parameters.
\<close>

record evidence_databases =
  db_dwh_position :: "string \<Rightarrow> string \<Rightarrow> dwh_position_row query"
  db_dwh_timeline :: "string \<Rightarrow> string \<Rightarrow> string \<Rightarrow> err + dwh_collectability_row list"
  db_mso_state :: "string \<Rightarrow> string \<Rightarrow> mso_state_row query"
  db_mso_master :: "string \<Rightarrow> string query"
  db_snapshot :: "string \<Rightarrow> string \<Rightarrow> snapshot_row query"
  db_upper :: "string \<Rightarrow> string"

definition wired_service ::
  "(string \<Rightarrow> location \<Rightarrow> contract_data res) \<Rightarrow> evidence_databases \<Rightarrow> location \<Rightarrow> date \<Rightarrow> date \<Rightarrow> position_service" where
  "wired_service gateway dbs loc cutoff today =
     \<lparr>sv_resolve_loan = gateway,
      sv_mso_historical = mso_historical_position (db_upper dbs) (db_mso_state dbs),
      sv_mso_opening = mso_opening_state (db_upper dbs) (db_mso_state dbs) (db_mso_master dbs),
      sv_dwh_exact = dwh_exact_position (db_dwh_position dbs),
      sv_dwh_timeline = dwh_collectability_timeline (db_dwh_timeline dbs),
      sv_snapshot_exact = snapshot_exact_position loc (db_snapshot dbs),
      sv_calculate = calculate None, sv_build_schedule = build_schedule None,
      sv_location = loc, sv_cutoff = cutoff, sv_today = today\<rparr>"

lemma timeline_points_error: "timeline_points ps rows = Inl e \<Longrightarrow> e = [ErrHistoricalEvidence]"
  by (induction ps rows rule: timeline_points.induct) (auto split: if_split_asm)

interpretation wired: position_deps "wired_service gateway dbs loc cutoff today"
  for gateway dbs loc cutoff today
proof
  let ?svc = "wired_service gateway dbs loc cutoff today"
  show "position_ok p \<and> lp_source p = Some SourceDWH \<and> lp_unapplied_amount p = 0"
    if "sv_dwh_exact ?svc account as_of = Inr p" for account as_of p
    using that dwh.answer_ok by (simp add: wired_service_def)
  show "\<exists>s \<in> dwh_errors. errors_is e s" if "sv_dwh_exact ?svc account as_of = Inl e" for account as_of e
    using that dwh.error_classified [of "db_dwh_position dbs"] by (simp add: wired_service_def dwh_errors_def)
  show "position_ok p \<and> lp_source p = Some SourceTodaySnapshot \<and> lp_unapplied_amount p = 0"
    if "sv_snapshot_exact ?svc account as_of = Inr p" for account as_of p
    using that snap.answer_ok by (simp add: wired_service_def)
  show "\<exists>s \<in> {ErrCurrentSnapshot}. errors_is e s" if "sv_snapshot_exact ?svc account as_of = Inl e" for account as_of e
    using that snap.error_classified [of loc "db_snapshot dbs"] by (simp add: wired_service_def)
  show "position_ok p \<and> lp_source p = Some SourceMSO \<and> lp_unapplied_amount p = 0"
    if "sv_mso_historical ?svc account as_of = Inr p" for account as_of p
    using that mso.answer_ok by (simp add: wired_service_def)
  show "\<exists>s \<in> mso_errors. errors_is e s" if "sv_mso_historical ?svc account as_of = Inl e" for account as_of e
    using that mso.error_classified [of "db_upper dbs" "db_mso_state dbs"]
    by (simp add: wired_service_def mso_errors_def)
  show "opening_ok op \<and> 0 \<le> op_penalty_due op" if "sv_mso_opening ?svc account c = Inr op" for account c op
    using that mso_opening_ok by (simp add: wired_service_def)
  show "classified mso_errors e" if "sv_mso_opening ?svc account c = Inl e" for account c e
    using that mso_opening_error by (fastforce simp: wired_service_def classified_def mso_errors_def)
  show "classified dwh_errors e" if "sv_dwh_timeline ?svc account d1 d2 = Inl e" for account d1 d2 e
    using that
    by (auto simp: wired_service_def dwh_collectability_timeline_def classified_def dwh_errors_def errors_is_def
        split: if_split_asm sum.split_asm dest: timeline_points_error)
  show "balances_ok (cr_principal_outstanding r) (cr_principal_due r) (cr_interest_due r)
      \<and> 0 \<le> cr_unapplied_amount r \<and> 1 \<le> cr_collectability_bi r \<and> cr_collectability_bi r \<le> 5"
    if "sv_calculate ?svc inp = Inr r" for inp r
    using that calculate_result_ok by (simp add: wired_service_def)
  show "classified calculation_errors e" if "sv_calculate ?svc inp = Inl e" for inp e
    using that calculate_error by (simp add: wired_service_def)
qed

lemma get_loan_position_resolve:
  assumes "get_loan_position svc account as_of = Inr r"
  obtains r0 where "resolve_position svc account as_of = Inr r0" "res_position r = res_position r0"
    "res_actual_position r = res_actual_position r0" "res_loan r = res_loan r0" "res_trace r = res_trace r0"
  using assms by (auto simp: get_loan_position_def res_simps split: if_split_asm)

lemma wired_simps [simp]:
  "sv_cutoff (wired_service gateway dbs loc cutoff today) = cutoff"
  "sv_today (wired_service gateway dbs loc cutoff today) = today"
  "sv_location (wired_service gateway dbs loc cutoff today) = loc"
  "sv_resolve_loan (wired_service gateway dbs loc cutoff today) = gateway"
  by (simp_all add: wired_service_def)

text \<open>Replacing the MSO repository changes nothing where it is not consulted.\<close>

lemma native_resolution:
  assumes "sv_resolve_loan svc (trim_space account) (sv_location svc) = Inr contract"
    and "trim_space account \<noteq> ''''" and "\<not> date_is_zero as_of" and "\<not> date_after as_of (sv_today svc)"
    and "trim_space (cd_primary_account contract) \<noteq> ''''" and "\<not> closed_by contract as_of"
    and "date_after as_of (sv_cutoff svc)"
    and "checked_exact svc (trim_space (cd_primary_account contract)) as_of = Inr exact"
    and "date_after (lp_loan_start_date exact) (sv_cutoff svc)"
  shows "resolve_position svc account as_of = Inr (plain_result contract exact)"
  using assms by (auto simp: resolve_position_def Let_def closed_by_def)

section \<open>A sample inquiry\<close>

text \<open>A migrated flat-rate loan, reconstructed from the sample calculation, for the witnesses.\<close>

definition sample_evidence :: "contractual_installment_evidence list" where
  "sample_evidence =
     [\<lparr>ie_number = 0, ie_raw_due_date = '''', ie_raw_payment_status = ''''\<rparr>,
      \<lparr>ie_number = 2, ie_raw_due_date = ''2025-12-01T00:00:00'', ie_raw_payment_status = ''''\<rparr>,
      \<lparr>ie_number = 1, ie_raw_due_date = '' 2025-11-01'', ie_raw_payment_status = ''''\<rparr>]"

definition sample_contract :: contract_data where
  "sample_contract =
     \<lparr>cd_primary_account = ''P1'', cd_alternate_account = ''0123456789'', cd_cif = ''C'', cd_customer_name = ''N'',
      cd_branch = ''B'', cd_product = ''K'', cd_plafond_limit = 1200, cd_tenor_months = 2,
      cd_flat_rate_percent = 12, cd_reference_rate_percent = 0, cd_current_collectability = 1,
      cd_current_principal_due = 0, cd_current_interest_due = 0, cd_penalty_due = 0, cd_status = ''A'',
      cd_close_date = zero_date, cd_raw_schedule_count = 3,
      cd_contract_schedule_evidence = Some sample_evidence, cd_contract_schedule = [],
      cd_repayments = in_repayments sample_input\<rparr>"

definition sample_gateway :: "string \<Rightarrow> location \<Rightarrow> contract_data res" where
  "sample_gateway account loc = (if account = ''P1'' then Inr sample_contract else Inl [ErrNotFound])"

definition sample_dbs :: evidence_databases where
  "sample_dbs =
     \<lparr>db_dwh_position = (\<lambda>account d.
        Row \<lparr>dw_as_of = mk_date 2025 12 31, dw_account_number = account, dw_period_start = Some ''01/10/2025'',
             dw_principal_outstanding = 600, dw_collectability_bi = 3, dw_principal_due = 0,
             dw_interest_due = 0, dw_penalty_due = 0\<rparr>),
      db_dwh_timeline = (\<lambda>account d1 d2. Inr [\<lparr>dc_date = mk_date 2025 11 1, dc_value = 3\<rparr>]),
      db_mso_state = (\<lambda>account d.
        if account = ''01.234.56789''
        then Row \<lparr>ms_principal_outstanding = 1200, ms_principal_due = 0, ms_interest_due = 0,
                  ms_penalty_due = 0, ms_collectability_bi = 0, ms_collectability_code = ''l ''\<rparr>
        else NoRows),
      db_mso_master = (\<lambda>account. Row '' 10''), db_snapshot = (\<lambda>account d. NoRows), db_upper = (\<lambda>s. s)\<rparr>"

definition sample_service :: position_service where
  "sample_service = wired_service sample_gateway sample_dbs (Some ''Asia/Jakarta'')
     (mk_date 2025 10 12) (mk_date 2026 1 5)"

lemma sample_inquiry:
  "case get_loan_position sample_service '' P1'' (mk_date 2025 12 31) of
     Inr r \<Rightarrow> lp_source (res_position r) = Some SourceReconstructed
       \<and> lp_principal_outstanding (res_position r) = 588 \<and> lp_interest_due (res_position r) = 24
       \<and> lp_loan_start_date (res_actual_position r) = mk_date 2025 10 1
   | Inl _ \<Rightarrow> False"
  by code_simp

lemma sample_inquiry_answered:
  obtains r where "get_loan_position sample_service '' P1'' (mk_date 2025 12 31) = Inr r"
    "lp_source (res_position r) = Some SourceReconstructed" "lp_principal_outstanding (res_position r) = 588"
  using sample_inquiry by (cases "get_loan_position sample_service '' P1'' (mk_date 2025 12 31)") auto

lemma sample_missing:
  "get_loan_position sample_service ''P2'' (mk_date 2025 12 31) = Inl [ErrNotFound]"
  "sample_gateway (trim_space '' P1'') loc = Inr sample_contract"
  by code_simp+

lemma sample_normalized:
  "normalize_contract_schedule sample_evidence 2 (Some ''UTC'') = Inr (rev sample_installments)"
  by code_simp

section \<open>Properties\<close>



text \<open>
  Every position reported for a loan that is not closed is well formed (no negative balance, no
  more due than outstanding, collectability 1 to 5), whichever source it comes from and whatever
  the databases and the gateway return.
\<close>

theorem position_well_formed:
  assumes "get_loan_position (wired_service gateway dbs loc cutoff today) account as_of = Inr r"
    and "lp_source (res_position r) \<noteq> Some SourceClosed"
  shows "position_ok (res_position r)"
  using assms wired.resolve_position_ok by (metis get_loan_position_resolve)

theorem position_well_formed_witness:
  "\<exists>r. get_loan_position sample_service '' P1'' (mk_date 2025 12 31) = Inr r \<and> position_ok (res_position r)"
proof -
  obtain r where r: "get_loan_position sample_service '' P1'' (mk_date 2025 12 31) = Inr r"
    and src: "lp_source (res_position r) = Some SourceReconstructed"
    by (rule sample_inquiry_answered)
  then show ?thesis
    using position_well_formed [OF r [unfolded sample_service_def]] by simp
qed

text \<open>
  A loan that started after the cutoff is answered from the exact evidence alone: the answer is
  the same for every MSO repository, even one that is unavailable.
\<close>

theorem native_loan_ignores_mso:
  fixes svc :: position_service
  assumes "sv_resolve_loan svc (trim_space account) (sv_location svc) = Inr contract"
    and "trim_space account \<noteq> ''''" and "\<not> date_is_zero as_of" and "\<not> date_after as_of (sv_today svc)"
    and "trim_space (cd_primary_account contract) \<noteq> ''''" and "\<not> closed_by contract as_of"
    and "date_after as_of (sv_cutoff svc)"
    and "checked_exact svc (trim_space (cd_primary_account contract)) as_of = Inr exact"
    and "date_after (lp_loan_start_date exact) (sv_cutoff svc)"
  shows "resolve_position (svc\<lparr>sv_mso_historical := h, sv_mso_opening := opn\<rparr>) account as_of
    = Inr (plain_result contract exact)"
proof -
  have "checked_exact (svc\<lparr>sv_mso_historical := h, sv_mso_opening := opn\<rparr>) a d = checked_exact svc a d" for a d
    by (auto simp: checked_exact_def exact_position_def split: sum.split)
  then show ?thesis using assms by (intro native_resolution) auto
qed

theorem native_loan_ignores_mso_witness:
  "resolve_position
     (sample_service\<lparr>sv_cutoff := mk_date 2025 9 30, sv_mso_historical := \<lambda>a d. Inl [ErrMSOUnavailable],
        sv_mso_opening := \<lambda>a d. Inl [ErrMSOUnavailable]\<rparr>) ''P1'' (mk_date 2025 12 31)
   = Inr (plain_result sample_contract
       (empty_position\<lparr>lp_as_of := mk_date 2025 12 31, lp_loan_start_date := mk_date 2025 10 1,
          lp_account_number := ''P1'', lp_principal_outstanding := 600, lp_collectability_bi := 3,
          lp_source := Some SourceDWH\<rparr>))"
proof -
  let ?svc = "sample_service\<lparr>sv_cutoff := mk_date 2025 9 30\<rparr>"
  let ?exact = "empty_position\<lparr>lp_as_of := mk_date 2025 12 31, lp_loan_start_date := mk_date 2025 10 1,
          lp_account_number := ''P1'', lp_principal_outstanding := 600, lp_collectability_bi := 3,
          lp_source := Some SourceDWH\<rparr>"
  have 1: "sv_resolve_loan ?svc (trim_space ''P1'') (sv_location ?svc) = Inr sample_contract" by code_simp
  have 2: "trim_space ''P1'' \<noteq> ''''" by code_simp
  have 3: "\<not> date_is_zero (mk_date 2025 12 31)" by code_simp
  have 4: "\<not> date_after (mk_date 2025 12 31) (sv_today ?svc)" by code_simp
  have 5: "trim_space (cd_primary_account sample_contract) \<noteq> ''''" by code_simp
  have 6: "\<not> closed_by sample_contract (mk_date 2025 12 31)" by code_simp
  have 7: "date_after (mk_date 2025 12 31) (sv_cutoff ?svc)" by code_simp
  have 8: "checked_exact ?svc (trim_space (cd_primary_account sample_contract)) (mk_date 2025 12 31) = Inr ?exact"
    by code_simp
  have 9: "date_after (lp_loan_start_date ?exact) (sv_cutoff ?svc)" by code_simp
  show ?thesis using native_loan_ignores_mso [OF 1 2 3 4 5 6 7 8 9] by simp
qed

text \<open>
  C5. An inquiry that fails either repeats the gateway's own error or fails with an error of the
  documented kinds: invalid input, a calculation that is unsupported or breaks an invariant,
  missing evidence, or an unavailable source.
\<close>

theorem position_error_classified:
  assumes "get_loan_position (wired_service gateway dbs loc cutoff today) account as_of = Inl e"
  shows "classified position_errors e \<or> gateway (trim_space account) loc = Inl e"
  using assms wired.resolve_position_class [of gateway dbs loc cutoff today account as_of e]
  by (auto simp: get_loan_position_def res_simps)

theorem position_error_classified_witness:
  "classified position_errors [ErrNotFound]
   \<or> sample_gateway (trim_space ''P2'') (Some ''Asia/Jakarta'') = Inl [ErrNotFound]"
  using position_error_classified [OF sample_missing(1) [unfolded sample_service_def]] .

text \<open>
  Schedule evidence that normalises, with no date of the year 0, is accepted by the calculator:
  for valid terms the schedule is built, one row for each month of the tenor.
\<close>

theorem normalized_schedule_builds:
  assumes "normalize_contract_schedule evidence tenor loc = Inr cs"
    and "list_all (\<lambda>c. \<not> date_is_zero (ci_due_date c)) cs" and "\<not> invalid_terms p tenor rate"
  shows "valid_installments tenor cs
    \<and> (\<exists>rows. build_schedule None p tenor rate cs = Inr rows \<and> int (length rows) = tenor)"
proof -
  have "0 < tenor" using assms(3) by (auto simp: invalid_terms_def)
  then have "valid_installments tenor cs"
    using assms by (intro normalize_contract_schedule_ok)
  then show ?thesis
    using build_schedule_exact [OF assms(3), of cs] build_schedule_sound(9)
    by (auto simp: valid_installments_sorted)
qed

theorem normalized_schedule_builds_witness:
  "valid_installments 2 (rev sample_installments)
   \<and> (\<exists>rows. build_schedule None 1200 2 12 (rev sample_installments) = Inr rows \<and> int (length rows) = 2)"
proof -
  have "list_all (\<lambda>c. \<not> date_is_zero (ci_due_date c)) (rev sample_installments)"
    by (simp add: sample_installments_def date_is_zero_def)
  moreover have "\<not> invalid_terms 1200 2 12" by (simp add: invalid_terms_def)
  ultimately show ?thesis using normalized_schedule_builds [OF sample_normalized] by blast
qed

end
