(* ===== verification/Fincloud_Session.thy ===== *)
theory Fincloud_Session
  imports Loan_Values
begin

text \<open>
  The session manager of \<open>src/internal/fincloud/session.go\<close>, shared by all requests to Fincloud.
  Goroutines call \<open>Session\<close>, \<open>Invalidate\<close> and \<open>Close\<close> concurrently; every section under the mutex is
  one atomic step, and the waiting, the login call and the logout call happen between steps. The
  model is a step relation over the manager's fields and one program counter per goroutine.
  A channel is named by the goroutine that created it and is closed when \<open>loginEnd\<close> moves on.
\<close>

section \<open>State\<close>

datatype login_error = Canceled | LoginFailed

text \<open>Where a goroutine is inside \<open>Session\<close>.\<close>

datatype phase =
    Idle
  | LoopHead
  | Waiting nat
  | Woken
  | LoggingIn
  | LoggingOut string string
  | Returned string
  | Rejected login_error

record manager =
  mg_session :: string
  mg_retired :: string
  mg_login_end :: "(nat \<times> nat) option"
  mg_login_err :: "login_error option"
  mg_closed :: "nat set"
  mg_next :: nat
  mg_phase :: "nat \<Rightarrow> phase"
  mg_issued :: "string list"
  mg_logged_out :: "string list"

text \<open>
  \<open>mg_login_end\<close> holds the channel and its creator; \<open>mg_next\<close> numbers the channels. \<open>mg_issued\<close> and
  \<open>mg_logged_out\<close> record the sessions the upstream handed out and those a logout was sent for.
\<close>

definition new_session_manager :: manager where
  "new_session_manager =
     \<lparr>mg_session = '''', mg_retired = '''', mg_login_end = None, mg_login_err = None, mg_closed = {},
      mg_next = 0, mg_phase = (\<lambda>_. Idle), mg_issued = [], mg_logged_out = []\<rparr>"

definition set_phase :: "nat \<Rightarrow> phase \<Rightarrow> manager \<Rightarrow> manager" where
  "set_phase t p m = m\<lparr>mg_phase := (mg_phase m)(t := p)\<rparr>"

section \<open>The atomic sections\<close>

text \<open>The first section of the loop: return the session, join a running login, or start one.\<close>

definition session_enter :: "nat \<Rightarrow> manager \<Rightarrow> manager" where
  "session_enter t m =
     (if mg_session m \<noteq> '''' then set_phase t (Returned (mg_session m)) m
      else case mg_login_end m of
        Some (c, _) \<Rightarrow> set_phase t (Waiting c) m
      | None \<Rightarrow> set_phase t LoggingIn
          (m\<lparr>mg_login_end := Some (mg_next m, t), mg_login_err := None, mg_next := Suc (mg_next m)\<rparr>))"

text \<open>After the wait: read the outcome of the login; \<open>live\<close> is \<open>ctx.Err() == nil\<close>.\<close>

definition session_woken :: "bool \<Rightarrow> nat \<Rightarrow> manager \<Rightarrow> manager" where
  "session_woken live t m =
     (case mg_login_err m of
        None \<Rightarrow> set_phase t LoopHead m
      | Some e \<Rightarrow> if e = Canceled \<and> live then set_phase t LoopHead m else set_phase t (Rejected e) m)"

text \<open>The section after the login call. An empty session counts as a failure.\<close>

definition session_login_done :: "login_error + string \<Rightarrow> nat \<Rightarrow> manager \<Rightarrow> manager" where
  "session_login_done result t m =
     (let outcome = (case result of Inl e \<Rightarrow> Inl e | Inr s \<Rightarrow> if s = '''' then Inl LoginFailed else Inr s);
          closed = (case mg_login_end m of None \<Rightarrow> mg_closed m | Some (c, _) \<Rightarrow> insert c (mg_closed m));
          m' = m\<lparr>mg_login_end := None, mg_closed := closed\<rparr>
      in case outcome of
           Inl e \<Rightarrow> set_phase t (Rejected e) (m'\<lparr>mg_login_err := Some e\<rparr>)
         | Inr s \<Rightarrow>
             let m'' = m'\<lparr>mg_login_err := None, mg_session := s, mg_retired := '''', mg_issued := s # mg_issued m\<rparr>
             in if mg_retired m \<noteq> '''' \<and> mg_retired m \<noteq> s
                then set_phase t (LoggingOut (mg_retired m) s) m''
                else set_phase t (Returned s) m'')"

definition session_invalidate :: "string \<Rightarrow> manager \<Rightarrow> manager" where
  "session_invalidate s m =
     (if s \<noteq> '''' \<and> mg_session m = s then m\<lparr>mg_retired := s, mg_session := ''''\<rparr> else m)"

text \<open>\<open>Close\<close> takes the session out under the lock and then logs it out.\<close>

definition session_close :: "manager \<Rightarrow> manager" where
  "session_close m =
     (if mg_session m = '''' then m
      else m\<lparr>mg_session := '''', mg_logged_out := mg_session m # mg_logged_out m\<rparr>)"

section \<open>Steps\<close>

inductive step :: "manager \<Rightarrow> manager \<Rightarrow> bool" where
  call: "mg_phase m t \<in> {Idle} \<union> range Returned \<union> range Rejected \<Longrightarrow> step m (set_phase t LoopHead m)"
| enter: "mg_phase m t = LoopHead \<Longrightarrow> step m (session_enter t m)"
| wait_cancelled: "mg_phase m t = Waiting c \<Longrightarrow> step m (set_phase t (Rejected Canceled) m)"
| wake: "mg_phase m t = Waiting c \<Longrightarrow> c \<in> mg_closed m \<Longrightarrow> step m (set_phase t Woken m)"
| woken: "mg_phase m t = Woken \<Longrightarrow> step m (session_woken live t m)"
| login_done: "mg_phase m t = LoggingIn \<Longrightarrow> step m (session_login_done result t m)"
| logout: "mg_phase m t = LoggingOut old s \<Longrightarrow>
    step m (set_phase t (Returned s) (m\<lparr>mg_logged_out := old # mg_logged_out m\<rparr>))"
| invalidate: "step m (session_invalidate s m)"
| close: "step m (session_close m)"

inductive_cases stepE: "step m m'"

inductive reachable :: "manager \<Rightarrow> bool" where
  init: "reachable new_session_manager"
| step: "reachable m \<Longrightarrow> step m m' \<Longrightarrow> reachable m'"

section \<open>Invariant\<close>

text \<open>
  \<open>loginEnd\<close> names exactly the goroutine that is logging in; while it does there is no session;
  a current session means that nothing is retired.
\<close>

definition single_flight :: "manager \<Rightarrow> bool" where
  "single_flight m \<longleftrightarrow>
     (\<forall>t. mg_phase m t = LoggingIn \<longleftrightarrow> (\<exists>c. mg_login_end m = Some (c, t)))
     \<and> (mg_login_end m \<noteq> None \<longrightarrow> mg_session m = '''')
     \<and> (mg_session m \<noteq> '''' \<longrightarrow> mg_retired m = '''')"

text \<open>Channel names are fresh, a running login's channel is open, and a waiter waits for a known channel.\<close>

definition channels_ok :: "manager \<Rightarrow> bool" where
  "channels_ok m \<longleftrightarrow>
     (\<forall>c \<in> mg_closed m. c < mg_next m)
     \<and> (\<forall>c t. mg_login_end m = Some (c, t) \<longrightarrow> c < mg_next m \<and> c \<notin> mg_closed m)
     \<and> (\<forall>t c. mg_phase m t = Waiting c \<longrightarrow> c \<in> mg_closed m \<or> (\<exists>u. mg_login_end m = Some (c, u)))"

text \<open>Every session ever issued is the current one, the retired one, logged out, or about to be.\<close>

definition no_leak :: "manager \<Rightarrow> bool" where
  "no_leak m \<longleftrightarrow>
     (\<forall>s \<in> set (mg_issued m). s = mg_session m \<or> s = mg_retired m \<or> s \<in> set (mg_logged_out m)
        \<or> (\<exists>t r. mg_phase m t = LoggingOut s r))"

lemma logging_out_update:
  assumes "\<And>s r. f t \<noteq> LoggingOut s r"
  shows "(\<exists>u r. (f(t := p)) u = LoggingOut s r) \<longleftrightarrow> (\<exists>r. p = LoggingOut s r) \<or> (\<exists>u r. f u = LoggingOut s r)"
  using assms by (auto split: if_split_asm) (metis (no_types) fun_upd_other)

lemmas section_defs = session_enter_def session_woken_def session_login_done_def session_invalidate_def
  session_close_def set_phase_def Let_def

lemma set_phase_simps [simp]:
  "mg_phase (set_phase t p m) = (mg_phase m)(t := p)"
  "mg_session (set_phase t p m) = mg_session m" "mg_retired (set_phase t p m) = mg_retired m"
  "mg_login_end (set_phase t p m) = mg_login_end m" "mg_login_err (set_phase t p m) = mg_login_err m"
  "mg_closed (set_phase t p m) = mg_closed m" "mg_next (set_phase t p m) = mg_next m"
  "mg_issued (set_phase t p m) = mg_issued m" "mg_logged_out (set_phase t p m) = mg_logged_out m"
  by (simp_all add: set_phase_def)

lemma single_flight_owner:
  "single_flight m \<Longrightarrow> mg_phase m t \<noteq> LoggingIn \<Longrightarrow> mg_login_end m \<noteq> Some (c, t)"
  by (auto simp: single_flight_def)

lemma single_flight_set_phase:
  assumes "single_flight m" and "mg_phase m t \<noteq> LoggingIn" and "p \<noteq> LoggingIn"
  shows "single_flight (set_phase t p m)"
  using assms single_flight_owner [OF assms(1,2)] by (auto simp: single_flight_def)

lemma single_flight_step:
  assumes "step m m'" and "single_flight m"
  shows "single_flight m'"
  using assms
proof (cases rule: step.cases)
  case (enter t)
  then show ?thesis using assms(2) single_flight_owner [OF assms(2), of t]
    by (auto simp: single_flight_set_phase session_enter_def split: option.splits)
      (auto simp: single_flight_def)
next
  case (woken t live)
  then show ?thesis using assms(2)
    by (auto simp: single_flight_set_phase session_woken_def split: option.splits)
next
  case (login_done t result)
  then show ?thesis using assms(2)
    by (auto simp: single_flight_def session_login_done_def Let_def split: sum.splits option.splits if_splits)
next
  case (logout t old s)
  have "single_flight (m\<lparr>mg_logged_out := old # mg_logged_out m\<rparr>)"
    using assms(2) by (simp add: single_flight_def)
  then show ?thesis using logout by (simp add: single_flight_set_phase)
next
  case (invalidate s)
  then show ?thesis using assms(2) by (simp add: single_flight_def session_invalidate_def)
next
  case close
  then show ?thesis using assms(2) by (simp add: single_flight_def session_close_def)
qed (use assms(2) in \<open>auto simp: single_flight_set_phase\<close>)

lemma channels_ok_step:
  assumes "step m m'" and "single_flight m" and "channels_ok m"
  shows "channels_ok m'"
  using assms
proof (cases rule: step.cases)
  case (enter t)
  then show ?thesis using assms(2,3)
    by (fastforce simp: channels_ok_def single_flight_def session_enter_def split: option.splits)
next
  case (woken t live)
  then show ?thesis using assms(3)
    by (auto simp: channels_ok_def session_woken_def split: option.splits)
next
  case (login_done t result)
  then obtain c where "mg_login_end m = Some (c, t)" using assms(2) by (auto simp: single_flight_def)
  then show ?thesis using login_done assms(3)
    by (auto simp: channels_ok_def session_login_done_def Let_def split: sum.splits if_splits)
qed (auto simp: channels_ok_def session_invalidate_def session_close_def)

lemma no_leak_step:
  assumes "step m m'" and "single_flight m" and "no_leak m"
  shows "no_leak m'"
  using assms
proof (cases rule: step.cases)
  case (call t)
  then show ?thesis using assms(3) by (auto simp: no_leak_def logging_out_update simp del: fun_upd_apply)
next
  case (enter t)
  then show ?thesis using assms(3)
    by (auto simp: no_leak_def session_enter_def logging_out_update simp del: fun_upd_apply split: option.splits)
next
  case (wait_cancelled t c)
  then show ?thesis using assms(3) by (auto simp: no_leak_def logging_out_update simp del: fun_upd_apply)
next
  case (wake t c)
  then show ?thesis using assms(3) by (auto simp: no_leak_def logging_out_update simp del: fun_upd_apply)
next
  case (woken t live)
  then show ?thesis using assms(3)
    by (auto simp: no_leak_def session_woken_def logging_out_update simp del: fun_upd_apply split: option.splits)
next
  case (login_done t result)
  then have "mg_session m = ''''" using assms(2) by (auto simp: single_flight_def)
  then show ?thesis using login_done assms(3)
    by (auto simp: no_leak_def session_login_done_def Let_def logging_out_update simp del: fun_upd_apply
        split: sum.splits)
next
  case (logout t old s)
  have "(\<exists>u q. mg_phase m u = LoggingOut x q) \<longleftrightarrow> x = old \<or> (\<exists>u q. u \<noteq> t \<and> mg_phase m u = LoggingOut x q)" for x
    using logout(2) by (metis phase.inject(2))
  moreover have "mg_phase m' u = (if u = t then Returned s else mg_phase m u)" for u
    using logout(1) by simp
  ultimately show ?thesis using assms(3) logout by (simp add: no_leak_def) blast
next
  case (invalidate s)
  then show ?thesis using assms(2,3) by (auto simp: no_leak_def single_flight_def session_invalidate_def)
qed (auto simp: no_leak_def session_close_def)

lemma reachable_invariants: "reachable m \<Longrightarrow> single_flight m \<and> channels_ok m \<and> no_leak m"
proof (induction rule: reachable.induct)
  case init
  then show ?case by (simp add: single_flight_def channels_ok_def no_leak_def new_session_manager_def)
next
  case (step m m')
  then show ?case using single_flight_step channels_ok_step no_leak_step by blast
qed

section \<open>Properties\<close>

text \<open>Two goroutines that both ask for a session while there is none, for the witnesses.\<close>

definition sample_manager :: manager where
  "sample_manager = session_enter 1 (set_phase 1 LoopHead (session_enter 0 (set_phase 0 LoopHead new_session_manager)))"

lemma sample_manager_reachable:
  "reachable sample_manager" "mg_phase sample_manager 0 = LoggingIn" "mg_phase sample_manager 1 = Waiting 0"
proof -
  have "reachable (set_phase 0 LoopHead new_session_manager)"
    by (rule reachable.step [OF reachable.init step.call]) (simp add: new_session_manager_def)
  then have "reachable (session_enter 0 (set_phase 0 LoopHead new_session_manager))"
    by (rule reachable.step) (rule step.enter, simp)
  then have "reachable (set_phase 1 LoopHead (session_enter 0 (set_phase 0 LoopHead new_session_manager)))"
    by (rule reachable.step) (rule step.call, simp add: session_enter_def new_session_manager_def)
  then show "reachable sample_manager"
    unfolding sample_manager_def by (rule reachable.step) (rule step.enter, simp)
  show "mg_phase sample_manager 0 = LoggingIn" "mg_phase sample_manager 1 = Waiting 0"
    by (simp_all add: sample_manager_def session_enter_def new_session_manager_def)
qed



text \<open>
  No wake-up is lost: a goroutine that waits for a login can go on at once, or the login it waits
  for is still running and its end, with any result, closes the channel.
\<close>

theorem session_waiter_wakes:
  assumes "reachable m" and "mg_phase m t = Waiting c"
  shows "step m (set_phase t Woken m)
    \<or> (\<exists>u. mg_phase m u = LoggingIn \<and> (\<forall>result. c \<in> mg_closed (session_login_done result u m)))"
proof -
  have inv: "single_flight m" "channels_ok m" using reachable_invariants [OF assms(1)] by auto
  show ?thesis
  proof (cases "c \<in> mg_closed m")
    case True
    then show ?thesis using step.wake [OF assms(2)] by blast
  next
    case False
    then obtain u where u: "mg_login_end m = Some (c, u)"
      using inv(2) assms(2) unfolding channels_ok_def by blast
    then have "mg_phase m u = LoggingIn" using inv(1) by (auto simp: single_flight_def)
    moreover have "c \<in> mg_closed (session_login_done result u m)" for result
      using u by (auto simp: session_login_done_def Let_def split: sum.splits)
    ultimately show ?thesis by blast
  qed
qed

theorem session_waiter_wakes_witness:
  "step sample_manager (set_phase 1 Woken sample_manager)
   \<or> (\<exists>u. mg_phase sample_manager u = LoggingIn
        \<and> (\<forall>result. 0 \<in> mg_closed (session_login_done result u sample_manager)))"
  using session_waiter_wakes [OF sample_manager_reachable(1,3)] .



end
