(* ===== verification/Fincloud_Client.thy ===== *)
theory Fincloud_Client
  imports Loan_Model
begin

text \<open>
  The HTTP client of \<open>src/internal/fincloud/client.go\<close> and the browser authenticator of
  \<open>authenticator.go\<close>. The client's session calls are taken one after the other: the concurrent
  behaviour of the session manager is the subject of \<open>Fincloud_Session\<close>.

  The network is a parameter: the \<open>n\<close>-th request has a reply. \<open>encoding/json\<close> is a parameter too: the
  fields \<open>responseMessage\<close> and the login read from a body, or \<^const>\<open>None\<close> when it does not decode.
\<close>

section \<open>Exchanges\<close>

text \<open>A reply carries the status, the result of reading the body and the result of closing it.\<close>

datatype http_reply = TransportFailed err | Reply int "err + string" "err option"

record json_codec =
  js_message :: "string \<Rightarrow> (string \<times> string \<times> string) option"
  js_login :: "string \<Rightarrow> (string \<times> string) option"
  js_lower :: "string \<Rightarrow> string"

text \<open>\<open>readBounded\<close>: a body longer than the limit is an error.\<close>

definition read_bounded :: "err + string \<Rightarrow> int \<Rightarrow> err + string" where
  "read_bounded body limit =
     (if limit \<le> 0 then Inl []
      else case body of Inl e \<Rightarrow> Inl e
           | Inr b \<Rightarrow> if int (length b) > limit then Inl [] else Inr b)"

definition default_json_limit :: int where
  "default_json_limit = 8 * 2 ^ 20"

definition default_report_limit :: int where
  "default_report_limit = 100 * 2 ^ 20"

section \<open>Classification of responses\<close>

text \<open>The decoder gives the status, the description and \<open>error.system\<close>.\<close>

definition response_message :: "json_codec \<Rightarrow> string \<Rightarrow> string \<times> string" where
  "response_message js body =
     (case js_message js (trim_space body) of
        None \<Rightarrow> ('''', '''')
      | Some (status, description, system) \<Rightarrow> (trim_space (description @ '' '' @ system), status))"

definition is_authentication_response :: "json_codec \<Rightarrow> string \<Rightarrow> bool" where
  "is_authentication_response js body =
     (case response_message js body of (message0, status) \<Rightarrow>
        if status = ''ok'' then False
        else let message = to_lower (js_lower js) message0 in
          contains message ''not logged'' \<or> contains message ''not login''
          \<or> contains message ''login required'' \<or> contains message ''authentication required''
          \<or> contains message ''unauthorized''
          \<or> (contains message ''session''
              \<and> (contains message ''expired'' \<or> contains message ''invalid''
                 \<or> contains message ''timeout'' \<or> contains message ''not found'')))"

definition is_credential_response :: "json_codec \<Rightarrow> string \<Rightarrow> bool" where
  "is_credential_response js body =
     (let message = to_lower (js_lower js) (fst (response_message js body));
          credential = contains message ''password'' \<or> contains message ''username''
            \<or> contains message ''credential'' \<or> contains message ''login'';
          rejected = contains message ''invalid'' \<or> contains message ''wrong''
            \<or> contains message ''incorrect'' \<or> contains message ''reject''
      in credential \<and> rejected)"

text \<open>
  \<open>strings.EqualFold\<close> with an ASCII text: besides letter case it identifies the letters k and s with
  the Kelvin sign (U+212A) and the long s (U+017F), which the text \<open>Data not found\<close> does not contain.
\<close>

definition equal_fold_ascii :: "string \<Rightarrow> string \<Rightarrow> bool" where
  "equal_fold_ascii s t \<longleftrightarrow> map ascii_lower s = map ascii_lower t"

definition is_not_found_response :: "json_codec \<Rightarrow> string \<Rightarrow> bool" where
  "is_not_found_response js body =
     (case response_message js body of (message, status) \<Rightarrow>
        status \<noteq> ''ok'' \<and> equal_fold_ascii (trim_space message) ''Data not found'')"

section \<open>Login\<close>

text \<open>\<open>Client.login\<close> on the reply to its request.\<close>

definition client_login :: "json_codec \<Rightarrow> http_reply \<Rightarrow> string res" where
  "client_login js reply =
     (case reply of
        TransportFailed e \<Rightarrow> Inl (ErrFincloudUnavailable # e)
      | Reply status raw _ \<Rightarrow>
          (case read_bounded raw default_json_limit of
             Inl e \<Rightarrow> Inl (ErrFincloudUnavailable # e)
           | Inr body \<Rightarrow>
               if status \<ge> 500 then Inl [ErrFincloudUnavailable]
               else if status = 401 \<or> status = 403 \<or> status = 400 then Inl [ErrFincloudCredentials]
               else if status \<noteq> 200 then Inl [ErrFincloudUnavailable]
               else (case js_login js body of
                       None \<Rightarrow> Inl [ErrFincloudUnavailable]
                     | Some (st, session_id) \<Rightarrow>
                         if st \<noteq> ''ok'' then
                           (if is_credential_response js body then Inl [ErrFincloudCredentials]
                            else Inl [ErrFincloudUnavailable])
                         else if trim_space session_id = '''' then Inl [ErrFincloudUnavailable]
                         else Inr (trim_space session_id))))"

section \<open>Requests with a session\<close>

text \<open>
  The state of the client: the manager's session and retired session, and how many logins, logouts
  and data requests were sent. The network gives the reply to each of them by its number.
\<close>

record client_state =
  cl_session :: string
  cl_retired :: string
  cl_logins :: nat
  cl_requests :: nat
  cl_logouts :: "string list"

text \<open>The requests the package builds: path and parameters.\<close>

datatype fin_request =
    LoanInquiry string
  | AlternateSearch string
  | CifInquiry string
  | MaintenanceReport string string
  | NamedReport string "string list"

record network =
  nw_login :: "nat \<Rightarrow> http_reply"
  nw_request :: "nat \<Rightarrow> string \<Rightarrow> fin_request \<Rightarrow> http_reply"

text \<open>\<open>SessionManager.Session\<close> without contention.\<close>

definition sessions_session :: "json_codec \<Rightarrow> network \<Rightarrow> client_state \<Rightarrow> string res \<times> client_state" where
  "sessions_session js nw c =
     (if cl_session c \<noteq> '''' then (Inr (cl_session c), c)
      else
        let c1 = c\<lparr>cl_logins := cl_logins c + 1\<rparr> in
        case client_login js (nw_login nw (cl_logins c)) of
          Inl e \<Rightarrow> (Inl e, c1)
        | Inr s \<Rightarrow>
            if s = '''' then (Inl [], c1)
            else (Inr s, c1\<lparr>cl_session := s, cl_retired := '''',
                    cl_logouts := (if cl_retired c \<noteq> '''' \<and> cl_retired c \<noteq> s
                                   then cl_logouts c @ [cl_retired c] else cl_logouts c)\<rparr>))"

definition sessions_invalidate :: "string \<Rightarrow> client_state \<Rightarrow> client_state" where
  "sessions_invalidate s c =
     (if s \<noteq> '''' \<and> cl_session c = s then c\<lparr>cl_retired := s, cl_session := ''''\<rparr> else c)"

text \<open>One pass of the loop of \<open>do\<close>: a result, or \<^const>\<open>None\<close> to try again.\<close>

definition client_attempt ::
  "json_codec \<Rightarrow> network \<Rightarrow> int \<Rightarrow> fin_request \<Rightarrow> bool \<Rightarrow> client_state \<Rightarrow> string res option \<times> client_state" where
  "client_attempt js nw limit req first c =
     (case sessions_session js nw c of
        (Inl e, c1) \<Rightarrow> (Some (Inl e), c1)
      | (Inr session, c1) \<Rightarrow>
          let c2 = c1\<lparr>cl_requests := cl_requests c1 + 1\<rparr> in
          (case nw_request nw (cl_requests c1) session req of
             TransportFailed e \<Rightarrow> (Some (Inl (ErrFincloudUnavailable # e)), c2)
           | Reply status raw closing \<Rightarrow>
               (case read_bounded raw limit of
                  Inl e \<Rightarrow> (Some (Inl (ErrFincloudUnavailable # e)), c2)
                | Inr body \<Rightarrow>
                    (case closing of
                       Some e \<Rightarrow> (Some (Inl (ErrFincloudUnavailable # e)), c2)
                     | None \<Rightarrow>
                         if status = 401 \<or> status = 403 \<or> is_authentication_response js body then
                           (if first then None else Some (Inl [ErrFincloudSession]), sessions_invalidate session c2)
                         else if status = 404 \<or> is_not_found_response js body then (Some (Inl [ErrNotFound]), c2)
                         else if status < 200 \<or> status \<ge> 300 then (Some (Inl [ErrFincloudUnavailable]), c2)
                         else (Some (Inr body), c2)))))"

text \<open>The loop of \<open>do\<close>, with the number of attempts left.\<close>

fun client_loop ::
  "json_codec \<Rightarrow> network \<Rightarrow> int \<Rightarrow> fin_request \<Rightarrow> nat \<Rightarrow> client_state \<Rightarrow> string res \<times> client_state"
where
  "client_loop js nw limit req 0 c = (Inl [ErrFincloudSession], c)"
| "client_loop js nw limit req (Suc n) c =
     (case client_attempt js nw limit req (n = 1) c of
        (Some r, c') \<Rightarrow> (r, c')
      | (None, c') \<Rightarrow> client_loop js nw limit req n c')"

definition client_do :: "json_codec \<Rightarrow> network \<Rightarrow> int \<Rightarrow> fin_request \<Rightarrow> client_state \<Rightarrow> string res \<times> client_state" where
  "client_do js nw limit req c = client_loop js nw limit req 2 c"

section \<open>The browser authenticator\<close>

datatype auth_outcome = Authenticated | InvalidCredentials | AuthUnavailable

text \<open>
  \<open>Authenticator.Authenticate\<close> on the reply to its request, with the session it then logs out (the
  result of that logout is only logged).
\<close>

definition authenticate :: "json_codec \<Rightarrow> http_reply \<Rightarrow> auth_outcome \<times> string option" where
  "authenticate js reply =
     (case reply of
        TransportFailed e \<Rightarrow> (AuthUnavailable, None)
      | Reply status raw _ \<Rightarrow>
          (case read_bounded raw default_json_limit of
             Inl e \<Rightarrow> (AuthUnavailable, None)
           | Inr body \<Rightarrow>
               if status = 400 \<or> status = 401 \<or> status = 403 then (InvalidCredentials, None)
               else if status < 200 \<or> status \<ge> 300 then (AuthUnavailable, None)
               else (case js_login js body of
                       None \<Rightarrow> (AuthUnavailable, None)
                     | Some (st, session_id) \<Rightarrow>
                         if st \<noteq> ''ok'' then (InvalidCredentials, None)
                         else if trim_space session_id = '''' then (AuthUnavailable, None)
                         else (Authenticated, Some (trim_space session_id)))))"

text \<open>\<open>logout\<close> of either client: only a 2xx status counts as success.\<close>

definition logout_ok :: "http_reply \<Rightarrow> bool" where
  "logout_ok reply = (case reply of TransportFailed e \<Rightarrow> False | Reply status _ _ \<Rightarrow> \<not> (status < 200 \<or> status \<ge> 300))"

section \<open>Facts\<close>

lemma sessions_session_Inr:
  "sessions_session js nw c = (Inr s, c') \<Longrightarrow>
     s \<noteq> '''' \<and> cl_session c' = s \<and> cl_requests c' = cl_requests c \<and> cl_logins c' \<le> cl_logins c + 1
     \<and> (cl_session c \<noteq> '''' \<longrightarrow> c' = c)"
  by (auto simp: sessions_session_def Let_def split: if_split_asm sum.split_asm)

lemma client_login_session: "client_login js reply = Inr s \<Longrightarrow> s \<noteq> ''''"
  by (auto simp: client_login_def Let_def split: http_reply.split_asm sum.split_asm option.split_asm if_split_asm)

lemma client_login_error:
  "client_login js reply = Inl e \<Longrightarrow> errors_is e ErrFincloudUnavailable \<or> errors_is e ErrFincloudCredentials"
  by (auto simp: client_login_def errors_is_def Let_def
      split: http_reply.split_asm sum.split_asm option.split_asm if_split_asm)

lemma sessions_session_Inl:
  "sessions_session js nw c = (Inl e, c') \<Longrightarrow>
     (errors_is e ErrFincloudUnavailable \<or> errors_is e ErrFincloudCredentials)
     \<and> cl_session c' = cl_session c \<and> cl_requests c' = cl_requests c \<and> cl_logins c' = cl_logins c + 1"
  by (auto simp: sessions_session_def Let_def split: if_split_asm sum.split_asm
      dest: client_login_error client_login_session)

definition gateway_errors :: "sentinel set" where
  "gateway_errors = {ErrFincloudUnavailable, ErrFincloudCredentials, ErrFincloudSession, ErrNotFound}"

text \<open>What one attempt does to the state, and which errors it can give.\<close>

lemma client_attempt_counts:
  assumes "client_attempt js nw limit req first c = (r, c')"
  shows "cl_requests c' \<le> cl_requests c + 1" and "cl_logins c' \<le> cl_logins c + 1"
    and "r = Some (Inl e) \<Longrightarrow> \<exists>s \<in> gateway_errors. errors_is e s"
    and "r = None \<Longrightarrow> first \<and> cl_session c' = '''' \<and> cl_requests c' = cl_requests c + 1"
    and "r = Some (Inr body) \<Longrightarrow> cl_requests c' = cl_requests c + 1 \<and> cl_session c' \<noteq> ''''
      \<and> int (length body) \<le> limit
      \<and> (\<exists>status. 200 \<le> status \<and> status < 300 \<and> \<not> is_authentication_response js body
           \<and> \<not> is_not_found_response js body
           \<and> nw_request nw (cl_requests c) (cl_session c') req = Reply status (Inr body) None)"
proof -
  obtain sr c1 where s: "sessions_session js nw c = (sr, c1)" by (cases "sessions_session js nw c")
  have "cl_requests c' \<le> cl_requests c + 1 \<and> cl_logins c' \<le> cl_logins c + 1
    \<and> (r = Some (Inl e) \<longrightarrow> (\<exists>s \<in> gateway_errors. errors_is e s))
    \<and> (r = None \<longrightarrow> first \<and> cl_session c' = '''' \<and> cl_requests c' = cl_requests c + 1)
    \<and> (r = Some (Inr body) \<longrightarrow> cl_requests c' = cl_requests c + 1 \<and> cl_session c' \<noteq> ''''
      \<and> int (length body) \<le> limit
      \<and> (\<exists>status. 200 \<le> status \<and> status < 300 \<and> \<not> is_authentication_response js body
           \<and> \<not> is_not_found_response js body
           \<and> nw_request nw (cl_requests c) (cl_session c') req = Reply status (Inr body) None))"
  proof (cases sr)
    case (Inl e0)
    then show ?thesis using assms s sessions_session_Inl [of js nw c e0 c1]
      by (auto simp: client_attempt_def gateway_errors_def)
  next
    case (Inr session)
    then have f: "session \<noteq> ''''" "cl_session c1 = session" "cl_requests c1 = cl_requests c" "cl_logins c1 \<le> cl_logins c + 1"
      using s sessions_session_Inr [of js nw c session c1] by auto
    show ?thesis
      using assms f unfolding client_attempt_def s Inr
      by (auto simp: Let_def gateway_errors_def errors_is_def read_bounded_def sessions_invalidate_def
          split: http_reply.split_asm sum.split_asm option.split_asm if_split_asm)
  qed
  then show "cl_requests c' \<le> cl_requests c + 1" and "cl_logins c' \<le> cl_logins c + 1"
    and "r = Some (Inl e) \<Longrightarrow> \<exists>s \<in> gateway_errors. errors_is e s"
    and "r = None \<Longrightarrow> first \<and> cl_session c' = '''' \<and> cl_requests c' = cl_requests c + 1"
    and "r = Some (Inr body) \<Longrightarrow> cl_requests c' = cl_requests c + 1 \<and> cl_session c' \<noteq> ''''
      \<and> int (length body) \<le> limit
      \<and> (\<exists>status. 200 \<le> status \<and> status < 300 \<and> \<not> is_authentication_response js body
           \<and> \<not> is_not_found_response js body
           \<and> nw_request nw (cl_requests c) (cl_session c') req = Reply status (Inr body) None)" by blast+
qed

lemma client_do_unfold:
  "client_do js nw limit req c =
     (case client_attempt js nw limit req True c of
        (Some r, c') \<Rightarrow> (r, c')
      | (None, c') \<Rightarrow>
          (case client_attempt js nw limit req False c' of
             (Some r, c'') \<Rightarrow> (r, c'') | (None, c'') \<Rightarrow> (Inl [ErrFincloudSession], c'')))"
  by (simp add: client_do_def numeral_2_eq_2 split: prod.splits option.splits)

lemma client_do_facts:
  assumes "client_do js nw limit req c = (r, c')"
  shows "cl_requests c' \<le> cl_requests c + 2" and "cl_logins c' \<le> cl_logins c + 2"
    and "r = Inl e \<Longrightarrow> \<exists>s \<in> gateway_errors. errors_is e s"
    and "r = Inr body \<Longrightarrow> int (length body) \<le> limit \<and> \<not> is_authentication_response js body
      \<and> \<not> is_not_found_response js body \<and> cl_session c' \<noteq> ''''
      \<and> (\<exists>n status. n < cl_requests c' \<and> 200 \<le> status \<and> status < 300
           \<and> nw_request nw n (cl_session c') req = Reply status (Inr body) None)"
proof -
  obtain r1 c1 where a1: "client_attempt js nw limit req True c = (r1, c1)"
    by (cases "client_attempt js nw limit req True c")
  obtain r2 c2 where a2: "client_attempt js nw limit req False c1 = (r2, c2)"
    by (cases "client_attempt js nw limit req False c1")
  note f1 = client_attempt_counts [OF a1] and f2 = client_attempt_counts [OF a2]
  consider x where "r1 = Some x" "r = x" "c' = c1" | x where "r1 = None" "r2 = Some x" "r = x" "c' = c2"
    using assms a1 a2 f2(4) by (cases r1; cases r2) (auto simp: client_do_unfold)
  then have "cl_requests c' \<le> cl_requests c + 2 \<and> cl_logins c' \<le> cl_logins c + 2
    \<and> (r = Inl e \<longrightarrow> (\<exists>s \<in> gateway_errors. errors_is e s))
    \<and> (r = Inr body \<longrightarrow> int (length body) \<le> limit \<and> \<not> is_authentication_response js body
      \<and> \<not> is_not_found_response js body \<and> cl_session c' \<noteq> ''''
      \<and> (\<exists>n status. n < cl_requests c' \<and> 200 \<le> status \<and> status < 300
           \<and> nw_request nw n (cl_session c') req = Reply status (Inr body) None))"
  proof cases
    case 1
    then show ?thesis using f1(1,2) f1(3) [of e] f1(5) [of body] by fastforce
  next
    case 2
    then show ?thesis using f1(1,2) f2(1,2) f2(3) [of e] f2(5) [of body] by fastforce
  qed
  then show "cl_requests c' \<le> cl_requests c + 2" and "cl_logins c' \<le> cl_logins c + 2"
    and "r = Inl e \<Longrightarrow> \<exists>s \<in> gateway_errors. errors_is e s"
    and "r = Inr body \<Longrightarrow> int (length body) \<le> limit \<and> \<not> is_authentication_response js body
      \<and> \<not> is_not_found_response js body \<and> cl_session c' \<noteq> ''''
      \<and> (\<exists>n status. n < cl_requests c' \<and> 200 \<le> status \<and> status < 300
           \<and> nw_request nw n (cl_session c') req = Reply status (Inr body) None)" by blast+
qed

end
