(* ===== verification/Fincloud_Loan.thy ===== *)
theory Fincloud_Loan
  imports Fincloud_Client
begin

text \<open>
  The loan part of the Fincloud client, \<open>src/internal/fincloud/loan.go\<close>: decimal normalisation, the
  mapping of the loan document to \<open>ContractData\<close>, and the resolution of primary and alternate
  account numbers. \<open>encoding/json\<close> is a parameter: the record \<open>loan_codec\<close> decodes the bodies of the
  loan inquiry and of the alternate search. A JSON field of type \<open>scalar\<close> is its text and whether it
  was present.
\<close>

section \<open>Documents\<close>

record scalar_value =
  sc_value :: string
  sc_present :: bool

record schedule_dto =
  sd_date :: string
  sd_installment_no :: int
  sd_payment_status :: string

record repayment_dto =
  rd_date :: string
  rd_principal :: scalar_value
  rd_interest :: scalar_value
  rd_penalty :: scalar_value
  rd_early_penalty :: scalar_value
  rd_dwp :: scalar_value
  rd_total :: scalar_value
  rd_journal_number :: string

record loan_dto =
  ld_id :: string
  ld_no_alt :: string
  ld_cif :: string
  ld_cif_number :: string
  ld_customer_name :: string
  ld_branch :: string
  ld_product :: string
  ld_plafond_limit :: scalar_value
  ld_tenor :: scalar_value
  ld_flat_rate :: scalar_value
  ld_reference_rate :: scalar_value
  ld_collectability :: int
  ld_principal_due :: scalar_value
  ld_interest_due :: scalar_value
  ld_penalty_due :: scalar_value
  ld_status :: string
  ld_close_date_legacy :: string
  ld_close_date_object :: string
  ld_schedule :: "schedule_dto list"
  ld_repayments :: "repayment_dto list"

text \<open>Decoded envelopes: the status and the result, \<^const>\<open>None\<close> for a body that does not decode.\<close>

record loan_codec =
  lc_json :: json_codec
  lc_loan :: "string \<Rightarrow> (string \<times> loan_dto) option"
  lc_search :: "string \<Rightarrow> (string \<times> (string \<times> string) list) option"

text \<open>\<open>scalar.UnmarshalJSON\<close> on a JSON value: null, a string, a number (its text) or anything else.\<close>

datatype json_scalar = JNull | JString string | JNumber string | JOther

fun scalar_unmarshal :: "json_scalar \<Rightarrow> scalar_value res" where
  "scalar_unmarshal JNull = Inr \<lparr>sc_value = '''', sc_present = True\<rparr>"
| "scalar_unmarshal (JString s) = Inr \<lparr>sc_value = s, sc_present = True\<rparr>"
| "scalar_unmarshal (JNumber n) = Inr \<lparr>sc_value = n, sc_present = True\<rparr>"
| "scalar_unmarshal JOther = Inl []"

section \<open>Decimal normalisation\<close>

text \<open>\<open>strings.LastIndex\<close> of a byte, -1 when absent; \<open>strings.Count\<close> of a byte is \<^const>\<open>count_list\<close>.\<close>

definition last_index :: "char \<Rightarrow> string \<Rightarrow> int" where
  "last_index c s = (if c \<in> set s then int (length s) - 1 - int (length (takeWhile (\<lambda>x. x \<noteq> c) (rev s))) else -1)"

definition decimal_char :: "char \<Rightarrow> bool" where
  "decimal_char c \<longleftrightarrow> is_digit c \<or> c = CHR '','' \<or> c = CHR ''.'' \<or> c = CHR ''-'' \<or> c = CHR '' ''"

definition drop_minus :: "string \<Rightarrow> string" where
  "drop_minus s = (case s of [] \<Rightarrow> [] | c # cs \<Rightarrow> if c = CHR ''-'' then cs else s)"

text \<open>The separator rules on a checked text.\<close>

definition normalize_separators :: "string \<Rightarrow> string" where
  "normalize_separators v =
     (let comma = last_index (CHR '','') v; dot = last_index (CHR ''.'') v in
      if comma \<ge> 0 \<and> dot < 0 then replace_byte (CHR '','') (CHR ''.'') v
      else if comma \<ge> 0 \<and> dot \<ge> 0 \<and> comma > dot then
        replace_byte (CHR '','') (CHR ''.'') (remove_byte (CHR ''.'') v)
      else if comma \<ge> 0 \<and> dot \<ge> 0 then remove_byte (CHR '','') v
      else if count_list v (CHR ''.'') > 1 then
        (let parts = split_byte (CHR ''.'') v;
             first = drop_minus (hd parts);
             grouped = (1 \<le> length first \<and> length first \<le> 3
                        \<and> list_all (\<lambda>part. length part = 3) (tl parts))
         in if grouped then remove_byte (CHR ''.'') v
            else concat (butlast parts) @ ''.'' @ last parts)
      else if dot \<ge> 0 then
        (let parts = split_byte (CHR ''.'') v in
         if length parts = 2 \<and> length (parts ! 0) \<le> 3 \<and> length (parts ! 1) = 3
         then parts ! 0 @ parts ! 1 else v)
      else v)"

definition normalize_decimal :: "string \<Rightarrow> string res" where
  "normalize_decimal raw =
     (let v = trim_space (remove_byte (CHR ''%'') raw) in
      if v = '''' \<or> v = ''-'' then Inl []
      else if \<not> list_all decimal_char v then Inl []
      else
        let w = remove_byte (CHR '' '') v in
        if count_list w (CHR ''-'') > 1 \<or> (CHR ''-'' \<in> set w \<and> hd w \<noteq> CHR ''-'') then Inl []
        else Inr (normalize_separators w))"

definition fincloud_money :: "string \<Rightarrow> money res" where
  "fincloud_money raw =
     (case normalize_decimal raw of
        Inl e \<Rightarrow> Inl (ErrFincloudUnavailable # e)
      | Inr normalized \<Rightarrow>
          (case parse_money normalized of Inl e \<Rightarrow> Inl (ErrFincloudUnavailable # e) | Inr m \<Rightarrow> Inr m))"

definition required_money :: "scalar_value \<Rightarrow> money res" where
  "required_money v =
     (if \<not> sc_present v \<or> trim_space (sc_value v) = '''' then Inl [ErrFincloudUnavailable]
      else fincloud_money (sc_value v))"

definition optional_money :: "scalar_value \<Rightarrow> money res" where
  "optional_money v =
     (if \<not> sc_present v \<or> trim_space (sc_value v) = '''' then Inr 0 else fincloud_money (sc_value v))"

definition fincloud_date :: "string \<Rightarrow> location \<Rightarrow> date res" where
  "fincloud_date raw0 loc =
     (let raw = trim_space raw0 in parse_date (if 10 \<le> length raw then take 10 raw else raw) loc)"

section \<open>Mapping the loan document\<close>

text \<open>\<open>tenorPattern.FindString\<close>: the first run of digits.\<close>

definition find_digits :: "string \<Rightarrow> string" where
  "find_digits s = takeWhile is_digit (dropWhile (\<lambda>c. \<not> is_digit c) s)"

definition map_tenor :: "scalar_value \<Rightarrow> int res" where
  "map_tenor v =
     (case atoi (find_digits (trim_space (sc_value v))) of
        None \<Rightarrow> Inl [ErrFincloudUnavailable]
      | Some tenor \<Rightarrow> if \<not> sc_present v \<or> tenor \<le> 0 then Inl [ErrFincloudUnavailable] else Inr tenor)"

text \<open>The closing date from the object form and the legacy form.\<close>

definition map_close_date :: "string \<Rightarrow> string \<Rightarrow> location \<Rightarrow> date res" where
  "map_close_date object_raw legacy_raw loc =
     (let object_date = trim_space object_raw; legacy_date = trim_space legacy_raw in
      if object_date \<noteq> '''' then
        (case fincloud_date object_date loc of
           Inl e \<Rightarrow> Inl (ErrFincloudUnavailable # e)
         | Inr close \<Rightarrow>
             if legacy_date = '''' then Inr close
             else (case fincloud_date legacy_date loc of
                     Inl _ \<Rightarrow> Inr close
                   | Inr legacy \<Rightarrow>
                       if \<not> date_equal legacy close then Inl [ErrFincloudUnavailable] else Inr close))
      else if legacy_date \<noteq> '''' then
        (case fincloud_date legacy_date loc of
           Inl e \<Rightarrow> Inl (ErrFincloudUnavailable # e) | Inr close \<Rightarrow> Inr close)
      else Inr zero_date)"

definition map_repayment :: "location \<Rightarrow> nat \<Rightarrow> repayment_dto \<Rightarrow> repayment res" where
  "map_repayment loc index row =
     rbind (case fincloud_date (rd_date row) loc of Inl e \<Rightarrow> Inl (ErrFincloudUnavailable # e) | Inr d \<Rightarrow> Inr d)
       (\<lambda>d. rbind (required_money (rd_principal row)) (\<lambda>principal0.
        rbind (required_money (rd_interest row)) (\<lambda>interest.
        rbind (required_money (rd_total row)) (\<lambda>total.
        rbind (optional_money (rd_penalty row)) (\<lambda>penalty.
        rbind (optional_money (rd_early_penalty row)) (\<lambda>early.
        rbind (optional_money (rd_dwp row)) (\<lambda>dwp.
          Inr \<lparr>rp_date = d, rp_principal_component = principal0, rp_interest_component = interest,
               rp_penalty_component = penalty, rp_early_penalty_component = early,
               rp_dwp_component = dwp, rp_total_payment = total,
               rp_journal_number = trim_space (rd_journal_number row), rp_source_order = int index\<rparr>)))))))"

fun map_repayments :: "location \<Rightarrow> nat \<Rightarrow> repayment_dto list \<Rightarrow> repayment list res" where
  "map_repayments loc index [] = Inr []"
| "map_repayments loc index (row # rows) =
     rbind (map_repayment loc index row) (\<lambda>p.
       rbind (map_repayments loc (index + 1) rows) (\<lambda>ps. Inr (p # ps)))"

definition map_schedule_row :: "schedule_dto \<Rightarrow> contractual_installment_evidence" where
  "map_schedule_row row =
     \<lparr>ie_number = sd_installment_no row, ie_raw_due_date = sd_date row,
      ie_raw_payment_status = sd_payment_status row\<rparr>"

definition map_loan :: "loan_dto \<Rightarrow> location \<Rightarrow> contract_data res" where
  "map_loan source loc =
     (if loc = None then Inl []
      else
        rbind (required_money (ld_plafond_limit source)) (\<lambda>principal0.
        rbind (required_money (ld_flat_rate source)) (\<lambda>flat_rate.
        rbind (optional_money (ld_reference_rate source)) (\<lambda>reference_rate.
        rbind (optional_money (ld_principal_due source)) (\<lambda>principal_due.
        rbind (optional_money (ld_interest_due source)) (\<lambda>interest_due.
        rbind (optional_money (ld_penalty_due source)) (\<lambda>penalty_due.
        rbind (map_tenor (ld_tenor source)) (\<lambda>tenor.
        rbind (map_close_date (ld_close_date_object source) (ld_close_date_legacy source) loc) (\<lambda>close.
        rbind (map_repayments loc 0 (ld_repayments source)) (\<lambda>repayments.
          Inr \<lparr>cd_primary_account = trim_space (ld_id source),
               cd_alternate_account = trim_space (ld_no_alt source),
               cd_cif = (if trim_space (ld_cif source) = '''' then trim_space (ld_cif_number source)
                         else trim_space (ld_cif source)),
               cd_customer_name = trim_space (ld_customer_name source),
               cd_branch = trim_space (ld_branch source), cd_product = trim_space (ld_product source),
               cd_plafond_limit = principal0, cd_tenor_months = tenor,
               cd_flat_rate_percent = flat_rate, cd_reference_rate_percent = reference_rate,
               cd_current_collectability = ld_collectability source,
               cd_current_principal_due = principal_due, cd_current_interest_due = interest_due,
               cd_penalty_due = penalty_due, cd_status = trim_space (ld_status source),
               cd_close_date = close, cd_raw_schedule_count = int (length (ld_schedule source)),
               cd_contract_schedule_evidence = Some (map map_schedule_row (ld_schedule source)),
               cd_contract_schedule = [], cd_repayments = repayments\<rparr>))))))))))"

section \<open>Resolving account numbers\<close>

definition get_loan ::
  "loan_codec \<Rightarrow> network \<Rightarrow> string \<Rightarrow> location \<Rightarrow> client_state \<Rightarrow> contract_data res \<times> client_state" where
  "get_loan lc nw account0 loc c =
     (let account = trim_space account0 in
      if account = '''' then (Inl [ErrInvalidInput], c)
      else case client_do (lc_json lc) nw default_json_limit (LoanInquiry account) c of
        (Inl e, c') \<Rightarrow> (Inl e, c')
      | (Inr body, c') \<Rightarrow>
          (case lc_loan lc body of
             None \<Rightarrow> (Inl [ErrFincloudUnavailable], c')
           | Some (status, source) \<Rightarrow>
               if status \<noteq> ''ok'' then (Inl [ErrFincloudUnavailable], c')
               else if trim_space (ld_id source) = '''' then (Inl [ErrNotFound], c')
               else (map_loan source loc, c')))"

text \<open>The set of primary accounts the search names, as a list without duplicates.\<close>

definition alternate_candidates :: "string \<Rightarrow> (string \<times> string) list \<Rightarrow> string list" where
  "alternate_candidates alternate rows =
     remdups (map (\<lambda>r. trim_space (fst r))
       (filter (\<lambda>r. trim_space (fst r) \<noteq> ''''
                 \<and> (trim_space (snd r) = '''' \<or> trim_space (snd r) = alternate)) rows))"

definition resolve_alternate ::
  "loan_codec \<Rightarrow> network \<Rightarrow> string \<Rightarrow> client_state \<Rightarrow> string res \<times> client_state" where
  "resolve_alternate lc nw alternate c =
     (case client_do (lc_json lc) nw default_json_limit (AlternateSearch alternate) c of
        (Inl e, c') \<Rightarrow> (Inl e, c')
      | (Inr body, c') \<Rightarrow>
          (case lc_search lc body of
             None \<Rightarrow> (Inl [ErrFincloudUnavailable], c')
           | Some (status, rows) \<Rightarrow>
               if status \<noteq> ''ok'' then (Inl [ErrFincloudUnavailable], c')
               else (case alternate_candidates alternate rows of
                       [] \<Rightarrow> (Inl [ErrNotFound], c')
                     | [primary] \<Rightarrow> (Inr primary, c')
                     | _ \<Rightarrow> (Inl [ErrAmbiguousAccountResolution], c'))))"

definition resolve_loan ::
  "loan_codec \<Rightarrow> network \<Rightarrow> string \<Rightarrow> location \<Rightarrow> client_state \<Rightarrow> contract_data res \<times> client_state" where
  "resolve_loan lc nw account0 loc c =
     (let account = trim_space account0 in
      if account = '''' then (Inl [ErrInvalidInput], c)
      else case get_loan lc nw account loc c of
        (Inr detail, c1) \<Rightarrow> (Inr detail, c1)
      | (Inl e, c1) \<Rightarrow>
          if \<not> errors_is e ErrNotFound then (Inl e, c1)
          else (case resolve_alternate lc nw account c1 of
                  (Inl e2, c2) \<Rightarrow> (Inl e2, c2)
                | (Inr primary, c2) \<Rightarrow>
                    (case get_loan lc nw primary loc c2 of
                       (Inl e3, c3) \<Rightarrow> (Inl e3, c3)
                     | (Inr detail, c3) \<Rightarrow>
                         if cd_primary_account detail \<noteq> primary then (Inl [ErrInvariant], c3)
                         else (Inr detail, c3))))"

section \<open>Reports\<close>

definition utf8_bom :: string where
  "utf8_bom = [CHR 0xEF, CHR 0xBB, CHR 0xBF]"

text \<open>\<open>bytes.TrimPrefix\<close> of the byte order mark.\<close>

definition strip_bom :: "string \<Rightarrow> string" where
  "strip_bom body = (if prefix utf8_bom body then drop 3 body else body)"

definition strip_bom_result :: "string res \<times> client_state \<Rightarrow> string res \<times> client_state" where
  "strip_bom_result rc = (case rc of (Inl e, c) \<Rightarrow> (Inl e, c) | (Inr body, c) \<Rightarrow> (Inr (strip_bom body), c))"

definition download_maintenance_report ::
  "loan_codec \<Rightarrow> network \<Rightarrow> int \<Rightarrow> string \<Rightarrow> string \<Rightarrow> client_state \<Rightarrow> string res \<times> client_state" where
  "download_maintenance_report lc nw max_size file path c =
     strip_bom_result (client_do (lc_json lc) nw max_size (MaintenanceReport file path) c)"

definition download_named_report ::
  "loan_codec \<Rightarrow> network \<Rightarrow> int \<Rightarrow> string \<Rightarrow> string list \<Rightarrow> client_state \<Rightarrow> string res \<times> client_state" where
  "download_named_report lc nw max_size name params c =
     strip_bom_result (client_do (lc_json lc) nw max_size (NamedReport name params) c)"

text \<open>\<open>GetCIF\<close>; the decoder gives the status and the result object, if it is not null.\<close>

definition get_cif ::
  "loan_codec \<Rightarrow> (string \<Rightarrow> (string \<times> 'd option) option) \<Rightarrow> network \<Rightarrow> string \<Rightarrow> client_state
   \<Rightarrow> 'd res \<times> client_state" where
  "get_cif lc dec nw cif c =
     (case client_do (lc_json lc) nw default_json_limit (CifInquiry (trim_space cif)) c of
        (Inl e, c') \<Rightarrow> (Inl e, c')
      | (Inr body, c') \<Rightarrow>
          (case dec body of
             Some (status, Some result) \<Rightarrow>
               if status \<noteq> ''ok'' then (Inl [ErrFincloudUnavailable], c') else (Inr result, c')
           | _ \<Rightarrow> (Inl [ErrFincloudUnavailable], c')))"

section \<open>Decimal texts\<close>

lemma digits_decimal_chars: "list_all is_digit s \<Longrightarrow> list_all decimal_char s"
  by (auto simp: list_all_iff decimal_char_def)

lemma punct_not_digit [simp]:
  "\<not> is_digit (CHR ''.'')" "\<not> is_digit (CHR '','')" "\<not> is_digit (CHR ''-'')" "\<not> is_digit (CHR '' '')"
  "\<not> is_digit (CHR ''%'')"
  by (simp_all add: is_digit_def byte_def)

lemma digits_absent:
  assumes "list_all is_digit s"
  shows "CHR ''.'' \<notin> set s" "CHR '','' \<notin> set s" "CHR ''-'' \<notin> set s" "CHR '' '' \<notin> set s" "CHR ''%'' \<notin> set s"
  using assms punct_not_digit by (auto simp: list_all_iff)

lemma remove_byte_absent: "c \<notin> set s \<Longrightarrow> remove_byte c s = s"
  by (auto simp: remove_byte_def filter_id_conv)

lemma remove_byte_append [simp]: "remove_byte c (s @ t) = remove_byte c s @ remove_byte c t"
  by (simp add: remove_byte_def)

lemma remove_byte_Cons [simp]: "remove_byte c (x # s) = (if x = c then remove_byte c s else x # remove_byte c s)"
  by (simp add: remove_byte_def)

lemma replace_byte_absent: "c \<notin> set s \<Longrightarrow> replace_byte c d s = s"
  by (auto simp: replace_byte_def intro: map_idI)

lemma replace_append: "replace_byte c d (s @ x # t) = replace_byte c d s @ (if x = c then d else x) # replace_byte c d t"
  by (simp add: replace_byte_def)

lemma replace_remove_absent: "c \<notin> set s \<Longrightarrow> replace_byte c d (remove_byte x s) = remove_byte x s"
  by (rule replace_byte_absent) (simp add: remove_byte_def)

lemma last_index_absent: "c \<notin> set s \<Longrightarrow> last_index c s = -1"
  by (simp add: last_index_def)

lemma last_index_snoc:
  assumes "c \<notin> set t"
  shows "last_index c (s @ c # t) = int (length s)"
proof -
  have "takeWhile (\<lambda>x. x \<noteq> c) (rev t @ c # rev s) = rev t"
    using assms by (subst takeWhile_append2) auto
  then show ?thesis by (simp add: last_index_def)
qed

lemma last_index_less: "last_index c s < int (length s)"
  by (simp add: last_index_def)

lemma last_index_negative: "last_index c s < 0 \<longleftrightarrow> c \<notin> set s"
proof (cases "c \<in> set s")
  case True
  then obtain a b where "s = a @ c # b" "c \<notin> set b" by (metis split_list_last)
  then show ?thesis using last_index_snoc [of c b a] True by simp
qed (simp add: last_index_def)

lemma last_index_append: "c \<notin> set t \<Longrightarrow> c \<in> set s \<Longrightarrow> last_index c (s @ t) = last_index c s"
proof -
  assume t: "c \<notin> set t" and s: "c \<in> set s"
  then obtain a b where ab: "s = a @ c # b" "c \<notin> set b" by (metis split_list_last)
  then show ?thesis using last_index_snoc [of c "b @ t" a] last_index_snoc [of c b a] t by simp
qed

lemma count_list_absent: "c \<notin> set s \<Longrightarrow> count_list s c = 0"
  by (simp add: count_list_0_iff)

text \<open>A text of digits, dots and commas that starts and ends with a digit passes the checks.\<close>

lemma normalize_decimal_plain:
  assumes "v \<noteq> []" and "is_digit (hd v)" and "is_digit (last v)"
    and "list_all (\<lambda>c. is_digit c \<or> c = CHR ''.'' \<or> c = CHR '','') v"
  shows "normalize_decimal v = Inr (normalize_separators v)"
proof -
  have no: "CHR ''%'' \<notin> set v" "CHR '' '' \<notin> set v" "CHR ''-'' \<notin> set v"
    using assms(4) by (auto simp: list_all_iff is_digit_def byte_def)
  have "trimmed v"
    using assms(1-3) by (intro graphic_ends_trimmed) (auto simp: is_digit_def)
  moreover have "list_all decimal_char v"
    using assms(4) by (auto simp: list_all_iff decimal_char_def)
  moreover have "v \<noteq> ''-''" using assms(2) by auto
  ultimately show ?thesis
    using assms(1) no by (simp add: normalize_decimal_def Let_def remove_byte_absent trim_space_trimmed count_list_absent)
qed

lemma ends_digit: "list_all is_digit s \<Longrightarrow> s \<noteq> [] \<Longrightarrow> is_digit (hd s) \<and> is_digit (last s)"
  by (auto simp: list_all_iff)

text \<open>A single dot: a decimal point, except that three digits after at most three are a group.\<close>

lemma normalize_single_dot:
  assumes "list_all is_digit i" and "i \<noteq> []" and "list_all is_digit f" and "f \<noteq> []"
  shows "normalize_decimal (i @ CHR ''.'' # f) =
    Inr (if length i \<le> 3 \<and> length f = 3 then i @ f else i @ CHR ''.'' # f)"
proof -
  let ?v = "i @ CHR ''.'' # f"
  note ai = digits_absent [OF assms(1)] and af = digits_absent [OF assms(3)]
  have "normalize_decimal ?v = Inr (normalize_separators ?v)"
    using assms ends_digit [OF assms(1,2)] ends_digit [OF assms(3,4)]
    by (intro normalize_decimal_plain) (auto simp: list_all_iff)
  moreover have "last_index (CHR '','') ?v = -1" using ai af by (simp add: last_index_absent)
  moreover have "0 \<le> last_index (CHR ''.'') ?v" using last_index_snoc [OF af(1)] by simp
  moreover have "count_list ?v (CHR ''.'') = 1" using ai af by (simp add: count_list_absent)
  moreover have "split_byte (CHR ''.'') ?v = [i, f]"
    using ai af by (simp add: split_byte_append split_byte_absent)
  ultimately show ?thesis by (simp add: normalize_separators_def Let_def)
qed

text \<open>Dots before a comma are group separators, whatever their places.\<close>

lemma normalize_dots_comma:
  assumes "list_all (\<lambda>c. is_digit c \<or> c = CHR ''.'') g" and "g \<noteq> []" and "is_digit (hd g)"
    and "list_all is_digit f" and "f \<noteq> []"
  shows "normalize_decimal (g @ CHR '','' # f) = Inr (remove_byte (CHR ''.'') g @ CHR ''.'' # f)"
proof -
  let ?v = "g @ CHR '','' # f"
  note af = digits_absent [OF assms(4)]
  have cg: "CHR '','' \<notin> set g" using assms(1) by (auto simp: list_all_iff is_digit_def byte_def)
  have "normalize_decimal ?v = Inr (normalize_separators ?v)"
    using assms ends_digit [OF assms(4,5)]
    by (intro normalize_decimal_plain) (auto simp: list_all_iff)
  moreover have "last_index (CHR '','') ?v = int (length g)" using af by (simp add: last_index_snoc)
  moreover have "last_index (CHR ''.'') ?v < int (length g)"
  proof (cases "CHR ''.'' \<in> set g")
    case True
    then have "last_index (CHR ''.'') ?v = last_index (CHR ''.'') g"
      using af by (intro last_index_append) auto
    then show ?thesis using last_index_less by simp
  next
    case False
    then show ?thesis using af by (simp add: last_index_absent)
  qed
  moreover have "last_index (CHR ''.'') ?v < 0 \<longleftrightarrow> CHR ''.'' \<notin> set g"
    using af by (simp add: last_index_negative)
  ultimately show ?thesis
    using cg af
    by (cases "CHR ''.'' \<in> set g")
      (simp_all add: normalize_separators_def Let_def remove_byte_absent replace_append
        replace_byte_absent replace_remove_absent)
qed

lemma fincloud_money_text:
  assumes "normalize_decimal raw = Inr (decimal_text False i f)"
    and "list_all is_digit i" and "i \<noteq> []" and "list_all is_digit f"
  shows "fincloud_money raw = Inr (of_nat (digits_value (i @ f)) / 10 ^ length f)"
  using assms parse_money_decimal_text [OF assms(2-4), of False] by (simp add: fincloud_money_def)

section \<open>Loan documents\<close>

lemma fincloud_money_error: "fincloud_money raw = Inl e \<Longrightarrow> errors_is e ErrFincloudUnavailable"
  by (auto simp: fincloud_money_def errors_is_def split: sum.split_asm)

lemma money_error:
  "required_money v = Inl e \<Longrightarrow> errors_is e ErrFincloudUnavailable"
  "optional_money v = Inl e \<Longrightarrow> errors_is e ErrFincloudUnavailable"
  by (auto simp: required_money_def optional_money_def errors_is_def split: if_split_asm dest: fincloud_money_error)

lemma map_repayments_error: "map_repayments loc k rows = Inl e \<Longrightarrow> errors_is e ErrFincloudUnavailable"
  by (induction rows arbitrary: k)
    (auto simp: res_simps map_repayment_def errors_is_def [of "_ # _"] split: sum.split_asm dest: money_error)

lemma map_loan_error: "map_loan source loc = Inl e \<Longrightarrow> loc \<noteq> None \<Longrightarrow> errors_is e ErrFincloudUnavailable"
  by (auto simp: map_loan_def map_tenor_def map_close_date_def Let_def res_simps errors_is_def [of "_ # _"]
      split: option.split_asm if_split_asm sum.split_asm dest: money_error map_repayments_error)

lemma map_repayments_order:
  "map_repayments loc k rows = Inr ps \<Longrightarrow>
     length ps = length rows \<and> map rp_source_order ps = map int [k..<k + length rows]"
proof (induction rows arbitrary: k ps)
  case (Cons row rows)
  from Cons.prems obtain p qs where p: "map_repayment loc k row = Inr p"
    and qs: "map_repayments loc (k + 1) rows = Inr qs" and ps: "ps = p # qs"
    by (auto simp: res_simps)
  have "rp_source_order p = int k" using p by (auto simp: map_repayment_def res_simps)
  moreover have "[k..<k + length (row # rows)] = k # [k + 1..<k + 1 + length rows]" using upt_conv_Cons [of k "k + length (row # rows)"] by (simp del: upt_Suc)
  ultimately show ?case using Cons.IH [OF qs] ps by (simp del: upt_Suc)
qed simp

lemma map_loan_facts:
  assumes "map_loan source loc = Inr d"
  shows "cd_primary_account d = trim_space (ld_id source)" and "0 < cd_tenor_months d"
    and "map rp_source_order (cd_repayments d) = map int [0..<length (ld_repayments source)]"
    and "cd_contract_schedule_evidence d = Some (map map_schedule_row (ld_schedule source))"
    and "cd_contract_schedule d = []" and "cd_repayments d \<noteq> [] \<Longrightarrow> ld_repayments source \<noteq> []"
  using assms
  by (auto simp: map_loan_def map_tenor_def res_simps split: if_split_asm option.split_asm
      dest!: map_repayments_order)

section \<open>Resolution\<close>

lemma get_loan_facts:
  assumes "get_loan lc nw account loc c = (r, c')"
  shows "cl_requests c' \<le> cl_requests c + 2"
    and "r = Inl e \<Longrightarrow> loc \<noteq> None \<Longrightarrow> \<exists>s \<in> insert ErrInvalidInput gateway_errors. errors_is e s"
    and "r = Inr d \<Longrightarrow> \<exists>source. map_loan source loc = Inr d \<and> cd_primary_account d \<noteq> ''''"
proof -
  have "cl_requests c' \<le> cl_requests c + 2
    \<and> (r = Inl e \<longrightarrow> loc \<noteq> None \<longrightarrow> (\<exists>s \<in> insert ErrInvalidInput gateway_errors. errors_is e s))
    \<and> (r = Inr d \<longrightarrow> (\<exists>source. map_loan source loc = Inr d \<and> cd_primary_account d \<noteq> ''''))"
  proof (cases "trim_space account = ''''")
    case True
    then show ?thesis using assms by (auto simp: get_loan_def errors_is_def)
  next
    case False
    obtain b c1 where d: "client_do (lc_json lc) nw default_json_limit (LoanInquiry (trim_space account)) c = (b, c1)"
      by (cases "client_do (lc_json lc) nw default_json_limit (LoanInquiry (trim_space account)) c")
    show ?thesis
    proof (cases b)
      case (Inl e1)
      then show ?thesis using assms False d client_do_facts(1) [OF d] client_do_facts(3) [OF d, of e1]
        by (auto simp: get_loan_def)
    next
      case (Inr body)
      then show ?thesis using assms False d client_do_facts(1) [OF d] map_loan_facts(1) map_loan_error
        by (fastforce simp: get_loan_def gateway_errors_def errors_is_def [of "[_]"]
            split: option.split_asm if_split_asm)
    qed
  qed
  then show "cl_requests c' \<le> cl_requests c + 2"
    and "r = Inl e \<Longrightarrow> loc \<noteq> None \<Longrightarrow> \<exists>s \<in> insert ErrInvalidInput gateway_errors. errors_is e s"
    and "r = Inr d \<Longrightarrow> \<exists>source. map_loan source loc = Inr d \<and> cd_primary_account d \<noteq> ''''" by blast+
qed

definition resolution_errors :: "sentinel set" where
  "resolution_errors = gateway_errors \<union> {ErrInvalidInput, ErrAmbiguousAccountResolution, ErrInvariant}"

lemma resolve_alternate_facts:
  assumes "resolve_alternate lc nw account c = (r, c')"
  shows "cl_requests c' \<le> cl_requests c + 2"
    and "r = Inl e \<Longrightarrow> \<exists>s \<in> insert ErrAmbiguousAccountResolution gateway_errors. errors_is e s"
    and "r = Inr p \<Longrightarrow> p \<noteq> '''' \<and> (\<exists>body rows. lc_search lc body = Some (''ok'', rows)
       \<and> alternate_candidates account rows = [p])"
proof -
  obtain b c1 where d: "client_do (lc_json lc) nw default_json_limit (AlternateSearch account) c = (b, c1)"
    by (cases "client_do (lc_json lc) nw default_json_limit (AlternateSearch account) c")
  have cand: "p \<noteq> ''''" if "alternate_candidates account rows = [p]" for rows
  proof -
    have "p \<in> set (alternate_candidates account rows)" using that by simp
    then show ?thesis by (auto simp: alternate_candidates_def)
  qed
  have "cl_requests c' \<le> cl_requests c + 2
    \<and> (r = Inl e \<longrightarrow> (\<exists>s \<in> insert ErrAmbiguousAccountResolution gateway_errors. errors_is e s))
    \<and> (r = Inr p \<longrightarrow> p \<noteq> '''' \<and> (\<exists>body rows. lc_search lc body = Some (''ok'', rows)
       \<and> alternate_candidates account rows = [p]))"
  proof (cases b)
    case (Inl e1)
    then show ?thesis using assms d client_do_facts(1) [OF d] client_do_facts(3) [OF d, of e1]
      by (auto simp: resolve_alternate_def)
  next
    case (Inr body)
    then show ?thesis using assms d client_do_facts(1) [OF d] cand
      by (auto simp: resolve_alternate_def gateway_errors_def errors_is_def
          split: option.split_asm if_split_asm list.split_asm intro!: exI [of _ body])
  qed
  then show "cl_requests c' \<le> cl_requests c + 2"
    and "r = Inl e \<Longrightarrow> \<exists>s \<in> insert ErrAmbiguousAccountResolution gateway_errors. errors_is e s"
    and "r = Inr p \<Longrightarrow> p \<noteq> '''' \<and> (\<exists>body rows. lc_search lc body = Some (''ok'', rows)
       \<and> alternate_candidates account rows = [p])" by blast+
qed

lemma resolve_loan_facts:
  assumes "resolve_loan lc nw account loc c = (r, c')"
  shows "cl_requests c' \<le> cl_requests c + 6"
    and "r = Inl e \<Longrightarrow> loc \<noteq> None \<Longrightarrow> \<exists>s \<in> resolution_errors. errors_is e s"
    and "r = Inr d \<Longrightarrow> (\<exists>source. map_loan source loc = Inr d) \<and> cd_primary_account d \<noteq> ''''
      \<and> (fst (get_loan lc nw (trim_space account) loc c) = Inr d
         \<or> (\<exists>body rows. lc_search lc body = Some (''ok'', rows)
              \<and> alternate_candidates (trim_space account) rows = [cd_primary_account d]))"
proof -
  let ?a = "trim_space account"
  obtain r1 c1 where g1: "get_loan lc nw ?a loc c = (r1, c1)" by (cases "get_loan lc nw ?a loc c")
  obtain r2 c2 where g2: "resolve_alternate lc nw ?a c1 = (r2, c2)" by (cases "resolve_alternate lc nw ?a c1")
  obtain r3 c3 where g3: "get_loan lc nw (projr r2) loc c2 = (r3, c3)" by (cases "get_loan lc nw (projr r2) loc c2")
  note f1 = get_loan_facts [OF g1] and f2 = resolve_alternate_facts [OF g2] and f3 = get_loan_facts [OF g3]
  have up: "\<exists>s \<in> resolution_errors. errors_is e s" if "\<exists>s \<in> S. errors_is e s" "S \<subseteq> resolution_errors" for S
    using that by blast
  have sub: "insert ErrInvalidInput gateway_errors \<subseteq> resolution_errors"
    "insert ErrAmbiguousAccountResolution gateway_errors \<subseteq> resolution_errors" "{ErrInvalidInput} \<subseteq> resolution_errors"
    "{ErrInvariant} \<subseteq> resolution_errors" by (auto simp: resolution_errors_def)
  consider (empty) "?a = ''''" "r = Inl [ErrInvalidInput]" "c' = c"
    | (direct) x where "r1 = Inr x" "r = Inr x" "c' = c1"
    | (other) x where "r1 = Inl x" "r = Inl x" "c' = c1"
    | (search) x where "r2 = Inl x" "r = Inl x" "c' = c2"
    | (second) x where "r3 = Inl x" "r = Inl x" "c' = c3"
    | (wrong) "r = Inl [ErrInvariant]" "c' = c3"
    | (found) p x where "r2 = Inr p" "r3 = Inr x" "r = Inr x" "c' = c3" "cd_primary_account x = p"
    using assms g1 g2 g3
    by (cases r1; cases r2; cases r3) (auto simp: resolve_loan_def Let_def split: if_split_asm)
  then have "cl_requests c' \<le> cl_requests c + 6
    \<and> (r = Inl e \<longrightarrow> loc \<noteq> None \<longrightarrow> (\<exists>s \<in> resolution_errors. errors_is e s))
    \<and> (r = Inr d \<longrightarrow> (\<exists>source. map_loan source loc = Inr d) \<and> cd_primary_account d \<noteq> ''''
      \<and> (fst (get_loan lc nw ?a loc c) = Inr d
         \<or> (\<exists>body rows. lc_search lc body = Some (''ok'', rows)
              \<and> alternate_candidates ?a rows = [cd_primary_account d])))"
  proof cases
    case empty
    then show ?thesis using sub by (auto simp: errors_is_def)
  next
    case direct
    then show ?thesis using f1(1) f1(3) g1 by auto
  next
    case other
    then show ?thesis using f1(1) f1(2) [of e] up sub(1) by auto
  next
    case search
    then show ?thesis using f1(1) f2(1) f2(2) [of e] up sub(2) by auto
  next
    case second
    then show ?thesis using f1(1) f2(1) f3(1) f3(2) [of e] up sub(1) by auto
  next
    case wrong
    then show ?thesis using f1(1) f2(1) f3(1) sub(4) by (auto simp: errors_is_def)
  next
    case (found p x)
    then show ?thesis using f1(1) f2(1) f3(1) f2(3) [of p] f3(3) [of x] by auto
  qed
  then show "cl_requests c' \<le> cl_requests c + 6"
    and "r = Inl e \<Longrightarrow> loc \<noteq> None \<Longrightarrow> \<exists>s \<in> resolution_errors. errors_is e s"
    and "r = Inr d \<Longrightarrow> (\<exists>source. map_loan source loc = Inr d) \<and> cd_primary_account d \<noteq> ''''
      \<and> (fst (get_loan lc nw ?a loc c) = Inr d
         \<or> (\<exists>body rows. lc_search lc body = Some (''ok'', rows)
              \<and> alternate_candidates ?a rows = [cd_primary_account d]))" by blast+
qed

section \<open>Properties\<close>

text \<open>
  C16. A request to Fincloud is bounded: whatever the network answers, \<open>do\<close> sends at most two requests
  and two logins; a body it returns is within the limit, was sent with status 2xx for the current
  session and is neither an authentication nor a not-found message; an error wraps one of the four
  gateway sentinels.
\<close>

theorem client_do_bounded:
  assumes "client_do js nw limit req c = (r, c')"
  shows "cl_requests c' \<le> cl_requests c + 2 \<and> cl_logins c' \<le> cl_logins c + 2
    \<and> (case r of
         Inl e \<Rightarrow> \<exists>s \<in> gateway_errors. errors_is e s
       | Inr body \<Rightarrow> int (length body) \<le> limit \<and> \<not> is_authentication_response js body
           \<and> \<not> is_not_found_response js body
           \<and> (\<exists>n status. n < cl_requests c' \<and> 200 \<le> status \<and> status < 300
                \<and> nw_request nw n (cl_session c') req = Reply status (Inr body) None))"
  using client_do_facts(1,2) [OF assms] client_do_facts(3,4) [OF assms] by (cases r) auto

text \<open>A network whose first session has expired, for the witnesses.\<close>

definition sample_json :: json_codec where
  "sample_json = \<lparr>js_message = (\<lambda>b. None), js_login = (\<lambda>b. Some (''ok'', b)), js_lower = (\<lambda>s. s)\<rparr>"

definition sample_network :: network where
  "sample_network =
     \<lparr>nw_login = (\<lambda>n. Reply 200 (Inr ''new'') None),
      nw_request = (\<lambda>n session req. if session = ''new'' then Reply 200 (Inr ''body'') None
                                    else Reply 401 (Inr '''') None)\<rparr>"

definition sample_client :: client_state where
  "sample_client = \<lparr>cl_session = ''old'', cl_retired = '''', cl_logins = 0, cl_requests = 0, cl_logouts = []\<rparr>"

definition sample_client_after :: client_state where
  "sample_client_after =
     \<lparr>cl_session = ''new'', cl_retired = '''', cl_logins = 1, cl_requests = 2, cl_logouts = [''old'']\<rparr>"

lemma sample_do:
  "client_do sample_json sample_network default_json_limit req sample_client = (Inr ''body'', sample_client_after)"
  by code_simp

theorem client_do_bounded_witness:
  "cl_requests sample_client_after \<le> cl_requests sample_client + 2
   \<and> (\<exists>n status. n < cl_requests sample_client_after \<and> 200 \<le> status \<and> status < 300
        \<and> nw_request sample_network n (cl_session sample_client_after) (LoanInquiry ''A'')
            = Reply status (Inr ''body'') None)"
  using client_do_bounded [OF sample_do [of "LoanInquiry ''A''"]] by simp

text \<open>
  C23. An expired session is renewed without the caller noticing: when the first request is refused
  with 401 or 403, the login succeeds and the second request succeeds, \<open>do\<close> returns the second
  body, the new session is current and the old one was logged out.
\<close>

theorem client_do_renews_session:
  assumes "cl_session c = old" and "old \<noteq> ''''" and "status \<in> {401, 403}" and "0 < limit"
    and "nw_request nw (cl_requests c) old req = Reply status (Inr refusal) None"
    and "int (length refusal) \<le> limit"
    and "client_login js (nw_login nw (cl_logins c)) = Inr new" and "new \<noteq> old"
    and "nw_request nw (cl_requests c + 1) new req = Reply 200 (Inr body) None"
    and "int (length body) \<le> limit"
    and "\<not> is_authentication_response js body" and "\<not> is_not_found_response js body"
  shows "client_do js nw limit req c =
    (Inr body, c\<lparr>cl_session := new, cl_retired := '''', cl_logins := cl_logins c + 1,
                cl_requests := cl_requests c + 2, cl_logouts := cl_logouts c @ [old]\<rparr>)"
proof -
  have "client_attempt js nw limit req True c =
      (None, c\<lparr>cl_requests := cl_requests c + 1, cl_retired := old, cl_session := ''''\<rparr>)"
    using assms by (auto simp: client_attempt_def sessions_session_def read_bounded_def sessions_invalidate_def)
  moreover have "client_attempt js nw limit req False
      (c\<lparr>cl_requests := cl_requests c + 1, cl_retired := old, cl_session := ''''\<rparr>) =
      (Some (Inr body), c\<lparr>cl_session := new, cl_retired := '''', cl_logins := cl_logins c + 1,
                cl_requests := cl_requests c + 2, cl_logouts := cl_logouts c @ [old]\<rparr>)"
    using assms client_login_session [OF assms(7)]
    by (auto simp: client_attempt_def sessions_session_def read_bounded_def Let_def)
  ultimately show ?thesis by (simp add: client_do_unfold)
qed

theorem client_do_renews_session_witness:
  "client_do sample_json sample_network 100 (LoanInquiry ''A'') sample_client =
     (Inr ''body'', sample_client\<lparr>cl_session := ''new'', cl_retired := '''', cl_logins := cl_logins sample_client + 1,
        cl_requests := cl_requests sample_client + 2, cl_logouts := cl_logouts sample_client @ [''old'']\<rparr>)"
proof -
  have l: "client_login sample_json (nw_login sample_network (cl_logins sample_client)) = Inr ''new''" by code_simp
  have a: "\<not> is_authentication_response sample_json ''body''" "\<not> is_not_found_response sample_json ''body''"
    by code_simp+
  show ?thesis
    by (rule client_do_renews_session [where refusal = "''''" and status = 401, OF _ _ _ _ _ _ l])
      (simp_all add: sample_client_def sample_network_def a)
qed


text \<open>A Fincloud that knows the loan only by its primary number, for the witness.\<close>

definition sample_scalar :: "string \<Rightarrow> scalar_value" where
  "sample_scalar v = \<lparr>sc_value = v, sc_present = True\<rparr>"

definition sample_dto :: loan_dto where
  "sample_dto =
     \<lparr>ld_id = ''P1'', ld_no_alt = ''A1'', ld_cif = '''', ld_cif_number = ''C'', ld_customer_name = ''N'',
      ld_branch = ''B'', ld_product = ''K'', ld_plafond_limit = sample_scalar ''1.2,5'',
      ld_tenor = sample_scalar ''12 bulan'', ld_flat_rate = sample_scalar ''11.76'',
      ld_reference_rate = sample_scalar '''', ld_collectability = 1, ld_principal_due = sample_scalar '''',
      ld_interest_due = sample_scalar '''', ld_penalty_due = sample_scalar '''', ld_status = ''A'',
      ld_close_date_legacy = '''', ld_close_date_object = '''', ld_schedule = [], ld_repayments = []\<rparr>"

definition sample_codec :: loan_codec where
  "sample_codec =
     \<lparr>lc_json = sample_json, lc_loan = (\<lambda>b. if b = ''loan'' then Some (''ok'', sample_dto) else None),
      lc_search = (\<lambda>b. Some (''ok'', [(''P1'', ''A1''), ('' P1'', ''''), (''P2'', ''A2'')]))\<rparr>"

definition sample_fincloud :: network where
  "sample_fincloud =
     \<lparr>nw_login = (\<lambda>n. Reply 200 (Inr ''s'') None),
      nw_request = (\<lambda>n session req. case req of
          LoanInquiry a \<Rightarrow> if a = ''P1'' then Reply 200 (Inr ''loan'') None else Reply 404 (Inr '''') None
        | _ \<Rightarrow> Reply 200 (Inr ''search'') None)\<rparr>"

lemma sample_resolve:
  "case resolve_loan sample_codec sample_fincloud '' A1 '' (Some ''UTC'') sample_client of
     (Inr d, c') \<Rightarrow> cd_primary_account d = ''P1'' \<and> cd_plafond_limit d = 25 / 2
       \<and> cd_tenor_months d = 12 \<and> cl_requests c' = 3
   | (Inl _, _) \<Rightarrow> False"
  by code_simp


text \<open>
  How Fincloud's decimal texts are read. A text with one dot is a decimal number, except that a
  group of exactly three digits after at most three digits is read as thousands, a factor of
  1000; a text with a comma is a decimal number whose dots are group separators.
\<close>

theorem fincloud_decimal_reading:
  assumes "list_all is_digit i" and "i \<noteq> []" and "list_all is_digit f" and "f \<noteq> []"
  shows "fincloud_money (i @ CHR ''.'' # f) =
      Inr (of_nat (digits_value (i @ f)) / 10 ^ length f * (if length i \<le> 3 \<and> length f = 3 then 1000 else 1))
    \<and> (list_all (\<lambda>c. is_digit c \<or> c = CHR ''.'') g \<and> g \<noteq> [] \<and> is_digit (hd g) \<longrightarrow>
        fincloud_money (g @ CHR '','' # f) =
          Inr (of_nat (digits_value (remove_byte (CHR ''.'') g @ f)) / 10 ^ length f))"
proof (intro conjI impI)
  show "fincloud_money (i @ CHR ''.'' # f) =
      Inr (of_nat (digits_value (i @ f)) / 10 ^ length f * (if length i \<le> 3 \<and> length f = 3 then 1000 else 1))"
    using normalize_single_dot [OF assms] assms
      fincloud_money_text [of "i @ CHR ''.'' # f" "i @ f" "[]"] fincloud_money_text [of "i @ CHR ''.'' # f" i f]
    by (simp add: decimal_text_def list_all_append)
next
  assume g: "list_all (\<lambda>c. is_digit c \<or> c = CHR ''.'') g \<and> g \<noteq> [] \<and> is_digit (hd g)"
  let ?g = "remove_byte (CHR ''.'') g"
  have "?g \<noteq> []" using g by (cases g) auto
  moreover have "list_all is_digit ?g" using g by (auto simp: remove_byte_def list_all_iff)
  ultimately show "fincloud_money (g @ CHR '','' # f) = Inr (of_nat (digits_value (?g @ f)) / 10 ^ length f)"
    using normalize_dots_comma [of g f] g assms fincloud_money_text [of "g @ CHR '','' # f" ?g f]
    by (simp add: decimal_text_def)
qed

theorem fincloud_decimal_reading_witness:
  "fincloud_money ''11.765'' = Inr 11765 \<and> fincloud_money ''11.76'' = Inr (1176 / 100)
   \<and> fincloud_money ''1.200.000,50'' = Inr (2400001 / 2)"
proof -
  have d: "list_all is_digit ''11''" "list_all is_digit ''765''" "list_all is_digit ''76''" "list_all is_digit ''50''"
    by code_simp+
  have v: "digits_value ''11765'' = 11765" "digits_value ''1176'' = 1176" "digits_value ''120000050'' = 120000050"
    by (simp_all add: digits_value_def digit_value_def byte_def)
  show ?thesis
    using fincloud_decimal_reading [OF d(1) _ d(2)] fincloud_decimal_reading [OF d(1) _ d(3)]
      fincloud_decimal_reading [OF d(1) _ d(4), of "''1.200.000''"]
    by (simp add: v is_digit_def byte_def remove_byte_def)
qed

text \<open>
  The mapped repayments keep the order of the document: their source orders are 0, 1, 2, and so
  on, so that sorting them by date and source order is unambiguous; the tenor is positive and the
  schedule evidence is always present.
\<close>

theorem map_loan_source_order:
  assumes "map_loan source loc = Inr d"
  shows "map rp_source_order (cd_repayments d) = map int [0..<length (ld_repayments source)]
    \<and> 0 < cd_tenor_months d
    \<and> cd_contract_schedule_evidence d = Some (map map_schedule_row (ld_schedule source))"
  using map_loan_facts [OF assms] by blast

theorem map_loan_source_order_witness:
  "\<exists>d. map_loan sample_dto (Some ''UTC'') = Inr d \<and> 0 < cd_tenor_months d"
proof -
  have "case map_loan sample_dto (Some ''UTC'') of Inr d \<Rightarrow> True | Inl _ \<Rightarrow> False" by code_simp
  then obtain d where "map_loan sample_dto (Some ''UTC'') = Inr d"
    by (cases "map_loan sample_dto (Some ''UTC'')") auto
  then show ?thesis using map_loan_source_order by blast
qed

end
