(* ===== verification/Go_Text.thy ===== *)
theory Go_Text
  imports Loan_Values
begin

text \<open>
  More of the Go standard library the components use on text: counting runes, simple case folding
  against ASCII texts, the functions of \<open>path\<close> and \<open>path/filepath\<close> on slash-separated paths, and trimming
  prefixes and suffixes.
\<close>

section \<open>Runes\<close>

text \<open>
  \<open>utf8.DecodeRune\<close>: the width of the first rune of a non-empty text; an ill-formed sequence is one
  rune of width 1. The second byte's range depends on the first one.
\<close>

definition is_cont :: "char \<Rightarrow> bool" where
  "is_cont c \<longleftrightarrow> 0x80 \<le> byte c \<and> byte c \<le> 0xBF"

definition second_ok :: "nat \<Rightarrow> char \<Rightarrow> bool" where
  "second_ok b c \<longleftrightarrow>
     (if b = 0xE0 then 0xA0 \<le> byte c \<and> byte c \<le> 0xBF
      else if b = 0xED then 0x80 \<le> byte c \<and> byte c \<le> 0x9F
      else if b = 0xF0 then 0x90 \<le> byte c \<and> byte c \<le> 0xBF
      else if b = 0xF4 then 0x80 \<le> byte c \<and> byte c \<le> 0x8F
      else is_cont c)"

definition rune_width :: "string \<Rightarrow> nat" where
  "rune_width s =
     (case s of [] \<Rightarrow> 0
      | b # r \<Rightarrow>
          if byte b < 0xC2 \<or> 0xF4 < byte b then 1
          else if byte b < 0xE0 then (case r of c # _ \<Rightarrow> if second_ok (byte b) c then 2 else 1 | [] \<Rightarrow> 1)
          else if byte b < 0xF0 then
            (case r of c # d # _ \<Rightarrow> if second_ok (byte b) c \<and> is_cont d then 3 else 1 | _ \<Rightarrow> 1)
          else (case r of c # d # e # _ \<Rightarrow> if second_ok (byte b) c \<and> is_cont d \<and> is_cont e then 4 else 1 | _ \<Rightarrow> 1))"

lemma rune_width_bounds: "s \<noteq> [] \<Longrightarrow> 1 \<le> rune_width s \<and> rune_width s \<le> length s"
  by (auto simp: rune_width_def split: list.splits)

text \<open>\<open>utf8.RuneCountInString\<close> and \<open>len([]rune(s))\<close>.\<close>

function rune_count :: "string \<Rightarrow> nat" where
  "rune_count s = (if s = [] then 0 else Suc (rune_count (drop (rune_width s) s)))"
  by pat_completeness auto
termination
  by (relation "measure length") (use rune_width_bounds in force)+

declare rune_count.simps [simp del]

lemma rune_count_le: "rune_count s \<le> length s"
proof (induction s rule: rune_count.induct)
  case (1 s)
  then show ?case
    using rune_width_bounds [of s] by (cases "s = []") (auto simp: rune_count.simps [of s] rune_count.simps [of "[]"])
qed

section \<open>Case folding\<close>

text \<open>
  \<open>strings.EqualFold\<close> against an ASCII text. Besides the letters themselves only U+017F folds to \<open>s\<close> and
  U+212A to \<open>k\<close>.
\<close>

fun fold_ascii :: "string \<Rightarrow> string" where
  "fold_ascii [] = []"
| "fold_ascii [b] = [ascii_lower b]"
| "fold_ascii [b, c] = (if byte b = 0xC5 \<and> byte c = 0xBF then ''s'' else [ascii_lower b, ascii_lower c])"
| "fold_ascii (b # c # d # r) =
     (if byte b = 0xC5 \<and> byte c = 0xBF then CHR ''s'' # fold_ascii (d # r)
      else if byte b = 0xE2 \<and> byte c = 0x84 \<and> byte d = 0xAA then CHR ''k'' # fold_ascii r
      else ascii_lower b # fold_ascii (c # d # r))"

definition equal_fold :: "string \<Rightarrow> string \<Rightarrow> bool" where
  "equal_fold s ascii \<longleftrightarrow> fold_ascii s = fold_ascii ascii"

section \<open>Prefixes and suffixes\<close>

definition trim_prefix :: "string \<Rightarrow> string \<Rightarrow> string" where
  "trim_prefix p s = (if prefix p s then drop (length p) s else s)"

definition trim_suffix :: "string \<Rightarrow> string \<Rightarrow> string" where
  "trim_suffix p s = (if suffix p s then take (length s - length p) s else s)"

definition trim_left_byte :: "char \<Rightarrow> string \<Rightarrow> string" where
  "trim_left_byte c s = dropWhile (\<lambda>x. x = c) s"

text \<open>\<open>strings.Replace(s, old, new, 1)\<close> for a non-empty old text.\<close>

fun replace_first :: "string \<Rightarrow> string \<Rightarrow> string \<Rightarrow> string" where
  "replace_first old new [] = []"
| "replace_first old new (c # s) =
     (if prefix old (c # s) then new @ drop (length old) (c # s) else c # replace_first old new s)"

section \<open>Paths\<close>

definition path_base :: "string \<Rightarrow> string" where
  "path_base p =
     (if p = '''' then ''.''
      else let q = trim_right_byte (CHR ''/'') p
           in if q = '''' then ''/'' else rev (takeWhile (\<lambda>c. c \<noteq> CHR ''/'') (rev q)))"

text \<open>\<open>path.Ext\<close>: the text from the last dot of the last element.\<close>

definition path_ext :: "string \<Rightarrow> string" where
  "path_ext p =
     (let e = rev (takeWhile (\<lambda>c. c \<noteq> CHR ''/'') (rev p))
      in if CHR ''.'' \<in> set e then CHR ''.'' # rev (takeWhile (\<lambda>c. c \<noteq> CHR ''.'') (rev e)) else '''')"

text \<open>\<open>path.Clean\<close>: the elements kept, last first; a dot-dot removes an element, and is kept only at the front of a relative path.\<close>

fun clean_elements :: "bool \<Rightarrow> string list \<Rightarrow> string list \<Rightarrow> string list" where
  "clean_elements rooted acc [] = acc"
| "clean_elements rooted acc (e # es) =
     (if e = '''' \<or> e = ''.'' then clean_elements rooted acc es
      else if e = ''..'' then
        (case acc of
           [] \<Rightarrow> clean_elements rooted (if rooted then [] else [''..'']) es
         | a # as \<Rightarrow> if a = ''..'' then clean_elements rooted (''..'' # acc) es else clean_elements rooted as es)
      else clean_elements rooted (e # acc) es)"

definition path_clean :: "string \<Rightarrow> string" where
  "path_clean p =
     (let rooted = prefix ''/'' p;
          s = join ''/'' (rev (clean_elements rooted [] (split_byte (CHR ''/'') p)))
      in if rooted then ''/'' @ s else if s = '''' then ''.'' else s)"

text \<open>\<open>path.Join\<close> of two elements, and \<open>path.Dir\<close>.\<close>

definition path_join :: "string \<Rightarrow> string \<Rightarrow> string" where
  "path_join a b =
     (if a = '''' then (if b = '''' then '''' else path_clean b)
      else path_clean (a @ ''/'' @ b))"

definition path_dir :: "string \<Rightarrow> string" where
  "path_dir p = path_clean (rev (dropWhile (\<lambda>c. c \<noteq> CHR ''/'') (rev p)))"

text \<open>A clean relative path has no dot-dot after its first ordinary element, and none with a name in front.\<close>

lemma clean_elements_rooted:
  "list_all (\<lambda>e. e \<noteq> '''' \<and> e \<noteq> ''.'' \<and> e \<noteq> ''..'') acc \<Longrightarrow>
   list_all (\<lambda>e. e \<noteq> '''' \<and> e \<noteq> ''.'' \<and> e \<noteq> ''..'') (clean_elements True acc es)"
  by (induction "True" acc es rule: clean_elements.induct) (auto split: list.splits)

end
