(* ===== verification/Audit_Log.thy ===== *)
theory Audit_Log
  imports Go_Text
begin

text \<open>
  The audit log of \<open>src/internal/audit/audit.go\<close>: events with their attribution and metadata, and \<open>Append\<close>,
  which validates an event and inserts a row into \<open>audit_logs\<close>. \<open>json.Marshal\<close> of the metadata is the
  argument \<open>marshal\<close>; an instant is in microseconds since the zero time, so that 0 is \<open>IsZero\<close>.
\<close>

record identity =
  idt_user_id :: int
  idt_username :: string

record attribution =
  att_actor :: "identity option"
  att_effective :: "identity option"
  att_system_actor :: string

datatype audit_metadata =
    RoleChange string string
  | StatusChange string string
  | PermissionsUpdated "string list" "string list"
  | ImpersonationStarted string
  | LoginFailed string
  | LoanInquiry string string string
  | APILoanLookup string string string string string
  | Reporting string int int
  | LPSReport string string int
  | SnapshotRefresh string int string

record audit_event =
  ev_attribution :: attribution
  ev_action :: string
  ev_resource :: string
  ev_resource_id :: int
  ev_metadata :: "audit_metadata option"
  ev_created_at :: int

text \<open>A row of \<open>audit_logs\<close>; \<open>None\<close> is NULL.\<close>

record audit_row =
  al_actor_user_id :: "int option"
  al_actor_username :: "string option"
  al_effective_user_id :: "int option"
  al_effective_username :: "string option"
  al_action :: string
  al_resource_type :: "string option"
  al_resource_id :: "int option"
  al_metadata :: "string option"
  al_created_at :: int

datatype audit_error =
    UnknownAction | ActorIdentity | EffectiveIdentity | SystemActorIdentity | ResourcePair
  | UnknownResource | ZeroTime | MetadataTooLarge | AuditInsertFailed

definition known_actions :: "string list" where
  "known_actions =
     [''auth.login.success'', ''auth.login.failed'', ''auth.logout'', ''auth.registration'',
      ''impersonation.started'', ''impersonation.stopped'', ''user.created'', ''user.profile_updated'',
      ''user.role_changed'', ''user.activated'', ''user.deactivated'', ''user.auto_provisioned'',
      ''user.permissions_updated'', ''access.bootstrap'', ''user.password_reset'', ''role.created'',
      ''role.updated'', ''role.deleted'', ''role.permissions_updated'', ''admin.bootstrap'',
      ''loan.inquiry'', ''api.loan_lookup'', ''reporting.generate'', ''lps.generate'',
      ''snapshot.refresh.started'', ''snapshot.refresh.succeeded'', ''snapshot.refresh.failed'']"

definition known_action :: "string \<Rightarrow> bool" where
  "known_action a \<longleftrightarrow> a \<in> set known_actions"

definition validate_identity :: "audit_error \<Rightarrow> identity option \<Rightarrow> audit_error + unit" where
  "validate_identity e i =
     (case i of None \<Rightarrow> Inr ()
      | Some d \<Rightarrow> if idt_user_id d = 0 \<or> trim_space (idt_username d) = '''' then Inl e else Inr ())"

definition max_metadata_bytes :: int where
  "max_metadata_bytes = 65536"

text \<open>The checks of \<open>Append\<close> up to the encoded metadata, the row it inserts, and \<open>Append\<close> itself.\<close>

definition audit_check :: "(audit_metadata \<Rightarrow> string) \<Rightarrow> audit_event \<Rightarrow> audit_error + string option" where
  "audit_check marshal ev =
     (let att = ev_attribution ev in
      if \<not> known_action (ev_action ev) then Inl UnknownAction
      else rbind (validate_identity ActorIdentity (att_actor att)) (\<lambda>_.
        rbind (validate_identity EffectiveIdentity (att_effective att)) (\<lambda>_.
          if att_system_actor att \<noteq> ''''
             \<and> (\<not> prefix ''system:'' (att_system_actor att) \<or> att_actor att \<noteq> None \<or> att_effective att \<noteq> None)
          then Inl SystemActorIdentity
          else if (ev_resource ev = '''') \<noteq> (ev_resource_id ev = 0) then Inl ResourcePair
          else if ev_resource ev \<noteq> '''' \<and> ev_resource ev \<noteq> ''user'' \<and> ev_resource ev \<noteq> ''role'' then Inl UnknownResource
          else if ev_created_at ev = 0 then Inl ZeroTime
          else (case ev_metadata ev of None \<Rightarrow> Inr None
             | Some m \<Rightarrow> if int (length (marshal m)) > max_metadata_bytes then Inl MetadataTooLarge
                         else Inr (Some (marshal m))))))"

definition audit_row_of :: "audit_event \<Rightarrow> string option \<Rightarrow> audit_row" where
  "audit_row_of ev metadata =
     (let att = ev_attribution ev in
      \<lparr>al_actor_user_id = map_option idt_user_id (att_actor att),
       al_actor_username =
         (if att_system_actor att \<noteq> '''' then Some (att_system_actor att)
          else map_option idt_username (att_actor att)),
       al_effective_user_id = map_option idt_user_id (att_effective att),
       al_effective_username = map_option idt_username (att_effective att),
       al_action = ev_action ev,
       al_resource_type = (if ev_resource ev \<noteq> '''' then Some (ev_resource ev) else None),
       al_resource_id = (if ev_resource ev \<noteq> '''' then Some (ev_resource_id ev) else None),
       al_metadata = metadata, al_created_at = ev_created_at ev\<rparr>)"

text \<open>\<open>insert_ok\<close> tells whether the INSERT succeeds; the log is the list of rows, oldest first.\<close>

definition audit_append ::
  "(audit_metadata \<Rightarrow> string) \<Rightarrow> bool \<Rightarrow> audit_event \<Rightarrow> audit_row list \<Rightarrow> audit_error + audit_row list" where
  "audit_append marshal insert_ok ev rows =
     rbind (audit_check marshal ev) (\<lambda>metadata.
       if insert_ok then Inr (rows @ [audit_row_of ev metadata]) else Inl AuditInsertFailed)"

text \<open>What every row written by \<open>Append\<close> satisfies.\<close>

definition audit_row_ok :: "audit_row \<Rightarrow> bool" where
  "audit_row_ok r \<longleftrightarrow>
     known_action (al_action r) \<and> al_created_at r \<noteq> 0
     \<and> (al_actor_user_id r \<noteq> None \<longrightarrow> al_actor_user_id r \<noteq> Some 0 \<and> al_actor_username r \<noteq> None)
     \<and> (al_effective_user_id r = None \<longleftrightarrow> al_effective_username r = None)
     \<and> (al_actor_user_id r = None \<longrightarrow> al_actor_username r \<noteq> None \<longrightarrow>
          prefix ''system:'' (the (al_actor_username r)) \<and> al_effective_user_id r = None)
     \<and> (al_resource_type r = None \<longleftrightarrow> al_resource_id r = None)
     \<and> al_resource_type r \<in> {None, Some ''user'', Some ''role''}
     \<and> (case al_metadata r of None \<Rightarrow> True | Some m \<Rightarrow> int (length m) \<le> max_metadata_bytes)"

lemma validate_identity_Inr:
  "validate_identity e i = Inr u \<longleftrightarrow>
     (\<forall>d. i = Some d \<longrightarrow> idt_user_id d \<noteq> 0 \<and> trim_space (idt_username d) \<noteq> '''')"
  by (auto simp: validate_identity_def split: option.splits)

lemma audit_check_Inr:
  assumes "audit_check marshal ev = Inr m"
  shows "known_action (ev_action ev)" and "ev_created_at ev \<noteq> 0"
    and "\<And>d. att_actor (ev_attribution ev) = Some d \<Longrightarrow> idt_user_id d \<noteq> 0"
    and "att_system_actor (ev_attribution ev) \<noteq> '''' \<Longrightarrow>
      prefix ''system:'' (att_system_actor (ev_attribution ev)) \<and> att_actor (ev_attribution ev) = None
      \<and> att_effective (ev_attribution ev) = None"
    and "ev_resource ev \<in> {'''', ''user'', ''role''}"
    and "\<And>t. m = Some t \<Longrightarrow> int (length t) \<le> max_metadata_bytes"
proof -
  from assms show "known_action (ev_action ev)" unfolding audit_check_def Let_def by (auto split: if_split_asm)
  note c = assms [unfolded audit_check_def Let_def, simplified this not_True_eq_False if_False rbind_eq_Inr]
  then obtain u v where ids: "validate_identity ActorIdentity (att_actor (ev_attribution ev)) = Inr u" by blast
  then show "\<And>d. att_actor (ev_attribution ev) = Some d \<Longrightarrow> idt_user_id d \<noteq> 0" by (simp add: validate_identity_Inr)
  show "att_system_actor (ev_attribution ev) \<noteq> '''' \<Longrightarrow>
      prefix ''system:'' (att_system_actor (ev_attribution ev)) \<and> att_actor (ev_attribution ev) = None
      \<and> att_effective (ev_attribution ev) = None" and "ev_created_at ev \<noteq> 0"
    using c by (auto simp only: split: if_split_asm)
  show "ev_resource ev \<in> {'''', ''user'', ''role''}" using c by (simp split: if_split_asm)
  show "\<And>t. m = Some t \<Longrightarrow> int (length t) \<le> max_metadata_bytes"
    using c by (cases "ev_metadata ev") (auto simp only: option.case sum.inject option.inject not_less split: if_split_asm)
qed

text \<open>
  C24. The audit log is append-only and its rows are well formed: a successful \<open>Append\<close> adds one row at
  the end and changes no earlier row, the row has a known action, a time, user ids with user names, a
  \<open>system:\<close> actor only without user identities, a resource type exactly with a resource id, and metadata
  within the size limit; a refused event leaves no row.
\<close>

theorem audit_append_well_formed:
  "audit_append marshal insert_ok ev rows = Inr rows' \<longrightarrow>
     (\<exists>r. rows' = rows @ [r] \<and> audit_row_ok r \<and> al_action r = ev_action ev
        \<and> al_actor_user_id r = map_option idt_user_id (att_actor (ev_attribution ev))
        \<and> al_effective_user_id r = map_option idt_user_id (att_effective (ev_attribution ev)))"
proof
  assume "audit_append marshal insert_ok ev rows = Inr rows'"
  then obtain m where m: "audit_check marshal ev = Inr m" and rows': "rows' = rows @ [audit_row_of ev m]"
    by (auto simp: audit_append_def res_simps split: if_split_asm)
  note c = audit_check_Inr [OF m]
  have "audit_row_ok (audit_row_of ev m)"
    unfolding audit_row_ok_def audit_row_of_def Let_def
    using c by (cases m; cases "att_actor (ev_attribution ev)"; cases "att_effective (ev_attribution ev)") auto
  then show "\<exists>r. rows' = rows @ [r] \<and> audit_row_ok r \<and> al_action r = ev_action ev
        \<and> al_actor_user_id r = map_option idt_user_id (att_actor (ev_attribution ev))
        \<and> al_effective_user_id r = map_option idt_user_id (att_effective (ev_attribution ev))"
    using rows' by (intro exI [of _ "audit_row_of ev m"]) (simp add: audit_row_of_def Let_def)
qed

definition sample_login :: audit_event where
  "sample_login =
     \<lparr>ev_attribution = \<lparr>att_actor = Some \<lparr>idt_user_id = 7, idt_username = ''ani''\<rparr>, att_effective = None,
        att_system_actor = ''''\<rparr>,
      ev_action = ''auth.logout'', ev_resource = '''', ev_resource_id = 0,
      ev_metadata = Some (LoginFailed ''ani''), ev_created_at = 5\<rparr>"

theorem audit_append_well_formed_witness:
  "\<exists>rows' r. audit_append (\<lambda>_. ''{}'') True sample_login [] = Inr rows' \<and> rows' = [] @ [r] \<and> audit_row_ok r"
proof -
  have "\<not> isl (audit_append (\<lambda>_. ''{}'') True sample_login [])" by code_simp
  then have "\<exists>rows'. audit_append (\<lambda>_. ''{}'') True sample_login [] = Inr rows'"
    by (metis isl_def sum.exhaust)
  then show ?thesis using audit_append_well_formed [of "\<lambda>_. ''{}''" True sample_login "[]"] by blast
qed

end
