(* ===== verification/Access_Store.thy ===== *)
theory Access_Store
  imports Audit_Log "HOL-Library.List_Lexorder" "HOL-Library.Char_ord"
begin

text \<open>
  The access tables and their transactions: permission registry and bootstrap (\<open>src/internal/access\<close>),
  users (\<open>src/internal/user\<close>), permission and status changes (\<open>src/internal/features/users\<close>) and browser
  sessions (\<open>src/internal/auth\<close>). A transaction is a function from tables to an error or the new tables, so
  that an error leaves them unchanged. Keys and user names have binary collations. An AUTO_INCREMENT id
  is some unused one.
\<close>

section \<open>Tables\<close>

record user_row =
  us_id :: int
  us_username :: string
  us_name :: string
  us_active :: bool
  us_last_login :: "int option"
  us_created :: int
  us_updated :: int

record permission_definition =
  pd_key :: string
  pd_name :: string
  pd_group :: string
  pd_description :: string

record permission_row =
  pm_id :: int
  pm_key :: string
  pm_name :: string
  pm_group :: string
  pm_description :: string
  pm_created :: int
  pm_updated :: int

record session_row =
  se_id :: int
  se_user_id :: int
  se_token_hash :: string
  se_remember_me :: bool
  se_expires_at :: int
  se_last_seen_at :: int
  se_created_at :: int
  se_updated_at :: int

record access_db =
  ad_users :: "user_row list"
  ad_permissions :: "permission_row list"
  ad_grants :: "(int \<times> int) list"
  ad_sessions :: "session_row list"
  ad_audit :: "audit_row list"

datatype access_error =
    UserNotFound | UnknownPermission | BaselinePermission | LastAccessManager | InvalidRegistry | InvalidUsername
  | InvalidName | UsernameTaken | NoBootstrapManagers | ManagePermissionMissing | EmptyQuery | DuplicateGrant
  | AuditRefused audit_error | SessionRefused | SessionNotFound

definition permission_loan_inquiry :: string where
  "permission_loan_inquiry = ''loan.inquiry''"

definition permission_manage :: string where
  "permission_manage = ''access.manage''"

definition fresh_id :: "int list \<Rightarrow> int" where
  "fresh_id ids = 1 + foldr max ids 0"

lemma fresh_id_new: "fresh_id ids \<notin> set ids"
proof -
  have "i \<le> foldr max ids 0" if "i \<in> set ids" for i
    using that by (induction ids) auto
  then show ?thesis by (force simp: fresh_id_def)
qed

section \<open>User names\<close>

definition normalize_username :: "string \<Rightarrow> string" where
  "normalize_username u = trim_space u"

text \<open>\<open>utf8.ValidString\<close>: every byte above 127 belongs to a well-formed sequence.\<close>

function valid_utf8 :: "string \<Rightarrow> bool" where
  "valid_utf8 s =
     (if s = [] then True
      else if byte (hd s) < 128 \<or> 1 < rune_width s then valid_utf8 (drop (rune_width s) s) else False)"
  by pat_completeness auto
termination
  apply (relation "measure length")
   apply simp
  subgoal for s
    using rune_width_bounds [of s] by auto
  done

declare valid_utf8.simps [simp del]

definition validate_username :: "string \<Rightarrow> access_error + unit" where
  "validate_username u =
     (let v = normalize_username u in
      if v = '''' \<or> \<not> valid_utf8 v \<or> 191 < rune_count v then Inl InvalidUsername else Inr ())"

definition validate_name :: "string \<Rightarrow> access_error + unit" where
  "validate_name n =
     (let v = trim_space n in
      if v = '''' \<or> \<not> valid_utf8 v \<or> 191 < rune_count v then Inl InvalidName else Inr ())"

section \<open>Permission registry\<close>

definition key_segment :: "string \<Rightarrow> bool" where
  "key_segment s \<longleftrightarrow>
     s \<noteq> [] \<and> 97 \<le> byte (hd s) \<and> byte (hd s) \<le> 122
     \<and> list_all (\<lambda>c. (97 \<le> byte c \<and> byte c \<le> 122) \<or> is_digit c \<or> c = CHR ''_'') s"

definition permission_key_ok :: "string \<Rightarrow> bool" where
  "permission_key_ok k \<longleftrightarrow> 2 \<le> length (split_byte (CHR ''.'') k) \<and> list_all key_segment (split_byte (CHR ''.'') k)"

fun validate_registry :: "string list \<Rightarrow> permission_definition list \<Rightarrow> access_error + unit" where
  "validate_registry seen [] = Inr ()"
| "validate_registry seen (d # ds) =
     (if \<not> permission_key_ok (pd_key d) \<or> pd_key d \<in> set seen \<or> trim_space (pd_name d) = '''' \<or> trim_space (pd_group d) = ''''
      then Inl InvalidRegistry else validate_registry (pd_key d # seen) ds)"

text \<open>The set of permission keys a request may use.\<close>

type_synonym permission_set = "string set"

definition new_permission_set :: "string list \<Rightarrow> permission_set" where
  "new_permission_set keys = set keys"

definition permission_set_has :: "permission_set \<Rightarrow> string \<Rightarrow> bool" where
  "permission_set_has s key \<longleftrightarrow> key \<in> s"

definition sync_permission :: "int \<Rightarrow> permission_definition \<Rightarrow> access_db \<Rightarrow> access_db" where
  "sync_permission now d db =
     (if list_ex (\<lambda>p. pm_key p = pd_key d) (ad_permissions db)
      then db\<lparr>ad_permissions := map (\<lambda>p. if pm_key p = pd_key d then
             p\<lparr>pm_updated := (if pm_name p \<noteq> pd_name d \<or> pm_group p \<noteq> pd_group d \<or> pm_description p \<noteq> pd_description d
                               then now else pm_updated p),
               pm_name := pd_name d, pm_group := pd_group d, pm_description := pd_description d\<rparr> else p) (ad_permissions db)\<rparr>
      else db\<lparr>ad_permissions := ad_permissions db @
             [\<lparr>pm_id = fresh_id (map pm_id (ad_permissions db)), pm_key = pd_key d, pm_name = pd_name d,
               pm_group = pd_group d, pm_description = pd_description d, pm_created = now, pm_updated = now\<rparr>]\<rparr>)"

definition permission_id :: "string \<Rightarrow> access_db \<Rightarrow> int option" where
  "permission_id key db = map_option pm_id (find (\<lambda>p. pm_key p = key) (ad_permissions db))"

definition list_permission_keys :: "int \<Rightarrow> access_db \<Rightarrow> string list" where
  "list_permission_keys user_id db =
     sort (map pm_key (filter (\<lambda>p. (user_id, pm_id p) \<in> set (ad_grants db)) (ad_permissions db)))"

definition user_has_permission :: "int \<Rightarrow> string \<Rightarrow> access_db \<Rightarrow> bool" where
  "user_has_permission user_id key db \<longleftrightarrow>
     list_ex (\<lambda>p. pm_key p = key \<and> (user_id, pm_id p) \<in> set (ad_grants db)) (ad_permissions db)"

section \<open>Bootstrap\<close>

definition active_managers :: "int \<Rightarrow> access_db \<Rightarrow> nat" where
  "active_managers pid db =
     length (filter (\<lambda>u. us_active u \<and> (us_id u, pid) \<in> set (ad_grants db)) (ad_users db))"

fun bootstrap_usernames :: "string list \<Rightarrow> string list \<Rightarrow> access_error + string list" where
  "bootstrap_usernames result [] = (if result = [] then Inl NoBootstrapManagers else Inr (rev result))"
| "bootstrap_usernames result (raw # raws) =
     (let u = normalize_username raw in
      if u = '''' then bootstrap_usernames result raws
      else rbind (validate_username u) (\<lambda>_.
        if u \<in> set result then bootstrap_usernames result raws else bootstrap_usernames (u # result) raws))"

definition lift_audit :: "audit_error + audit_row list \<Rightarrow> access_error + audit_row list" where
  "lift_audit r = (case r of Inl e \<Rightarrow> Inl (AuditRefused e) | Inr rows \<Rightarrow> Inr rows)"

definition append_event :: "(audit_metadata \<Rightarrow> string) \<Rightarrow> audit_event \<Rightarrow> access_db \<Rightarrow> access_error + access_db" where
  "append_event marshal ev db =
     rbind (lift_audit (audit_append marshal True ev (ad_audit db))) (\<lambda>rows. Inr (db\<lparr>ad_audit := rows\<rparr>))"

definition grant_permission :: "int \<Rightarrow> int \<Rightarrow> access_db \<Rightarrow> access_db" where
  "grant_permission user_id pid db =
     (if (user_id, pid) \<in> set (ad_grants db) then db else db\<lparr>ad_grants := ad_grants db @ [(user_id, pid)]\<rparr>)"

definition insert_user :: "string \<Rightarrow> string \<Rightarrow> bool \<Rightarrow> int \<Rightarrow> access_db \<Rightarrow> user_row \<times> access_db" where
  "insert_user username name active now db =
     (let u = \<lparr>us_id = fresh_id (map us_id (ad_users db)), us_username = username, us_name = name, us_active = active,
                us_last_login = None, us_created = now, us_updated = now\<rparr>
      in (u, db\<lparr>ad_users := ad_users db @ [u]\<rparr>))"

definition update_user :: "int \<Rightarrow> (user_row \<Rightarrow> user_row) \<Rightarrow> access_db \<Rightarrow> access_db" where
  "update_user user_id g db = db\<lparr>ad_users := map (\<lambda>u. if us_id u = user_id then g u else u) (ad_users db)\<rparr>"

definition bootstrap_user ::
  "(audit_metadata \<Rightarrow> string) \<Rightarrow> int \<Rightarrow> int \<Rightarrow> string \<Rightarrow> access_db \<Rightarrow> access_error + access_db" where
  "bootstrap_user marshal pid now username db =
     (let (user_id, db1) =
        (case find (\<lambda>u. us_username u = username) (ad_users db) of
           None \<Rightarrow> (let (u, db') = insert_user username username True now db in (us_id u, db'))
         | Some u \<Rightarrow> (us_id u, update_user (us_id u) (\<lambda>v. v\<lparr>us_active := True, us_updated := now\<rparr>) db))
      in append_event marshal
           \<lparr>ev_attribution = \<lparr>att_actor = None, att_effective = None, att_system_actor = ''system:access-bootstrap''\<rparr>,
            ev_action = ''access.bootstrap'', ev_resource = ''user'', ev_resource_id = user_id, ev_metadata = None,
            ev_created_at = now\<rparr> (grant_permission user_id pid db1))"

fun bootstrap_users ::
  "(audit_metadata \<Rightarrow> string) \<Rightarrow> int \<Rightarrow> int \<Rightarrow> string list \<Rightarrow> access_db \<Rightarrow> access_error + access_db" where
  "bootstrap_users marshal pid now [] db = Inr db"
| "bootstrap_users marshal pid now (u # us) db =
     rbind (bootstrap_user marshal pid now u db) (bootstrap_users marshal pid now us)"

definition access_bootstrap ::
  "(audit_metadata \<Rightarrow> string) \<Rightarrow> permission_definition list \<Rightarrow> string \<Rightarrow> int \<Rightarrow> access_db \<Rightarrow> access_error + access_db" where
  "access_bootstrap marshal definitions configured now db =
     rbind (validate_registry [] definitions) (\<lambda>_.
       let db1 = fold (sync_permission now) definitions db in
       case permission_id permission_manage db1 of None \<Rightarrow> Inl ManagePermissionMissing
       | Some pid \<Rightarrow>
           if active_managers pid db1 = 0 then
             rbind (bootstrap_usernames [] (split_byte (CHR '','') configured)) (\<lambda>us.
               bootstrap_users marshal pid now us db1)
           else Inr db1)"

section \<open>Users\<close>

definition find_user :: "int \<Rightarrow> access_db \<Rightarrow> access_error + user_row" where
  "find_user user_id db = (case find (\<lambda>u. us_id u = user_id) (ad_users db) of None \<Rightarrow> Inl UserNotFound | Some u \<Rightarrow> Inr u)"

definition find_username :: "string \<Rightarrow> access_db \<Rightarrow> access_error + user_row" where
  "find_username username db =
     (let u = normalize_username username in
      rbind (validate_username u) (\<lambda>_.
        case find (\<lambda>r. us_username r = u) (ad_users db) of None \<Rightarrow> Inl UserNotFound | Some r \<Rightarrow> Inr r))"

definition create_user :: "string \<Rightarrow> string \<Rightarrow> bool \<Rightarrow> int \<Rightarrow> access_db \<Rightarrow> access_error + user_row \<times> access_db" where
  "create_user username name active now db =
     (let u = normalize_username username; n = trim_space name in
      rbind (validate_username u) (\<lambda>_. rbind (validate_name n) (\<lambda>_.
        if list_ex (\<lambda>r. us_username r = u) (ad_users db) then Inl UsernameTaken
        else Inr (insert_user u n active now db))))"

text \<open>The user, whether it was provisioned, and the tables after it.\<close>

definition find_or_create_user :: "string \<Rightarrow> int \<Rightarrow> access_db \<Rightarrow> access_error + user_row \<times> bool \<times> access_db" where
  "find_or_create_user username now db =
     (let u = normalize_username username in
      rbind (validate_username u) (\<lambda>_.
        case find_username u db of
          Inr r \<Rightarrow> Inr (r, False, db)
        | Inl e \<Rightarrow>
            if e \<noteq> UserNotFound then Inl e
            else (case create_user u u True now db of
                    Inr (r, db') \<Rightarrow> Inr (r, True, db')
                  | Inl e' \<Rightarrow> if e' \<noteq> UsernameTaken then Inl e'
                              else rbind (find_username u db) (\<lambda>r. Inr (r, False, db)))))"

definition update_last_login :: "int \<Rightarrow> int \<Rightarrow> access_db \<Rightarrow> access_db" where
  "update_last_login user_id now db = update_user user_id (\<lambda>u. u\<lparr>us_last_login := Some now, us_updated := now\<rparr>) db"

section \<open>Permission and status changes\<close>

definition requester_attribution :: "identity \<Rightarrow> attribution" where
  "requester_attribution i = \<lparr>att_actor = Some i, att_effective = Some i, att_system_actor = ''''\<rparr>"

definition require_active_manager :: "int \<Rightarrow> access_db \<Rightarrow> access_error + unit" where
  "require_active_manager pid db = (if active_managers pid db = 0 then Inl LastAccessManager else Inr ())"

definition permission_ids :: "string list \<Rightarrow> access_db \<Rightarrow> (string \<times> int) list" where
  "permission_ids keys db = map (\<lambda>p. (pm_key p, pm_id p)) (filter (\<lambda>p. pm_key p \<in> set keys) (ad_permissions db))"

definition assigned_permissions :: "int \<Rightarrow> string list \<Rightarrow> access_db \<Rightarrow> string list" where
  "assigned_permissions user_id keys db =
     map pm_key (filter (\<lambda>p. (user_id, pm_id p) \<in> set (ad_grants db) \<and> pm_key p \<in> set keys) (ad_permissions db))"

definition permission_changes :: "string list \<Rightarrow> string list \<Rightarrow> string list \<times> string list" where
  "permission_changes existing selected =
     (sort (remdups (filter (\<lambda>k. k \<notin> set existing) selected)),
      sort (remdups (filter (\<lambda>k. k \<notin> set selected) existing)))"

fun insert_grants :: "int \<Rightarrow> (string \<times> int) list \<Rightarrow> string list \<Rightarrow> access_db \<Rightarrow> access_error + access_db" where
  "insert_grants user_id ids [] db = Inr db"
| "insert_grants user_id ids (k # ks) db =
     (let pid = (case map_of ids k of None \<Rightarrow> 0 | Some i \<Rightarrow> i) in
      if (user_id, pid) \<in> set (ad_grants db) \<or> pid \<notin> set (map pm_id (ad_permissions db)) then Inl DuplicateGrant
      else insert_grants user_id ids ks (db\<lparr>ad_grants := ad_grants db @ [(user_id, pid)]\<rparr>))"

definition store_replace_permissions ::
  "(audit_metadata \<Rightarrow> string) \<Rightarrow> identity \<Rightarrow> int \<Rightarrow> string list \<Rightarrow> string list \<Rightarrow> int \<Rightarrow> access_db \<Rightarrow> access_error + access_db" where
  "store_replace_permissions marshal requester user_id canonical selected now db =
     (case permission_id permission_manage db of None \<Rightarrow> Inl ManagePermissionMissing
      | Some manage \<Rightarrow> rbind (find_user user_id db) (\<lambda>target.
          if canonical = [] then Inl EmptyQuery
          else
            let ids = permission_ids canonical db in
            if length (remdups (map fst ids)) \<noteq> length canonical then Inl UnknownPermission
            else
              let existing = assigned_permissions user_id canonical db;
                  db1 = db\<lparr>ad_grants := filter (\<lambda>(u, p). \<not> (u = user_id \<and> p \<in> set (map snd ids))) (ad_grants db)\<rparr>
              in rbind (insert_grants user_id ids selected db1) (\<lambda>db2.
                   rbind (if us_active target then require_active_manager manage db2 else Inr ()) (\<lambda>_.
                     let (added, removed) = permission_changes existing selected in
                     append_event marshal
                       \<lparr>ev_attribution = requester_attribution requester, ev_action = ''user.permissions_updated'',
                        ev_resource = ''user'', ev_resource_id = user_id,
                        ev_metadata = Some (PermissionsUpdated added removed), ev_created_at = now\<rparr> db2))))"

definition status_name :: "bool \<Rightarrow> string" where
  "status_name active = (if active then ''active'' else ''inactive'')"

definition store_set_active ::
  "(audit_metadata \<Rightarrow> string) \<Rightarrow> identity \<Rightarrow> int \<Rightarrow> bool \<Rightarrow> int \<Rightarrow> access_db \<Rightarrow> access_error + access_db" where
  "store_set_active marshal requester user_id active now db =
     (case permission_id permission_manage db of None \<Rightarrow> Inl ManagePermissionMissing
      | Some manage \<Rightarrow> rbind (find_user user_id db) (\<lambda>target.
          let db1 = update_user user_id (\<lambda>u. u\<lparr>us_active := active, us_updated := now\<rparr>) db;
              db2 = (if active then db1 else db1\<lparr>ad_sessions := filter (\<lambda>s. se_user_id s \<noteq> user_id) (ad_sessions db1)\<rparr>)
          in rbind (if active then Inr () else require_active_manager manage db2) (\<lambda>_.
               append_event marshal
                 \<lparr>ev_attribution = requester_attribution requester,
                  ev_action = (if active then ''user.activated'' else ''user.deactivated''),
                  ev_resource = ''user'', ev_resource_id = user_id,
                  ev_metadata = Some (StatusChange (status_name (us_active target)) (status_name active)),
                  ev_created_at = now\<rparr> db2)))"

text \<open>The service in front of the store: baseline and unknown keys are refused, duplicates dropped.\<close>

fun select_keys :: "string list \<Rightarrow> string list \<Rightarrow> string list \<Rightarrow> access_error + string list" where
  "select_keys known acc [] = Inr (rev acc)"
| "select_keys known acc (k # ks) =
     (if k = permission_loan_inquiry then Inl BaselinePermission
      else if k \<notin> set known then Inl UnknownPermission
      else if k \<in> set acc then select_keys known acc ks else select_keys known (k # acc) ks)"

definition canonical_keys :: "permission_definition list \<Rightarrow> string list" where
  "canonical_keys definitions = filter (\<lambda>k. k \<noteq> permission_loan_inquiry) (map pd_key definitions)"

definition replace_permissions ::
  "(audit_metadata \<Rightarrow> string) \<Rightarrow> permission_definition list \<Rightarrow> identity \<Rightarrow> int \<Rightarrow> string list \<Rightarrow> int \<Rightarrow> access_db
     \<Rightarrow> access_error + access_db" where
  "replace_permissions marshal definitions requester user_id submitted now db =
     rbind (select_keys (canonical_keys definitions) [] submitted) (\<lambda>selected.
       store_replace_permissions marshal requester user_id (canonical_keys definitions) selected now db)"

definition set_active ::
  "(audit_metadata \<Rightarrow> string) \<Rightarrow> identity \<Rightarrow> int \<Rightarrow> bool \<Rightarrow> int \<Rightarrow> access_db \<Rightarrow> access_error + access_db" where
  "set_active marshal requester user_id active now db =
     (if user_id = 0 then Inl UserNotFound else store_set_active marshal requester user_id active now db)"

section \<open>Sessions\<close>

definition session_create ::
  "int \<Rightarrow> string \<Rightarrow> bool \<Rightarrow> int \<Rightarrow> int \<Rightarrow> int \<Rightarrow> access_db \<Rightarrow> access_error + session_row \<times> access_db" where
  "session_create user_id token_hash remember expires last_seen now db =
     (if user_id = 0 \<or> token_hash = replicate 32 (CHR 0x00) \<or> last_seen = 0 \<or> \<not> now < expires
         \<or> list_ex (\<lambda>s. se_token_hash s = token_hash) (ad_sessions db) \<or> \<not> list_ex (\<lambda>u. us_id u = user_id) (ad_users db)
      then Inl SessionRefused
      else
        let s = \<lparr>se_id = fresh_id (map se_id (ad_sessions db)), se_user_id = user_id, se_token_hash = token_hash,
                 se_remember_me = remember, se_expires_at = expires, se_last_seen_at = last_seen,
                 se_created_at = now, se_updated_at = now\<rparr>
        in Inr (s, db\<lparr>ad_sessions := ad_sessions db @ [s]\<rparr>))"

definition find_valid_session :: "string \<Rightarrow> int \<Rightarrow> access_db \<Rightarrow> access_error + session_row" where
  "find_valid_session token_hash now db =
     (case find (\<lambda>s. se_token_hash s = token_hash \<and> now < se_expires_at s) (ad_sessions db) of
        None \<Rightarrow> Inl SessionNotFound | Some s \<Rightarrow> Inr s)"

definition session_touch :: "int \<Rightarrow> int \<Rightarrow> access_db \<Rightarrow> access_db" where
  "session_touch session_id now db =
     db\<lparr>ad_sessions := map (\<lambda>s. if se_id s = session_id then s\<lparr>se_last_seen_at := now, se_updated_at := now\<rparr> else s)
        (ad_sessions db)\<rparr>"

definition session_revoke :: "string \<Rightarrow> access_db \<Rightarrow> access_db" where
  "session_revoke token_hash db = db\<lparr>ad_sessions := filter (\<lambda>s. se_token_hash s \<noteq> token_hash) (ad_sessions db)\<rparr>"

definition session_revoke_all :: "int \<Rightarrow> access_db \<Rightarrow> access_db" where
  "session_revoke_all user_id db = db\<lparr>ad_sessions := filter (\<lambda>s. se_user_id s \<noteq> user_id) (ad_sessions db)\<rparr>"

definition session_delete_expired :: "int \<Rightarrow> access_db \<Rightarrow> access_db \<times> nat" where
  "session_delete_expired now db =
     (db\<lparr>ad_sessions := filter (\<lambda>s. \<not> se_expires_at s \<le> now) (ad_sessions db)\<rparr>,
      length (filter (\<lambda>s. se_expires_at s \<le> now) (ad_sessions db)))"

end
