(* ===== verification/Access_Control.thy ===== *)
theory Access_Control
  imports Access_Store
begin

text \<open>
  What the transactions of \<open>Access_Store\<close> keep: once the bootstrap has run, an active user with the permission
  \<open>access.manage\<close> remains whatever transactions follow, and a permission change has exactly the
  requested effect. \<open>access_step\<close> is the relation of all committed transactions.
\<close>

section \<open>A manager always remains\<close>

definition has_manager :: "access_db \<Rightarrow> bool" where
  "has_manager db \<longleftrightarrow>
     (\<exists>pid. permission_id permission_manage db = Some pid
        \<and> (\<exists>u \<in> set (ad_users db). us_active u \<and> (us_id u, pid) \<in> set (ad_grants db)))"

definition ids_ok :: "access_db \<Rightarrow> bool" where
  "ids_ok db \<longleftrightarrow> distinct (map us_id (ad_users db))"

lemma active_managers_pos:
  "active_managers pid db \<noteq> 0 \<longleftrightarrow> (\<exists>u \<in> set (ad_users db). us_active u \<and> (us_id u, pid) \<in> set (ad_grants db))"
  by (auto simp: active_managers_def filter_empty_conv)

lemma require_active_manager_Inr:
  "require_active_manager pid db = Inr x \<longleftrightarrow>
     (\<exists>u \<in> set (ad_users db). us_active u \<and> (us_id u, pid) \<in> set (ad_grants db))"
  using active_managers_pos [of pid db] by (auto simp: require_active_manager_def)

lemma append_event_Inr:
  assumes "append_event marshal ev db = Inr db'"
  shows "\<exists>r. db' = db\<lparr>ad_audit := ad_audit db @ [r]\<rparr>"
  using assms
  by (auto simp: append_event_def lift_audit_def audit_append_def res_simps split: sum.split_asm if_split_asm)

lemma find_map_key:
  assumes "\<And>x. P (f x) = P x"
  shows "find P (map f xs) = map_option f (find P xs)"
  using assms by (induction xs) auto

lemma find_append_Some: "find P xs = Some x \<Longrightarrow> find P (xs @ ys) = Some x"
  by (induction xs) auto

lemma sync_permission_keeps:
  assumes "permission_id k db = Some i"
  shows "permission_id k (sync_permission now d db) = Some i"
    and "ad_users (sync_permission now d db) = ad_users db" and "ad_grants (sync_permission now d db) = ad_grants db"
proof -
  show "permission_id k (sync_permission now d db) = Some i"
  proof (cases "list_ex (\<lambda>p. pm_key p = pd_key d) (ad_permissions db)")
    case True
    define f where "f = (\<lambda>p :: permission_row. if pm_key p = pd_key d then
             p\<lparr>pm_updated := (if pm_name p \<noteq> pd_name d \<or> pm_group p \<noteq> pd_group d \<or> pm_description p \<noteq> pd_description d
                               then now else pm_updated p),
               pm_name := pd_name d, pm_group := pd_group d, pm_description := pd_description d\<rparr> else p)"
    have f: "pm_key (f p) = pm_key p" "pm_id (f p) = pm_id p" for p by (simp_all add: f_def)
    have "sync_permission now d db = db\<lparr>ad_permissions := map f (ad_permissions db)\<rparr>"
      using True by (simp add: sync_permission_def f_def)
    then show ?thesis
      using assms f by (simp add: permission_id_def find_map_key option.map_comp comp_def)
  next
    case False
    then show ?thesis
      using assms by (auto simp: permission_id_def sync_permission_def find_append_Some)
  qed
qed (simp_all add: sync_permission_def)

lemma fold_sync:
  "ad_users (fold (sync_permission now) ds db) = ad_users db"
  "ad_grants (fold (sync_permission now) ds db) = ad_grants db"
  by (induction ds arbitrary: db) (simp_all add: sync_permission_def)

lemma update_user_keeps:
  "ad_permissions (update_user i g db) = ad_permissions db" "ad_grants (update_user i g db) = ad_grants db"
  "ad_sessions (update_user i g db) = ad_sessions db"
  by (simp_all add: update_user_def)

lemma update_user_ids: "(\<And>u. us_id (g u) = us_id u) \<Longrightarrow> map us_id (ad_users (update_user i g db)) = map us_id (ad_users db)"
  by (simp add: update_user_def)

lemma insert_user_ids: "ids_ok db \<Longrightarrow> ids_ok (snd (insert_user n m a now db))"
  using fresh_id_new [of "map us_id (ad_users db)"] by (auto simp: ids_ok_def insert_user_def Let_def)

lemma bootstrap_user_Inr:
  assumes "bootstrap_user marshal pid now username db = Inr db'" and "ids_ok db"
  shows "ids_ok db'" and "ad_permissions db' = ad_permissions db"
    and "\<exists>u \<in> set (ad_users db'). us_active u \<and> (us_id u, pid) \<in> set (ad_grants db')"
proof -
  define g where "g = (\<lambda>v :: user_row. v\<lparr>us_active := True, us_updated := now\<rparr>)"
  obtain i db1 where i: "(case find (\<lambda>u. us_username u = username) (ad_users db) of
           None \<Rightarrow> (let (u, db') = insert_user username username True now db in (us_id u, db'))
         | Some u \<Rightarrow> (us_id u, update_user (us_id u) g db)) = (i, db1)"
    by force
  then obtain r where r: "db' = (grant_permission i pid db1)\<lparr>ad_audit := ad_audit (grant_permission i pid db1) @ [r]\<rparr>"
    using assms(1) append_event_Inr unfolding bootstrap_user_def g_def by (fastforce split: prod.split_asm)
  have "\<exists>u \<in> set (ad_users db1). us_active u \<and> us_id u = i"
  proof (cases "find (\<lambda>u. us_username u = username) (ad_users db)")
    case None
    then show ?thesis using i by (auto simp: insert_user_def Let_def)
  next
    case (Some u)
    then have eq: "i = us_id u" "db1 = update_user (us_id u) g db"
      using i by auto
    have "u \<in> set (ad_users db)" using Some by (auto simp: find_Some_iff)
    then have "g u \<in> set (ad_users db1)" by (auto simp: update_user_def eq)
    moreover have "us_active (g u) \<and> us_id (g u) = i" by (simp add: g_def eq)
    ultimately show ?thesis by blast
  qed
  moreover have "ad_users db' = ad_users db1" "ad_permissions db' = ad_permissions db1" "(i, pid) \<in> set (ad_grants db')"
    by (simp_all add: r grant_permission_def)
  ultimately show "\<exists>u \<in> set (ad_users db'). us_active u \<and> (us_id u, pid) \<in> set (ad_grants db')" by auto
  have "ids_ok db1 \<and> ad_permissions db1 = ad_permissions db"
    using i assms(2) insert_user_ids [OF assms(2), of username username True now] update_user_ids [of g _ db]
    by (auto simp: ids_ok_def g_def Let_def insert_user_def update_user_keeps split: option.split_asm prod.split_asm)
  then show "ids_ok db'" "ad_permissions db' = ad_permissions db"
    using \<open>ad_users db' = ad_users db1\<close> \<open>ad_permissions db' = ad_permissions db1\<close> by (simp_all add: ids_ok_def)
qed

lemma bootstrap_users_Inr:
  "bootstrap_users marshal pid now us db = Inr db' \<Longrightarrow> ids_ok db \<Longrightarrow> us \<noteq> [] \<Longrightarrow>
   ids_ok db' \<and> ad_permissions db' = ad_permissions db
   \<and> (\<exists>u \<in> set (ad_users db'). us_active u \<and> (us_id u, pid) \<in> set (ad_grants db'))"
proof (induction us arbitrary: db)
  case (Cons u us)
  from Cons.prems(1) obtain db1 where b: "bootstrap_user marshal pid now u db = Inr db1"
    and rest: "bootstrap_users marshal pid now us db1 = Inr db'" by (auto simp: rbind_eq_Inr)
  note f = bootstrap_user_Inr [OF b Cons.prems(2)]
  show ?case
  proof (cases "us = []")
    case True
    then show ?thesis using rest f by simp
  next
    case False
    then show ?thesis using Cons.IH [OF rest f(1)] f(2) by simp
  qed
qed simp

lemma bootstrap_usernames_nonempty: "bootstrap_usernames result raws = Inr us \<Longrightarrow> us \<noteq> []"
  by (induction result raws rule: bootstrap_usernames.induct) (auto simp: Let_def rbind_eq_Inr split: if_split_asm)

lemma bootstrap_manager:
  assumes "access_bootstrap marshal definitions configured now db = Inr db'" and "ids_ok db"
  shows "ids_ok db' \<and> has_manager db'"
proof -
  let ?db1 = "fold (sync_permission now) definitions db"
  from assms(1) obtain pid where pid: "permission_id permission_manage ?db1 = Some pid" and
    rest: "(if active_managers pid ?db1 = 0 then
             rbind (bootstrap_usernames [] (split_byte (CHR '','') configured)) (\<lambda>us.
               bootstrap_users marshal pid now us ?db1)
           else Inr ?db1) = Inr db'"
    by (auto simp: access_bootstrap_def Let_def rbind_eq_Inr split: option.split_asm)
  have ids: "ids_ok ?db1" using assms(2) fold_sync by (simp add: ids_ok_def)
  show ?thesis
  proof (cases "active_managers pid ?db1 = 0")
    case True
    then obtain us where "bootstrap_users marshal pid now us ?db1 = Inr db'" "us \<noteq> []"
      using rest bootstrap_usernames_nonempty by (auto simp: rbind_eq_Inr)
    then show ?thesis
      using bootstrap_users_Inr ids pid by (fastforce simp: has_manager_def permission_id_def)
  next
    case False
    then show ?thesis using rest ids pid active_managers_pos [of pid ?db1] by (auto simp: has_manager_def)
  qed
qed

lemma insert_grants_Inr:
  "insert_grants user_id ids ks db = Inr db' \<Longrightarrow>
   \<exists>new. db' = db\<lparr>ad_grants := ad_grants db @ new\<rparr> \<and> map fst new = replicate (length ks) user_id
     \<and> map snd new = map (\<lambda>k. case map_of ids k of None \<Rightarrow> 0 | Some i \<Rightarrow> i) ks"
proof (induction ks arbitrary: db)
  case Nil
  then show ?case by (auto intro: exI [of _ "[]"])
next
  case (Cons k ks)
  define pid where "pid = (case map_of ids k of None \<Rightarrow> 0 | Some i \<Rightarrow> i)"
  from Cons.prems have "insert_grants user_id ids ks (db\<lparr>ad_grants := ad_grants db @ [(user_id, pid)]\<rparr>) = Inr db'"
    by (auto simp: pid_def Let_def split: if_split_asm)
  from Cons.IH [OF this] obtain new where
    new: "db' = db\<lparr>ad_grants := ad_grants db @ (user_id, pid) # new\<rparr>" "map fst new = replicate (length ks) user_id"
      "map snd new = map (\<lambda>k. case map_of ids k of None \<Rightarrow> 0 | Some i \<Rightarrow> i) ks" by auto
  then show ?case by (intro exI [of _ "(user_id, pid) # new"]) (simp add: pid_def)
qed

lemma find_user_Inr: "find_user i db = Inr u \<Longrightarrow> u \<in> set (ad_users db) \<and> us_id u = i"
  by (auto simp: find_user_def find_Some_iff split: option.split_asm)

lemma ids_ok_unique: "ids_ok db \<Longrightarrow> u \<in> set (ad_users db) \<Longrightarrow> v \<in> set (ad_users db) \<Longrightarrow> us_id u = us_id v \<Longrightarrow> u = v"
  by (auto simp: ids_ok_def distinct_map dest: inj_onD)

definition other_grants :: "int \<Rightarrow> access_db \<Rightarrow> (int \<times> int) set" where
  "other_grants user_id db = {g \<in> set (ad_grants db). fst g \<noteq> user_id}"

lemma store_replace_permissions_Inr:
  assumes "store_replace_permissions marshal requester user_id canonical selected now db = Inr db'"
  obtains target manage db2 r where "permission_id permission_manage db = Some manage" and "find_user user_id db = Inr target"
    and "canonical \<noteq> []" and "length (remdups (map fst (permission_ids canonical db))) = length canonical"
    and "insert_grants user_id (permission_ids canonical db) selected
           (db\<lparr>ad_grants := filter (\<lambda>(u, p). \<not> (u = user_id \<and> p \<in> set (map snd (permission_ids canonical db)))) (ad_grants db)\<rparr>) = Inr db2"
    and "us_active target \<longrightarrow> require_active_manager manage db2 = Inr ()"
    and "db' = db2\<lparr>ad_audit := ad_audit db2 @ [r]\<rparr>"
proof -
  from assms obtain manage target db2 where
    *: "permission_id permission_manage db = Some manage" "find_user user_id db = Inr target"
       "canonical \<noteq> []" "length (remdups (map fst (permission_ids canonical db))) = length canonical"
       "insert_grants user_id (permission_ids canonical db) selected
          (db\<lparr>ad_grants := filter (\<lambda>(u, p). \<not> (u = user_id \<and> p \<in> set (map snd (permission_ids canonical db)))) (ad_grants db)\<rparr>) = Inr db2"
       "(if us_active target then require_active_manager manage db2 else Inr ()) = Inr ()"
    and ev: "(let (added, removed) = permission_changes (assigned_permissions user_id canonical db) selected in
                     append_event marshal
                       \<lparr>ev_attribution = requester_attribution requester, ev_action = ''user.permissions_updated'',
                        ev_resource = ''user'', ev_resource_id = user_id,
                        ev_metadata = Some (PermissionsUpdated added removed), ev_created_at = now\<rparr> db2) = Inr db'"
    by (auto simp: store_replace_permissions_def Let_def rbind_eq_Inr simp del: length_remdups_concat split: option.split_asm if_split_asm)
  from ev obtain r where "db' = db2\<lparr>ad_audit := ad_audit db2 @ [r]\<rparr>"
    by (auto simp: Let_def split: prod.split_asm dest: append_event_Inr)
  with * that show ?thesis by (simp split: if_split_asm)
qed

lemma store_replace_keeps:
  assumes "store_replace_permissions marshal requester user_id canonical selected now db = Inr db'"
  shows "ad_users db' = ad_users db" and "ad_permissions db' = ad_permissions db" and "ad_sessions db' = ad_sessions db"
    and "other_grants user_id db' = other_grants user_id db"
proof -
  from assms obtain target manage db2 r where
    ins: "insert_grants user_id (permission_ids canonical db) selected
           (db\<lparr>ad_grants := filter (\<lambda>(u, p). \<not> (u = user_id \<and> p \<in> set (map snd (permission_ids canonical db)))) (ad_grants db)\<rparr>) = Inr db2"
    and db': "db' = db2\<lparr>ad_audit := ad_audit db2 @ [r]\<rparr>"
    by (rule store_replace_permissions_Inr)
  from insert_grants_Inr [OF ins] obtain new where
    new: "db2 = db\<lparr>ad_grants := filter (\<lambda>(u, p). \<not> (u = user_id \<and> p \<in> set (map snd (permission_ids canonical db)))) (ad_grants db) @ new\<rparr>"
    and fst: "map fst new = replicate (length selected) user_id" by auto
  show "ad_users db' = ad_users db" "ad_permissions db' = ad_permissions db" "ad_sessions db' = ad_sessions db"
    by (simp_all add: db' new)
  have "fst g = user_id" if "g \<in> set new" for g
    using that fst by (metis in_set_replicate image_eqI set_map)
  then show "other_grants user_id db' = other_grants user_id db"
    by (auto simp: db' new other_grants_def)
qed

lemma store_replace_manager:
  assumes "store_replace_permissions marshal requester user_id canonical selected now db = Inr db'"
    and "ids_ok db" and "has_manager db"
  shows "ids_ok db' \<and> has_manager db'"
proof -
  note keeps = store_replace_keeps [OF assms(1)]
  from assms(1) obtain target manage db2 r where t: "find_user user_id db = Inr target"
    and m: "permission_id permission_manage db = Some manage"
    and act: "us_active target \<longrightarrow> require_active_manager manage db2 = Inr ()"
    and db': "db' = db2\<lparr>ad_audit := ad_audit db2 @ [r]\<rparr>"
    by (rule store_replace_permissions_Inr)
  have pid: "permission_id permission_manage db' = Some manage" using m keeps(2) by (simp add: permission_id_def)
  have "\<exists>u \<in> set (ad_users db'). us_active u \<and> (us_id u, manage) \<in> set (ad_grants db')"
  proof (cases "us_active target")
    case True
    then show ?thesis using act by (simp add: require_active_manager_Inr db')
  next
    case False
    from assms(3) m obtain u where u: "u \<in> set (ad_users db)" "us_active u" "(us_id u, manage) \<in> set (ad_grants db)"
      by (auto simp: has_manager_def)
    moreover have "us_id u \<noteq> user_id"
      using ids_ok_unique [OF assms(2) u(1), of target] find_user_Inr [OF t] False u(2) by auto
    ultimately have "(us_id u, manage) \<in> other_grants user_id db'" by (simp add: keeps(4)) (simp add: other_grants_def)
    then show ?thesis using u keeps(1) by (auto simp: other_grants_def)
  qed
  then show ?thesis using pid keeps(1) assms(2) by (auto simp: has_manager_def ids_ok_def)
qed

lemma store_set_active_Inr:
  assumes "store_set_active marshal requester user_id active now db = Inr db'"
  obtains manage target db2 r where "permission_id permission_manage db = Some manage" and "find_user user_id db = Inr target"
    and "db2 = (let db1 = update_user user_id (\<lambda>u. u\<lparr>us_active := active, us_updated := now\<rparr>) db in
               if active then db1 else db1\<lparr>ad_sessions := filter (\<lambda>s. se_user_id s \<noteq> user_id) (ad_sessions db1)\<rparr>)"
    and "\<not> active \<longrightarrow> require_active_manager manage db2 = Inr ()"
    and "db' = db2\<lparr>ad_audit := ad_audit db2 @ [r]\<rparr>"
proof -
  from assms obtain manage target where *: "permission_id permission_manage db = Some manage" "find_user user_id db = Inr target"
    by (auto simp: store_set_active_def rbind_eq_Inr split: option.split_asm)
  define db2 where "db2 = (let db1 = update_user user_id (\<lambda>u. u\<lparr>us_active := active, us_updated := now\<rparr>) db in
               if active then db1 else db1\<lparr>ad_sessions := filter (\<lambda>s. se_user_id s \<noteq> user_id) (ad_sessions db1)\<rparr>)"
  from assms * obtain ev where act: "(if active then Inr () else require_active_manager manage db2) = Inr ()"
    and "append_event marshal ev db2 = Inr db'"
    by (auto simp: store_set_active_def db2_def rbind_eq_Inr Let_def split: if_split_asm)
  then show ?thesis using that [OF * db2_def] append_event_Inr by (fastforce split: if_split_asm)
qed

lemma update_user_manager:
  assumes "has_manager db" and "ids_ok db" and "\<And>u. us_id (g u) = us_id u" and "\<And>u. us_active u \<Longrightarrow> us_active (g u)"
  shows "has_manager (update_user i g db) \<and> ids_ok (update_user i g db)"
proof -
  from assms(1) obtain pid u where pid: "permission_id permission_manage db = Some pid"
    and u: "u \<in> set (ad_users db)" "us_active u" "(us_id u, pid) \<in> set (ad_grants db)" by (auto simp: has_manager_def)
  let ?u = "if us_id u = i then g u else u"
  have "?u \<in> set (ad_users (update_user i g db))" using u(1) by (simp add: update_user_def)
  moreover have "us_active ?u \<and> (us_id ?u, pid) \<in> set (ad_grants (update_user i g db))"
    using u assms(3,4) by (auto simp: update_user_keeps)
  ultimately show ?thesis
    using pid assms(2) update_user_ids [of g i db] assms(3)
    by (auto simp: has_manager_def permission_id_def update_user_keeps ids_ok_def simp del: set_map)
qed

lemma store_set_active_manager:
  assumes "store_set_active marshal requester user_id active now db = Inr db'" and "ids_ok db" and "has_manager db"
  shows "ids_ok db' \<and> has_manager db'"
proof -
  let ?g = "\<lambda>u :: user_row. u\<lparr>us_active := active, us_updated := now\<rparr>"
  from assms(1) obtain manage target db2 r where m: "permission_id permission_manage db = Some manage"
    and db2: "db2 = (let db1 = update_user user_id ?g db in
               if active then db1 else db1\<lparr>ad_sessions := filter (\<lambda>s. se_user_id s \<noteq> user_id) (ad_sessions db1)\<rparr>)"
    and act: "\<not> active \<longrightarrow> require_active_manager manage db2 = Inr ()"
    and db': "db' = db2\<lparr>ad_audit := ad_audit db2 @ [r]\<rparr>"
    by (rule store_set_active_Inr)
  have ids: "ids_ok db'" using update_user_ids [of ?g user_id db] assms(2)
    by (cases active) (simp_all add: ids_ok_def db' db2 Let_def)
  show ?thesis
  proof (cases active)
    case True
    then show ?thesis
      using update_user_manager [OF assms(3,2), of ?g user_id]
      by (simp add: db' db2 has_manager_def permission_id_def ids_ok_def)
  next
    case False
    then have "\<exists>u \<in> set (ad_users db2). us_active u \<and> (us_id u, manage) \<in> set (ad_grants db2)"
      using act by (simp add: require_active_manager_Inr)
    moreover have "permission_id permission_manage db' = Some manage"
      using m by (simp add: db' db2 permission_id_def Let_def update_user_keeps)
    ultimately show ?thesis using ids by (simp add: has_manager_def db')
  qed
qed

lemma create_user_Inr:
  "create_user username name active now db = Inr (r, db') \<Longrightarrow>
     db' = snd (insert_user (normalize_username username) (trim_space name) active now db)"
  by (auto simp: create_user_def Let_def rbind_eq_Inr split: if_split_asm)

lemma insert_user_manager: "has_manager db \<Longrightarrow> has_manager (snd (insert_user n m a now db))"
  by (auto simp: has_manager_def insert_user_def Let_def permission_id_def)

lemma find_or_create_user_manager:
  assumes "find_or_create_user username now db = Inr (u, p, db')" and "ids_ok db" and "has_manager db"
  shows "ids_ok db' \<and> has_manager db'"
proof (cases "db' = db")
  case False
  then obtain r where "create_user (normalize_username username) (normalize_username username) True now db = Inr (r, db')"
    using assms(1)
    by (auto simp: find_or_create_user_def Let_def rbind_eq_Inr split: sum.split_asm if_split_asm prod.split_asm)
  then have "db' = snd (insert_user (normalize_username (normalize_username username)) (trim_space (normalize_username username)) True now db)"
    by (rule create_user_Inr)
  then show ?thesis using insert_user_ids [OF assms(2)] insert_user_manager [OF assms(3)] by simp
qed (use assms in simp)

text \<open>Every transaction on the access tables; a failed one is rolled back and is no step.\<close>

inductive access_step :: "(audit_metadata \<Rightarrow> string) \<Rightarrow> permission_definition list \<Rightarrow> access_db \<Rightarrow> access_db \<Rightarrow> bool"
  for marshal definitions where
  restart: "access_bootstrap marshal definitions configured now db = Inr db' \<Longrightarrow> access_step marshal definitions db db'"
| replace: "replace_permissions marshal definitions requester user_id submitted now db = Inr db' \<Longrightarrow>
            access_step marshal definitions db db'"
| status: "set_active marshal requester user_id active now db = Inr db' \<Longrightarrow> access_step marshal definitions db db'"
| provision: "find_or_create_user username now db = Inr (u, provisioned, db') \<Longrightarrow> access_step marshal definitions db db'"
| last_login: "access_step marshal definitions db (update_last_login user_id now db)"
| login: "session_create user_id token_hash remember expires last_seen now db = Inr (s, db') \<Longrightarrow>
          access_step marshal definitions db db'"
| touch: "access_step marshal definitions db (session_touch session_id now db)"
| logout: "access_step marshal definitions db (session_revoke token_hash db)"
| logout_all: "access_step marshal definitions db (session_revoke_all user_id db)"
| cleanup: "access_step marshal definitions db (fst (session_delete_expired now db))"
| audit: "append_event marshal ev db = Inr db' \<Longrightarrow> access_step marshal definitions db db'"

lemma sessions_irrelevant:
  "has_manager (db\<lparr>ad_sessions := ss\<rparr>) = has_manager db" "ids_ok (db\<lparr>ad_sessions := ss\<rparr>) = ids_ok db"
  "has_manager (db\<lparr>ad_audit := rs\<rparr>) = has_manager db" "ids_ok (db\<lparr>ad_audit := rs\<rparr>) = ids_ok db"
  by (simp_all add: has_manager_def ids_ok_def permission_id_def)

lemma access_step_manager:
  assumes "access_step marshal definitions db db'" and "ids_ok db" and "has_manager db"
  shows "ids_ok db' \<and> has_manager db'"
  using assms
proof (induction rule: access_step.induct)
  case (replace requester user_id submitted now db db')
  then show ?case by (auto simp: replace_permissions_def rbind_eq_Inr dest: store_replace_manager)
next
  case (status requester user_id active now db db')
  then show ?case by (auto simp: set_active_def split: if_split_asm dest: store_set_active_manager)
next
  case (last_login db user_id now)
  then show ?case
    using update_user_manager [of db "\<lambda>u. u\<lparr>us_last_login := Some now, us_updated := now\<rparr>" user_id]
    by (simp add: update_last_login_def)
next
  case (audit ev db db')
  then show ?case using append_event_Inr by (fastforce simp: sessions_irrelevant)
qed (auto simp: bootstrap_manager find_or_create_user_manager session_create_def session_touch_def session_revoke_def
       session_revoke_all_def session_delete_expired_def sessions_irrelevant Let_def split: if_split_asm)

text \<open>
  C26. After a successful bootstrap on tables with distinct user ids, every sequence of committed
  transactions (permission and status changes, provisioning, logins, session changes, audit rows,
  restarts) leaves at least one active user that holds \<open>access.manage\<close>.
\<close>

theorem access_manager_remains:
  assumes "ids_ok db0" and "access_bootstrap marshal definitions configured now db0 = Inr db1"
    and "(access_step marshal definitions)\<^sup>*\<^sup>* db1 db"
  shows "ids_ok db \<and> has_manager db"
  using assms(3)
proof (induction rule: rtranclp_induct)
  case base
  show ?case using bootstrap_manager assms(1,2) by blast
next
  case (step y z)
  then show ?case using access_step_manager by blast
qed

section \<open>What replacing the permissions of a user does\<close>

definition perms_ok :: "access_db \<Rightarrow> bool" where
  "perms_ok db \<longleftrightarrow> distinct (map pm_key (ad_permissions db)) \<and> distinct (map pm_id (ad_permissions db))"

lemma find_key_iff:
  "distinct (map f xs) \<Longrightarrow> find (\<lambda>x. f x = k) xs = Some x \<longleftrightarrow> x \<in> set xs \<and> f x = k"
  by (induction xs) (auto simp: image_iff)

lemma permission_id_iff:
  "perms_ok db \<Longrightarrow> permission_id k db = Some i \<longleftrightarrow> (\<exists>p \<in> set (ad_permissions db). pm_key p = k \<and> pm_id p = i)"
  by (auto simp: permission_id_def perms_ok_def find_key_iff)

lemma permission_id_inj:
  "perms_ok db \<Longrightarrow> permission_id k db = Some i \<Longrightarrow> permission_id k' db = Some i \<Longrightarrow> k = k'"
  by (auto simp: permission_id_iff perms_ok_def distinct_map dest: inj_onD)

lemma has_permission_iff:
  "perms_ok db \<Longrightarrow> user_has_permission i k db \<longleftrightarrow> (\<exists>pid. permission_id k db = Some pid \<and> (i, pid) \<in> set (ad_grants db))"
  by (auto simp: user_has_permission_def permission_id_iff list_ex_iff)

lemma permission_ids_iff:
  assumes "perms_ok db"
  shows "map_of (permission_ids keys db) k = Some i \<longleftrightarrow> k \<in> set keys \<and> permission_id k db = Some i"
    and "i \<in> set (map snd (permission_ids keys db)) \<longleftrightarrow> (\<exists>k \<in> set keys. permission_id k db = Some i)"
proof -
  have "distinct (map fst (permission_ids keys db))"
    using assms by (simp add: permission_ids_def comp_def perms_ok_def distinct_map_filter)
  then have "map_of (permission_ids keys db) k = Some i \<longleftrightarrow> (k, i) \<in> set (permission_ids keys db)"
    by (rule map_of_eq_Some_iff)
  also have "\<dots> \<longleftrightarrow> k \<in> set keys \<and> permission_id k db = Some i"
    using assms by (auto simp: permission_ids_def permission_id_iff)
  finally show "map_of (permission_ids keys db) k = Some i \<longleftrightarrow> k \<in> set keys \<and> permission_id k db = Some i" .
  show "i \<in> set (map snd (permission_ids keys db)) \<longleftrightarrow> (\<exists>k \<in> set keys. permission_id k db = Some i)"
    using assms by (auto simp: permission_ids_def permission_id_iff)
qed

text \<open>When every canonical key was resolved, each of them has an id.\<close>

lemma permission_ids_complete:
  assumes "perms_ok db" and "length (remdups (map fst (permission_ids keys db))) = length keys" and "k \<in> set keys"
  shows "\<exists>i. permission_id k db = Some i"
proof -
  let ?ks = "map fst (permission_ids keys db)"
  have sub: "set ?ks \<subseteq> set keys" by (auto simp: permission_ids_def)
  have "card (set ?ks) = length keys" using assms(2) by (simp add: length_remdups_card_conv)
  then have "set ?ks = set keys"
    using sub card_length [of keys] card_seteq [OF _ sub] by simp
  then have "k \<in> set ?ks" using assms(3) by simp
  then obtain p where "p \<in> set (ad_permissions db)" "pm_key p = k"
    by (auto simp: permission_ids_def)
  then show ?thesis using assms(1) by (auto simp: permission_id_iff)
qed

lemma store_replace_grants:
  assumes "store_replace_permissions marshal requester user_id canonical selected now db = Inr db'"
    and "perms_ok db" and "set selected \<subseteq> set canonical"
  shows "user_has_permission user_id k db' = (if k \<in> set canonical then k \<in> set selected else user_has_permission user_id k db)"
proof -
  let ?ids = "permission_ids canonical db"
  from assms(1) obtain target manage db2 r where
    len: "length (remdups (map fst ?ids)) = length canonical"
    and ins: "insert_grants user_id ?ids selected
           (db\<lparr>ad_grants := filter (\<lambda>(u, p). \<not> (u = user_id \<and> p \<in> set (map snd ?ids))) (ad_grants db)\<rparr>) = Inr db2"
    and db': "db' = db2\<lparr>ad_audit := ad_audit db2 @ [r]\<rparr>"
    by (rule store_replace_permissions_Inr)
  from insert_grants_Inr [OF ins] obtain new where
    g: "ad_grants db' = filter (\<lambda>(u, p). \<not> (u = user_id \<and> p \<in> set (map snd ?ids))) (ad_grants db) @ new"
    and fst: "map fst new = replicate (length selected) user_id"
    and snd: "map snd new = map (\<lambda>k. case map_of ?ids k of None \<Rightarrow> 0 | Some i \<Rightarrow> i) selected" by (auto simp: db')
  have ids: "the (permission_id k db) = (case map_of ?ids k of None \<Rightarrow> 0 | Some i \<Rightarrow> i)" if "k \<in> set selected" for k
  proof -
    from that obtain i where "permission_id k db = Some i" using permission_ids_complete [OF assms(2) len, of k] assms(3) by blast
    moreover from this have "map_of ?ids k = Some i" using permission_ids_iff(1) [OF assms(2)] that assms(3) by blast
    ultimately show ?thesis by simp
  qed
  have "new = zip (replicate (length selected) user_id) (map snd new)"
    using fst by (metis zip_map_fst_snd)
  also have "\<dots> = map (Pair user_id) (map (\<lambda>k. the (permission_id k db)) selected)"
    using ids by (simp add: snd zip_replicate1)
  finally have new: "set new = (\<lambda>k. (user_id, the (permission_id k db))) ` set selected" by auto
  have keep: "ad_permissions db' = ad_permissions db" by (rule store_replace_keeps(2) [OF assms(1)])
  have pid: "permission_id k db' = permission_id k db" for k by (simp add: permission_id_def keep)
  have mem: "(user_id, i) \<in> set (ad_grants db')
      \<longleftrightarrow> (user_id, i) \<in> set (ad_grants db) \<and> (\<forall>k \<in> set canonical. permission_id k db \<noteq> Some i)
          \<or> (\<exists>k \<in> set selected. permission_id k db = Some i)" for i
  proof -
    have "(user_id, i) \<in> set new \<longleftrightarrow> (\<exists>k \<in> set selected. permission_id k db = Some i)"
      using permission_ids_complete [OF assms(2) len] assms(3) by (force simp: new)
    moreover have "(user_id, i) \<in> set (ad_grants db')
      \<longleftrightarrow> (user_id, i) \<in> set (ad_grants db) \<and> i \<notin> set (map snd ?ids) \<or> (user_id, i) \<in> set new"
      by (simp add: g)
    ultimately show ?thesis using permission_ids_iff(2) [OF assms(2), of i canonical] by blast
  qed
  have "perms_ok db'" using assms(2) by (simp add: perms_ok_def keep)
  then have "user_has_permission user_id k db' \<longleftrightarrow> (\<exists>i. permission_id k db = Some i \<and> (user_id, i) \<in> set (ad_grants db'))"
    by (simp add: has_permission_iff pid)
  then show ?thesis
    using permission_ids_complete [OF assms(2) len, of k] assms(3) permission_id_inj [OF assms(2), of k]
    unfolding mem has_permission_iff [OF assms(2)] by (smt (verit) option.inject subsetD)
qed

lemma select_keys_Inr:
  "select_keys known acc ks = Inr sel \<Longrightarrow> set acc \<subseteq> set known \<Longrightarrow> set sel = set acc \<union> set ks \<and> set sel \<subseteq> set known"
proof (induction ks arbitrary: acc)
  case (Cons k ks)
  then show ?case using Cons.IH [of acc] Cons.IH [of "k # acc"] by (simp split: if_split_asm) blast+
qed auto

text \<open>
  C27. A committed permission change gives the user exactly the submitted keys of the registry other
  than the baseline key, keeps every other permission of that user and all permissions of the other users,
  and touches neither users nor sessions; the submitted keys are all known ones.
\<close>

theorem replace_permissions_exact:
  assumes "perms_ok db" and "replace_permissions marshal definitions requester user_id submitted now db = Inr db'"
  shows "(\<forall>k. user_has_permission user_id k db' =
             (if k \<in> set (canonical_keys definitions) then k \<in> set submitted else user_has_permission user_id k db))
       \<and> (\<forall>i. i = user_id \<or> (\<forall>k. user_has_permission i k db' = user_has_permission i k db))
       \<and> set submitted \<subseteq> set (canonical_keys definitions)
       \<and> ad_users db' = ad_users db \<and> ad_sessions db' = ad_sessions db"
proof -
  from assms(2) obtain sel where "select_keys (canonical_keys definitions) [] submitted = Inr sel"
    and st: "store_replace_permissions marshal requester user_id (canonical_keys definitions) sel now db = Inr db'"
    by (auto simp: replace_permissions_def rbind_eq_Inr)
  then have sel: "set sel = set submitted" "set sel \<subseteq> set (canonical_keys definitions)"
    using select_keys_Inr by fastforce+
  have "(i, p) \<in> set (ad_grants db') \<longleftrightarrow> (i, p) \<in> set (ad_grants db)" if "i \<noteq> user_id" for i p
  proof -
    have "(i, p) \<in> other_grants user_id x \<longleftrightarrow> (i, p) \<in> set (ad_grants x)" for x
      using that by (simp add: other_grants_def)
    then show ?thesis using store_replace_keeps(4) [OF st] by metis
  qed
  then have "i = user_id \<or> (\<forall>k. user_has_permission i k db' = user_has_permission i k db)" for i
    by (auto simp: user_has_permission_def store_replace_keeps(2) [OF st])
  then show ?thesis
    using store_replace_grants [OF st assms(1) sel(2)] sel store_replace_keeps [OF st] by simp
qed

definition sample_definitions :: "permission_definition list" where
  "sample_definitions =
     [\<lparr>pd_key = ''loan.inquiry'', pd_name = ''Loan inquiry'', pd_group = ''Loans'', pd_description = ''''\<rparr>,
      \<lparr>pd_key = ''access.manage'', pd_name = ''Manage'', pd_group = ''Access'', pd_description = ''''\<rparr>,
      \<lparr>pd_key = ''slik.submit'', pd_name = ''Submit'', pd_group = ''SLIK'', pd_description = ''''\<rparr>]"

definition empty_db :: access_db where
  "empty_db = \<lparr>ad_users = [], ad_permissions = [], ad_grants = [], ad_sessions = [], ad_audit = []\<rparr>"

definition sample_db :: access_db where
  "sample_db = (case access_bootstrap (\<lambda>_. ''{}'') sample_definitions ''root, ana'' 5 empty_db of Inl _ \<Rightarrow> empty_db | Inr db \<Rightarrow> db)"

lemma sample_bootstrap: "access_bootstrap (\<lambda>_. ''{}'') sample_definitions ''root, ana'' 5 empty_db = Inr sample_db"
  unfolding sample_db_def by code_simp

definition sample_deactivated :: access_db where
  "sample_deactivated =
     (case set_active (\<lambda>_. ''{}'') \<lparr>idt_user_id = 1, idt_username = ''root''\<rparr> 2 False 9 sample_db of
        Inl _ \<Rightarrow> empty_db | Inr db \<Rightarrow> db)"

lemma sample_deactivation:
  "set_active (\<lambda>_. ''{}'') \<lparr>idt_user_id = 1, idt_username = ''root''\<rparr> 2 False 9 sample_db = Inr sample_deactivated"
  unfolding sample_deactivated_def sample_db_def by code_simp

theorem access_manager_remains_witness:
  "ids_ok sample_deactivated \<and> has_manager sample_deactivated"
proof -
  have "(access_step (\<lambda>_. ''{}'') sample_definitions)\<^sup>*\<^sup>* sample_db sample_deactivated"
    using access_step.status [OF sample_deactivation] by (rule r_into_rtranclp)
  moreover have "ids_ok empty_db" by (simp add: ids_ok_def empty_db_def)
  ultimately show ?thesis using access_manager_remains sample_bootstrap by blast
qed

theorem replace_permissions_exact_witness:
  "user_has_permission 1 ''slik.submit''
     (case replace_permissions (\<lambda>_. ''{}'') sample_definitions \<lparr>idt_user_id = 1, idt_username = ''root''\<rparr> 1
        [''slik.submit'', ''access.manage''] 9 sample_db of Inl _ \<Rightarrow> empty_db | Inr db \<Rightarrow> db)"
proof -
  have "perms_ok sample_db" unfolding sample_db_def by code_simp
  moreover obtain db where db: "replace_permissions (\<lambda>_. ''{}'') sample_definitions \<lparr>idt_user_id = 1, idt_username = ''root''\<rparr> 1
        [''slik.submit'', ''access.manage''] 9 sample_db = Inr db"
  proof -
    have "\<not> isl (replace_permissions (\<lambda>_. ''{}'') sample_definitions \<lparr>idt_user_id = 1, idt_username = ''root''\<rparr> 1
        [''slik.submit'', ''access.manage''] 9 sample_db)" unfolding sample_db_def by code_simp
    then show ?thesis using that by (auto simp: isl_def) (metis sum.exhaust)
  qed
  ultimately have "user_has_permission 1 ''slik.submit'' db"
    using replace_permissions_exact [of sample_db "\<lambda>_. ''{}''" sample_definitions] by (fastforce simp: canonical_keys_def sample_definitions_def permission_loan_inquiry_def)
  then show ?thesis by (simp add: db)
qed

end
