(* ===== verification/Login_Guard.thy ===== *)
theory Login_Guard
  imports Go_Text "HOL-Library.AList"
begin

text \<open>
  The lockout of failed logins, \<open>src/internal/browserauth/security.go\<close>: a table from user names to failure
  counters with lazy expiry. Instants are in microseconds; \<open>None\<close> is the zero time. Each method runs under
  the mutex, so it is one function on the state. The abstract specification keeps one counter per user
  name and forgets it when it expires.
\<close>

record login_failure =
  lf_count :: int
  lf_first :: "int option"
  lf_locked :: "int option"

record login_failures =
  fl_entries :: "(string \<times> login_failure) list"
  fl_window :: int
  fl_lockout :: int
  fl_max :: int
  fl_last_cleanup :: "int option"

record lockout_config =
  lc_window :: int
  lc_max_failures :: int
  lc_lockout :: int

definition lockout_valid :: "lockout_config \<Rightarrow> bool" where
  "lockout_valid c \<longleftrightarrow> \<not> (lc_window c \<le> 0 \<or> lc_max_failures c \<le> 0 \<or> lc_lockout c \<le> 0)"

definition max_login_failure_entries :: int where
  "max_login_failure_entries = 10000"

definition new_login_failures :: "lockout_config \<Rightarrow> login_failures" where
  "new_login_failures c =
     \<lparr>fl_entries = [], fl_window = lc_window c, fl_lockout = lc_lockout c, fl_max = lc_max_failures c,
      fl_last_cleanup = None\<rparr>"

definition no_failure :: login_failure where
  "no_failure = \<lparr>lf_count = 0, lf_first = None, lf_locked = None\<rparr>"

definition after :: "int option \<Rightarrow> int \<Rightarrow> bool" where
  "after t now \<longleftrightarrow> (case t of None \<Rightarrow> False | Some x \<Rightarrow> now < x)"

text \<open>The entries \<open>cleanup\<close> keeps.\<close>

definition entry_live :: "int \<Rightarrow> int \<Rightarrow> login_failure \<Rightarrow> bool" where
  "entry_live window now e \<longleftrightarrow>
     (if lf_locked e \<noteq> None then after (lf_locked e) now
      else after (map_option (\<lambda>t. t + window) (lf_first e)) now)"

definition failures_cleanup :: "int \<Rightarrow> login_failures \<Rightarrow> login_failures" where
  "failures_cleanup now f =
     (if (case fl_last_cleanup f of None \<Rightarrow> False
          | Some t \<Rightarrow> now - t < min 60000000 (min (fl_window f) (fl_lockout f))) then f
      else f\<lparr>fl_entries := filter (\<lambda>(_, e). entry_live (fl_window f) now e) (fl_entries f),
             fl_last_cleanup := Some now\<rparr>)"

definition failure_of :: "string \<Rightarrow> login_failures \<Rightarrow> login_failure" where
  "failure_of u f = (case map_of (fl_entries f) u of None \<Rightarrow> no_failure | Some e \<Rightarrow> e)"

definition failures_blocked :: "string \<Rightarrow> int \<Rightarrow> login_failures \<Rightarrow> bool \<times> login_failures" where
  "failures_blocked u now f =
     (let f1 = failures_cleanup now f; e = failure_of u f1
      in (after (lf_locked e) now,
          if lf_locked e \<noteq> None \<and> \<not> after (lf_locked e) now
          then f1\<lparr>fl_entries := AList.delete u (fl_entries f1)\<rparr> else f1))"

definition failures_fail :: "string \<Rightarrow> int \<Rightarrow> login_failures \<Rightarrow> login_failures" where
  "failures_fail u now f =
     (let f1 = failures_cleanup now f; e = failure_of u f1 in
      if after (lf_locked e) now then f1
      else
        let e1 = (if lf_first e = None \<or> \<not> after (map_option (\<lambda>t. t + fl_window f1) (lf_first e)) now \<or> lf_locked e \<noteq> None
                  then \<lparr>lf_count = 0, lf_first = Some now, lf_locked = None\<rparr> else e)
        in if map_of (fl_entries f1) u = None \<and> int (length (fl_entries f1)) \<ge> max_login_failure_entries then f1
           else
             let e2 = e1\<lparr>lf_count := lf_count e1 + 1\<rparr>;
                 e3 = (if lf_count e2 \<ge> fl_max f1 then e2\<lparr>lf_locked := Some (now + fl_lockout f1)\<rparr> else e2)
             in f1\<lparr>fl_entries := AList.update u e3 (fl_entries f1)\<rparr>)"

definition failures_clear :: "string \<Rightarrow> login_failures \<Rightarrow> login_failures" where
  "failures_clear u f = f\<lparr>fl_entries := AList.delete u (fl_entries f)\<rparr>"

section \<open>Abstract specification\<close>

text \<open>One counter per user name, as seen at an instant; expired counters are gone.\<close>

type_synonym tracker = "string \<rightharpoonup> login_failure"

definition tracker_at :: "int \<Rightarrow> login_failures \<Rightarrow> tracker" where
  "tracker_at now f u =
     (case map_of (fl_entries f) u of None \<Rightarrow> None
      | Some e \<Rightarrow> if entry_live (fl_window f) now e then Some e else None)"

definition spec_blocked :: "tracker \<Rightarrow> string \<Rightarrow> bool" where
  "spec_blocked s u \<longleftrightarrow> (case s u of None \<Rightarrow> False | Some e \<Rightarrow> lf_locked e \<noteq> None)"

definition spec_fail :: "int \<Rightarrow> int \<Rightarrow> int \<Rightarrow> tracker \<Rightarrow> string \<Rightarrow> tracker" where
  "spec_fail maximum lockout now s u =
     (if spec_blocked s u then s
      else
        let n = (case s u of None \<Rightarrow> 1 | Some e \<Rightarrow> lf_count e + 1);
            start = (case s u of None \<Rightarrow> Some now | Some e \<Rightarrow> lf_first e)
        in s(u \<mapsto> \<lparr>lf_count = n, lf_first = start,
                   lf_locked = (if n \<ge> maximum then Some (now + lockout) else None)\<rparr>))"

section \<open>Refinement\<close>

definition failures_ok :: "login_failures \<Rightarrow> bool" where
  "failures_ok f \<longleftrightarrow>
     distinct (map fst (fl_entries f)) \<and> 0 < fl_window f \<and> 0 < fl_lockout f \<and> 0 < fl_max f
     \<and> int (length (fl_entries f)) \<le> max_login_failure_entries
     \<and> (\<forall>e \<in> snd ` set (fl_entries f). lf_first e \<noteq> None)"

lemma map_of_filter_live:
  "distinct (map fst xs) \<Longrightarrow>
   map_of (filter (\<lambda>(_, e). P e) xs) u = (case map_of xs u of None \<Rightarrow> None | Some e \<Rightarrow> if P e then Some e else None)"
  by (induction xs) (auto split: option.splits simp: map_of_eq_None_iff dest: map_of_SomeD)

lemma cleanup_window [simp]:
  "fl_window (failures_cleanup now f) = fl_window f" "fl_max (failures_cleanup now f) = fl_max f"
  "fl_lockout (failures_cleanup now f) = fl_lockout f"
  by (simp_all add: failures_cleanup_def)

lemma cleanup_ok: "failures_ok f \<Longrightarrow> failures_ok (failures_cleanup now f)"
proof -
  assume ok: "failures_ok f"
  have "length (filter (\<lambda>(_, e). entry_live (fl_window f) now e) (fl_entries f)) \<le> length (fl_entries f)"
    by (rule length_filter_le)
  then have "int (length (filter (\<lambda>(_, e). entry_live (fl_window f) now e) (fl_entries f))) \<le> max_login_failure_entries"
    using ok unfolding failures_ok_def by linarith
  then show ?thesis using ok by (auto simp: failures_ok_def failures_cleanup_def distinct_map_filter)
qed

lemma cleanup_tracker: "failures_ok f \<Longrightarrow> tracker_at now (failures_cleanup now f) = tracker_at now f"
  by (auto simp: failures_ok_def failures_cleanup_def tracker_at_def map_of_filter_live fun_eq_iff split: option.splits)

lemma tracker_failure_of:
  assumes "failures_ok f"
  shows "tracker_at now f u = Some e \<Longrightarrow> failure_of u f = e"
    and "tracker_at now f u = None \<Longrightarrow>
      failure_of u f = no_failure \<or> \<not> entry_live (fl_window f) now (failure_of u f)"
  by (auto simp: tracker_at_def failure_of_def split: option.splits if_split_asm)

lemma update_tracker:
  assumes "entry_live (fl_window f) now e"
  shows "tracker_at now (f\<lparr>fl_entries := AList.update u e (fl_entries f)\<rparr>) = (tracker_at now f)(u \<mapsto> e)"
  using assms by (auto simp: tracker_at_def update_conv' fun_eq_iff split: option.split)

lemma delete_tracker:
  "tracker_at now (f\<lparr>fl_entries := AList.delete u (fl_entries f)\<rparr>) = (tracker_at now f)(u := None)"
  by (auto simp: tracker_at_def delete_conv' fun_eq_iff split: option.split)

lemma failure_of_first:
  assumes "failures_ok f" and "lf_first (failure_of u f) = None"
  shows "map_of (fl_entries f) u = None"
  using assms by (auto simp: failures_ok_def failure_of_def no_failure_def split: option.splits dest!: map_of_SomeD)

lemma delete_ok:
  assumes "failures_ok f"
  shows "failures_ok (f\<lparr>fl_entries := AList.delete u (fl_entries f)\<rparr>)"
proof -
  have "int (length (AList.delete u (fl_entries f))) \<le> max_login_failure_entries"
    using assms length_delete_le [of u "fl_entries f"] unfolding failures_ok_def by linarith
  then show ?thesis
    using assms distinct_delete [of "fl_entries f" u] by (auto simp: failures_ok_def AList.delete_eq)
qed

lemma blocked_refines:
  assumes ok: "failures_ok f"
  shows "fst (failures_blocked u now f) = spec_blocked (tracker_at now f) u"
    and "tracker_at now (snd (failures_blocked u now f)) = tracker_at now f"
    and "failures_ok (snd (failures_blocked u now f))"
proof -
  define f1 where "f1 = failures_cleanup now f"
  have ok1: "failures_ok f1" using cleanup_ok [OF ok] by (simp add: f1_def)
  have t1: "tracker_at now f1 = tracker_at now f" using cleanup_tracker [OF ok] by (simp add: f1_def)
  show "fst (failures_blocked u now f) = spec_blocked (tracker_at now f) u"
    unfolding t1 [symmetric]
    by (auto simp: failures_blocked_def Let_def f1_def [symmetric] spec_blocked_def tracker_at_def failure_of_def
        no_failure_def entry_live_def after_def split: option.splits if_split_asm)
  show "tracker_at now (snd (failures_blocked u now f)) = tracker_at now f"
  proof (cases "lf_locked (failure_of u f1) \<noteq> None \<and> \<not> after (lf_locked (failure_of u f1)) now")
    case True
    then have "tracker_at now f1 u = None"
      by (auto simp: tracker_at_def failure_of_def entry_live_def no_failure_def split: option.splits)
    then have "(tracker_at now f1)(u := None) = tracker_at now f1" by (auto simp: fun_eq_iff)
    then show ?thesis using True t1 by (simp add: failures_blocked_def Let_def f1_def [symmetric] delete_tracker)
  next
    case False
    then show ?thesis using t1 by (auto simp: failures_blocked_def Let_def f1_def [symmetric])
  qed
  have "failures_ok (f1\<lparr>fl_entries := AList.delete u (fl_entries f1)\<rparr>)"
    by (rule delete_ok [OF ok1])
  then show "failures_ok (snd (failures_blocked u now f))"
    using ok1 by (simp add: failures_blocked_def Let_def f1_def [symmetric])
qed

definition table_full :: "string \<Rightarrow> int \<Rightarrow> login_failures \<Rightarrow> bool" where
  "table_full u now f \<longleftrightarrow>
     map_of (fl_entries (failures_cleanup now f)) u = None
     \<and> max_login_failure_entries \<le> int (length (fl_entries (failures_cleanup now f)))"

lemma update_ok:
  assumes "failures_ok f" and "lf_first e \<noteq> None"
    and "map_of (fl_entries f) u \<noteq> None \<or> int (length (fl_entries f)) < max_login_failure_entries"
  shows "failures_ok (f\<lparr>fl_entries := AList.update u e (fl_entries f)\<rparr>)"
proof -
  have "set (AList.update u e xs) \<subseteq> insert (u, e) (set xs)" for xs :: "(string \<times> login_failure) list"
    by (induction xs) auto
  moreover have "length (AList.update u e xs) = (if map_of xs u = None then Suc (length xs) else length xs)"
    for xs :: "(string \<times> login_failure) list"
    by (induction xs) auto
  ultimately show ?thesis using assms unfolding failures_ok_def by (fastforce intro: distinct_update)
qed

lemma fail_refines:
  assumes ok: "failures_ok f"
  shows "failures_ok (failures_fail u now f)"
    and "tracker_at now (failures_fail u now f) =
      (if table_full u now f then tracker_at now f
       else spec_fail (fl_max f) (fl_lockout f) now (tracker_at now f) u)"
proof -
  define f1 where "f1 = failures_cleanup now f"
  define e where "e = failure_of u f1"
  define e1 where "e1 = (if lf_first e = None \<or> \<not> after (map_option (\<lambda>t. t + fl_window f) (lf_first e)) now \<or> lf_locked e \<noteq> None
                  then \<lparr>lf_count = 0, lf_first = Some now, lf_locked = None\<rparr> else e)"
  define e2 where "e2 = e1\<lparr>lf_count := lf_count e1 + 1\<rparr>"
  define e3 where "e3 = (if lf_count e2 \<ge> fl_max f then e2\<lparr>lf_locked := Some (now + fl_lockout f)\<rparr> else e2)"
  have ok1: "failures_ok f1" using cleanup_ok [OF ok] by (simp add: f1_def)
  have t1: "tracker_at now f1 = tracker_at now f" using cleanup_tracker [OF ok] by (simp add: f1_def)
  have pos: "0 < fl_window f" "0 < fl_lockout f" "0 < fl_max f" using ok by (auto simp: failures_ok_def)
  have eq: "failures_fail u now f =
      (if after (lf_locked e) now \<or> table_full u now f then f1 else f1\<lparr>fl_entries := AList.update u e3 (fl_entries f1)\<rparr>)"
    by (simp add: failures_fail_def Let_def table_full_def f1_def e_def e1_def e2_def e3_def)
  have first: "lf_first e3 \<noteq> None" by (auto simp: e3_def e2_def e1_def)
  have live: "entry_live (fl_window f1) now e3" if "\<not> after (lf_locked e) now"
    using that pos by (auto simp: f1_def e3_def e2_def e1_def entry_live_def after_def split: option.splits)
  have cases: "spec_blocked (tracker_at now f1) u \<longleftrightarrow> after (lf_locked e) now"
    by (auto simp: spec_blocked_def tracker_at_def e_def failure_of_def no_failure_def entry_live_def after_def
        split: option.splits if_split_asm)
  have full: "table_full u now f \<Longrightarrow> map_of (fl_entries f1) u = None" by (simp add: table_full_def f1_def)
  show "failures_ok (failures_fail u now f)"
    unfolding eq using ok1 update_ok [OF ok1 first, of u] by (auto simp: table_full_def f1_def [symmetric])
  show "tracker_at now (failures_fail u now f) =
      (if table_full u now f then tracker_at now f
       else spec_fail (fl_max f) (fl_lockout f) now (tracker_at now f) u)"
  proof (cases "after (lf_locked e) now \<or> table_full u now f")
    case True
    then show ?thesis using eq t1 cases by (auto simp: spec_fail_def)
  next
    case False
    then have na: "\<not> after (lf_locked e) now" "\<not> spec_blocked (tracker_at now f1) u" using cases by auto
    have "spec_fail (fl_max f) (fl_lockout f) now (tracker_at now f1) u = (tracker_at now f1)(u \<mapsto> e3)"
    proof (cases "tracker_at now f1 u")
      case None
      have "e1 = \<lparr>lf_count = 0, lf_first = Some now, lf_locked = None\<rparr>"
        using tracker_failure_of(2) [OF ok1 None] na(1)
        by (auto simp: e1_def e_def no_failure_def entry_live_def f1_def split: if_split_asm)
      then show ?thesis using None na(2) by (simp add: spec_fail_def Let_def e3_def e2_def)
    next
      case (Some d)
      then have "e = d" using tracker_failure_of(1) [OF ok1] by (simp add: e_def)
      moreover have "lf_locked d = None" using Some na(2) by (auto simp: spec_blocked_def)
      moreover have "entry_live (fl_window f) now d" using Some by (auto simp: tracker_at_def f1_def split: option.splits if_split_asm)
      ultimately have "e1 = d" by (auto simp: e1_def entry_live_def after_def)
      then show ?thesis
        using Some na(2) \<open>lf_locked d = None\<close> by (cases d) (simp add: spec_fail_def Let_def e3_def e2_def)
    qed
    then show ?thesis using False eq t1 update_tracker [OF live [OF na(1)]] by simp
  qed
qed

text \<open>Counters only expire as time passes.\<close>

lemma tracker_later:
  assumes "now \<le> now'"
  shows "tracker_at now' f u = None \<or> tracker_at now' f u = tracker_at now f u"
  using assms by (auto simp: tracker_at_def entry_live_def after_def split: option.splits if_split_asm)

text \<open>
  C33. The login failure table refines one counter per user name: \<open>blocked\<close> answers as the specification
  and changes no counter, \<open>fail\<close> counts the failure for that user alone unless the table is full, \<open>clear\<close>
  forgets that user; the lazy clean-up is invisible, counters only expire with time, and the table never
  holds more than 10000 names.
\<close>

theorem login_failures_refine:
  "failures_ok f \<longrightarrow>
     fst (failures_blocked u now f) = spec_blocked (tracker_at now f) u
     \<and> tracker_at now (snd (failures_blocked u now f)) = tracker_at now f
     \<and> tracker_at now (failures_fail u now f) =
         (if table_full u now f then tracker_at now f
          else spec_fail (fl_max f) (fl_lockout f) now (tracker_at now f) u)
     \<and> tracker_at now (failures_clear u f) = (tracker_at now f)(u := None)
     \<and> (now \<le> now' \<longrightarrow> tracker_at now' f v \<in> {None, tracker_at now f v})
     \<and> failures_ok (snd (failures_blocked u now f)) \<and> failures_ok (failures_fail u now f) \<and> failures_ok (failures_clear u f)
     \<and> int (length (fl_entries (failures_fail u now f))) \<le> 10000"
proof
  assume ok: "failures_ok f"
  have "failures_ok (failures_clear u f)"
    unfolding failures_clear_def by (rule delete_ok [OF ok])
  moreover have "int (length (fl_entries (failures_fail u now f))) \<le> 10000"
    using fail_refines(1) [OF ok] by (simp add: failures_ok_def max_login_failure_entries_def)
  moreover have "tracker_at now (failures_clear u f) = (tracker_at now f)(u := None)"
    unfolding failures_clear_def by (rule delete_tracker)
  moreover have "now \<le> now' \<longrightarrow> tracker_at now' f v \<in> {None, tracker_at now f v}" using tracker_later by blast
  ultimately show "fst (failures_blocked u now f) = spec_blocked (tracker_at now f) u
     \<and> tracker_at now (snd (failures_blocked u now f)) = tracker_at now f
     \<and> tracker_at now (failures_fail u now f) =
         (if table_full u now f then tracker_at now f
          else spec_fail (fl_max f) (fl_lockout f) now (tracker_at now f) u)
     \<and> tracker_at now (failures_clear u f) = (tracker_at now f)(u := None)
     \<and> (now \<le> now' \<longrightarrow> tracker_at now' f v \<in> {None, tracker_at now f v})
     \<and> failures_ok (snd (failures_blocked u now f)) \<and> failures_ok (failures_fail u now f) \<and> failures_ok (failures_clear u f)
     \<and> int (length (fl_entries (failures_fail u now f))) \<le> 10000"
    using blocked_refines [OF ok] fail_refines [OF ok] by blast
qed

definition sample_lockout :: login_failures where
  "sample_lockout = new_login_failures \<lparr>lc_window = 100, lc_max_failures = 2, lc_lockout = 50\<rparr>"

theorem login_failures_refine_witness:
  "failures_ok sample_lockout \<and> failures_ok (failures_fail ''ani'' 7 sample_lockout)
   \<and> int (length (fl_entries (failures_fail ''ani'' 7 sample_lockout))) \<le> 10000"
proof -
  have "failures_ok sample_lockout"
    by (simp add: failures_ok_def sample_lockout_def new_login_failures_def max_login_failure_entries_def)
  then show ?thesis using login_failures_refine [of sample_lockout "''ani''" 7] by blast
qed

section \<open>Lockout\<close>

lemma fail_parameters [simp]:
  "fl_max (failures_fail u now f) = fl_max f" "fl_lockout (failures_fail u now f) = fl_lockout f"
  "fl_window (failures_fail u now f) = fl_window f"
  by (simp_all add: failures_fail_def Let_def)

text \<open>A counter below the limit that is still in its window.\<close>

definition counting :: "int \<Rightarrow> int \<Rightarrow> login_failures \<Rightarrow> string \<Rightarrow> int \<Rightarrow> bool" where
  "counting start now f u n \<longleftrightarrow>
     tracker_at now f u = Some \<lparr>lf_count = n, lf_first = Some start, lf_locked = None\<rparr>"

lemma counting_later:
  "counting start now f u n \<Longrightarrow> now' < start + fl_window f \<Longrightarrow> counting start now' f u n"
  by (auto simp: counting_def tracker_at_def entry_live_def after_def split: option.splits if_split_asm)

lemma counting_in_table: "counting start now f u n \<Longrightarrow> failures_ok f \<Longrightarrow> \<not> table_full u now f"
  using fun_cong [OF cleanup_tracker [of f now], of u]
  by (auto simp: counting_def table_full_def tracker_at_def [of now "failures_cleanup now f"] split: option.splits)

lemma counting_fail:
  assumes "failures_ok f" and "counting start now f u n"
  shows "if n + 1 < fl_max f then counting start now (failures_fail u now f) u (n + 1)
    else tracker_at now (failures_fail u now f) u =
      Some \<lparr>lf_count = n + 1, lf_first = Some start, lf_locked = Some (now + fl_lockout f)\<rparr>"
  using fail_refines(2) [OF assms(1), where u = u and now = now] counting_in_table [OF assms(2,1)] assms(2)
  by (auto simp: counting_def spec_fail_def spec_blocked_def Let_def)

lemma locked_blocked:
  assumes "failures_ok f" and "tracker_at t f u = Some \<lparr>lf_count = n, lf_first = Some start, lf_locked = Some until\<rparr>"
    and "now < until"
  shows "fst (failures_blocked u now f)"
  using assms blocked_refines(1) [OF assms(1), where u = u and now = now]
  by (auto simp: spec_blocked_def tracker_at_def entry_live_def after_def split: option.splits if_split_asm)

lemma fails_lock:
  assumes "failures_ok f" and "counting start t f u n" and "ts \<noteq> []" and "\<forall>x \<in> set ts. x < start + fl_window f"
    and "n + int (length ts) = fl_max f" and "now < last ts + fl_lockout f"
  shows "fst (failures_blocked u now (fold (failures_fail u) ts f))"
  using assms
proof (induction ts arbitrary: f t n)
  case (Cons x ts)
  have c: "counting start x f u n" using counting_later [OF Cons.prems(2)] Cons.prems(4) by simp
  note ok = fail_refines(1) [OF Cons.prems(1), where u = u and now = x]
  show ?case
  proof (cases "ts = []")
    case True
    then have "tracker_at x (failures_fail u x f) u =
        Some \<lparr>lf_count = n + 1, lf_first = Some start, lf_locked = Some (x + fl_lockout f)\<rparr>"
      using counting_fail [OF Cons.prems(1) c] Cons.prems(5) by simp
    then show ?thesis using locked_blocked [OF ok] True Cons.prems(6) by simp
  next
    case False
    then have "n + 1 < fl_max f" using Cons.prems(5) by (cases ts) simp_all
    then have "counting start x (failures_fail u x f) u (n + 1)" using counting_fail [OF Cons.prems(1) c] by simp
    then show ?thesis using Cons.IH [OF ok _ False] Cons.prems False by simp
  qed
qed simp

text \<open>
  The lockout holds: when a user name without a live counter fails the maximal number of times within
  the window, every attempt before the lockout has run out since the last failure is blocked, as long as
  the table has room for the name.
\<close>

theorem login_lockout:
  "failures_ok f \<and> tracker_at t f u = None \<and> \<not> table_full u t f
     \<and> int (length ts) + 1 = fl_max f \<and> (\<forall>x \<in> set ts. x < t + fl_window f)
     \<and> now < last (t # ts) + fl_lockout f \<longrightarrow>
     fst (failures_blocked u now (fold (failures_fail u) (t # ts) f))"
proof
  assume a: "failures_ok f \<and> tracker_at t f u = None \<and> \<not> table_full u t f
     \<and> int (length ts) + 1 = fl_max f \<and> (\<forall>x \<in> set ts. x < t + fl_window f)
     \<and> now < last (t # ts) + fl_lockout f"
  then have ok: "failures_ok f" by blast
  let ?f = "failures_fail u t f"
  have tr: "tracker_at t ?f u = Some \<lparr>lf_count = 1, lf_first = Some t,
      lf_locked = (if 1 \<ge> fl_max f then Some (t + fl_lockout f) else None)\<rparr>"
    using fail_refines(2) [OF ok, where u = u and now = t] a by (simp add: spec_fail_def spec_blocked_def Let_def)
  show "fst (failures_blocked u now (fold (failures_fail u) (t # ts) f))"
  proof (cases "ts = []")
    case True
    then show ?thesis using locked_blocked [OF fail_refines(1) [OF ok, where u = u and now = t]] tr a by simp
  next
    case False
    then have "1 < fl_max f" using a by (cases ts) auto
    then have "counting t t ?f u 1" using tr by (simp add: counting_def)
    then show ?thesis using fails_lock [OF fail_refines(1) [OF ok, where u = u and now = t] _ False] a False by simp
  qed
qed

theorem login_lockout_witness:
  "fst (failures_blocked ''ani'' 60 (fold (failures_fail ''ani'') [7, 20] sample_lockout))"
proof -
  have "failures_ok sample_lockout"
    by (simp add: failures_ok_def sample_lockout_def new_login_failures_def max_login_failure_entries_def)
  moreover have "tracker_at 7 sample_lockout ''ani'' = None" "\<not> table_full ''ani'' 7 sample_lockout"
    by (simp_all add: tracker_at_def table_full_def sample_lockout_def new_login_failures_def failures_cleanup_def
        max_login_failure_entries_def)
  ultimately show ?thesis
    using login_lockout [of sample_lockout 7 "''ani''" "[20]" 60]
    by (simp add: sample_lockout_def new_login_failures_def)
qed

end
