(* ===== verification/Web_Text.thy ===== *)
theory Web_Text
  imports Go_Text
begin

text \<open>
  The text forms of the browser side: percent escapes and the part of \<open>url.Parse\<close> that
  \<open>SafeRedirect\<close> of \<open>src/internal/browserauth/middleware.go\<close> reaches, the query escape of the login location,
  and session tokens in unpadded base64url (\<open>src/internal/auth/token.go\<close>, \<open>validToken\<close>). Strings are byte lists.
\<close>

section \<open>Percent escapes\<close>

definition hex_value :: "char \<Rightarrow> nat option" where
  "hex_value c =
     (let b = byte c in
      if 48 \<le> b \<and> b \<le> 57 then Some (b - 48)
      else if 65 \<le> b \<and> b \<le> 70 then Some (b - 55)
      else if 97 \<le> b \<and> b \<le> 102 then Some (b - 87)
      else None)"

definition upper_hex :: "nat \<Rightarrow> char" where
  "upper_hex n = (if n < 10 then char_of (48 + n) else char_of (55 + n))"

text \<open>\<open>url.unescape\<close>; in query mode a plus sign is a space.\<close>

fun unescape :: "bool \<Rightarrow> string \<Rightarrow> string option" where
  "unescape query [] = Some []"
| "unescape query (c # cs) =
     (if c = CHR ''%'' then
        (case cs of
           a # b # rest \<Rightarrow>
             (case (hex_value a, hex_value b) of
                (Some x, Some y) \<Rightarrow> map_option ((#) (char_of (16 * x + y))) (unescape query rest)
              | _ \<Rightarrow> None)
         | _ \<Rightarrow> None)
      else map_option ((#) (if query \<and> c = CHR ''+'' then CHR '' '' else c)) (unescape query cs))"

definition unreserved :: "char \<Rightarrow> bool" where
  "unreserved c \<longleftrightarrow>
     (let b = byte c in
      (48 \<le> b \<and> b \<le> 57) \<or> (65 \<le> b \<and> b \<le> 90) \<or> (97 \<le> b \<and> b \<le> 122)
      \<or> c = CHR ''-'' \<or> c = CHR ''_'' \<or> c = CHR ''.'' \<or> c = CHR ''~'')"

definition escape_byte :: "char \<Rightarrow> string" where
  "escape_byte c =
     (if unreserved c then [c]
      else if c = CHR '' '' then ''+''
      else [CHR ''%'', upper_hex (byte c div 16), upper_hex (byte c mod 16)])"

definition query_escape :: "string \<Rightarrow> string" where
  "query_escape s = concat (map escape_byte s)"

section \<open>Redirect targets\<close>

definition has_control :: "string \<Rightarrow> bool" where
  "has_control s \<longleftrightarrow> list_ex (\<lambda>c. byte c < 32 \<or> byte c = 127) s"

text \<open>
  \<open>url.Parse\<close> of a target that starts with a single slash: such a URL has no scheme, host or opaque part, so
  the result is its path and fragment, or an error for a control byte or a malformed escape.
\<close>

definition parse_local :: "string \<Rightarrow> (string \<times> string) option" where
  "parse_local target =
     (let (u, frag, _) = cut_byte (CHR ''#'') target; (p, _, _) = cut_byte (CHR ''?'') u in
      if has_control u then None
      else case unescape False p of None \<Rightarrow> None
           | Some path \<Rightarrow> (case unescape False frag of None \<Rightarrow> None | Some f \<Rightarrow> Some (path, f)))"

definition default_page :: string where
  "default_page = ''/loans/inquiry''"

text \<open>
  \<open>SafeRedirect\<close>. The code parses first; a target refused here by its own bytes is refused there whatever the
  parse gives.
\<close>

definition safe_redirect :: "string \<Rightarrow> string" where
  "safe_redirect target =
     (if take 1 target \<noteq> ''/'' \<or> take 2 target = ''//'' \<or> CHR 0x5C \<in> set target then default_page
      else case parse_local target of
             None \<Rightarrow> default_page
           | Some (path, frag) \<Rightarrow>
               if take 2 path = ''//'' \<or> CHR 0x5C \<in> set path \<or> frag \<noteq> '''' then default_page else target)"

definition login_location :: "string \<Rightarrow> string" where
  "login_location uri = ''/login?next='' @ query_escape (safe_redirect uri)"

lemma hex_value_upper: "n < 16 \<Longrightarrow> hex_value (upper_hex n) = Some n"
  by (auto simp: hex_value_def upper_hex_def byte_def Let_def of_char_of)

lemma byte_less: "byte c < 256"
  by (cases c) (auto simp: byte_def split: if_split)

lemma unescape_escape_byte: "unescape True (escape_byte c @ s) = map_option ((#) c) (unescape True s)"
proof -
  have h: "hex_value (upper_hex (byte c div 16)) = Some (byte c div 16)" "hex_value (upper_hex (byte c mod 16)) = Some (byte c mod 16)"
    using byte_less [of c] by (auto intro!: hex_value_upper)
  have "unreserved c \<Longrightarrow> c \<noteq> CHR ''%'' \<and> c \<noteq> CHR ''+''" by (auto simp: unreserved_def byte_def)
  then show ?thesis using h by (auto simp: escape_byte_def byte_def)
qed

lemma query_round_trip: "unescape True (query_escape s) = Some s"
  by (induction s) (simp_all add: query_escape_def unescape_escape_byte)

lemma default_page_safe: "safe_redirect default_page = default_page"
  by code_simp

lemma cut_byte_parts: "cut_byte c s = (a, b, f) \<Longrightarrow> f \<and> s = a @ c # b \<or> \<not> f \<and> s = a \<and> b = []"
  by (induction s arbitrary: a) (auto split: if_split_asm prod.split_asm)

lemma unescape_Nil: "unescape q s = Some [] \<Longrightarrow> s = []"
  by (cases s) (auto split: if_split_asm option.split_asm list.split_asm)

lemma parse_local_clean:
  assumes "parse_local t = Some (path, '''')"
  shows "\<not> has_control t"
proof -
  obtain u frag f where cut: "cut_byte (CHR ''#'') t = (u, frag, f)" by (cases "cut_byte (CHR ''#'') t") auto
  then have "\<not> has_control u" "unescape False frag = Some []"
    using assms by (auto simp: parse_local_def Let_def split: prod.split_asm if_split_asm option.split_asm)
  then show ?thesis using cut_byte_parts [OF cut] unescape_Nil [of False frag] by (auto simp: has_control_def byte_def)
qed

lemma safe_redirect_cases:
  "safe_redirect t = default_page
   \<or> safe_redirect t = t \<and> take 1 t = ''/'' \<and> take 2 t \<noteq> ''//'' \<and> CHR 0x5C \<notin> set t \<and> \<not> has_control t"
  using parse_local_clean [of t] by (auto simp: safe_redirect_def split: option.split prod.split)

text \<open>
  C35. A redirect target after \<open>SafeRedirect\<close> is a path on this server: it starts with exactly one slash
  and has no backslash and no control byte, which browsers would drop or read as a slash; nor does its
  path start with two slashes or have a backslash once its escapes are decoded, and it has no fragment. A
  target that passed is kept, so a second pass changes nothing.
\<close>

theorem safe_redirect_local:
  "take 1 (safe_redirect t) = ''/'' \<and> take 2 (safe_redirect t) \<noteq> ''//'' \<and> CHR 0x5C \<notin> set (safe_redirect t)
   \<and> \<not> has_control (safe_redirect t) \<and> safe_redirect (safe_redirect t) = safe_redirect t
   \<and> (\<exists>path. parse_local (safe_redirect t) = Some (path, '''') \<and> take 2 path \<noteq> ''//'' \<and> CHR 0x5C \<notin> set path)"
proof -
  have "take 1 default_page = ''/'' \<and> take 2 default_page \<noteq> ''//'' \<and> CHR 0x5C \<notin> set default_page \<and> \<not> has_control default_page"
    by code_simp
  moreover have "parse_local default_page = Some (default_page, '''')" by code_simp
  moreover have "safe_redirect t = default_page
      \<or> (\<exists>path. parse_local t = Some (path, '''') \<and> take 2 path \<noteq> ''//'' \<and> CHR 0x5C \<notin> set path)"
    by (auto simp: safe_redirect_def split: option.split prod.split)
  ultimately show ?thesis using safe_redirect_cases [of t] default_page_safe by auto
qed

lemma escape_byte_safe: "c \<in> set (escape_byte d) \<Longrightarrow> c \<notin> {CHR ''&'', CHR '';'', CHR ''='', CHR ''#''}"
proof -
  have "upper_hex n \<notin> {CHR ''&'', CHR '';'', CHR ''='', CHR ''#''}" if "n < 16" for n
    using hex_value_upper [OF that] by (auto simp: hex_value_def byte_def)
  moreover have "byte d div 16 < 16" using byte_less [of d] by simp
  moreover assume "c \<in> set (escape_byte d)"
  ultimately show ?thesis by (auto simp: escape_byte_def unreserved_def byte_def split: if_split_asm)
qed

text \<open>
  C0. The login location that \<open>RequireAuth\<close> builds carries the requested page: its query is the single
  parameter \<open>next\<close>, which decodes to the safe target, and the login handler's own \<open>SafeRedirect\<close> keeps it.
\<close>

theorem login_location_round_trip:
  "\<exists>q. login_location uri = ''/login?next='' @ q \<and> unescape True q = Some (safe_redirect uri)
     \<and> set q \<inter> {CHR ''&'', CHR '';'', CHR ''='', CHR ''#''} = {}
     \<and> safe_redirect (the (unescape True q)) = safe_redirect uri"
proof -
  let ?q = "query_escape (safe_redirect uri)"
  have "set ?q \<inter> {CHR ''&'', CHR '';'', CHR ''='', CHR ''#''} = {}"
    using escape_byte_safe by (fastforce simp: query_escape_def)
  moreover have "safe_redirect (safe_redirect uri) = safe_redirect uri"
    using safe_redirect_cases [of uri] default_page_safe by auto
  ultimately show ?thesis by (intro exI [of _ ?q]) (simp add: login_location_def query_round_trip)
qed

section \<open>Session tokens\<close>

text \<open>The base64url alphabet without padding; a decoder skips line breaks.\<close>

definition b64_char :: "nat \<Rightarrow> char" where
  "b64_char n =
     (if n < 26 then char_of (65 + n) else if n < 52 then char_of (71 + n) else if n < 62 then char_of (n - 4)
      else if n = 62 then CHR ''-'' else CHR ''_'')"

definition b64_value :: "char \<Rightarrow> nat option" where
  "b64_value c =
     (let b = byte c in
      if 65 \<le> b \<and> b \<le> 90 then Some (b - 65)
      else if 97 \<le> b \<and> b \<le> 122 then Some (b - 71)
      else if 48 \<le> b \<and> b \<le> 57 then Some (b + 4)
      else if c = CHR ''-'' then Some 62 else if c = CHR ''_'' then Some 63 else None)"

fun b64_sextets :: "nat list \<Rightarrow> nat list" where
  "b64_sextets [] = []"
| "b64_sextets [a] = [a div 4, a mod 4 * 16]"
| "b64_sextets [a, b] = [a div 4, a mod 4 * 16 + b div 16, b mod 16 * 4]"
| "b64_sextets (a # b # c # rest) =
     a div 4 # (a mod 4 * 16 + b div 16) # (b mod 16 * 4 + c div 64) # c mod 64 # b64_sextets rest"

definition b64_encode :: "nat list \<Rightarrow> string" where
  "b64_encode bs = map b64_char (b64_sextets bs)"

fun b64_bytes :: "nat list \<Rightarrow> nat list option" where
  "b64_bytes [] = Some []"
| "b64_bytes [w] = None"
| "b64_bytes [w, x] = Some [w * 4 + x div 16]"
| "b64_bytes [w, x, y] = Some [w * 4 + x div 16, x mod 16 * 16 + y div 4]"
| "b64_bytes (w # x # y # z # rest) =
     map_option (\<lambda>bs. (w * 4 + x div 16) # (x mod 16 * 16 + y div 4) # (y mod 4 * 64 + z) # bs) (b64_bytes rest)"

definition b64_decode :: "string \<Rightarrow> nat list option" where
  "b64_decode s =
     (let vs = map b64_value (filter (\<lambda>c. c \<noteq> CHR 0x0A \<and> c \<noteq> CHR 0x0D) s) in
      if None \<in> set vs then None else b64_bytes (map the vs))"

definition token_bytes :: nat where
  "token_bytes = 32"

definition encoded_len :: "nat \<Rightarrow> nat" where
  "encoded_len n = n div 3 * 4 + (n mod 3 * 8 + 5) div 6"

text \<open>\<open>GenerateToken\<close> on the random bytes it reads.\<close>

definition generate_token :: "nat list \<Rightarrow> string" where
  "generate_token random = b64_encode random"

definition valid_token :: "string \<Rightarrow> bool" where
  "valid_token t \<longleftrightarrow>
     length t = encoded_len token_bytes \<and>
     (case b64_decode t of None \<Rightarrow> False | Some bs \<Rightarrow> length bs = token_bytes)"

lemma b64_value_char: "n < 64 \<Longrightarrow> b64_value (b64_char n) = Some n"
  by (auto simp: b64_value_def b64_char_def byte_def Let_def of_char_of)

lemma pair_less: "x < m \<Longrightarrow> y < k \<Longrightarrow> x * k + y < m * k" for x y m k :: nat
  by (metis add.commute add_less_cancel_left less_le_trans mult.commute mult_Suc_right mult_le_mono1 Suc_leI)

lemma sextet_less:
  fixes a b c :: nat
  assumes "a < 256" and "b < 256" and "c < 256"
  shows "a div 4 < 64" and "a mod 4 * 16 + b div 16 < 64" and "b mod 16 * 4 + c div 64 < 64" and "c mod 64 < 64"
  using assms pair_less [of "a mod 4" 4 "b div 16" 16] pair_less [of "b mod 16" 16 "c div 64" 4]
  by (simp_all add: less_mult_imp_div_less)

lemma b64_sextets_less: "list_all (\<lambda>b. b < 256) bs \<Longrightarrow> list_all (\<lambda>n. n < 64) (b64_sextets bs)"
proof (induction bs rule: b64_sextets.induct)
  case (4 a b c rest)
  then show ?case using sextet_less [of a b c] by simp
next
  case (3 a b)
  then show ?case using sextet_less [of a b 0] by simp
next
  case (2 a)
  then show ?case using sextet_less [of a 0 0] by simp
qed simp

lemma sextet_sums:
  fixes a b c :: nat
  assumes "b < 256" and "c < 256"
  shows "a div 4 * 4 + (a mod 4 * 16 + b div 16) div 16 = a"
    and "(a mod 4 * 16 + b div 16) mod 16 * 16 + (b mod 16 * 4 + c div 64) div 4 = b"
    and "(b mod 16 * 4 + c div 64) mod 4 * 64 + c mod 64 = c"
proof -
  have q: "b div 16 < 16" and r: "c div 64 < 4" using assms by (simp_all add: less_mult_imp_div_less)
  have "(a mod 4 * 16 + b div 16) div 16 = a mod 4" "(a mod 4 * 16 + b div 16) mod 16 = b div 16" using q by simp_all
  moreover have "(b mod 16 * 4 + c div 64) div 4 = b mod 16" "(b mod 16 * 4 + c div 64) mod 4 = c div 64" using r by simp_all
  ultimately show "a div 4 * 4 + (a mod 4 * 16 + b div 16) div 16 = a"
    "(a mod 4 * 16 + b div 16) mod 16 * 16 + (b mod 16 * 4 + c div 64) div 4 = b"
    "(b mod 16 * 4 + c div 64) mod 4 * 64 + c mod 64 = c"
    by (simp_all add: div_mult_mod_eq)
qed

lemma b64_bytes_sextets: "list_all (\<lambda>b. b < 256) bs \<Longrightarrow> b64_bytes (b64_sextets bs) = Some bs"
proof (induction bs rule: b64_sextets.induct)
  case (3 a b)
  then show ?case using sextet_sums(1,2) [where a = a and b = b and c = 0] by simp
next
  case (4 a b c rest)
  then show ?case using sextet_sums(1,2) [where a = a and b = b and c = c] sextet_sums(3) [where b = b and c = c] by simp
qed simp_all

lemma b64_sextets_length: "length (b64_sextets bs) = encoded_len (length bs)"
proof (induction bs rule: b64_sextets.induct)
  case (4 a b c rest)
  then show ?case by (simp add: encoded_len_def)
qed (simp_all add: encoded_len_def)

lemma b64_round_trip:
  assumes "list_all (\<lambda>b. b < 256) bs"
  shows "b64_decode (b64_encode bs) = Some bs"
proof -
  have v: "b64_value (b64_char n) = Some n" if "n \<in> set (b64_sextets bs)" for n
    using b64_sextets_less [OF assms] that by (simp add: list_all_iff b64_value_char)
  have "b64_char n \<noteq> CHR 0x0A \<and> b64_char n \<noteq> CHR 0x0D" if "n \<in> set (b64_sextets bs)" for n
    using v [OF that] by (auto simp: b64_value_def byte_def)
  then have "filter (\<lambda>c. c \<noteq> CHR 0x0A \<and> c \<noteq> CHR 0x0D) (b64_encode bs) = b64_encode bs"
    by (auto simp: b64_encode_def intro!: filter_True)
  moreover have "map b64_value (b64_encode bs) = map Some (b64_sextets bs)"
    using v by (simp add: b64_encode_def)
  ultimately show ?thesis using b64_bytes_sextets [OF assms] by (auto simp: b64_decode_def comp_def)
qed

text \<open>
  C0. A session token round-trips: encoding random bytes and decoding the text gives the bytes back, and the
  token of 32 random bytes is one that \<open>validToken\<close> accepts, so no issued cookie is rejected by its shape.
\<close>

theorem generated_token_valid:
  assumes "list_all (\<lambda>b. b < 256) random"
  shows "b64_decode (generate_token random) = Some random
         \<and> (valid_token (generate_token random) \<longleftrightarrow> length random = token_bytes)"
  using b64_round_trip [OF assms] b64_sextets_length [of random]
  by (auto simp: valid_token_def generate_token_def b64_encode_def)

theorem generated_token_valid_witness:
  "valid_token (generate_token (replicate 32 200)) \<and> \<not> valid_token (generate_token [7, 255])"
  using generated_token_valid [of "replicate 32 200"] generated_token_valid [of "[7, 255]"]
  by (simp add: token_bytes_def list_all_iff)

end
