(* ===== verification/Browser_Auth.thy ===== *)
theory Browser_Auth
  imports Access_Control Login_Guard Web_Text Fincloud_Client
begin

text \<open>
  Browser login and sessions, \<open>src/internal/browserauth\<close>: the service (\<open>service.go\<close>), the cookies
  (\<open>cookie.go\<close>), the middleware (\<open>middleware.go\<close>) and the handlers (\<open>handler.go\<close>) on the access tables and
  the failure counters. The Fincloud authenticator is the argument \<open>authenticator\<close> (its own code is in
  \<open>Fincloud_Client\<close>), SHA-256 is \<open>hash\<close>, the case mapping beyond ASCII is \<open>uni\<close>. \<open>fails\<close> lists the database
  calls that fail in a run. Rendered pages and logs are represented by what is shown.
\<close>

section \<open>Service\<close>

datatype db_call =
    FindSession | FindUser | ListKeys | TouchSession | RevokeSession | Provision | CreateSession | LastLogin | AppendAudit

datatype auth_failure = ErrInvalidCredentials | ErrInactiveUser | ErrUnauthenticated | ErrLoginThrottled | ErrInternal

record browser_service =
  sv_lifetime :: int
  sv_remember_lifetime :: int

record browser_state =
  bs_db :: access_db
  bs_failures :: login_failures

record login_input =
  li_username :: string
  li_password :: string
  li_location_id :: string
  li_role_id :: string
  li_remember_me :: bool

record login_result =
  lr_raw_token :: string
  lr_session :: session_row
  lr_user :: user_row
  lr_provisioned :: bool

record browser_principal =
  pr_user_id :: int
  pr_username :: string
  pr_name :: string
  pr_permissions :: permission_set
  pr_session_id :: int
  pr_remember_me :: bool

definition principal_can :: "browser_principal \<Rightarrow> string \<Rightarrow> bool" where
  "principal_can p permission = permission_set_has (pr_permissions p) permission"

definition principal_attribution :: "browser_principal \<Rightarrow> attribution" where
  "principal_attribution p =
     (let i = \<lparr>idt_user_id = pr_user_id p, idt_username = pr_username p\<rparr>
      in \<lparr>att_actor = Some i, att_effective = Some i, att_system_actor = ''''\<rparr>)"

definition last_seen_touch_interval :: int where
  "last_seen_touch_interval = 5 * 60 * 1000000"

definition max_password_bytes :: int where
  "max_password_bytes = 1024"

definition new_service :: "int \<Rightarrow> int \<Rightarrow> lockout_config \<Rightarrow> access_db \<Rightarrow> (browser_service \<times> browser_state) option" where
  "new_service lifetime remember lockout db =
     (if lifetime \<le> 0 \<or> remember \<le> 0 \<or> \<not> lockout_valid lockout then None
      else Some (\<lparr>sv_lifetime = lifetime, sv_remember_lifetime = remember\<rparr>,
                 \<lparr>bs_db = db, bs_failures = new_login_failures lockout\<rparr>))"

text \<open>The part of \<open>Login\<close> after Fincloud accepted the credentials.\<close>

definition open_session ::
  "browser_service \<Rightarrow> (string \<Rightarrow> string) \<Rightarrow> db_call list \<Rightarrow> string option \<Rightarrow> login_input \<Rightarrow> string \<Rightarrow> int \<Rightarrow> browser_state
     \<Rightarrow> (auth_failure + login_result) \<times> browser_state" where
  "open_session svc hash fails token inp username now st =
     (case validate_username username of Inl _ \<Rightarrow> (Inl ErrInternal, st)
      | Inr _ \<Rightarrow>
     if Provision \<in> set fails then (Inl ErrInternal, st) else
     (case find_or_create_user username now (bs_db st) of Inl _ \<Rightarrow> (Inl ErrInternal, st)
      | Inr (found, provisioned, db1) \<Rightarrow>
          let st1 = st\<lparr>bs_db := db1\<rparr> in
          if \<not> us_active found then (Inl ErrInactiveUser, st1)
          else (case token of None \<Rightarrow> (Inl ErrInternal, st1)
                | Some raw \<Rightarrow>
                    let lifetime = (if li_remember_me inp then sv_remember_lifetime svc else sv_lifetime svc) in
                    if CreateSession \<in> set fails then (Inl ErrInternal, st1) else
                    (case session_create (us_id found) (hash raw) (li_remember_me inp) (now + lifetime) now now db1 of
                       Inl _ \<Rightarrow> (Inl ErrInternal, st1)
                     | Inr (session, db2) \<Rightarrow>
                         (Inr \<lparr>lr_raw_token = raw, lr_session = session, lr_user = found, lr_provisioned = provisioned\<rparr>,
                          st1\<lparr>bs_db := (if LastLogin \<in> set fails then db2 else update_last_login (us_id found) now db2)\<rparr>)))))"

definition login_refused_input :: "login_input \<Rightarrow> bool" where
  "login_refused_input inp \<longleftrightarrow>
     trim_space (li_username inp) = '''' \<or> li_password inp = '''' \<or> int (length (li_password inp)) > max_password_bytes
     \<or> trim_space (li_location_id inp) = '''' \<or> trim_space (li_role_id inp) = ''''"

definition throttle_key :: "(string \<Rightarrow> string) \<Rightarrow> string \<Rightarrow> string" where
  "throttle_key uni username = to_lower uni (normalize_username (trim_space username))"

definition login ::
  "browser_service \<Rightarrow> (string \<Rightarrow> string) \<Rightarrow> (string \<Rightarrow> string) \<Rightarrow> (string \<Rightarrow> string \<Rightarrow> string \<Rightarrow> string \<Rightarrow> auth_outcome) \<Rightarrow> db_call list
     \<Rightarrow> string option \<Rightarrow> login_input \<Rightarrow> int \<Rightarrow> browser_state \<Rightarrow> (auth_failure + login_result) \<times> browser_state" where
  "login svc uni hash authenticator fails token inp now st =
     (if login_refused_input inp then (Inl ErrInvalidCredentials, st)
      else
        let username = trim_space (li_username inp); key = throttle_key uni (li_username inp);
            (blocked, f1) = failures_blocked key now (bs_failures st)
        in if blocked then (Inl ErrLoginThrottled, st\<lparr>bs_failures := f1\<rparr>)
           else (case authenticator username (li_password inp) (li_location_id inp) (li_role_id inp) of
                   InvalidCredentials \<Rightarrow> (Inl ErrInvalidCredentials, st\<lparr>bs_failures := failures_fail key now f1\<rparr>)
                 | AuthUnavailable \<Rightarrow> (Inl ErrInternal, st\<lparr>bs_failures := f1\<rparr>)
                 | Authenticated \<Rightarrow>
                     open_session svc hash fails token inp (normalize_username username) now
                       (st\<lparr>bs_failures := failures_clear key f1\<rparr>)))"

definition revoke_unauthenticated :: "db_call list \<Rightarrow> string \<Rightarrow> access_db \<Rightarrow> auth_failure \<times> access_db" where
  "revoke_unauthenticated fails token_hash db =
     (if RevokeSession \<in> set fails then (ErrInternal, db) else (ErrUnauthenticated, session_revoke token_hash db))"

definition resolve_session ::
  "db_call list \<Rightarrow> string \<Rightarrow> int \<Rightarrow> access_db \<Rightarrow> (auth_failure + browser_principal) \<times> access_db" where
  "resolve_session fails token_hash now db =
     (if FindSession \<in> set fails then (Inl ErrInternal, db) else
      case find_valid_session token_hash now db of
        Inl _ \<Rightarrow> (Inl ErrUnauthenticated, db)
      | Inr session \<Rightarrow>
          if FindUser \<in> set fails then (Inl ErrInternal, db) else
          let found = find_user (se_user_id session) db in
          if (case found of Inl _ \<Rightarrow> True | Inr u \<Rightarrow> \<not> us_active u)
          then (let (e, db') = revoke_unauthenticated fails token_hash db in (Inl e, db'))
          else if ListKeys \<in> set fails then (Inl ErrInternal, db)
          else (case found of Inl _ \<Rightarrow> (Inl ErrInternal, db)
                | Inr u \<Rightarrow>
                    (Inr \<lparr>pr_user_id = us_id u, pr_username = us_username u, pr_name = us_name u,
                          pr_permissions = new_permission_set (list_permission_keys (us_id u) db @ [permission_loan_inquiry]),
                          pr_session_id = se_id session, pr_remember_me = se_remember_me session\<rparr>,
                     if last_seen_touch_interval \<le> now - se_last_seen_at session \<and> TouchSession \<notin> set fails
                     then session_touch (se_id session) now db else db)))"

definition logout :: "db_call list \<Rightarrow> string \<Rightarrow> access_db \<Rightarrow> (auth_failure + unit) \<times> access_db" where
  "logout fails token_hash db =
     (if RevokeSession \<in> set fails then (Inl ErrInternal, db) else (Inr (), session_revoke token_hash db))"

section \<open>Cookies\<close>

record cookie_manager =
  cm_name :: string
  cm_secure :: bool
  cm_remember_lifetime :: int

text \<open>A cookie on the path \<open>/\<close> that is HTTP-only and SameSite Lax; a max-age of 0 is an absent attribute.\<close>

record cookie =
  ck_name :: string
  ck_value :: string
  ck_path :: string
  ck_http_only :: bool
  ck_secure :: bool
  ck_lax :: bool
  ck_expires :: "int option"
  ck_max_age :: int

definition base_cookie :: "cookie_manager \<Rightarrow> string \<Rightarrow> cookie" where
  "base_cookie c v =
     \<lparr>ck_name = cm_name c, ck_value = v, ck_path = ''/'', ck_http_only = True, ck_secure = cm_secure c, ck_lax = True,
      ck_expires = None, ck_max_age = 0\<rparr>"

text \<open>Integer division by a positive second count truncates toward zero.\<close>

definition whole_seconds :: "int \<Rightarrow> int" where
  "whole_seconds d = (if d < 0 then - (- d div 1000000) else d div 1000000)"

definition cookie_set :: "cookie_manager \<Rightarrow> string \<Rightarrow> bool \<Rightarrow> int \<Rightarrow> cookie" where
  "cookie_set c raw remember now =
     (if remember then (base_cookie c raw)\<lparr>ck_expires := Some (now + cm_remember_lifetime c),
                                           ck_max_age := whole_seconds (cm_remember_lifetime c)\<rparr>
      else base_cookie c raw)"

definition cookie_set_for_session :: "cookie_manager \<Rightarrow> string \<Rightarrow> session_row \<Rightarrow> int \<Rightarrow> cookie" where
  "cookie_set_for_session c raw session now =
     (if se_remember_me session
      then (base_cookie c raw)\<lparr>ck_expires := Some (se_expires_at session),
                               ck_max_age := max 1 (whole_seconds (se_expires_at session - now))\<rparr>
      else base_cookie c raw)"

definition unix_second :: int where
  "unix_second = 62135596801 * 1000000"

definition cookie_clear :: "cookie_manager \<Rightarrow> cookie" where
  "cookie_clear c = (base_cookie c '''')\<lparr>ck_expires := Some unix_second, ck_max_age := -1\<rparr>"

text \<open>\<open>Read\<close> on the cookies of a request: the first with the configured name.\<close>

definition cookie_read :: "cookie_manager \<Rightarrow> (string \<times> string) list \<Rightarrow> string option" where
  "cookie_read c cookies = map_of cookies (cm_name c)"

section \<open>Middleware\<close>

text \<open>
  A response: the login page with its status and form, a redirect (303), 401 with the target in the
  \<open>HX-Redirect\<close> header, a bare status, or the error page of \<open>internalError\<close> for an operation.
\<close>

record login_form =
  fm_username :: string
  fm_location :: string
  fm_role :: string
  fm_locations :: "(string \<times> string) list"
  fm_roles :: "(string \<times> string) list"
  fm_remember_me :: bool
  fm_next :: string
  fm_errors :: "(string \<times> string) list"

datatype response =
  LoginRendered int login_form | SeeOther string | UnauthorizedHX string | PlainStatus int | InternalFailure string

text \<open>\<open>LoadPrincipal\<close>: the principal for the next handler, or an error response; with the cookies set.\<close>

definition load_principal ::
  "cookie_manager \<Rightarrow> (string \<Rightarrow> string) \<Rightarrow> db_call list \<Rightarrow> int \<Rightarrow> (string \<times> string) list \<Rightarrow> access_db
     \<Rightarrow> (response + browser_principal option) \<times> cookie list \<times> access_db" where
  "load_principal c hash fails now cookies db =
     (case cookie_read c cookies of None \<Rightarrow> (Inr None, [], db)
      | Some raw \<Rightarrow>
          if \<not> valid_token raw then (Inr None, [cookie_clear c], db)
          else (case resolve_session fails (hash raw) now db of
                  (Inr p, db') \<Rightarrow> (Inr (Some p), [], db')
                | (Inl e, db') \<Rightarrow>
                    if e = ErrUnauthenticated then (Inr None, [cookie_clear c], db')
                    else (Inl (InternalFailure ''resolve browser session''), [], db')))"

text \<open>\<open>RequireAuth\<close> and \<open>RequireGuest\<close>: \<open>None\<close> passes the request on.\<close>

definition require_auth :: "browser_principal option \<Rightarrow> string \<Rightarrow> bool \<Rightarrow> response option" where
  "require_auth p request_uri hx =
     (if p \<noteq> None then None
      else if hx then Some (UnauthorizedHX (login_location request_uri)) else Some (SeeOther (login_location request_uri)))"

definition require_guest :: "browser_principal option \<Rightarrow> response option" where
  "require_guest p = (if p \<noteq> None then Some (SeeOther default_page) else None)"

section \<open>Handlers\<close>

definition best_effort_audit :: "(audit_metadata \<Rightarrow> string) \<Rightarrow> db_call list \<Rightarrow> audit_event \<Rightarrow> access_db \<Rightarrow> access_db" where
  "best_effort_audit marshal fails ev db =
     (if AppendAudit \<in> set fails then db else case append_event marshal ev db of Inl _ \<Rightarrow> db | Inr db' \<Rightarrow> db')"

text \<open>The two option lists of the login page, or an error from Fincloud.\<close>

type_synonym auth_labels = "((string \<times> string) list \<times> (string \<times> string) list) option"

definition show_login :: "auth_labels \<Rightarrow> int \<Rightarrow> login_form \<Rightarrow> response" where
  "show_login labels status form =
     (case labels of None \<Rightarrow> InternalFailure ''load Fincloud login options''
      | Some (locations, roles) \<Rightarrow> LoginRendered status (form\<lparr>fm_locations := locations, fm_roles := roles\<rparr>))"

definition login_page :: "auth_labels \<Rightarrow> string \<Rightarrow> response" where
  "login_page labels next_value =
     show_login labels 200
       \<lparr>fm_username = '''', fm_location = '''', fm_role = '''', fm_locations = [], fm_roles = [], fm_remember_me = False,
        fm_next = safe_redirect next_value, fm_errors = []\<rparr>"

datatype form_parse = FormOk | FormTooLarge | FormMalformed

definition form_errors :: "login_form \<Rightarrow> string \<Rightarrow> (string \<times> string) list" where
  "form_errors form password =
     (if fm_username form = '''' then [(''username'', ''username must not be empty'')] else [])
     @ (if password = '''' then [(''password'', ''password must not be empty'')]
        else if int (length password) > max_password_bytes then [(''password'', ''password is too long'')] else [])
     @ (if fm_location form = '''' then [(''locationid'', ''select a Fincloud location'')] else [])
     @ (if fm_role form = '''' then [(''roleid'', ''select a Fincloud role'')] else [])"

definition posted_form :: "(string \<Rightarrow> string) \<Rightarrow> login_form" where
  "posted_form post =
     \<lparr>fm_username = trim_space (post ''username''), fm_location = trim_space (post ''locationid''),
      fm_role = trim_space (post ''roleid''), fm_locations = [], fm_roles = [], fm_remember_me = (post ''remember_me'' \<noteq> ''''),
      fm_next = safe_redirect (post ''next''), fm_errors = []\<rparr>"

definition no_attribution :: attribution where
  "no_attribution = \<lparr>att_actor = None, att_effective = None, att_system_actor = ''''\<rparr>"

text \<open>The audit rows of a successful login, in the order they are written.\<close>

definition login_events :: "login_result \<Rightarrow> int \<Rightarrow> audit_event list" where
  "login_events r at_time =
     (let i = \<lparr>idt_user_id = us_id (lr_user r), idt_username = us_username (lr_user r)\<rparr> in
      (if lr_provisioned r then
         [\<lparr>ev_attribution = no_attribution\<lparr>att_system_actor := ''system:fincloud-auth''\<rparr>, ev_action = ''user.auto_provisioned'',
           ev_resource = ''user'', ev_resource_id = us_id (lr_user r), ev_metadata = None, ev_created_at = at_time\<rparr>] else [])
      @ [\<lparr>ev_attribution = \<lparr>att_actor = Some i, att_effective = Some i, att_system_actor = ''''\<rparr>,
          ev_action = ''auth.login.success'', ev_resource = ''user'', ev_resource_id = idt_user_id i, ev_metadata = None,
          ev_created_at = at_time\<rparr>])"

definition login_handler ::
  "browser_service \<Rightarrow> cookie_manager \<Rightarrow> (audit_metadata \<Rightarrow> string) \<Rightarrow> (string \<Rightarrow> string) \<Rightarrow> (string \<Rightarrow> string)
     \<Rightarrow> (string \<Rightarrow> string \<Rightarrow> string \<Rightarrow> string \<Rightarrow> auth_outcome) \<Rightarrow> auth_labels \<Rightarrow> db_call list \<Rightarrow> string option
     \<Rightarrow> form_parse \<Rightarrow> (string \<Rightarrow> string) \<Rightarrow> int \<Rightarrow> int \<Rightarrow> browser_state \<Rightarrow> response \<times> cookie list \<times> browser_state" where
  "login_handler svc c marshal uni hash authenticator labels fails token parse post now later st =
     (case parse of FormTooLarge \<Rightarrow> (PlainStatus 413, [], st) | FormMalformed \<Rightarrow> (PlainStatus 400, [], st)
      | FormOk \<Rightarrow>
          let form = posted_form post; password = post ''password''; errs = form_errors form password in
          if errs \<noteq> [] then (show_login labels 422 (form\<lparr>fm_errors := errs\<rparr>), [], st)
          else
            (case login svc uni hash authenticator fails token
                    \<lparr>li_username = fm_username form, li_password = password, li_location_id = fm_location form,
                     li_role_id = fm_role form, li_remember_me = fm_remember_me form\<rparr> now st of
               (Inl e, st1) \<Rightarrow>
                 if e \<in> {ErrInvalidCredentials, ErrInactiveUser, ErrLoginThrottled} then
                   (show_login labels 422 (form\<lparr>fm_errors := [(''credentials'',
                       ''Authentication failed. Check your Fincloud credentials, location, role, and THOR access.'')]\<rparr>), [],
                    if e = ErrLoginThrottled then st1
                    else st1\<lparr>bs_db := best_effort_audit marshal fails
                           \<lparr>ev_attribution = no_attribution, ev_action = ''auth.login.failed'', ev_resource = '''', ev_resource_id = 0,
                            ev_metadata = Some (audit_metadata.LoginFailed (fm_username form)), ev_created_at = later\<rparr> (bs_db st1)\<rparr>)
                 else (InternalFailure ''Fincloud login'', [], st1)
             | (Inr r, st1) \<Rightarrow>
                 (SeeOther (fm_next form),
                  [cookie_set c (lr_raw_token r) (se_remember_me (lr_session r)) (se_created_at (lr_session r))],
                  st1\<lparr>bs_db := fold (best_effort_audit marshal fails) (login_events r later) (bs_db st1)\<rparr>)))"

definition logout_handler ::
  "cookie_manager \<Rightarrow> (audit_metadata \<Rightarrow> string) \<Rightarrow> (string \<Rightarrow> string) \<Rightarrow> db_call list \<Rightarrow> browser_principal option
     \<Rightarrow> (string \<times> string) list \<Rightarrow> int \<Rightarrow> access_db \<Rightarrow> response \<times> cookie list \<times> access_db" where
  "logout_handler c marshal hash fails p cookies later db =
     (case cookie_read c cookies of None \<Rightarrow> (SeeOther ''/login'', [cookie_clear c], db)
      | Some raw \<Rightarrow>
          if \<not> valid_token raw then (SeeOther ''/login'', [cookie_clear c], db)
          else (case logout fails (hash raw) db of
                  (Inl _, db1) \<Rightarrow> (InternalFailure ''logout'', [], db1)
                | (Inr _, db1) \<Rightarrow>
                    (SeeOther ''/login'', [cookie_clear c],
                     case p of None \<Rightarrow> db1
                     | Some pr \<Rightarrow> best_effort_audit marshal fails
                         \<lparr>ev_attribution = principal_attribution pr, ev_action = ''auth.logout'', ev_resource = ''user'',
                          ev_resource_id = pr_user_id pr, ev_metadata = None, ev_created_at = later\<rparr> db1)))"

section \<open>Sessions and their principals\<close>

lemma list_permission_keys_iff: "k \<in> set (list_permission_keys i db) \<longleftrightarrow> user_has_permission i k db"
  by (auto simp: list_permission_keys_def user_has_permission_def list_ex_iff)

lemma resolve_session_Inr:
  assumes "resolve_session fails h now db = (Inr p, db')"
  obtains s u where "find_valid_session h now db = Inr s" and "find_user (se_user_id s) db = Inr u" and "us_active u"
    and "p = \<lparr>pr_user_id = us_id u, pr_username = us_username u, pr_name = us_name u,
              pr_permissions = new_permission_set (list_permission_keys (us_id u) db @ [permission_loan_inquiry]),
              pr_session_id = se_id s, pr_remember_me = se_remember_me s\<rparr>"
    and "db' = db \<or> db' = session_touch (se_id s) now db"
  using assms
  by (auto simp: resolve_session_def revoke_unauthenticated_def Let_def
      split: if_split_asm sum.split_asm prod.split_asm)

lemma find_valid_session_Inr:
  "find_valid_session h now db = Inr s \<Longrightarrow> s \<in> set (ad_sessions db) \<and> se_token_hash s = h \<and> now < se_expires_at s"
  by (auto simp: find_valid_session_def find_Some_iff split: option.split_asm)

text \<open>
  C28. A request is given a principal only for a stored session with its token that has not expired and
  whose user exists and is active; the principal is that user, and may do exactly what the tables grant
  that user plus the baseline permission. Resolving changes no user, permission or grant.
\<close>

theorem resolve_session_sound:
  assumes "resolve_session fails h now db = (Inr p, db')"
  shows "\<exists>s u. s \<in> set (ad_sessions db) \<and> se_token_hash s = h \<and> now < se_expires_at s \<and> pr_session_id p = se_id s
           \<and> u \<in> set (ad_users db) \<and> us_id u = se_user_id s \<and> us_active u
           \<and> pr_user_id p = us_id u \<and> pr_username p = us_username u
           \<and> (\<forall>k. principal_can p k \<longleftrightarrow> user_has_permission (us_id u) k db \<or> k = ''loan.inquiry'')
           \<and> ad_users db' = ad_users db \<and> ad_permissions db' = ad_permissions db \<and> ad_grants db' = ad_grants db"
proof -
  from assms obtain s u where s: "find_valid_session h now db = Inr s" and u: "find_user (se_user_id s) db = Inr u" "us_active u"
    and p: "p = \<lparr>pr_user_id = us_id u, pr_username = us_username u, pr_name = us_name u,
              pr_permissions = new_permission_set (list_permission_keys (us_id u) db @ [permission_loan_inquiry]),
              pr_session_id = se_id s, pr_remember_me = se_remember_me s\<rparr>"
    and db': "db' = db \<or> db' = session_touch (se_id s) now db"
    by (rule resolve_session_Inr)
  have "\<forall>k. principal_can p k \<longleftrightarrow> user_has_permission (us_id u) k db \<or> k = ''loan.inquiry''"
    by (auto simp: p principal_can_def permission_set_has_def new_permission_set_def list_permission_keys_iff
        permission_loan_inquiry_def)
  moreover have "ad_users db' = ad_users db \<and> ad_permissions db' = ad_permissions db \<and> ad_grants db' = ad_grants db"
    using db' by (auto simp: session_touch_def)
  ultimately show ?thesis
    using find_valid_session_Inr [OF s] find_user_Inr [OF u(1)] u(2) by (intro exI [of _ s] exI [of _ u]) (simp add: p)
qed

text \<open>
  Deactivating a user ends that user's access at once: after the committed status change no token
  resolves to that user, whatever the time and whichever database calls fail.
\<close>

theorem deactivation_ends_sessions:
  assumes "set_active marshal requester user_id False now db = Inr db'"
  shows "\<nexists>p. fst (resolve_session fails h t db') = Inr p \<and> pr_user_id p = user_id"
proof
  assume "\<exists>p. fst (resolve_session fails h t db') = Inr p \<and> pr_user_id p = user_id"
  then obtain p db'' where r: "resolve_session fails h t db' = (Inr p, db'')" and pu: "pr_user_id p = user_id"
    by (metis prod.collapse)
  from r obtain s u where s: "find_valid_session h t db' = Inr s" and u: "find_user (se_user_id s) db' = Inr u"
    and p: "p = \<lparr>pr_user_id = us_id u, pr_username = us_username u, pr_name = us_name u,
              pr_permissions = new_permission_set (list_permission_keys (us_id u) db' @ [permission_loan_inquiry]),
              pr_session_id = se_id s, pr_remember_me = se_remember_me s\<rparr>"
    by (rule resolve_session_Inr)
  have "se_user_id s = user_id" using find_user_Inr [OF u] p pu by simp
  moreover from assms have "store_set_active marshal requester user_id False now db = Inr db'"
    by (simp add: set_active_def split: if_split_asm)
  then have "\<forall>s \<in> set (ad_sessions db'). se_user_id s \<noteq> user_id"
    by (rule store_set_active_Inr) (simp add: Let_def)
  ultimately show False using find_valid_session_Inr [OF s] by blast
qed

section \<open>A login opens a usable session\<close>

lemma open_session_Inr:
  assumes "open_session svc hash fails token inp username now st = (Inr r, st')"
  obtains db1 db2 where "find_or_create_user username now (bs_db st) = Inr (lr_user r, lr_provisioned r, db1)"
    and "us_active (lr_user r)" and "token = Some (lr_raw_token r)"
    and "session_create (us_id (lr_user r)) (hash (lr_raw_token r)) (li_remember_me inp)
           (now + (if li_remember_me inp then sv_remember_lifetime svc else sv_lifetime svc)) now now db1 = Inr (lr_session r, db2)"
    and "bs_db st' = db2 \<or> bs_db st' = update_last_login (us_id (lr_user r)) now db2"
    and "bs_failures st' = bs_failures st"
  using assms
  by (auto simp: open_session_def Let_def split: if_split_asm sum.split_asm prod.split_asm option.split_asm)

lemma login_Inr:
  assumes "login svc uni hash authenticator fails token inp now st = (Inr r, st')"
  obtains st1 where "bs_db st1 = bs_db st"
    and "authenticator (trim_space (li_username inp)) (li_password inp) (li_location_id inp) (li_role_id inp) = Authenticated"
    and "open_session svc hash fails token inp (normalize_username (trim_space (li_username inp))) now st1 = (Inr r, st')"
proof -
  define key where "key = throttle_key uni (li_username inp)"
  obtain b f1 where bl: "failures_blocked key now (bs_failures st) = (b, f1)" by force
  show ?thesis
    using assms that [of "st\<lparr>bs_failures := failures_clear key f1\<rparr>"] bl
    by (auto simp: login_def Let_def key_def [symmetric] split: if_split_asm auth_outcome.split_asm)
qed

lemma create_user_found:
  "create_user username name active now db = Inr (u, db') \<Longrightarrow> u \<in> set (ad_users db') \<and> ad_sessions db' = ad_sessions db"
  by (auto simp: create_user_def insert_user_def Let_def rbind_eq_Inr split: if_split_asm)

lemma find_username_Inr: "find_username username db = Inr u \<Longrightarrow> u \<in> set (ad_users db)"
  by (auto simp: find_username_def Let_def rbind_eq_Inr find_Some_iff split: option.split_asm)

lemma find_or_create_user_found:
  assumes "find_or_create_user username now db = Inr (u, p, db')" and "ids_ok db"
  shows "u \<in> set (ad_users db')" and "ids_ok db'"
proof -
  let ?n = "normalize_username username"
  consider (found) "find_username ?n db = Inr u" "db' = db" | (made) "create_user ?n ?n True now db = Inr (u, db')"
    using assms(1)
    by (auto simp: find_or_create_user_def Let_def rbind_eq_Inr split: sum.split_asm if_split_asm prod.split_asm)
  then have "u \<in> set (ad_users db') \<and> ids_ok db'"
  proof cases
    case found
    then show ?thesis using find_username_Inr assms(2) by simp
  next
    case made
    then show ?thesis using create_user_found [OF made] insert_user_ids [OF assms(2)] by (simp add: create_user_Inr [OF made])
  qed
  then show "u \<in> set (ad_users db')" "ids_ok db'" by simp_all
qed

lemma session_create_Inr:
  assumes "session_create i h remember expires seen now db = Inr (s, db')"
  shows "db' = db\<lparr>ad_sessions := ad_sessions db @ [s]\<rparr>" and "se_token_hash s = h" and "se_user_id s = i"
    and "se_expires_at s = expires" and "se_remember_me s = remember"
    and "\<forall>x \<in> set (ad_sessions db). se_token_hash x \<noteq> h"
  using assms by (auto simp: session_create_def Let_def list_ex_iff split: if_split_asm)

lemma find_valid_session_new:
  assumes "ad_sessions db = ss @ [s]" and "\<forall>x \<in> set ss. se_token_hash x \<noteq> se_token_hash s" and "t < se_expires_at s"
  shows "find_valid_session (se_token_hash s) t db = Inr s"
proof -
  have "find (\<lambda>x. se_token_hash x = se_token_hash s \<and> t < se_expires_at x) ss = None"
    using assms(2) by (auto simp: find_None_iff)
  then have "find (\<lambda>x. se_token_hash x = se_token_hash s \<and> t < se_expires_at x) (ss @ [s]) = Some s"
    using assms(3) by (induction ss) (auto split: if_split_asm)
  then show ?thesis by (simp add: find_valid_session_def assms(1))
qed

lemma find_user_unique: "ids_ok db \<Longrightarrow> u \<in> set (ad_users db) \<Longrightarrow> find_user (us_id u) db = Inr u"
  using find_key_iff [of us_id "ad_users db" "us_id u" u] by (simp add: find_user_def ids_ok_def)

lemma resolve_session_ok:
  assumes "find_valid_session h t db = Inr s" and "find_user (se_user_id s) db = Inr u" and "us_active u"
  shows "\<exists>p. fst (resolve_session [] h t db) = Inr p \<and> pr_user_id p = us_id u \<and> pr_username p = us_username u
           \<and> pr_session_id p = se_id s"
  using assms by (simp add: resolve_session_def Let_def)

lemma resolve_session_revoked: "fst (resolve_session [] h t (session_revoke h db)) = Inl ErrUnauthenticated"
  by (auto simp: resolve_session_def find_valid_session_def session_revoke_def find_Some_iff in_set_conv_nth
      split: option.split dest!: nth_mem)

lemma login_session_ok:
  assumes "ids_ok (bs_db st)" and "login svc uni hash authenticator fails token inp now st = (Inr r, st')"
  shows "t < se_expires_at (lr_session r) \<Longrightarrow>
           \<exists>p. fst (resolve_session [] (hash (lr_raw_token r)) t (bs_db st')) = Inr p \<and> pr_user_id p = us_id (lr_user r)
             \<and> pr_username p = us_username (lr_user r) \<and> pr_session_id p = se_id (lr_session r)"
    and "se_expires_at (lr_session r) = now + (if li_remember_me inp then sv_remember_lifetime svc else sv_lifetime svc)"
    and "authenticator (trim_space (li_username inp)) (li_password inp) (li_location_id inp) (li_role_id inp) = Authenticated"
proof -
  let ?u = "lr_user r" and ?s = "lr_session r" and ?h = "hash (lr_raw_token r)"
  from assms(2) obtain st1 where db: "bs_db st1 = bs_db st"
    and auth: "authenticator (trim_space (li_username inp)) (li_password inp) (li_location_id inp) (li_role_id inp) = Authenticated"
    and op: "open_session svc hash fails token inp (normalize_username (trim_space (li_username inp))) now st1 = (Inr r, st')"
    by (rule login_Inr)
  from op obtain db1 db2 where fu: "find_or_create_user (normalize_username (trim_space (li_username inp))) now (bs_db st1)
      = Inr (?u, lr_provisioned r, db1)" and act: "us_active ?u"
    and sc: "session_create (us_id ?u) ?h (li_remember_me inp)
           (now + (if li_remember_me inp then sv_remember_lifetime svc else sv_lifetime svc)) now now db1 = Inr (?s, db2)"
    and st': "bs_db st' = db2 \<or> bs_db st' = update_last_login (us_id ?u) now db2"
    by (rule open_session_Inr)
  note f = find_or_create_user_found [OF fu, unfolded db, OF assms(1)] and c = session_create_Inr [OF sc]
  let ?g = "\<lambda>u :: user_row. u\<lparr>us_last_login := Some now, us_updated := now\<rparr>"
  have ids2: "ids_ok db2" and mem2: "?u \<in> set (ad_users db2)" using f c(1) by (simp_all add: ids_ok_def)
  have ses: "ad_sessions (bs_db st') = ad_sessions db1 @ [?s]"
    using st' c(1) by (auto simp: update_last_login_def update_user_keeps)
  have fv: "find_valid_session ?h t (bs_db st') = Inr ?s" if "t < se_expires_at ?s"
    using find_valid_session_new [OF ses] c(2,6) that by simp
  have "\<exists>v. find_user (us_id ?u) (bs_db st') = Inr v \<and> us_active v \<and> us_id v = us_id ?u \<and> us_username v = us_username ?u"
    using st'
  proof
    assume "bs_db st' = db2"
    then show ?thesis using find_user_unique [OF ids2 mem2] act by simp
  next
    assume e: "bs_db st' = update_last_login (us_id ?u) now db2"
    have "?g ?u \<in> set (ad_users (bs_db st'))" using mem2 by (auto simp: e update_last_login_def update_user_def)
    moreover have "ids_ok (bs_db st')"
      using ids2 update_user_ids [of ?g "us_id ?u" db2] by (simp add: e update_last_login_def ids_ok_def)
    ultimately show ?thesis using find_user_unique [of "bs_db st'" "?g ?u"] act by simp
  qed
  then show "t < se_expires_at ?s \<Longrightarrow>
      \<exists>p. fst (resolve_session [] ?h t (bs_db st')) = Inr p \<and> pr_user_id p = us_id ?u
        \<and> pr_username p = us_username ?u \<and> pr_session_id p = se_id ?s"
    using resolve_session_ok [OF fv] c(3) by force
  show "se_expires_at ?s = now + (if li_remember_me inp then sv_remember_lifetime svc else sv_lifetime svc)" using c(4) .
  show "authenticator (trim_space (li_username inp)) (li_password inp) (li_location_id inp) (li_role_id inp) = Authenticated"
    by (rule auth)
qed

section \<open>From the login form to the principal\<close>

lemma resolve_session_audit: "fst (resolve_session fails h t (db\<lparr>ad_audit := a\<rparr>)) = fst (resolve_session fails h t db)"
  by (auto simp: resolve_session_def revoke_unauthenticated_def find_valid_session_def find_user_def list_permission_keys_def
      Let_def split: sum.split option.split)

lemma best_effort_audit_only: "\<exists>a. best_effort_audit marshal fails ev db = db\<lparr>ad_audit := a\<rparr>"
proof -
  have "\<exists>a. db = db\<lparr>ad_audit := a\<rparr>" by (intro exI [of _ "ad_audit db"]) simp
  then show ?thesis
    by (auto simp: best_effort_audit_def split: sum.split dest: append_event_Inr)
qed

lemma fold_best_effort: "\<exists>a. fold (best_effort_audit marshal fails) evs db = db\<lparr>ad_audit := a\<rparr>"
proof (induction evs arbitrary: db)
  case Nil
  show ?case by (intro exI [of _ "ad_audit db"]) simp
next
  case (Cons ev evs)
  obtain a where a: "best_effort_audit marshal fails ev db = db\<lparr>ad_audit := a\<rparr>" using best_effort_audit_only by blast
  obtain b where "fold (best_effort_audit marshal fails) evs (db\<lparr>ad_audit := a\<rparr>) = db\<lparr>ad_audit := a\<rparr>\<lparr>ad_audit := b\<rparr>"
    using Cons by blast
  then show ?case by (auto simp: a)
qed

lemma find_username_name: "find_username username db = Inr u \<Longrightarrow> us_username u = normalize_username username"
  by (auto simp: find_username_def Let_def rbind_eq_Inr find_Some_iff split: option.split_asm)

lemma find_or_create_user_name:
  "find_or_create_user username now db = Inr (u, p, db') \<Longrightarrow> us_username u = trim_space username"
  by (auto simp: find_or_create_user_def create_user_def insert_user_def normalize_username_def Let_def rbind_eq_Inr
      split: sum.split_asm if_split_asm prod.split_asm dest!: find_username_name)

lemma load_principal_ok:
  assumes "valid_token raw" and "fst (resolve_session [] (hash raw) t db) = Inr p"
  shows "fst (load_principal c hash [] t [(cm_name c, raw)] db) = Inr (Some p)"
  using assms by (cases "resolve_session [] (hash raw) t db") (auto simp: load_principal_def cookie_read_def)

lemma cookie_set_fields [simp]:
  "ck_name (cookie_set c raw remember now) = cm_name c" "ck_value (cookie_set c raw remember now) = raw"
  "ck_http_only (cookie_set c raw remember now)" "ck_lax (cookie_set c raw remember now)"
  "ck_secure (cookie_set c raw remember now) = cm_secure c"
  by (simp_all add: cookie_set_def base_cookie_def)

lemma login_username:
  assumes "login svc uni hash authenticator fails token inp now st = (Inr r, st')"
  shows "us_username (lr_user r) = trim_space (li_username inp)" and "token = Some (lr_raw_token r)"
proof -
  from assms obtain st1 where
    "open_session svc hash fails token inp (normalize_username (trim_space (li_username inp))) now st1 = (Inr r, st')"
    by (rule login_Inr)
  then show "us_username (lr_user r) = trim_space (li_username inp)" and "token = Some (lr_raw_token r)"
    by (auto elim!: open_session_Inr dest!: find_or_create_user_name simp: normalize_username_def)
qed

lemma login_handler_redirects:
  assumes "login_handler svc c marshal uni hash authenticator labels fails token parse post now later st = (SeeOther target, cks, st')"
  obtains r st1 a where
    "login svc uni hash authenticator fails token
       \<lparr>li_username = trim_space (post ''username''), li_password = post ''password'', li_location_id = trim_space (post ''locationid''),
        li_role_id = trim_space (post ''roleid''), li_remember_me = (post ''remember_me'' \<noteq> '''')\<rparr> now st = (Inr r, st1)"
    and "target = safe_redirect (post ''next'')"
    and "cks = [cookie_set c (lr_raw_token r) (se_remember_me (lr_session r)) (se_created_at (lr_session r))]"
    and "bs_db st' = (bs_db st1)\<lparr>ad_audit := a\<rparr>"
proof -
  have no: "show_login l n f \<noteq> SeeOther target" for l n f by (auto simp: show_login_def split: option.split)
  from assms obtain r st1 where
    "login svc uni hash authenticator fails token
       \<lparr>li_username = trim_space (post ''username''), li_password = post ''password'', li_location_id = trim_space (post ''locationid''),
        li_role_id = trim_space (post ''roleid''), li_remember_me = (post ''remember_me'' \<noteq> '''')\<rparr> now st = (Inr r, st1)"
    and "target = safe_redirect (post ''next'')"
    and "cks = [cookie_set c (lr_raw_token r) (se_remember_me (lr_session r)) (se_created_at (lr_session r))]"
    and "bs_db st' = fold (best_effort_audit marshal fails) (login_events r later) (bs_db st1)"
    by (auto simp: login_handler_def posted_form_def Let_def no split: form_parse.split_asm if_split_asm prod.split_asm sum.split_asm)
  then show ?thesis using that fold_best_effort [of marshal fails "login_events r later" "bs_db st1"] by metis
qed

text \<open>
  C29. From the form to the principal: when the login handler redirects, Fincloud accepted exactly the posted
  credentials, the redirect goes to a safe page, one HTTP-only SameSite cookie is set, and a request
  with that cookie is given the principal of the posted user name at every instant before the
  session ends (the remember-me lifetime when it was asked for).
\<close>

theorem login_round_trip:
  assumes "ids_ok (bs_db st)" and "list_all (\<lambda>b. b < 256) random" and "length random = token_bytes"
    and "login_handler svc c marshal uni hash authenticator labels fails (Some (generate_token random)) parse post now later st
           = (SeeOther target, cks, st')"
    and "t < now + (if post ''remember_me'' \<noteq> '''' then sv_remember_lifetime svc else sv_lifetime svc)"
  shows "target = safe_redirect (post ''next'')
       \<and> authenticator (trim_space (post ''username'')) (post ''password'') (trim_space (post ''locationid'')) (trim_space (post ''roleid''))
           = Authenticated
       \<and> (\<exists>ck p. cks = [ck] \<and> ck_http_only ck \<and> ck_lax ck \<and> ck_secure ck = cm_secure c
             \<and> fst (load_principal c hash [] t [(ck_name ck, ck_value ck)] (bs_db st')) = Inr (Some p)
             \<and> pr_username p = trim_space (post ''username''))"
proof -
  from assms(4) obtain r st1 a where
    lo: "login svc uni hash authenticator fails (Some (generate_token random))
       \<lparr>li_username = trim_space (post ''username''), li_password = post ''password'', li_location_id = trim_space (post ''locationid''),
        li_role_id = trim_space (post ''roleid''), li_remember_me = (post ''remember_me'' \<noteq> '''')\<rparr> now st = (Inr r, st1)"
    and tg: "target = safe_redirect (post ''next'')"
    and ck: "cks = [cookie_set c (lr_raw_token r) (se_remember_me (lr_session r)) (se_created_at (lr_session r))]"
    and db: "bs_db st' = (bs_db st1)\<lparr>ad_audit := a\<rparr>"
    by (rule login_handler_redirects)
  note n = login_username [OF lo]
  have raw: "lr_raw_token r = generate_token random" using n(2) by simp
  have valid: "valid_token (lr_raw_token r)"
    using b64_round_trip [OF assms(2)] b64_sextets_length [of random] assms(3)
    by (simp add: raw valid_token_def generate_token_def b64_encode_def)
  note s = login_session_ok [OF assms(1) lo]
  from s(1) [of t] assms(5) s(2) obtain p where
    "fst (resolve_session [] (hash (lr_raw_token r)) t (bs_db st1)) = Inr p" and p: "pr_username p = us_username (lr_user r)" by auto
  then have "fst (load_principal c hash [] t [(cm_name c, lr_raw_token r)] (bs_db st')) = Inr (Some p)"
    using load_principal_ok [OF valid] resolve_session_audit by (simp add: db)
  then show ?thesis using s(3) n(1) p tg ck by simp
qed

section \<open>Sample runs\<close>

definition sample_post :: "string \<Rightarrow> string" where
  "sample_post k =
     (if k = ''username'' then '' ani '' else if k = ''password'' then ''secret'' else if k = ''locationid'' then ''7''
      else if k = ''roleid'' then ''2'' else if k = ''next'' then ''//evil.example'' else '''')"

definition sample_authenticator :: "string \<Rightarrow> string \<Rightarrow> string \<Rightarrow> string \<Rightarrow> auth_outcome" where
  "sample_authenticator u p l r = (if p = ''secret'' then Authenticated else InvalidCredentials)"

definition sample_state :: browser_state where
  "sample_state = \<lparr>bs_db = sample_db, bs_failures = sample_lockout\<rparr>"

definition sample_cookies :: cookie_manager where
  "sample_cookies = \<lparr>cm_name = ''trs'', cm_secure = True, cm_remember_lifetime = 900\<rparr>"

definition sample_run :: "response \<times> cookie list \<times> browser_state" where
  "sample_run =
     login_handler \<lparr>sv_lifetime = 100, sv_remember_lifetime = 900\<rparr> sample_cookies (\<lambda>_. ''{}'') id (take 32) sample_authenticator
       (Some ([], [])) [] (Some (generate_token (replicate 32 200))) FormOk sample_post 10 11 sample_state"

lemma sample_run_redirects: "fst sample_run = SeeOther ''/loans/inquiry''"
  unfolding sample_run_def sample_state_def sample_db_def by code_simp

lemma sample_ids: "ids_ok sample_db"
  unfolding sample_db_def by code_simp

theorem login_round_trip_witness:
  "\<exists>ck p. fst (snd sample_run) = [ck]
     \<and> fst (load_principal sample_cookies (take 32) [] 109 [(ck_name ck, ck_value ck)] (bs_db (snd (snd sample_run)))) = Inr (Some p)
     \<and> pr_username p = ''ani''"
proof -
  have a: "ids_ok (bs_db sample_state)" by (simp add: sample_state_def sample_ids)
  have b: "list_all (\<lambda>b. b < 256) (replicate 32 (200::nat))" and l: "length (replicate 32 (200::nat)) = token_bytes"
    by (simp_all add: list_all_iff token_bytes_def)
  have r: "login_handler \<lparr>sv_lifetime = 100, sv_remember_lifetime = 900\<rparr> sample_cookies (\<lambda>_. ''{}'') id (take 32)
      sample_authenticator (Some ([], [])) [] (Some (generate_token (replicate 32 200))) FormOk sample_post 10 11 sample_state
      = (SeeOther ''/loans/inquiry'', fst (snd sample_run), snd (snd sample_run))"
    using sample_run_redirects by (simp add: sample_run_def prod_eq_iff)
  have "\<exists>ck p. fst (snd sample_run) = [ck] \<and> ck_http_only ck \<and> ck_lax ck \<and> ck_secure ck = cm_secure sample_cookies
       \<and> fst (load_principal sample_cookies (take 32) [] 109 [(ck_name ck, ck_value ck)] (bs_db (snd (snd sample_run)))) = Inr (Some p)
       \<and> pr_username p = trim_space (sample_post ''username'')"
    using login_round_trip [OF a b l r, of 109] by (simp add: sample_post_def)
  moreover have "trim_space (sample_post ''username'') = ''ani''" by code_simp
  ultimately show ?thesis by auto
qed

definition sample_session_db :: access_db where
  "sample_session_db = sample_db\<lparr>ad_sessions := [\<lparr>se_id = 1, se_user_id = 2, se_token_hash = ''h'', se_remember_me = False,
     se_expires_at = 50, se_last_seen_at = 10, se_created_at = 10, se_updated_at = 10\<rparr>]\<rparr>"

lemma sample_session_resolves: "\<not> isl (fst (resolve_session [] ''h'' 20 sample_session_db))"
  unfolding sample_session_db_def sample_db_def by code_simp

theorem resolve_session_sound_witness:
  "\<exists>p. fst (resolve_session [] ''h'' 20 sample_session_db) = Inr p \<and> principal_can p ''loan.inquiry''"
proof -
  obtain p db' where r: "resolve_session [] ''h'' 20 sample_session_db = (Inr p, db')"
    using sample_session_resolves
    by (cases "resolve_session [] ''h'' 20 sample_session_db"; cases "fst (resolve_session [] ''h'' 20 sample_session_db)") auto
  then have "principal_can p ''loan.inquiry''" using resolve_session_sound [OF r] by blast
  then show ?thesis using r by auto
qed

lemma sample_session_deactivates:
  "\<not> isl (set_active (\<lambda>_. ''{}'') \<lparr>idt_user_id = 1, idt_username = ''root''\<rparr> 2 False 9 sample_session_db)"
  unfolding sample_session_db_def sample_db_def by code_simp

theorem deactivation_ends_sessions_witness:
  "\<exists>db'. set_active (\<lambda>_. ''{}'') \<lparr>idt_user_id = 1, idt_username = ''root''\<rparr> 2 False 9 sample_session_db = Inr db'
     \<and> (\<nexists>p. fst (resolve_session [] ''h'' 20 db') = Inr p \<and> pr_user_id p = 2)"
proof -
  obtain db' where d: "set_active (\<lambda>_. ''{}'') \<lparr>idt_user_id = 1, idt_username = ''root''\<rparr> 2 False 9 sample_session_db = Inr db'"
    using sample_session_deactivates
    by (cases "set_active (\<lambda>_. ''{}'') \<lparr>idt_user_id = 1, idt_username = ''root''\<rparr> 2 False 9 sample_session_db") auto
  then show ?thesis using deactivation_ends_sessions [OF d] by blast
qed

end
