(* ===== verification/Admin_Lists.thy ===== *)
theory Admin_Lists
  imports Browser_Auth "HOL-Library.Multiset"
begin

text \<open>
  The paged lists of the administration pages: \<open>src/internal/platform/pagination\<close>, the SQL search of
  \<open>src/internal/features/users\<close> with its LIKE patterns, the audit history of \<open>src/internal/features/auditlogs\<close>, the
  permission gate of \<open>src/internal/platform/adminshell\<close> and the user handlers. The locale
  \<open>paged_store\<close> is the contract of a store behind a paged list; both stores are instances.
\<close>

section \<open>Pagination\<close>

record page_info =
  pg_page :: int
  pg_per_page :: int
  pg_total :: int
  pg_total_pages :: int
  pg_previous :: int
  pg_next :: int

definition new_page :: "int \<Rightarrow> int \<Rightarrow> int \<Rightarrow> page_info" where
  "new_page requested per_page total_rows =
     (let per = (if per_page < 1 then 1 else per_page);
          pages = max ((total_rows + per - 1) div per) 1;
          p1 = (if requested < 1 then 1 else requested);
          p = (if pages < p1 then pages else p1)
      in \<lparr>pg_page = p, pg_per_page = per, pg_total = total_rows, pg_total_pages = pages,
          pg_previous = (if 1 < p then p - 1 else 0), pg_next = (if p < pages then p + 1 else 0)\<rparr>)"

definition page_offset :: "page_info \<Rightarrow> int" where
  "page_offset p = (pg_page p - 1) * pg_per_page p"

text \<open>\<open>webutil.Page\<close> and \<open>queryPage\<close>.\<close>

definition query_page :: "string \<Rightarrow> int" where
  "query_page raw = (case atoi raw of None \<Rightarrow> 1 | Some p \<Rightarrow> if p < 1 then 1 else p)"

text \<open>\<open>webutil.RouteID\<close>: an unsigned 64-bit number other than zero.\<close>

definition route_id :: "string \<Rightarrow> int option" where
  "route_id raw =
     (if raw = '''' \<or> \<not> list_all is_digit raw \<or> int (digits_value raw) > 18446744073709551615 \<or> digits_value raw = 0 then None
      else Some (int (digits_value raw)))"

lemma slices_concat:
  "concat (map (\<lambda>i. take k (drop (i * k) xs)) [0..<n]) = take (n * k) xs"
proof (induction n)
  case (Suc n)
  have "take (Suc n * k) xs = take (n * k) xs @ take k (drop (n * k) xs)"
    by (metis add.commute mult_Suc take_add)
  then show ?case using Suc by simp
qed simp

text \<open>The contract of a store behind a paged list: all rows of a query in order, and slices of them.\<close>

locale paged_store =
  fixes count_rows :: "'q \<Rightarrow> 'd \<Rightarrow> int" and list_rows :: "'q \<Rightarrow> int \<Rightarrow> int \<Rightarrow> 'd \<Rightarrow> 'r list" and all_rows :: "'q \<Rightarrow> 'd \<Rightarrow> 'r list"
  assumes count_all: "count_rows q db = int (length (all_rows q db))"
    and list_slice: "0 \<le> limit \<Longrightarrow> 0 \<le> offset \<Longrightarrow> list_rows q limit offset db = take (nat limit) (drop (nat offset) (all_rows q db))"
begin

definition page_rows :: "int \<Rightarrow> int \<Rightarrow> 'q \<Rightarrow> 'd \<Rightarrow> 'r list" where
  "page_rows per n q db =
     (let p = new_page n per (count_rows q db) in list_rows q (pg_per_page p) (page_offset p) db)"

definition pages :: "int \<Rightarrow> 'q \<Rightarrow> 'd \<Rightarrow> nat" where
  "pages per q db = nat (pg_total_pages (new_page 1 per (count_rows q db)))"

lemma page_slice:
  assumes "0 < per" and "Suc i \<le> pages per q db"
  shows "page_rows per (int (Suc i)) q db = take (nat per) (drop (i * nat per) (all_rows q db))"
proof -
  let ?p = "new_page (int (Suc i)) per (count_rows q db)"
  have "int (Suc i) \<le> pg_total_pages ?p" using assms by (simp add: pages_def new_page_def Let_def)
  then have "pg_page ?p = int (Suc i)" "pg_per_page ?p = per"
    using assms(1) by (auto simp: new_page_def Let_def)
  then have "page_offset ?p = int i * per" by (simp add: page_offset_def)
  moreover have "nat (int i * per) = i * nat per" using assms(1) by (simp add: nat_mult_distrib)
  ultimately show ?thesis
    using assms(1) list_slice [of per "int i * per" q db] \<open>pg_per_page ?p = per\<close> by (simp add: page_rows_def Let_def)
qed

lemma pages_cover:
  assumes "0 < per"
  shows "concat (map (\<lambda>i. page_rows per (int (Suc i)) q db) [0..<pages per q db]) = all_rows q db"
proof -
  let ?n = "pages per q db" and ?k = "nat per" and ?xs = "all_rows q db"
  have "map (\<lambda>i. page_rows per (int (Suc i)) q db) [0..<?n] = map (\<lambda>i. take ?k (drop (i * ?k) ?xs)) [0..<?n]"
    using page_slice [OF assms] by (simp del: of_nat_Suc)
  then have "concat (map (\<lambda>i. page_rows per (int (Suc i)) q db) [0..<?n]) = take (?n * ?k) ?xs"
    by (simp only: slices_concat)
  moreover have "length ?xs \<le> ?n * ?k"
  proof -
    let ?t = "int (length ?xs)"
    have "?t \<le> (?t + per - 1) div per * per"
      using assms by (smt (verit, ccfv_threshold) div_mult_mod_eq pos_mod_bound)
    also have "\<dots> \<le> pg_total_pages (new_page 1 per (count_rows q db)) * per"
      using assms by (simp add: new_page_def Let_def count_all mult_right_mono)
    finally have "?t \<le> int ?n * per" by (simp add: pages_def new_page_def Let_def)
    then have "?t \<le> int (?n * ?k)" using assms by simp
    then show ?thesis by linarith
  qed
  ultimately show ?thesis by simp
qed

lemma page_length: "0 < per \<Longrightarrow> int (length (page_rows per n q db)) \<le> per"
proof -
  assume "0 < per"
  let ?p = "new_page n per (count_rows q db)"
  have "1 \<le> pg_page ?p" and per: "pg_per_page ?p = per" using \<open>0 < per\<close> by (auto simp: new_page_def Let_def)
  then have "0 \<le> page_offset ?p" using \<open>0 < per\<close> by (simp add: page_offset_def)
  then show ?thesis using \<open>0 < per\<close> list_slice [of per "page_offset ?p" q db] by (simp add: page_rows_def Let_def per)
qed

end

section \<open>SQL search patterns\<close>

definition escape_like :: "string \<Rightarrow> string" where
  "escape_like v = concat (map (\<lambda>c. if c = CHR ''!'' \<or> c = CHR ''%'' \<or> c = CHR ''_'' then [CHR ''!'', c] else [c]) v)"

definition search_patterns :: "string \<Rightarrow> string \<times> string" where
  "search_patterns query =
     (''%'' @ escape_like (normalize_username query) @ ''%'', ''%'' @ escape_like (trim_space query) @ ''%'')"

text \<open>
  SQL's LIKE with \<open>ESCAPE '!'\<close>: a pattern is a sequence of percent signs, underscores and literal texts; a
  literal text is compared under the collation \<open>same\<close> of the column.
\<close>

datatype like_token = AnyRun | OneChar | Literal string

fun add_literal :: "char \<Rightarrow> like_token list \<Rightarrow> like_token list" where
  "add_literal c (Literal s # ts) = Literal (c # s) # ts"
| "add_literal c ts = Literal [c] # ts"

fun like_parse :: "string \<Rightarrow> like_token list" where
  "like_parse [] = []"
| "like_parse (c # cs) =
     (if c = CHR ''!'' then (case cs of [] \<Rightarrow> [Literal ''!''] | d # ds \<Rightarrow> add_literal d (like_parse ds))
      else if c = CHR ''%'' then AnyRun # like_parse cs
      else if c = CHR ''_'' then OneChar # like_parse cs
      else add_literal c (like_parse cs))"

fun like_match :: "(string \<Rightarrow> string \<Rightarrow> bool) \<Rightarrow> like_token list \<Rightarrow> string \<Rightarrow> bool" where
  "like_match same [] s \<longleftrightarrow> s = []"
| "like_match same (AnyRun # ts) s \<longleftrightarrow> list_ex (\<lambda>i. like_match same ts (drop i s)) [0..<Suc (length s)]"
| "like_match same (OneChar # ts) s \<longleftrightarrow> s \<noteq> [] \<and> like_match same ts (drop (rune_width s) s)"
| "like_match same (Literal q # ts) s \<longleftrightarrow>
     list_ex (\<lambda>i. same q (take i s) \<and> like_match same ts (drop i s)) [0..<Suc (length s)]"

definition sql_like :: "(string \<Rightarrow> string \<Rightarrow> bool) \<Rightarrow> string \<Rightarrow> string \<Rightarrow> bool" where
  "sql_like same pattern s = like_match same (like_parse pattern) s"

lemma parse_escaped:
  "q \<noteq> [] \<Longrightarrow> like_parse (escape_like q @ ''%'') = [Literal q, AnyRun]"
proof (induction q)
  case (Cons c q)
  have e: "like_parse (escape_like (c # q) @ ''%'') = add_literal c (like_parse (escape_like q @ ''%''))"
    by (auto simp: escape_like_def)
  show ?case
  proof (cases "q = []")
    case True
    then show ?thesis by (simp add: e escape_like_def)
  next
    case False
    then show ?thesis using Cons by (simp add: e)
  qed
qed simp

lemma split_ex: "list_ex (\<lambda>i. P (take i s) (drop i s)) [0..<Suc (length s)] \<longleftrightarrow> (\<exists>a b. s = a @ b \<and> P a b)"
proof
  assume "list_ex (\<lambda>i. P (take i s) (drop i s)) [0..<Suc (length s)]"
  then show "\<exists>a b. s = a @ b \<and> P a b" unfolding list_ex_iff by (metis append_take_drop_id)
next
  assume "\<exists>a b. s = a @ b \<and> P a b"
  then obtain a b where "s = a @ b" "P a b" by blast
  then show "list_ex (\<lambda>i. P (take i s) (drop i s)) [0..<Suc (length s)]"
    unfolding list_ex_iff by (intro bexI [of _ "length a"]) auto
qed

lemma like_match_splits:
  "like_match same (AnyRun # ts) s \<longleftrightarrow> (\<exists>a b. s = a @ b \<and> like_match same ts b)"
  "like_match same (Literal q # ts) s \<longleftrightarrow> (\<exists>m b. s = m @ b \<and> same q m \<and> like_match same ts b)"
  using split_ex [of "\<lambda>_. like_match same ts" s] split_ex [of "\<lambda>m b. same q m \<and> like_match same ts b" s] by simp_all

text \<open>
  C38. The search of the user list finds exactly the rows that contain the query: with the pattern
  \<open>searchPatterns\<close> builds, LIKE holds exactly for the texts that have a part equal to the query
  under the collation, so percent signs, underscores and exclamation marks of the query stand for
  themselves.
\<close>

theorem search_is_contains:
  assumes "trim_space q \<noteq> []"
  shows "(sql_like (=) (fst (search_patterns q)) s \<longleftrightarrow> (\<exists>a b. s = a @ trim_space q @ b))
       \<and> (sql_like same (snd (search_patterns q)) s \<longleftrightarrow> (\<exists>a m b. s = a @ m @ b \<and> same (trim_space q) m))"
proof -
  have "sql_like r (''%'' @ escape_like (trim_space q) @ ''%'') s \<longleftrightarrow> (\<exists>a m b. s = a @ m @ b \<and> r (trim_space q) m)" for r
  proof -
    have "like_parse (''%'' @ escape_like (trim_space q) @ ''%'') = AnyRun # like_parse (escape_like (trim_space q) @ ''%'')" by simp
    then show ?thesis
      by (simp add: sql_like_def parse_escaped [OF assms] like_match_splits del: like_match.simps(2,4)) blast
  qed
  then show ?thesis by (simp add: search_patterns_def normalize_username_def)
qed

theorem search_is_contains_witness:
  "sql_like (=) (fst (search_patterns '' 50% '')) ''a 50% b'' \<and> \<not> sql_like (=) (fst (search_patterns '' 50% '')) ''a 500 b''"
proof -
  have t: "trim_space '' 50% '' = ''50%''" by code_simp
  have "\<not> (\<exists>a b. ''a 500 b'' = a @ ''50%'' @ b)"
  proof
    assume "\<exists>a b. ''a 500 b'' = a @ ''50%'' @ b"
    then obtain a b where "''a 500 b'' = a @ ''50%'' @ b" by blast
    moreover have "CHR ''%'' \<in> set (a @ ''50%'' @ b)" by simp
    ultimately have "CHR ''%'' \<in> set ''a 500 b''" by metis
    then show False by simp
  qed
  moreover have "\<exists>a b. ''a 50% b'' = a @ ''50%'' @ b" by (intro exI [of _ "''a ''"] exI [of _ "'' b''"]) simp
  ultimately show ?thesis using search_is_contains [of "'' 50% ''"] by (simp add: t)
qed

section \<open>User lists\<close>

definition user_page_size :: int where
  "user_page_size = 20"

text \<open>The collation of the name column is \<open>same\<close>; user names compare byte by byte.\<close>

definition user_matches :: "(string \<Rightarrow> string \<Rightarrow> bool) \<Rightarrow> string \<Rightarrow> user_row \<Rightarrow> bool" where
  "user_matches same query u \<longleftrightarrow>
     query = '''' \<or>
     (let (pu, pn) = search_patterns query in sql_like (=) pu (us_username u) \<or> sql_like same pn (us_name u))"

definition count_users :: "(string \<Rightarrow> string \<Rightarrow> bool) \<Rightarrow> string \<Rightarrow> access_db \<Rightarrow> int" where
  "count_users same query db = int (length (filter (user_matches same query) (ad_users db)))"

definition ordered_users :: "(string \<Rightarrow> string \<Rightarrow> bool) \<Rightarrow> string \<Rightarrow> access_db \<Rightarrow> user_row list" where
  "ordered_users same query db =
     sort_key us_username (sort_key us_id (filter (user_matches same query) (ad_users db)))"

definition list_users :: "(string \<Rightarrow> string \<Rightarrow> bool) \<Rightarrow> string \<Rightarrow> int \<Rightarrow> int \<Rightarrow> access_db \<Rightarrow> user_row list" where
  "list_users same query limit offset db = take (nat limit) (drop (nat offset) (ordered_users same query db))"

record user_page =
  up_users :: "user_row list"
  up_query :: string
  up_pagination :: page_info

definition users_list :: "(string \<Rightarrow> string \<Rightarrow> bool) \<Rightarrow> string \<Rightarrow> int \<Rightarrow> access_db \<Rightarrow> user_page" where
  "users_list same raw page db =
     (let query = trim_space raw; p = new_page page user_page_size (count_users same query db)
      in \<lparr>up_users = list_users same query (pg_per_page p) (page_offset p) db, up_query = query, up_pagination = p\<rparr>)"

interpretation users_store: paged_store "count_users same" "list_users same" "ordered_users same" for same
  by unfold_locales (simp_all add: count_users_def list_users_def ordered_users_def)

text \<open>Permission groups of a user's page: one per group name, in the order the registry first names it.\<close>

record permission_option =
  po_key :: string
  po_name :: string
  po_description :: string
  po_selected :: bool
  po_inherited :: bool

definition option_of :: "string list \<Rightarrow> permission_definition \<Rightarrow> permission_option" where
  "option_of keys d =
     \<lparr>po_key = pd_key d, po_name = pd_name d, po_description = pd_description d,
      po_selected = (pd_key d \<in> set keys \<or> pd_key d = permission_loan_inquiry), po_inherited = (pd_key d = permission_loan_inquiry)\<rparr>"

fun add_to_group :: "string \<Rightarrow> permission_option \<Rightarrow> (string \<times> permission_option list) list \<Rightarrow> (string \<times> permission_option list) list" where
  "add_to_group g p [] = [(g, [p])]"
| "add_to_group g p ((h, ps) # gs) = (if h = g then (h, ps @ [p]) # gs else (h, ps) # add_to_group g p gs)"

definition permission_groups :: "permission_definition list \<Rightarrow> string list \<Rightarrow> (string \<times> permission_option list) list" where
  "permission_groups definitions keys = fold (\<lambda>d. add_to_group (pd_group d) (option_of keys d)) definitions []"

definition users_find ::
  "permission_definition list \<Rightarrow> int \<Rightarrow> access_db \<Rightarrow> access_error + user_row \<times> (string \<times> permission_option list) list" where
  "users_find definitions user_id db =
     (if user_id = 0 then Inl UserNotFound
      else rbind (find_user user_id db) (\<lambda>u. Inr (u, permission_groups definitions (list_permission_keys user_id db))))"


text \<open>
  C39. The pages of the user list are a partition: with the number of pages that \<open>pagination.New\<close> computes, the pages
  one after the other are all matching users in order, each once, and no page has more than 20 rows; a
  page number outside the range shows the nearest page.
\<close>

theorem users_list_pages:
  "concat (map (\<lambda>i. up_users (users_list same q (int (Suc i)) db))
       [0..<nat (pg_total_pages (up_pagination (users_list same q 1 db)))]) = ordered_users same (trim_space q) db
   \<and> int (length (up_users (users_list same q n db))) \<le> 20
   \<and> users_list same q n db = users_list same q (max 1 (min n (pg_total_pages (up_pagination (users_list same q 1 db))))) db
   \<and> mset (ordered_users same (trim_space q) db) = mset (filter (user_matches same (trim_space q)) (ad_users db))"
proof -
  have rows: "up_users (users_list same q n db) = users_store.page_rows same 20 n (trim_space q) db" for n
    by (simp add: users_list_def users_store.page_rows_def user_page_size_def Let_def)
  have tp: "nat (pg_total_pages (up_pagination (users_list same q 1 db))) = users_store.pages same 20 (trim_space q) db"
    by (simp add: users_list_def users_store.pages_def user_page_size_def Let_def)
  have "users_list same q n db = users_list same q (max 1 (min n (pg_total_pages (up_pagination (users_list same q 1 db))))) db"
    by (simp add: users_list_def new_page_def Let_def max_def min_def)
  moreover have "int (length (up_users (users_list same q n db))) \<le> 20"
    unfolding rows by (rule users_store.page_length) simp
  moreover have "mset (ordered_users same (trim_space q) db) = mset (filter (user_matches same (trim_space q)) (ad_users db))"
    by (simp add: ordered_users_def)
  ultimately show ?thesis
    unfolding tp using users_store.pages_cover [of 20 same "trim_space q" db] by (simp add: rows)
qed


section \<open>Audit history\<close>

definition audit_page_size :: int where
  "audit_page_size = 50"

text \<open>Rows of \<open>audit_logs\<close> with their ids, which grow in insertion order.\<close>

definition numbered_audit :: "access_db \<Rightarrow> (int \<times> audit_row) list" where
  "numbered_audit db = zip (map int [1..<Suc (length (ad_audit db))]) (ad_audit db)"

definition audit_matches :: "string \<Rightarrow> int \<times> audit_row \<Rightarrow> bool" where
  "audit_matches action r \<longleftrightarrow> action = '''' \<or> al_action (snd r) = action"

definition audit_count :: "string \<Rightarrow> access_db \<Rightarrow> int" where
  "audit_count action db = int (length (filter (audit_matches action) (numbered_audit db)))"

text \<open>\<open>ORDER BY created_at DESC, id DESC\<close>.\<close>

definition audit_ordered :: "string \<Rightarrow> access_db \<Rightarrow> (int \<times> audit_row) list" where
  "audit_ordered action db =
     sort_key (\<lambda>r. - al_created_at (snd r)) (sort_key (\<lambda>r. - fst r) (filter (audit_matches action) (numbered_audit db)))"

definition audit_rows :: "string \<Rightarrow> int \<Rightarrow> int \<Rightarrow> access_db \<Rightarrow> (int \<times> audit_row) list" where
  "audit_rows action limit offset db = take (nat limit) (drop (nat offset) (audit_ordered action db))"

definition audit_list :: "string \<Rightarrow> int \<Rightarrow> access_db \<Rightarrow> (int \<times> audit_row) list \<times> string \<times> page_info" where
  "audit_list raw page db =
     (let action = trim_space raw; p = new_page page audit_page_size (audit_count action db)
      in (audit_rows action (pg_per_page p) (page_offset p) db, action, p))"

definition audit_find :: "int \<Rightarrow> access_db \<Rightarrow> audit_row option" where
  "audit_find i db = (if i = 0 then None else map_of (numbered_audit db) i)"

interpretation audit_store: paged_store audit_count audit_rows audit_ordered
  by unfold_locales (simp_all add: audit_count_def audit_rows_def audit_ordered_def)

lemma audit_find_iff: "audit_find i db = (if 1 \<le> i \<and> i \<le> int (length (ad_audit db)) then Some (ad_audit db ! nat (i - 1)) else None)"
proof (cases "1 \<le> i \<and> i \<le> int (length (ad_audit db))")
  case True
  let ?ks = "map int [1..<Suc (length (ad_audit db))]"
  have "map fst (numbered_audit db) = ?ks" by (simp add: numbered_audit_def del: upt_Suc)
  then have "distinct (map fst (numbered_audit db))" by (simp add: distinct_map del: upt_Suc)
  moreover have "(i, ad_audit db ! nat (i - 1)) \<in> set (numbered_audit db)"
    using True by (auto simp: numbered_audit_def set_zip simp del: upt_Suc intro!: exI [of _ "nat (i - 1)"])
  ultimately show ?thesis using True by (simp add: audit_find_def)
next
  case False
  moreover have "map fst (numbered_audit db) = map int [1..<Suc (length (ad_audit db))]"
    by (simp add: numbered_audit_def del: upt_Suc)
  ultimately have "i \<notin> set (map fst (numbered_audit db))" by (auto simp del: upt_Suc)
  then show ?thesis using False by (auto simp: audit_find_def map_of_eq_None_iff)
qed

text \<open>
  The audit history shows every row once: its pages one after the other are all matching rows, newest
  first and later insertions before earlier ones of the same instant, and each row is found under its id.
\<close>

theorem audit_history_complete:
  "concat (map (\<lambda>i. fst (audit_list q (int (Suc i)) db))
       [0..<nat (pg_total_pages (snd (snd (audit_list q 1 db))))]) = audit_ordered (trim_space q) db
   \<and> mset (audit_ordered (trim_space q) db) = mset (filter (audit_matches (trim_space q)) (numbered_audit db))
   \<and> sorted (map (\<lambda>r. - al_created_at (snd r)) (audit_ordered (trim_space q) db))
   \<and> (audit_find i db = Some r \<longleftrightarrow> (\<exists>k < length (ad_audit db). i = int k + 1 \<and> ad_audit db ! k = r))"
proof -
  have rows: "fst (audit_list q n db) = audit_store.page_rows 50 n (trim_space q) db" for n
    by (simp add: audit_list_def audit_store.page_rows_def audit_page_size_def Let_def)
  have tp: "nat (pg_total_pages (snd (snd (audit_list q 1 db)))) = audit_store.pages 50 (trim_space q) db"
    by (simp add: audit_list_def audit_store.pages_def audit_page_size_def Let_def)
  have "audit_find i db = Some r \<longleftrightarrow> (\<exists>k < length (ad_audit db). i = int k + 1 \<and> ad_audit db ! k = r)"
    unfolding audit_find_iff by (auto intro!: exI [of _ "nat (i - 1)"])
  moreover have "concat (map (\<lambda>i. audit_store.page_rows 50 (int (Suc i)) (trim_space q) db) [0..<audit_store.pages 50 (trim_space q) db])
      = audit_ordered (trim_space q) db"
    by (rule audit_store.pages_cover) simp
  ultimately show ?thesis unfolding tp by (simp add: rows audit_ordered_def del: of_nat_Suc)
qed

end
