(* ===== verification/User_Admin.thy ===== *)
theory User_Admin
  imports Admin_Lists
begin

text \<open>
  The administration pages behind their middleware: the permission gate of
  \<open>src/internal/platform/adminshell/shell.go\<close>, the user handlers of \<open>src/internal/features/users/handler.go\<close> and the chain
  \<open>LoadPrincipal\<close>, \<open>RequireAuth\<close>, \<open>RequirePermission\<close> that \<open>src/internal/server/router.go\<close> and
  \<open>src/internal/features/users/routes.go\<close> put in front of them. The permission registry that
  \<open>src/internal/app/features.go\<close> assembles is given in full.
\<close>

section \<open>The shipped registry\<close>

definition mk_definition :: "string \<Rightarrow> string \<Rightarrow> string \<Rightarrow> string \<Rightarrow> permission_definition" where
  "mk_definition k n g d = \<lparr>pd_key = k, pd_name = n, pd_group = g, pd_description = d\<rparr>"

definition dashboard_permissions :: "permission_definition list" where
  "dashboard_permissions = [mk_definition ''dashboard.view'' ''View Dashboard'' ''Dashboard'' ''Allow viewing the admin dashboard'']"

definition users_permissions :: "permission_definition list" where
  "users_permissions =
     [mk_definition permission_manage ''Manage Access'' ''Access'' ''Manage THOR user activation and per-user permissions.'']"

definition auditlogs_permissions :: "permission_definition list" where
  "auditlogs_permissions = [mk_definition ''audit.view'' ''View Audit Logs'' ''Audit'' ''View application audit history.'']"

definition loaninquiry_permissions :: "permission_definition list" where
  "loaninquiry_permissions = [mk_definition ''loan.inquiry'' ''Loan Inquiry'' ''Loans'' ''Allow contractual loan inquiry'']"

definition slik_permissions :: "permission_definition list" where
  "slik_permissions =
     [mk_definition ''reporting.generate'' ''Generate SLIK Workbooks'' ''Reporting'' ''Allow SLIK XLSX generation'',
      mk_definition ''reporting.view_all'' ''View All Reporting Jobs'' ''Reporting'' ''View SLIK history and output owned by other users.'']"

definition lps_permissions :: "permission_definition list" where
  "lps_permissions = [mk_definition ''lps.generate'' ''Generate LPS Reports'' ''Reporting'' ''Allow LPS archive generation'']"

definition snapshots_permissions :: "permission_definition list" where
  "snapshots_permissions =
     [mk_definition ''snapshot.view'' ''View Snapshot'' ''Snapshot'' ''Allow viewing current snapshot status'',
      mk_definition ''snapshot.refresh'' ''Refresh Snapshot'' ''Snapshot'' ''Allow manual current snapshot refresh'']"

definition permission_definitions :: "permission_definition list" where
  "permission_definitions =
     dashboard_permissions @ users_permissions @ auditlogs_permissions @ loaninquiry_permissions @ slik_permissions
     @ lps_permissions @ snapshots_permissions"

section \<open>Middleware and handlers\<close>

text \<open>Responses of the administration pages; \<open>AdminPage\<close> names the rendered page and its status.\<close>

datatype admin_response =
    AdminPage int string | AdminRedirect string | AdminPlain int | AdminNotFound | AdminInternal string
  | FromBrowser response

fun require_any_permission :: "string list \<Rightarrow> browser_principal option \<Rightarrow> admin_response option" where
  "require_any_permission permissions None = Some (AdminInternal ''permission middleware'')"
| "require_any_permission permissions (Some p) =
     (if list_ex (principal_can p) permissions then None else Some (AdminPage 403 ''forbidden''))"

definition requester_identity :: "browser_principal \<Rightarrow> identity" where
  "requester_identity p = \<lparr>idt_user_id = pr_user_id p, idt_username = pr_username p\<rparr>"

definition mutation_error :: "access_error \<Rightarrow> admin_response" where
  "mutation_error e =
     (if e = UserNotFound then AdminNotFound
      else if e = LastAccessManager then AdminPage 409 ''conflict''
      else if e = UnknownPermission \<or> e = BaselinePermission then AdminPlain 422
      else AdminInternal ''update access user'')"

definition access_page :: "int \<Rightarrow> string \<Rightarrow> string" where
  "access_page user_id notice = ''/access/'' @ itoa user_id @ ''?notice='' @ notice"

definition users_replace_permissions ::
  "(audit_metadata \<Rightarrow> string) \<Rightarrow> permission_definition list \<Rightarrow> browser_principal option \<Rightarrow> string \<Rightarrow> form_parse \<Rightarrow> string list \<Rightarrow> int
     \<Rightarrow> access_db \<Rightarrow> admin_response \<times> access_db" where
  "users_replace_permissions marshal definitions p raw_id parse submitted now db =
     (case route_id raw_id of None \<Rightarrow> (AdminNotFound, db)
      | Some user_id \<Rightarrow>
          if parse \<noteq> FormOk then (AdminPlain 400, db)
          else (case p of None \<Rightarrow> (AdminInternal ''replace access permissions'', db)
                | Some pr \<Rightarrow>
                    (case replace_permissions marshal definitions (requester_identity pr) user_id submitted now db of
                       Inl e \<Rightarrow> (mutation_error e, db)
                     | Inr db' \<Rightarrow> (AdminRedirect (access_page user_id ''permissions-updated''), db'))))"

definition users_set_active ::
  "(audit_metadata \<Rightarrow> string) \<Rightarrow> browser_principal option \<Rightarrow> string \<Rightarrow> bool \<Rightarrow> int \<Rightarrow> access_db \<Rightarrow> admin_response \<times> access_db" where
  "users_set_active marshal p raw_id active now db =
     (case route_id raw_id of None \<Rightarrow> (AdminNotFound, db)
      | Some user_id \<Rightarrow>
          (case p of None \<Rightarrow> (AdminInternal ''change access user status'', db)
           | Some pr \<Rightarrow>
               (case set_active marshal (requester_identity pr) user_id active now db of
                  Inl e \<Rightarrow> (mutation_error e, db)
                | Inr db' \<Rightarrow> (AdminRedirect (access_page user_id ''user-status-updated''), db'))))"

definition users_show :: "permission_definition list \<Rightarrow> string \<Rightarrow> access_db \<Rightarrow> admin_response" where
  "users_show definitions raw_id db =
     (case route_id raw_id of None \<Rightarrow> AdminNotFound
      | Some user_id \<Rightarrow>
          (case users_find definitions user_id db of
             Inl e \<Rightarrow> if e = UserNotFound then AdminNotFound else AdminInternal ''show access user''
           | Inr _ \<Rightarrow> AdminPage 200 ''features/users/show''))"

definition page_url :: "string \<Rightarrow> string \<Rightarrow> string \<Rightarrow> int \<Rightarrow> string" where
  "page_url base name query page =
     (if page = 0 then ''''
      else if query = '''' then base @ ''?page='' @ query_escape (itoa page)
      else if name < ''page'' then base @ ''?'' @ name @ ''='' @ query_escape query @ ''&page='' @ query_escape (itoa page)
      else base @ ''?page='' @ query_escape (itoa page) @ ''&'' @ name @ ''='' @ query_escape query)"

text \<open>
  A POST on \<open>/access/{id}/\<close>\<dots>: the cookie gives the principal, \<open>RequireAuth\<close> and \<open>RequirePermission\<close> stop the
  request or pass it to the handler.
\<close>

datatype access_action = ReplacePermissions form_parse "string list" | Activate | Deactivate

definition access_request ::
  "cookie_manager \<Rightarrow> (audit_metadata \<Rightarrow> string) \<Rightarrow> permission_definition list \<Rightarrow> (string \<Rightarrow> string) \<Rightarrow> db_call list \<Rightarrow> int
     \<Rightarrow> (string \<times> string) list \<Rightarrow> string \<Rightarrow> bool \<Rightarrow> string \<Rightarrow> access_action \<Rightarrow> access_db
     \<Rightarrow> admin_response \<times> cookie list \<times> access_db" where
  "access_request c marshal definitions hash fails now cookies uri hx raw_id action db =
     (case load_principal c hash fails now cookies db of
        (Inl r, cks, db1) \<Rightarrow> (FromBrowser r, cks, db1)
      | (Inr p, cks, db1) \<Rightarrow>
          (case require_auth p uri hx of Some r \<Rightarrow> (FromBrowser r, cks, db1)
           | None \<Rightarrow>
               (case require_any_permission [permission_manage] p of Some r \<Rightarrow> (r, cks, db1)
                | None \<Rightarrow>
                    let (r, db2) =
                      (case action of
                         ReplacePermissions parse submitted \<Rightarrow> users_replace_permissions marshal definitions p raw_id parse submitted now db1
                       | Activate \<Rightarrow> users_set_active marshal p raw_id True now db1
                       | Deactivate \<Rightarrow> users_set_active marshal p raw_id False now db1)
                    in (r, cks, db2))))"

section \<open>Only access managers change access\<close>

lemma append_event_row:
  assumes "append_event marshal ev db = Inr db'"
  shows "\<exists>m. db' = db\<lparr>ad_audit := ad_audit db @ [audit_row_of ev m]\<rparr>"
  using assms
  by (auto simp: append_event_def lift_audit_def audit_append_def res_simps split: sum.split_asm if_split_asm)

lemma audit_row_requester:
  "ev_attribution ev = requester_attribution i \<Longrightarrow> al_actor_user_id (audit_row_of ev m) = Some (idt_user_id i)"
  by (simp add: audit_row_of_def requester_attribution_def)

lemma replace_permissions_actor:
  assumes "replace_permissions marshal definitions i user_id submitted now db = Inr db'"
  shows "ad_audit db' \<noteq> [] \<and> al_actor_user_id (last (ad_audit db')) = Some (idt_user_id i)"
proof -
  from assms obtain ev db2 where "append_event marshal ev db2 = Inr db'" and ev: "ev_attribution ev = requester_attribution i"
    by (auto simp: replace_permissions_def store_replace_permissions_def rbind_eq_Inr Let_def
        split: option.split_asm if_split_asm prod.split_asm)
  from append_event_row [OF this(1)] obtain m where "db' = db2\<lparr>ad_audit := ad_audit db2 @ [audit_row_of ev m]\<rparr>" by blast
  then show ?thesis using audit_row_requester [OF ev] by simp
qed

lemma set_active_actor:
  assumes "set_active marshal i user_id active now db = Inr db'"
  shows "ad_audit db' \<noteq> [] \<and> al_actor_user_id (last (ad_audit db')) = Some (idt_user_id i)"
proof -
  from assms obtain ev db2 where "append_event marshal ev db2 = Inr db'" and ev: "ev_attribution ev = requester_attribution i"
    by (auto simp: set_active_def store_set_active_def rbind_eq_Inr Let_def
        split: option.split_asm if_split_asm prod.split_asm)
  from append_event_row [OF this(1)] obtain m where "db' = db2\<lparr>ad_audit := ad_audit db2 @ [audit_row_of ev m]\<rparr>" by blast
  then show ?thesis using audit_row_requester [OF ev] by simp
qed

text \<open>What a handler did: nothing, or one committed transaction in the name of its principal.\<close>

definition handler_step :: "(audit_metadata \<Rightarrow> string) \<Rightarrow> permission_definition list \<Rightarrow> browser_principal \<Rightarrow> access_db \<Rightarrow> access_db \<Rightarrow> bool" where
  "handler_step marshal definitions pr db db' \<longleftrightarrow>
     db' = db \<or> access_step marshal definitions db db' \<and> ad_audit db' \<noteq> []
       \<and> al_actor_user_id (last (ad_audit db')) = Some (pr_user_id pr)"

lemma handlers_step:
  "handler_step marshal definitions pr db (snd (users_replace_permissions marshal definitions (Some pr) raw_id parse submitted now db))"
  "handler_step marshal definitions pr db (snd (users_set_active marshal (Some pr) raw_id active now db))"
proof -
  show "handler_step marshal definitions pr db (snd (users_replace_permissions marshal definitions (Some pr) raw_id parse submitted now db))"
    by (auto simp: handler_step_def users_replace_permissions_def requester_identity_def
        split: option.split sum.split dest: replace_permissions_actor intro: access_step.replace)
  show "handler_step marshal definitions pr db (snd (users_set_active marshal (Some pr) raw_id active now db))"
    by (auto simp: handler_step_def users_set_active_def requester_identity_def
        split: option.split sum.split dest: set_active_actor intro: access_step.status)
qed

lemma resolve_session_steps:
  "resolve_session fails h now db = (r, db') \<Longrightarrow> (access_step marshal definitions)\<^sup>*\<^sup>* db db'
     \<and> ad_users db' = ad_users db \<and> ad_grants db' = ad_grants db \<and> ad_permissions db' = ad_permissions db"
  by (auto simp: resolve_session_def revoke_unauthenticated_def Let_def session_touch_def session_revoke_def
      split: if_split_asm sum.split_asm prod.split_asm
      intro!: r_into_rtranclp access_step.touch [unfolded session_touch_def] access_step.logout [unfolded session_revoke_def])


lemma load_principal_steps:
  assumes "load_principal c hash fails now cookies db = (r, cks, db1)"
  shows "(access_step marshal definitions)\<^sup>*\<^sup>* db db1 \<and> ad_users db1 = ad_users db \<and> ad_grants db1 = ad_grants db
         \<and> ad_permissions db1 = ad_permissions db"
proof -
  obtain raw where "db1 = db \<or> (\<exists>r. resolve_session fails (hash raw) now db = (r, db1))"
    using assms by (auto simp: load_principal_def split: option.split_asm if_split_asm prod.split_asm sum.split_asm)
  then show ?thesis using resolve_session_steps by fastforce
qed

lemma load_principal_Some:
  assumes "load_principal c hash fails now cookies db = (Inr (Some p), cks, db1)"
  obtains raw where "cookie_read c cookies = Some raw" and "valid_token raw" and "resolve_session fails (hash raw) now db = (Inr p, db1)"
  using assms by (auto simp: load_principal_def split: option.split_asm if_split_asm prod.split_asm sum.split_asm)

lemma access_request_cases:
  assumes "access_request c marshal definitions hash fails now cookies uri hx raw_id action db = (r, cks, db')"
  shows "(\<exists>x. load_principal c hash fails now cookies db = (x, cks, db'))
       \<or> (\<exists>pr db1. load_principal c hash fails now cookies db = (Inr (Some pr), cks, db1)
            \<and> principal_can pr ''access.manage'' \<and> handler_step marshal definitions pr db1 db')"
proof -
  obtain x k db1 where l: "load_principal c hash fails now cookies db = (x, k, db1)" by (metis prod_cases3)
  show ?thesis
  proof (cases "\<exists>pr. x = Inr (Some pr) \<and> principal_can pr permission_manage")
    case True
    then obtain pr where x: "x = Inr (Some pr)" and can: "principal_can pr permission_manage" by blast
    have "handler_step marshal definitions pr db1 db' \<and> k = cks"
      using assms handlers_step [of marshal definitions pr db1]
      by (auto simp: access_request_def l x can require_auth_def split: access_action.split_asm prod.split_asm) (metis snd_conv)+
    then show ?thesis using l x can by (auto simp: permission_manage_def)
  next
    case False
    then show ?thesis using assms l
      by (auto simp: access_request_def require_auth_def split: sum.split_asm option.split_asm if_split_asm)
  qed
qed

text \<open>
  C30. The access pages are guarded: a request that changes a user or a grant carries a cookie with the
  token of an unexpired session of an active user who holds \<open>access.manage\<close>, and the change is logged
  as that user's; any request is a sequence of transactions that keep a manager.
\<close>

theorem access_changes_guarded:
  assumes "access_request c marshal definitions hash fails now cookies uri hx raw_id action db = (r, cks, db')"
    and "ad_users db' \<noteq> ad_users db \<or> ad_grants db' \<noteq> ad_grants db"
  shows "(\<exists>raw s u. cookie_read c cookies = Some raw \<and> s \<in> set (ad_sessions db) \<and> se_token_hash s = hash raw
             \<and> now < se_expires_at s \<and> u \<in> set (ad_users db) \<and> us_id u = se_user_id s \<and> us_active u
             \<and> user_has_permission (us_id u) ''access.manage'' db
             \<and> ad_audit db' \<noteq> [] \<and> al_actor_user_id (last (ad_audit db')) = Some (us_id u))
       \<and> (access_step marshal definitions)\<^sup>*\<^sup>* db db'"
proof -
  from access_request_cases [OF assms(1)] obtain pr db1 where l: "load_principal c hash fails now cookies db = (Inr (Some pr), cks, db1)"
    and can: "principal_can pr ''access.manage''" and h: "handler_step marshal definitions pr db1 db'"
    using load_principal_steps assms(2) by blast
  note steps = load_principal_steps [OF l, of marshal definitions]
  have act: "access_step marshal definitions db1 db'" "ad_audit db' \<noteq> []"
    "al_actor_user_id (last (ad_audit db')) = Some (pr_user_id pr)"
    using h steps assms(2) by (auto simp: handler_step_def)
  from l obtain raw where raw: "cookie_read c cookies = Some raw" and rs: "resolve_session fails (hash raw) now db = (Inr pr, db1)"
    by (rule load_principal_Some)
  from rs obtain s u where s: "find_valid_session (hash raw) now db = Inr s" and u: "find_user (se_user_id s) db = Inr u" "us_active u"
    and p: "pr = \<lparr>pr_user_id = us_id u, pr_username = us_username u, pr_name = us_name u,
              pr_permissions = new_permission_set (list_permission_keys (us_id u) db @ [permission_loan_inquiry]),
              pr_session_id = se_id s, pr_remember_me = se_remember_me s\<rparr>"
    by (rule resolve_session_Inr)
  have "user_has_permission (us_id u) ''access.manage'' db"
    using can by (simp add: p principal_can_def permission_set_has_def new_permission_set_def list_permission_keys_iff
        permission_loan_inquiry_def)
  moreover have "(access_step marshal definitions)\<^sup>*\<^sup>* db db'" using steps act(1) by (meson rtranclp.rtrancl_into_rtrancl)
  moreover have "pr_user_id pr = us_id u" by (simp add: p)
  ultimately show ?thesis
    using raw find_valid_session_Inr [OF s] find_user_Inr [OF u(1)] u(2) act(2,3)
    by (intro conjI exI [of _ raw] exI [of _ s] exI [of _ u]) simp_all
qed

definition sample_request :: "admin_response \<times> cookie list \<times> access_db" where
  "sample_request =
     access_request sample_cookies (\<lambda>_. ''{}'') sample_definitions (\<lambda>_. ''h'') [] 20
       [(''trs'', generate_token (replicate 32 200))] ''/access/1/deactivate'' False ''1'' Deactivate sample_session_db"

lemma sample_request_changes: "ad_users (snd (snd sample_request)) \<noteq> ad_users sample_session_db"
  unfolding sample_request_def sample_session_db_def sample_db_def by code_simp

theorem access_changes_guarded_witness:
  "\<exists>u. u \<in> set (ad_users sample_session_db) \<and> us_active u \<and> user_has_permission (us_id u) ''access.manage'' sample_session_db
     \<and> al_actor_user_id (last (ad_audit (snd (snd sample_request)))) = Some (us_id u)"
proof -
  have "access_request sample_cookies (\<lambda>_. ''{}'') sample_definitions (\<lambda>_. ''h'') [] 20
       [(''trs'', generate_token (replicate 32 200))] ''/access/1/deactivate'' False ''1'' Deactivate sample_session_db
     = (fst sample_request, fst (snd sample_request), snd (snd sample_request))"
    by (simp add: sample_request_def)
  from access_changes_guarded [OF this] sample_request_changes show ?thesis by blast
qed

end
