(* ===== verification/Navigation.thy ===== *)
theory Navigation
  imports User_Admin
begin

text \<open>
  The navigation registry, \<open>src/internal/platform/navigation/navigation.go\<close>: validation of the groups at start-up and
  the view prepared for a principal, with the groups of \<open>src/internal/app/features.go\<close>. The copy
  made by \<open>cloneGroups\<close> has the same value. The specification of a view is the list of the leaves a
  principal may see.
\<close>

datatype nav_item =
  NavItem (ni_key: string) (ni_label: string) (ni_icon: string) (ni_path: string) (ni_permission: string)
    (ni_any: "string list") (ni_match: string) (ni_children: "nav_item list")

record nav_group =
  ng_key :: string
  ng_label :: string
  ng_items :: "nav_item list"

datatype item_view =
  ItemView (iv_key: string) (iv_label: string) (iv_icon: string) (iv_path: string) (iv_depth: int) (iv_active: bool)
    (iv_open: bool) (iv_children: "item_view list")

record group_view =
  gv_key :: string
  gv_label :: string
  gv_items :: "item_view list"

section \<open>Validation\<close>

text \<open>\<open>url.ParseRequestURI\<close> of a path with one leading slash fails on a control byte or a malformed escape.\<close>

definition nav_path_ok :: "string \<Rightarrow> bool" where
  "nav_path_ok p \<longleftrightarrow>
     take 1 p = ''/'' \<and> take 2 p \<noteq> ''//'' \<and> \<not> has_control p
     \<and> (let (a, q, _) = cut_byte (CHR ''?'') p in unescape False a \<noteq> None \<and> q = '''')"

definition leaf_ok :: "nav_item \<Rightarrow> bool" where
  "leaf_ok i \<longleftrightarrow>
     ni_path i \<noteq> '''' \<and> (ni_permission i \<noteq> '''' \<or> ni_any i \<noteq> []) \<and> (ni_match i = ''exact'' \<or> ni_match i = ''prefix'')
     \<and> nav_path_ok (ni_path i)"

definition item_ok :: "string list \<Rightarrow> string list \<Rightarrow> int \<Rightarrow> nav_item \<Rightarrow> bool" where
  "item_ok known seen depth i \<longleftrightarrow>
     \<not> 3 < depth \<and> trim_space (ni_key i) \<noteq> '''' \<and> ni_key i \<notin> set seen \<and> trim_space (ni_label i) \<noteq> ''''
     \<and> \<not> (ni_permission i \<noteq> '''' \<and> ni_any i \<noteq> []) \<and> (ni_permission i = '''' \<or> ni_permission i \<in> set known)
     \<and> list_all (\<lambda>p. p \<in> set known) (ni_any i)
     \<and> (if ni_children i \<noteq> [] then ni_path i = '''' \<and> ni_match i = '''' else leaf_ok i)"

text \<open>The keys seen so far are threaded through; \<open>None\<close> is a refused registry.\<close>

fun validate_item :: "string list \<Rightarrow> int \<Rightarrow> nav_item \<Rightarrow> string list \<Rightarrow> string list option"
  and validate_items :: "string list \<Rightarrow> int \<Rightarrow> nav_item list \<Rightarrow> string list \<Rightarrow> string list option" where
  "validate_item known depth (NavItem k l ic pa pe an ma children) seen =
     (if \<not> item_ok known seen depth (NavItem k l ic pa pe an ma children) then None
      else validate_items known (depth + 1) children (k # seen))"
| "validate_items known depth [] seen = Some seen"
| "validate_items known depth (i # is) seen =
     (case validate_item known depth i seen of None \<Rightarrow> None | Some seen' \<Rightarrow> validate_items known depth is seen')"

fun validate_groups :: "string list \<Rightarrow> string list \<Rightarrow> string list \<Rightarrow> nav_group list \<Rightarrow> bool" where
  "validate_groups known group_keys seen [] \<longleftrightarrow> True"
| "validate_groups known group_keys seen (g # gs) \<longleftrightarrow>
     trim_space (ng_key g) \<noteq> '''' \<and> trim_space (ng_label g) \<noteq> '''' \<and> ng_key g \<notin> set group_keys
     \<and> (case validate_items known 1 (ng_items g) seen of None \<Rightarrow> False
        | Some seen' \<Rightarrow> validate_groups known (ng_key g # group_keys) seen' gs)"

definition new_registry :: "nav_group list \<Rightarrow> permission_definition list \<Rightarrow> nav_group list option" where
  "new_registry groups permissions = (if validate_groups (map pd_key permissions) [] [] groups then Some groups else None)"

section \<open>Views\<close>

definition nav_matches :: "string \<Rightarrow> string \<Rightarrow> string \<Rightarrow> bool" where
  "nav_matches match_mode path current \<longleftrightarrow>
     (if match_mode = ''exact'' \<or> path = ''/'' then current = path
      else let base = trim_suffix ''/'' path in current = base \<or> prefix (base @ ''/'') current)"

definition item_visible :: "(string \<Rightarrow> bool) \<Rightarrow> string \<Rightarrow> string list \<Rightarrow> bool" where
  "item_visible can permission any_of \<longleftrightarrow>
     \<not> (permission \<noteq> '''' \<and> \<not> can permission) \<and> \<not> (any_of \<noteq> [] \<and> \<not> list_ex can any_of)"

fun prepare_item :: "string \<Rightarrow> (string \<Rightarrow> bool) \<Rightarrow> int \<Rightarrow> nav_item \<Rightarrow> item_view option"
  and prepare_items :: "string \<Rightarrow> (string \<Rightarrow> bool) \<Rightarrow> int \<Rightarrow> nav_item list \<Rightarrow> item_view list" where
  "prepare_item current can depth (NavItem k l ic pa pe an ma children) =
     (if \<not> item_visible can pe an then None
      else if children = [] then Some (ItemView k l ic pa depth (nav_matches ma pa current) False [])
      else
        let views = prepare_items current can (depth + 1) children; active = list_ex iv_active views
        in if views = [] then None else Some (ItemView k l ic pa depth active active views))"
| "prepare_items current can depth [] = []"
| "prepare_items current can depth (i # is) =
     (case prepare_item current can depth i of None \<Rightarrow> prepare_items current can depth is
      | Some v \<Rightarrow> v # prepare_items current can depth is)"

definition prepare :: "nav_group list \<Rightarrow> string \<Rightarrow> (string \<Rightarrow> bool) \<Rightarrow> group_view list" where
  "prepare groups current can =
     filter (\<lambda>g. gv_items g \<noteq> [])
       (map (\<lambda>g. \<lparr>gv_key = ng_key g, gv_label = ng_label g, gv_items = prepare_items current can 1 (ng_items g)\<rparr>) groups)"

text \<open>The leaves of a view, and the leaves of an item that its permissions and those above it allow.\<close>

fun view_leaves :: "item_view \<Rightarrow> (string \<times> bool) list"
  and views_leaves :: "item_view list \<Rightarrow> (string \<times> bool) list" where
  "view_leaves (ItemView k l ic pa d act opn children) = (if children = [] then [(pa, act)] else views_leaves children)"
| "views_leaves [] = []"
| "views_leaves (v # vs) = view_leaves v @ views_leaves vs"

fun allowed_leaves :: "string \<Rightarrow> (string \<Rightarrow> bool) \<Rightarrow> nav_item \<Rightarrow> (string \<times> bool) list"
  and allowed_leaves_all :: "string \<Rightarrow> (string \<Rightarrow> bool) \<Rightarrow> nav_item list \<Rightarrow> (string \<times> bool) list" where
  "allowed_leaves current can (NavItem k l ic pa pe an ma children) =
     (if \<not> item_visible can pe an then []
      else if children = [] then [(pa, nav_matches ma pa current)] else allowed_leaves_all current can children)"
| "allowed_leaves_all current can [] = []"
| "allowed_leaves_all current can (i # is) = allowed_leaves current can i @ allowed_leaves_all current can is"

lemma prepare_item_leaves:
  "(case prepare_item current can depth i of None \<Rightarrow> [] | Some v \<Rightarrow> view_leaves v) = allowed_leaves current can i"
  and prepare_items_leaves: "views_leaves (prepare_items current can depth is) = allowed_leaves_all current can is"
proof (induction current can depth i and current can depth "is" rule: prepare_item_prepare_items.induct)
  case (1 current can depth k l ic pa pe an ma children)
  then show ?case
    by (cases "prepare_items current can (depth + 1) children = []") (auto simp: Let_def)
qed (auto split: option.splits)

lemma views_leaves_Nil: "views_leaves vs = [] \<longleftrightarrow> vs = []" if "\<forall>v \<in> set vs. view_leaves v \<noteq> []"
  using that by (cases vs) auto

lemma prepared_nonempty:
  "prepare_item current can depth i = Some v \<Longrightarrow> view_leaves v \<noteq> [] \<and> (iv_active v \<longleftrightarrow> list_ex snd (view_leaves v))"
  "\<forall>v \<in> set (prepare_items current can depth is). view_leaves v \<noteq> [] \<and> (iv_active v \<longleftrightarrow> list_ex snd (view_leaves v))"
proof (induction current can depth i and current can depth "is" arbitrary: v rule: prepare_item_prepare_items.induct)
  case (1 current can depth k l ic pa pe an ma children)
  have "list_ex iv_active vs = list_ex snd (views_leaves vs)"
    if "\<forall>v \<in> set vs. view_leaves v \<noteq> [] \<and> (iv_active v \<longleftrightarrow> list_ex snd (view_leaves v))" for vs
    using that by (induction vs) auto
  then show ?case using 1 by (auto simp: Let_def views_leaves_Nil split: if_split_asm)
next
  case (3 current can depth i "is")
  then show ?case by (auto split: option.split)
qed simp

lemma prepared_leaves:
  "concat (map (\<lambda>g. views_leaves (gv_items g)) (prepare groups current can)) = concat (map (\<lambda>g. allowed_leaves_all current can (ng_items g)) groups)"
proof -
  have "concat (map (\<lambda>g. views_leaves (gv_items g)) (filter (\<lambda>g. gv_items g \<noteq> []) gvs)) = concat (map (\<lambda>g. views_leaves (gv_items g)) gvs)"
    for gvs :: "group_view list" by (induction gvs) auto
  then show ?thesis by (simp add: prepare_def comp_def prepare_items_leaves)
qed

section \<open>The shipped navigation\<close>

definition leaf_item :: "string \<Rightarrow> string \<Rightarrow> string \<Rightarrow> string \<Rightarrow> string \<Rightarrow> string \<Rightarrow> nav_item" where
  "leaf_item k l ic pa pe ma = NavItem k l ic pa pe [] ma []"

definition dashboard_navigation :: nav_item where
  "dashboard_navigation = leaf_item ''dashboard'' ''Dashboard'' ''layout-dashboard'' ''/'' ''dashboard.view'' ''exact''"

definition loaninquiry_navigation :: nav_item where
  "loaninquiry_navigation = leaf_item ''loan-inquiry'' ''Loan Inquiry'' ''landmark'' ''/loans/inquiry'' ''loan.inquiry'' ''prefix''"

definition slik_navigation :: nav_item where
  "slik_navigation = leaf_item ''slik'' ''SLIK Generator'' ''file-spreadsheet'' ''/slik'' ''reporting.generate'' ''prefix''"

definition lps_navigation :: nav_item where
  "lps_navigation = leaf_item ''lps'' ''LPS'' ''file-archive'' ''/lps'' ''lps.generate'' ''prefix''"

definition users_navigation :: nav_item where
  "users_navigation = leaf_item ''access-management'' ''Access Management'' ''shield'' ''/access'' permission_manage ''prefix''"

definition snapshots_navigation :: nav_item where
  "snapshots_navigation = leaf_item ''snapshot'' ''Current Snapshot'' ''database-zap'' ''/snapshot'' ''snapshot.view'' ''prefix''"

definition auditlogs_navigation :: nav_item where
  "auditlogs_navigation = leaf_item ''audit-logs'' ''Audit Logs'' ''scroll-text'' ''/audit-logs'' ''audit.view'' ''prefix''"

definition navigation_groups :: "nav_group list" where
  "navigation_groups =
     [\<lparr>ng_key = ''general'', ng_label = ''General'', ng_items = [dashboard_navigation, loaninquiry_navigation]\<rparr>,
      \<lparr>ng_key = ''reporting'', ng_label = ''Reporting'', ng_items = [slik_navigation, lps_navigation]\<rparr>,
      \<lparr>ng_key = ''management'', ng_label = ''Management'', ng_items = [users_navigation]\<rparr>,
      \<lparr>ng_key = ''system'', ng_label = ''System'', ng_items = [snapshots_navigation, auditlogs_navigation]\<rparr>]"

text \<open>
  The navigation shows exactly what the principal may open: the leaves of the prepared view are the leaves
  of the registry that their own permissions and those of the containers above allow, in order and marked
  active exactly when they match the page; no shown container is empty. The shipped
  registry of permissions and the shipped navigation pass their validation, so the application starts.
\<close>

theorem navigation_exact:
  "concat (map (\<lambda>g. views_leaves (gv_items g)) (prepare groups current can)) = concat (map (\<lambda>g. allowed_leaves_all current can (ng_items g)) groups)
   \<and> list_all (\<lambda>g. gv_items g \<noteq> [] \<and> list_all (\<lambda>v. view_leaves v \<noteq> [] \<and> iv_active v = list_ex snd (view_leaves v)) (gv_items g))
       (prepare groups current can)
   \<and> validate_registry [] permission_definitions = Inr ()
   \<and> new_registry navigation_groups permission_definitions = Some navigation_groups"
proof -
  note prepared_leaves [of groups current can]
  moreover have "list_all (\<lambda>g. gv_items g \<noteq> [] \<and> list_all (\<lambda>v. view_leaves v \<noteq> [] \<and> iv_active v = list_ex snd (view_leaves v)) (gv_items g))
       (prepare groups current can)"
    using prepared_nonempty(2) by (auto simp: prepare_def list_all_iff)
  moreover have "validate_registry [] permission_definitions = Inr ()" by code_simp
  moreover have "new_registry navigation_groups permission_definitions = Some navigation_groups" by code_simp
  ultimately show ?thesis by blast
qed

end
