(* ===== verification/Csv.thy ===== *)
theory Csv
  imports Go_Text
begin

text \<open>
  The reader of \<open>encoding/csv\<close> as \<open>src/internal/snapshot/source.go\<close> and \<open>src/internal/lps/generator.go\<close> configure it: any
  number of fields, a one-byte separator, with or without lazy quotes and trimming of leading space. A
  line keeps its newline, as in the library. Also \<open>strings.Fields\<close>.
\<close>

section \<open>Lines\<close>

abbreviation nl :: char where "nl \<equiv> CHR 0x0A"
abbreviation cr :: char where "cr \<equiv> CHR 0x0D"
abbreviation quote :: char where "quote \<equiv> CHR 0x22"

fun split_lines :: "string \<Rightarrow> string list" where
  "split_lines [] = []"
| "split_lines (c # cs) =
     (if c = nl then [nl] # split_lines cs
      else case split_lines cs of [] \<Rightarrow> [[c]] | l # ls \<Rightarrow> (c # l) # ls)"

text \<open>\<open>readLine\<close>: a carriage return before the newline, or at the end of the text, is dropped.\<close>

definition read_line :: "string \<Rightarrow> string" where
  "read_line l =
     (if l \<noteq> [] \<and> last l = cr then butlast l
      else if 2 \<le> length l \<and> last l = nl \<and> last (butlast l) = cr then butlast (butlast l) @ [nl] else l)"

definition csv_lines :: "string \<Rightarrow> string list" where
  "csv_lines body = map read_line (split_lines body)"

definition drop_nl :: "string \<Rightarrow> string" where
  "drop_nl l = (if l \<noteq> [] \<and> last l = nl then butlast l else l)"

section \<open>Records\<close>

record csv_config =
  cf_comma :: char
  cf_lazy :: bool
  cf_trim :: bool

datatype csv_result = CsvEOF | CsvError | CsvRecord "string list" "string list"

lemma cut_byte_length: "(b, a, True) = cut_byte c s \<Longrightarrow> length a < length s"
  by (induction s arbitrary: b) (auto split: if_split_asm prod.split_asm)

lemma strip_any_length: "length (strip_any ps s) \<le> length s"
  using strip_any_suffix [of ps s] by (rule suffix_length_le)

definition trimmed_line :: "csv_config \<Rightarrow> string \<Rightarrow> string" where
  "trimmed_line c line = (if cf_trim c then strip_any space_runes line else line)"

lemma trimmed_line_length: "length (trimmed_line c line) \<le> length line"
  by (simp add: trimmed_line_def strip_any_length)

lemma trimmed_line_less:
  "(f, after, True) = cut_byte x (trimmed_line c line) \<Longrightarrow> length after < length line"
  "trimmed_line c line = y # ys \<Longrightarrow> length ys < length line"
  using cut_byte_length [of f after x "trimmed_line c line"] trimmed_line_length [of c line] by auto

text \<open>
  \<open>readRecord\<close> from a line that is not empty: the fields so far are \<open>acc\<close>, the lines not yet read \<open>rest\<close>, and
  inside quotes \<open>buf\<close> is the field so far.
\<close>

function csv_fields :: "csv_config \<Rightarrow> string \<Rightarrow> string list \<Rightarrow> string list \<Rightarrow> csv_result"
  and csv_quoted :: "csv_config \<Rightarrow> string \<Rightarrow> string \<Rightarrow> string list \<Rightarrow> string list \<Rightarrow> csv_result" where
  "csv_fields c line rest acc =
     (let l = trimmed_line c line in
      if l = [] \<or> hd l \<noteq> quote then
        (case cut_byte (cf_comma c) l of (f, after, found) \<Rightarrow>
           if \<not> cf_lazy c \<and> quote \<in> set (if found then f else drop_nl l) then CsvError
           else if found then csv_fields c after rest (acc @ [f])
           else CsvRecord (acc @ [drop_nl l]) rest)
      else csv_quoted c [] (tl l) rest acc)"
| "csv_quoted c buf line rest acc =
     (case cut_byte quote line of (f, after, found) \<Rightarrow>
        if found then
          (if after \<noteq> [] \<and> hd after = quote then csv_quoted c (buf @ f @ [quote]) (tl after) rest acc
           else if after \<noteq> [] \<and> hd after = cf_comma c then csv_fields c (tl after) rest (acc @ [buf @ f])
           else if after = [] \<or> after = [nl] then CsvRecord (acc @ [buf @ f]) rest
           else if cf_lazy c then csv_quoted c (buf @ f @ [quote]) after rest acc
           else CsvError)
        else if line \<noteq> [] then
          (case rest of [] \<Rightarrow> csv_quoted c (buf @ line) [] [] acc | r # rs \<Rightarrow> csv_quoted c (buf @ line) r rs acc)
        else if \<not> cf_lazy c then CsvError else CsvRecord (acc @ [buf]) rest)"
  by pat_completeness auto
termination
  by (relation "measure (case_sum (\<lambda>(c, line, rest, acc). length line + sum_list (map length rest))
      (\<lambda>(c, buf, line, rest, acc). length line + sum_list (map length rest)))")
    (auto dest: cut_byte_length trimmed_line_less simp: neq_Nil_conv)

declare csv_fields.simps [simp del] csv_quoted.simps [simp del]

fun csv_read :: "csv_config \<Rightarrow> string list \<Rightarrow> csv_result" where
  "csv_read c [] = CsvEOF"
| "csv_read c (l # ls) = (if l = [] \<or> l = [nl] then csv_read c ls else csv_fields c l ls [])"


text \<open>The lines left after a record are a proper end of the lines before it.\<close>

lemma csv_fields_rest:
  "csv_fields c line rest acc = CsvRecord r rest' \<Longrightarrow> length rest' \<le> length rest"
  "csv_quoted c buf line rest acc = CsvRecord r rest' \<Longrightarrow> length rest' \<le> length rest"
proof (induction c line rest acc and c buf line rest acc rule: csv_fields_csv_quoted.induct)
  case (1 c line rest acc)
  then show ?case
    by (simp add: csv_fields.simps [of c line] Let_def split: if_split_asm prod.split_asm)
next
  case (2 c buf line rest acc)
  show ?case
    using "2.prems" "2.IH"
    by (simp add: csv_quoted.simps [of c buf line] split: if_split_asm prod.split_asm list.split_asm)
      fastforce+
qed

lemma csv_read_rest: "csv_read c ls = CsvRecord r rest \<Longrightarrow> length rest < length ls"
  by (induction ls) (auto split: if_split_asm dest: csv_fields_rest(1))

text \<open>All records of a text, or \<open>None\<close> when one of them is malformed.\<close>

function csv_records :: "csv_config \<Rightarrow> string list \<Rightarrow> string list list option" where
  "csv_records c ls =
     (case csv_read c ls of CsvEOF \<Rightarrow> Some [] | CsvError \<Rightarrow> None
      | CsvRecord r rest \<Rightarrow> map_option ((#) r) (csv_records c rest))"
  by pat_completeness auto
termination
  by (relation "measure (\<lambda>(c, ls). length ls)") (auto dest: csv_read_rest)

declare csv_records.simps [simp del]

section \<open>Plain texts\<close>

definition visible :: "char \<Rightarrow> bool" where
  "visible c \<longleftrightarrow> 32 < byte c \<and> byte c < 128"

definition plain_field :: "csv_config \<Rightarrow> string \<Rightarrow> bool" where
  "plain_field c f \<longleftrightarrow>
     cf_comma c \<notin> set f \<and> quote \<notin> set f \<and> nl \<notin> set f \<and> cr \<notin> set f \<and> (cf_trim c \<longrightarrow> f = [] \<or> visible (hd f))"

definition plain_row :: "csv_config \<Rightarrow> string list \<Rightarrow> bool" where
  "plain_row c r \<longleftrightarrow> r \<noteq> [] \<and> r \<noteq> [''''] \<and> list_all (plain_field c) r"

definition plain_text :: "csv_config \<Rightarrow> string list list \<Rightarrow> string" where
  "plain_text c rows = concat (map (\<lambda>r. join [cf_comma c] r @ [nl]) rows)"

definition config_ok :: "csv_config \<Rightarrow> bool" where
  "config_ok c \<longleftrightarrow> visible (cf_comma c) \<and> cf_comma c \<noteq> quote"

lemma strip_visible: "s \<noteq> [] \<Longrightarrow> visible (hd s) \<Longrightarrow> strip_any space_runes s = s"
proof (rule strip_any_fixed)
  assume s: "s \<noteq> []" "visible (hd s)"
  have sp: "list_all (\<lambda>p. \<not> visible (hd p)) space_runes" by code_simp
  have "\<not> (p \<noteq> [] \<and> prefix p s)" if p: "p \<in> set space_runes" for p
  proof
    assume "p \<noteq> [] \<and> prefix p s"
    then have "hd p = hd s" by (auto simp: prefix_def)
    then show False using sp p s by (auto simp: list_all_iff)
  qed
  then show "find (\<lambda>p. p \<noteq> [] \<and> prefix p s) space_runes = None" by (simp add: find_None_iff)
qed

lemma cut_byte_present: "c \<notin> set i \<Longrightarrow> cut_byte c (i @ c # f) = (i, f, True)"
  by (induction i) auto

lemma plain_first:
  assumes "config_ok c" and "plain_field c f"
  shows "trimmed_line c (f @ cf_comma c # s) = f @ cf_comma c # s" and "hd (f @ cf_comma c # s) \<noteq> quote"
proof -
  have "hd (f @ cf_comma c # s) = (if f = [] then cf_comma c else hd f)" by simp
  moreover have "f \<noteq> [] \<Longrightarrow> hd f \<noteq> quote" using assms(2) by (metis hd_in_set plain_field_def)
  ultimately show "trimmed_line c (f @ cf_comma c # s) = f @ cf_comma c # s" "hd (f @ cf_comma c # s) \<noteq> quote"
    using assms strip_visible [of "f @ cf_comma c # s"] by (auto simp: config_ok_def plain_field_def trimmed_line_def)
qed

lemma plain_last:
  assumes "config_ok c" and "plain_field c f"
  shows "\<exists>l. trimmed_line c (f @ [nl]) = l \<and> (l = [] \<or> hd l \<noteq> quote) \<and> drop_nl l = f \<and> cf_comma c \<notin> set l"
proof (cases "f = [] \<and> cf_trim c")
  case True
  have "strip_any space_runes [nl] = []" by code_simp
  then show ?thesis using True by (simp add: trimmed_line_def drop_nl_def)
next
  case False
  have "f \<noteq> [] \<Longrightarrow> hd f \<noteq> quote" using assms(2) by (metis hd_in_set plain_field_def)
  moreover have "cf_comma c \<noteq> nl" using assms(1) by (auto simp: config_ok_def visible_def byte_def)
  moreover have "trimmed_line c (f @ [nl]) = f @ [nl]"
    using False assms(2) strip_visible [of "f @ [nl]"] by (auto simp: trimmed_line_def plain_field_def)
  ultimately show ?thesis using assms(2) by (cases f) (auto simp: plain_field_def drop_nl_def)
qed

lemma csv_fields_plain:
  "config_ok c \<Longrightarrow> r \<noteq> [] \<Longrightarrow> list_all (plain_field c) r \<Longrightarrow>
     csv_fields c (join [cf_comma c] r @ [nl]) rest acc = CsvRecord (acc @ r) rest"
proof (induction r arbitrary: acc)
  case (Cons f r)
  have f: "plain_field c f" using Cons.prems by simp
  show ?case
  proof (cases r)
    case Nil
    obtain l where "trimmed_line c (f @ [nl]) = l" "l = [] \<or> hd l \<noteq> quote" "drop_nl l = f" "cf_comma c \<notin> set l"
      using plain_last [OF Cons.prems(1) f] by blast
    then show ?thesis using f
      by (simp add: Nil csv_fields.simps [of c "f @ [nl]"] Let_def cut_byte_absent plain_field_def)
  next
    case (Cons g gs)
    let ?s = "join [cf_comma c] r @ [nl]"
    have "join [cf_comma c] (f # r) @ [nl] = f @ cf_comma c # ?s" by (simp add: Cons)
    moreover have "csv_fields c (f @ cf_comma c # ?s) rest acc = csv_fields c ?s rest (acc @ [f])"
      using f plain_first [OF Cons.prems(1) f, of ?s]
      by (simp add: csv_fields.simps [of c "f @ cf_comma c # ?s"] Let_def cut_byte_present plain_field_def del: hd_append)
    ultimately show ?thesis using Cons.IH [of "acc @ [f]"] Cons.prems Cons by simp
  qed
qed simp

lemma split_lines_line: "nl \<notin> set l \<Longrightarrow> split_lines (l @ nl # s) = (l @ [nl]) # split_lines s"
  by (induction l) auto


lemma csv_lines_cons:
  assumes "nl \<notin> set l" and "cr \<notin> set l"
  shows "csv_lines (l @ nl # s) = (l @ [nl]) # csv_lines s"
proof -
  have "l \<noteq> [] \<Longrightarrow> last l \<noteq> cr" using assms(2) by (metis last_in_set)
  then have "read_line (l @ [nl]) = l @ [nl]" by (cases l rule: rev_cases) (auto simp: read_line_def butlast_append)
  then show ?thesis using assms(1) by (simp add: csv_lines_def split_lines_line)
qed

lemma join_set: "set (join sep r) \<subseteq> set sep \<union> \<Union> (set ` set r)"
  by (induction sep r rule: join.induct) auto

lemma plain_row_line:
  assumes "config_ok c" and "plain_row c r"
  shows "nl \<notin> set (join [cf_comma c] r)" and "cr \<notin> set (join [cf_comma c] r)" and "join [cf_comma c] r \<noteq> []"
proof -
  have "cf_comma c \<noteq> nl" "cf_comma c \<noteq> cr" using assms(1) by (auto simp: config_ok_def visible_def byte_def)
  moreover have "\<And>f. f \<in> set r \<Longrightarrow> nl \<notin> set f \<and> cr \<notin> set f"
    using assms(2) by (auto simp: plain_row_def list_all_iff plain_field_def)
  ultimately show "nl \<notin> set (join [cf_comma c] r)" "cr \<notin> set (join [cf_comma c] r)"
    using join_set [of "[cf_comma c]" r] by auto
  show "join [cf_comma c] r \<noteq> []" using assms(2) by (cases r; cases "tl r") (auto simp: plain_row_def)
qed

lemma csv_records_plain:
  "config_ok c \<Longrightarrow> list_all (plain_row c) rows \<Longrightarrow> csv_records c (csv_lines (plain_text c rows)) = Some rows"
proof (induction rows)
  case Nil
  then show ?case by (simp add: plain_text_def csv_lines_def csv_records.simps)
next
  case (Cons r rows)
  have r: "plain_row c r" using Cons.prems by simp
  let ?l = "join [cf_comma c] r" and ?ls = "csv_lines (plain_text c rows)"
  note line = plain_row_line [OF Cons.prems(1) r]
  have "csv_lines (plain_text c (r # rows)) = (?l @ [nl]) # ?ls"
    using csv_lines_cons [OF line(1,2), of "plain_text c rows"] by (simp add: plain_text_def)
  moreover have "csv_read c ((?l @ [nl]) # ?ls) = CsvRecord r ?ls"
    using csv_fields_plain [OF Cons.prems(1), of r ?ls "[]"] r line(3) by (simp add: plain_row_def)
  ultimately show ?case using Cons by (simp add: csv_records.simps [of c "(?l @ [nl]) # ?ls"])
qed

text \<open>\<open>strings.Fields\<close>: the maximal runs without white space.\<close>

fun take_word :: "string \<Rightarrow> string \<times> string" where
  "take_word [] = ([], [])"
| "take_word (c # cs) =
     (if list_ex (\<lambda>p. prefix p (c # cs)) space_runes then ([], c # cs)
      else case take_word cs of (w, r) \<Rightarrow> (c # w, r))"

lemma take_word_append: "take_word s = (w, r) \<Longrightarrow> s = w @ r"
  by (induction s arbitrary: w) (auto split: prod.split_asm if_split_asm)

definition next_word :: "string \<Rightarrow> string \<times> string" where
  "next_word s = take_word (strip_any space_runes s)"

function text_fields :: "string \<Rightarrow> string list" where
  "text_fields s = (if fst (next_word s) = [] then [] else fst (next_word s) # text_fields (snd (next_word s)))"
  by pat_completeness auto
termination
proof (relation "measure length")
  show "(snd (next_word s), s) \<in> measure length" if "fst (next_word s) \<noteq> []" for s
  proof -
    have "strip_any space_runes s = fst (next_word s) @ snd (next_word s)"
      by (simp add: next_word_def take_word_append prod_eq_iff)
    then have "length (strip_any space_runes s) = length (fst (next_word s)) + length (snd (next_word s))"
      by (metis length_append)
    then show ?thesis using that strip_any_length [of space_runes s] by (cases "fst (next_word s)") simp_all
  qed
qed simp

declare text_fields.simps [simp del]

end
