(* ===== verification/Snapshot.thy ===== *)
theory Snapshot
  imports Csv Evidence Fincloud_Loan Audit_Log
begin

text \<open>
  The current-day snapshot, \<open>src/internal/snapshot\<close>: reading the report (\<open>source.go\<close>), replacing the stored rows
  (\<open>repository.go\<close>) and the refresh with its status and audit rows (\<open>service.go\<close>). The report, the
  clock, the outcome of each database call and the text of an error are parameters. \<open>ExactPosition\<close> is in
  \<open>Evidence\<close>.
\<close>

section \<open>The report\<close>

definition snapshot_csv :: csv_config where
  "snapshot_csv = \<lparr>cf_comma = CHR ''|'', cf_lazy = False, cf_trim = False\<rparr>"

definition canonical_header :: "(string \<Rightarrow> string) \<Rightarrow> string \<Rightarrow> string" where
  "canonical_header uni v = join '' '' (text_fields (replace_byte (CHR ''_'') (CHR '' '') (to_lower uni (trim_space v))))"

text \<open>The map from canonical header to column: a later column of the same name wins.\<close>

definition columns_of :: "(string \<Rightarrow> string) \<Rightarrow> string list \<Rightarrow> (string \<times> nat) list" where
  "columns_of uni header = rev (zip (map (canonical_header uni) header) [0..<length header])"

definition record_cell :: "string list \<Rightarrow> (string \<times> nat) list \<Rightarrow> string \<Rightarrow> string" where
  "record_cell r columns name =
     (case map_of columns name of None \<Rightarrow> '''' | Some i \<Rightarrow> if i < length r then r ! i else '''')"

definition blank_record :: "string list \<Rightarrow> bool" where
  "blank_record r \<longleftrightarrow> list_all (\<lambda>v. trim_space v = '''') r"

definition parse_source_money :: "string \<Rightarrow> money res" where
  "parse_source_money raw = rbind (normalize_decimal raw) parse_money"

definition parse_source_date :: "string \<Rightarrow> date res" where
  "parse_source_date raw0 =
     (let raw = trim_space raw0 in
      case time_parse_dashed raw of Some d \<Rightarrow> Inr d
      | None \<Rightarrow> (case time_parse_compact raw of Some d \<Rightarrow> Inr d
                | None \<Rightarrow> (case time_parse_slashed raw of Some d \<Rightarrow> Inr d | None \<Rightarrow> Inl [])))"

definition time_format_slashed :: "date \<Rightarrow> string" where
  "time_format_slashed d =
     pad_zero 2 (itoa (day d)) @ ''/'' @ pad_zero 2 (itoa (month d)) @ ''/'' @ pad_zero 4 (itoa (year d))"

definition parse_loan_start_date :: "string \<Rightarrow> date res" where
  "parse_loan_start_date raw0 =
     (let raw = trim_space raw0;
          slashed = (case time_parse_slashed raw of None \<Rightarrow> Inl []
                     | Some d \<Rightarrow> if time_format_slashed d = raw then Inr d else Inl [])
      in case time_parse_dashed raw of None \<Rightarrow> slashed
         | Some d \<Rightarrow> if time_format_dashed d = raw then Inr d else slashed)"

definition required_columns :: "string list" where
  "required_columns =
     [''date params'', ''loan account no'', ''loan outstanding'', ''bi collectability'', ''principal arrears'', ''interest arrears'',
      ''penalty arrears'']"

definition start_column :: "(string \<times> nat) list \<Rightarrow> string option" where
  "start_column columns =
     (if map_of columns ''start date'' \<noteq> None then Some ''start date''
      else if map_of columns ''periode mulai'' \<noteq> None then Some ''periode mulai'' else None)"

definition branch_code :: "string \<Rightarrow> string" where
  "branch_code raw = (let b = trim_space raw; (before, _, found) = cut_byte (CHR ''-'') b in trim_space (if found then before else b))"

text \<open>One data line of the report.\<close>

definition source_row :: "(string \<times> nat) list \<Rightarrow> string \<Rightarrow> date \<Rightarrow> string list \<Rightarrow> loan_position res" where
  "source_row columns start business r =
     (let cell = record_cell r columns; account = trim_space (cell ''loan account no'') in
      if account = '''' then Inl []
      else case parse_source_date (cell ''date params'') of Inl e \<Rightarrow> Inl e
      | Inr as_of \<Rightarrow>
        if \<not> date_equal as_of business then Inl []
        else case parse_loan_start_date (cell start) of Inl e \<Rightarrow> Inl e
        | Inr loan_start \<Rightarrow>
          if date_after loan_start as_of then Inl []
          else case parse_source_money (cell ''loan outstanding'') of Inl e \<Rightarrow> Inl e
          | Inr outstanding \<Rightarrow>
            case parse_source_money (cell ''principal arrears'') of Inl e \<Rightarrow> Inl e
            | Inr principal_due \<Rightarrow>
              case parse_source_money (cell ''interest arrears'') of Inl e \<Rightarrow> Inl e
              | Inr interest_due \<Rightarrow>
                case parse_source_money (cell ''penalty arrears'') of Inl e \<Rightarrow> Inl e
                | Inr penalty_due \<Rightarrow>
                  case atoi (trim_space (cell ''bi collectability'')) of None \<Rightarrow> Inl []
                  | Some collectability \<Rightarrow>
                      if collectability < 1 \<or> collectability > 5 then Inl []
                      else if is_negative outstanding \<or> is_negative principal_due \<or> is_negative interest_due
                              \<or> is_negative penalty_due \<or> principal_due > outstanding then Inl []
                      else Inr (empty_position
                        \<lparr>lp_as_of := as_of, lp_loan_start_date := loan_start, lp_account_number := account,
                         lp_principal_outstanding := outstanding, lp_principal_due := principal_due,
                         lp_interest_due := interest_due, lp_penalty_due := penalty_due,
                         lp_collectability_bi := collectability, lp_source := Some SourceTodaySnapshot,
                         lp_branch := branch_code (cell ''branch code''), lp_product := trim_space (cell ''product id''),
                         lp_cif := trim_space (cell ''cif no''),
                         lp_contract_number := trim_space (cell ''loan agreement no'')\<rparr>))"

definition same_position :: "loan_position \<Rightarrow> loan_position \<Rightarrow> bool" where
  "same_position l r \<longleftrightarrow>
     date_equal (lp_as_of l) (lp_as_of r) \<and> date_equal (lp_loan_start_date l) (lp_loan_start_date r)
     \<and> lp_principal_outstanding l = lp_principal_outstanding r \<and> lp_principal_due l = lp_principal_due r
     \<and> lp_interest_due l = lp_interest_due r \<and> lp_penalty_due l = lp_penalty_due r
     \<and> lp_collectability_bi l = lp_collectability_bi r \<and> lp_branch l = lp_branch r \<and> lp_product l = lp_product r
     \<and> lp_cif l = lp_cif r \<and> lp_contract_number l = lp_contract_number r"

fun source_rows ::
  "(string \<times> nat) list \<Rightarrow> string \<Rightarrow> date \<Rightarrow> loan_position list \<Rightarrow> string list list \<Rightarrow> loan_position list res" where
  "source_rows columns start business rows [] = Inr rows"
| "source_rows columns start business rows (r # rs) =
     (if blank_record r then source_rows columns start business rows rs
      else case source_row columns start business r of Inl e \<Rightarrow> Inl e
      | Inr p \<Rightarrow>
          (case find (\<lambda>q. lp_account_number q = lp_account_number p) rows of
             Some q \<Rightarrow> if same_position q p then source_rows columns start business rows rs else Inl []
           | None \<Rightarrow> source_rows columns start business (rows @ [p]) rs))"

definition byte_order_mark :: string where
  "byte_order_mark = [CHR 0xEF, CHR 0xBB, CHR 0xBF]"

definition source_parse :: "(string \<Rightarrow> string) \<Rightarrow> string \<Rightarrow> date \<Rightarrow> loan_position list res" where
  "source_parse uni body business =
     (case csv_records snapshot_csv (csv_lines (trim_prefix byte_order_mark body)) of
        None \<Rightarrow> Inl [] | Some [] \<Rightarrow> Inl []
      | Some (header # records) \<Rightarrow>
          let columns = columns_of uni header in
          if list_ex (\<lambda>n. map_of columns n = None) required_columns then Inl []
          else (case start_column columns of None \<Rightarrow> Inl []
                | Some start \<Rightarrow>
                    (case source_rows columns start business [] records of Inl e \<Rightarrow> Inl e
                     | Inr rows \<Rightarrow> if rows = [] then Inl [] else Inr rows)))"

definition fetch_positions :: "(string \<Rightarrow> string) \<Rightarrow> string res \<Rightarrow> date \<Rightarrow> loan_position list res" where
  "fetch_positions uni report business = rbind report (\<lambda>body. source_parse uni body business)"

section \<open>The stored rows\<close>

text \<open>
  A row as the DECIMAL(30,10), DATE and nullable columns hold it; \<open>None\<close> when a value has no such form.
\<close>

definition null_if_empty :: "string \<Rightarrow> string option" where
  "null_if_empty s = (if s = '''' then None else Some s)"

definition stored_row :: "loan_position \<Rightarrow> snapshot_row option" where
  "stored_row p =
     (case (time_parse_dashed (date_string (lp_as_of p)), time_parse_dashed (date_string (lp_loan_start_date p)),
            money_scan (money_value (lp_principal_outstanding p)), money_scan (money_value (lp_principal_due p)),
            money_scan (money_value (lp_interest_due p)), money_scan (money_value (lp_penalty_due p))) of
        (Some d, Some s, Inr a, Inr b, Inr c, Inr e) \<Rightarrow>
          Some \<lparr>sn_account_number = lp_account_number p, sn_as_of = d, sn_loan_start_date = Some s,
                sn_principal_outstanding = a, sn_collectability_bi = lp_collectability_bi p, sn_principal_due = b,
                sn_interest_due = c, sn_penalty_due = e, sn_branch = null_if_empty (lp_branch p),
                sn_product = null_if_empty (lp_product p), sn_cif = null_if_empty (lp_cif p),
                sn_contract_number = null_if_empty (lp_contract_number p), sn_source_updated_at = lp_source_updated_at p\<rparr>
      | _ \<Rightarrow> None)"

record refresh_status =
  rs_attempted_at :: "int option"
  rs_successful_at :: "int option"
  rs_status :: string
  rs_row_count :: int
  rs_error_summary :: "string option"
  rs_updated_at :: int

record snapshot_db =
  sd_rows :: "(snapshot_row \<times> int) list"
  sd_status :: refresh_status
  sd_audit :: "audit_row list"

text \<open>
  \<open>insertRows\<close> for one chunk. The server may refuse it (\<open>accepts\<close>), and does for a value that does not fit or a
  second row of an account.
\<close>

definition insert_rows ::
  "(loan_position list \<Rightarrow> bool) \<Rightarrow> int \<Rightarrow> loan_position list \<Rightarrow> (snapshot_row \<times> int) list \<Rightarrow> (snapshot_row \<times> int) list res" where
  "insert_rows accepts now ps stored =
     (if list_ex (\<lambda>p. date_is_zero (lp_loan_start_date p) \<or> date_after (lp_loan_start_date p) (lp_as_of p)
                   \<or> is_negative (lp_penalty_due p)) ps then Inl []
      else
        let new = map stored_row ps in
        if \<not> accepts ps \<or> None \<in> set new
           \<or> \<not> distinct (map (\<lambda>(r, _). sn_account_number r) stored @ map lp_account_number ps) then Inl []
        else Inr (stored @ map (\<lambda>r. (the r, now)) new))"

text \<open>The insertion loop in chunks of \<open>n\<close> rows (200 in the code).\<close>

function insert_chunks ::
  "nat \<Rightarrow> (loan_position list \<Rightarrow> bool) \<Rightarrow> int \<Rightarrow> loan_position list \<Rightarrow> (snapshot_row \<times> int) list \<Rightarrow> (snapshot_row \<times> int) list res" where
  "insert_chunks n accepts now ps stored =
     (if ps = [] \<or> n = 0 then Inr stored
      else rbind (insert_rows accepts now (take n ps) stored) (insert_chunks n accepts now (drop n ps)))"
  by pat_completeness auto
termination
  by (relation "measure (\<lambda>(n, accepts, now, ps, stored). length ps)") auto

declare insert_chunks.simps [simp del]

definition chunk_size :: nat where
  "chunk_size = 200"

definition replace_all ::
  "(loan_position list \<Rightarrow> bool) \<Rightarrow> bool \<Rightarrow> int \<Rightarrow> loan_position list \<Rightarrow> snapshot_db \<Rightarrow> snapshot_db res" where
  "replace_all accepts commits now ps db =
     rbind (insert_chunks chunk_size accepts now ps []) (\<lambda>rows.
       if \<not> commits then Inl []
       else Inr (db\<lparr>sd_rows := rows,
                    sd_status := (sd_status db)\<lparr>rs_successful_at := Some now, rs_status := ''succeeded'',
                                   rs_row_count := int (length ps), rs_error_summary := None, rs_updated_at := now\<rparr>\<rparr>))"

definition mark_attempt :: "int \<Rightarrow> snapshot_db \<Rightarrow> snapshot_db" where
  "mark_attempt now db =
     db\<lparr>sd_status := (sd_status db)\<lparr>rs_attempted_at := Some now, rs_status := ''running'', rs_error_summary := None,
                                    rs_updated_at := now\<rparr>\<rparr>"

definition mark_failure :: "int \<Rightarrow> string \<Rightarrow> snapshot_db \<Rightarrow> snapshot_db" where
  "mark_failure now summary db =
     db\<lparr>sd_status := (sd_status db)\<lparr>rs_status := ''failed'', rs_error_summary := Some summary, rs_updated_at := now\<rparr>\<rparr>"

text \<open>The query of \<open>ExactPosition\<close> on the stored rows.\<close>

definition snapshot_query :: "snapshot_db \<Rightarrow> string \<Rightarrow> string \<Rightarrow> snapshot_row query" where
  "snapshot_query db account as_of =
     (case find (\<lambda>(r, _). sn_account_number r = account \<and> date_string (sn_as_of r) = as_of) (sd_rows db) of
        None \<Rightarrow> NoRows | Some (r, _) \<Rightarrow> Row r)"

section \<open>Refresh\<close>

definition validate_row :: "date \<Rightarrow> loan_position \<Rightarrow> bool" where
  "validate_row d p \<longleftrightarrow>
     \<not> (trim_space (lp_account_number p) = '''' \<or> \<not> date_equal (lp_as_of p) d \<or> date_is_zero (lp_loan_start_date p)
        \<or> date_after (lp_loan_start_date p) d \<or> is_negative (lp_principal_outstanding p) \<or> is_negative (lp_principal_due p)
        \<or> is_negative (lp_interest_due p) \<or> is_negative (lp_penalty_due p)
        \<or> lp_principal_due p > lp_principal_outstanding p \<or> lp_collectability_bi p < 1 \<or> lp_collectability_bi p > 5)"

fun validate_rows_from :: "string list \<Rightarrow> date \<Rightarrow> loan_position list \<Rightarrow> unit res" where
  "validate_rows_from seen d [] = Inr ()"
| "validate_rows_from seen d (p # ps) =
     (let account = trim_space (lp_account_number p) in
      if \<not> validate_row d p \<or> account \<in> set seen then Inl [] else validate_rows_from (account # seen) d ps)"

definition validate_rows :: "loan_position list \<Rightarrow> date \<Rightarrow> unit res" where
  "validate_rows ps d = (if ps = [] then Inl [] else validate_rows_from [] d ps)"

definition safe_summary :: "string \<Rightarrow> string" where
  "safe_summary message =
     (let s = join '' '' (text_fields message) in if length s > 500 then take 500 s else s)"

datatype lock_outcome = LockFailed | LockBusy | LockHeld

datatype refresh_error = LockUnavailable | RefreshInProgress | AttemptUnrecorded | RefreshFailed err

datatype trigger = TriggerStartup | TriggerScheduled | TriggerManual

fun trigger_text :: "trigger \<Rightarrow> string" where
  "trigger_text TriggerStartup = ''startup''"
| "trigger_text TriggerScheduled = ''scheduled''"
| "trigger_text TriggerManual = ''manual''"

text \<open>
  What a run meets: the lock, the report, the server's answers, and the clock (the n-th reading of it, with the
  business date of the first).
\<close>

record refresh_run =
  rr_lock :: lock_outcome
  rr_attempt_ok :: bool
  rr_report :: "date \<Rightarrow> loan_position list res"
  rr_accepts :: "loan_position list \<Rightarrow> bool"
  rr_commits :: bool
  rr_failure_ok :: bool
  rr_audit_ok :: bool
  rr_clock :: "nat \<Rightarrow> int"
  rr_today :: date
  rr_message :: "err \<Rightarrow> string"

definition snapshot_audit ::
  "(audit_metadata \<Rightarrow> string) \<Rightarrow> bool \<Rightarrow> attribution \<Rightarrow> string \<Rightarrow> audit_metadata \<Rightarrow> int \<Rightarrow> snapshot_db \<Rightarrow> snapshot_db" where
  "snapshot_audit marshal ok att action metadata now db =
     (case audit_append marshal ok
             \<lparr>ev_attribution = att, ev_action = action, ev_resource = '''', ev_resource_id = 0, ev_metadata = Some metadata,
              ev_created_at = now\<rparr> (sd_audit db) of
        Inl _ \<Rightarrow> db | Inr rows \<Rightarrow> db\<lparr>sd_audit := rows\<rparr>)"

definition refresh ::
  "(audit_metadata \<Rightarrow> string) \<Rightarrow> refresh_run \<Rightarrow> trigger \<Rightarrow> attribution \<Rightarrow> snapshot_db \<Rightarrow> (refresh_error + int) \<times> snapshot_db" where
  "refresh marshal run trg att db =
     (case rr_lock run of LockFailed \<Rightarrow> (Inl LockUnavailable, db) | LockBusy \<Rightarrow> (Inl RefreshInProgress, db)
      | LockHeld \<Rightarrow>
          if \<not> rr_attempt_ok run then (Inl AttemptUnrecorded, db)
          else
            let now = rr_clock run 0;
                db1 = snapshot_audit marshal (rr_audit_ok run) att ''snapshot.refresh.started''
                        (SnapshotRefresh (trigger_text trg) 0 '''') now (mark_attempt now db);
                outcome = rbind (rr_report run (rr_today run)) (\<lambda>ps.
                  rbind (validate_rows ps (rr_today run)) (\<lambda>_.
                    rbind (replace_all (rr_accepts run) (rr_commits run) (rr_clock run 1) ps db1) (\<lambda>db2. Inr (ps, db2))))
            in case outcome of
                 Inl e \<Rightarrow>
                   let summary = safe_summary (rr_message run e);
                       db2 = (if rr_failure_ok run then mark_failure (rr_clock run 2) summary db1 else db1)
                   in (Inl (RefreshFailed e),
                       snapshot_audit marshal (rr_audit_ok run) att ''snapshot.refresh.failed''
                         (SnapshotRefresh (trigger_text trg) 0 summary) (rr_clock run 3) db2)
               | Inr (ps, db2) \<Rightarrow>
                   (Inr (int (length ps)),
                    snapshot_audit marshal (rr_audit_ok run) att ''snapshot.refresh.succeeded''
                      (SnapshotRefresh (trigger_text trg) (int (length ps)) '''') (rr_clock run 2) db2))"

text \<open>\<open>RunScheduler\<close>: a refresh at the start when asked for, then one for each tick before the context ends.\<close>

definition empty_attribution :: attribution where
  "empty_attribution = \<lparr>att_actor = None, att_effective = None, att_system_actor = ''''\<rparr>"

definition run_scheduler ::
  "(audit_metadata \<Rightarrow> string) \<Rightarrow> refresh_run option \<Rightarrow> refresh_run list \<Rightarrow> snapshot_db \<Rightarrow> snapshot_db" where
  "run_scheduler marshal startup ticks db =
     fold (\<lambda>run d. snd (refresh marshal run TriggerScheduled empty_attribution d)) ticks
       (case startup of None \<Rightarrow> db | Some run \<Rightarrow> snd (refresh marshal run TriggerStartup empty_attribution db))"

section \<open>The rows of a report\<close>

definition calendar :: "date \<Rightarrow> bool" where
  "calendar d \<longleftrightarrow> civil d \<and> 0 \<le> year d \<and> year d \<le> 9999"

lemma civil_of_texts_calendar:
  assumes "civil_of_texts y m d = Some v"
  shows "calendar v"
proof -
  have "list_all is_digit y" "length y = 4" using assms by (auto simp: civil_of_texts_Some)
  then have "digits_value y < 10 ^ 4" using digits_value_bound by metis
  then show ?thesis using assms by (auto simp: civil_of_texts_Some calendar_def)
qed

lemma parse_source_date_calendar: "parse_source_date raw = Inr d \<Longrightarrow> calendar d"
  by (auto simp: parse_source_date_def Let_def time_parse_dashed_def time_parse_compact_def time_parse_slashed_def
      dest: civil_of_texts_calendar split: option.split_asm if_split_asm)

lemma parse_loan_start_date_calendar: "parse_loan_start_date raw = Inr d \<Longrightarrow> calendar d"
  by (auto simp: parse_loan_start_date_def Let_def time_parse_dashed_def time_parse_slashed_def
      dest: civil_of_texts_calendar split: option.split_asm if_split_asm)

text \<open>What a data line guarantees: all of \<^const>\<open>validate_row\<close> but the check for a start date in the year zero.\<close>

definition report_row :: "date \<Rightarrow> loan_position \<Rightarrow> bool" where
  "report_row d p \<longleftrightarrow>
     trimmed (lp_account_number p) \<and> lp_account_number p \<noteq> '''' \<and> date_equal (lp_as_of p) d \<and> calendar (lp_as_of p)
     \<and> calendar (lp_loan_start_date p) \<and> \<not> date_after (lp_loan_start_date p) d \<and> position_ok p
     \<and> lp_source p = Some SourceTodaySnapshot \<and> lp_unapplied_amount p = 0 \<and> lp_source_updated_at p = None"

lemma report_row_validate: "report_row d p \<Longrightarrow> validate_row d p \<longleftrightarrow> \<not> date_is_zero (lp_loan_start_date p)"
  using trim_space_trimmed [of "lp_account_number p"]
  by (auto simp: report_row_def validate_row_def position_ok_def balances_ok_def)

lemma source_row_Inr:
  assumes "source_row columns start d r = Inr p"
  shows "parse_source_date (record_cell r columns ''date params'') = Inr (lp_as_of p)
    \<and> parse_loan_start_date (record_cell r columns start) = Inr (lp_loan_start_date p)
    \<and> lp_account_number p = trim_space (record_cell r columns ''loan account no'') \<and> lp_account_number p \<noteq> ''''
    \<and> date_equal (lp_as_of p) d \<and> \<not> date_after (lp_loan_start_date p) (lp_as_of p)
    \<and> lp_source p = Some SourceTodaySnapshot \<and> lp_unapplied_amount p = 0 \<and> lp_source_updated_at p = None
    \<and> \<not> is_negative (lp_principal_outstanding p) \<and> \<not> is_negative (lp_principal_due p)
    \<and> \<not> is_negative (lp_interest_due p) \<and> \<not> is_negative (lp_penalty_due p)
    \<and> lp_principal_due p \<le> lp_principal_outstanding p \<and> 1 \<le> lp_collectability_bi p \<and> lp_collectability_bi p \<le> 5"
  using assms unfolding source_row_def Let_def
  by (simp split: if_split_asm sum.split_asm option.split_asm) (clarsimp simp: empty_position_def not_less)

lemma source_row_ok:
  assumes "source_row columns start d r = Inr p"
  shows "report_row d p"
proof -
  note p = source_row_Inr [OF assms]
  note rest = p [THEN conjunct2, THEN conjunct2, THEN conjunct2]
  have t: "trimmed (lp_account_number p)" using p by (metis trimmed_trim_space)
  have "calendar (lp_as_of p)" "calendar (lp_loan_start_date p)"
    using p parse_source_date_calendar parse_loan_start_date_calendar by blast+
  then show ?thesis
    using rest t by (simp add: report_row_def position_ok_def balances_ok_def date_after_def date_equal_def)
qed

lemma source_rows_ok:
  "source_rows columns start d rows rs = Inr ps \<Longrightarrow> list_all (report_row d) rows \<Longrightarrow>
     distinct (map lp_account_number rows) \<Longrightarrow> list_all (report_row d) ps \<and> distinct (map lp_account_number ps)"
proof (induction columns start d rows rs rule: source_rows.induct)
  case (2 columns start d rows r rs)
  show ?case
  proof (cases "blank_record r")
    case False
    then obtain p where p: "source_row columns start d r = Inr p"
      using "2.prems"(1) by (auto split: sum.split_asm)
    note ok = source_row_ok [OF p]
    show ?thesis
    proof (cases "find (\<lambda>q. lp_account_number q = lp_account_number p) rows")
      case None
      then have "lp_account_number p \<notin> lp_account_number ` set rows" by (force simp: find_None_iff)
      then show ?thesis using "2.IH"(2) [OF False p None] "2.prems" False p ok None by simp
    next
      case (Some q)
      then show ?thesis using "2.IH"(3) [OF False p Some] "2.prems" False p by (simp split: if_split_asm)
    qed
  qed (use 2 in simp)
qed simp

lemma report_rows_valid:
  "list_all (report_row d) ps \<Longrightarrow> distinct (map lp_account_number ps) \<Longrightarrow>
     list_all (\<lambda>p. lp_account_number p \<notin> set seen) ps \<Longrightarrow>
     validate_rows_from seen d ps = Inr () \<longleftrightarrow> list_all (\<lambda>p. \<not> date_is_zero (lp_loan_start_date p)) ps"
proof (induction ps arbitrary: seen)
  case (Cons p ps)
  have p: "report_row d p" "trim_space (lp_account_number p) = lp_account_number p"
    using Cons.prems(1) by (simp_all add: report_row_def trim_space_trimmed)
  have "list_all (\<lambda>q. lp_account_number q \<notin> set (lp_account_number p # seen)) ps"
    using Cons.prems(2,3) by (simp add: list_all_iff) (metis imageI)
  then have IH: "validate_rows_from (lp_account_number p # seen) d ps = Inr ()
      \<longleftrightarrow> list_all (\<lambda>p. \<not> date_is_zero (lp_loan_start_date p)) ps"
    using Cons.prems by (intro Cons.IH) simp_all
  show ?case using IH Cons.prems(3) p(2) report_row_validate [OF p(1)] by simp
qed simp

lemma source_parse_Inr:
  assumes "source_parse uni body d = Inr ps"
  shows "ps \<noteq> [] \<and> list_all (report_row d) ps \<and> distinct (map lp_account_number ps)"
  using assms
  by (auto simp: source_parse_def res_simps Let_def dest!: source_rows_ok split: option.split_asm list.split_asm if_split_asm sum.split_asm)

lemma source_parse_valid:
  assumes "source_parse uni body d = Inr ps"
  shows "validate_rows ps d = Inr () \<longleftrightarrow> list_all (\<lambda>p. \<not> date_is_zero (lp_loan_start_date p)) ps"
  using source_parse_Inr [OF assms] report_rows_valid [of d ps "[]"]
  by (simp add: validate_rows_def list_all_iff)

section \<open>Replacing the rows\<close>

text \<open>Rounding to ten decimals keeps signs and order.\<close>

lemma round_away_mono: "0 \<le> x \<Longrightarrow> x \<le> y \<Longrightarrow> round_away s x \<le> round_away s y"
proof -
  assume "0 \<le> x" "x \<le> y"
  then have "\<lfloor>x * 10 ^ s + 1 / 2\<rfloor> \<le> \<lfloor>y * 10 ^ s + 1 / 2\<rfloor>"
    by (intro floor_mono add_right_mono mult_right_mono) simp_all
  then have "rat_of_int \<lfloor>x * 10 ^ s + 1 / 2\<rfloor> / 10 ^ s \<le> of_int \<lfloor>y * 10 ^ s + 1 / 2\<rfloor> / 10 ^ s"
    by (intro divide_right_mono) simp_all
  then show ?thesis using \<open>0 \<le> x\<close> \<open>x \<le> y\<close> by (simp add: round_away_def)
qed

lemma round_away_nonneg: "0 \<le> x \<Longrightarrow> 0 \<le> round_away s x"
  using round_away_mono [of 0 x s] by (simp add: round_away_def)

lemma money_scan_value: "money_scan (money_value m) = Inr (round_away 10 m)"
  using parse_float_string [of 10 m] by (simp add: money_value_def money_format_def)

definition snapshot_row_ok :: "snapshot_row \<Rightarrow> bool" where
  "snapshot_row_ok r \<longleftrightarrow>
     balances_ok (sn_principal_outstanding r) (sn_principal_due r) (sn_interest_due r) \<and> 0 \<le> sn_penalty_due r
     \<and> 1 \<le> sn_collectability_bi r \<and> sn_collectability_bi r \<le> 5 \<and> sn_loan_start_date r \<noteq> None"

lemma stored_row_Some:
  "stored_row p = Some r \<longleftrightarrow>
     (\<exists>d s. time_parse_dashed (date_string (lp_as_of p)) = Some d
        \<and> time_parse_dashed (date_string (lp_loan_start_date p)) = Some s
        \<and> r = \<lparr>sn_account_number = lp_account_number p, sn_as_of = d, sn_loan_start_date = Some s,
                sn_principal_outstanding = round_away 10 (lp_principal_outstanding p),
                sn_collectability_bi = lp_collectability_bi p, sn_principal_due = round_away 10 (lp_principal_due p),
                sn_interest_due = round_away 10 (lp_interest_due p), sn_penalty_due = round_away 10 (lp_penalty_due p),
                sn_branch = null_if_empty (lp_branch p), sn_product = null_if_empty (lp_product p),
                sn_cif = null_if_empty (lp_cif p), sn_contract_number = null_if_empty (lp_contract_number p),
                sn_source_updated_at = lp_source_updated_at p\<rparr>)"
  by (auto simp: stored_row_def money_scan_value split: option.splits)

lemma stored_row_ok: "validate_row d p \<Longrightarrow> stored_row p = Some r \<Longrightarrow> snapshot_row_ok r"
  by (auto simp: stored_row_Some validate_row_def snapshot_row_ok_def balances_ok_def not_less
      intro: round_away_nonneg round_away_mono)

lemma insert_rows_Inr:
  "insert_rows accepts now ps stored = Inr rows \<Longrightarrow>
     rows = stored @ map (\<lambda>p. (the (stored_row p), now)) ps \<and> None \<notin> stored_row ` set ps
     \<and> distinct (map (\<lambda>(r, _). sn_account_number r) stored @ map lp_account_number ps)"
  by (auto simp: insert_rows_def Let_def split: if_split_asm)

lemma stored_account: "stored_row p = Some r \<Longrightarrow> sn_account_number r = lp_account_number p"
  by (auto simp: stored_row_Some)

abbreviation accounts_of :: "(snapshot_row \<times> int) list \<Rightarrow> string list" where
  "accounts_of rows \<equiv> map (\<lambda>(r, _). sn_account_number r) rows"

lemma stored_accounts:
  "None \<notin> stored_row ` set ps \<Longrightarrow> accounts_of (map (\<lambda>p. (the (stored_row p), now)) ps) = map lp_account_number ps"
proof (induction ps)
  case (Cons p ps)
  then show ?case by (cases "stored_row p") (auto dest: stored_account)
qed simp

lemma insert_chunks_Inr:
  "insert_chunks n accepts now ps stored = Inr rows \<Longrightarrow> 0 < n \<Longrightarrow>
     distinct (accounts_of stored) \<Longrightarrow>
     rows = stored @ map (\<lambda>p. (the (stored_row p), now)) ps \<and> None \<notin> stored_row ` set ps
     \<and> distinct (accounts_of rows)"
proof (induction n accepts now ps stored rule: insert_chunks.induct)
  case (1 n accepts now ps stored)
  show ?case
  proof (cases "ps = []")
    case False
    with "1.prems"(1,2) obtain mid where mid: "insert_rows accepts now (take n ps) stored = Inr mid"
      "insert_chunks n accepts now (drop n ps) mid = Inr rows"
      by (auto simp: insert_chunks.simps [of n accepts now ps] res_simps)
    note m = insert_rows_Inr [OF mid(1)]
    then have d: "distinct (accounts_of mid)"
      using stored_accounts [of "take n ps" now] by (simp del: map_map)
    have rest: "rows = mid @ map (\<lambda>p. (the (stored_row p), now)) (drop n ps) \<and> None \<notin> stored_row ` set (drop n ps)
        \<and> distinct (accounts_of rows)"
      by (rule "1.IH") (use False "1.prems"(2) mid(2) d in simp_all)
    have ps: "take n ps @ drop n ps = ps" by simp
    have "rows = stored @ map (\<lambda>p. (the (stored_row p), now)) (take n ps @ drop n ps)"
      using rest m by (simp del: append_take_drop_id)
    moreover have "None \<notin> stored_row ` set (take n ps @ drop n ps)"
      using rest m by (simp add: image_Un del: append_take_drop_id)
    ultimately show ?thesis using rest unfolding ps by blast
  qed (use 1 in \<open>simp add: insert_chunks.simps\<close>)
qed

text \<open>A server that refuses nothing of its own makes the chunks equal to one insertion of all rows.\<close>

definition insertable :: "loan_position \<Rightarrow> bool" where
  "insertable p \<longleftrightarrow> \<not> date_is_zero (lp_loan_start_date p) \<and> \<not> date_after (lp_loan_start_date p) (lp_as_of p)
     \<and> \<not> is_negative (lp_penalty_due p) \<and> stored_row p \<noteq> None"

lemma None_image: "None \<in> f ` A \<longleftrightarrow> (\<exists>x \<in> A. f x = None)"
  by force

lemma insert_rows_willing:
  "insert_rows (\<lambda>_. True) now ps stored =
     (if list_all insertable ps \<and> distinct (accounts_of stored @ map lp_account_number ps)
      then Inr (stored @ map (\<lambda>p. (the (stored_row p), now)) ps) else Inl [])"
  by (auto simp: insert_rows_def insertable_def list_all_iff list_ex_iff Let_def None_image)

lemma insert_rows_append:
  "rbind (insert_rows (\<lambda>_. True) now xs stored) (insert_rows (\<lambda>_. True) now ys)
   = insert_rows (\<lambda>_. True) now (xs @ ys) stored"
proof (cases "list_all insertable xs \<and> distinct (accounts_of stored @ map lp_account_number xs)")
  case True
  then have "None \<notin> stored_row ` set xs" by (auto simp: list_all_iff insertable_def None_image)
  then have "accounts_of (stored @ map (\<lambda>p. (the (stored_row p), now)) xs) = accounts_of stored @ map lp_account_number xs"
    using stored_accounts [of xs now] by (simp del: map_map)
  then show ?thesis using True unfolding insert_rows_willing by (simp del: map_map map_append distinct_append) simp
next
  case False
  then have "insert_rows (\<lambda>_. True) now xs stored = Inl []" unfolding insert_rows_willing by simp
  moreover have "insert_rows (\<lambda>_. True) now (xs @ ys) stored = Inl []"
    using False unfolding insert_rows_willing by auto
  ultimately show ?thesis by simp
qed

lemma insert_chunks_willing:
  "0 < n \<Longrightarrow> distinct (accounts_of stored) \<Longrightarrow>
     insert_chunks n (\<lambda>_. True) now ps stored = insert_rows (\<lambda>_. True) now ps stored"
proof (induction n "\<lambda>_ :: loan_position list. True" now ps stored rule: insert_chunks.induct)
  case (1 n now ps stored)
  show ?case
  proof (cases "ps = []")
    case False
    have "rbind (insert_rows (\<lambda>_. True) now (take n ps) stored) (insert_chunks n (\<lambda>_. True) now (drop n ps))
        = rbind (insert_rows (\<lambda>_. True) now (take n ps) stored) (insert_rows (\<lambda>_. True) now (drop n ps))"
    proof (cases "insert_rows (\<lambda>_. True) now (take n ps) stored")
      case (Inr mid)
      note m = insert_rows_Inr [OF Inr]
      then have "distinct (accounts_of mid)"
        using stored_accounts [of "take n ps" now] by (simp del: map_map)
      then show ?thesis using "1.hyps" [of mid] "1.prems"(1) False Inr by simp
    qed simp
    then show ?thesis
      using False "1.prems"(1) by (simp add: insert_chunks.simps [of n _ now ps] insert_rows_append)
  qed (use "1.prems" in \<open>simp add: insert_chunks.simps insert_rows_willing\<close>)
qed

text \<open>\<^const>\<open>replace_all\<close> against its specification: all rows or none, whatever the chunk.\<close>

lemma replace_all_Inr:
  assumes "replace_all accepts commits now ps db = Inr db'"
  shows "sd_rows db' = map (\<lambda>p. (the (stored_row p), now)) ps \<and> None \<notin> stored_row ` set ps
    \<and> distinct (accounts_of (sd_rows db')) \<and> sd_audit db' = sd_audit db
    \<and> sd_status db' = (sd_status db)\<lparr>rs_successful_at := Some now, rs_status := ''succeeded'', rs_row_count := int (length ps),
        rs_error_summary := None, rs_updated_at := now\<rparr>"
  using assms insert_chunks_Inr [of chunk_size accepts now ps "[]"]
  by (auto simp: replace_all_def res_simps chunk_size_def split: if_split_asm)

section \<open>What a refresh keeps\<close>

text \<open>
  The invariant of the two tables: one row per account, each well-formed and stamped with the last success, and
  a recorded count that is the number of rows.
\<close>

definition snapshot_ok :: "snapshot_db \<Rightarrow> bool" where
  "snapshot_ok db \<longleftrightarrow>
     distinct (accounts_of (sd_rows db))
     \<and> list_all (\<lambda>(r, t). snapshot_row_ok r \<and> rs_successful_at (sd_status db) = Some t) (sd_rows db)
     \<and> rs_row_count (sd_status db) = int (length (sd_rows db))"

lemma snapshot_audit_simps [simp]:
  "sd_rows (snapshot_audit marshal ok att action m now db) = sd_rows db"
  "sd_status (snapshot_audit marshal ok att action m now db) = sd_status db"
  by (simp_all add: snapshot_audit_def split: sum.split)

lemma validate_rows_from_all: "validate_rows_from seen d ps = Inr () \<Longrightarrow> list_all (validate_row d) ps"
  by (induction seen d ps rule: validate_rows_from.induct) (auto simp: Let_def split: if_split_asm)

lemma validate_rows_all: "validate_rows ps d = Inr () \<Longrightarrow> list_all (validate_row d) ps"
  by (auto simp: validate_rows_def dest: validate_rows_from_all split: if_split_asm)

lemma refresh_Inr:
  assumes "refresh marshal run trg att db = (Inr n, db')"
  obtains ps where "rr_report run (rr_today run) = Inr ps" "validate_rows ps (rr_today run) = Inr ()"
    "n = int (length ps)" "sd_rows db' = map (\<lambda>p. (the (stored_row p), rr_clock run 1)) ps" "None \<notin> stored_row ` set ps"
    "distinct (map lp_account_number ps)"
    "sd_status db' = (sd_status db)\<lparr>rs_attempted_at := Some (rr_clock run 0), rs_successful_at := Some (rr_clock run 1),
       rs_status := ''succeeded'', rs_row_count := n, rs_error_summary := None, rs_updated_at := rr_clock run 1\<rparr>"
proof -
  let ?db1 = "snapshot_audit marshal (rr_audit_ok run) att ''snapshot.refresh.started''
    (SnapshotRefresh (trigger_text trg) 0 '''') (rr_clock run 0) (mark_attempt (rr_clock run 0) db)"
  have held: "rr_lock run = LockHeld" "rr_attempt_ok run"
    using assms by (auto simp: refresh_def split: lock_outcome.split_asm if_split_asm)
  obtain ps db2 where ps: "rr_report run (rr_today run) = Inr ps" "validate_rows ps (rr_today run) = Inr ()"
      "replace_all (rr_accepts run) (rr_commits run) (rr_clock run 1) ps ?db1 = Inr db2"
    and out: "n = int (length ps)" "sd_rows db' = sd_rows db2" "sd_status db' = sd_status db2"
    using assms held
    by (auto simp: refresh_def Let_def res_simps split: sum.split_asm prod.split_asm)
  note r = replace_all_Inr [OF ps(3)]
  then have "distinct (map lp_account_number ps)" by (metis stored_accounts)
  with r show ?thesis using ps(1,2) out by (intro that [of ps]) (simp_all add: mark_attempt_def)
qed

lemma refresh_Inl:
  assumes "refresh marshal run trg att db = (Inl e, db')"
  shows "sd_rows db' = sd_rows db \<and> rs_successful_at (sd_status db') = rs_successful_at (sd_status db)
    \<and> rs_row_count (sd_status db') = rs_row_count (sd_status db)"
  using assms
  by (auto simp: refresh_def Let_def mark_attempt_def mark_failure_def split: lock_outcome.split_asm if_split_asm sum.split_asm)

lemma refresh_unlocked:
  "rr_lock run \<noteq> LockHeld \<or> \<not> rr_attempt_ok run \<Longrightarrow> snd (refresh marshal run trg att db) = db"
  by (auto simp: refresh_def split: lock_outcome.split)

lemma refresh_ok: "snapshot_ok db \<Longrightarrow> snapshot_ok (snd (refresh marshal run trg att db))"
proof (cases "refresh marshal run trg att db")
  case (Pair out db')
  assume ok: "snapshot_ok db"
  show ?thesis
  proof (cases out)
    case (Inl e)
    then show ?thesis using ok refresh_Inl [of marshal run trg att db e db'] Pair by (simp add: snapshot_ok_def)
  next
    case (Inr n)
    have "refresh marshal run trg att db = (Inr n, db')" using Pair Inr by simp
    then obtain ps where ps: "validate_rows ps (rr_today run) = Inr ()" "n = int (length ps)"
      "sd_rows db' = map (\<lambda>p. (the (stored_row p), rr_clock run 1)) ps" "None \<notin> stored_row ` set ps"
      "distinct (map lp_account_number ps)" "rs_successful_at (sd_status db') = Some (rr_clock run 1)"
      "rs_row_count (sd_status db') = n"
      by (rule refresh_Inr) simp
    have "snapshot_row_ok (the (stored_row p))" if "p \<in> set ps" for p
      using that ps(4) validate_rows_all [OF ps(1)] stored_row_ok [of "rr_today run" p]
      by (cases "stored_row p") (auto simp: list_all_iff None_image)
    moreover have "distinct (accounts_of (sd_rows db'))" using ps(3-5) by (simp add: stored_accounts del: map_map)
    ultimately show ?thesis using ps(2,3,6,7) Pair by (simp add: snapshot_ok_def list_all_iff del: map_map)
  qed
qed

section \<open>From the report to a position\<close>

lemma find_unique:
  assumes "x \<in> set xs" and "P x" and "\<And>y. y \<in> set xs \<Longrightarrow> P y \<Longrightarrow> y = x"
  shows "find P xs = Some x"
proof (cases "find P xs")
  case None
  then show ?thesis using assms(1,2) by (simp add: find_None_iff)
next
  case (Some y)
  then have "y \<in> set xs" "P y" by (auto simp: find_Some_iff)
  then show ?thesis using Some assms(3) by simp
qed

lemma date_string_calendar:
  assumes "calendar d" and "\<not> date_is_zero d"
  shows "time_parse_dashed (date_string d) = Some d" and "time_format_dashed d = date_string d"
proof -
  have "parse_date (date_string d) (Some '''') = Inr d"
    using assms by (intro parse_date_string) (auto simp: calendar_def date_is_zero_def)
  then show "time_parse_dashed (date_string d) = Some d" by (simp add: parse_date_Inr)
  show "time_format_dashed d = date_string d" using assms(2) by (simp add: time_format_dashed_def date_string_def)
qed

text \<open>The position as the table keeps it: amounts rounded to ten decimals.\<close>

definition rounded_position :: "loan_position \<Rightarrow> loan_position" where
  "rounded_position p =
     p\<lparr>lp_principal_outstanding := round_away 10 (lp_principal_outstanding p),
       lp_principal_due := round_away 10 (lp_principal_due p), lp_interest_due := round_away 10 (lp_interest_due p),
       lp_penalty_due := round_away 10 (lp_penalty_due p)\<rparr>"

lemma report_row_dates:
  assumes "report_row d p" and "validate_row d p"
  shows "\<not> date_is_zero (lp_loan_start_date p)" and "\<not> date_is_zero (lp_as_of p)"
    and "\<not> date_after (lp_loan_start_date p) (lp_as_of p)"
proof -
  show z: "\<not> date_is_zero (lp_loan_start_date p)" and a: "\<not> date_after (lp_loan_start_date p) (lp_as_of p)"
    using assms(2) by (auto simp: validate_row_def date_after_def date_equal_def)
  have "year (lp_loan_start_date p) \<le> year (lp_as_of p)"
  proof (rule ccontr)
    assume "\<not> ?thesis"
    then have "date_key (lp_as_of p) < date_key (lp_loan_start_date p)"
      using assms(1) date_key_less_lex [of "lp_as_of p" "lp_loan_start_date p"] by (simp add: report_row_def calendar_def)
    then show False using a by (simp add: date_after_def)
  qed
  then show "\<not> date_is_zero (lp_as_of p)"
    using z assms(1) by (auto simp: date_is_zero_def report_row_def calendar_def)
qed

lemma null_string_null [simp]: "null_string (null_if_empty s) = s"
  by (simp add: null_string_def null_if_empty_def)

lemma stored_position:
  assumes "report_row d p" and "validate_row d p" and "lp_loan_start_date p \<noteq> mk_date 1 1 1"
    and "stored_row p = Some r" and "db (trim_space account) (date_string (lp_as_of p)) = Row r"
  shows "snapshot_exact_position (Some z) db account (lp_as_of p) = Inr (rounded_position p)"
proof -
  note dates = report_row_dates [OF assms(1,2)]
  have s: "time_parse_dashed (date_string (lp_as_of p)) = Some (lp_as_of p)"
    "time_parse_dashed (date_string (lp_loan_start_date p)) = Some (lp_loan_start_date p)"
    "time_format_dashed (lp_loan_start_date p) = date_string (lp_loan_start_date p)"
    using assms(1) dates by (auto simp: report_row_def date_string_calendar)
  have ok: "snapshot_row_ok r" by (rule stored_row_ok) fact+
  show ?thesis
    using assms(3-5) s dates(3) ok assms(1)
    by (cases p) (auto simp: snapshot_exact_position_def stored_row_Some rounded_position_def snapshot_row_ok_def
        balances_ok_def parse_date_def empty_position_def report_row_def not_less)
qed

lemma snapshot_query_stored:
  assumes "sd_rows db = map (\<lambda>p. (the (stored_row p), now)) ps" and "None \<notin> stored_row ` set ps"
    and "distinct (map lp_account_number ps)"
  shows "p \<in> set ps \<Longrightarrow> stored_row p = Some r \<Longrightarrow> date_string (sn_as_of r) = s \<Longrightarrow>
      snapshot_query db (lp_account_number p) s = Row r"
    and "account \<notin> lp_account_number ` set ps \<Longrightarrow> snapshot_query db account s = NoRows"
proof -
  have acc: "sn_account_number (the (stored_row q)) = lp_account_number q" if "q \<in> set ps" for q
    using that assms(2) by (cases "stored_row q") (auto simp: None_image stored_account)
  show "snapshot_query db (lp_account_number p) s = Row r"
    if p: "p \<in> set ps" "stored_row p = Some r" "date_string (sn_as_of r) = s"
  proof -
    have "find (\<lambda>(r, _). sn_account_number r = lp_account_number p \<and> date_string (sn_as_of r) = s) (sd_rows db) = Some (r, now)"
    proof (rule find_unique)
      show "(r, now) \<in> set (sd_rows db)" using p assms(1) by force
      show "case (r, now) of (r, _) \<Rightarrow> sn_account_number r = lp_account_number p \<and> date_string (sn_as_of r) = s"
        using p by (simp add: stored_account)
      fix y assume y: "y \<in> set (sd_rows db)"
        "case y of (r, _) \<Rightarrow> sn_account_number r = lp_account_number p \<and> date_string (sn_as_of r) = s"
      then obtain q where q: "q \<in> set ps" "y = (the (stored_row q), now)" using assms(1) by auto
      then have "lp_account_number q = lp_account_number p" using y(2) acc by simp
      then have "q = p" using q(1) p(1) assms(3) by (meson distinct_map inj_onD)
      then show "y = (r, now)" using q(2) p(2) by simp
    qed
    then show ?thesis by (simp add: snapshot_query_def)
  qed
  show "snapshot_query db account s = NoRows" if "account \<notin> lp_account_number ` set ps"
  proof -
    have "find (\<lambda>(r, _). sn_account_number r = account \<and> date_string (sn_as_of r) = s) (sd_rows db) = None"
      using that acc by (auto simp: find_None_iff assms(1))
    then show ?thesis by (simp add: snapshot_query_def)
  qed
qed

section \<open>Properties\<close>

text \<open>
  A report that is accepted gives at least one row and one row per account, each of the business date, with a
  trimmed account number, dates of the calendar and of years that four digits hold, amounts that are not
  negative, principal arrears within the outstanding principal and a collectability of 1 to 5; and the
  refresh's own validation refuses such rows exactly when a start date lies in the year zero.
\<close>

theorem source_parse_rows:
  assumes "source_parse uni body d = Inr ps"
  shows "ps \<noteq> [] \<and> distinct (map lp_account_number ps)
    \<and> list_all (\<lambda>p. trimmed (lp_account_number p) \<and> lp_account_number p \<noteq> '''' \<and> date_equal (lp_as_of p) d
        \<and> calendar (lp_as_of p) \<and> calendar (lp_loan_start_date p) \<and> \<not> date_after (lp_loan_start_date p) d
        \<and> position_ok p \<and> lp_source p = Some SourceTodaySnapshot) ps
    \<and> (validate_rows ps d = Inr () \<longleftrightarrow> list_all (\<lambda>p. \<not> date_is_zero (lp_loan_start_date p)) ps)"
  using source_parse_Inr [OF assms] source_parse_valid [OF assms] by (simp add: report_row_def list_all_iff)

text \<open>
  The insertion in chunks has the effect of one insertion of all rows whatever the positive size of a chunk, on a
  server that refuses a row only for its value or its key: either every row can be stored and the
  accounts differ, and all of them are stored in order, or nothing is.
\<close>

theorem snapshot_chunks_equivalent:
  assumes "0 < n"
  shows "insert_chunks n (\<lambda>_. True) now ps [] =
    (if list_all insertable ps \<and> distinct (map lp_account_number ps)
     then Inr (map (\<lambda>p. (the (stored_row p), now)) ps) else Inl [])"
  using insert_chunks_willing [OF assms, of "[]"] by (simp add: insert_rows_willing)

text \<open>
  C8. A refresh replaces the table by exactly the rows of the report or leaves every row as it was. On success
  the count returned and recorded is the number of rows, every row carries the time recorded as the last
  success, and the rows passed the validation; on failure the last success and its count are kept; and
  without the lock, or when the attempt cannot be recorded, nothing at all changes.
\<close>

theorem refresh_all_or_nothing:
  "case refresh marshal run trg att db of
     (Inr n, db') \<Rightarrow>
       \<exists>ps. rr_report run (rr_today run) = Inr ps \<and> validate_rows ps (rr_today run) = Inr () \<and> n = int (length ps)
         \<and> map (\<lambda>(r, t). (Some r, t)) (sd_rows db') = map (\<lambda>p. (stored_row p, rr_clock run 1)) ps
         \<and> rs_status (sd_status db') = ''succeeded'' \<and> rs_row_count (sd_status db') = n
         \<and> rs_successful_at (sd_status db') = Some (rr_clock run 1)
   | (Inl e, db') \<Rightarrow>
       sd_rows db' = sd_rows db \<and> rs_successful_at (sd_status db') = rs_successful_at (sd_status db)
       \<and> rs_row_count (sd_status db') = rs_row_count (sd_status db)
       \<and> (rr_lock run = LockHeld \<and> rr_attempt_ok run \<or> db' = db)"
proof (cases "refresh marshal run trg att db")
  case (Pair out db')
  show ?thesis
  proof (cases out)
    case (Inl e)
    then show ?thesis
      using Pair refresh_Inl [of marshal run trg att db e db'] refresh_unlocked [of run marshal trg att db] by auto
  next
    case (Inr n)
    have "refresh marshal run trg att db = (Inr n, db')" using Pair Inr by simp
    then obtain ps where ps: "rr_report run (rr_today run) = Inr ps" "validate_rows ps (rr_today run) = Inr ()"
      "n = int (length ps)" "sd_rows db' = map (\<lambda>p. (the (stored_row p), rr_clock run 1)) ps" "None \<notin> stored_row ` set ps"
      "sd_status db' = (sd_status db)\<lparr>rs_attempted_at := Some (rr_clock run 0), rs_successful_at := Some (rr_clock run 1),
         rs_status := ''succeeded'', rs_row_count := n, rs_error_summary := None, rs_updated_at := rr_clock run 1\<rparr>"
      by (rule refresh_Inr)
    moreover have "Some (the (stored_row p)) = stored_row p" if "p \<in> set ps" for p
      using that ps(5) by (cases "stored_row p") (auto simp: None_image)
    ultimately show ?thesis using Pair Inr by simp
  qed
qed

text \<open>
  Whatever the refreshes meet, at the start and at every tick, the scheduler keeps the tables consistent: one
  row per account, well-formed balances in every row, each row stamped with the recorded last success, and
  the recorded count equal to the number of rows.
\<close>

theorem scheduler_keeps_snapshot:
  assumes "snapshot_ok db"
  shows "snapshot_ok (run_scheduler marshal startup ticks db)"
proof -
  have step: "snapshot_ok (fold (\<lambda>run d. snd (refresh marshal run TriggerScheduled empty_attribution d)) ticks d)"
    if "snapshot_ok d" for d
    using that by (induction ticks arbitrary: d) (simp_all add: refresh_ok)
  show ?thesis
    using assms by (cases startup) (simp_all add: run_scheduler_def step refresh_ok)
qed

text \<open>
  C7. From the report to the position service: after a refresh that succeeded on a report, looking up an account
  for the business date returns the report's row of that account with its amounts rounded to ten
  decimals (unless its start date is 1 January of the year one, which the lookup takes for a missing
  date), and an account the report does not have is not found.
\<close>

theorem refresh_then_position:
  assumes "refresh marshal run trg att db = (Inr n, db')" and "source_parse uni body (rr_today run) = Inr ps"
    and "rr_report run = fetch_positions uni (Inr body)" and "civil (rr_today run)"
  shows "case find (\<lambda>p. lp_account_number p = trim_space account) ps of
      None \<Rightarrow> snapshot_exact_position (Some z) (snapshot_query db') account (rr_today run) = Inl [ErrNotFound, ErrCurrentSnapshot]
    | Some p \<Rightarrow> lp_loan_start_date p = mk_date 1 1 1
        \<or> snapshot_exact_position (Some z) (snapshot_query db') account (rr_today run) = Inr (rounded_position p)"
proof -
  obtain qs where qs: "rr_report run (rr_today run) = Inr qs" "validate_rows qs (rr_today run) = Inr ()"
    "sd_rows db' = map (\<lambda>p. (the (stored_row p), rr_clock run 1)) qs" "None \<notin> stored_row ` set qs"
    "distinct (map lp_account_number qs)"
    using assms(1) by (rule refresh_Inr)
  then have "qs = ps" using assms(2,3) by (simp add: fetch_positions_def)
  note q = qs(2-5) [unfolded this] and rows = source_parse_Inr [OF assms(2)]
  show ?thesis
  proof (cases "find (\<lambda>p. lp_account_number p = trim_space account) ps")
    case None
    then have "trim_space account \<notin> lp_account_number ` set ps" by (force simp: find_None_iff)
    then show ?thesis using None snapshot_query_stored(2) [OF q(2-4)] by (simp add: snapshot_exact_position_def)
  next
    case (Some p)
    then have p: "p \<in> set ps" "lp_account_number p = trim_space account" by (auto simp: find_Some_iff)
    have ok: "report_row (rr_today run) p" "validate_row (rr_today run) p"
      using p(1) rows validate_rows_all [OF q(1)] by (auto simp: list_all_iff)
    have today: "lp_as_of p = rr_today run"
      using ok(1) assms(4) civil_key_inject by (auto simp: report_row_def date_equal_def calendar_def)
    obtain r where r: "stored_row p = Some r" using p(1) q(3) by (cases "stored_row p") (auto simp: None_image)
    have "sn_as_of r = lp_as_of p"
      using r date_string_calendar(1) [of "lp_as_of p"] report_row_dates(2) [OF ok] ok(1)
      by (auto simp: stored_row_Some report_row_def)
    then have "snapshot_query db' (trim_space account) (date_string (lp_as_of p)) = Row r"
      using snapshot_query_stored(1) [OF q(2-4) p(1) r] p(2) by simp
    then show ?thesis
      using Some stored_position [OF ok _ r, where db = "snapshot_query db'" and account = account and z = z] today by auto
  qed
qed

section \<open>Witnesses\<close>

definition sample_report :: string where
  "sample_report = byte_order_mark
     @ ''Date_Params|Loan Account No|Start Date|Loan Outstanding|BI Collectability|Principal Arrears|Interest Arrears|''
     @ ''Penalty Arrears|Branch Code'' @ [nl]
     @ ''20260714| 77|01/02/2024|7,5|2|4|1|0|001 - Pusat'' @ [nl] @ [nl]
     @ ''2026-07-14|77|2024-02-01|7,5|2|4|1|0|001-Pusat'' @ [nl]"

definition sample_position :: loan_position where
  "sample_position = empty_position
     \<lparr>lp_as_of := mk_date 2026 7 14, lp_loan_start_date := mk_date 2024 2 1, lp_account_number := ''77'',
      lp_principal_outstanding := 15 / 2, lp_principal_due := 4, lp_interest_due := 1,
      lp_collectability_bi := 2, lp_source := Some SourceTodaySnapshot, lp_branch := ''001''\<rparr>"

definition sample_header :: "string list" where
  "sample_header = [''Date_Params'', ''Loan Account No'', ''Start Date'', ''Loan Outstanding'', ''BI Collectability'',
     ''Principal Arrears'', ''Interest Arrears'', ''Penalty Arrears'', ''Branch Code'']"

definition sample_columns :: "(string \<times> nat) list" where
  "sample_columns = [(''branch code'', 8), (''penalty arrears'', 7), (''interest arrears'', 6), (''principal arrears'', 5),
     (''bi collectability'', 4), (''loan outstanding'', 3), (''start date'', 2), (''loan account no'', 1), (''date params'', 0)]"

definition sample_lines :: "string list list" where
  "sample_lines = [[''20260714'', '' 77'', ''01/02/2024'', ''7,5'', ''2'', ''4'', ''1'', ''0'', ''001 - Pusat''],
     [''2026-07-14'', ''77'', ''2024-02-01'', ''7,5'', ''2'', ''4'', ''1'', ''0'', ''001-Pusat'']]"

lemma sample_records: 
  "csv_records snapshot_csv (csv_lines (trim_prefix byte_order_mark sample_report)) = Some (sample_header # sample_lines)"
  by code_simp

lemma sample_columns_of: "columns_of id sample_header = sample_columns"
  by code_simp

lemma sample_required: "start_column sample_columns = Some ''start date'' \<and> \<not> list_ex (\<lambda>n. map_of sample_columns n = None) required_columns"
  by code_simp

lemma sample_line_0: "source_row sample_columns ''start date'' (mk_date 2026 7 14) (sample_lines ! 0) = Inr sample_position"
  by code_simp

lemma sample_line_1: "source_row sample_columns ''start date'' (mk_date 2026 7 14) (sample_lines ! 1) = Inr sample_position"
  by code_simp

lemma sample_lines_filled: "\<not> blank_record (sample_lines ! 0) \<and> \<not> blank_record (sample_lines ! 1)"
  by code_simp

lemma sample_lines_eq: "sample_lines = [sample_lines ! 0, sample_lines ! 1]" by (simp add: sample_lines_def)

lemma sample_rows: "source_rows sample_columns ''start date'' (mk_date 2026 7 14) [] sample_lines = Inr [sample_position]"
  using sample_line_0 sample_line_1 sample_lines_filled by (subst sample_lines_eq) (simp add: same_position_def date_equal_def)

lemma sample_parse: "source_parse id sample_report (mk_date 2026 7 14) = Inr [sample_position]"
  using sample_records sample_columns_of sample_required sample_rows by (simp add: source_parse_def Let_def)

definition sample_run :: refresh_run where
  "sample_run =
     \<lparr>rr_lock = LockHeld, rr_attempt_ok = True, rr_report = fetch_positions id (Inr sample_report),
      rr_accepts = (\<lambda>_. True), rr_commits = True, rr_failure_ok = True, rr_audit_ok = True, rr_clock = (\<lambda>n. 100 + int n),
      rr_today = mk_date 2026 7 14, rr_message = (\<lambda>_. '''')\<rparr>"

definition new_snapshot_db :: snapshot_db where
  "new_snapshot_db =
     \<lparr>sd_rows = [],
      sd_status = \<lparr>rs_attempted_at = None, rs_successful_at = None, rs_status = ''never'', rs_row_count = 0,
        rs_error_summary = None, rs_updated_at = 0\<rparr>,
      sd_audit = []\<rparr>"

lemma sample_insertable: "insertable sample_position"
proof -
  have "calendar (lp_as_of sample_position)" "calendar (lp_loan_start_date sample_position)"
    "\<not> date_is_zero (lp_as_of sample_position)" "\<not> date_is_zero (lp_loan_start_date sample_position)"
    by (simp_all add: sample_position_def calendar_def civil_def date_is_zero_def days_in_month_def)
  then have "stored_row sample_position \<noteq> None" by (auto simp: stored_row_Some date_string_calendar)
  then show ?thesis
    by (simp add: insertable_def) (simp add: sample_position_def date_is_zero_def date_after_def date_key_def empty_position_def)
qed

lemma sample_valid: "validate_rows [sample_position] (mk_date 2026 7 14) = Inr ()"
  using source_parse_valid [OF sample_parse] by (simp add: sample_position_def date_is_zero_def)

lemma sample_refresh:
  "\<exists>db'. refresh (\<lambda>_. '''') sample_run TriggerManual att new_snapshot_db = (Inr 1, db')"
proof -
  let ?db1 = "snapshot_audit (\<lambda>_. '''') True att ''snapshot.refresh.started''
    (SnapshotRefresh ''manual'' 0 '''') 100 (mark_attempt 100 new_snapshot_db)"
  obtain db2 where "replace_all (\<lambda>_. True) True 101 [sample_position] ?db1 = Inr db2"
    by (simp add: replace_all_def chunk_size_def insert_chunks_willing insert_rows_willing sample_insertable)
  then show ?thesis
    by (simp add: refresh_def sample_run_def fetch_positions_def sample_parse sample_valid Let_def)
qed

theorem source_parse_rows_witness:
  "source_parse id sample_report (mk_date 2026 7 14) = Inr [sample_position] \<and> position_ok sample_position
   \<and> validate_rows [sample_position] (mk_date 2026 7 14) = Inr ()"
  using source_parse_rows [OF sample_parse] sample_parse sample_valid by simp

theorem snapshot_chunks_equivalent_witness:
  "insert_chunks 200 (\<lambda>_. True) 9 [sample_position] [] = Inr [(the (stored_row sample_position), 9)]
   \<and> insert_chunks 1 (\<lambda>_. True) 9 [sample_position, sample_position] [] = Inl []"
  using snapshot_chunks_equivalent [of 200 9 "[sample_position]"]
    snapshot_chunks_equivalent [of 1 9 "[sample_position, sample_position]"] sample_insertable by simp

theorem scheduler_keeps_snapshot_witness:
  "snapshot_ok new_snapshot_db
   \<and> snapshot_ok (run_scheduler (\<lambda>_. '''') (Some sample_run) [sample_run\<lparr>rr_lock := LockBusy\<rparr>, sample_run\<lparr>rr_commits := False\<rparr>]
       new_snapshot_db)"
proof -
  have "snapshot_ok new_snapshot_db" by (simp add: snapshot_ok_def new_snapshot_db_def)
  then show ?thesis using scheduler_keeps_snapshot by blast
qed

theorem refresh_then_position_witness:
  "snapshot_exact_position (Some ''Asia/Jakarta'')
     (snapshot_query (snd (refresh (\<lambda>_. '''') sample_run TriggerManual empty_attribution new_snapshot_db)))
     '' 77 '' (mk_date 2026 7 14) = Inr (rounded_position sample_position)"
proof -
  obtain db' where r: "refresh (\<lambda>_. '''') sample_run TriggerManual empty_attribution new_snapshot_db = (Inr 1, db')"
    using sample_refresh by blast
  have today: "rr_today sample_run = mk_date 2026 7 14" "rr_report sample_run = fetch_positions id (Inr sample_report)"
    by (simp_all add: sample_run_def)
  have p: "trim_space '' 77 '' = ''77''" by code_simp
  have "lp_account_number sample_position = ''77''" "lp_loan_start_date sample_position \<noteq> mk_date 1 1 1"
    by (simp_all add: sample_position_def mk_date_def)
  moreover have "civil (rr_today sample_run)" by (simp add: today civil_def days_in_month_def)
  ultimately show ?thesis
    using refresh_then_position [OF r, of id sample_report "[sample_position]" "''Asia/Jakarta''" "'' 77 ''"]
    by (simp add: today sample_parse p r)
qed

end
