(* ===== verification/Lps_Table.thy ===== *)
theory Lps_Table
  imports Csv
begin

text \<open>
  The tables and texts of the LPS report, \<open>src/internal/lps/generator.go\<close> and \<open>codes.go\<close>: reading a pipe-separated
  file, finding columns, indexing rows by a key, cleaning addresses, the code lists and the checks of
  the form's fields.
\<close>

section \<open>Tables\<close>

record table =
  tb_header :: "string list"
  tb_rows :: "string list list"

definition new_csv_reader :: csv_config where
  "new_csv_reader = \<lparr>cf_comma = CHR ''|'', cf_lazy = True, cf_trim = True\<rparr>"

definition parse_table :: "string \<Rightarrow> table res" where
  "parse_table body =
     (case csv_records new_csv_reader (csv_lines body) of
        Some (header # rows) \<Rightarrow> Inr \<lparr>tb_header = header, tb_rows = rows\<rparr>
      | _ \<Rightarrow> Inl [])"

fun index_from :: "nat \<Rightarrow> string list \<Rightarrow> string \<Rightarrow> nat option" where
  "index_from n [] name = None"
| "index_from n (h # hs) name = (if trim_space h = name then Some n else index_from (Suc n) hs name)"

text \<open>\<open>index\<close>: the first column of that name; -1 in the code is \<open>None\<close>.\<close>

definition table_index :: "table \<Rightarrow> string \<Rightarrow> nat option" where
  "table_index t name = index_from 0 (tb_header t) name"

definition table_require :: "table \<Rightarrow> string list \<Rightarrow> bool" where
  "table_require t columns \<longleftrightarrow> list_all (\<lambda>c. table_index t c \<noteq> None) columns"

definition value_at :: "string list \<Rightarrow> nat option \<Rightarrow> string" where
  "value_at row i = (case i of None \<Rightarrow> '''' | Some n \<Rightarrow> if n < length row then row ! n else '''')"

text \<open>\<open>transposeTable\<close>: rows by key, each a map from header to value; a later row of the key overwrites.\<close>

definition transpose_row :: "string list \<Rightarrow> string list \<Rightarrow> (string \<rightharpoonup> string) \<Rightarrow> (string \<rightharpoonup> string)" where
  "transpose_row header row m = fold (\<lambda>(i, name) m. m(name \<mapsto> value_at row (Some i))) (zip [0..<length header] header) m"

definition transpose_rows :: "nat \<Rightarrow> string list \<Rightarrow> string list list \<Rightarrow> (string \<rightharpoonup> (string \<rightharpoonup> string))" where
  "transpose_rows key header rows =
     fold (\<lambda>row result.
       let k = value_at row (Some key) in
       result(k \<mapsto> transpose_row header row (case result k of None \<Rightarrow> Map.empty | Some m \<Rightarrow> m))) rows Map.empty"

definition transpose_table :: "string \<Rightarrow> string \<Rightarrow> (string \<rightharpoonup> (string \<rightharpoonup> string)) res" where
  "transpose_table body key_column =
     (case parse_table body of Inl e \<Rightarrow> Inl e
      | Inr t \<Rightarrow> (case table_index t key_column of None \<Rightarrow> Inl []
                 | Some key \<Rightarrow> Inr (transpose_rows key (tb_header t) (tb_rows t))))"

text \<open>\<open>m[key][column]\<close>: the empty string when there is no such row or column.\<close>

definition lookup_cell :: "(string \<rightharpoonup> (string \<rightharpoonup> string)) \<Rightarrow> string \<Rightarrow> string \<Rightarrow> string" where
  "lookup_cell m key column =
     (case m key of None \<Rightarrow> '''' | Some r \<Rightarrow> (case r column of None \<Rightarrow> '''' | Some v \<Rightarrow> v))"

section \<open>Codes\<close>

definition code_set :: "string \<Rightarrow> string set" where
  "code_set codes = set (text_fields codes)"

definition valid_golongan_debitur :: string where
  "valid_golongan_debitur =
     ''0010 0020 0030 0040 0050 0060 0070 0080 0999 1010 1020 1030 2010 2020 2090 4111 4112 4113 4114 4115 4116 4119 ''
     @ ''4120 4130 4140 4151 4152 4153 4154 4155 4159 4171 4172 4173 4179 4501 4502 4503 4504 4505 4506 4507 4508 4509 ''
     @ ''4510 4511 4512 4513 4514 4515 4516 4599 5110 5120 5130 5140 5151 5152 5153 5154 5159 5199 5501 5502 5599 7110 ''
     @ ''7120 7130 7140 7151 7152 7153 7154 7159 7172 7173 7174 7190 7210 7220 7230 7240 7251 7252 7253 7254 7259 7272 ''
     @ ''7273 7290 7310 7320 7330 7340 7351 7352 7353 7354 7359 7372 7379 7390 8111 8112 8113 8114 8115 8116 8117 8118 ''
     @ ''8139 8141 8149 8151 8152 8159 8411 8412 8413 8414 8415 8416 8417 8418 8449 8451 8452 8469 8480 8611 8612 8613 ''
     @ ''8614 8615 8616 8617 8618 8619 8651 8652 8659 8670 8900 9001 9002 0600 0601 0700 0701 0901 9100 9200 9300 9400 ''
     @ ''9501 9502 9519 9611 9612 9613 9629 9690 9700''"

definition valid_dati2 :: string where
  "valid_dati2 =
     ''0000 0100 0102 0103 0106 0108 0109 0110 0111 0112 0113 0114 0115 0116 0117 0118 0119 0121 0122 0123 0180 0191 ''
     @ ''0192 0193 0194 0195 0196 0197 0198 0200 0201 0202 0203 0204 0291 0292 0293 0294 0300 0391 0392 0393 0394 0395 ''
     @ ''0396 0500 0501 0502 0503 0504 0591 0900 0901 0902 0903 0904 0905 0906 0907 0908 0909 0910 0911 0912 0913 0914 ''
     @ ''0915 0916 0917 0918 0919 0920 0921 0922 0923 0924 0925 0926 0927 0928 0929 0991 0992 0993 0994 0995 0996 1200 ''
     @ ''1201 1202 1203 1204 1205 1206 1207 1208 1209 1211 1212 1213 1214 1215 1216 1217 1218 1219 1220 1221 1222 1223 ''
     @ ''1224 1225 1226 1227 1228 1229 1230 1271 1291 1292 1293 1294 1295 1296 1297 1298 2300 2301 2302 2303 2304 2305 ''
     @ ''2306 2307 2308 2309 2391 3100 3101 3104 3105 3106 3107 3108 3109 3111 3112 3191 3192 3200 3201 3202 3203 3204 ''
     @ ''3205 3206 3207 3208 3209 3210 3211 3212 3213 3214 3215 3216 3217 3218 3219 3291 3292 3293 3294 3300 3301 3302 ''
     @ ''3303 3304 3305 3306 3307 3308 3309 3310 3311 3313 3314 3315 3316 3317 3318 3319 3321 3322 3323 3324 3325 3326 ''
     @ ''3327 3391 3392 3393 3394 3395 3396 3397 3399 3400 3401 3402 3403 3404 3405 3406 3407 3408 3409 3410 3411 3412 ''
     @ ''3491 3492 3493 3494 3495 3496 3497 3500 3501 3502 3504 3505 3508 3509 3510 3511 3512 3513 3591 3592 3600 3606 ''
     @ ''3607 3608 3609 3610 3611 3613 3614 3615 3616 3617 3618 3619 3691 3693 3694 3697 3700 3701 3702 3703 3704 3705 ''
     @ ''3706 3707 3791 3800 3801 3802 3803 3804 3805 3891 3892 3900 3901 3902 3903 3904 3905 3906 3907 3908 3909 3910 ''
     @ ''3911 3912 3913 3991 3992 5100 5101 5102 5103 5104 5105 5106 5107 5108 5109 5110 5111 5191 5192 5300 5301 5302 ''
     @ ''5303 5304 5305 5306 5307 5308 5309 5310 5311 5312 5391 5392 5400 5401 5402 5403 5404 5405 5406 5409 5410 5411 ''
     @ ''5412 5413 5491 5492 5493 5494 5500 5800 5801 5802 5803 5804 5805 5806 5807 5808 5809 5810 5811 5812 5813 5892 ''
     @ ''6000 6001 6002 6003 6004 6005 6006 6007 6008 6009 6010 6011 6012 6091 6100 6101 6102 6103 6105 6106 6107 6109 ''
     @ ''6110 6111 6112 6113 6114 6115 6116 6117 6118 6119 6121 6122 6124 6125 6191 6192 6193 6200 6202 6203 6204 6205 ''
     @ ''6206 6207 6209 6210 6211 6212 6213 6291 6292 6293 6294 6300 6301 6302 6303 6304 6305 6391 6400 6401 6402 6403 ''
     @ ''6404 6405 6406 6491 6900 6901 6903 6904 6905 6906 6907 6908 6909 6910 6911 6912 6913 6914 6915 6916 6990 6991 ''
     @ ''7100 7101 7102 7103 7104 7105 7106 7107 7108 7191 7192 7200 7201 7202 7203 7204 7205 7206 7207 7208 7291 7400 ''
     @ ''7401 7402 7403 7404 7405 7406 7407 7408 7409 7410 7411 7412 7413 7414 7415 7416 7417 7418 7419 7420 7421 7491 ''
     @ ''8100 8101 8102 8103 8104 8105 8106 8107 8108 8109 8191 8192 8200 8201 8202 8210 8211 8212 8213 8214 8215 8216 ''
     @ ''8217 8218 8221 8222 8223 8224 8226 8227 8228 8231 8232 8233 8234 8235 8236 8237 8238 8239 8240 8291 8300 8302 ''
     @ ''8303 8304 8305 8306 8307 8308 8309 8390 8391 8400 8401 8402 8403 8404 8405 8406 8407 8408 8409 8410 8411 8412 ''
     @ ''8491 9999''"

definition is_valid_golongan_debitur :: "string \<Rightarrow> bool" where
  "is_valid_golongan_debitur v \<longleftrightarrow> v \<in> code_set valid_golongan_debitur"

definition is_valid_dati2 :: "string \<Rightarrow> bool" where
  "is_valid_dati2 v \<longleftrightarrow> v \<in> code_set valid_dati2"

definition normalize_dati2 :: "string \<Rightarrow> string" where
  "normalize_dati2 v =
     (let w = (if length v = 3 then CHR ''0'' # v else v) in if is_valid_dati2 w then w else ''0000'')"

definition management_debtor_types :: "string list" where
  "management_debtor_types = [''8139'', ''0070'', ''2090'', ''7174'', ''4120'', ''4599'']"

section \<open>Texts\<close>

text \<open>
  The characters the expression \<open>disallowedAddress\<close> leaves; it removes every other byte, those of other code
  points included.
\<close>

definition is_alnum :: "char \<Rightarrow> bool" where
  "is_alnum c \<longleftrightarrow> is_digit c \<or> (65 \<le> byte c \<and> byte c \<le> 90) \<or> (97 \<le> byte c \<and> byte c \<le> 122)"

definition address_char :: "char \<Rightarrow> bool" where
  "address_char c \<longleftrightarrow> is_alnum c \<or> c \<in> set ''.,_/()& -'' \<or> c = CHR 0x27"

fun squeeze_spaces :: "string \<Rightarrow> string" where
  "squeeze_spaces [] = []"
| "squeeze_spaces (c # cs) =
     (if c = CHR '' '' \<and> cs \<noteq> [] \<and> hd cs = CHR '' '' then squeeze_spaces cs else c # squeeze_spaces cs)"

definition clean_alamat :: "string \<Rightarrow> string" where
  "clean_alamat v = trim_space (squeeze_spaces (filter address_char v))"

definition lps_digits :: "string \<Rightarrow> nat \<Rightarrow> bool" where
  "lps_digits v n \<longleftrightarrow> length v = n \<and> list_all is_digit v"

text \<open>The code points of a string; \<open>letter\<close> stands for the Unicode tables beyond ASCII.\<close>

function runes :: "string \<Rightarrow> string list" where
  "runes s = (if s = [] then [] else take (rune_width s) s # runes (drop (rune_width s) s))"
  by pat_completeness auto
termination
  by (relation "measure length") (use rune_width_bounds in force)+

declare runes.simps [simp del]

definition token_rune :: "(string \<Rightarrow> bool) \<Rightarrow> string \<Rightarrow> bool" where
  "token_rune letter r \<longleftrightarrow>
     (if length r = 1 then is_alnum (hd r) \<or> hd r = CHR ''-'' \<or> hd r = CHR ''_'' else letter r)"

definition safe_token :: "(string \<Rightarrow> bool) \<Rightarrow> string \<Rightarrow> bool" where
  "safe_token letter v \<longleftrightarrow> v \<noteq> '''' \<and> length v \<le> 32 \<and> list_all (token_rune letter) (runes v)"

definition value_if :: "bool \<Rightarrow> string \<Rightarrow> string \<Rightarrow> string" where
  "value_if condition a b = (if condition then a else b)"

definition rows_body :: "string list \<Rightarrow> string" where
  "rows_body rows = (if rows = [] then '''' else join [nl] rows @ [nl])"

section \<open>Lines and columns\<close>

text \<open>A text that can stand in a column: it contains neither the separator nor a newline.\<close>

definition column_text :: "string \<Rightarrow> bool" where
  "column_text s \<longleftrightarrow> CHR ''|'' \<notin> set s \<and> nl \<notin> set s"

lemma join_columns:
  assumes "xs \<noteq> []" and "list_all column_text xs"
  shows "split_byte (CHR ''|'') (join ''|'' xs) = xs" and "nl \<notin> set (join ''|'' xs)"
  using assms split_join [of xs "CHR ''|''"] join_set [of "''|''" xs]
  by (auto simp: list_all_iff column_text_def)

lemma column_text_subset: "set s \<subseteq> set t \<Longrightarrow> column_text t \<Longrightarrow> column_text s"
  by (auto simp: column_text_def)

lemma trim_space_sub: "set (trim_space s) \<subseteq> set s"
proof -
  have "set (strip_any ps s) \<subseteq> set s" for ps and s :: string
    using strip_any_suffix [of ps s] by (simp add: set_mono_suffix)
  then show ?thesis unfolding trim_space_def by (metis order.trans set_rev)
qed

lemma column_text_simps [simp]:
  "column_text ''''" "column_text s \<Longrightarrow> column_text (trim_space s)" "column_text s \<Longrightarrow> column_text (remove_byte c s)"
  using column_text_subset [OF trim_space_sub] column_text_subset [of "remove_byte c s" s]
  by (auto simp: column_text_def remove_byte_def)

lemma column_text_digits: "list_all is_digit s \<Longrightarrow> column_text s"
  by (auto simp: column_text_def list_all_iff is_digit_def byte_def)

lemma column_text_itoa [simp]: "column_text (itoa z)"
  using column_text_digits [OF utoa_digits] by (auto simp: itoa_def column_text_def)

section \<open>Addresses\<close>

lemma squeeze_sub: "set (squeeze_spaces s) \<subseteq> set s"
  by (induction s) auto

lemma squeeze_hd: "s \<noteq> [] \<Longrightarrow> squeeze_spaces s \<noteq> [] \<and> hd (squeeze_spaces s) = hd s"
  by (induction s) auto

fun single_spaced :: "string \<Rightarrow> bool" where
  "single_spaced (a # b # s) \<longleftrightarrow> \<not> (a = CHR '' '' \<and> b = CHR '' '') \<and> single_spaced (b # s)"
| "single_spaced _ \<longleftrightarrow> True"

lemma single_spaced_Cons: "single_spaced (a # s) \<longleftrightarrow> (s = [] \<or> \<not> (a = CHR '' '' \<and> hd s = CHR '' '') \<and> single_spaced s)"
  by (cases s) auto

lemma squeeze_single: "single_spaced (squeeze_spaces s)"
proof (induction s)
  case (Cons c s)
  then show ?case using squeeze_hd [of s] by (cases "s = []") (auto simp: single_spaced_Cons)
qed simp

lemma squeeze_fixed: "single_spaced s \<Longrightarrow> squeeze_spaces s = s"
  by (induction s) (auto simp: single_spaced_Cons)

lemma single_spaced_suffix: "suffix t s \<Longrightarrow> single_spaced s \<Longrightarrow> single_spaced t"
proof (induction s)
  case (Cons c s)
  then show ?case by (auto simp: suffix_Cons single_spaced_Cons)
qed simp

lemma single_spaced_snoc: "single_spaced (s @ [a]) \<Longrightarrow> single_spaced s"
  by (induction s) (auto simp: single_spaced_Cons)

lemma single_spaced_prefix: "prefix t s \<Longrightarrow> single_spaced s \<Longrightarrow> single_spaced t"
proof -
  assume "prefix t s" "single_spaced s"
  then obtain u where "s = t @ u" by (auto simp: prefix_def)
  with \<open>single_spaced s\<close> show ?thesis
    by (induction u arbitrary: s rule: rev_induct) (auto dest: single_spaced_snoc simp flip: append_assoc)
qed

lemma trim_space_sublist: "\<exists>u v. s = u @ trim_space s @ v"
proof -
  let ?t = "strip_any space_runes s" and ?ps = "map rev space_runes"
  obtain u where u: "s = u @ ?t" using strip_any_suffix [of space_runes s] by (auto simp: suffix_def)
  have "\<exists>v. ?t = trim_space s @ v"
    using strip_any_suffix [of ?ps "rev ?t"] by (auto simp: trim_space_def suffix_to_prefix prefix_def)
  then obtain v where "?t = trim_space s @ v" by blast
  then have "s = u @ trim_space s @ v" using u by simp
  then show ?thesis by blast
qed

lemma clean_alamat_fixed: "clean_alamat (clean_alamat v) = clean_alamat v"
proof -
  let ?s = "squeeze_spaces (filter address_char v)"
  obtain u w where s: "?s = u @ trim_space ?s @ w" using trim_space_sublist by blast
  have "single_spaced (u @ trim_space ?s @ w)" using squeeze_single [of "filter address_char v"] s by simp
  then have "single_spaced (trim_space ?s)"
    using single_spaced_prefix single_spaced_suffix by (metis prefixI suffixI append_assoc)
  moreover have "filter address_char (trim_space ?s) = trim_space ?s"
    using trim_space_sub [of ?s] squeeze_sub [of "filter address_char v"] by (auto simp: filter_id_conv)
  ultimately show ?thesis
    by (simp add: clean_alamat_def squeeze_fixed trim_space_trimmed trimmed_trim_space)
qed

lemma clean_alamat_chars: "list_all address_char (clean_alamat v)"
  using trim_space_sub [of "squeeze_spaces (filter address_char v)"] squeeze_sub [of "filter address_char v"]
  by (auto simp: clean_alamat_def list_all_iff)

lemma address_chars_column: "list_all address_char s \<Longrightarrow> column_text s"
  by (auto simp: column_text_def list_all_iff address_char_def is_alnum_def is_digit_def byte_def)

lemma clean_alamat_column [simp]: "column_text (clean_alamat v)"
  by (rule address_chars_column) (rule clean_alamat_chars)

section \<open>Files without quotation marks\<close>

text \<open>A line as the reader sees it: a newline at most at its end.\<close>

definition newline_last :: "string \<Rightarrow> bool" where
  "newline_last l \<longleftrightarrow> nl \<notin> set (butlast l)"

lemma newline_last_suffix: "suffix t l \<Longrightarrow> newline_last l \<Longrightarrow> newline_last t"
  by (auto simp: newline_last_def suffix_def butlast_append split: if_split_asm)

lemma split_lines_newline: "l \<in> set (split_lines s) \<Longrightarrow> l \<noteq> [] \<and> newline_last l"
proof (induction s arbitrary: l)
  case (Cons c s)
  then show ?case by (auto simp: newline_last_def split: list.split_asm if_split_asm)
qed simp

lemma split_lines_set: "l \<in> set (split_lines s) \<Longrightarrow> set l \<subseteq> set s"
proof (induction s arbitrary: l)
  case (Cons c s)
  then show ?case by (fastforce split: list.split_asm if_split_asm)
qed simp

lemma in_butlast_set: "x \<in> set (butlast xs) \<Longrightarrow> x \<in> set xs"
  by (rule in_set_butlastD)

lemma read_line_props: "newline_last l \<Longrightarrow> newline_last (read_line l) \<and> set (read_line l) \<subseteq> set l"
  by (cases l rule: rev_cases)
    (auto simp: read_line_def newline_last_def butlast_append dest: in_set_butlastD split: if_split_asm)

lemma csv_lines_props: "l \<in> set (csv_lines body) \<Longrightarrow> newline_last l \<and> set l \<subseteq> set body"
  using split_lines_newline split_lines_set read_line_props by (fastforce simp: csv_lines_def)

lemma drop_nl_newline: "newline_last l \<Longrightarrow> nl \<notin> set (drop_nl l) \<and> set (drop_nl l) \<subseteq> set l"
  by (cases l rule: rev_cases) (auto simp: drop_nl_def newline_last_def)

lemma cut_byte_halves:
  "cut_byte c s = (b, a, True) \<Longrightarrow> s = b @ c # a \<and> c \<notin> set b"
  "cut_byte c s = (b, a, False) \<Longrightarrow> c \<notin> set s"
  by (induction s arbitrary: b) (auto split: prod.split_asm if_split_asm)

lemma trimmed_line_suffix: "suffix (trimmed_line c l) l"
  by (simp add: trimmed_line_def strip_any_suffix)

lemma csv_fields_unquoted:
  "quote \<notin> set line \<Longrightarrow> newline_last line \<Longrightarrow> cf_comma c \<noteq> nl \<Longrightarrow> csv_fields c line rest acc = CsvRecord r rest' \<Longrightarrow>
     rest' = rest \<and> (\<forall>f \<in> set r. f \<in> set acc \<or> (cf_comma c \<notin> set f \<and> nl \<notin> set f))"
proof (induction "length line" arbitrary: line acc rule: less_induct)
  case less
  let ?l = "trimmed_line c line"
  have suf: "suffix ?l line" by (rule trimmed_line_suffix)
  then have q: "quote \<notin> set ?l" using less.prems(1) set_mono_suffix by blast
  have n: "newline_last ?l" by (rule newline_last_suffix) fact+
  have plain: "?l = [] \<or> hd ?l \<noteq> quote" using q by (cases ?l) auto
  obtain f after found where cut: "cut_byte (cf_comma c) ?l = (f, after, found)" by (metis prod.exhaust)
  show ?case
  proof (cases found)
    case True
    then have l: "?l = f @ cf_comma c # after" "cf_comma c \<notin> set f" using cut cut_byte_halves(1) by fastforce+
    then have "nl \<notin> set f" using n by (auto simp: newline_last_def butlast_append)
    moreover have "newline_last after" by (rule newline_last_suffix [OF _ n]) (simp add: l suffix_def)
    moreover have "length after < length line" using suf l(1) by (metis length_append length_Cons suffix_length_le less_add_Suc2 add_Suc_right order.strict_trans2)
    moreover have "quote \<notin> set after" "quote \<notin> set f" using q l(1) by auto
    moreover have "csv_fields c after rest (acc @ [f]) = CsvRecord r rest'"
      using less.prems(4) plain cut True q l by (auto simp: csv_fields.simps [of c line] Let_def split: if_split_asm)
    ultimately show ?thesis using less.hyps [of after "acc @ [f]"] less.prems(3) l(2) by auto
  next
    case False
    then have "cf_comma c \<notin> set ?l" using cut cut_byte_halves(2) by fastforce
    then show ?thesis
      using less.prems(4) plain cut False drop_nl_newline [OF n]
      by (auto simp: csv_fields.simps [of c line] Let_def split: if_split_asm)
  qed
qed

lemma csv_read_unquoted:
  "\<forall>l \<in> set ls. quote \<notin> set l \<and> newline_last l \<Longrightarrow> cf_comma c \<noteq> nl \<Longrightarrow> csv_read c ls = CsvRecord r rest \<Longrightarrow>
     set rest \<subseteq> set ls \<and> (\<forall>f \<in> set r. cf_comma c \<notin> set f \<and> nl \<notin> set f)"
proof (induction ls)
  case (Cons l ls)
  show ?case
  proof (cases "l = [] \<or> l = [nl]")
    case False
    then have "csv_fields c l ls [] = CsvRecord r rest" using Cons.prems(3) by simp
    then show ?thesis using csv_fields_unquoted [of l c ls "[]" r rest] Cons.prems(1,2) by auto
  qed (use Cons in auto)
qed simp

lemma csv_records_unquoted:
  "\<forall>l \<in> set ls. quote \<notin> set l \<and> newline_last l \<Longrightarrow> cf_comma c \<noteq> nl \<Longrightarrow> csv_records c ls = Some rs \<Longrightarrow>
     \<forall>r \<in> set rs. \<forall>f \<in> set r. cf_comma c \<notin> set f \<and> nl \<notin> set f"
proof (induction c ls arbitrary: rs rule: csv_records.induct)
  case (1 c ls)
  show ?case
  proof (cases "csv_read c ls")
    case (CsvRecord r rest)
    note read = csv_read_unquoted [OF "1.prems"(1,2) CsvRecord]
    obtain rs' where rs: "csv_records c rest = Some rs'" "rs = r # rs'"
      using "1.prems"(3) CsvRecord by (auto simp: csv_records.simps [of c ls])
    have "\<forall>r \<in> set rs'. \<forall>f \<in> set r. cf_comma c \<notin> set f \<and> nl \<notin> set f"
      by (rule "1.IH" [OF CsvRecord _ "1.prems"(2) rs(1)]) (use read "1.prems"(1) in blast)
    then show ?thesis using rs(2) read by auto
  qed (use "1.prems"(3) in \<open>simp_all add: csv_records.simps [of c ls]\<close>)
qed

definition unquoted :: "string \<Rightarrow> bool" where
  "unquoted body \<longleftrightarrow> quote \<notin> set body"

lemma parse_table_columns:
  assumes "parse_table body = Inr t" and "unquoted body"
  shows "\<forall>row \<in> set (tb_rows t). \<forall>f \<in> set row. column_text f"
proof -
  obtain header rows where rs: "csv_records new_csv_reader (csv_lines body) = Some (header # rows)" "tb_rows t = rows"
    using assms(1) by (auto simp: parse_table_def split: option.split_asm list.split_asm)
  have "\<forall>l \<in> set (csv_lines body). quote \<notin> set l \<and> newline_last l"
    using csv_lines_props assms(2) by (auto simp: unquoted_def)
  from csv_records_unquoted [OF this _ rs(1)] show ?thesis
    using rs(2) by (auto simp: new_csv_reader_def column_text_def)
qed

lemma value_at_column: "\<forall>f \<in> set row. column_text f \<Longrightarrow> column_text (value_at row i)"
  by (auto simp: value_at_def split: option.split)

text \<open>So are the values of a transposed table.\<close>

lemma ran_upd: "P v \<Longrightarrow> \<forall>x \<in> ran m. P x \<Longrightarrow> \<forall>x \<in> ran (m(k \<mapsto> v)). P x"
  by (auto simp: ran_def)

lemma transpose_row_ran:
  assumes "\<forall>f \<in> set row. column_text f" and "\<forall>v \<in> ran m. column_text v"
  shows "\<forall>v \<in> ran (transpose_row header row m). column_text v"
proof -
  have "\<forall>v \<in> ran (fold (\<lambda>(i, name) m. m(name \<mapsto> value_at row (Some i))) ps m). column_text v" for ps
    using assms(2)
  proof (induction ps arbitrary: m)
    case (Cons p ps)
    have "\<forall>v \<in> ran (m(snd p \<mapsto> value_at row (Some (fst p)))). column_text v"
      by (rule ran_upd) (use Cons.prems value_at_column [OF assms(1)] in auto)
    then show ?case using Cons.IH by (simp add: case_prod_beta)
  qed simp
  then show ?thesis by (simp add: transpose_row_def)
qed

lemma transpose_rows_ran:
  assumes "\<forall>row \<in> set rows. \<forall>f \<in> set row. column_text f"
  shows "\<forall>m \<in> ran (transpose_rows key header rows). \<forall>v \<in> ran m. column_text v"
proof -
  let ?step = "\<lambda>row result. let k = value_at row (Some key) in
    result(k \<mapsto> transpose_row header row (case result k of None \<Rightarrow> Map.empty | Some m \<Rightarrow> m))"
  have "\<forall>m \<in> ran (fold ?step rows result). \<forall>v \<in> ran m. column_text v"
    if "\<forall>m \<in> ran result. \<forall>v \<in> ran m. column_text v" for result
    using assms that
  proof (induction rows arbitrary: result)
    case (Cons row rows)
    have "\<forall>v \<in> ran (transpose_row header row (case result k of None \<Rightarrow> Map.empty | Some m \<Rightarrow> m)). column_text v" for k
      using Cons.prems by (intro transpose_row_ran) (auto simp: ran_def split: option.split)
    then have "\<forall>m \<in> ran (?step row result). \<forall>v \<in> ran m. column_text v"
      using Cons.prems(2) unfolding Let_def by (intro ran_upd)
    then show ?case unfolding fold_Cons o_apply by (intro Cons.IH) (use Cons.prems(1) in simp)
  qed simp
  from this [of Map.empty] show ?thesis by (simp add: transpose_rows_def)
qed

lemma lookup_cell_column:
  assumes "transpose_table body key = Inr m" and "unquoted body"
  shows "column_text (lookup_cell m k c)"
proof -
  obtain t i where t: "parse_table body = Inr t" "m = transpose_rows i (tb_header t) (tb_rows t)"
    using assms(1) by (auto simp: transpose_table_def split: sum.split_asm option.split_asm)
  have "\<forall>r \<in> ran m. \<forall>v \<in> ran r. column_text v"
    using transpose_rows_ran [OF parse_table_columns [OF t(1) assms(2)]] t(2) by simp
  then show ?thesis by (auto simp: lookup_cell_def ran_def split: option.split)
qed

end
