(* ===== verification/Go_Float.thy ===== *)
theory Go_Float
  imports Prelude "HOL-Library.Log_Nat"
begin

text \<open>
  The 64-bit floats of Go as \<open>src/internal/lps/accounts.go\<close> uses them: a sign and an exact magnitude, rounding to the
  nearest representable value with ties to even, \<open>strconv.ParseFloat\<close>, comparison, conversion to \<open>int\<close> and the verb
  \<open>%.2f\<close>. Amounts of up to 53 bits survive reading unchanged, and so do percentages of two decimals
  when they are printed again.
\<close>

datatype float64 = Finite bool rat | Infinite bool | NaN

definition pow2 :: "int \<Rightarrow> rat" where
  "pow2 e = (if 0 \<le> e then 2 ^ nat e else 1 / 2 ^ nat (- e))"

definition log2_floor :: "rat \<Rightarrow> int" where
  "log2_floor x =
     (case quotient_of x of (a, b) \<Rightarrow> let k = bitlen a - bitlen b in if pow2 k \<le> x then k else k - 1)"

definition round_even :: "rat \<Rightarrow> int" where
  "round_even q =
     (let f = \<lfloor>q\<rfloor>; d = q - of_int f in
      if d < 1 / 2 then f else if 1 / 2 < d then f + 1 else if even f then f else f + 1)"

text \<open>The exponent of the last place: 53 significant bits, and no less than that of the subnormal numbers.\<close>

definition ulp_exp :: "rat \<Rightarrow> int" where
  "ulp_exp x = max (log2_floor x - 52) (- 1074)"

definition round_mag :: "rat \<Rightarrow> rat" where
  "round_mag x = (if x = 0 then 0 else of_int (round_even (x / pow2 (ulp_exp x))) * pow2 (ulp_exp x))"

definition to_float64 :: "bool \<Rightarrow> rat \<Rightarrow> float64" where
  "to_float64 neg x = (let m = round_mag x in if pow2 1024 \<le> m then Infinite neg else Finite neg m)"

fun fl_less :: "float64 \<Rightarrow> float64 \<Rightarrow> bool" where
  "fl_less (Finite s x) (Finite t y) = ((if s then - x else x) < (if t then - y else y))"
| "fl_less (Infinite s) (Finite _ _) = s"
| "fl_less (Finite _ _) (Infinite t) = (\<not> t)"
| "fl_less (Infinite s) (Infinite t) = (s \<and> \<not> t)"
| "fl_less _ _ = False"

abbreviation fl_zero :: float64 where "fl_zero \<equiv> Finite False 0"
abbreviation fl_one :: float64 where "fl_one \<equiv> Finite False 1"

fun fl_times_100 :: "float64 \<Rightarrow> float64" where
  "fl_times_100 (Finite s x) = to_float64 s (x * 100)"
| "fl_times_100 f = f"

text \<open>
  \<open>int(f)\<close> drops the fraction; what it gives for a value outside of \<open>int\<close> is left to the implementation, \<open>conv\<close>.
\<close>

definition fl_int :: "(float64 \<Rightarrow> int) \<Rightarrow> float64 \<Rightarrow> int" where
  "fl_int conv f =
     (case f of Finite s x \<Rightarrow> let t = (if s then - \<lfloor>x\<rfloor> else \<lfloor>x\<rfloor>) in if in_int64 t then t else conv f | _ \<Rightarrow> conv f)"

definition format_2f :: "float64 \<Rightarrow> string" where
  "format_2f f =
     (case f of NaN \<Rightarrow> ''NaN'' | Infinite s \<Rightarrow> (if s then ''-Inf'' else ''+Inf'')
      | Finite s x \<Rightarrow>
          let q = round_even (x * 100) in
          (if s then ''-'' else '''') @ itoa (q div 100) @ ''.'' @ pad_zero 2 (itoa (q mod 100)))"

section \<open>Reading\<close>

definition float_digit :: "bool \<Rightarrow> char \<Rightarrow> nat option" where
  "float_digit hex c =
     (if is_digit c then Some (digit_value c)
      else if hex \<and> byte (CHR ''a'') \<le> byte (ascii_lower c) \<and> byte (ascii_lower c) \<le> byte (CHR ''f'')
      then Some (byte (ascii_lower c) - byte (CHR ''a'') + 10) else None)"

text \<open>The digits of a number: whether there were any, their value, how many follow the point, and the rest.\<close>

fun mantissa :: "bool \<Rightarrow> bool \<Rightarrow> bool \<Rightarrow> nat \<Rightarrow> nat \<Rightarrow> string \<Rightarrow> bool \<times> nat \<times> nat \<times> string" where
  "mantissa hex dot dg v k [] = (dg, v, k, [])"
| "mantissa hex dot dg v k (c # cs) =
     (if c = CHR ''_'' then mantissa hex dot dg v k cs
      else if c = CHR ''.'' then (if dot then (dg, v, k, c # cs) else mantissa hex True dg v k cs)
      else case float_digit hex c of None \<Rightarrow> (dg, v, k, c # cs)
           | Some d \<Rightarrow> mantissa hex dot True (v * (if hex then 16 else 10) + d) (if dot then Suc k else k) cs)"

fun exponent_digits :: "int \<Rightarrow> string \<Rightarrow> int \<times> string" where
  "exponent_digits e [] = (e, [])"
| "exponent_digits e (c # cs) =
     (if c = CHR ''_'' then exponent_digits e cs
      else if is_digit c then exponent_digits (if e < 10000 then e * 10 + int (digit_value c) else e) cs
      else (e, c # cs))"

definition split_sign :: "string \<Rightarrow> bool \<times> string" where
  "split_sign s = (if s \<noteq> [] \<and> hd s = CHR ''-'' then (True, tl s) else if s \<noteq> [] \<and> hd s = CHR ''+'' then (False, tl s) else (False, s))"

definition parse_exponent :: "bool \<Rightarrow> string \<Rightarrow> (int \<times> string) option" where
  "parse_exponent hex s =
     (if s \<noteq> [] \<and> ascii_lower (hd s) = (if hex then CHR ''p'' else CHR ''e'') then
        (case split_sign (tl s) of (neg, t) \<Rightarrow>
           if t = [] \<or> \<not> is_digit (hd t) then None
           else case exponent_digits 0 t of (e, rest) \<Rightarrow> Some (if neg then - e else e, rest))
      else if hex then None else Some (0, s))"

text \<open>\<open>underscoreOK\<close>: the last character seen is a digit, an underscore or neither.\<close>

fun underscores_separate :: "bool \<Rightarrow> char \<Rightarrow> string \<Rightarrow> bool" where
  "underscores_separate hex saw [] = (saw \<noteq> CHR ''_'')"
| "underscores_separate hex saw (c # cs) =
     (if float_digit hex c \<noteq> None then underscores_separate hex (CHR ''0'') cs
      else if c = CHR ''_'' then saw = CHR ''0'' \<and> underscores_separate hex (CHR ''_'') cs
      else saw \<noteq> CHR ''_'' \<and> underscores_separate hex (CHR ''!'') cs)"

definition base_prefix :: "string \<Rightarrow> string \<Rightarrow> bool" where
  "base_prefix letters s \<longleftrightarrow> 2 \<le> length s \<and> s ! 0 = CHR ''0'' \<and> ascii_lower (s ! 1) \<in> set letters"

definition underscore_ok :: "string \<Rightarrow> bool" where
  "underscore_ok s =
     (let t = snd (split_sign s) in
      if base_prefix ''box'' t then underscores_separate (base_prefix ''x'' t) (CHR ''0'') (drop 2 t)
      else underscores_separate False (CHR ''^'') t)"

text \<open>\<open>strconv.ParseFloat\<close>; an error, of syntax or of range, is \<open>None\<close>.\<close>

definition parse_float :: "string \<Rightarrow> float64 option" where
  "parse_float s =
     (let (neg, t) = split_sign s; low = map ascii_lower t; hex = base_prefix ''x'' t \<and> 2 < length t in
      if low = ''inf'' \<or> low = ''infinity'' then Some (Infinite neg)
      else if map ascii_lower s = ''nan'' then Some NaN
      else case mantissa hex False False 0 0 (if hex then drop 2 t else t) of (dg, v, k, rest) \<Rightarrow>
        if \<not> dg then None
        else case parse_exponent hex rest of None \<Rightarrow> None
        | Some (e, rest') \<Rightarrow>
            if rest' \<noteq> [] \<or> (CHR ''_'' \<in> set s \<and> \<not> underscore_ok s) then None
            else
              let scale = (if hex then pow2 e else if 0 \<le> e then 10 ^ nat e else 1 / 10 ^ nat (- e));
                  f = to_float64 neg (of_nat v / (if hex then 16 else 10) ^ k * scale)
              in if f = Infinite neg then None else Some f)"

section \<open>Rounding\<close>

lemma pow2_pos [simp]: "0 < pow2 e" "pow2 e \<noteq> 0"
  by (simp_all add: pow2_def)

lemma pow2_Suc: "pow2 (e + 1) = 2 * pow2 e"
proof (cases "0 \<le> e")
  case True
  then show ?thesis by (simp add: pow2_def nat_add_distrib)
next
  case False
  then have "nat (- e) = Suc (nat (- (e + 1)))" by simp
  then show ?thesis using False by (cases "e = -1") (auto simp: pow2_def)
qed

lemma pow2_add: "pow2 (a + int n) = pow2 a * 2 ^ n"
proof (induction n)
  case (Suc n)
  have "pow2 (a + int (Suc n)) = pow2 ((a + int n) + 1)" by (simp add: algebra_simps)
  then show ?case using Suc by (simp add: pow2_Suc)
qed simp

lemma pow2_diff: "pow2 (a - b) = pow2 a / pow2 b"
proof (cases "b \<le> a")
  case True
  then have "a = b + int (nat (a - b))" by simp
  then have "pow2 a = pow2 b * 2 ^ nat (a - b)" using pow2_add by metis
  then show ?thesis using True by (simp add: pow2_def [of "a - b"])
next
  case False
  then have "b = a + int (nat (b - a))" by simp
  then have "pow2 b = pow2 a * 2 ^ nat (b - a)" using pow2_add by metis
  then show ?thesis using False by (simp add: pow2_def [of "a - b"])
qed

lemma pow2_mono: "a \<le> b \<Longrightarrow> pow2 a \<le> pow2 b"
  using pow2_add [of a "nat (b - a)"] by simp

lemma bitlen_rat:
  assumes "0 < a"
  shows "pow2 (bitlen a - 1) \<le> of_int a" and "rat_of_int a < pow2 (bitlen a)"
proof -
  have "0 < bitlen a" using assms bitlen_nonneg bitlen_eq_zero_iff [of a] by (metis less_le not_le)
  moreover have "2 ^ nat (bitlen a - 1) \<le> a \<and> a < 2 ^ nat (bitlen a)" using bitlen_bounds [OF assms] .
  ultimately show "pow2 (bitlen a - 1) \<le> of_int a" "rat_of_int a < pow2 (bitlen a)"
    by (simp_all add: pow2_def)
qed

lemma log2_floor_bounds:
  assumes "0 < x"
  shows "pow2 (log2_floor x) \<le> x" and "x < pow2 (log2_floor x + 1)"
proof -
  obtain a b where ab: "quotient_of x = (a, b)" by (cases "quotient_of x")
  have b: "0 < b" and x: "x = of_int a / of_int b" using quotient_of_denom_pos [OF ab] quotient_of_div [OF ab] by auto
  then have a: "0 < a" using assms by (simp add: zero_less_divide_iff)
  let ?k = "bitlen a - bitlen b"
  have low: "pow2 (?k - 1) \<le> x"
  proof -
    have "pow2 (?k - 1) = pow2 (bitlen a - 1) / pow2 (bitlen b)" using pow2_diff [of "bitlen a - 1" "bitlen b"] by (simp add: algebra_simps)
    also have "\<dots> \<le> of_int a / of_int b" using bitlen_rat [OF a] bitlen_rat [OF b] a b by (intro frac_le) auto
    finally show ?thesis by (simp add: x)
  qed
  have high: "x < pow2 (?k + 1)"
  proof -
    have "of_int a / of_int b < pow2 (bitlen a) / pow2 (bitlen b - 1)"
      using bitlen_rat [OF a] bitlen_rat [OF b] a by (intro frac_less) auto
    also have "\<dots> = pow2 (?k + 1)" using pow2_diff [of "bitlen a" "bitlen b - 1"] by (simp add: algebra_simps)
    finally show ?thesis by (simp add: x)
  qed
  show "pow2 (log2_floor x) \<le> x" "x < pow2 (log2_floor x + 1)"
    using low high by (auto simp: log2_floor_def ab Let_def)
qed

lemma log2_floor_less: "0 < x \<Longrightarrow> x < pow2 k \<Longrightarrow> log2_floor x < k"
  using log2_floor_bounds(1) [of x] pow2_mono [of k "log2_floor x"] by (meson not_less order.strict_trans2 order.trans)

lemma round_even_int [simp]: "round_even (of_int z) = z"
  by (simp add: round_even_def)

lemma round_even_error: "\<bar>of_int (round_even q) - q\<bar> \<le> 1 / 2"
proof -
  have "of_int \<lfloor>q\<rfloor> \<le> q" "q < of_int \<lfloor>q\<rfloor> + 1" by linarith+
  then show ?thesis by (auto simp: round_even_def Let_def)
qed

lemma round_even_near: "\<bar>q - of_int z\<bar> < 1 / 2 \<Longrightarrow> round_even q = z"
proof -
  assume "\<bar>q - of_int z\<bar> < 1 / 2"
  then have "\<bar>rat_of_int (round_even q) - of_int z\<bar> < 1"
    using round_even_error [of q] by linarith
  then have "\<bar>rat_of_int (round_even q - z)\<bar> < 1" by simp
  then show ?thesis by linarith
qed

lemma round_mag_error: "0 < x \<Longrightarrow> \<bar>round_mag x - x\<bar> \<le> pow2 (ulp_exp x) / 2"
proof -
  assume x: "0 < x"
  let ?u = "pow2 (ulp_exp x)"
  have "round_mag x - x = (of_int (round_even (x / ?u)) - x / ?u) * ?u" using x by (simp add: round_mag_def algebra_simps)
  then have "\<bar>round_mag x - x\<bar> = \<bar>of_int (round_even (x / ?u)) - x / ?u\<bar> * ?u" by (simp add: abs_mult less_imp_le)
  also have "\<dots> \<le> (1 / 2) * ?u" by (intro mult_right_mono round_even_error) (simp add: less_imp_le)
  finally show ?thesis by simp
qed

text \<open>Above the subnormal numbers the error is at most half a unit in the 53rd bit.\<close>

lemma round_mag_relative:
  assumes "pow2 (- 1022) \<le> x"
  shows "\<bar>round_mag x - x\<bar> \<le> x / 2 ^ 53"
proof -
  have x: "0 < x" using assms pow2_pos(1) [of "- 1022"] by linarith
  have "- 1022 < log2_floor x + 1"
  proof (rule ccontr)
    assume "\<not> ?thesis"
    then have "pow2 (log2_floor x + 1) \<le> pow2 (- 1022)" by (intro pow2_mono) simp
    then show False using log2_floor_bounds(2) [OF x] assms by linarith
  qed
  then have u: "ulp_exp x = log2_floor x - 52" by (simp add: ulp_exp_def)
  have "pow2 (log2_floor x - 52) = pow2 (log2_floor x) / 2 ^ 52" using pow2_diff [of "log2_floor x" 52] by (simp add: pow2_def [of 52])
  then have "pow2 (ulp_exp x) / 2 \<le> x / 2 ^ 53" using log2_floor_bounds(1) [OF x] u by simp
  then show ?thesis using round_mag_error [OF x] by linarith
qed

lemma round_mag_nat:
  assumes "n < 2 ^ 53"
  shows "round_mag (of_nat n) = of_nat n"
proof (cases "n = 0")
  case False
  let ?x = "rat_of_nat n"
  have "?x < 2 ^ 53" using assms by (metis of_nat_less_iff of_nat_numeral of_nat_power)
  then have "log2_floor ?x < 53" using False by (intro log2_floor_less) (simp_all add: pow2_def)
  then have "ulp_exp ?x \<le> 0" by (simp add: ulp_exp_def)
  then have "pow2 (ulp_exp ?x) = 1 / 2 ^ nat (- ulp_exp ?x)" by (auto simp: pow2_def)
  then have "?x / pow2 (ulp_exp ?x) = of_int (int n * 2 ^ nat (- ulp_exp ?x))" by simp
  then have "round_even (?x / pow2 (ulp_exp ?x)) = int n * 2 ^ nat (- ulp_exp ?x)" by (simp only: round_even_int)
  then show ?thesis using False \<open>pow2 (ulp_exp ?x) = _\<close> by (simp add: round_mag_def)
qed (simp add: round_mag_def)

lemma to_float64_nat: "n < 2 ^ 53 \<Longrightarrow> to_float64 s (of_nat n) = Finite s (of_nat n)"
proof -
  assume n: "n < 2 ^ 53"
  then have "rat_of_nat n < 2 ^ 53" by (metis of_nat_less_iff of_nat_numeral of_nat_power)
  also have "(2::rat) ^ 53 \<le> 2 ^ 1024" by (intro power_increasing) simp_all
  finally show ?thesis by (simp add: to_float64_def round_mag_nat [OF n] pow2_def Let_def)
qed

section \<open>Decimal texts\<close>

lemma mantissa_digits:
  "list_all is_digit s \<Longrightarrow>
     mantissa hex dot dg v k (s @ rest) =
       mantissa hex dot (dg \<or> s \<noteq> []) (if hex then foldl (\<lambda>a c. a * 16 + digit_value c) v s else digits_value_from v s)
         (if dot then k + length s else k) rest"
proof (induction s arbitrary: dg v k)
  case (Cons c s)
  then have "c \<noteq> CHR ''_''" "c \<noteq> CHR ''.''" "is_digit c" by (auto simp: is_digit_def byte_def)
  then show ?case using Cons by (simp add: float_digit_def mult.commute)
qed simp

lemma ascii_lower_digit: "is_digit c \<or> c = CHR ''.'' \<Longrightarrow> ascii_lower c = c"
  by (auto simp: ascii_lower_def is_digit_def byte_def)

text \<open>A text of digits with at most one point between them is read as the number it denotes, rounded once.\<close>

lemma parse_float_decimal:
  assumes i: "i \<noteq> []" "list_all is_digit i" and f: "list_all is_digit f"
    and s: "s = i @ CHR ''.'' # f \<or> s = i \<and> f = []"
    and fin: "to_float64 False (of_nat (digits_value (i @ f)) / 10 ^ length f) \<noteq> Infinite False"
  shows "parse_float s = Some (to_float64 False (of_nat (digits_value (i @ f)) / 10 ^ length f))"
proof -
  obtain c cs where c: "i = c # cs" "is_digit c" using i by (cases i) auto
  have all: "\<forall>x \<in> set s. is_digit x \<or> x = CHR ''.''" using i f s by (auto simp: list_all_iff)
  then have low: "map ascii_lower s = s" by (simp add: map_idI ascii_lower_digit)
  have sgn: "split_sign s = (False, s)" using c s by (auto simp: split_sign_def)
  have hd: "s \<noteq> []" "is_digit (hd s)" using c s by auto
  then have "s \<noteq> ''inf''" "s \<noteq> ''infinity''" "s \<noteq> ''nan''" by (auto simp: is_digit_def byte_def)
  moreover have "\<not> base_prefix ''x'' s"
  proof
    assume b: "base_prefix ''x'' s"
    then have "s ! 1 \<in> set s" by (simp add: base_prefix_def)
    then have "ascii_lower (s ! 1) = s ! 1" using all ascii_lower_digit by blast
    then have "s ! 1 = CHR ''x''" using b by (simp add: base_prefix_def)
    with \<open>s ! 1 \<in> set s\<close> show False using all by (auto simp: is_digit_def byte_def)
  qed
  moreover have "CHR ''_'' \<notin> set s" using all by (auto simp: is_digit_def byte_def)
  moreover have "mantissa False False False 0 0 s = (True, digits_value (i @ f), length f, [])"
    using s mantissa_digits [OF i(2), of False False False 0 0 "[]"] mantissa_digits [OF i(2), of False False False 0 0 "CHR ''.'' # f"]
      mantissa_digits [OF f, of False True True "digits_value i" 0 "[]"] i(1) digits_value_from_eq [of "digits_value i" f]
      digits_value_append [of i f]
    by (auto simp: digits_value_def)
  ultimately show ?thesis
    using fin by (simp add: parse_float_def sgn low Let_def parse_exponent_def)
qed

lemma parse_float_nat:
  assumes "s \<noteq> []" and "list_all is_digit s" and "digits_value s < 2 ^ 53"
  shows "parse_float s = Some (Finite False (of_nat (digits_value s)))"
  using parse_float_decimal [OF assms(1,2), of "[]" s] to_float64_nat [OF assms(3), of False] by simp

text \<open>Two decimals are printed as they were read, as long as the value has at most 51 bits before scaling.\<close>

lemma cents_float:
  assumes "n < 2 ^ 51"
  shows "\<exists>m. to_float64 False (of_nat n / 100) = Finite False m \<and> round_even (m * 100) = int n"
proof (cases "n = 0")
  case True
  then show ?thesis using round_even_int [of 0] by (simp add: to_float64_def round_mag_def pow2_def Let_def)
next
  case False
  let ?x = "rat_of_nat n / 100"
  have n: "rat_of_nat n < 2 ^ 51" using assms by (metis of_nat_less_iff of_nat_numeral of_nat_power)
  have "pow2 (- 1022) \<le> pow2 (- 7)" by (rule pow2_mono) simp
  also have "pow2 (- 7) \<le> ?x" using False by (simp add: pow2_def field_simps)
  finally have e: "\<bar>round_mag ?x - ?x\<bar> \<le> ?x / 2 ^ 53" by (rule round_mag_relative)
  have "?x / 2 ^ 53 * 100 = of_nat n / 2 ^ 53" by simp
  also have "\<dots> < 1 / 2" using n by simp
  finally have "\<bar>round_mag ?x - ?x\<bar> * 100 < 1 / 2" using mult_right_mono [OF e, of 100] by linarith
  then have near: "\<bar>round_mag ?x * 100 - of_int (int n)\<bar> < 1 / 2" by (simp add: abs_if split: if_split_asm)
  have "round_mag ?x < 2 ^ 51" using e n by (simp add: abs_if split: if_split_asm)
  also have "(2::rat) ^ 51 \<le> 2 ^ 1024" by (intro power_increasing) simp_all
  finally show ?thesis using round_even_near [OF near] by (simp add: to_float64_def Let_def pow2_def)
qed

lemma format_2f_cents:
  assumes "n < 2 ^ 51"
  shows "format_2f (to_float64 False (of_nat n / 100)) = utoa (n div 100) @ ''.'' @ pad_zero 2 (utoa (n mod 100))"
proof -
  obtain m where "to_float64 False (of_nat n / 100) = Finite False m" "round_even (m * 100) = int n"
    using cents_float [OF assms] by blast
  moreover have "int n div 100 = int (n div 100)" "int n mod 100 = int (n mod 100)" by (simp_all add: zdiv_int zmod_int)
  ultimately show ?thesis by (simp add: format_2f_def Let_def itoa_def)
qed

end
