(* ===== verification/Lps_Accounts.thy ===== *)
theory Lps_Accounts
  imports Lps_Table Go_Float Evidence
begin

text \<open>
  The account files of the LPS report: the guaranteed rates (\<open>src/internal/lps/rates.go\<close>), the savings and deposits (DSN)
  and the loans (DK) of \<open>accounts.go\<close>. Amounts are the floats of \<open>Go_Float\<close>. The HTTP reply and its JSON
  decoding are parameters.
\<close>

section \<open>Rates\<close>

text \<open>Layouts \<open>2006-01-02T15:04:05\<close> and RFC 3339: an hour of one or two digits, and a fraction after the seconds.\<close>

definition below_60 :: "string \<Rightarrow> bool" where
  "below_60 s \<longleftrightarrow> length s = 2 \<and> list_all is_digit s \<and> digits_value s < 60"

definition drop_fraction :: "string \<Rightarrow> string" where
  "drop_fraction s =
     (if 2 \<le> length s \<and> (s ! 0 = CHR ''.'' \<or> s ! 0 = CHR '','') \<and> is_digit (s ! 1) then dropWhile is_digit (tl s) else s)"

definition parse_clock :: "string \<Rightarrow> string option" where
  "parse_clock s =
     (let hour = takeWhile is_digit (take 2 (tl s)); r = drop (Suc (length hour)) s in
      if s \<noteq> [] \<and> hd s = CHR ''T'' \<and> hour \<noteq> [] \<and> digits_value hour < 24 \<and> 6 \<le> length r \<and> r ! 0 = CHR '':''
         \<and> below_60 (take 2 (drop 1 r)) \<and> r ! 3 = CHR '':'' \<and> below_60 (take 2 (drop 4 r))
      then Some (drop_fraction (drop 6 r)) else None)"

definition zone_text :: "string \<Rightarrow> bool" where
  "zone_text s \<longleftrightarrow>
     s = ''Z'' \<or> (length s = 6 \<and> s ! 0 \<in> {CHR ''+'', CHR ''-''} \<and> s ! 3 = CHR '':'' \<and> list_all is_digit (take 2 (drop 1 s) @ drop 4 s)
                \<and> digits_value (take 2 (drop 1 s)) \<le> 24 \<and> digits_value (drop 4 s) \<le> 60)"

definition parse_lps_rate_date :: "string \<Rightarrow> date option" where
  "parse_lps_rate_date v =
     (if v = '''' then None
      else case (time_parse_dashed (take 10 v), parse_clock (drop 10 v)) of
        (Some d, Some rest) \<Rightarrow> if rest = '''' \<or> zone_text rest then Some d else None
      | _ \<Rightarrow> (case time_parse_dashed v of Some d \<Rightarrow> Some d | None \<Rightarrow> time_parse_compact v))"

record rate_entry =
  re_date :: date
  re_bpr :: float64

fun rate_entries :: "(string \<times> float64) list \<Rightarrow> rate_entry list res" where
  "rate_entries [] = Inr []"
| "rate_entries ((start, rate) # rows) =
     (if trim_space start = '''' then rate_entries rows
      else case parse_lps_rate_date (trim_space start) of None \<Rightarrow> Inl []
           | Some d \<Rightarrow> (case rate_entries rows of Inl e \<Rightarrow> Inl e | Inr es \<Rightarrow> Inr (\<lparr>re_date = d, re_bpr = rate\<rparr> # es)))"

text \<open>\<open>Rates\<close> from the status and body of the reply.\<close>

definition provider_rates :: "(string \<Rightarrow> (string \<times> float64) list option) \<Rightarrow> (int \<times> string) res \<Rightarrow> rate_entry list res" where
  "provider_rates decode reply =
     (case reply of Inl e \<Rightarrow> Inl e
      | Inr (status, body) \<Rightarrow>
          if status < 200 \<or> status \<ge> 300 then Inl []
          else case decode body of None \<Rightarrow> Inl []
          | Some rows \<Rightarrow> (case rate_entries rows of Inl e \<Rightarrow> Inl e | Inr [] \<Rightarrow> Inl [] | Inr es \<Rightarrow> Inr es))"

section \<open>Numbers\<close>

definition string_to_float :: "string \<Rightarrow> float64" where
  "string_to_float v = (case parse_float (remove_byte (CHR '','') v) of None \<Rightarrow> fl_zero | Some f \<Rightarrow> f)"

definition parse_percentage :: "string \<Rightarrow> float64 res" where
  "parse_percentage v =
     (let raw = trim_space v; has_percent = suffix ''%'' raw;
          raw2 = (if has_percent then trim_space (trim_suffix ''%'' raw) else raw) in
      if raw = '''' then Inl []
      else case parse_float (replace_byte (CHR '','') (CHR ''.'') raw2) of None \<Rightarrow> Inl []
      | Some parsed \<Rightarrow> Inr (if \<not> has_percent \<and> fl_less fl_zero parsed \<and> fl_less parsed fl_one then fl_times_100 parsed else parsed))"

section \<open>Rows of accounts\<close>

text \<open>
  The loop the three sources share: a row without CIF is skipped, the CIF is remembered, and a row without
  account number gives no line.
\<close>

fun account_lines ::
  "(string list \<Rightarrow> string) \<Rightarrow> (string list \<Rightarrow> string) \<Rightarrow> (string list \<Rightarrow> string list res) \<Rightarrow> string list list \<Rightarrow> (string list list \<times> string set) res" where
  "account_lines cif account line [] = Inr ([], {})"
| "account_lines cif account line (row # rows) =
     (if cif row = '''' then account_lines cif account line rows
      else if account row = '''' then
        (case account_lines cif account line rows of Inl e \<Rightarrow> Inl e | Inr (ls, cifs) \<Rightarrow> Inr (ls, insert (cif row) cifs))
      else case line row of Inl e \<Rightarrow> Inl e
      | Inr l \<Rightarrow> (case account_lines cif account line rows of Inl e \<Rightarrow> Inl e | Inr (ls, cifs) \<Rightarrow> Inr (l # ls, insert (cif row) cifs)))"

definition dsn_columns :: "string list" where
  "dsn_columns = [''cif_no'', ''acc_no'', ''product'', ''start_date'', ''interest_rate'', ''nominal'', ''blocked_nominal'', ''end_date'']"

definition rate_by_date :: "rate_entry list \<Rightarrow> string \<Rightarrow> float64" where
  "rate_by_date rates key =
     (case fold (\<lambda>e m. m(time_format_dashed (re_date e) \<mapsto> re_bpr e)) rates Map.empty key of None \<Rightarrow> fl_zero | Some r \<Rightarrow> r)"

definition reporting_rate_key :: "string \<Rightarrow> string" where
  "reporting_rate_key reporting_date =
     (case parse_lps_rate_date reporting_date of Some d \<Rightarrow> time_format_dashed d | None \<Rightarrow> reporting_date)"

definition fund_status :: "string \<Rightarrow> string" where
  "fund_status product =
     (if list_ex (\<lambda>p. prefix p product) [''103'', ''114'', ''115'', ''116'', ''117'', ''118''] then ''B'' else ''S'')"

text \<open>The columns of a savings account; \<open>cell\<close> reads a named column of the row.\<close>

definition savings_line ::
  "(float64 \<Rightarrow> int) \<Rightarrow> (string \<rightharpoonup> (string \<rightharpoonup> string)) \<Rightarrow> string \<Rightarrow> float64 \<Rightarrow> (string \<Rightarrow> string) \<Rightarrow> string list res" where
  "savings_line conv standing reporting_date rate cell =
     (let cif = trim_space (cell ''cif_no''); account = trim_space (cell ''acc_no'');
          fund = fund_status (cell ''product'');
          ordered = lookup_cell standing account ''End Date'';
          end_date = (if fund = ''B'' \<and> ordered \<noteq> '''' then ordered else reporting_date);
          blocked = string_to_float (cell ''blocked_nominal'');
          block_reason = (if fl_less fl_zero blocked then ''99'' else '''');
          nominal = string_to_float (cell ''nominal'') in
      case parse_percentage (cell ''interest_rate'') of Inl e \<Rightarrow> Inl e
      | Inr interest_rate \<Rightarrow>
          Inr [''D'', ''R'', '''', cif, ''TAB'', cell ''acc_no'', fund, remove_byte (CHR ''-'') reporting_date, ''1'',
               format_2f interest_rate, ''0'', format_2f rate, ''1'', itoa (fl_int conv nominal), itoa (fl_int conv blocked),
               block_reason, ''0'', '''', remove_byte (CHR ''-'') end_date])"

definition deposit_line ::
  "(float64 \<Rightarrow> int) \<Rightarrow> (string \<rightharpoonup> (string \<rightharpoonup> string)) \<Rightarrow> string \<Rightarrow> (string \<Rightarrow> float64) \<Rightarrow> (string \<Rightarrow> string) \<Rightarrow> string list res" where
  "deposit_line conv balances reporting_date rate_of cell =
     (let cif = trim_space (cell ''cif_no''); account = trim_space (cell ''acc_no'');
          start_date = trim_space (cell ''start_date''); lps_rate = rate_of start_date;
          nominal = string_to_float (cell ''nominal'');
          accrued = string_to_float (lookup_cell balances account ''Accrued Interest'');
          last_accrual = (if fl_less fl_zero accrued then reporting_date else '''') in
      case parse_percentage (cell ''interest_rate'') of Inl e \<Rightarrow> Inl e
      | Inr interest_rate \<Rightarrow>
          Inr [''D'', ''R'', '''', cif, ''DEP'', account, ''B'', remove_byte (CHR ''-'') start_date, ''1'',
               format_2f interest_rate, ''0'', format_2f lps_rate, (if fl_less lps_rate interest_rate then ''2.B'' else ''1''),
               itoa (fl_int conv nominal), ''0'', '''', itoa (fl_int conv accrued), last_accrual,
               remove_byte (CHR ''-'') (cell ''end_date'')])"

definition build_dsn ::
  "(float64 \<Rightarrow> int) \<Rightarrow> string \<Rightarrow> string \<Rightarrow> string \<Rightarrow> string \<Rightarrow> string \<Rightarrow> rate_entry list \<Rightarrow> (string list \<times> string set) res" where
  "build_dsn conv savings_body deposit_body balance_body standing_body reporting_date rates =
     (case parse_table savings_body of Inl e \<Rightarrow> Inl e | Inr savings \<Rightarrow>
      case parse_table deposit_body of Inl e \<Rightarrow> Inl e | Inr deposits \<Rightarrow>
      if list_ex (\<lambda>c. table_index savings c = None \<or> table_index deposits c = None
                    \<or> table_index savings c \<noteq> table_index deposits c) dsn_columns then Inl []
      else
      case transpose_table balance_body ''Account No'' of Inl e \<Rightarrow> Inl e | Inr balances \<Rightarrow>
      case transpose_table standing_body ''Destination Account Number'' of Inl e \<Rightarrow> Inl e | Inr standing \<Rightarrow>
      let cell = (\<lambda>row c. value_at row (table_index savings c));
          cif = (\<lambda>row. trim_space (cell row ''cif_no'')); account = (\<lambda>row. trim_space (cell row ''acc_no''));
          rate = rate_by_date rates in
      case account_lines cif account
             (\<lambda>row. savings_line conv standing reporting_date (rate (reporting_rate_key reporting_date)) (cell row))
             (tb_rows savings) of Inl e \<Rightarrow> Inl e | Inr (ls1, cifs1) \<Rightarrow>
      case account_lines cif account (\<lambda>row. deposit_line conv balances reporting_date rate (cell row)) (tb_rows deposits) of
        Inl e \<Rightarrow> Inl e
      | Inr (ls2, cifs2) \<Rightarrow> Inr (map (join ''|'') (ls1 @ ls2), cifs1 \<union> cifs2))"

definition dk_columns :: "string list" where
  "dk_columns = [''cifno'', ''loan_no'', ''collectibility'', ''credit_limit_effective'', ''outstanding'', ''principal_arrears'',
     ''start_date'', ''mature_date'']"

definition loan_line :: "(float64 \<Rightarrow> int) \<Rightarrow> (string \<rightharpoonup> (string \<rightharpoonup> string)) \<Rightarrow> (string \<Rightarrow> string) \<Rightarrow> string list" where
  "loan_line conv details cell =
     (let account = trim_space (cell ''loan_no''); whole = (\<lambda>s. itoa (fl_int conv (string_to_float s))) in
      [''D'', trim_space (cell ''cifno''), account, ''03'', cell ''collectibility'', whole (cell ''credit_limit_effective''),
       whole (cell ''outstanding''), whole (cell ''principal_arrears''), whole (lookup_cell details account ''tunggakan_bunga''),
       ''300'', remove_byte (CHR ''-'') (cell ''start_date''), remove_byte (CHR ''-'') (cell ''mature_date''), ''4''])"

definition build_dk :: "(float64 \<Rightarrow> int) \<Rightarrow> string \<Rightarrow> string \<Rightarrow> (string list \<times> string set) res" where
  "build_dk conv body detail_body =
     (case parse_table body of Inl e \<Rightarrow> Inl e | Inr loans \<Rightarrow>
      if \<not> table_require loans dk_columns then Inl []
      else
      case transpose_table detail_body ''no_rekening'' of Inl e \<Rightarrow> Inl e | Inr details \<Rightarrow>
      let cell = (\<lambda>row c. value_at row (table_index loans c)) in
      case account_lines (\<lambda>row. trim_space (cell row ''cifno'')) (\<lambda>row. trim_space (cell row ''loan_no''))
             (\<lambda>row. Inr (loan_line conv details (cell row))) (tb_rows loans) of
        Inl e \<Rightarrow> Inl e
      | Inr (ls, cifs) \<Rightarrow> Inr (map (join ''|'') ls, cifs))"

section \<open>The lines\<close>

lemma account_lines_sound:
  assumes "account_lines cif account line rows = Inr (ls, cifs)"
  shows "l \<in> set ls \<Longrightarrow> \<exists>row \<in> set rows. line row = Inr l \<and> cif row \<noteq> '''' \<and> account row \<noteq> ''''"
    and "cifs = cif ` {row \<in> set rows. cif row \<noteq> ''''}"
proof -
  have "(\<forall>l \<in> set ls. \<exists>row \<in> set rows. line row = Inr l \<and> cif row \<noteq> '''' \<and> account row \<noteq> '''')
      \<and> cifs = cif ` {row \<in> set rows. cif row \<noteq> ''''}"
    using assms
  proof (induction rows arbitrary: ls cifs)
    case (Cons row rows)
    show ?case
    proof (cases "cif row = ''''")
      case True
      then have "account_lines cif account line rows = Inr (ls, cifs)" using Cons.prems by simp
      from Cons.IH [OF this] True show ?thesis by (auto intro: image_eqI)
    next
      case False
      then obtain ls' cifs' where rest: "account_lines cif account line rows = Inr (ls', cifs')" "cifs = insert (cif row) cifs'"
        and ls: "ls = ls' \<or> (account row \<noteq> '''' \<and> (\<exists>l. line row = Inr l \<and> ls = l # ls'))"
        using Cons.prems by (auto split: if_split_asm sum.split_asm)
      note IH = Cons.IH [OF rest(1)]
      have "{r \<in> set (row # rows). cif r \<noteq> ''''} = insert row {r \<in> set rows. cif r \<noteq> ''''}" using False by auto
      then show ?thesis using IH rest(2) ls False by auto
    qed
  qed simp
  then show "l \<in> set ls \<Longrightarrow> \<exists>row \<in> set rows. line row = Inr l \<and> cif row \<noteq> '''' \<and> account row \<noteq> ''''"
    "cifs = cif ` {row \<in> set rows. cif row \<noteq> ''''}" by blast+
qed

lemma column_text_append: "column_text (s @ t) \<longleftrightarrow> column_text s \<and> column_text t"
  by (auto simp: column_text_def)

lemma column_text_Cons [simp]: "column_text (c # s) \<longleftrightarrow> c \<noteq> CHR ''|'' \<and> c \<noteq> nl \<and> column_text s"
  by (auto simp: column_text_def)

lemma column_text_replicate: "column_text (replicate n (CHR ''0''))"
  by (induction n) auto

lemma format_2f_column [simp]: "column_text (format_2f f)"
  by (auto simp: format_2f_def pad_zero_def Let_def column_text_append column_text_replicate split: float64.split)

text \<open>
  A line of a data file: \<open>n\<close> columns, no line break, and the CIF of its customer in column \<open>k\<close>.
\<close>

definition data_line :: "nat \<Rightarrow> nat \<Rightarrow> string set \<Rightarrow> string \<Rightarrow> bool" where
  "data_line n k cifs l \<longleftrightarrow>
     nl \<notin> set l \<and> length (split_byte (CHR ''|'') l) = n \<and> hd (split_byte (CHR ''|'') l) = ''D''
     \<and> split_byte (CHR ''|'') l ! k \<in> cifs"

lemma data_line_join:
  assumes "list_all column_text xs" and "length xs = n" and "xs \<noteq> []" and "hd xs = ''D''" and "xs ! k \<in> cifs"
  shows "data_line n k cifs (join ''|'' xs)"
  using join_columns [OF assms(3,1)] assms by (simp add: data_line_def)

lemma dk_line:
  assumes "build_dk conv body detail_body = Inr (rows, cifs)" and "unquoted body"
  shows "list_all (data_line 13 1 cifs) rows \<and> '''' \<notin> cifs"
proof -
  obtain loans details ls where t: "parse_table body = Inr loans" "rows = map (join ''|'') ls"
    and a: "account_lines (\<lambda>row. trim_space (value_at row (table_index loans ''cifno'')))
        (\<lambda>row. trim_space (value_at row (table_index loans ''loan_no'')))
        (\<lambda>row. Inr (loan_line conv details (\<lambda>c. value_at row (table_index loans c)))) (tb_rows loans) = Inr (ls, cifs)"
    using assms(1) by (auto simp: build_dk_def Let_def split: sum.split_asm if_split_asm)
  have "data_line 13 1 cifs (join ''|'' l)" if l: "l \<in> set ls" for l
  proof -
    obtain row where row: "row \<in> set (tb_rows loans)" "l = loan_line conv details (\<lambda>c. value_at row (table_index loans c))"
      "trim_space (value_at row (table_index loans ''cifno'')) \<noteq> ''''"
      using account_lines_sound(1) [OF a l] by auto
    have c: "column_text (value_at row i)" for i
      using parse_table_columns [OF t(1) assms(2)] row(1) value_at_column by blast
    have "l ! 1 \<in> cifs"
      using row account_lines_sound(2) [OF a] by (auto simp: loan_line_def Let_def)
    then show ?thesis
      by (rule data_line_join [rotated -1]) (simp_all add: row(2) loan_line_def Let_def c)
  qed
  moreover have "'''' \<notin> cifs" using account_lines_sound(2) [OF a] by auto
  ultimately show ?thesis by (simp add: t(2) list_all_iff)
qed

lemma savings_line_columns:
  assumes "savings_line conv standing d rate cell = Inr l" and "list_all is_digit d"
    and "\<And>c. column_text (cell c)" and "\<And>k c. column_text (lookup_cell standing k c)"
  shows "list_all column_text l \<and> length l = 19 \<and> l \<noteq> [] \<and> hd l = ''D'' \<and> l ! 3 = trim_space (cell ''cif_no'')"
  using assms column_text_digits [OF assms(2)]
  by (auto simp: savings_line_def fund_status_def Let_def split: sum.split_asm)

lemma deposit_line_columns:
  assumes "deposit_line conv balances d rate_of cell = Inr l" and "list_all is_digit d" and "\<And>c. column_text (cell c)"
  shows "list_all column_text l \<and> length l = 19 \<and> l \<noteq> [] \<and> hd l = ''D'' \<and> l ! 3 = trim_space (cell ''cif_no'')"
  using assms column_text_digits [OF assms(2)]
  by (auto simp: deposit_line_def Let_def split: sum.split_asm)

lemma dsn_line:
  assumes "build_dsn conv savings_body deposit_body balance_body standing_body d rates = Inr (rows, cifs)"
    and "unquoted savings_body" and "unquoted deposit_body" and "unquoted standing_body" and "list_all is_digit d"
  shows "list_all (data_line 19 3 cifs) rows \<and> '''' \<notin> cifs"
proof -
  obtain savings deposits balances standing ls1 cifs1 ls2 cifs2 rate where
    t: "parse_table savings_body = Inr savings" "parse_table deposit_body = Inr deposits"
      "transpose_table standing_body ''Destination Account Number'' = Inr standing"
      "rows = map (join ''|'') (ls1 @ ls2)" "cifs = cifs1 \<union> cifs2"
    and a1: "account_lines (\<lambda>row. trim_space (value_at row (table_index savings ''cif_no'')))
        (\<lambda>row. trim_space (value_at row (table_index savings ''acc_no'')))
        (\<lambda>row. savings_line conv standing d rate (\<lambda>c. value_at row (table_index savings c))) (tb_rows savings) = Inr (ls1, cifs1)"
    and a2: "account_lines (\<lambda>row. trim_space (value_at row (table_index savings ''cif_no'')))
        (\<lambda>row. trim_space (value_at row (table_index savings ''acc_no'')))
        (\<lambda>row. deposit_line conv balances d (rate_by_date rates) (\<lambda>c. value_at row (table_index savings c))) (tb_rows deposits)
        = Inr (ls2, cifs2)"
    using assms(1) unfolding build_dsn_def Let_def by (auto split: sum.split_asm if_split_asm)
  have s: "column_text (value_at row i)" if "row \<in> set (tb_rows savings)" for row i
    using parse_table_columns [OF t(1) assms(2)] that value_at_column by blast
  have dp: "column_text (value_at row i)" if "row \<in> set (tb_rows deposits)" for row i
    using parse_table_columns [OF t(2) assms(3)] that value_at_column by blast
  have "data_line 19 3 cifs (join ''|'' l)" if l: "l \<in> set ls1" for l
  proof -
    obtain row where row: "row \<in> set (tb_rows savings)"
      "savings_line conv standing d rate (\<lambda>c. value_at row (table_index savings c)) = Inr l"
      "trim_space (value_at row (table_index savings ''cif_no'')) \<noteq> ''''"
      using account_lines_sound(1) [OF a1 l] by auto
    note c = savings_line_columns [OF row(2) assms(5) s [OF row(1)] lookup_cell_column [OF t(3) assms(4)]]
    moreover have "l ! 3 \<in> cifs" using c row account_lines_sound(2) [OF a1] t(5) by auto
    ultimately show ?thesis by (intro data_line_join) auto
  qed
  moreover have "data_line 19 3 cifs (join ''|'' l)" if l: "l \<in> set ls2" for l
  proof -
    obtain row where row: "row \<in> set (tb_rows deposits)"
      "deposit_line conv balances d (rate_by_date rates) (\<lambda>c. value_at row (table_index savings c)) = Inr l"
      "trim_space (value_at row (table_index savings ''cif_no'')) \<noteq> ''''"
      using account_lines_sound(1) [OF a2 l] by auto
    note c = deposit_line_columns [OF row(2) assms(5) dp [OF row(1)]]
    moreover have "l ! 3 \<in> cifs" using c row account_lines_sound(2) [OF a2] t(5) by auto
    ultimately show ?thesis by (intro data_line_join) auto
  qed
  moreover have "'''' \<notin> cifs" using account_lines_sound(2) [OF a1] account_lines_sound(2) [OF a2] t(5) by auto
  ultimately show ?thesis by (auto simp: t(4) list_all_iff)
qed

section \<open>Numbers survive the floats\<close>

lemma string_to_float_grouped:
  assumes "list_all (\<lambda>c. is_digit c \<or> c = CHR '','') v" and "remove_byte (CHR '','') v \<noteq> []"
    and "digits_value (remove_byte (CHR '','') v) < 2 ^ 53"
  shows "string_to_float v = Finite False (of_nat (digits_value (remove_byte (CHR '','') v)))"
proof -
  have "list_all is_digit (remove_byte (CHR '','') v)" using assms(1) by (auto simp: remove_byte_def list_all_iff)
  from parse_float_nat [OF assms(2) this assms(3)] show ?thesis by (simp add: string_to_float_def)
qed

lemma fl_int_nat:
  assumes "n < 2 ^ 53"
  shows "fl_int conv (Finite False (of_nat n)) = int n"
proof -
  have "int n < 2 ^ 53" using assms by (metis of_nat_less_iff of_nat_numeral of_nat_power)
  also have "(2::int) ^ 53 \<le> 2 ^ 63" by (rule power_increasing) simp_all
  finally have "in_int64 (int n)" by (simp add: in_int64_def)
  then show ?thesis by (simp add: fl_int_def)
qed

text \<open>A percentage of two decimals, with a point or a comma, is read as its hundredths.\<close>

lemma parse_percentage_decimal:
  assumes i: "i \<noteq> []" "list_all is_digit i" and f: "list_all is_digit f" "length f = 2" and sep: "sep = CHR ''.'' \<or> sep = CHR '',''"
    and n: "digits_value (i @ f) < 2 ^ 51"
  shows "parse_percentage (i @ sep # f @ ''%'') = Inr (to_float64 False (of_nat (digits_value (i @ f)) / 100))"
proof -
  let ?t = "i @ sep # f" and ?w = "i @ CHR ''.'' # f"
  obtain c cs where c: "i = c # cs" "is_digit c" using i by (cases i) auto
  have "last f \<in> set f" using f(2) by (intro last_in_set) auto
  then have last: "is_digit (last f)" "f \<noteq> []" using f by (auto simp: list_all_iff)
  have "trimmed (?t @ ''%'')" using c by (intro graphic_ends_trimmed) (auto simp: is_digit_def byte_def)
  moreover have "trimmed ?t"
    using c last f by (intro graphic_ends_trimmed) (auto simp: is_digit_def)
  moreover have "suffix ''%'' (?t @ ''%'')" by (rule suffixI) simp
  moreover from this have "trim_suffix ''%'' (?t @ ''%'') = ?t" unfolding trim_suffix_def by simp
  moreover have "replace_byte (CHR '','') (CHR ''.'') ?t = ?w"
  proof -
    have "map (\<lambda>x. if x = CHR '','' then CHR ''.'' else x) s = s" if "list_all is_digit s" for s
      using that by (induction s) (auto simp: is_digit_def byte_def)
    then show ?thesis using i f sep by (auto simp: replace_byte_def)
  qed
  moreover obtain m where "to_float64 False (of_nat (digits_value (i @ f)) / 100) = Finite False m"
    using cents_float [OF n] by blast
  then have "parse_float ?w = Some (to_float64 False (of_nat (digits_value (i @ f)) / 100))"
    using parse_float_decimal [OF i f(1), of ?w] f(2) by (simp add: power2_eq_square)
  ultimately show ?thesis
    by (simp add: parse_percentage_def Let_def trim_space_trimmed)
qed

text \<open>
  Amounts and percentages pass through 64-bit floats without loss: an amount written in digits, with commas between
  groups, of less than 2^53 is printed as the same number, and a percentage of two decimals of less than
  2^51 hundredths is printed with the same two decimals.
\<close>

theorem lps_numbers_exact:
  assumes "list_all (\<lambda>c. is_digit c \<or> c = CHR '','') v" and "remove_byte (CHR '','') v \<noteq> []"
    and "digits_value (remove_byte (CHR '','') v) < 2 ^ 53"
    and "i \<noteq> []" and "list_all is_digit i" and "list_all is_digit f" and "length f = 2" and "sep = CHR ''.'' \<or> sep = CHR '',''"
    and "digits_value (i @ f) < 2 ^ 51"
  shows "itoa (fl_int conv (string_to_float v)) = utoa (digits_value (remove_byte (CHR '','') v))
    \<and> (\<exists>x. parse_percentage (i @ sep # f @ ''%'') = Inr x \<and> format_2f x = utoa (digits_value i) @ ''.'' @ f)"
proof -
  have "digits_value (i @ f) div 100 = digits_value i" "digits_value (i @ f) mod 100 = digits_value f"
    using digits_value_bound [OF assms(6)] assms(7) by (simp_all add: digits_value_append)
  moreover have "pad_zero 2 (utoa (digits_value f)) = f"
  proof (rule digits_text_unique)
    have "length (utoa (digits_value f)) \<le> 2"
      using digits_value_bound [OF assms(6)] assms(7) by (intro length_utoa_le) auto
    then show "length (pad_zero 2 (utoa (digits_value f))) = length f" using assms(7) by (simp add: length_pad_zero)
  qed (use assms(6) utoa_digits pad_zero_digits in auto)
  ultimately show ?thesis
    using string_to_float_grouped [OF assms(1-3)] fl_int_nat [OF assms(3)] parse_percentage_decimal [OF assms(4-9)]
      format_2f_cents [OF assms(9)]
    by (simp add: itoa_def)
qed

theorem lps_numbers_exact_witness:
  "itoa (fl_int (\<lambda>_. 0) (string_to_float ''12,345'')) = utoa (digits_value ''12345'')
   \<and> (\<exists>x. parse_percentage ''6,25%'' = Inr x \<and> format_2f x = utoa (digits_value ''6'') @ ''.25'')"
proof -
  have "digits_value ''12345'' = 12345" "digits_value ''625'' = 625"
    by (simp_all add: digits_value_def digit_value_def byte_def)
  then show ?thesis
    using lps_numbers_exact [of "''12,345''" "''6''" "''25''" "CHR '',''" "\<lambda>_. 0"]
    by (simp add: remove_byte_def is_digit_def byte_def)
qed

end
