(* ===== verification/Lps_Report.thy ===== *)
theory Lps_Report
  imports Lps_Accounts "HOL-Library.Multiset"
begin

text \<open>
  The LPS report, \<open>src/internal/lps/generator.go\<close>: the customers (DN) from the daily file and, for customers that only appear
  with an account, from the core-banking system by a pool of workers; the downloads; the form checks; and the
  archive of four files. The replies of the gateway and the database, and the order in which the workers
  deliver, are parameters.
\<close>

section \<open>Customers of the daily file\<close>

definition dn_columns :: "string list" where
  "dn_columns =
     [''cif_no'', ''cif_alternate_no'', ''customer_type'', ''customer_name'', ''idtype'', ''identity_number'', ''mother_maiden_name'',
      ''birth_date'', ''tax_id'', ''management_name'', ''management_identity'', ''address1'', ''citydati2'', ''phone_no'', ''debtor_type'']"

record customer =
  cu_cif :: string
  cu_alternate_cif :: string
  cu_type :: string
  cu_name :: string
  cu_identity_type :: string
  cu_identity_number :: string
  cu_mother_name :: string
  cu_birth_date :: string
  cu_tax_id :: string
  cu_management_name :: string
  cu_management_identity :: string
  cu_address :: string
  cu_dati2 :: string
  cu_phone :: string
  cu_debtor_type :: string

fun customer_rows :: "(string list \<Rightarrow> string \<Rightarrow> string) \<Rightarrow> string set \<Rightarrow> string list list \<Rightarrow> customer list \<times> string set" where
  "customer_rows cell seen [] = ([], seen)"
| "customer_rows cell seen (row # rows) =
     (let cif = trim_space (cell row ''cif_no'') in
      if cif = '''' \<or> cif \<in> seen then customer_rows cell seen rows
      else case customer_rows cell (insert cif seen) rows of (cs, seen') \<Rightarrow>
        (\<lparr>cu_cif = cif, cu_alternate_cif = cell row ''cif_alternate_no'', cu_type = cell row ''customer_type'',
          cu_name = cell row ''customer_name'', cu_identity_type = cell row ''idtype'',
          cu_identity_number = cell row ''identity_number'', cu_mother_name = cell row ''mother_maiden_name'',
          cu_birth_date = cell row ''birth_date'', cu_tax_id = cell row ''tax_id'',
          cu_management_name = cell row ''management_name'', cu_management_identity = cell row ''management_identity'',
          cu_address = cell row ''address1'', cu_dati2 = cell row ''citydati2'', cu_phone = cell row ''phone_no'',
          cu_debtor_type = cell row ''debtor_type''\<rparr> # cs, seen'))"

definition parse_customers :: "string \<Rightarrow> (customer list \<times> string set) res" where
  "parse_customers body =
     (case parse_table body of Inl e \<Rightarrow> Inl e
      | Inr t \<Rightarrow>
          if \<not> table_require t dn_columns then Inl []
          else Inr (customer_rows (\<lambda>row c. value_at row (table_index t c)) {} (tb_rows t)))"

definition zeros16 :: string where
  "zeros16 = replicate 16 (CHR ''0'')"

text \<open>The debtor type of a company: its own, or that of the MSO database, or 4599.\<close>

definition company_debtor_type :: "(string \<Rightarrow> string query) \<Rightarrow> string \<Rightarrow> string \<Rightarrow> string" where
  "company_debtor_type mso own alternate =
     (if is_valid_golongan_debitur own then own
      else case debtor_type_by_alternate_cif mso alternate of Inl _ \<Rightarrow> ''4599''
           | Inr fallback \<Rightarrow> if fallback = '''' \<or> fallback = ''0002'' then ''4599'' else fallback)"

definition identity_type :: "string \<Rightarrow> string" where
  "identity_type t = (if t \<in> {''KTP'', ''PAS'', ''KTS''} then t else ''LN'')"

definition dn_line :: "(string \<Rightarrow> string query) \<Rightarrow> customer \<Rightarrow> string list" where
  "dn_line mso v =
     (let individual = (trim_space (cu_type v) = ''Perorangan'');
          debtor_type = (if individual then ''9002'' else company_debtor_type mso (trim_space (cu_debtor_type v)) (cu_alternate_cif v));
          managed = debtor_type \<in> set management_debtor_types;
          management_identity0 = clean_alamat (cu_management_identity v);
          management_identity = (if management_identity0 = '''' \<and> (\<not> individual \<or> managed) then zeros16 else management_identity0);
          dati2 = normalize_dati2 (cu_dati2 v);
          identity_number0 = trim_space (cu_identity_number v);
          identity_number1 = (if individual \<and> identity_number0 = '''' then zeros16 else identity_number0);
          identity_number = (if managed then '''' else remove_byte (CHR '' '') identity_number1);
          mother0 = clean_alamat (trim_space (cu_mother_name v));
          mother = (if individual \<and> mother0 = '''' then ''IBU KANDUNG'' else mother0);
          id_type = (if individual then identity_type (trim_space (cu_identity_type v)) else '''');
          birth_date = (if individual then remove_byte (CHR ''-'') (cu_birth_date v) else '''');
          management_name0 = trim_space (cu_management_name v);
          management_name = (if \<not> individual \<and> management_name0 = '''' then ''BAPAK'' else management_name0)
      in [''D'', cu_cif v, clean_alamat (cu_name v), id_type, identity_number, mother, birth_date,
          value_if individual (cu_tax_id v) '''', management_name, value_if individual '''' ''LN'', management_identity,
          clean_alamat (cu_address v), value_if (dati2 = '''') ''0000'' dati2, value_if individual ''WNI'' '''',
          clean_alamat (cu_phone v), ''1'', ''N'', ''20'', debtor_type])"

definition build_dn :: "(string \<Rightarrow> string query) \<Rightarrow> customer list \<Rightarrow> string list" where
  "build_dn mso customers = map (\<lambda>v. join ''|'' (dn_line mso v)) customers"

section \<open>Customers of the core-banking system\<close>

datatype json_value =
    JvNull
  | JvText string
  | JvScalar string
  | JvArray "json_value list"
  | JvObject "(string \<times> json_value) list"

type_synonym cif_data = "(string \<times> json_value) list"

text \<open>\<open>fmt.Sprint\<close> of a value that is no string is the parameter \<open>sprint\<close>.\<close>

definition string_value :: "(json_value \<Rightarrow> string) \<Rightarrow> json_value option \<Rightarrow> string" where
  "string_value sprint v =
     (case v of None \<Rightarrow> '''' | Some JvNull \<Rightarrow> '''' | Some (JvText s) \<Rightarrow> s | Some w \<Rightarrow> sprint w)"

definition object_string :: "(json_value \<Rightarrow> string) \<Rightarrow> json_value option \<Rightarrow> string \<Rightarrow> string" where
  "object_string sprint v key =
     (case v of Some (JvObject fs) \<Rightarrow> string_value sprint (map_of fs key) | _ \<Rightarrow> '''')"

definition first_object :: "json_value option \<Rightarrow> cif_data option" where
  "first_object v =
     (case v of Some (JvArray (w # _)) \<Rightarrow> Some (case w of JvObject fs \<Rightarrow> fs | _ \<Rightarrow> []) | _ \<Rightarrow> None)"

definition live_dn_line :: "(json_value \<Rightarrow> string) \<Rightarrow> (string \<Rightarrow> string query) \<Rightarrow> cif_data \<Rightarrow> string list" where
  "live_dn_line sprint mso data =
     (let get = (\<lambda>k. string_value sprint (map_of data k));
          individual = (get ''jenisnasabah'' = ''Perorangan'');
          id_type = (if individual then identity_type (get ''jenisidentitas'') else '''');
          debtor_type = (if individual then ''9002''
                         else company_debtor_type mso (get ''datauntuksid_golongandebitur'') (get ''noalt''));
          managed = debtor_type \<in> set management_debtor_types;
          identity_number0 = get ''perorangan_noktp'';
          identity_number = (if managed then '''' else if individual \<and> identity_number0 = '''' then zeros16 else identity_number0);
          mother0 = clean_alamat (get ''perorangan_namaibukandung'');
          mother = (if individual \<and> mother0 = '''' then ''IBU KANDUNG'' else mother0);
          birth0 = fst (cut_byte (CHR '' '') (object_string sprint (map_of data ''dataktp_tgllahir'') ''date''));
          birth_date = (if individual then remove_byte (CHR ''-'') birth0 else '''');
          (management_name, management_identity0) =
            (if individual then ('''', '''')
             else case first_object (map_of data ''datapengurusperusahaan'') of
               Some m \<Rightarrow> (let identity = clean_alamat (string_value sprint (map_of m ''noktp''))
                         in (clean_alamat (string_value sprint (map_of m ''nama'')), if identity = '''' then zeros16 else identity))
             | None \<Rightarrow> (''BAPAK'', ''''));
          management_identity = (if managed \<and> management_identity0 = '''' then zeros16 else management_identity0);
          dati2 = normalize_dati2 (get ''datauntuksid_dati2debitur'')
      in [''D'', get ''id'', get ''namanasabah'', id_type, identity_number, mother, birth_date,
          value_if individual (get ''profilresiko_identitasnasabah'') '''', management_name, value_if individual '''' ''LN'',
          management_identity, clean_alamat (get ''dataalamat_ktp_alamat1''), dati2, value_if individual ''WNI'' '''',
          clean_alamat (get ''dataalamat_rumah_nohp''), ''1'', ''N'', ''20'', debtor_type])"

definition build_live_dn :: "(json_value \<Rightarrow> string) \<Rightarrow> (string \<Rightarrow> string query) \<Rightarrow> cif_data \<Rightarrow> string" where
  "build_live_dn sprint mso data = join ''|'' (live_dn_line sprint mso data)"

text \<open>
  \<open>completeMissingDN\<close> from the results in the order they arrive: the first error wins, a cancelled context is an
  error, and otherwise every line is kept.
\<close>

fun collect_results :: "(string \<Rightarrow> string res) \<Rightarrow> string list \<Rightarrow> string list res" where
  "collect_results line [] = Inr []"
| "collect_results line (cif # cifs) =
     (case line cif of Inl e \<Rightarrow> Inl e
      | Inr l \<Rightarrow> (case collect_results line cifs of Inl e \<Rightarrow> Inl e | Inr ls \<Rightarrow> Inr (l # ls)))"

definition complete_missing_dn ::
  "(string \<Rightarrow> string res) \<Rightarrow> (string set \<Rightarrow> string list \<times> bool) \<Rightarrow> string set \<Rightarrow> string set \<Rightarrow> string list res" where
  "complete_missing_dn line deliver seen needed =
     (if needed \<subseteq> seen then Inr []
      else case deliver (needed - seen) of (arrivals, cancelled) \<Rightarrow>
        case collect_results line arrivals of Inl e \<Rightarrow> Inl e
        | Inr rows \<Rightarrow> if cancelled then Inl [] else Inr rows)"

section \<open>The pool of workers\<close>

text \<open>
  The dispatcher sends the missing customers to at most five workers; a worker that has its answer delivers a
  result. The dispatcher stops when the context ends. The results are complete when nothing is left to
  send and no worker is busy.
\<close>

record pool =
  po_todo :: "string list"
  po_busy :: "string list"
  po_results :: "string list"
  po_cancelled :: bool

definition pool_workers :: nat where
  "pool_workers = 5"

definition pool_start :: "string list \<Rightarrow> pool" where
  "pool_start missing = \<lparr>po_todo = missing, po_busy = [], po_results = [], po_cancelled = False\<rparr>"

inductive pool_step :: "pool \<Rightarrow> pool \<Rightarrow> bool" where
  send: "po_todo s = cif # cifs \<Longrightarrow> length (po_busy s) < pool_workers \<Longrightarrow>
    pool_step s (s\<lparr>po_todo := cifs, po_busy := cif # po_busy s\<rparr>)"
| deliver: "cif \<in> set (po_busy s) \<Longrightarrow>
    pool_step s (s\<lparr>po_busy := remove1 cif (po_busy s), po_results := po_results s @ [cif]\<rparr>)"
| context_done: "\<not> po_cancelled s \<Longrightarrow> pool_step s (s\<lparr>po_cancelled := True\<rparr>)"
| stop: "po_cancelled s \<Longrightarrow> po_todo s \<noteq> [] \<Longrightarrow> pool_step s (s\<lparr>po_todo := []\<rparr>)"

definition pool_done :: "pool \<Rightarrow> bool" where
  "pool_done s \<longleftrightarrow> po_todo s = [] \<and> po_busy s = []"

section \<open>Downloads\<close>

definition part_name :: "int \<Rightarrow> string" where
  "part_name n = ''DetailOutstandingRekeningPinjaman_'' @ pad_zero 3 (itoa n) @ ''.csv''"

definition after_newline :: "string \<Rightarrow> string" where
  "after_newline part = (case cut_byte nl part of (_, rest, found) \<Rightarrow> if found then rest else '''')"

fun detail_parts :: "(string \<Rightarrow> string res) \<Rightarrow> int list \<Rightarrow> string list option \<Rightarrow> string \<Rightarrow> string res" where
  "detail_parts dl [] header_set combined = Inr combined"
| "detail_parts dl (n # ns) header_set combined =
     (case dl (part_name n) of Inl e \<Rightarrow> Inl e
      | Inr part \<Rightarrow>
          (case csv_read new_csv_reader (csv_lines part) of
             CsvRecord header _ \<Rightarrow>
               (case header_set of
                  None \<Rightarrow> detail_parts dl ns (Some header) (combined @ join ''|'' header @ [nl] @ after_newline part)
                | Some hs \<Rightarrow>
                    if length header \<noteq> length (remdups hs) \<or> \<not> list_all (\<lambda>v. v \<in> set hs) header then Inl []
                    else detail_parts dl ns header_set (combined @ after_newline part))
           | _ \<Rightarrow> Inl []))"

definition download_loan_details :: "(string \<Rightarrow> string res) \<Rightarrow> string res" where
  "download_loan_details dl =
     (case dl ''DetailOutstandingRekeningPinjaman.csv'' of Inr body \<Rightarrow> Inr body
      | Inl _ \<Rightarrow> detail_parts dl [1, 2, 3, 4, 5, 6, 7, 8] None '''')"

section \<open>The archive\<close>

record lps_input =
  li_participant_code :: string
  li_reporting_date :: string
  li_period :: string
  li_version :: string

record lps_result =
  lr_filename :: string
  lr_dn_rows :: nat
  lr_dsn_rows :: nat
  lr_dk_rows :: nat
  lr_dsj_rows :: nat

text \<open>What the generator is built from, and what a run meets.\<close>

record lps_sources =
  ls_rates :: "rate_entry list res"
  ls_maintenance :: "string \<Rightarrow> string \<Rightarrow> string res"
  ls_named :: "string \<Rightarrow> string list \<Rightarrow> string res"
  ls_cif :: "string \<Rightarrow> cif_data res"
  ls_mso :: "string \<Rightarrow> string query"
  ls_deliver :: "string set \<Rightarrow> string list \<times> bool"
  ls_archive_ok :: bool
  ls_conv :: "float64 \<Rightarrow> int"
  ls_sprint :: "json_value \<Rightarrow> string"
  ls_letter :: "string \<Rightarrow> bool"

definition lps_validate :: "(string \<Rightarrow> bool) \<Rightarrow> lps_input \<Rightarrow> date res" where
  "lps_validate letter inp =
     (if \<not> lps_digits (li_participant_code inp) 8 \<or> \<not> lps_digits (li_reporting_date inp) 8
         \<or> \<not> safe_token letter (li_period inp) \<or> \<not> safe_token letter (li_version inp) then Inl [ErrInvalidInput]
      else case time_parse_compact (li_reporting_date inp) of None \<Rightarrow> Inl [ErrInvalidInput] | Some d \<Rightarrow> Inr d)"

definition time_format_compact :: "date \<Rightarrow> string" where
  "time_format_compact d = pad_zero 4 (itoa (year d)) @ pad_zero 2 (itoa (month d)) @ pad_zero 2 (itoa (day d))"

definition file_name :: "string \<Rightarrow> lps_input \<Rightarrow> string" where
  "file_name kind inp =
     kind @ ''_'' @ li_participant_code inp @ ''_'' @ li_reporting_date inp @ ''_'' @ li_period inp @ ''_'' @ li_version inp @ ''.txt''"

definition build_file_content :: "lps_input \<Rightarrow> nat \<Rightarrow> string \<Rightarrow> string" where
  "build_file_content inp n body =
     (let header = ''H|'' @ li_participant_code inp @ ''|'' @ li_reporting_date inp @ ''|'' @ li_period inp @ ''|''
                   @ li_version inp @ ''|'' @ itoa (int n)
      in if body = '''' then header @ [nl] else header @ [nl] @ body)"

definition live_line :: "lps_sources \<Rightarrow> string \<Rightarrow> string res" where
  "live_line src cif =
     (case ls_cif src cif of Inl e \<Rightarrow> Inl e | Inr data \<Rightarrow> Inr (build_live_dn (ls_sprint src) (ls_mso src) data))"

record lps_bodies =
  lb_rates :: "rate_entry list"
  lb_customer :: string
  lb_savings :: string
  lb_deposit :: string
  lb_balance :: string
  lb_standing :: string
  lb_loan :: string
  lb_detail :: string

definition lps_download :: "lps_sources \<Rightarrow> date \<Rightarrow> lps_bodies res" where
  "lps_download src date =
     (let cbr = ''/app/report/cbr/'' @ time_format_compact date; daily = ''/app/report/daily/'' @ time_format_compact date in
      rbind (ls_rates src) (\<lambda>rates.
      rbind (ls_maintenance src ''cbrcustomer.csv'' cbr) (\<lambda>customer_body.
      rbind (ls_maintenance src ''cbrsavings.csv'' cbr) (\<lambda>savings_body.
      rbind (ls_maintenance src ''cbrtimedeposit.csv'' cbr) (\<lambda>deposit_body.
      rbind (ls_maintenance src ''Time Deposit Account Balance Details.csv'' daily) (\<lambda>balance_body.
      rbind (ls_named src ''Standing Order Report csv'' [''ALL'', '''', '''', '''', '''', '''', '''']) (\<lambda>standing_body.
      rbind (ls_maintenance src ''cbrloan.csv'' cbr) (\<lambda>loan_body.
      rbind (download_loan_details (\<lambda>name. ls_maintenance src name daily)) (\<lambda>detail_body.
        Inr \<lparr>lb_rates = rates, lb_customer = customer_body, lb_savings = savings_body, lb_deposit = deposit_body,
             lb_balance = balance_body, lb_standing = standing_body, lb_loan = loan_body, lb_detail = detail_body\<rparr>)))))))))"

text \<open>The lines of the files: customers of the daily file, additional customers, accounts and loans.\<close>

definition lps_rows :: "lps_sources \<Rightarrow> string \<Rightarrow> lps_bodies \<Rightarrow> (string list \<times> string list \<times> string list \<times> string list) res" where
  "lps_rows src reporting_date b =
     rbind (parse_customers (lb_customer b)) (\<lambda>(customers, seen).
     rbind (build_dsn (ls_conv src) (lb_savings b) (lb_deposit b) (lb_balance b) (lb_standing b) reporting_date (lb_rates b)) (\<lambda>(dsn_rows, dsn_cif).
     rbind (build_dk (ls_conv src) (lb_loan b) (lb_detail b)) (\<lambda>(dk_rows, dk_cif).
     rbind (complete_missing_dn (live_line src) (ls_deliver src) seen (dsn_cif \<union> dk_cif)) (\<lambda>additional.
       Inr (build_dn (ls_mso src) customers, additional, dsn_rows, dk_rows)))))"

text \<open>\<open>Generate\<close>: the result and the files of the archive in the order of their names.\<close>

definition generate :: "lps_sources \<Rightarrow> lps_input \<Rightarrow> (lps_result \<times> (string \<times> string) list) res" where
  "generate src inp =
     rbind (lps_validate (ls_letter src) inp) (\<lambda>date.
     rbind (lps_download src date) (\<lambda>b.
     rbind (lps_rows src (li_reporting_date inp) b) (\<lambda>(dn_rows, additional, dsn_rows, dk_rows).
      let dn_body0 = rows_body dn_rows;
          dn_body = dn_body0 @ join [nl] additional;
          dn_count = count_list dn_body0 nl + length additional;
          dsn_body = rows_body dsn_rows; dk_body = rows_body dk_rows;
          result = \<lparr>lr_filename = ''LPS_'' @ li_participant_code inp @ ''_'' @ li_reporting_date inp @ ''.zip'',
                    lr_dn_rows = dn_count, lr_dsn_rows = count_list dsn_body nl, lr_dk_rows = count_list dk_body nl,
                    lr_dsj_rows = 0\<rparr>;
          files = [(file_name ''DN'' inp, lr_dn_rows result, dn_body), (file_name ''DSN'' inp, lr_dsn_rows result, dsn_body),
                   (file_name ''DK'' inp, lr_dk_rows result, dk_body), (file_name ''DSJ'' inp, 0, '''')]
      in if \<not> ls_archive_ok src then Inl []
         else Inr (result, map (\<lambda>(name, n, body). (name, build_file_content inp n body)) (sort_key fst files)))))"

section \<open>What the pool delivers\<close>

inductive_simps pool_step_simps: "pool_step s t"

definition pool_ok :: "string list \<Rightarrow> pool \<Rightarrow> bool" where
  "pool_ok missing s \<longleftrightarrow>
     mset (po_todo s) + mset (po_busy s) + mset (po_results s) \<subseteq># mset missing
     \<and> (\<not> po_cancelled s \<longrightarrow> mset (po_todo s) + mset (po_busy s) + mset (po_results s) = mset missing)
     \<and> length (po_busy s) \<le> pool_workers"

lemma pool_ok_start: "pool_ok missing (pool_start missing)"
  by (simp add: pool_ok_def pool_start_def)

lemma pool_ok_step: "pool_step s t \<Longrightarrow> pool_ok missing s \<Longrightarrow> pool_ok missing t"
proof (induction rule: pool_step.induct)
  case (deliver cif s)
  let ?t = "s\<lparr>po_busy := remove1 cif (po_busy s), po_results := po_results s @ [cif]\<rparr>"
  have "mset (po_todo ?t) + mset (po_busy ?t) + mset (po_results ?t) = mset (po_todo s) + mset (po_busy s) + mset (po_results s)"
    using deliver.hyps by (simp add: insert_DiffM ac_simps)
  moreover have "length (po_busy ?t) \<le> pool_workers" "po_cancelled ?t = po_cancelled s"
    using deliver.prems length_remove1 [of cif "po_busy s"] by (auto simp: pool_ok_def)
  ultimately show ?case using deliver.prems unfolding pool_ok_def by presburger
next
  case (stop s)
  then show ?case by (auto simp: pool_ok_def intro: subset_mset.order_trans [rotated])
qed (auto simp: pool_ok_def)

lemma pool_ok_reach: "pool_step\<^sup>*\<^sup>* (pool_start missing) s \<Longrightarrow> pool_ok missing s"
  by (induction rule: rtranclp_induct) (auto intro: pool_ok_start pool_ok_step)

definition pool_measure :: "pool \<Rightarrow> nat" where
  "pool_measure s = 2 * length (po_todo s) + length (po_busy s) + (if po_cancelled s then 0 else 1)"

lemma pool_step_decreases: "pool_step s t \<Longrightarrow> pool_measure t < pool_measure s"
  by (induction rule: pool_step.induct) (auto simp: pool_measure_def length_remove1 neq_Nil_conv dest: length_pos_if_in_set)

lemma pool_progress: "\<not> pool_done s \<Longrightarrow> \<exists>t. pool_step s t"
  unfolding pool_done_def pool_step_simps
  by (cases "po_busy s") (auto simp: neq_Nil_conv pool_workers_def)

lemma pool_reaches_done: "\<exists>t. pool_step\<^sup>*\<^sup>* s t \<and> pool_done t"
proof (induction "pool_measure s" arbitrary: s rule: less_induct)
  case less
  show ?case
  proof (cases "pool_done s")
    case False
    then obtain t where t: "pool_step s t" using pool_progress by blast
    then show ?thesis using less [OF pool_step_decreases [OF t]] by (meson converse_rtranclp_into_rtranclp)
  qed blast
qed

text \<open>What arrives when the pool is done: distinct missing customers, and all of them unless the context ended.\<close>

definition pool_outcome :: "string set \<Rightarrow> string list \<times> bool \<Rightarrow> bool" where
  "pool_outcome M out \<longleftrightarrow>
     (\<exists>missing s. distinct missing \<and> set missing = M \<and> pool_step\<^sup>*\<^sup>* (pool_start missing) s \<and> pool_done s
        \<and> out = (po_results s, po_cancelled s))"

lemma pool_outcome_results:
  assumes "pool_outcome M (arrivals, cancelled)"
  shows "distinct arrivals \<and> set arrivals \<subseteq> M \<and> (\<not> cancelled \<longrightarrow> set arrivals = M)"
proof -
  obtain missing s where m: "distinct missing" "set missing = M" and s: "pool_step\<^sup>*\<^sup>* (pool_start missing) s" "pool_done s"
    and out: "arrivals = po_results s" "cancelled = po_cancelled s"
    using assms by (auto simp: pool_outcome_def)
  have ok: "mset arrivals \<subseteq># mset missing" "\<not> cancelled \<Longrightarrow> mset arrivals = mset missing"
    using pool_ok_reach [OF s(1)] s(2) out by (auto simp: pool_ok_def pool_done_def)
  have "count (mset arrivals) a \<le> count (mset missing) a" for a using ok(1) by (rule mset_subset_eq_count)
  moreover have "count (mset missing) a \<le> 1" for a using m(1) by (auto simp: distinct_count_atmost_1)
  ultimately have "distinct arrivals"
    by (auto simp: distinct_count_atmost_1 intro!: antisym) (meson le_trans)
  moreover have "set arrivals \<subseteq> M" using set_mset_mono [OF ok(1)] m(2) by simp
  ultimately show ?thesis using ok(2) m(2) by (metis set_mset_mset)
qed

lemma collect_results_Inr: "collect_results line cifs = Inr ls \<longleftrightarrow> map line cifs = map Inr ls"
proof (induction cifs arbitrary: ls)
  case (Cons c cs)
  show ?case using Cons.IH [of "tl ls"] by (cases ls) (auto split: sum.split)
qed auto

section \<open>Customer lines\<close>

lemma customer_rows_props:
  "customer_rows cell seen rows = (cs, seen') \<Longrightarrow>
     distinct (map cu_cif cs) \<and> set (map cu_cif cs) \<inter> seen = {} \<and> seen' = seen \<union> set (map cu_cif cs)
     \<and> '''' \<notin> set (map cu_cif cs)"
proof (induction rows arbitrary: seen cs)
  case (Cons row rows)
  let ?cif = "trim_space (cell row ''cif_no'')"
  show ?case
  proof (cases "?cif = '''' \<or> ?cif \<in> seen")
    case True
    then show ?thesis using Cons by (simp add: Let_def)
  next
    case False
    then obtain cs' where r: "customer_rows cell (insert ?cif seen) rows = (cs', seen')"
      and cs: "tl cs = cs'" "cs \<noteq> []" "cu_cif (hd cs) = ?cif"
      using Cons.prems by (auto simp: Let_def split: prod.split_asm)
    have "map cu_cif cs = ?cif # map cu_cif cs'" using cs by (cases cs) auto
    then show ?thesis using Cons.IH [OF r] False by auto
  qed
qed simp

definition customer_columns :: "customer \<Rightarrow> bool" where
  "customer_columns v \<longleftrightarrow>
     list_all column_text [cu_cif v, cu_identity_number v, cu_birth_date v, cu_tax_id v, cu_management_name v, cu_debtor_type v, cu_dati2 v]"

lemma customer_rows_columns:
  "(\<And>row c. row \<in> set rows \<Longrightarrow> column_text (cell row c)) \<Longrightarrow> v \<in> set (fst (customer_rows cell seen rows)) \<Longrightarrow> customer_columns v"
proof (induction rows arbitrary: seen)
  case (Cons row rows)
  let ?cif = "trim_space (cell row ''cif_no'')"
  show ?case
  proof (cases "?cif = '''' \<or> ?cif \<in> seen")
    case True
    then show ?thesis using Cons.IH [of seen] Cons.prems by (simp add: Let_def)
  next
    case False
    have "customer_columns v" if "v \<in> set (fst (customer_rows cell (insert ?cif seen) rows))"
      using Cons.IH [OF _ that] Cons.prems(1) by simp
    moreover have "column_text (cell row c)" for c using Cons.prems(1) by simp
    ultimately show ?thesis
      using False Cons.prems(2) by (auto simp: Let_def case_prod_beta customer_columns_def)
  qed
qed simp

definition clean_mso :: "(string \<Rightarrow> string query) \<Rightarrow> bool" where
  "clean_mso mso \<longleftrightarrow> (\<forall>cif t. mso cif = Row t \<longrightarrow> column_text t)"

lemma zeros16_column [simp]: "column_text zeros16"
  by (simp add: zeros16_def column_text_replicate)

lemma company_debtor_type_column:
  "clean_mso mso \<Longrightarrow> column_text own \<Longrightarrow> column_text (company_debtor_type mso own alternate)"
  by (auto simp: company_debtor_type_def debtor_type_by_alternate_cif_def clean_mso_def res_simps split: sum.split)

lemma normalize_dati2_column: "column_text v \<Longrightarrow> column_text (normalize_dati2 v)"
  by (simp add: normalize_dati2_def Let_def)

lemma identity_type_column [simp]: "column_text (identity_type t)"
  by (auto simp: identity_type_def)

lemma dn_line_columns:
  assumes "clean_mso mso" and "customer_columns v"
  shows "list_all column_text (dn_line mso v)"
  using assms company_debtor_type_column [OF assms(1), of "trim_space (cu_debtor_type v)" "cu_alternate_cif v"]
  by (simp add: dn_line_def Let_def value_if_def customer_columns_def normalize_dati2_column)

lemma dn_line_shape: "length (dn_line mso v) = 19" "dn_line mso v ! 0 = ''D''" "dn_line mso v ! 1 = cu_cif v"
  by (simp_all add: dn_line_def Let_def)

text \<open>The fields a live customer line copies without cleaning.\<close>

definition live_columns :: "(json_value \<Rightarrow> string) \<Rightarrow> cif_data \<Rightarrow> bool" where
  "live_columns sprint data \<longleftrightarrow>
     list_all (\<lambda>k. column_text (string_value sprint (map_of data k)))
       [''id'', ''namanasabah'', ''perorangan_noktp'', ''profilresiko_identitasnasabah'', ''datauntuksid_golongandebitur'',
        ''datauntuksid_dati2debitur'']
     \<and> column_text (object_string sprint (map_of data ''dataktp_tgllahir'') ''date'')"

lemma cut_byte_column: "column_text s \<Longrightarrow> column_text (fst (cut_byte c s))"
  by (induction s) (auto split: prod.split)

lemma live_dn_line_columns:
  assumes "clean_mso mso" and "live_columns sprint data"
  shows "list_all column_text (live_dn_line sprint mso data)"
  using assms company_debtor_type_column [OF assms(1), of "string_value sprint (map_of data ''datauntuksid_golongandebitur'')"]
    cut_byte_column [of "object_string sprint (map_of data ''dataktp_tgllahir'') ''date''" "CHR '' ''"]
  by (simp add: live_dn_line_def Let_def value_if_def live_columns_def normalize_dati2_column split: option.split)

lemma live_dn_line_shape:
  "length (live_dn_line sprint mso data) = 19" "live_dn_line sprint mso data ! 0 = ''D''"
  "live_dn_line sprint mso data ! 1 = string_value sprint (map_of data ''id'')"
  by (simp_all add: live_dn_line_def Let_def case_prod_beta)

section \<open>Files\<close>

definition lines_of :: "string \<Rightarrow> string list" where
  "lines_of content = map drop_nl (split_lines content)"

lemma lines_of_line: "nl \<notin> set l \<Longrightarrow> lines_of (l @ nl # rest) = l # lines_of rest"
  by (simp add: lines_of_def split_lines_line drop_nl_def)

lemma split_lines_last: "nl \<notin> set l \<Longrightarrow> l \<noteq> [] \<Longrightarrow> split_lines l = [l]"
proof (induction l)
  case (Cons c l)
  then show ?case by (cases "l = []") auto
qed simp

lemma lines_of_rows: "\<forall>r \<in> set rows. nl \<notin> set r \<Longrightarrow> lines_of (rows_body rows @ rest) = rows @ lines_of rest"
proof (induction rows)
  case (Cons r rows)
  have "rows_body (r # rows) @ rest = r @ nl # (rows_body rows @ rest)" by (cases rows) (simp_all add: rows_body_def)
  then show ?case using Cons lines_of_line [of r "rows_body rows @ rest"] by simp
qed (simp add: rows_body_def)

lemma lines_of_join: "\<forall>r \<in> set rows. nl \<notin> set r \<and> r \<noteq> [] \<Longrightarrow> lines_of (join [nl] rows) = rows"
proof (induction "[nl]" rows rule: join.induct)
  case (2 x)
  then have "drop_nl x = x" by (auto simp: drop_nl_def dest: last_in_set)
  then show ?case using 2 by (simp add: lines_of_def split_lines_last)
next
  case (3 x y zs)
  then show ?case using lines_of_line [of x "join [nl] (y # zs)"] by simp
qed (simp add: lines_of_def)

lemma count_rows_body: "\<forall>r \<in> set rows. nl \<notin> set r \<Longrightarrow> count_list (rows_body rows) nl = length rows"
proof (induction rows)
  case (Cons r rows)
  have "rows_body (r # rows) = r @ nl # rows_body rows" by (cases rows) (simp_all add: rows_body_def)
  moreover have "count_list r nl = 0" using Cons.prems by (simp add: count_list_0_iff)
  ultimately show ?case using Cons by simp
qed (simp add: rows_body_def)

definition header_line :: "lps_input \<Rightarrow> nat \<Rightarrow> string" where
  "header_line inp n =
     ''H|'' @ li_participant_code inp @ ''|'' @ li_reporting_date inp @ ''|'' @ li_period inp @ ''|'' @ li_version inp @ ''|'' @ itoa (int n)"

lemma build_file_content_header: "build_file_content inp n body = header_line inp n @ nl # body"
  by (simp add: build_file_content_def header_line_def Let_def)

lemma runes_concat: "concat (runes s) = s"
proof (induction s rule: runes.induct)
  case (1 s)
  then show ?case by (cases "s = []") (simp_all add: runes.simps [of s] runes.simps [of "[]"])
qed

lemma continuation_high: "second_ok b c \<Longrightarrow> 0x80 \<le> byte c" "is_cont c \<Longrightarrow> 0x80 \<le> byte c"
  by (auto simp: second_ok_def is_cont_def split: if_split_asm)

lemma wide_rune_high: "rune_width s \<noteq> 1 \<Longrightarrow> c \<in> set (take (rune_width s) s) \<Longrightarrow> 0x80 \<le> byte c"
proof (cases s)
  case (Cons b r)
  assume w: "rune_width s \<noteq> 1" "c \<in> set (take (rune_width s) s)"
  have b: "0x80 \<le> byte b" using w(1) by (simp add: Cons rune_width_def split: if_split_asm)
  have "\<forall>x \<in> set (take (rune_width s - 1) r). 0x80 \<le> byte x"
    unfolding Cons rune_width_def
    by (auto split: list.split dest: continuation_high simp del: One_nat_def)
  then show ?thesis using w(2) b by (cases "rune_width s") (auto simp: Cons)
qed (simp add: rune_width_def)

lemma rune_width_newline: "nl \<in> set (take (rune_width s) s) \<Longrightarrow> rune_width s = 1"
  using wide_rune_high [of s nl] by (fastforce simp: byte_def)

lemma runes_newline: "r \<in> set (runes s) \<Longrightarrow> nl \<in> set r \<Longrightarrow> r = [nl]"
proof (induction s rule: runes.induct)
  case (1 s)
  show ?case
  proof (cases "r = take (rune_width s) s")
    case True
    then have "rune_width s = 1" using "1.prems"(2) rune_width_newline by blast
    then show ?thesis using True "1.prems"(2) by (cases s) auto
  next
    case False
    then show ?thesis using 1 by (cases "s = []") (auto simp: runes.simps [of s] runes.simps [of "[]"])
  qed
qed

lemma safe_token_line: "safe_token letter v \<Longrightarrow> nl \<notin> set v"
proof
  assume t: "safe_token letter v" and "nl \<in> set v"
  then obtain r where r: "r \<in> set (runes v)" "nl \<in> set r" using runes_concat [of v] by (metis (no_types) UN_E set_concat)
  then have "token_rune letter [nl]" using t runes_newline [OF r] by (auto simp: safe_token_def list_all_iff)
  then show False by (simp add: token_rune_def is_alnum_def is_digit_def byte_def)
qed

lemma validated_header: "lps_validate letter inp = Inr d \<Longrightarrow> nl \<notin> set (header_line inp n) \<and> list_all is_digit (li_reporting_date inp)"
  using column_text_digits column_text_itoa [of "int n"]
  by (auto simp: lps_validate_def lps_digits_def header_line_def column_text_def dest: safe_token_line split: if_split_asm)

section \<open>The archive\<close>

lemma file_names_order:
  "file_name ''DK'' inp \<le> file_name ''DN'' inp" "file_name ''DN'' inp \<le> file_name ''DSJ'' inp"
  "file_name ''DSJ'' inp \<le> file_name ''DSN'' inp" "file_name ''DK'' inp \<le> file_name ''DSJ'' inp"
  "\<not> file_name ''DSN'' inp \<le> file_name ''DK'' inp" "\<not> file_name ''DSN'' inp \<le> file_name ''DSJ'' inp"
  "\<not> file_name ''DN'' inp \<le> file_name ''DK'' inp"
  by (simp_all add: file_name_def)

lemma generate_Inr:
  assumes "generate src inp = Inr (result, files)"
  obtains date b dn additional dsn dk where "lps_validate (ls_letter src) inp = Inr date" "lps_download src date = Inr b"
    "lps_rows src (li_reporting_date inp) b = Inr (dn, additional, dsn, dk)"
    "lr_dn_rows result = count_list (rows_body dn) nl + length additional"
    "lr_dsn_rows result = count_list (rows_body dsn) nl" "lr_dk_rows result = count_list (rows_body dk) nl"
    "files = [(file_name ''DK'' inp, build_file_content inp (lr_dk_rows result) (rows_body dk)),
       (file_name ''DN'' inp, build_file_content inp (lr_dn_rows result) (rows_body dn @ join [nl] additional)),
       (file_name ''DSJ'' inp, build_file_content inp 0 ''''),
       (file_name ''DSN'' inp, build_file_content inp (lr_dsn_rows result) (rows_body dsn))]"
proof -
  obtain date where v: "lps_validate (ls_letter src) inp = Inr date"
    using assms by (cases "lps_validate (ls_letter src) inp") (simp_all add: generate_def)
  obtain b where d: "lps_download src date = Inr b"
    using assms by (cases "lps_download src date") (simp_all add: generate_def v)
  obtain dn additional dsn dk where r: "lps_rows src (li_reporting_date inp) b = Inr (dn, additional, dsn, dk)"
    using assms by (cases "lps_rows src (li_reporting_date inp) b") (auto simp: generate_def v d)
  have ok: "ls_archive_ok src" using assms by (simp add: generate_def v d r Let_def split: if_split_asm)
  show ?thesis
    using assms by (intro that [OF v d r]) (auto simp: generate_def v d r ok Let_def file_names_order)
qed

lemma complete_missing_Inr:
  assumes "complete_missing_dn line deliver seen needed = Inr rows"
    and "needed \<subseteq> seen \<or> pool_outcome (needed - seen) (deliver (needed - seen))"
  shows "\<exists>cifs. distinct cifs \<and> set cifs = needed - seen \<and> map line cifs = map Inr rows"
proof (cases "needed \<subseteq> seen")
  case True
  then show ?thesis using assms(1) by (auto simp: complete_missing_dn_def)
next
  case False
  obtain arrivals cancelled where d: "deliver (needed - seen) = (arrivals, cancelled)" by (cases "deliver (needed - seen)")
  have "map line arrivals = map Inr rows" "\<not> cancelled"
    using assms(1) False d
    by (auto simp: complete_missing_dn_def collect_results_Inr [symmetric] split: sum.split_asm if_split_asm)
  moreover have "distinct arrivals" "set arrivals = needed - seen"
    using pool_outcome_results [of "needed - seen" arrivals cancelled] assms(2) d False calculation(2) by auto
  ultimately show ?thesis by blast
qed

text \<open>
  What the report takes from outside as it is: files without quotation marks, debtor types and core-banking fields
  that fit into a column, documents of the customer asked for, and a finished pool.
\<close>

definition clean_sources :: "lps_sources \<Rightarrow> bool" where
  "clean_sources src \<longleftrightarrow>
     (\<forall>file path body. ls_maintenance src file path = Inr body \<longrightarrow> unquoted body)
     \<and> (\<forall>name params body. ls_named src name params = Inr body \<longrightarrow> unquoted body)
     \<and> clean_mso (ls_mso src)
     \<and> (\<forall>cif data. ls_cif src cif = Inr data \<longrightarrow>
          live_columns (ls_sprint src) data \<and> string_value (ls_sprint src) (map_of data ''id'') = cif)
     \<and> (\<forall>M. M \<noteq> {} \<longrightarrow> finite M \<longrightarrow> pool_outcome M (ls_deliver src M))"

lemma lps_download_unquoted:
  assumes "lps_download src date = Inr b" and "clean_sources src"
  shows "unquoted (lb_customer b) \<and> unquoted (lb_savings b) \<and> unquoted (lb_deposit b) \<and> unquoted (lb_standing b) \<and> unquoted (lb_loan b)"
  using assms unfolding lps_download_def Let_def by (auto simp: res_simps clean_sources_def)

lemma build_dk_finite: "build_dk conv body detail = Inr (rows, cifs) \<Longrightarrow> finite cifs"
  unfolding build_dk_def Let_def
  by (auto dest!: account_lines_sound(2) split: sum.split_asm if_split_asm)

lemma build_dsn_finite: "build_dsn conv a b c d e rates = Inr (rows, cifs) \<Longrightarrow> finite cifs"
  unfolding build_dsn_def Let_def
  by (auto dest!: account_lines_sound(2) split: sum.split_asm if_split_asm)

lemma data_line_shape:
  assumes "list_all column_text xs" and "length xs = n" and "0 < n" and "xs ! 0 = ''D''" and "xs ! k \<in> cifs"
  shows "data_line n k cifs (join ''|'' xs)"
  using assms by (intro data_line_join) (auto simp: hd_conv_nth)

lemma data_line_mono: "data_line n k A l \<Longrightarrow> A \<subseteq> B \<Longrightarrow> data_line n k B l"
  by (auto simp: data_line_def)

definition column :: "nat \<Rightarrow> string \<Rightarrow> string" where
  "column k l = split_byte (CHR ''|'') l ! k"

lemma column_join: "list_all column_text xs \<Longrightarrow> k < length xs \<Longrightarrow> column k (join ''|'' xs) = xs ! k"
  using join_columns(1) [of xs] by (cases xs) (auto simp: column_def)

lemma build_dn_lines:
  assumes "clean_mso mso" and "\<And>v. v \<in> set cs \<Longrightarrow> customer_columns v"
  shows "map (column 1) (build_dn mso cs) = map cu_cif cs" and "list_all (data_line 19 1 (cu_cif ` set cs)) (build_dn mso cs)"
proof -
  have ok: "list_all column_text (dn_line mso v)" if "v \<in> set cs" for v
    using dn_line_columns [OF assms(1)] assms(2) that by blast
  then show "map (column 1) (build_dn mso cs) = map cu_cif cs"
    by (simp add: build_dn_def column_join dn_line_shape del: One_nat_def)
  show "list_all (data_line 19 1 (cu_cif ` set cs)) (build_dn mso cs)"
    unfolding build_dn_def list_all_iff using ok
    by (auto intro!: data_line_shape simp: dn_line_shape simp del: One_nat_def)
qed

lemma live_lines:
  assumes "clean_sources src" and "map (live_line src) cifs = map Inr rows"
  shows "map (column 1) rows = cifs \<and> list_all (data_line 19 1 (set cifs)) rows"
proof -
  have row: "column 1 r = c \<and> data_line 19 1 {c} r" if l: "live_line src c = Inr r" for c r
  proof -
    obtain data where data: "ls_cif src c = Inr data" "r = join ''|'' (live_dn_line (ls_sprint src) (ls_mso src) data)"
      using l by (auto simp: live_line_def build_live_dn_def split: sum.split_asm)
    have d: "live_columns (ls_sprint src) data" "string_value (ls_sprint src) (map_of data ''id'') = c" "clean_mso (ls_mso src)"
      using assms(1) data(1) by (auto simp: clean_sources_def)
    note ok = live_dn_line_columns [OF d(3,1)]
    show ?thesis
      using data_line_shape [OF ok live_dn_line_shape(1) _ live_dn_line_shape(2), of 1 "{c}"] column_join [OF ok, of 1] d(2)
      by (simp add: data(2) live_dn_line_shape del: One_nat_def)
  qed
  show ?thesis using assms(2)
  proof (induction cifs arbitrary: rows)
    case (Cons c cs)
    then obtain r rs where r: "rows = r # rs" "live_line src c = Inr r" "map (live_line src) cs = map Inr rs" by (cases rows) auto
    have "list_all (data_line 19 1 (set (c # cs))) rs"
      using Cons.IH [OF r(3)] data_line_mono [of 19 1 "set cs" _ "set (c # cs)"] by (auto simp: list_all_iff)
    then show ?case using Cons.IH [OF r(3)] row [OF r(2)] data_line_mono [of 19 1 "{c}" r "set (c # cs)"] by (simp add: r(1))
  qed simp
qed

lemma lps_rows_lines:
  assumes rows: "lps_rows src d b = Inr (dn, additional, dsn, dk)" and src: "clean_sources src" and date: "list_all is_digit d"
    and b: "unquoted (lb_customer b) \<and> unquoted (lb_savings b) \<and> unquoted (lb_deposit b) \<and> unquoted (lb_standing b) \<and> unquoted (lb_loan b)"
  shows "distinct (map (column 1) (dn @ additional))
    \<and> list_all (data_line 19 1 (column 1 ` set (dn @ additional))) (dn @ additional)
    \<and> list_all (data_line 19 3 (column 1 ` set (dn @ additional))) dsn
    \<and> list_all (data_line 13 1 (column 1 ` set (dn @ additional))) dk"
proof -
  obtain cs seen dsn_cif dk_cif where c: "parse_customers (lb_customer b) = Inr (cs, seen)"
    and s: "build_dsn (ls_conv src) (lb_savings b) (lb_deposit b) (lb_balance b) (lb_standing b) d (lb_rates b) = Inr (dsn, dsn_cif)"
    and k: "build_dk (ls_conv src) (lb_loan b) (lb_detail b) = Inr (dk, dk_cif)"
    and m: "complete_missing_dn (live_line src) (ls_deliver src) seen (dsn_cif \<union> dk_cif) = Inr additional"
    and dn: "dn = build_dn (ls_mso src) cs"
    using rows unfolding lps_rows_def by (auto simp: res_simps)
  obtain t where t: "parse_table (lb_customer b) = Inr t"
    "customer_rows (\<lambda>row c. value_at row (table_index t c)) {} (tb_rows t) = (cs, seen)"
    using c by (auto simp: parse_customers_def split: sum.split_asm if_split_asm)
  note cust = customer_rows_props [OF t(2)]
  have cols: "customer_columns v" if "v \<in> set cs" for v
    using customer_rows_columns [of "tb_rows t" "\<lambda>row c. value_at row (table_index t c)" v "{}"] t(2) that
      parse_table_columns [OF t(1)] b value_at_column by auto
  note base = build_dn_lines [OF _ cols, of "ls_mso src" cs, folded dn]
  let ?needed = "dsn_cif \<union> dk_cif"
  have "finite ?needed" using build_dsn_finite [OF s] build_dk_finite [OF k] by simp
  then have "?needed \<subseteq> seen \<or> pool_outcome (?needed - seen) (ls_deliver src (?needed - seen))"
    using src unfolding clean_sources_def by (metis Diff_eq_empty_iff finite_Diff)
  then obtain cifs where cifs: "distinct cifs" "set cifs = ?needed - seen" "map (live_line src) cifs = map Inr additional"
    using complete_missing_Inr [OF m] by blast
  note live = live_lines [OF src cifs(3)]
  have mso: "clean_mso (ls_mso src)" using src by (simp add: clean_sources_def)
  have ids: "map (column 1) (dn @ additional) = map cu_cif cs @ cifs" using base(1) [OF mso] live by simp
  then have all: "column 1 ` set (dn @ additional) = cu_cif ` set cs \<union> set cifs" by (metis list.set_map set_append)
  have needed: "?needed \<subseteq> column 1 ` set (dn @ additional)" using cifs(2) cust all by auto
  have "distinct (map (column 1) (dn @ additional))" using cust cifs ids by auto
  moreover have "list_all (data_line 19 1 (column 1 ` set (dn @ additional))) (dn @ additional)"
    using base(2) [OF mso] live all data_line_mono [of 19 1] by (fastforce simp: list_all_iff)
  moreover have "list_all (data_line 19 3 (column 1 ` set (dn @ additional))) dsn"
    using dsn_line [OF s] b date needed data_line_mono [of 19 3 dsn_cif] by (auto simp: list_all_iff)
  moreover have "list_all (data_line 13 1 (column 1 ` set (dn @ additional))) dk"
    using dk_line [OF k] b needed data_line_mono [of 13 1 dk_cif] by (auto simp: list_all_iff)
  ultimately show ?thesis by blast
qed

text \<open>The lines of a file of the archive after its header.\<close>

definition data_lines :: "(string \<times> string) list \<Rightarrow> lps_input \<Rightarrow> string \<Rightarrow> string list" where
  "data_lines files inp kind = (case map_of files (file_name kind inp) of None \<Rightarrow> [] | Some content \<Rightarrow> tl (lines_of content))"

lemma file_names_distinct:
  "file_name ''DN'' inp \<noteq> file_name ''DK'' inp" "file_name ''DSJ'' inp \<noteq> file_name ''DK'' inp" "file_name ''DSN'' inp \<noteq> file_name ''DK'' inp"
  "file_name ''DSJ'' inp \<noteq> file_name ''DN'' inp" "file_name ''DSN'' inp \<noteq> file_name ''DN'' inp" "file_name ''DSN'' inp \<noteq> file_name ''DSJ'' inp"
  by (simp_all add: file_name_def)

lemma data_line_nonempty: "data_line n k A l \<Longrightarrow> nl \<notin> set l \<and> l \<noteq> []"
  by (auto simp: data_line_def)

lemma file_content_lines:
  assumes "nl \<notin> set (header_line inp n)" and "list_all (data_line a k A) rows" and "list_all (data_line a k A) extra"
  shows "lines_of (build_file_content inp n (rows_body rows @ join [nl] extra)) = header_line inp n # rows @ extra"
    and "count_list (rows_body rows) nl = length rows"
proof -
  have r: "\<forall>r \<in> set rows. nl \<notin> set r" "\<forall>r \<in> set extra. nl \<notin> set r \<and> r \<noteq> []"
    using assms(2,3) by (auto simp: list_all_iff dest: data_line_nonempty)
  show "lines_of (build_file_content inp n (rows_body rows @ join [nl] extra)) = header_line inp n # rows @ extra"
    using r by (simp add: build_file_content_header lines_of_line assms(1) lines_of_rows lines_of_join)
  show "count_list (rows_body rows) nl = length rows" using r(1) by (rule count_rows_body)
qed

lemma generate_lines:
  assumes "generate src inp = Inr (result, files)" and "clean_sources src"
  obtains dn dsn dk where
    "map fst files = map (\<lambda>kind. file_name kind inp) [''DK'', ''DN'', ''DSJ'', ''DSN'']"
    "map (\<lambda>(_, content). lines_of content) files =
       [header_line inp (length dk) # dk, header_line inp (length dn) # dn, [header_line inp 0], header_line inp (length dsn) # dsn]"
    "lr_dn_rows result = length dn" "lr_dsn_rows result = length dsn" "lr_dk_rows result = length dk"
    "data_lines files inp ''DN'' = dn" "data_lines files inp ''DSN'' = dsn" "data_lines files inp ''DK'' = dk"
    "distinct (map (column 1) dn)" "list_all (data_line 19 1 (column 1 ` set dn)) dn"
    "list_all (data_line 19 3 (column 1 ` set dn)) dsn" "list_all (data_line 13 1 (column 1 ` set dn)) dk"
proof -
  obtain date b dn0 additional dsn dk where v: "lps_validate (ls_letter src) inp = Inr date" "lps_download src date = Inr b"
    and rows: "lps_rows src (li_reporting_date inp) b = Inr (dn0, additional, dsn, dk)"
    and counts: "lr_dn_rows result = count_list (rows_body dn0) nl + length additional"
      "lr_dsn_rows result = count_list (rows_body dsn) nl" "lr_dk_rows result = count_list (rows_body dk) nl"
    and files: "files = [(file_name ''DK'' inp, build_file_content inp (lr_dk_rows result) (rows_body dk)),
       (file_name ''DN'' inp, build_file_content inp (lr_dn_rows result) (rows_body dn0 @ join [nl] additional)),
       (file_name ''DSJ'' inp, build_file_content inp 0 ''''),
       (file_name ''DSN'' inp, build_file_content inp (lr_dsn_rows result) (rows_body dsn))]"
    using assms(1) by (rule generate_Inr)
  have h: "nl \<notin> set (header_line inp n)" for n using validated_header [OF v(1)] by blast
  have d: "list_all is_digit (li_reporting_date inp)" using validated_header [OF v(1)] by blast
  let ?dn = "dn0 @ additional" and ?A = "column 1 ` set (dn0 @ additional)"
  note lines = lps_rows_lines [OF rows assms(2) d lps_download_unquoted [OF v(2) assms(2)]]
  have l: "list_all (data_line 19 1 ?A) dn0" "list_all (data_line 19 1 ?A) additional" "list_all (data_line 19 3 ?A) dsn"
    "list_all (data_line 13 1 ?A) dk" using lines by auto
  note c = file_content_lines(1) [OF h l(1,2)] file_content_lines(1) [OF h l(3), of "[]"] file_content_lines(1) [OF h l(4), of "[]"]
    and n = file_content_lines(2) [OF h l(1,2)] file_content_lines(2) [OF h l(3), of "[]"] file_content_lines(2) [OF h l(4), of "[]"]
  have e: "lines_of (build_file_content inp 0 '''') = [header_line inp 0]"
    using h [of 0] lines_of_line [of "header_line inp 0" "''''"] by (simp add: build_file_content_header) (simp add: lines_of_def)
  show thesis
    using lines c n e counts
    by (intro that [of dk ?dn dsn]) (simp_all add: files data_lines_def file_names_distinct file_names_distinct [symmetric])
qed

section \<open>Properties of the report\<close>





text \<open>The order in which the customers are sent is one order of delivery.\<close>

lemma pool_sequential:
  "pool_step\<^sup>*\<^sup>* \<lparr>po_todo = cifs, po_busy = [], po_results = rs, po_cancelled = False\<rparr>
     \<lparr>po_todo = [], po_busy = [], po_results = rs @ cifs, po_cancelled = False\<rparr>"
proof (induction cifs arbitrary: rs)
  case (Cons c cs)
  let ?s = "\<lparr>po_todo = c # cs, po_busy = [], po_results = rs, po_cancelled = False\<rparr>"
  let ?t = "\<lparr>po_todo = cs, po_busy = [c], po_results = rs, po_cancelled = False\<rparr>"
  have "pool_step ?s ?t" using pool_step.send [of ?s c cs] by (simp add: pool_workers_def)
  moreover have "pool_step ?t \<lparr>po_todo = cs, po_busy = [], po_results = rs @ [c], po_cancelled = False\<rparr>"
    using pool_step.deliver [of c ?t] by simp
  ultimately show ?case using Cons.IH [of "rs @ [c]"] by (simp add: converse_rtranclp_into_rtranclp)
qed simp

lemma pool_outcome_sequential:
  assumes "finite M"
  shows "pool_outcome M (sorted_list_of_set M, False)"
  unfolding pool_outcome_def
  by (intro exI [of _ "sorted_list_of_set M"] exI [of _ "\<lparr>po_todo = [], po_busy = [], po_results = sorted_list_of_set M, po_cancelled = False\<rparr>"])
    (use assms pool_sequential [of "sorted_list_of_set M" "[]"] in \<open>simp add: pool_start_def pool_done_def\<close>)

section \<open>A sample run\<close>

definition sample_files :: "(string \<times> string list list) list" where
  "sample_files =
     [(''cbrcustomer.csv'', [dn_columns, [''7'', '''', ''Perorangan'', ''BUDI'', ''KTP'', '''', ''SITI'', ''1980-01-02'', '''', '''', '''',
        ''JL. MAWAR 1'', ''9999'', '''', '''']]),
      (''cbrsavings.csv'', [dsn_columns]), (''cbrtimedeposit.csv'', [dsn_columns]),
      (''Time Deposit Account Balance Details.csv'', [[''Account No'']]),
      (''cbrloan.csv'', [dk_columns, [''9'', ''L1'', ''1'', '''', '''', '''', ''2024-01-01'', ''2025-01-01'']]),
      (''DetailOutstandingRekeningPinjaman.csv'', [[''no_rekening'']])]"

definition sample_sources :: lps_sources where
  "sample_sources =
     \<lparr>ls_rates = Inr [],
      ls_maintenance = (\<lambda>file _. case map_of sample_files file of None \<Rightarrow> Inl [] | Some rows \<Rightarrow> Inr (plain_text new_csv_reader rows)),
      ls_named = (\<lambda>_ _. Inr (plain_text new_csv_reader [[''Destination Account Number'']])),
      ls_cif = (\<lambda>cif. if cif = ''9'' then Inr [(''id'', JvText ''9''), (''namanasabah'', JvText ''PT MELATI'')] else Inl []),
      ls_mso = (\<lambda>_. NoRows), ls_deliver = (\<lambda>M. (sorted_list_of_set M, False)), ls_archive_ok = True,
      ls_conv = (\<lambda>_. 0), ls_sprint = (\<lambda>_. ''''), ls_letter = (\<lambda>_. False)\<rparr>"

definition sample_input :: lps_input where
  "sample_input = \<lparr>li_participant_code = ''12345678'', li_reporting_date = ''20260630'', li_period = ''M'', li_version = ''1''\<rparr>"

lemma sample_rows_plain:
  "list_all (\<lambda>(_, rows). list_all (plain_row new_csv_reader) rows) sample_files"
  "plain_row new_csv_reader [''Destination Account Number'']" "config_ok new_csv_reader"
  by code_simp+

lemma plain_text_unquoted:
  assumes "config_ok c" and "list_all (plain_row c) rows"
  shows "unquoted (plain_text c rows)"
proof -
  have "quote \<notin> set (join [cf_comma c] r @ [nl])" if "r \<in> set rows" for r
    using assms that join_set [of "[cf_comma c]" r]
    by (fastforce simp: config_ok_def plain_row_def plain_field_def list_all_iff)
  then show ?thesis by (auto simp: unquoted_def plain_text_def)
qed

lemma sample_clean: "clean_sources sample_sources"
proof -
  have u: "unquoted (plain_text new_csv_reader rows)" if "map_of sample_files name = Some rows" for name rows
    using sample_rows_plain(1,3) map_of_SomeD [OF that] by (intro plain_text_unquoted) (auto simp: list_all_iff)
  have "live_columns (ls_sprint sample_sources) [(''id'', JvText ''9''), (''namanasabah'', JvText ''PT MELATI'')]"
    by code_simp
  then show ?thesis
    using u plain_text_unquoted [OF sample_rows_plain(3), of "[[''Destination Account Number'']]"] sample_rows_plain(2)
      pool_outcome_sequential
    by (simp add: clean_sources_def sample_sources_def clean_mso_def string_value_def split: option.split)
qed

lemma parse_plain:
  assumes "list_all (plain_row new_csv_reader) (h # rows)"
  shows "parse_table (plain_text new_csv_reader (h # rows)) = Inr \<lparr>tb_header = h, tb_rows = rows\<rparr>"
  using csv_records_plain [OF sample_rows_plain(3) assms] by (simp add: parse_table_def)

lemma sample_lookup:
  "map_of sample_files ''cbrcustomer.csv'' = Some (snd (sample_files ! 0))" "map_of sample_files ''cbrsavings.csv'' = Some [dsn_columns]"
  "map_of sample_files ''cbrtimedeposit.csv'' = Some [dsn_columns]"
  "map_of sample_files ''Time Deposit Account Balance Details.csv'' = Some [[''Account No'']]"
  "map_of sample_files ''cbrloan.csv'' = Some (snd (sample_files ! 4))"
  "map_of sample_files ''DetailOutstandingRekeningPinjaman.csv'' = Some [[''no_rekening'']]"
  by (simp_all add: sample_files_def)

lemma sample_plain:
  "list_all (plain_row new_csv_reader) (snd (sample_files ! 0))" "list_all (plain_row new_csv_reader) [dsn_columns]"
  "list_all (plain_row new_csv_reader) (snd (sample_files ! 4))" "list_all (plain_row new_csv_reader) [[''Account No'']]"
  "list_all (plain_row new_csv_reader) [[''no_rekening'']]" "list_all (plain_row new_csv_reader) [[''Destination Account Number'']]"
  by code_simp+

lemma sample_tables:
  "parse_table (plain_text new_csv_reader (snd (sample_files ! 0))) = Inr \<lparr>tb_header = dn_columns, tb_rows = tl (snd (sample_files ! 0))\<rparr>"
  "parse_table (plain_text new_csv_reader (snd (sample_files ! 4))) = Inr \<lparr>tb_header = dk_columns, tb_rows = tl (snd (sample_files ! 4))\<rparr>"
  "parse_table (plain_text new_csv_reader [dsn_columns]) = Inr \<lparr>tb_header = dsn_columns, tb_rows = []\<rparr>"
  "transpose_table (plain_text new_csv_reader [[''Account No'']]) ''Account No'' = Inr Map.empty"
  "transpose_table (plain_text new_csv_reader [[''no_rekening'']]) ''no_rekening'' = Inr Map.empty"
  "transpose_table (plain_text new_csv_reader [[''Destination Account Number'']]) ''Destination Account Number'' = Inr Map.empty"
proof -
  have "snd (sample_files ! 0) = dn_columns # tl (snd (sample_files ! 0))" "snd (sample_files ! 4) = dk_columns # tl (snd (sample_files ! 4))"
    by (simp_all add: sample_files_def)
  then show "parse_table (plain_text new_csv_reader (snd (sample_files ! 0))) = Inr \<lparr>tb_header = dn_columns, tb_rows = tl (snd (sample_files ! 0))\<rparr>"
    "parse_table (plain_text new_csv_reader (snd (sample_files ! 4))) = Inr \<lparr>tb_header = dk_columns, tb_rows = tl (snd (sample_files ! 4))\<rparr>"
    using sample_plain(1,3) parse_plain by metis+
  show "parse_table (plain_text new_csv_reader [dsn_columns]) = Inr \<lparr>tb_header = dsn_columns, tb_rows = []\<rparr>"
    using sample_plain(2) by (rule parse_plain)
  have t: "trim_space ''Account No'' = ''Account No''" "trim_space ''no_rekening'' = ''no_rekening''"
    "trim_space ''Destination Account Number'' = ''Destination Account Number''" by code_simp+
  show "transpose_table (plain_text new_csv_reader [[''Account No'']]) ''Account No'' = Inr Map.empty"
    "transpose_table (plain_text new_csv_reader [[''no_rekening'']]) ''no_rekening'' = Inr Map.empty"
    "transpose_table (plain_text new_csv_reader [[''Destination Account Number'']]) ''Destination Account Number'' = Inr Map.empty"
    using sample_plain(4-6) [THEN parse_plain] t by (simp_all add: transpose_table_def table_index_def transpose_rows_def)
qed

lemma sample_customers:
  "case parse_customers (plain_text new_csv_reader (snd (sample_files ! 0))) of Inl _ \<Rightarrow> False | Inr (_, seen) \<Rightarrow> seen = {''7''}"
  unfolding parse_customers_def sample_tables by code_simp

lemma sample_dsn:
  "build_dsn conv (plain_text new_csv_reader [dsn_columns]) (plain_text new_csv_reader [dsn_columns])
     (plain_text new_csv_reader [[''Account No'']]) (plain_text new_csv_reader [[''Destination Account Number'']]) d rates = Inr ([], {})"
proof -
  have "\<not> list_ex (\<lambda>c. table_index \<lparr>tb_header = dsn_columns, tb_rows = []\<rparr> c = None) dsn_columns" by code_simp
  then show ?thesis by (auto simp: build_dsn_def sample_tables Let_def list_ex_iff)
qed

lemma sample_dk:
  "case build_dk (\<lambda>_. 0) (plain_text new_csv_reader (snd (sample_files ! 4))) (plain_text new_csv_reader [[''no_rekening'']]) of
     Inl _ \<Rightarrow> False | Inr (rows, cifs) \<Rightarrow> rows = [''D|9|L1|03|1|0|0|0|0|300|20240101|20250101|4''] \<and> cifs = {''9''}"
  unfolding build_dk_def sample_tables by code_simp

lemma sample_generate: "\<exists>result files. generate sample_sources sample_input = Inr (result, files)"
proof -
  have v: "\<exists>d. lps_validate (ls_letter sample_sources) sample_input = Inr d"
  proof -
    have "case lps_validate (\<lambda>_. False) sample_input of Inl _ \<Rightarrow> False | Inr _ \<Rightarrow> True" by code_simp
    then show ?thesis by (auto simp: sample_sources_def split: sum.split_asm)
  qed
  obtain customers where c: "parse_customers (plain_text new_csv_reader (snd (sample_files ! 0))) = Inr (customers, {''7''})"
    using sample_customers by (auto split: sum.split_asm)
  have k: "build_dk (\<lambda>_. 0) (plain_text new_csv_reader (snd (sample_files ! 4))) (plain_text new_csv_reader [[''no_rekening'']])
      = Inr ([''D|9|L1|03|1|0|0|0|0|300|20240101|20250101|4''], {''9''})"
    using sample_dk by (auto split: sum.split_asm)
  have d: "lps_download sample_sources date = Inr \<lparr>lb_rates = [], lb_customer = plain_text new_csv_reader (snd (sample_files ! 0)),
      lb_savings = plain_text new_csv_reader [dsn_columns], lb_deposit = plain_text new_csv_reader [dsn_columns],
      lb_balance = plain_text new_csv_reader [[''Account No'']], lb_standing = plain_text new_csv_reader [[''Destination Account Number'']],
      lb_loan = plain_text new_csv_reader (snd (sample_files ! 4)), lb_detail = plain_text new_csv_reader [[''no_rekening'']]\<rparr>" for date
    by (simp add: lps_download_def Let_def sample_sources_def sample_lookup download_loan_details_def)
  have m: "\<exists>additional. complete_missing_dn (live_line sample_sources) (ls_deliver sample_sources) {''7''} ({} \<union> {''9''}) = Inr additional"
  proof -
    have "{''9''} - {''7''} = {''9''}" by auto
    then show ?thesis by (simp add: complete_missing_dn_def sample_sources_def live_line_def)
  qed
  obtain date where v': "lps_validate (ls_letter sample_sources) sample_input = Inr date" using v by blast
  obtain additional where m': "complete_missing_dn (live_line sample_sources) (ls_deliver sample_sources) {''7''} ({} \<union> {''9''}) = Inr additional"
    using m by blast
  have "ls_conv sample_sources = (\<lambda>_. 0)" "ls_archive_ok sample_sources" by (simp_all add: sample_sources_def)
  then show ?thesis
    using m' by (simp add: generate_def v' d lps_rows_def c k sample_dsn Let_def del: Un_empty_left)
qed



section \<open>What the cleaning misses\<close>

text \<open>
  The name of a customer fetched from the core-banking system is not cleaned, as the name of the daily file is: a separator
  in it moves the columns after it.
\<close>

lemma live_name_uncleaned:
  "length (split_byte (CHR ''|'') (build_live_dn (\<lambda>_. '''') (\<lambda>_. NoRows)
     [(''jenisnasabah'', JvText ''Perorangan''), (''id'', JvText ''7''), (''namanasabah'', JvText ''BUDI|SITI'')])) \<noteq> 19"
proof -
  have dati: "column_text (normalize_dati2 '''')" by (rule normalize_dati2_column) simp
  let ?data = "[(''jenisnasabah'', JvText ''Perorangan''), (''id'', JvText ''7''), (''namanasabah'', JvText ''BUDI|SITI'')]"
  have "count_list (join ''|'' (live_dn_line (\<lambda>_. '''') (\<lambda>_. NoRows) ?data)) (CHR ''|'') \<noteq> 18"
    using dati
    by (simp add: live_dn_line_def Let_def string_value_def object_string_def identity_type_def value_if_def zeros16_def
        clean_alamat_def column_text_def count_list_0_iff)
  then show ?thesis by (simp add: build_live_dn_def length_split_byte)
qed

text \<open>
  The parts of the loan details must have the same column names, but not in the same order: the values of a part with
  another order end up under the names of the first part.
\<close>

lemma part_order_unchecked:
  assumes "dl (part_name 1) = Inr a" and "dl (part_name 2) = Inr b"
    and "csv_read new_csv_reader (csv_lines a) = CsvRecord [''no_rekening'', ''tunggakan_bunga''] xs"
    and "csv_read new_csv_reader (csv_lines b) = CsvRecord [''tunggakan_bunga'', ''no_rekening''] ys"
  shows "detail_parts dl [1, 2] None '''' =
    Inr (''no_rekening|tunggakan_bunga'' @ [nl] @ after_newline a @ after_newline b)"
  by (simp add: assms)

end
