(* ===== verification/Slik_Jobs.thy ===== *)
theory Slik_Jobs
  imports Loan_Model Audit_Log "HOL-Library.Product_Lexorder"
begin

text \<open>
  The SLIK job queue: the repository of \<open>src/internal/slik/repository.go\<close>, whose operations are SQL
  transactions on the tables \<open>slik_jobs\<close> and \<open>slik_job_accounts\<close>, and the worker of
  \<open>src/internal/slik/manager.go\<close>. The tables are lists of rows; an UPDATE maps the matching rows and
  reports how many matched; ids and account numbers are compared bytewise (the columns have binary
  collations). The instant \<open>UTC_TIMESTAMP(6)\<close> of a statement is its argument \<open>now\<close>, in microseconds.
\<close>

section \<open>Tables\<close>

datatype job_status = QUEUED | PROCESSING | COMPLETED | FAILED | CANCELED

datatype account_status = AccountQueued | AccountCompleted

record slik_job =
  jb_id :: string
  jb_owner_id :: int
  jb_owner_username :: string
  jb_actor_id :: int
  jb_actor_username :: string
  jb_original_filename :: string
  jb_as_of :: string
  jb_status :: job_status
  jb_total_rows :: int
  jb_total_accounts :: int
  jb_processed :: int
  jb_created_at :: int
  jb_started_at :: "int option"
  jb_finished_at :: "int option"
  jb_failed_account :: string
  jb_failure_reason :: string
  jb_input_file :: string
  jb_output_file :: string
  jb_expires_at :: "int option"

text \<open>The pair written to the workbook for an account: balance and rate.\<close>

record slik_values =
  sv_balance :: string
  sv_rate :: string

record slik_account =
  ac_job_id :: string
  ac_requested :: string
  ac_status :: account_status
  ac_primary :: string
  ac_values :: slik_values
  ac_processed_at :: "int option"

record slik_db =
  tb_jobs :: "slik_job list"
  tb_accounts :: "slik_account list"

datatype slik_error =
    SlikNotFound | SlikNotReady | SlikExpired | InvalidTerminalStatus | NoLongerProcessing
  | CheckpointMissing | CheckpointsRemain | DuplicateKey | ValidationError string | StorageError

definition no_values :: slik_values where
  "no_values = \<lparr>sv_balance = '''', sv_rate = ''''\<rparr>"

definition is_terminal :: "job_status \<Rightarrow> bool" where
  "is_terminal s \<longleftrightarrow> s \<in> {COMPLETED, FAILED, CANCELED}"

definition seven_days :: int where
  "seven_days = 7 * 24 * 3600 * 1000000"

text \<open>An UPDATE of the job table: the new table and the number of rows it matched.\<close>

definition update_jobs :: "(slik_job \<Rightarrow> bool) \<Rightarrow> (slik_job \<Rightarrow> slik_job) \<Rightarrow> slik_db \<Rightarrow> slik_db \<times> nat" where
  "update_jobs P f db =
     (db\<lparr>tb_jobs := map (\<lambda>j. if P j then f j else j) (tb_jobs db)\<rparr>, length (filter P (tb_jobs db)))"

definition update_accounts ::
  "(slik_account \<Rightarrow> bool) \<Rightarrow> (slik_account \<Rightarrow> slik_account) \<Rightarrow> slik_db \<Rightarrow> slik_db \<times> nat" where
  "update_accounts P f db =
     (db\<lparr>tb_accounts := map (\<lambda>a. if P a then f a else a) (tb_accounts db)\<rparr>, length (filter P (tb_accounts db)))"

section \<open>Repository operations\<close>

definition new_account :: "string \<Rightarrow> string \<Rightarrow> slik_account" where
  "new_account job account =
     \<lparr>ac_job_id = job, ac_requested = account, ac_status = AccountQueued, ac_primary = '''',
      ac_values = no_values, ac_processed_at = None\<rparr>"

definition account_key :: "slik_account \<Rightarrow> string \<times> string" where
  "account_key a = (ac_job_id a, ac_requested a)"

text \<open>An INSERT of account rows fails when a key is already there or occurs twice in it.\<close>

definition insert_accounts :: "slik_account list \<Rightarrow> slik_db \<Rightarrow> slik_error + slik_db" where
  "insert_accounts rows db =
     (let keys = map account_key (tb_accounts db) in
      if distinct (map account_key rows) \<and> list_all (\<lambda>r. account_key r \<notin> set keys) rows
      then Inr (db\<lparr>tb_accounts := tb_accounts db @ rows\<rparr>) else Inl DuplicateKey)"

text \<open>The loop over batches of 200.\<close>

function insert_batches :: "nat \<Rightarrow> slik_account list \<Rightarrow> slik_db \<Rightarrow> slik_error + slik_db" where
  "insert_batches chunk rows db =
     (if rows = [] \<or> chunk = 0 then Inr db
      else rbind (insert_accounts (take chunk rows) db) (insert_batches chunk (drop chunk rows)))"
  by pat_completeness auto
termination
  by (relation "measure (\<lambda>(chunk, rows, db). length rows)") auto

declare insert_batches.simps [simp del]

definition slik_create :: "slik_job \<Rightarrow> string list \<Rightarrow> slik_db \<Rightarrow> slik_error + slik_db" where
  "slik_create job accounts db =
     (if jb_id job \<in> set (map jb_id (tb_jobs db)) then Inl DuplicateKey
      else insert_batches 200 (map (new_account (jb_id job)) accounts)
        (db\<lparr>tb_jobs := tb_jobs db @
           [job\<lparr>jb_status := QUEUED, jb_total_accounts := int (length accounts), jb_processed := 0,
               jb_started_at := None, jb_finished_at := None, jb_failed_account := '''',
               jb_failure_reason := '''', jb_output_file := '''', jb_expires_at := None\<rparr>]\<rparr>))"

definition slik_get :: "string \<Rightarrow> int \<Rightarrow> bool \<Rightarrow> slik_db \<Rightarrow> slik_error + slik_job" where
  "slik_get job_id owner view_all db =
     (case find (\<lambda>j. jb_id j = job_id \<and> (view_all \<or> jb_owner_id j = owner)) (tb_jobs db) of
        None \<Rightarrow> Inl SlikNotFound | Some j \<Rightarrow> Inr j)"

definition slik_history :: "int \<Rightarrow> bool \<Rightarrow> slik_db \<Rightarrow> slik_job list" where
  "slik_history owner view_all db =
     take 30 (rev (sort_key (\<lambda>j. (jb_created_at j, jb_id j))
       (filter (\<lambda>j. view_all \<or> jb_owner_id j = owner) (tb_jobs db))))"

definition slik_recover :: "slik_db \<Rightarrow> slik_db" where
  "slik_recover db = fst (update_jobs (\<lambda>j. jb_status j = PROCESSING) (\<lambda>j. j\<lparr>jb_status := QUEUED\<rparr>) db)"

text \<open>The two statements of \<open>ClaimNext\<close>; another transaction may run between them.\<close>

definition claim_select :: "slik_db \<Rightarrow> string option" where
  "claim_select db =
     (case sort_key (\<lambda>j. (jb_created_at j, jb_id j)) (filter (\<lambda>j. jb_status j = QUEUED) (tb_jobs db)) of
        [] \<Rightarrow> None | j # _ \<Rightarrow> Some (jb_id j))"

definition claim_update :: "int \<Rightarrow> string \<Rightarrow> slik_db \<Rightarrow> slik_db \<times> nat" where
  "claim_update now job_id db =
     update_jobs (\<lambda>j. jb_id j = job_id \<and> jb_status j = QUEUED)
       (\<lambda>j. j\<lparr>jb_status := PROCESSING,
              jb_started_at := (case jb_started_at j of None \<Rightarrow> Some now | Some t \<Rightarrow> Some t)\<rparr>) db"

definition slik_pending :: "string \<Rightarrow> string \<Rightarrow> nat \<Rightarrow> slik_db \<Rightarrow> string list" where
  "slik_pending job_id after limit db =
     take limit (sort (map ac_requested (filter (\<lambda>a. ac_job_id a = job_id \<and> ac_status a = AccountQueued
        \<and> ac_requested a > after) (tb_accounts db))))"

text \<open>\<open>Save\<close> is one transaction: either both updates happen or none.\<close>

definition slik_save ::
  "int \<Rightarrow> string \<Rightarrow> string \<Rightarrow> string \<Rightarrow> slik_values \<Rightarrow> slik_db \<Rightarrow> slik_error + slik_db" where
  "slik_save now job_id account primary values db =
     (let (db1, progress) = update_jobs (\<lambda>j. jb_id j = job_id \<and> jb_status j = PROCESSING)
            (\<lambda>j. j\<lparr>jb_processed := jb_processed j + 1\<rparr>) db
      in if progress \<noteq> 1 then Inl NoLongerProcessing
         else
           let (db2, changed) = update_accounts
                 (\<lambda>a. ac_job_id a = job_id \<and> ac_requested a = account \<and> ac_status a = AccountQueued)
                 (\<lambda>a. a\<lparr>ac_status := AccountCompleted, ac_primary := primary, ac_values := values,
                        ac_processed_at := Some now\<rparr>) db1
           in if changed \<noteq> 1 then Inl CheckpointMissing else Inr db2)"

text \<open>One page of \<open>Results\<close>, and the loop that reads all pages (256 rows each).\<close>

definition results_page :: "nat \<Rightarrow> string \<Rightarrow> string \<Rightarrow> slik_db \<Rightarrow> (string \<times> slik_values) list" where
  "results_page limit job_id after db =
     take limit (sort_key fst (map (\<lambda>a. (ac_requested a, ac_values a))
       (filter (\<lambda>a. ac_job_id a = job_id \<and> ac_status a = AccountCompleted \<and> ac_requested a > after)
         (tb_accounts db))))"

lemma results_page_after: "r \<in> set (results_page n job_id after db) \<Longrightarrow> after < fst r"
  by (auto simp: results_page_def dest!: in_set_takeD)

function results_loop ::
  "nat \<Rightarrow> string \<Rightarrow> string \<Rightarrow> slik_db \<Rightarrow> (string \<times> slik_values) list \<Rightarrow> (string \<times> slik_values) list"
where
  "results_loop limit job_id after db acc =
     (let rows = results_page limit job_id after db in
      if rows = [] then acc
      else results_loop limit job_id (fst (last rows)) db (acc @ rows))"
  by pat_completeness auto
termination
proof (relation "measure (\<lambda>(limit, job_id, after, db, acc). length (filter (\<lambda>a. ac_requested a > after) (tb_accounts db)))")
  fix limit job_id after db acc rows
  assume rows: "rows = results_page limit job_id after db" and ne: "\<not> rows = []"
  let ?k = "fst (last rows)"
  have lt: "after < ?k" using results_page_after [of "last rows" limit job_id after db] rows ne by simp
  have "last rows \<in> set rows" using ne by simp
  then obtain a where a: "a \<in> set (tb_accounts db)" "ac_requested a = ?k"
    unfolding rows results_page_def by (auto dest!: in_set_takeD)
  have "length (filter (\<lambda>a. ac_requested a > ?k) (tb_accounts db))
      = length (filter (\<lambda>a. ac_requested a > ?k) (filter (\<lambda>a. ac_requested a > after) (tb_accounts db)))"
    using lt by (auto intro!: arg_cong [of _ _ length] filter_cong)
  also have "\<dots> < length (filter (\<lambda>a. ac_requested a > after) (tb_accounts db))"
    by (rule length_filter_less [of a]) (use a lt in auto)
  finally show "((limit, job_id, ?k, db, acc @ rows), limit, job_id, after, db, acc)
      \<in> measure (\<lambda>(limit, job_id, after, db, acc). length (filter (\<lambda>a. ac_requested a > after) (tb_accounts db)))"
    by simp
qed simp

declare results_loop.simps [simp del]

definition slik_results :: "string \<Rightarrow> slik_db \<Rightarrow> (string \<times> slik_values) list" where
  "slik_results job_id db = results_loop 256 job_id '''' db []"

definition slik_terminal ::
  "int \<Rightarrow> string \<Rightarrow> job_status \<Rightarrow> string \<Rightarrow> string \<Rightarrow> string \<Rightarrow> slik_db \<Rightarrow> slik_error + slik_db" where
  "slik_terminal now job_id status account reason output db =
     (if \<not> is_terminal status then Inl InvalidTerminalStatus
      else
        let (db', changed) = update_jobs (\<lambda>j. jb_id j = job_id \<and> jb_status j = PROCESSING)
              (\<lambda>j. j\<lparr>jb_status := status, jb_failed_account := account, jb_failure_reason := reason,
                     jb_output_file := output, jb_finished_at := Some now,
                     jb_expires_at := Some (now + seven_days)\<rparr>) db
        in if changed = 0 then Inl NoLongerProcessing else Inr db')"

text \<open>\<open>Cancel\<close> updates and then reads the job back; the update stays when the read finds nothing.\<close>

definition cancel_update :: "int \<Rightarrow> string \<Rightarrow> int \<Rightarrow> bool \<Rightarrow> slik_db \<Rightarrow> slik_db" where
  "cancel_update now job_id owner view_all db =
     fst (update_jobs
       (\<lambda>j. jb_id j = job_id \<and> jb_status j \<in> {QUEUED, PROCESSING} \<and> (view_all \<or> jb_owner_id j = owner))
       (\<lambda>j. j\<lparr>jb_status := CANCELED, jb_finished_at := Some now, jb_expires_at := Some (now + seven_days)\<rparr>) db)"

definition slik_cancel :: "int \<Rightarrow> string \<Rightarrow> int \<Rightarrow> bool \<Rightarrow> slik_db \<Rightarrow> (slik_error + unit) \<times> slik_db" where
  "slik_cancel now job_id owner view_all db =
     (let db' = cancel_update now job_id owner view_all db
      in (rbind (slik_get job_id owner view_all db') (\<lambda>_. Inr ()), db'))"

definition slik_is_canceled :: "string \<Rightarrow> slik_db \<Rightarrow> bool" where
  "slik_is_canceled job_id db =
     (case find (\<lambda>j. jb_id j = job_id) (tb_jobs db) of None \<Rightarrow> False | Some j \<Rightarrow> jb_status j = CANCELED)"

definition job_expired :: "int \<Rightarrow> slik_job \<Rightarrow> bool" where
  "job_expired now j \<longleftrightarrow> is_terminal (jb_status j) \<and> (case jb_expires_at j of None \<Rightarrow> False | Some t \<Rightarrow> t \<le> now)"

definition slik_expired :: "int \<Rightarrow> slik_db \<Rightarrow> slik_job list" where
  "slik_expired now db =
     take 100 (filter (\<lambda>j. job_expired now j \<and> (jb_input_file j \<noteq> '''' \<or> jb_output_file j \<noteq> '''')) (tb_jobs db))"

definition slik_clear_files :: "int \<Rightarrow> string \<Rightarrow> slik_db \<Rightarrow> slik_db" where
  "slik_clear_files now job_id db =
     fst (update_jobs (\<lambda>j. jb_id j = job_id \<and> job_expired now j)
       (\<lambda>j. j\<lparr>jb_input_file := '''', jb_output_file := ''''\<rparr>) db)"

definition slik_check_complete :: "string \<Rightarrow> slik_db \<Rightarrow> slik_error + unit" where
  "slik_check_complete job_id db =
     (if length (filter (\<lambda>a. ac_job_id a = job_id \<and> ac_status a \<noteq> AccountCompleted) (tb_accounts db)) \<noteq> 0
      then Inl CheckpointsRemain else Inr ())"

section \<open>The manager\<close>

text \<open>\<open>hex.DecodeString\<close> succeeds on an even number of hexadecimal digits; \<open>uni\<close> is the Unicode lower case.\<close>

definition is_hex :: "char \<Rightarrow> bool" where
  "is_hex c \<longleftrightarrow> is_digit c \<or> (97 \<le> byte c \<and> byte c \<le> 102) \<or> (65 \<le> byte c \<and> byte c \<le> 70)"

definition valid_job_id :: "(string \<Rightarrow> string) \<Rightarrow> string \<Rightarrow> bool" where
  "valid_job_id uni job_id =
     (if length job_id \<noteq> 32 \<or> to_lower uni job_id \<noteq> job_id then False
      else even (length job_id) \<and> list_all is_hex job_id)"

text \<open>\<open>safePath\<close> gives the file's name inside the storage directory.\<close>

definition safe_path :: "(string \<Rightarrow> string) \<Rightarrow> string \<Rightarrow> string \<Rightarrow> string \<Rightarrow> string option" where
  "safe_path uni name job_id ext =
     (if \<not> valid_job_id uni job_id \<or> name \<noteq> job_id @ ext \<or> path_base name \<noteq> name then None else Some name)"

definition job_available :: "int \<Rightarrow> slik_job \<Rightarrow> bool" where
  "job_available now j \<longleftrightarrow>
     jb_status j = COMPLETED \<and> jb_output_file j \<noteq> ''''
     \<and> (case jb_expires_at j of None \<Rightarrow> False | Some t \<Rightarrow> now < t)"

text \<open>\<open>OpenOutput\<close>: the file to open, given which files exist.\<close>

definition open_output ::
  "(string \<Rightarrow> string) \<Rightarrow> (string \<Rightarrow> bool) \<Rightarrow> int \<Rightarrow> string \<Rightarrow> int \<Rightarrow> bool \<Rightarrow> slik_db \<Rightarrow> slik_error + string" where
  "open_output uni exists now job_id owner view_all db =
     rbind (slik_get job_id owner view_all db) (\<lambda>j.
       if jb_status j \<noteq> COMPLETED then Inl SlikNotReady
       else if \<not> job_available now j then Inl SlikExpired
       else (case safe_path uni (jb_output_file j) (jb_id j) ''.output.xlsx'' of
               None \<Rightarrow> Inl SlikExpired
             | Some name \<Rightarrow> if exists name then Inr name else Inl SlikExpired))"

definition safe_failure :: "bool \<Rightarrow> err \<Rightarrow> string" where
  "safe_failure deadline e =
     (if errors_is e ErrAmbiguousAccountResolution then ''ambiguous account''
      else if errors_is e ErrFincloudUnavailable \<or> errors_is e ErrFincloudSession
              \<or> errors_is e ErrFincloudCredentials then ''Fincloud unavailable''
      else if errors_is e ErrMSOUnavailable then ''MSO evidence unavailable''
      else if errors_is e ErrDWHUnavailable then ''DWH evidence unavailable''
      else if errors_is e ErrCurrentSnapshot then ''current snapshot unavailable''
      else if errors_is e ErrHistoricalEvidence then ''historical evidence unavailable''
      else if errors_is e ErrNotFound then ''account not found''
      else if deadline then ''upstream timeout''
      else if errors_is e ErrUnsupportedRepaymentReversal then ''unsupported repayment reversal''
      else if errors_is e ErrUnsupportedRepaymentAdjustment then ''unsupported zero-net repayment adjustment''
      else if errors_is e ErrUnsupportedCalculation then ''unsupported calculation''
      else if errors_is e ErrInvalidInput then ''invalid account or reporting date''
      else ''SLIK processing unavailable'')"

text \<open>What the worker computes for an account before it saves it: primary account and values.\<close>

definition account_values :: "resolved_position \<Rightarrow> (string \<times> slik_values) res" where
  "account_values resolved =
     rbind (exact_decimal (cd_flat_rate_percent (res_loan resolved))) (\<lambda>rate.
       Inr (cd_primary_account (res_loan resolved),
            \<lparr>sv_balance = money_format 2 (lp_principal_outstanding (res_position resolved)), sv_rate = rate\<rparr>))"

text \<open>The deduplicated accounts of a submission, in the order of their first rows.\<close>

fun unique_accounts :: "string list \<Rightarrow> string list \<Rightarrow> string list" where
  "unique_accounts seen [] = []"
| "unique_accounts seen (a # as) =
     (if a \<in> set seen then unique_accounts seen as else a # unique_accounts (a # seen) as)"

text \<open>
  \<open>Submit\<close>: the checks of the request, the copy of the upload (\<open>copied\<close> bytes were copied, at most one
  more than the limit), the inspection of the stored file, the check and deduplication of the
  accounts, and the insertion. \<open>token\<close> is the random identifier in hexadecimal, \<open>inspect\<close> the result of
  \<open>Inspect\<close> on the stored file: an error text or the accounts of its rows. The input file is kept only
  when the result is a job.
\<close>

definition submission_ok :: "attribution \<Rightarrow> string \<Rightarrow> string \<Rightarrow> bool" where
  "submission_ok att name as_of \<longleftrightarrow>
     (case (att_actor att, att_effective att) of
        (Some a, Some e) \<Rightarrow>
          idt_user_id a \<noteq> 0 \<and> idt_user_id e \<noteq> 0 \<and> idt_username a \<noteq> '''' \<and> idt_username e \<noteq> ''''
      | _ \<Rightarrow> False)
     \<and> as_of \<noteq> '''' \<and> name \<noteq> '''' \<and> path_base name = name \<and> CHR 0x5C \<notin> set name \<and> length name \<le> 255"

definition slik_submit ::
  "int \<Rightarrow> int \<Rightarrow> string \<Rightarrow> attribution \<Rightarrow> string \<Rightarrow> string \<Rightarrow> int \<Rightarrow> (string + string list) \<Rightarrow> slik_db
     \<Rightarrow> slik_error + slik_job \<times> slik_db" where
  "slik_submit now max_upload token att name as_of copied inspect db =
     (if \<not> submission_ok att name as_of then Inl (ValidationError ''invalid SLIK submission'')
      else if \<not> equal_fold (path_ext name) ''.xlsx'' then Inl (ValidationError ''only .xlsx files are accepted'')
      else if copied = 0 \<or> copied > max_upload then Inl (ValidationError ''XLSX exceeds compressed upload limit'')
      else (case inspect of Inl e \<Rightarrow> Inl (ValidationError e)
        | Inr rows \<Rightarrow>
            if \<not> list_all (\<lambda>a. rune_count a \<le> 191) rows
            then Inl (ValidationError ''SLIK account identifier exceeds 191 characters'')
            else
              let accounts = unique_accounts [] rows;
                  owner = the (att_effective att); actor = the (att_actor att);
                  job = \<lparr>jb_id = token, jb_owner_id = idt_user_id owner, jb_owner_username = idt_username owner,
                    jb_actor_id = idt_user_id actor, jb_actor_username = idt_username actor,
                    jb_original_filename = name, jb_as_of = as_of, jb_status = QUEUED,
                    jb_total_rows = int (length rows), jb_total_accounts = int (length accounts), jb_processed = 0,
                    jb_created_at = now, jb_started_at = None, jb_finished_at = None, jb_failed_account = '''',
                    jb_failure_reason = '''', jb_input_file = token @ ''.input.xlsx'', jb_output_file = '''',
                    jb_expires_at = None\<rparr>
              in rbind (slik_create job accounts db) (\<lambda>db'. Inr (job, db'))))"

text \<open>
  The retention clean-up of one job: the names it removes, and whether the references are cleared;
  \<open>removable\<close> tells whether removing a file succeeds (or it is already gone).
\<close>

definition cleanup_job :: "(string \<Rightarrow> string) \<Rightarrow> (string \<Rightarrow> bool) \<Rightarrow> int \<Rightarrow> slik_job \<Rightarrow> slik_db \<Rightarrow> slik_db \<times> string list" where
  "cleanup_job uni removable now j db =
     (let items = filter (\<lambda>(n, _). n \<noteq> '''') [(jb_input_file j, ''.input.xlsx''), (jb_output_file j, ''.output.xlsx'')];
          paths = map (\<lambda>(n, ext). safe_path uni n (jb_id j) ext) items;
          removed = map the (filter (\<lambda>p. p \<noteq> None \<and> removable (the p)) paths)
      in if list_all (\<lambda>p. p \<noteq> None \<and> removable (the p)) paths
         then (slik_clear_files now (jb_id j) db, removed) else (db, removed))"

section \<open>Workers and clients\<close>

text \<open>
  A worker process is polling, has selected a job, runs it, has failed, has found all checkpoints
  complete, or has generated the output from the checkpoints. Nothing is assumed about the
  advisory lock: several workers may be active at once, as after a lost lock.
\<close>

datatype worker =
    Polling
  | Claiming string
  | Running string
  | Failing string string string
  | Checked string
  | Patched string "(string \<times> slik_values) list"

record slik_system =
  sy_db :: slik_db
  sy_worker :: "nat \<Rightarrow> worker"
  sy_published :: "(string \<times> (string \<times> slik_values) list) list"

definition initial_system :: slik_system where
  "initial_system = \<lparr>sy_db = \<lparr>tb_jobs = [], tb_accounts = []\<rparr>, sy_worker = (\<lambda>_. Polling), sy_published = []\<rparr>"

definition set_worker :: "nat \<Rightarrow> worker \<Rightarrow> slik_system \<Rightarrow> slik_system" where
  "set_worker w p s = s\<lparr>sy_worker := (sy_worker s)(w := p)\<rparr>"

definition set_db :: "slik_db \<Rightarrow> slik_system \<Rightarrow> slik_system" where
  "set_db db s = s\<lparr>sy_db := db\<rparr>"

text \<open>
  The transactions of \<open>Submit\<close>, \<open>Cancel\<close>, \<open>cleanup\<close> and \<open>run\<close>, each one step. \<open>abandon\<close> stands for every
  return of \<open>run\<close> that leaves the job as it is: shutdown, a lost lock, a canceled job, a failed check.
  The rows of a submission come from \<open>Inspect\<close>, which keeps only rows with a non-empty account.
\<close>

inductive slik_step :: "slik_system \<Rightarrow> slik_system \<Rightarrow> bool" where
  submit: "slik_submit now max_upload token att name as_of copied (Inr rows) (sy_db s) = Inr (job, db) \<Longrightarrow>
    '''' \<notin> set rows \<Longrightarrow> slik_step s (set_db db s)"
| cancel: "slik_step s (set_db (cancel_update now job_id owner view_all (sy_db s)) s)"
| clear: "slik_step s (set_db (slik_clear_files now job_id (sy_db s)) s)"
| recover: "sy_worker s w = Polling \<Longrightarrow> slik_step s (set_db (slik_recover (sy_db s)) s)"
| select: "sy_worker s w = Polling \<Longrightarrow> claim_select (sy_db s) = Some job_id \<Longrightarrow>
    slik_step s (set_worker w (Claiming job_id) s)"
| lost_race: "sy_worker s w = Claiming job_id \<Longrightarrow> snd (claim_update now job_id (sy_db s)) = 0 \<Longrightarrow>
    slik_step s (set_worker w Polling s)"
| claim: "sy_worker s w = Claiming job_id \<Longrightarrow> claim_update now job_id (sy_db s) = (db, n) \<Longrightarrow> n \<noteq> 0 \<Longrightarrow>
    slik_step s (set_worker w (Running job_id) (set_db db s))"
| save: "sy_worker s w = Running job_id \<Longrightarrow>
    slik_save now job_id account primary vals (sy_db s) = Inr db \<Longrightarrow> slik_step s (set_db db s)"
| fail: "sy_worker s w = Running job_id \<Longrightarrow> slik_step s (set_worker w (Failing job_id account reason) s)"
| fail_output: "sy_worker s w = Checked job_id \<Longrightarrow> slik_step s (set_worker w (Failing job_id account reason) s)"
| finish_failed: "sy_worker s w = Failing job_id account reason \<Longrightarrow>
    slik_terminal now job_id FAILED account reason '''' (sy_db s) = Inr db \<Longrightarrow>
    slik_step s (set_worker w Polling (set_db db s))"
| check_complete: "sy_worker s w = Running job_id \<Longrightarrow> slik_check_complete job_id (sy_db s) = Inr () \<Longrightarrow>
    slik_step s (set_worker w (Checked job_id) s)"
| patch: "sy_worker s w = Checked job_id \<Longrightarrow>
    slik_step s (set_worker w (Patched job_id (slik_results job_id (sy_db s))) s)"
| complete: "sy_worker s w = Patched job_id results \<Longrightarrow>
    slik_terminal now job_id COMPLETED '''' '''' (job_id @ ''.output.xlsx'') (sy_db s) = Inr db \<Longrightarrow>
    slik_step s (set_worker w Polling ((set_db db s)\<lparr>sy_published := (job_id, results) # sy_published s\<rparr>))"
| abandon: "slik_step s (set_worker w Polling s)"

inductive slik_reachable :: "slik_system \<Rightarrow> bool" where
  init: "slik_reachable initial_system"
| step: "slik_reachable s \<Longrightarrow> slik_step s s' \<Longrightarrow> slik_reachable s'"

section \<open>Table invariant\<close>

abbreviation accounts_of :: "string \<Rightarrow> slik_db \<Rightarrow> slik_account list" where
  "accounts_of job_id db \<equiv> filter (\<lambda>a. ac_job_id a = job_id) (tb_accounts db)"

definition completed_of :: "string \<Rightarrow> slik_db \<Rightarrow> nat" where
  "completed_of job_id db =
     length (filter (\<lambda>a. ac_job_id a = job_id \<and> ac_status a = AccountCompleted) (tb_accounts db))"

definition all_completed :: "string \<Rightarrow> slik_db \<Rightarrow> bool" where
  "all_completed job_id db \<longleftrightarrow>
     (\<forall>a \<in> set (tb_accounts db). ac_job_id a = job_id \<longrightarrow> ac_status a = AccountCompleted)"

text \<open>Keys are unique, accounts are not empty and belong to jobs, and the counters agree with the account rows.\<close>

definition db_ok :: "slik_db \<Rightarrow> bool" where
  "db_ok db \<longleftrightarrow>
     distinct (map jb_id (tb_jobs db)) \<and> distinct (map account_key (tb_accounts db))
     \<and> (\<forall>a \<in> set (tb_accounts db). ac_job_id a \<in> jb_id ` set (tb_jobs db) \<and> ac_requested a \<noteq> '''')
     \<and> (\<forall>j \<in> set (tb_jobs db). jb_total_accounts j = int (length (accounts_of (jb_id j) db))
          \<and> jb_processed j = int (completed_of (jb_id j) db))"

text \<open>An update of jobs that keeps their keys and counters.\<close>

lemma update_jobs_ok:
  assumes "db_ok db" and "\<And>j. jb_id (f j) = jb_id j \<and> jb_total_accounts (f j) = jb_total_accounts j
      \<and> jb_processed (f j) = jb_processed j"
  shows "db_ok (fst (update_jobs P f db))" and "tb_accounts (fst (update_jobs P f db)) = tb_accounts db"
    and "jb_id ` set (tb_jobs (fst (update_jobs P f db))) = jb_id ` set (tb_jobs db)"
proof -
  have ids: "map jb_id (tb_jobs (fst (update_jobs P f db))) = map jb_id (tb_jobs db)"
    using assms(2) by (simp add: update_jobs_def)
  then show im: "jb_id ` set (tb_jobs (fst (update_jobs P f db))) = jb_id ` set (tb_jobs db)"
    by (metis list.set_map)
  show acc: "tb_accounts (fst (update_jobs P f db)) = tb_accounts db" by (simp add: update_jobs_def)
  have "\<forall>j \<in> set (tb_jobs (fst (update_jobs P f db))).
      jb_total_accounts j = int (length (accounts_of (jb_id j) db)) \<and> jb_processed j = int (completed_of (jb_id j) db)"
    using assms by (auto simp: update_jobs_def db_ok_def)
  then show "db_ok (fst (update_jobs P f db))"
    using assms(1) ids im acc by (simp add: db_ok_def completed_of_def)
qed

lemma job_updates_ok:
  assumes "db_ok db"
  shows "db_ok (slik_recover db)" and "db_ok (fst (claim_update now job_id db))"
    and "db_ok (cancel_update now job_id owner view_all db)" and "db_ok (slik_clear_files now job_id db)"
  unfolding slik_recover_def claim_update_def cancel_update_def slik_clear_files_def
  by (rule update_jobs_ok [OF assms], simp)+

lemma terminal_update:
  assumes "slik_terminal now job_id st account reason output db = Inr db'"
  shows "db' = fst (update_jobs (\<lambda>j. jb_id j = job_id \<and> jb_status j = PROCESSING)
     (\<lambda>j. j\<lparr>jb_status := st, jb_failed_account := account, jb_failure_reason := reason,
            jb_output_file := output, jb_finished_at := Some now, jb_expires_at := Some (now + seven_days)\<rparr>) db)"
  using assms by (auto simp: slik_terminal_def Let_def split: if_split_asm prod.split_asm)

lemma terminal_ok:
  assumes "slik_terminal now job_id st account reason output db = Inr db'" and "db_ok db"
  shows "db_ok db'" and "tb_accounts db' = tb_accounts db"
    and "jb_id ` set (tb_jobs db') = jb_id ` set (tb_jobs db)"
proof -
  let ?f = "\<lambda>j. j\<lparr>jb_status := st, jb_failed_account := account, jb_failure_reason := reason,
     jb_output_file := output, jb_finished_at := Some now, jb_expires_at := Some (now + seven_days)\<rparr>"
  have "db' = fst (update_jobs (\<lambda>j. jb_id j = job_id \<and> jb_status j = PROCESSING) ?f db)"
    by (rule terminal_update [OF assms(1)])
  then show "db_ok db'" and "tb_accounts db' = tb_accounts db"
    and "jb_id ` set (tb_jobs db') = jb_id ` set (tb_jobs db)"
    using update_jobs_ok [OF assms(2), of ?f] by simp_all
qed

text \<open>Counting in a list where the matching elements are moved into the counted class.\<close>

lemma count_moved:
  assumes "\<And>a. P a \<Longrightarrow> \<not> Q a \<and> Q (f a)"
  shows "length (filter Q (map (\<lambda>a. if P a then f a else a) xs)) = length (filter Q xs) + length (filter P xs)"
  using assms by (induction xs) auto

lemma count_kept:
  assumes "\<And>a. P a \<Longrightarrow> Q (f a) = Q a"
  shows "length (filter Q (map (\<lambda>a. if P a then f a else a) xs)) = length (filter Q xs)"
  using assms by (induction xs) auto

lemma save_ok:
  assumes "slik_save now job_id account primary vals db = Inr db'" and ok: "db_ok db"
  shows "db_ok db'" and "jb_id ` set (tb_jobs db') = jb_id ` set (tb_jobs db)"
    and "\<exists>a. a \<in> set (tb_accounts db) \<and> ac_job_id a = job_id \<and> ac_requested a = account \<and> ac_status a = AccountQueued"
    and "tb_accounts db' = map (\<lambda>a. if ac_job_id a = job_id \<and> ac_requested a = account \<and> ac_status a = AccountQueued
        then a\<lparr>ac_status := AccountCompleted, ac_primary := primary, ac_values := vals,
               ac_processed_at := Some now\<rparr> else a) (tb_accounts db)"
    and "tb_jobs db' = map (\<lambda>j. if jb_id j = job_id \<and> jb_status j = PROCESSING
        then j\<lparr>jb_processed := jb_processed j + 1\<rparr> else j) (tb_jobs db)"
    and "\<exists>j \<in> set (tb_jobs db). jb_id j = job_id \<and> jb_status j = PROCESSING"
proof -
  let ?P = "\<lambda>a. ac_job_id a = job_id \<and> ac_requested a = account \<and> ac_status a = AccountQueued"
  let ?f = "\<lambda>a. a\<lparr>ac_status := AccountCompleted, ac_primary := primary, ac_values := vals, ac_processed_at := Some now\<rparr>"
  let ?J = "\<lambda>j. jb_id j = job_id \<and> jb_status j = PROCESSING"
  let ?g = "\<lambda>j. j\<lparr>jb_processed := jb_processed j + 1\<rparr>"
  from assms(1) have one: "length (filter ?J (tb_jobs db)) = 1" "length (filter ?P (tb_accounts db)) = 1"
    and db': "tb_accounts db' = map (\<lambda>a. if ?P a then ?f a else a) (tb_accounts db)"
      "tb_jobs db' = map (\<lambda>j. if ?J j then ?g j else j) (tb_jobs db)"
    by (auto simp: slik_save_def update_jobs_def update_accounts_def Let_def split: if_split_asm)
  show "tb_accounts db' = map (\<lambda>a. if ?P a then ?f a else a) (tb_accounts db)"
    "tb_jobs db' = map (\<lambda>j. if ?J j then ?g j else j) (tb_jobs db)" using db' .
  from one(2) have "filter ?P (tb_accounts db) \<noteq> []" by auto
  then show "\<exists>a. a \<in> set (tb_accounts db) \<and> ?P a" by (auto simp: filter_empty_conv)
  from one(1) have "filter ?J (tb_jobs db) \<noteq> []" by auto
  then obtain j0 where j0: "j0 \<in> set (tb_jobs db)" "?J j0" by (auto simp: filter_empty_conv)
  then show "\<exists>j \<in> set (tb_jobs db). ?J j" by blast
  have ids: "map jb_id (tb_jobs db') = map jb_id (tb_jobs db)" by (simp add: db'(2))
  then show im: "jb_id ` set (tb_jobs db') = jb_id ` set (tb_jobs db)" by (metis list.set_map)
  have keys: "map account_key (tb_accounts db') = map account_key (tb_accounts db)"
    by (simp add: db'(1) account_key_def)
  have total: "length (accounts_of k db') = length (accounts_of k db)" for k
    unfolding db'(1) by (rule count_kept) simp
  have cnt: "completed_of k db' = completed_of k db + (if k = job_id then 1 else 0)" for k
  proof (cases "k = job_id")
    case True
    then show ?thesis
      unfolding completed_of_def db'(1) using one(2)
      by (subst count_moved) auto
  next
    case False
    then show ?thesis unfolding completed_of_def db'(1) by (subst count_kept) auto
  qed
  have uniq: "j = j0" if "j \<in> set (tb_jobs db)" "jb_id j = job_id" for j
    using ok j0 that by (auto simp: db_ok_def distinct_map inj_on_def)
  have "\<forall>j \<in> set (tb_jobs db'). jb_total_accounts j = int (length (accounts_of (jb_id j) db'))
      \<and> jb_processed j = int (completed_of (jb_id j) db')"
  proof
    fix j
    assume "j \<in> set (tb_jobs db')"
    then obtain i where i: "i \<in> set (tb_jobs db)" "j = (if ?J i then ?g i else i)" by (auto simp: db'(2))
    have "?J i \<longleftrightarrow> jb_id i = job_id" using uniq [OF i(1)] j0(2) by auto
    then show "jb_total_accounts j = int (length (accounts_of (jb_id j) db'))
      \<and> jb_processed j = int (completed_of (jb_id j) db')"
      using i ok total cnt by (auto simp: db_ok_def)
  qed
  moreover have "\<forall>a \<in> set (tb_accounts db'). ac_job_id a \<in> jb_id ` set (tb_jobs db') \<and> ac_requested a \<noteq> ''''"
    unfolding im using ok by (auto simp: db'(1) db_ok_def)
  ultimately show "db_ok db'" using ok ids keys by (simp add: db_ok_def)
qed

text \<open>Batches of any positive size insert the same rows as one statement.\<close>

lemma insert_accounts_Inr:
  "insert_accounts rows db = Inr db' \<longleftrightarrow>
     distinct (map account_key rows) \<and> (\<forall>r \<in> set rows. account_key r \<notin> account_key ` set (tb_accounts db))
     \<and> db' = db\<lparr>tb_accounts := tb_accounts db @ rows\<rparr>"
  by (auto simp: insert_accounts_def Let_def list_all_iff)

lemma insert_accounts_append:
  "insert_accounts (xs @ ys) db = rbind (insert_accounts xs db) (insert_accounts ys)"
proof (cases "insert_accounts xs db")
  case (Inl e)
  then show ?thesis by (auto simp: insert_accounts_def Let_def list_all_iff split: if_split_asm)
next
  case (Inr db1)
  then have db1: "db1 = db\<lparr>tb_accounts := tb_accounts db @ xs\<rparr>"
    and xs: "distinct (map account_key xs)" "\<forall>r \<in> set xs. account_key r \<notin> account_key ` set (tb_accounts db)"
    by (simp_all add: insert_accounts_Inr)
  show ?thesis
    unfolding Inr rbind_Inr using xs
    by (auto simp: insert_accounts_def Let_def list_all_iff db1) (metis image_eqI)
qed

lemma insert_batches_eq:
  "0 < n \<Longrightarrow> insert_batches n rows db = insert_accounts rows db"
proof (induction n rows db rule: insert_batches.induct)
  case (1 n rows db)
  show ?case
  proof (cases "rows = []")
    case True
    then show ?thesis by (simp add: insert_batches.simps [of n "[]" db] insert_accounts_def)
  next
    case False
    have "insert_accounts rows db = rbind (insert_accounts (take n rows) db) (insert_accounts (drop n rows))"
      using insert_accounts_append [of "take n rows" "drop n rows" db] by simp
    moreover have "insert_batches n (drop n rows) d = insert_accounts (drop n rows) d" for d
      using "1.IH" [of d] False "1.prems" by blast
    ultimately show ?thesis
      using False "1.prems" by (cases "insert_accounts (take n rows) db") (simp_all add: insert_batches.simps [of n rows db])
  qed
qed

lemma unique_accounts_distinct:
  "distinct (unique_accounts seen xs) \<and> set (unique_accounts seen xs) = set xs - set seen"
  by (induction seen xs rule: unique_accounts.induct) auto

lemma submit_create:
  assumes "slik_submit now max_upload token att name as_of copied (Inr rows) db = Inr (job, db')"
  shows "slik_create job (unique_accounts [] rows) db = Inr db'" and "jb_id job = token" and "jb_status job = QUEUED"
  using assms by (auto simp: slik_submit_def Let_def res_simps split: if_split_asm)

lemma create_ok:
  assumes "slik_create job accounts db = Inr db'" and ok: "db_ok db" and ne: "'''' \<notin> set accounts"
  shows "db_ok db'" and "jb_id job \<notin> jb_id ` set (tb_jobs db)"
    and "tb_accounts db' = tb_accounts db @ map (new_account (jb_id job)) accounts"
    and "jb_id ` set (tb_jobs db') = insert (jb_id job) (jb_id ` set (tb_jobs db))"
    and "j \<in> set (tb_jobs db') \<Longrightarrow> jb_id j \<noteq> jb_id job \<Longrightarrow> j \<in> set (tb_jobs db)"
    and "j \<in> set (tb_jobs db') \<Longrightarrow> jb_id j = jb_id job \<Longrightarrow> jb_status j = QUEUED"
    and "set (tb_jobs db) \<subseteq> set (tb_jobs db')"
proof -
  let ?rows = "map (new_account (jb_id job)) accounts"
  define job' where "job' = job\<lparr>jb_status := QUEUED, jb_total_accounts := int (length accounts), jb_processed := 0,
     jb_started_at := None, jb_finished_at := None, jb_failed_account := '''',
     jb_failure_reason := '''', jb_output_file := '''', jb_expires_at := None\<rparr>"
  from assms(1) have fresh: "jb_id job \<notin> jb_id ` set (tb_jobs db)"
    and ins: "insert_accounts ?rows (db\<lparr>tb_jobs := tb_jobs db @ [job']\<rparr>) = Inr db'"
    by (auto simp: slik_create_def insert_batches_eq job'_def split: if_split_asm)
  then have dist: "distinct (map account_key ?rows)"
    "\<forall>r \<in> set ?rows. account_key r \<notin> account_key ` set (tb_accounts db)"
    and db': "tb_accounts db' = tb_accounts db @ ?rows" "tb_jobs db' = tb_jobs db @ [job']"
    by (auto simp: insert_accounts_Inr)
  have id': "jb_id job' = jb_id job" "jb_status job' = QUEUED" by (simp_all add: job'_def)
  show "jb_id job \<notin> jb_id ` set (tb_jobs db)" "tb_accounts db' = tb_accounts db @ ?rows" using fresh db'(1) .
  show "jb_id ` set (tb_jobs db') = insert (jb_id job) (jb_id ` set (tb_jobs db))" by (simp add: db'(2) id')
  show "j \<in> set (tb_jobs db') \<Longrightarrow> jb_id j \<noteq> jb_id job \<Longrightarrow> j \<in> set (tb_jobs db)"
    and "j \<in> set (tb_jobs db') \<Longrightarrow> jb_id j = jb_id job \<Longrightarrow> jb_status j = QUEUED"
    and "set (tb_jobs db) \<subseteq> set (tb_jobs db')"
    using fresh id' by (auto simp: db'(2)) (metis image_eqI)
  have none: "accounts_of (jb_id job) db = []"
    using ok fresh unfolding db_ok_def filter_empty_conv by metis
  then have none': "completed_of (jb_id job) db = 0"
    by (auto simp: completed_of_def filter_empty_conv)
  have new: "accounts_of k db' = accounts_of k db @ (if k = jb_id job then ?rows else [])" for k
    by (auto simp: db'(1) new_account_def filter_empty_conv filter_id_conv)
  have cnt: "completed_of k db' = completed_of k db" for k
    by (simp add: completed_of_def db'(1) new_account_def)
  have "\<forall>j \<in> set (tb_jobs db'). jb_total_accounts j = int (length (accounts_of (jb_id j) db'))
      \<and> jb_processed j = int (completed_of (jb_id j) db')"
  proof
    fix j
    assume j: "j \<in> set (tb_jobs db')"
    show "jb_total_accounts j = int (length (accounts_of (jb_id j) db')) \<and> jb_processed j = int (completed_of (jb_id j) db')"
    proof (cases "j \<in> set (tb_jobs db)")
      case True
      then have "jb_id j \<noteq> jb_id job" using fresh by (metis image_eqI)
      then show ?thesis using True ok new [of "jb_id j"] cnt by (simp add: db_ok_def)
    next
      case False
      then have "j = job'" using j db'(2) by simp
      then show ?thesis using new [of "jb_id job"] none none' cnt id'(1) by (simp add: job'_def)
    qed
  qed
  moreover have "distinct (map account_key (tb_accounts db'))"
    using ok dist by (auto simp: db'(1) db_ok_def)
  ultimately show "db_ok db'"
    using ok fresh ne by (auto simp: db_ok_def db' id' new_account_def)
qed

section \<open>Paging\<close>

text \<open>The rows \<open>Results\<close> reads: all completed accounts of the job above the key, in order.\<close>

definition completed_rows :: "string \<Rightarrow> string \<Rightarrow> slik_db \<Rightarrow> (string \<times> slik_values) list" where
  "completed_rows job_id after db =
     sort_key fst (map (\<lambda>a. (ac_requested a, ac_values a))
       (filter (\<lambda>a. ac_job_id a = job_id \<and> ac_status a = AccountCompleted \<and> ac_requested a > after) (tb_accounts db)))"

lemma completed_rows_sorted:
  assumes "db_ok db"
  shows "sorted_wrt (<) (map fst (completed_rows job_id after db))"
proof -
  let ?as = "filter (\<lambda>a. ac_job_id a = job_id \<and> ac_status a = AccountCompleted \<and> ac_requested a > after) (tb_accounts db)"
  have "distinct (map account_key ?as)"
    using assms by (simp add: db_ok_def distinct_map_filter)
  then have "inj_on ac_requested (set ?as)" and "distinct ?as"
    by (auto simp: distinct_map inj_on_def account_key_def)
  then have "distinct (map fst (completed_rows job_id after db))"
    unfolding completed_rows_def by (simp add: distinct_map comp_def) (auto simp: inj_on_def)
  moreover have "sorted (map fst (completed_rows job_id after db))"
    by (simp add: completed_rows_def)
  ultimately show ?thesis by (simp add: strict_sorted_iff)
qed

lemma sorted_key_filter:
  fixes f :: "'b \<Rightarrow> 'c::linorder"
  assumes "sorted_wrt (<) (map f (xs @ ys))" and "xs \<noteq> []"
  shows "filter (\<lambda>z. f (last xs) < f z) (xs @ ys) = ys"
proof -
  have "filter (\<lambda>z. f (last xs) < f z) xs = []"
  proof -
    have "f z \<le> f (last xs)" if "z \<in> set xs" for z
      using assms that by (cases xs rule: rev_cases) (auto simp: sorted_wrt_append less_imp_le)
    then show ?thesis by (simp add: filter_empty_conv leD)
  qed
  moreover have "filter (\<lambda>z. f (last xs) < f z) ys = ys"
    using assms by (auto simp: sorted_wrt_append filter_id_conv)
  ultimately show ?thesis by simp
qed

lemma completed_rows_next:
  assumes "db_ok db" and "completed_rows job_id after db = xs @ ys" and "xs \<noteq> []"
  shows "completed_rows job_id (fst (last xs)) db = ys"
proof -
  let ?k = "fst (last xs)"
  have s: "sorted_wrt (<) (map fst (xs @ ys))" using completed_rows_sorted [OF assms(1)] assms(2) by metis
  have "last xs \<in> set (completed_rows job_id after db)" using assms(2,3) by simp
  then have lt: "after < ?k" by (auto simp: completed_rows_def)
  have "completed_rows job_id ?k db = filter (\<lambda>r. ?k < fst r) (completed_rows job_id after db)"
    unfolding completed_rows_def filter_sort filter_map filter_filter comp_def fst_conv using lt
    by (intro arg_cong [of _ _ "sort_key fst"] arg_cong [of _ _ "map (\<lambda>a. (ac_requested a, ac_values a))"] filter_cong)
      auto
  then show ?thesis using sorted_key_filter [OF s assms(3)] assms(2) by simp
qed

lemma results_loop_all:
  "db_ok db \<Longrightarrow> 0 < limit \<Longrightarrow> results_loop limit job_id after db acc = acc @ completed_rows job_id after db"
proof (induction limit job_id after db acc rule: results_loop.induct)
  case (1 limit job_id after db acc)
  let ?all = "completed_rows job_id after db"
  let ?rows = "take limit ?all"
  have page: "results_page limit job_id after db = ?rows"
    by (simp add: results_page_def completed_rows_def)
  show ?case
  proof (cases "?rows = []")
    case True
    then have "?all = []" using "1.prems"(2) by simp
    then show ?thesis using True by (simp add: results_loop.simps [of limit job_id after db acc] page)
  next
    case False
    have "completed_rows job_id (fst (last ?rows)) db = drop limit ?all"
      using completed_rows_next [OF "1.prems"(1), of job_id after ?rows "drop limit ?all"] False by simp
    moreover have "results_loop limit job_id (fst (last ?rows)) db (acc @ ?rows) =
        (acc @ ?rows) @ completed_rows job_id (fst (last ?rows)) db"
      using "1.IH" [OF refl] False "1.prems" by (simp add: page)
    ultimately show ?thesis using False by (simp add: results_loop.simps [of limit job_id after db acc] page)
  qed
qed

section \<open>System invariant\<close>

definition same_accounts :: "string \<Rightarrow> slik_db \<Rightarrow> slik_db \<Rightarrow> bool" where
  "same_accounts job_id db db' \<longleftrightarrow> accounts_of job_id db' = accounts_of job_id db"

text \<open>
  A worker that has passed the check has a job with all its accounts completed; a worker that has
  generated the output used exactly the values of these accounts; and so for published outputs.
\<close>

fun worker_ok :: "slik_db \<Rightarrow> worker \<Rightarrow> bool" where
  "worker_ok db (Running k) \<longleftrightarrow> k \<in> jb_id ` set (tb_jobs db)"
| "worker_ok db (Checked k) \<longleftrightarrow> k \<in> jb_id ` set (tb_jobs db) \<and> all_completed k db"
| "worker_ok db (Patched k rs) \<longleftrightarrow> k \<in> jb_id ` set (tb_jobs db) \<and> all_completed k db
     \<and> rs = completed_rows k '''' db"
| "worker_ok db p \<longleftrightarrow> True"

definition system_ok :: "slik_system \<Rightarrow> bool" where
  "system_ok s \<longleftrightarrow>
     db_ok (sy_db s) \<and> (\<forall>w. worker_ok (sy_db s) (sy_worker s w))
     \<and> (\<forall>(k, rs) \<in> set (sy_published s). k \<in> jb_id ` set (tb_jobs (sy_db s)) \<and> all_completed k (sy_db s)
          \<and> rs = completed_rows k '''' (sy_db s))
     \<and> (\<forall>j \<in> set (tb_jobs (sy_db s)). jb_status j = COMPLETED \<longrightarrow> jb_id j \<in> fst ` set (sy_published s))"

text \<open>Database changes that keep the accounts of every job that is already complete.\<close>

definition keeps_completed :: "slik_db \<Rightarrow> slik_db \<Rightarrow> bool" where
  "keeps_completed db db' \<longleftrightarrow>
     jb_id ` set (tb_jobs db) \<subseteq> jb_id ` set (tb_jobs db')
     \<and> (\<forall>k \<in> jb_id ` set (tb_jobs db). all_completed k db \<longrightarrow> accounts_of k db' = accounts_of k db)"

lemma all_completed_accounts: "all_completed k db \<longleftrightarrow> (\<forall>a \<in> set (accounts_of k db). ac_status a = AccountCompleted)"
  by (auto simp: all_completed_def)

lemma completed_rows_accounts:
  "completed_rows k after db = sort_key fst (map (\<lambda>a. (ac_requested a, ac_values a))
     (filter (\<lambda>a. ac_status a = AccountCompleted \<and> ac_requested a > after) (accounts_of k db)))"
  unfolding completed_rows_def filter_filter by (simp add: conj_ac)

lemma keeps_completed_published:
  assumes "keeps_completed db db'" and "k \<in> jb_id ` set (tb_jobs db)" and "all_completed k db"
  shows "k \<in> jb_id ` set (tb_jobs db') \<and> all_completed k db' \<and> completed_rows k after db' = completed_rows k after db"
proof -
  have "accounts_of k db' = accounts_of k db" and "k \<in> jb_id ` set (tb_jobs db')"
    using assms unfolding keeps_completed_def by blast+
  then show ?thesis using assms(3) unfolding all_completed_accounts completed_rows_accounts by simp
qed

lemma keeps_completed_worker:
  assumes "keeps_completed db db'" and "worker_ok db p"
  shows "worker_ok db' p"
  using assms(2)
proof (cases p)
  case (Running k)
  then show ?thesis using assms by (auto simp: keeps_completed_def)
next
  case (Checked k)
  then show ?thesis using assms(2) keeps_completed_published [OF assms(1), of k] by simp
next
  case (Patched k rs)
  then show ?thesis using assms(2) keeps_completed_published [OF assms(1), of k] by simp
qed simp_all

lemma system_ok_db:
  assumes "system_ok s" and "db_ok db'" and "keeps_completed (sy_db s) db'"
    and "\<forall>j \<in> set (tb_jobs db'). jb_status j = COMPLETED \<longrightarrow>
      (\<exists>i \<in> set (tb_jobs (sy_db s)). jb_id i = jb_id j \<and> jb_status i = COMPLETED)"
  shows "system_ok (set_db db' s)"
proof -
  have "worker_ok db' (sy_worker s w)" for w
    using assms(1) keeps_completed_worker [OF assms(3)] by (auto simp: system_ok_def)
  moreover have "k \<in> jb_id ` set (tb_jobs db') \<and> all_completed k db' \<and> rs = completed_rows k '''' db'"
    if "(k, rs) \<in> set (sy_published s)" for k rs
    using assms(1) that keeps_completed_published [OF assms(3), of k] by (fastforce simp: system_ok_def)
  moreover have "jb_id j \<in> fst ` set (sy_published s)"
    if j: "j \<in> set (tb_jobs db')" "jb_status j = COMPLETED" for j
  proof -
    obtain i where "i \<in> set (tb_jobs (sy_db s))" "jb_id i = jb_id j" "jb_status i = COMPLETED"
      using bspec [OF assms(4) j(1)] j(2) by blast
    then show ?thesis using assms(1) unfolding system_ok_def by (metis (no_types))
  qed
  ultimately show ?thesis using assms(2) unfolding system_ok_def set_db_def by auto
qed

text \<open>Updates of jobs that do not complete a job.\<close>

lemma update_jobs_system:
  assumes "system_ok s" and "\<And>j. jb_id (f j) = jb_id j \<and> jb_total_accounts (f j) = jb_total_accounts j
      \<and> jb_processed (f j) = jb_processed j"
    and "\<And>j. P j \<Longrightarrow> jb_status (f j) = COMPLETED \<Longrightarrow> jb_status j = COMPLETED"
  shows "system_ok (set_db (fst (update_jobs P f (sy_db s))) s)"
proof (rule system_ok_db [OF assms(1)])
  have ok: "db_ok (sy_db s)" using assms(1) by (simp add: system_ok_def)
  note u = update_jobs_ok [OF ok assms(2), where P = P]
  show "db_ok (fst (update_jobs P f (sy_db s)))" by (rule u(1))
  show "keeps_completed (sy_db s) (fst (update_jobs P f (sy_db s)))"
    using u(2,3) by (simp add: keeps_completed_def)
  show "\<forall>j \<in> set (tb_jobs (fst (update_jobs P f (sy_db s)))). jb_status j = COMPLETED \<longrightarrow>
      (\<exists>i \<in> set (tb_jobs (sy_db s)). jb_id i = jb_id j \<and> jb_status i = COMPLETED)"
  proof (intro ballI impI)
    fix j
    assume "j \<in> set (tb_jobs (fst (update_jobs P f (sy_db s))))" and st: "jb_status j = COMPLETED"
    then obtain i where "i \<in> set (tb_jobs (sy_db s))" "j = (if P i then f i else i)"
      by (auto simp: update_jobs_def)
    then show "\<exists>i \<in> set (tb_jobs (sy_db s)). jb_id i = jb_id j \<and> jb_status i = COMPLETED"
      using assms(2) [of i] assms(3) [of i] st by (intro bexI [of _ i]) (auto split: if_split_asm)
  qed
qed

lemma set_worker_ok:
  assumes "system_ok s" and "worker_ok (sy_db s) p"
  shows "system_ok (set_worker w p s)"
  using assms unfolding system_ok_def set_worker_def by simp

section \<open>Every step keeps the invariant\<close>

lemma filter_map_other:
  assumes "\<And>a. P a \<Longrightarrow> \<not> Q a \<and> \<not> Q (f a)"
  shows "filter Q (map (\<lambda>a. if P a then f a else a) xs) = filter Q xs"
  using assms by (induction xs) auto

lemma system_ok_save:
  assumes "system_ok s" and sv: "slik_save now job_id account primary vals (sy_db s) = Inr db"
  shows "system_ok (set_db db s)"
proof (rule system_ok_db [OF assms(1)])
  have ok: "db_ok (sy_db s)" using assms(1) by (simp add: system_ok_def)
  note v = save_ok [OF sv ok]
  show "db_ok db" by (rule v(1))
  obtain a where a: "a \<in> set (tb_accounts (sy_db s))" "ac_job_id a = job_id" "ac_status a = AccountQueued"
    using v(3) by blast
  have "accounts_of k db = accounts_of k (sy_db s)" if "all_completed k (sy_db s)" for k
  proof -
    have "k \<noteq> job_id" using a that by (auto simp: all_completed_def)
    then show ?thesis unfolding v(4) by (intro filter_map_other) auto
  qed
  then show "keeps_completed (sy_db s) db" using v(2) by (auto simp: keeps_completed_def)
  show "\<forall>j \<in> set (tb_jobs db). jb_status j = COMPLETED \<longrightarrow>
      (\<exists>i \<in> set (tb_jobs (sy_db s)). jb_id i = jb_id j \<and> jb_status i = COMPLETED)"
    unfolding v(5) by auto
qed

lemma system_ok_submit:
  assumes "system_ok s" and cr: "slik_create job accounts (sy_db s) = Inr db" and ne: "'''' \<notin> set accounts"
  shows "system_ok (set_db db s)"
proof (rule system_ok_db [OF assms(1)])
  have ok: "db_ok (sy_db s)" using assms(1) by (simp add: system_ok_def)
  note v = create_ok [OF cr ok ne]
  show "db_ok db" by (rule v(1))
  have "accounts_of k db = accounts_of k (sy_db s)" if "k \<in> jb_id ` set (tb_jobs (sy_db s))" for k
  proof -
    have "k \<noteq> jb_id job" using v(2) that by metis
    then show ?thesis by (simp add: v(3) filter_empty_conv new_account_def)
  qed
  then show "keeps_completed (sy_db s) db" using v(4) by (auto simp: keeps_completed_def)
  show "\<forall>j \<in> set (tb_jobs db). jb_status j = COMPLETED \<longrightarrow>
      (\<exists>i \<in> set (tb_jobs (sy_db s)). jb_id i = jb_id j \<and> jb_status i = COMPLETED)"
  proof (intro ballI impI)
    fix j
    assume j: "j \<in> set (tb_jobs db)" "jb_status j = COMPLETED"
    then have "j \<in> set (tb_jobs (sy_db s))" using v(5,6) [of j] by fastforce
    then show "\<exists>i \<in> set (tb_jobs (sy_db s)). jb_id i = jb_id j \<and> jb_status i = COMPLETED" using j by blast
  qed
qed

lemma system_ok_complete:
  assumes ok: "system_ok s" and w: "sy_worker s w = Patched job_id results"
    and t: "slik_terminal now job_id COMPLETED '''' '''' output (sy_db s) = Inr db"
  shows "system_ok (set_worker w Polling ((set_db db s)\<lparr>sy_published := (job_id, results) # sy_published s\<rparr>))"
proof -
  have dbok: "db_ok (sy_db s)" using ok by (simp add: system_ok_def)
  note v = terminal_ok [OF t dbok]
  have kc: "keeps_completed (sy_db s) db" using v(2,3) by (simp add: keeps_completed_def)
  have wk: "job_id \<in> jb_id ` set (tb_jobs (sy_db s))" "all_completed job_id (sy_db s)"
      "results = completed_rows job_id '''' (sy_db s)"
    using ok w unfolding system_ok_def by (metis worker_ok.simps(3))+
  have workers: "worker_ok db (sy_worker s u)" for u
    using ok keeps_completed_worker [OF kc] by (auto simp: system_ok_def)
  have pub: "k \<in> jb_id ` set (tb_jobs db) \<and> all_completed k db \<and> rs = completed_rows k '''' db"
    if "(k, rs) \<in> set ((job_id, results) # sy_published s)" for k rs
    using ok wk that keeps_completed_published [OF kc, of k] by (fastforce simp: system_ok_def)
  have done': "jb_id j \<in> fst ` set ((job_id, results) # sy_published s)"
    if j: "j \<in> set (tb_jobs db)" "jb_status j = COMPLETED" for j
  proof (cases "jb_id j = job_id")
    case False
    have "j \<in> set (tb_jobs (sy_db s))"
      using t j(1) False
      by (auto simp: slik_terminal_def update_jobs_def Let_def split: if_split_asm)
    then show ?thesis using ok j(2) by (auto simp: system_ok_def)
  qed simp
  show ?thesis
    using v(1) workers pub done' unfolding system_ok_def set_worker_def set_db_def by auto
qed

lemma slik_step_ok:
  assumes "slik_step s s'" and "system_ok s"
  shows "system_ok s'"
  using assms
proof (cases rule: slik_step.cases)
  case (submit now max_upload token att name as_of copied rows job db)
  then show ?thesis
    using system_ok_submit [OF assms(2) submit_create(1)] unique_accounts_distinct [of "[]" rows] by auto
next
  case (cancel now job_id owner view_all)
  show ?thesis unfolding cancel cancel_update_def by (rule update_jobs_system [OF assms(2)]) auto
next
  case (clear now job_id)
  show ?thesis unfolding clear slik_clear_files_def by (rule update_jobs_system [OF assms(2)]) auto
next
  case (recover w)
  show ?thesis unfolding recover(1) slik_recover_def by (rule update_jobs_system [OF assms(2)]) auto
next
  case (select w job_id)
  then show ?thesis using set_worker_ok [OF assms(2)] by simp
next
  case (lost_race w job_id now)
  then show ?thesis using set_worker_ok [OF assms(2)] by simp
next
  case (claim w job_id now db n)
  have db: "db = fst (claim_update now job_id (sy_db s))" using claim(3) by simp
  have "system_ok (set_db db s)"
    unfolding db claim_update_def by (rule update_jobs_system [OF assms(2)]) auto
  moreover have "job_id \<in> jb_id ` set (tb_jobs db)"
  proof -
    have "filter (\<lambda>j. jb_id j = job_id \<and> jb_status j = QUEUED) (tb_jobs (sy_db s)) \<noteq> []"
      using claim(3,4) by (auto simp: claim_update_def update_jobs_def)
    then have "job_id \<in> jb_id ` set (tb_jobs (sy_db s))" by (auto simp: filter_empty_conv)
    moreover have "db_ok (sy_db s)" using assms(2) by (simp add: system_ok_def)
    ultimately show ?thesis unfolding db claim_update_def by (subst update_jobs_ok(3)) simp_all
  qed
  ultimately show ?thesis using set_worker_ok [of "set_db db s"] claim(1) by (simp add: set_db_def)
next
  case (save w job_id now account primary vals db)
  then show ?thesis using system_ok_save [OF assms(2)] by simp
next
  case (fail w job_id account reason)
  then show ?thesis using set_worker_ok [OF assms(2)] by simp
next
  case (fail_output w job_id account reason)
  then show ?thesis using set_worker_ok [OF assms(2)] by simp
next
  case (finish_failed w job_id account reason now db)
  have "system_ok (set_db db s)"
    unfolding terminal_update [OF finish_failed(3)] by (rule update_jobs_system [OF assms(2)]) auto
  then show ?thesis using set_worker_ok [of "set_db db s"] finish_failed(1) by simp
next
  case (check_complete w job_id)
  have "worker_ok (sy_db s) (Running job_id)" using assms(2) check_complete(2) unfolding system_ok_def by metis
  moreover have "all_completed job_id (sy_db s)"
    using check_complete(3) by (auto simp: slik_check_complete_def all_completed_def filter_empty_conv split: if_split_asm)
  ultimately show ?thesis using set_worker_ok [OF assms(2)] check_complete(1) by simp
next
  case (patch w job_id)
  have "worker_ok (sy_db s) (Checked job_id)" using assms(2) patch(2) unfolding system_ok_def by metis
  moreover have "slik_results job_id (sy_db s) = completed_rows job_id '''' (sy_db s)"
    using assms(2) results_loop_all [of "sy_db s" 256 job_id "''''" "[]"]
    by (simp add: slik_results_def system_ok_def)
  ultimately show ?thesis using set_worker_ok [OF assms(2)] patch(1) by simp
next
  case (complete w job_id results now db)
  then show ?thesis using system_ok_complete [OF assms(2)] by simp
next
  case (abandon w)
  then show ?thesis using set_worker_ok [OF assms(2)] by simp
qed

lemma slik_reachable_ok: "slik_reachable s \<Longrightarrow> system_ok s"
proof (induction rule: slik_reachable.induct)
  case init
  show ?case by (simp add: system_ok_def db_ok_def initial_system_def)
next
  case (step s s')
  then show ?case using slik_step_ok by blast
qed

section \<open>Completed jobs\<close>

lemma completed_rows_all:
  assumes "db_ok db" and "all_completed k db"
  shows "set (completed_rows k '''' db) = (\<lambda>a. (ac_requested a, ac_values a)) ` set (accounts_of k db)"
proof -
  have "'''' < ac_requested a" if "a \<in> set (tb_accounts db)" for a
    using assms(1) that by (auto simp: db_ok_def neq_Nil_conv)
  then show ?thesis using assms(2) by (auto simp: completed_rows_def all_completed_def image_iff)
qed

lemma all_completed_count:
  "all_completed k db \<Longrightarrow> completed_of k db = length (accounts_of k db)"
  unfolding completed_of_def all_completed_def by (intro arg_cong [of _ _ length] filter_cong) auto

lemma completed_of_le: "completed_of k db \<le> length (accounts_of k db)"
proof -
  have "completed_of k db = length (filter (\<lambda>a. ac_status a = AccountCompleted) (accounts_of k db))"
    unfolding completed_of_def filter_filter by (simp add: conj_ac)
  then show ?thesis by (metis length_filter_le)
qed

section \<open>Permanence\<close>

text \<open>What a terminal job never changes; only its file references may be cleared.\<close>

definition outcome :: "slik_job \<Rightarrow> string \<times> job_status \<times> int \<times> int option \<times> int option \<times> string \<times> string" where
  "outcome j = (jb_id j, jb_status j, jb_processed j, jb_finished_at j, jb_expires_at j, jb_failed_account j,
     jb_failure_reason j)"

lemma update_jobs_outcome:
  assumes "j \<in> set (tb_jobs db)" and "P j \<Longrightarrow> outcome (f j) = outcome j"
  shows "outcome j \<in> outcome ` set (tb_jobs (fst (update_jobs P f db)))"
proof -
  have "(if P j then f j else j) \<in> set (tb_jobs (fst (update_jobs P f db)))"
    using assms(1) by (auto simp: update_jobs_def)
  then show ?thesis using assms(2) by (force intro: image_eqI [where x = "if P j then f j else j"])
qed

lemma terminal_outcome:
  assumes "slik_terminal now job_id st account reason output db = Inr db'"
    and "j \<in> set (tb_jobs db)" and "is_terminal (jb_status j)"
  shows "outcome j \<in> outcome ` set (tb_jobs db')"
  unfolding terminal_update [OF assms(1)]
  by (rule update_jobs_outcome [OF assms(2)]) (use assms(3) in \<open>auto simp: is_terminal_def\<close>)

lemma step_outcome:
  assumes "slik_step s s'" and ok: "system_ok s" and j: "j \<in> set (tb_jobs (sy_db s))" and t: "is_terminal (jb_status j)"
  shows "outcome j \<in> outcome ` set (tb_jobs (sy_db s'))"
  using assms(1)
proof (cases rule: slik_step.cases)
  case (submit now max_upload token att name as_of copied rows job db)
  have db: "db_ok (sy_db s)" using ok by (simp add: system_ok_def)
  have "set (tb_jobs (sy_db s)) \<subseteq> set (tb_jobs db)"
    using submit_create(1) [OF submit(2)] create_ok(7) [OF _ db, of job "unique_accounts [] rows" db]
      unique_accounts_distinct [of "[]" rows] submit(3) by auto
  then show ?thesis using j submit(1) by (auto simp: set_db_def)
next
  case (save w job_id now account primary vals db)
  have db: "db_ok (sy_db s)" using ok by (simp add: system_ok_def)
  have "j \<in> set (tb_jobs db)"
    unfolding save_ok(5) [OF save(3) db] using j t by (auto simp: is_terminal_def image_iff intro!: bexI [of _ j])
  then show ?thesis using save(1) by (auto simp: set_db_def)
next
  case (finish_failed w job_id account reason now db)
  then show ?thesis using terminal_outcome [OF finish_failed(3) j t] by (simp add: set_db_def set_worker_def)
next
  case (complete w job_id results now db)
  then show ?thesis using terminal_outcome [OF complete(3) j t] by (simp add: set_db_def set_worker_def)
next
  case (claim w job_id now db n)
  have "db = fst (claim_update now job_id (sy_db s))" using claim(3) by simp
  moreover have "outcome j \<in> outcome ` set (tb_jobs (fst (claim_update now job_id (sy_db s))))"
    unfolding claim_update_def by (rule update_jobs_outcome [OF j]) (use t in \<open>simp add: is_terminal_def\<close>)
  ultimately show ?thesis using claim(1) by (simp add: set_db_def set_worker_def)
next
  case (cancel now job_id owner view_all)
  have "outcome j \<in> outcome ` set (tb_jobs (cancel_update now job_id owner view_all (sy_db s)))"
    unfolding cancel_update_def by (rule update_jobs_outcome [OF j]) (use t in \<open>auto simp: is_terminal_def\<close>)
  then show ?thesis using cancel by (simp add: set_db_def)
next
  case (clear now job_id)
  have "outcome j \<in> outcome ` set (tb_jobs (slik_clear_files now job_id (sy_db s)))"
    unfolding slik_clear_files_def by (rule update_jobs_outcome [OF j]) (simp add: outcome_def)
  then show ?thesis using clear by (simp add: set_db_def)
next
  case (recover w)
  have "outcome j \<in> outcome ` set (tb_jobs (slik_recover (sy_db s)))"
    unfolding slik_recover_def by (rule update_jobs_outcome [OF j]) (use t in \<open>auto simp: is_terminal_def\<close>)
  then show ?thesis using recover by (simp add: set_db_def)
qed (use j in \<open>auto simp: set_worker_def\<close>)

lemma update_jobs_accounts [simp]: "tb_accounts (fst (update_jobs P f db)) = tb_accounts db"
  by (simp add: update_jobs_def)

lemma step_checkpoint:
  assumes "slik_step s s'" and ok: "system_ok s"
    and a: "a \<in> set (tb_accounts (sy_db s))" "ac_status a = AccountCompleted"
  shows "a \<in> set (tb_accounts (sy_db s'))"
  using assms(1)
proof (cases rule: slik_step.cases)
  case (submit now max_upload token att name as_of copied rows job db)
  have db: "db_ok (sy_db s)" using ok by (simp add: system_ok_def)
  have "tb_accounts db = tb_accounts (sy_db s) @ map (new_account (jb_id job)) (unique_accounts [] rows)"
    using submit_create(1) [OF submit(2)] create_ok(3) [OF _ db, of job "unique_accounts [] rows" db]
      unique_accounts_distinct [of "[]" rows] submit(3) by auto
  then show ?thesis using a submit(1) by (simp add: set_db_def)
next
  case (save w job_id now account primary vals db)
  have db: "db_ok (sy_db s)" using ok by (simp add: system_ok_def)
  have "a \<in> set (tb_accounts db)"
    unfolding save_ok(4) [OF save(3) db] using a by (auto simp: image_iff intro!: bexI [of _ a])
  then show ?thesis using save(1) by (simp add: set_db_def)
next
  case (finish_failed w job_id account reason now db)
  then show ?thesis using a terminal_update [OF finish_failed(3)] by (simp add: set_db_def set_worker_def)
next
  case (complete w job_id results now db)
  then show ?thesis using a terminal_update [OF complete(3)] by (simp add: set_db_def set_worker_def)
next
  case (claim w job_id now db n)
  have "db = fst (claim_update now job_id (sy_db s))" using claim(3) by simp
  then show ?thesis using a claim(1) by (simp add: set_db_def set_worker_def claim_update_def)
qed (use a in \<open>auto simp: set_db_def set_worker_def cancel_update_def slik_clear_files_def slik_recover_def\<close>)

lemma steps_permanent:
  assumes "slik_step\<^sup>*\<^sup>* s s'" and "slik_reachable s"
  shows "slik_reachable s'
    \<and> (\<forall>j \<in> set (tb_jobs (sy_db s)). is_terminal (jb_status j) \<longrightarrow> outcome j \<in> outcome ` set (tb_jobs (sy_db s')))
    \<and> (\<forall>a \<in> set (tb_accounts (sy_db s)). ac_status a = AccountCompleted \<longrightarrow> a \<in> set (tb_accounts (sy_db s')))"
  using assms
proof (induction rule: rtranclp_induct)
  case base
  then show ?case by auto
next
  case (step t u)
  then have t: "slik_reachable t" "system_ok t" using slik_reachable_ok by auto
  have "outcome j \<in> outcome ` set (tb_jobs (sy_db u))"
    if j: "j \<in> set (tb_jobs (sy_db s))" "is_terminal (jb_status j)" for j
  proof -
    obtain i where i: "i \<in> set (tb_jobs (sy_db t))" "outcome j = outcome i" using step j by blast
    then have "is_terminal (jb_status i)" using j(2) by (simp add: outcome_def)
    then show ?thesis using step_outcome [OF step(2) t(2) i(1)] i(2) by simp
  qed
  moreover have "a \<in> set (tb_accounts (sy_db u))"
    if "a \<in> set (tb_accounts (sy_db s))" "ac_status a = AccountCompleted" for a
    using step that step_checkpoint [OF step(2) t(2)] by blast
  ultimately show ?case using slik_reachable.step [OF t(1) step(2)] by blast
qed

section \<open>A sample run\<close>

definition sample_token :: string where
  "sample_token = ''0123456789abcdef0123456789abcdef''"

definition sample_attribution :: attribution where
  "sample_attribution =
     \<lparr>att_actor = Some \<lparr>idt_user_id = 1, idt_username = ''ani''\<rparr>,
      att_effective = Some \<lparr>idt_user_id = 1, idt_username = ''ani''\<rparr>, att_system_actor = ''''\<rparr>"

definition sample_submission :: "slik_error + slik_job \<times> slik_db" where
  "sample_submission =
     slik_submit 5 100 sample_token sample_attribution ''june.xlsx'' ''2025-06-30'' 10 (Inr [''7'', ''7''])
       (sy_db initial_system)"

definition sample_values :: slik_values where
  "sample_values = \<lparr>sv_balance = ''10.00'', sv_rate = ''12''\<rparr>"

definition sample_queued :: slik_db where
  "sample_queued = (case sample_submission of Inr (_, db) \<Rightarrow> db | Inl _ \<Rightarrow> sy_db initial_system)"

definition sample_claimed :: slik_db where
  "sample_claimed = fst (claim_update 6 sample_token sample_queued)"

definition sample_saved :: slik_db where
  "sample_saved = (case slik_save 7 sample_token ''7'' ''70'' sample_values sample_claimed of Inr db \<Rightarrow> db | Inl _ \<Rightarrow> sample_claimed)"

definition sample_finished :: slik_db where
  "sample_finished =
     (case slik_terminal 8 sample_token COMPLETED '''' '''' (sample_token @ ''.output.xlsx'') sample_saved of
        Inr db \<Rightarrow> db | Inl _ \<Rightarrow> sample_saved)"

definition sample_system :: slik_system where
  "sample_system = \<lparr>sy_db = sample_finished, sy_worker = (\<lambda>_. Polling),
     sy_published = [(sample_token, [(''7'', sample_values)])]\<rparr>"

lemma sample_facts:
  "sample_submission = Inr (hd (tb_jobs sample_queued), sample_queued)"
  "claim_select sample_queued = Some sample_token"
  "claim_update 6 sample_token sample_queued = (sample_claimed, 1)"
  "slik_save 7 sample_token ''7'' ''70'' sample_values sample_claimed = Inr sample_saved"
  "slik_check_complete sample_token sample_saved = Inr ()"
  "results_page 256 sample_token '''' sample_saved = [(''7'', sample_values)]"
  "results_page 256 sample_token ''7'' sample_saved = []"
  "slik_terminal 8 sample_token COMPLETED '''' '''' (sample_token @ ''.output.xlsx'') sample_saved = Inr sample_finished"
  "map jb_status (tb_jobs sample_finished) = [COMPLETED]"
  by code_simp+

lemma sample_reachable: "slik_reachable sample_system"
proof -
  let ?w = "\<lambda>p s. set_worker 0 p s"
  define s1 where "s1 = set_db sample_queued initial_system"
  have r1: "slik_reachable s1"
    using slik_reachable.init slik_step.submit [of 5 100 sample_token sample_attribution "''june.xlsx''" "''2025-06-30''" 10
        "[''7'', ''7'']" initial_system "hd (tb_jobs sample_queued)" sample_queued] sample_facts(1)
    by (auto simp: s1_def sample_submission_def intro: slik_reachable.step)
  define s2 where "s2 = ?w (Claiming sample_token) s1"
  have r2: "slik_reachable s2"
    using slik_reachable.step [OF r1 slik_step.select [of s1 0 sample_token]] sample_facts(2)
    by (simp add: s2_def s1_def set_db_def initial_system_def)
  define s3 where "s3 = ?w (Running sample_token) (set_db sample_claimed s2)"
  have r3: "slik_reachable s3"
    using slik_reachable.step [OF r2 slik_step.claim [of s2 0 sample_token 6 sample_claimed 1]] sample_facts(3)
    by (simp add: s3_def s2_def s1_def set_db_def set_worker_def)
  define s4 where "s4 = set_db sample_saved s3"
  have r4: "slik_reachable s4"
    using slik_reachable.step [OF r3 slik_step.save [of s3 0 sample_token 7 "''7''" "''70''" sample_values sample_saved]] sample_facts(4)
    by (simp add: s4_def s3_def s2_def s1_def set_db_def set_worker_def)
  define s5 where "s5 = ?w (Checked sample_token) s4"
  have r5: "slik_reachable s5"
    using slik_reachable.step [OF r4 slik_step.check_complete [of s4 0 sample_token]] sample_facts(5)
    by (simp add: s5_def s4_def s3_def s2_def s1_def set_db_def set_worker_def)
  have results: "slik_results sample_token sample_saved = [(''7'', sample_values)]"
    by (simp add: slik_results_def results_loop.simps [of 256 sample_token "''''"] results_loop.simps [of 256 sample_token "''7''"] sample_facts(6,7))
  define s6 where "s6 = ?w (Patched sample_token [(''7'', sample_values)]) s5"
  have r6: "slik_reachable s6"
    using slik_reachable.step [OF r5 slik_step.patch [of s5 0 sample_token]] results
    by (simp add: s6_def s5_def s4_def s3_def s2_def s1_def set_db_def set_worker_def)
  have "slik_reachable (?w Polling ((set_db sample_finished s6)\<lparr>sy_published := (sample_token, [(''7'', sample_values)]) # sy_published s6\<rparr>))"
    using slik_reachable.step [OF r6 slik_step.complete [of s6 0 sample_token "[(''7'', sample_values)]" 8 sample_finished]] sample_facts(8)
    by (simp add: s6_def s5_def s4_def s3_def s2_def s1_def set_db_def set_worker_def)
  moreover have "?w Polling ((set_db sample_finished s6)\<lparr>sy_published := (sample_token, [(''7'', sample_values)]) # sy_published s6\<rparr>) = sample_system"
    by (simp add: s6_def s5_def s4_def s3_def s2_def s1_def set_db_def set_worker_def initial_system_def sample_system_def fun_eq_iff)
  ultimately show ?thesis by simp
qed

section \<open>Properties\<close>

text \<open>
  C13. A completed SLIK job is complete: in every state the workers and clients can reach, with any
  number of workers and lost locks, each job's counters equal the numbers of its checkpoints, and a
  job whose status is COMPLETED has all its accounts completed, has a published output, and every
  output published for it was generated from exactly the saved values of all its accounts, in order.
\<close>

theorem slik_completed_job:
  "slik_reachable s \<longrightarrow> (\<forall>j \<in> set (tb_jobs (sy_db s)).
     0 \<le> jb_processed j \<and> jb_processed j \<le> jb_total_accounts j
     \<and> jb_total_accounts j = int (length (accounts_of (jb_id j) (sy_db s)))
     \<and> (jb_status j = COMPLETED \<longrightarrow>
          jb_processed j = jb_total_accounts j
          \<and> (\<exists>rs. (jb_id j, rs) \<in> set (sy_published s))
          \<and> (\<forall>rs. (jb_id j, rs) \<in> set (sy_published s) \<longrightarrow>
                sorted_wrt (<) (map fst rs)
                \<and> set rs = (\<lambda>a. (ac_requested a, ac_values a)) ` set (accounts_of (jb_id j) (sy_db s)))))"
proof (intro impI ballI)
  fix j
  assume "slik_reachable s" and j: "j \<in> set (tb_jobs (sy_db s))"
  then have ok: "system_ok s" by (simp add: slik_reachable_ok)
  then have db: "db_ok (sy_db s)" by (simp add: system_ok_def)
  have counts: "jb_total_accounts j = int (length (accounts_of (jb_id j) (sy_db s)))"
      "jb_processed j = int (completed_of (jb_id j) (sy_db s))"
    using db j by (simp_all add: db_ok_def)
  have pub: "all_completed k (sy_db s) \<and> rs = completed_rows k '''' (sy_db s)" if "(k, rs) \<in> set (sy_published s)" for k rs
    using ok that by (auto simp: system_ok_def)
  have "jb_processed j = jb_total_accounts j
      \<and> (\<exists>rs. (jb_id j, rs) \<in> set (sy_published s))
      \<and> (\<forall>rs. (jb_id j, rs) \<in> set (sy_published s) \<longrightarrow> sorted_wrt (<) (map fst rs)
           \<and> set rs = (\<lambda>a. (ac_requested a, ac_values a)) ` set (accounts_of (jb_id j) (sy_db s)))"
    if "jb_status j = COMPLETED"
  proof -
    have "\<exists>rs. (jb_id j, rs) \<in> set (sy_published s)" using ok j that by (force simp: system_ok_def)
    then have ex: "\<exists>rs. (jb_id j, rs) \<in> set (sy_published s)" "all_completed (jb_id j) (sy_db s)" using pub by blast+
    have "sorted_wrt (<) (map fst rs)
        \<and> set rs = (\<lambda>a. (ac_requested a, ac_values a)) ` set (accounts_of (jb_id j) (sy_db s))"
      if "(jb_id j, rs) \<in> set (sy_published s)" for rs
      using pub [OF that] completed_rows_sorted [OF db] completed_rows_all [OF db ex(2)] by simp
    then show ?thesis using counts ex all_completed_count [OF ex(2)] by simp
  qed
  then show "0 \<le> jb_processed j \<and> jb_processed j \<le> jb_total_accounts j
     \<and> jb_total_accounts j = int (length (accounts_of (jb_id j) (sy_db s)))
     \<and> (jb_status j = COMPLETED \<longrightarrow>
          jb_processed j = jb_total_accounts j
          \<and> (\<exists>rs. (jb_id j, rs) \<in> set (sy_published s))
          \<and> (\<forall>rs. (jb_id j, rs) \<in> set (sy_published s) \<longrightarrow>
                sorted_wrt (<) (map fst rs)
                \<and> set rs = (\<lambda>a. (ac_requested a, ac_values a)) ` set (accounts_of (jb_id j) (sy_db s))))"
    using counts completed_of_le [of "jb_id j" "sy_db s"] by simp
qed

theorem slik_completed_job_witness:
  "slik_reachable sample_system \<and> map jb_status (tb_jobs (sy_db sample_system)) = [COMPLETED]
   \<and> map jb_processed (tb_jobs (sy_db sample_system)) = map jb_total_accounts (tb_jobs (sy_db sample_system))"
proof -
  have st: "map jb_status (tb_jobs (sy_db sample_system)) = [COMPLETED]"
    using sample_facts(9) by (simp add: sample_system_def)
  then obtain j where "tb_jobs (sy_db sample_system) = [j]" "jb_status j = COMPLETED" by auto
  then have "map jb_processed (tb_jobs (sy_db sample_system)) = map jb_total_accounts (tb_jobs (sy_db sample_system))"
    using slik_completed_job [of sample_system] sample_reachable by simp
  then show ?thesis using st sample_reachable by blast
qed

text \<open>
  C14. Outcomes and checkpoints are permanent: whatever steps follow, a job that has failed, completed or
  been canceled keeps its status, progress, times and failure reason, and an account that has been saved
  keeps its values.
\<close>

theorem slik_outcome_permanent:
  "slik_reachable s \<and> slik_step\<^sup>*\<^sup>* s s' \<longrightarrow>
     (\<forall>j \<in> set (tb_jobs (sy_db s)). is_terminal (jb_status j) \<longrightarrow>
        (\<exists>j' \<in> set (tb_jobs (sy_db s')). jb_id j' = jb_id j \<and> jb_status j' = jb_status j
           \<and> jb_processed j' = jb_processed j \<and> jb_finished_at j' = jb_finished_at j
           \<and> jb_failure_reason j' = jb_failure_reason j))
     \<and> (\<forall>a \<in> set (tb_accounts (sy_db s)). ac_status a = AccountCompleted \<longrightarrow> a \<in> set (tb_accounts (sy_db s')))"
proof
  assume a: "slik_reachable s \<and> slik_step\<^sup>*\<^sup>* s s'"
  have perm: "\<exists>j' \<in> set (tb_jobs (sy_db s')). outcome j' = outcome j"
    if "j \<in> set (tb_jobs (sy_db s))" "is_terminal (jb_status j)" for j
    using steps_permanent [of s s'] a that by (metis imageE)
  show "(\<forall>j \<in> set (tb_jobs (sy_db s)). is_terminal (jb_status j) \<longrightarrow>
        (\<exists>j' \<in> set (tb_jobs (sy_db s')). jb_id j' = jb_id j \<and> jb_status j' = jb_status j
           \<and> jb_processed j' = jb_processed j \<and> jb_finished_at j' = jb_finished_at j
           \<and> jb_failure_reason j' = jb_failure_reason j))
     \<and> (\<forall>a \<in> set (tb_accounts (sy_db s)). ac_status a = AccountCompleted \<longrightarrow> a \<in> set (tb_accounts (sy_db s')))"
  proof (intro conjI ballI impI)
    fix j
    assume "j \<in> set (tb_jobs (sy_db s))" and "is_terminal (jb_status j)"
    then obtain j' where "j' \<in> set (tb_jobs (sy_db s'))" "outcome j' = outcome j" using perm by blast
    then show "\<exists>j' \<in> set (tb_jobs (sy_db s')). jb_id j' = jb_id j \<and> jb_status j' = jb_status j
           \<and> jb_processed j' = jb_processed j \<and> jb_finished_at j' = jb_finished_at j
           \<and> jb_failure_reason j' = jb_failure_reason j"
      by (intro bexI [of _ j']) (simp_all add: outcome_def)
  next
    fix c
    assume "c \<in> set (tb_accounts (sy_db s))" and "ac_status c = AccountCompleted"
    then show "c \<in> set (tb_accounts (sy_db s'))" using steps_permanent [of s s'] a by blast
  qed
qed

theorem slik_outcome_permanent_witness:
  "slik_reachable sample_system
   \<and> (\<exists>j' \<in> set (tb_jobs (sy_db (set_db (slik_clear_files 99 sample_token sample_finished) sample_system))).
        jb_status j' = COMPLETED)"
proof -
  let ?s' = "set_db (slik_clear_files 99 sample_token (sy_db sample_system)) sample_system"
  have "slik_step\<^sup>*\<^sup>* sample_system ?s'" using slik_step.clear by blast
  moreover have "\<exists>j \<in> set (tb_jobs (sy_db sample_system)). jb_status j = COMPLETED"
    using sample_facts(9) by (auto simp: sample_system_def)
  ultimately have "\<exists>j' \<in> set (tb_jobs (sy_db ?s')). jb_status j' = COMPLETED"
    using slik_outcome_permanent [of sample_system ?s'] sample_reachable by (fastforce simp: is_terminal_def)
  then show ?thesis using sample_reachable by (simp add: sample_system_def)
qed

text \<open>
  C25. A download serves only an output that may be served: \<open>OpenOutput\<close> returns a file only for a job with
  the requested id that the user owns (or may view), that is completed and not past its retention time;
  the file is named after the job's own identifier of 32 hexadecimal digits, without any directory part.
\<close>

theorem open_output_safe:
  "open_output uni exists now job_id owner view_all db = Inr name \<longrightarrow>
     (\<exists>j \<in> set (tb_jobs db). jb_id j = job_id \<and> (view_all \<or> jb_owner_id j = owner) \<and> jb_status j = COMPLETED
        \<and> (\<exists>t. jb_expires_at j = Some t \<and> now < t))
     \<and> exists name \<and> name = job_id @ ''.output.xlsx'' \<and> length job_id = 32 \<and> list_all is_hex job_id
     \<and> CHR ''/'' \<notin> set name"
proof
  assume a: "open_output uni exists now job_id owner view_all db = Inr name"
  then obtain j where g: "slik_get job_id owner view_all db = Inr j" and c: "jb_status j = COMPLETED"
    and av: "job_available now j" and sp: "safe_path uni (jb_output_file j) (jb_id j) ''.output.xlsx'' = Some name"
    and ex: "exists name"
    by (auto simp: open_output_def res_simps split: if_split_asm option.split_asm)
  from g have j: "j \<in> set (tb_jobs db)" "jb_id j = job_id" "view_all \<or> jb_owner_id j = owner"
    by (auto simp: slik_get_def find_Some_iff split: option.split_asm)
  from sp have n: "name = job_id @ ''.output.xlsx''" "length job_id = 32" "list_all is_hex job_id"
    using j(2) by (auto simp: safe_path_def valid_job_id_def split: if_split_asm)
  have "CHR ''/'' \<notin> set job_id"
    using n(3) by (auto simp: list_all_iff is_hex_def is_digit_def byte_def)
  then have "CHR ''/'' \<notin> set name" by (simp add: n(1))
  moreover have "\<exists>t. jb_expires_at j = Some t \<and> now < t" using av by (auto simp: job_available_def split: option.split_asm)
  ultimately show "(\<exists>j \<in> set (tb_jobs db). jb_id j = job_id \<and> (view_all \<or> jb_owner_id j = owner) \<and> jb_status j = COMPLETED
        \<and> (\<exists>t. jb_expires_at j = Some t \<and> now < t))
     \<and> exists name \<and> name = job_id @ ''.output.xlsx'' \<and> length job_id = 32 \<and> list_all is_hex job_id
     \<and> CHR ''/'' \<notin> set name"
    using j c n ex by blast
qed

theorem open_output_safe_witness:
  "open_output id (\<lambda>_. True) 9 sample_token 1 False sample_finished = Inr (sample_token @ ''.output.xlsx'')
   \<and> CHR ''/'' \<notin> set (sample_token @ ''.output.xlsx'')"
proof -
  have "open_output id (\<lambda>_. True) 9 sample_token 1 False sample_finished = Inr (sample_token @ ''.output.xlsx'')"
    by code_simp
  then show ?thesis using open_output_safe [of id "\<lambda>_. True" 9 sample_token 1 False sample_finished] by blast
qed

text \<open>
  C24. A submission queues the accounts of its rows once each: \<open>Submit\<close> succeeds only on a fresh identifier
  and then adds one queued job and one queued account row per distinct account, whatever the size of the
  insert batches, keeps every other row, and the tables stay consistent.
\<close>

theorem slik_submit_queues:
  "db_ok db \<and> '''' \<notin> set rows
     \<and> slik_submit now max_upload token att name as_of copied (Inr rows) db = Inr (job, db') \<longrightarrow>
     db_ok db' \<and> token \<notin> jb_id ` set (tb_jobs db) \<and> jb_id job = token \<and> jb_status job = QUEUED
     \<and> set (tb_jobs db) \<subseteq> set (tb_jobs db') \<and> jb_id ` set (tb_jobs db') = insert token (jb_id ` set (tb_jobs db))
     \<and> (\<exists>accounts. distinct accounts \<and> set accounts = set rows
          \<and> tb_accounts db' = tb_accounts db @ map (new_account token) accounts
          \<and> jb_total_accounts job = int (length accounts) \<and> jb_total_rows job = int (length rows))"
proof
  assume a: "db_ok db \<and> '''' \<notin> set rows
     \<and> slik_submit now max_upload token att name as_of copied (Inr rows) db = Inr (job, db')"
  then have sub: "slik_submit now max_upload token att name as_of copied (Inr rows) db = Inr (job, db')" by blast
  note cr = submit_create [OF sub]
  note u = unique_accounts_distinct [of "[]" rows]
  have ne: "'''' \<notin> set (unique_accounts [] rows)" using a u by simp
  note k = create_ok [OF cr(1) conjunct1 [OF a] ne]
  have "jb_total_accounts job = int (length (unique_accounts [] rows)) \<and> jb_total_rows job = int (length rows)"
    using sub by (auto simp: slik_submit_def Let_def res_simps split: if_split_asm)
  then show "db_ok db' \<and> token \<notin> jb_id ` set (tb_jobs db) \<and> jb_id job = token \<and> jb_status job = QUEUED
     \<and> set (tb_jobs db) \<subseteq> set (tb_jobs db') \<and> jb_id ` set (tb_jobs db') = insert token (jb_id ` set (tb_jobs db))
     \<and> (\<exists>accounts. distinct accounts \<and> set accounts = set rows
          \<and> tb_accounts db' = tb_accounts db @ map (new_account token) accounts
          \<and> jb_total_accounts job = int (length accounts) \<and> jb_total_rows job = int (length rows))"
    using k(1-4,7) cr u by (simp add: cr(2)) blast
qed

theorem slik_submit_queues_witness:
  "sample_submission = Inr (hd (tb_jobs sample_queued), sample_queued) \<and> db_ok sample_queued
   \<and> length (tb_accounts sample_queued) = 1"
proof -
  have "db_ok (sy_db initial_system)" by (simp add: db_ok_def initial_system_def)
  then have "db_ok sample_queued"
    using slik_submit_queues [of "sy_db initial_system" "[''7'', ''7'']" 5 100 sample_token sample_attribution "''june.xlsx''"
        "''2025-06-30''" 10 "hd (tb_jobs sample_queued)" sample_queued] sample_facts(1)
    by (simp add: sample_submission_def)
  moreover have "length (tb_accounts sample_queued) = 1" by code_simp
  ultimately show ?thesis using sample_facts(1) by simp
qed

end
