(* ===== verification/Slik_Xlsx.thy ===== *)
theory Slik_Xlsx
  imports Slik_Jobs "HOL-Library.Word"
begin

text \<open>
  The SLIK workbook reader and patcher of \<open>src/internal/slik/xlsx.go\<close>. A ZIP archive is the list of its
  entries with their bytes; reading a member of an opened archive succeeds. The XML decoder of the
  standard library is the argument \<open>dec\<close>: for the bytes of a part the tokens \<open>Decoder.Token\<close> gives, with
  the offsets \<open>InputOffset\<close> reports before and after each, and whether the decoder then reaches the end
  of the input without a syntax error. Where the code ranges over a Go map the model goes in archive
  order: another order may report another error, but none that succeeds here fails there.
\<close>

section \<open>Archive and tokens\<close>

record xml_name =
  xn_space :: string
  xn_local :: string

type_synonym xml_attrs = "(string \<times> string) list"

datatype xml_token =
    StartElement xml_name xml_attrs
  | EndElement string
  | CharData string
  | OtherToken

record xml_event =
  xe_token :: xml_token
  xe_start :: nat
  xe_end :: nat

record zip_file =
  zf_name :: string
  zf_size :: "64 word"
  zf_symlink :: bool
  zf_dir :: bool
  zf_data :: string

type_synonym decoder = "string \<Rightarrow> xml_event list \<times> bool"

datatype xlsx_error =
    TooManyEntries | UnsafeEntry | DuplicateEntry | ExpandsBeyondLimit | VBAUnsupported | MissingPart string
  | MacroOrEncrypted | MemberTooLarge | MalformedXML | MalformedRelationships | UnsafeTarget | ContentTypes
  | NoWorkbookRelationship | UnsafeWorksheet | NoWorksheets | WorksheetRoot | RowNumber | CellReference
  | DuplicateCell | SharedStringIndex | FormulaAccount | AccountType | AmbiguousNumber | CellStyle
  | MissingFormat | AmbiguousFormat | OnlyXlsx | DuplicateHeader | MultipleHeaderRows | MultipleSheets
  | NoHeaders | UnsupportedTarget | NoRows | TargetFormula | TargetType | MissingResult | OverlappingPatches
  | SheetMissing

definition max_zip_entries :: nat where
  "max_zip_entries = 2048"

definition max_uncompressed :: "64 word" where
  "max_uncompressed = 536870912"

definition max_member :: "64 word" where
  "max_member = 268435456"

definition spreadsheet_ns :: string where
  "spreadsheet_ns = ''http://schemas.openxmlformats.org/spreadsheetml/2006/main''"

definition package_rels_ns :: string where
  "package_rels_ns = ''http://schemas.openxmlformats.org/package/2006/relationships''"

definition content_types_ns :: string where
  "content_types_ns = ''http://schemas.openxmlformats.org/package/2006/content-types''"

text \<open>The map from names to files; \<open>Inspect\<close> reads it only after the names are known to be distinct.\<close>

definition zip_lookup :: "zip_file list \<Rightarrow> string \<Rightarrow> zip_file option" where
  "zip_lookup files name = find (\<lambda>f. zf_name f = name) files"

section \<open>Opening the archive\<close>

definition safe_entry_name :: "string \<Rightarrow> bool" where
  "safe_entry_name name \<longleftrightarrow>
     (let clean = trim_suffix ''/'' name
      in \<not> (clean = '''' \<or> clean = ''..'' \<or> prefix ''/'' clean \<or> contains clean [CHR 0x5C] \<or> contains clean '':''
            \<or> path_clean clean \<noteq> clean \<or> prefix ''../'' clean \<or> contains clean ''/../''))"

text \<open>The loop over the entries: \<open>seen\<close> holds the names already in the map, \<open>used\<close> the running size.\<close>

fun check_entries :: "(string \<Rightarrow> string) \<Rightarrow> string list \<Rightarrow> 64 word \<Rightarrow> zip_file list \<Rightarrow> xlsx_error + unit" where
  "check_entries uni seen used [] = Inr ()"
| "check_entries uni seen used (f # fs) =
     (if \<not> safe_entry_name (zf_name f) \<or> zf_symlink f then Inl UnsafeEntry
      else if zf_name f \<in> set seen then Inl DuplicateEntry
      else
        let used' = used + zf_size f in
        if zf_size f > max_member \<or> used' > max_uncompressed then Inl ExpandsBeyondLimit
        else if contains (to_lower uni (zf_name f)) ''vbaproject'' then Inl VBAUnsupported
        else check_entries uni (zf_name f # seen) used' fs)"

definition required_parts :: "string list" where
  "required_parts = [''[Content_Types].xml'', ''_rels/.rels'', ''xl/workbook.xml'', ''xl/_rels/workbook.xml.rels'']"

definition open_workbook :: "(string \<Rightarrow> string) \<Rightarrow> zip_file list \<Rightarrow> xlsx_error + unit" where
  "open_workbook uni files =
     (if length files > max_zip_entries then Inl TooManyEntries
      else rbind (check_entries uni [] 0 files) (\<lambda>_.
        case find (\<lambda>n. zip_lookup files n = None) required_parts of
          Some n \<Rightarrow> Inl (MissingPart n)
        | None \<Rightarrow>
            if zip_lookup files ''xl/vbaProject.bin'' \<noteq> None \<or> zip_lookup files ''EncryptedPackage'' \<noteq> None
            then Inl MacroOrEncrypted else Inr ()))"

definition read_part :: "zip_file \<Rightarrow> xlsx_error + string" where
  "read_part f = (if int (length (zf_data f)) > uint max_member then Inl MemberTooLarge else Inr (zf_data f))"

section \<open>Elements and attributes\<close>

text \<open>\<open>attribute\<close>: the first attribute with the local name, or the empty text.\<close>

definition xml_attribute :: "xml_attrs \<Rightarrow> string \<Rightarrow> string" where
  "xml_attribute attrs name = (case find (\<lambda>(n, _). n = name) attrs of None \<Rightarrow> '''' | Some (_, v) \<Rightarrow> v)"

text \<open>Cell references: letters, then a number without leading zero.\<close>

definition is_upper_letter :: "char \<Rightarrow> bool" where
  "is_upper_letter c \<longleftrightarrow> 65 \<le> byte c \<and> byte c \<le> 90"

definition cell_reference :: "string \<Rightarrow> (string \<times> string) option" where
  "cell_reference ref =
     (let letters = takeWhile is_upper_letter ref; digits = dropWhile is_upper_letter ref
      in if letters \<noteq> [] \<and> digits \<noteq> [] \<and> list_all is_digit digits \<and> hd digits \<noteq> CHR ''0''
         then Some (letters, digits) else None)"

definition sheet_column :: "string \<Rightarrow> string" where
  "sheet_column ref = (case cell_reference ref of None \<Rightarrow> '''' | Some (letters, _) \<Rightarrow> letters)"

fun column_index_from :: "int \<Rightarrow> string \<Rightarrow> int" where
  "column_index_from index [] = index"
| "column_index_from index (c # cs) = column_index_from (index * 26 + (int (byte c) - 65 + 1)) cs"

definition column_index :: "string \<Rightarrow> int" where
  "column_index letters = column_index_from 0 letters"

section \<open>Decoded documents\<close>

text \<open>
  \<open>xml.Unmarshal\<close> into a struct with the root's name and one list of elements: the attributes of the
  elements below the root whose path of local names is \<open>path\<close>, innermost first. It reads up to the end
  of the root element.
\<close>

fun xml_items :: "string list \<Rightarrow> string list \<Rightarrow> xml_event list \<Rightarrow> xml_attrs list option" where
  "xml_items path stack [] = None"
| "xml_items path stack (e # es) =
     (case xe_token e of
        StartElement n attrs \<Rightarrow>
          (let stack' = xn_local n # stack in
           map_option (\<lambda>r. if stack' = path then attrs # r else r) (xml_items path stack' es))
      | EndElement _ \<Rightarrow> (case stack of [] \<Rightarrow> Some [] | _ # rest \<Rightarrow> xml_items path rest es)
      | _ \<Rightarrow> xml_items path stack es)"

fun xml_root :: "xml_event list \<Rightarrow> (xml_name \<times> xml_event list) option" where
  "xml_root [] = None"
| "xml_root (e # es) = (case xe_token e of StartElement n _ \<Rightarrow> Some (n, es) | _ \<Rightarrow> xml_root es)"

definition xml_unmarshal :: "decoder \<Rightarrow> string list \<Rightarrow> string \<Rightarrow> xlsx_error + xml_name \<times> xml_attrs list" where
  "xml_unmarshal dec path data =
     (case xml_root (fst (dec data)) of None \<Rightarrow> Inl MalformedXML
      | Some (n, es) \<Rightarrow> (case xml_items path [] es of None \<Rightarrow> Inl MalformedXML | Some items \<Rightarrow> Inr (n, items)))"

text \<open>A struct field for an attribute takes the last attribute with its local name.\<close>

definition attr_field :: "xml_attrs \<Rightarrow> string \<Rightarrow> string" where
  "attr_field attrs name = xml_attribute (rev attrs) name"

text \<open>\<open>url.PathUnescape\<close>.\<close>

definition hex_value :: "char \<Rightarrow> nat" where
  "hex_value c = (if is_digit c then byte c - 48 else if 97 \<le> byte c then byte c - 87 else byte c - 55)"

fun path_unescape :: "string \<Rightarrow> string option" where
  "path_unescape [] = Some []"
| "path_unescape (c # s) =
     (if c \<noteq> CHR ''%'' then map_option ((#) c) (path_unescape s)
      else (case s of
              a # b # r \<Rightarrow> if is_hex a \<and> is_hex b
                then map_option ((#) (char_of (16 * hex_value a + hex_value b))) (path_unescape r) else None
            | _ \<Rightarrow> None))"

section \<open>Relationships\<close>

definition has_special :: "string \<Rightarrow> bool" where
  "has_special target \<longleftrightarrow> list_ex (\<lambda>c. c \<in> {CHR 0x5C, CHR ''?'', CHR ''#''}) target"

fun check_relations :: "zip_file list \<Rightarrow> string \<Rightarrow> string list \<Rightarrow> xml_attrs list \<Rightarrow> xlsx_error + unit" where
  "check_relations files base seen [] = Inr ()"
| "check_relations files base seen (rel # rels) =
     (let id = attr_field rel ''Id''; mode = attr_field rel ''TargetMode''; raw = attr_field rel ''Target'' in
      if id = '''' \<or> attr_field rel ''Type'' = '''' \<or> raw = '''' \<or> id \<in> set seen then Inl MalformedRelationships
      else if mode = ''External'' then check_relations files base (id # seen) rels
      else if mode \<noteq> '''' then Inl MalformedRelationships
      else (case path_unescape raw of None \<Rightarrow> Inl UnsafeTarget
        | Some target \<Rightarrow>
            if has_special target then Inl UnsafeTarget
            else
              let rooted = prefix ''/'' target;
                  resolved = path_clean (path_join (if rooted then '''' else base) (trim_prefix ''/'' target))
              in if resolved = ''.'' \<or> resolved = ''..'' \<or> prefix ''../'' resolved
                    \<or> (case zip_lookup files resolved of None \<Rightarrow> True | Some f \<Rightarrow> zf_dir f)
                 then Inl UnsafeTarget else check_relations files base (id # seen) rels))"

definition relationship_base :: "string \<Rightarrow> xlsx_error + string" where
  "relationship_base name =
     (if name = ''_rels/.rels'' then Inr ''''
      else if \<not> contains name ''/_rels/'' then Inl MalformedRelationships
      else Inr (path_dir (trim_suffix ''.rels'' (replace_first ''/_rels/'' ''/'' name))))"

definition relationships_of :: "decoder \<Rightarrow> string \<Rightarrow> xlsx_error + xml_attrs list" where
  "relationships_of dec data =
     rbind (xml_unmarshal dec [''Relationship''] data) (\<lambda>(root, items).
       if xn_space root \<noteq> package_rels_ns \<or> xn_local root \<noteq> ''Relationships'' then Inl MalformedRelationships
       else Inr items)"

definition validate_relationships :: "decoder \<Rightarrow> zip_file list \<Rightarrow> xlsx_error + unit" where
  "validate_relationships dec files =
     rbind (traverse (\<lambda>f.
         if \<not> suffix ''.rels'' (zf_name f) then Inr ()
         else rbind (read_part f) (\<lambda>data. rbind (relationships_of dec data) (\<lambda>items.
           rbind (relationship_base (zf_name f)) (\<lambda>base. check_relations files base [] items)))) files)
       (\<lambda>_. Inr ())"

section \<open>Worksheets of the workbook\<close>

definition read_named :: "zip_file list \<Rightarrow> string \<Rightarrow> xlsx_error + string" where
  "read_named files name = (case zip_lookup files name of None \<Rightarrow> Inl (MissingPart name) | Some f \<Rightarrow> read_part f)"

definition check_content_types :: "decoder \<Rightarrow> zip_file list \<Rightarrow> xlsx_error + unit" where
  "check_content_types dec files =
     rbind (read_named files ''[Content_Types].xml'') (\<lambda>data.
     rbind (xml_unmarshal dec [''Override''] data) (\<lambda>(root, parts).
       if xn_space root \<noteq> content_types_ns \<or> xn_local root \<noteq> ''Types'' then Inl ContentTypes
       else if list_ex (\<lambda>a. contains (attr_field a ''ContentType'') ''macroEnabled'') parts then Inl MacroOrEncrypted
       else if list_ex (\<lambda>a. attr_field a ''PartName'' = ''/xl/workbook.xml'' \<and> attr_field a ''ContentType''
            = ''application/vnd.openxmlformats-officedocument.spreadsheetml.sheet.main+xml'') parts
       then Inr () else Inl ContentTypes))"

definition check_package_root :: "decoder \<Rightarrow> zip_file list \<Rightarrow> xlsx_error + unit" where
  "check_package_root dec files =
     rbind (read_named files ''_rels/.rels'') (\<lambda>data. rbind (relationships_of dec data) (\<lambda>items.
       if list_ex (\<lambda>a. suffix ''/officeDocument'' (attr_field a ''Type'') \<and> attr_field a ''TargetMode'' = ''''
            \<and> (attr_field a ''Target'' = ''xl/workbook.xml'' \<or> attr_field a ''Target'' = ''/xl/workbook.xml'')) items
       then Inr () else Inl NoWorkbookRelationship))"

text \<open>The map from relationship ids to worksheet names, newest first.\<close>

fun worksheet_targets ::
  "zip_file list \<Rightarrow> string list \<Rightarrow> (string \<times> string) list \<Rightarrow> xml_attrs list \<Rightarrow> xlsx_error + (string \<times> string) list" where
  "worksheet_targets files seen by_id [] = Inr by_id"
| "worksheet_targets files seen by_id (rel # rels) =
     (let id = attr_field rel ''Id'' in
      if id = '''' \<or> id \<in> set seen then Inl UnsafeWorksheet
      else if \<not> suffix ''/worksheet'' (attr_field rel ''Type'') then worksheet_targets files (id # seen) by_id rels
      else (case path_unescape (attr_field rel ''Target'') of None \<Rightarrow> Inl UnsafeWorksheet
        | Some target \<Rightarrow>
            if attr_field rel ''TargetMode'' \<noteq> '''' \<or> target = '''' \<or> has_special target
               \<or> contains (''/'' @ target @ ''/'') ''/../'' then Inl UnsafeWorksheet
            else
              let member = trim_prefix ''/'' target in
              if path_clean member \<noteq> member then Inl UnsafeWorksheet
              else
                let name = (if prefix ''/'' target then member else path_join ''xl'' member) in
                if \<not> prefix ''xl/worksheets/'' name \<or> zip_lookup files name = None then Inl UnsafeWorksheet
                else worksheet_targets files (id # seen) ((id, name) # by_id) rels))"

definition sheet_paths :: "decoder \<Rightarrow> zip_file list \<Rightarrow> xlsx_error + string list" where
  "sheet_paths dec files =
     rbind (check_content_types dec files) (\<lambda>_.
     rbind (check_package_root dec files) (\<lambda>_.
     rbind (read_named files ''xl/workbook.xml'') (\<lambda>workbook.
     rbind (read_named files ''xl/_rels/workbook.xml.rels'') (\<lambda>relations.
     rbind (xml_unmarshal dec [''sheet'', ''sheets''] workbook) (\<lambda>(root, sheets).
       if xn_space root \<noteq> spreadsheet_ns \<or> xn_local root \<noteq> ''workbook'' then Inl WorksheetRoot
       else rbind (relationships_of dec relations) (\<lambda>rels.
         rbind (worksheet_targets files [] [] rels) (\<lambda>by_id.
           if sheets = [] then Inl NoWorksheets
           else traverse (\<lambda>s. case map_of by_id (attr_field s ''id'') of
                   None \<Rightarrow> Inl UnsafeWorksheet
                 | Some name \<Rightarrow> if name = '''' then Inl UnsafeWorksheet else Inr name) sheets)))))))"

section \<open>Shared strings and number formats\<close>

record string_state =
  ss_root :: bool
  ss_in_string :: bool
  ss_in_text :: bool
  ss_in_phonetic :: bool
  ss_text :: string
  ss_result :: "string list"

definition string_start :: "xml_name \<Rightarrow> string_state \<Rightarrow> xlsx_error + string_state" where
  "string_start n st =
     (if \<not> ss_root st \<and> (xn_space n \<noteq> spreadsheet_ns \<or> xn_local n \<noteq> ''sst'') then Inl MalformedXML
      else
        let st1 = st\<lparr>ss_root := True\<rparr>;
            st2 = (if xn_local n = ''si'' then st1\<lparr>ss_in_string := True, ss_text := ''''\<rparr> else st1);
            st3 = (if ss_in_string st2 \<and> xn_local n = ''rPh'' then st2\<lparr>ss_in_phonetic := True\<rparr> else st2)
        in Inr (if ss_in_string st3 \<and> \<not> ss_in_phonetic st3 \<and> xn_local n = ''t''
                then st3\<lparr>ss_in_text := True\<rparr> else st3))"

definition string_end :: "string \<Rightarrow> string_state \<Rightarrow> string_state" where
  "string_end name st =
     (if name = ''t'' then st\<lparr>ss_in_text := False\<rparr>
      else if name = ''rPh'' then st\<lparr>ss_in_phonetic := False\<rparr>
      else if name = ''si'' then st\<lparr>ss_result := ss_result st @ [ss_text st], ss_in_string := False\<rparr>
      else st)"

fun string_events :: "string_state \<Rightarrow> xml_event list \<Rightarrow> xlsx_error + string_state" where
  "string_events st [] = Inr st"
| "string_events st (e # es) =
     (case xe_token e of
        StartElement n _ \<Rightarrow> rbind (string_start n st) (\<lambda>st'. string_events st' es)
      | CharData text \<Rightarrow>
          string_events (if ss_in_text st then st\<lparr>ss_text := ss_text st @ text\<rparr> else st) es
      | EndElement name \<Rightarrow> string_events (string_end name st) es
      | OtherToken \<Rightarrow> string_events st es)"

definition shared_strings :: "decoder \<Rightarrow> zip_file list \<Rightarrow> xlsx_error + string list" where
  "shared_strings dec files =
     (case zip_lookup files ''xl/sharedStrings.xml'' of None \<Rightarrow> Inr []
      | Some f \<Rightarrow> rbind (read_part f) (\<lambda>data.
          rbind (string_events \<lparr>ss_root = False, ss_in_string = False, ss_in_text = False,
              ss_in_phonetic = False, ss_text = '''', ss_result = []\<rparr> (fst (dec data))) (\<lambda>st.
            if \<not> snd (dec data) \<or> \<not> ss_root st then Inl MalformedXML else Inr (ss_result st))))"

text \<open>The value \<open>strconv.Atoi\<close> returns next to an ignored error: 0, or the nearest bound when out of range.\<close>

definition atoi_value :: "string \<Rightarrow> int" where
  "atoi_value s =
     (case atoi s of Some v \<Rightarrow> v
      | None \<Rightarrow>
          let ds = (case s of c # cs \<Rightarrow> if c = CHR ''-'' \<or> c = CHR ''+'' then cs else s | [] \<Rightarrow> [])
          in if ds = [] \<or> \<not> list_all is_digit ds then 0
             else if prefix ''-'' s then - (2 ^ 63) else 2 ^ 63 - 1)"

record style_state =
  st_root :: bool
  st_in_xfs :: bool
  st_formats :: "string list"
  st_custom :: "int \<rightharpoonup> string"

definition style_start :: "xml_name \<Rightarrow> xml_attrs \<Rightarrow> style_state \<Rightarrow> xlsx_error + style_state" where
  "style_start n attrs st =
     (if \<not> st_root st \<and> (xn_space n \<noteq> spreadsheet_ns \<or> xn_local n \<noteq> ''styleSheet'') then Inl MalformedXML
      else
        let st1 = st\<lparr>st_root := True\<rparr> in
        Inr (if xn_local n = ''cellXfs'' then st1\<lparr>st_in_xfs := True\<rparr>
             else if xn_local n = ''numFmt'' then
               st1\<lparr>st_custom := (st_custom st1)
                 (atoi_value (xml_attribute attrs ''numFmtId'') \<mapsto> xml_attribute attrs ''formatCode'')\<rparr>
             else if xn_local n = ''xf'' \<and> st_in_xfs st1 then
               st1\<lparr>st_formats := st_formats st1 @ [xml_attribute attrs ''numFmtId'']\<rparr>
             else st1))"

fun style_events :: "style_state \<Rightarrow> xml_event list \<Rightarrow> xlsx_error + style_state" where
  "style_events st [] = Inr st"
| "style_events st (e # es) =
     (case xe_token e of
        StartElement n attrs \<Rightarrow> rbind (style_start n attrs st) (\<lambda>st'. style_events st' es)
      | EndElement name \<Rightarrow> style_events (if name = ''cellXfs'' then st\<lparr>st_in_xfs := False\<rparr> else st) es
      | _ \<Rightarrow> style_events st es)"

definition number_formats :: "decoder \<Rightarrow> zip_file list \<Rightarrow> xlsx_error + string list \<times> (int \<rightharpoonup> string)" where
  "number_formats dec files =
     (case zip_lookup files ''xl/styles.xml'' of None \<Rightarrow> Inr ([], Map.empty)
      | Some f \<Rightarrow> rbind (read_part f) (\<lambda>data.
          rbind (style_events \<lparr>st_root = False, st_in_xfs = False, st_formats = [], st_custom = Map.empty\<rparr>
              (fst (dec data))) (\<lambda>st.
            if \<not> snd (dec data) \<or> \<not> st_root st then Inl MalformedXML else Inr (st_formats st, st_custom st))))"

section \<open>Walking a worksheet\<close>

record cell =
  cl_ref :: string
  cl_column :: string
  cl_type :: string
  cl_style :: string
  cl_value :: string
  cl_start :: nat
  cl_end :: nat
  cl_formula :: bool

record walk_state =
  wk_root :: bool
  wk_row :: int
  wk_last_row :: int
  wk_cells :: "cell list"
  wk_current :: "cell option"
  wk_in_value :: bool
  wk_in_text :: bool

definition walk_init :: walk_state where
  "walk_init = \<lparr>wk_root = False, wk_row = 0, wk_last_row = 0, wk_cells = [], wk_current = None,
     wk_in_value = False, wk_in_text = False\<rparr>"

definition walk_start :: "nat \<Rightarrow> xml_name \<Rightarrow> xml_attrs \<Rightarrow> walk_state \<Rightarrow> xlsx_error + walk_state" where
  "walk_start start n attrs wk =
     (if \<not> wk_root wk \<and> (xn_space n \<noteq> spreadsheet_ns \<or> xn_local n \<noteq> ''worksheet'') then Inl WorksheetRoot
      else
        let wk1 = wk\<lparr>wk_root := True\<rparr>; name = xn_local n in
        if name = ''row'' then
          (case atoi (xml_attribute attrs ''r'') of None \<Rightarrow> Inl RowNumber
           | Some r \<Rightarrow>
               if r < 1 \<or> r > 1048576 \<or> r \<le> wk_last_row wk1 then Inl RowNumber
               else Inr (wk1\<lparr>wk_row := r, wk_last_row := r, wk_cells := []\<rparr>))
        else if name = ''c'' then
          (let ref = xml_attribute attrs ''r'' in
           case cell_reference ref of None \<Rightarrow> Inl CellReference
           | Some (letters, digits) \<Rightarrow>
               if length letters > 3 \<or> column_index letters > 16384 \<or> digits \<noteq> itoa (wk_row wk1) then Inl CellReference
               else Inr (wk1\<lparr>wk_current := Some \<lparr>cl_ref = ref, cl_column = letters,
                 cl_type = xml_attribute attrs ''t'', cl_style = xml_attribute attrs ''s'', cl_value = '''',
                 cl_start = start, cl_end = 0, cl_formula = False\<rparr>\<rparr>))
        else if name = ''v'' then Inr (if wk_current wk1 \<noteq> None then wk1\<lparr>wk_in_value := True\<rparr> else wk1)
        else if name = ''t'' then
          Inr (case wk_current wk1 of None \<Rightarrow> wk1
               | Some c \<Rightarrow> if cl_type c = ''inlineStr'' then wk1\<lparr>wk_in_text := True\<rparr> else wk1)
        else if name = ''f'' then
          Inr (wk1\<lparr>wk_current := map_option (\<lambda>c. c\<lparr>cl_formula := True\<rparr>) (wk_current wk1)\<rparr>)
        else Inr wk1)"

definition walk_text :: "string \<Rightarrow> walk_state \<Rightarrow> walk_state" where
  "walk_text text wk =
     (if wk_in_value wk \<or> wk_in_text wk
      then wk\<lparr>wk_current := map_option (\<lambda>c. c\<lparr>cl_value := cl_value c @ text\<rparr>) (wk_current wk)\<rparr> else wk)"

text \<open>An end element; only the end of a row calls the visitor, with the row, its cells and the offset.\<close>

definition walk_end ::
  "(int \<Rightarrow> cell list \<Rightarrow> nat \<Rightarrow> 's \<Rightarrow> xlsx_error + 's) \<Rightarrow> nat \<Rightarrow> nat \<Rightarrow> string \<Rightarrow> walk_state \<times> 's
     \<Rightarrow> xlsx_error + walk_state \<times> 's" where
  "walk_end visit start fin name = (\<lambda>(wk, s).
     if name = ''v'' then Inr (wk\<lparr>wk_in_value := False\<rparr>, s)
     else if name = ''t'' then Inr (wk\<lparr>wk_in_text := False\<rparr>, s)
     else if name = ''c'' then
       Inr (case wk_current wk of None \<Rightarrow> wk
            | Some c \<Rightarrow> wk\<lparr>wk_cells := wk_cells wk @ [c\<lparr>cl_end := fin\<rparr>], wk_current := None\<rparr>, s)
     else if name = ''row'' then
       (if \<not> distinct (map cl_ref (wk_cells wk)) then Inl DuplicateCell
        else rbind (visit (wk_row wk) (wk_cells wk) start s) (\<lambda>s'. Inr (wk, s')))
     else Inr (wk, s))"

definition walk_event ::
  "(int \<Rightarrow> cell list \<Rightarrow> nat \<Rightarrow> 's \<Rightarrow> xlsx_error + 's) \<Rightarrow> xml_event \<Rightarrow> walk_state \<Rightarrow> 's
     \<Rightarrow> xlsx_error + walk_state \<times> 's" where
  "walk_event visit e wk s =
     (case xe_token e of
        StartElement n attrs \<Rightarrow> rbind (walk_start (xe_start e) n attrs wk) (\<lambda>wk'. Inr (wk', s))
      | CharData text \<Rightarrow> Inr (walk_text text wk, s)
      | EndElement name \<Rightarrow> walk_end visit (xe_start e) (xe_end e) name (wk, s)
      | OtherToken \<Rightarrow> Inr (wk, s))"

fun walk_events ::
  "(int \<Rightarrow> cell list \<Rightarrow> nat \<Rightarrow> 's \<Rightarrow> xlsx_error + 's) \<Rightarrow> xml_event list \<Rightarrow> walk_state \<times> 's
     \<Rightarrow> xlsx_error + walk_state \<times> 's" where
  "walk_events visit [] w = Inr w"
| "walk_events visit (e # es) w = rbind (walk_event visit e (fst w) (snd w)) (walk_events visit es)"

definition walk_sheet ::
  "decoder \<Rightarrow> string \<Rightarrow> (int \<Rightarrow> cell list \<Rightarrow> nat \<Rightarrow> 's \<Rightarrow> xlsx_error + 's) \<Rightarrow> 's \<Rightarrow> xlsx_error + 's" where
  "walk_sheet dec data visit s =
     rbind (walk_events visit (fst (dec data)) (walk_init, s)) (\<lambda>(wk, s').
       if \<not> snd (dec data) then Inl MalformedXML else if \<not> wk_root wk then Inl WorksheetRoot else Inr s')"

section \<open>Cell values\<close>

definition text_value :: "cell \<Rightarrow> string list \<Rightarrow> xlsx_error + string" where
  "text_value c shared =
     (if cl_type c \<noteq> ''s'' then Inr (cl_value c)
      else (case atoi (trim_space (cl_value c)) of None \<Rightarrow> Inl SharedStringIndex
        | Some i \<Rightarrow> if i < 0 \<or> i \<ge> int (length shared) then Inl SharedStringIndex else Inr (shared ! nat i)))"

definition integer_value :: "string \<Rightarrow> bool" where
  "integer_value s \<longleftrightarrow> s \<noteq> [] \<and> length s \<le> 15 \<and> list_all is_digit s"

definition account_digits :: "string \<Rightarrow> string" where
  "account_digits s = (let d = trim_left_byte (CHR ''0'') s in if d = '''' then ''0'' else d)"

definition account_format :: "cell \<Rightarrow> string list \<Rightarrow> (int \<rightharpoonup> string) \<Rightarrow> xlsx_error + string" where
  "account_format c formats custom =
     rbind (if cl_style c = '''' then Inr 0
            else (case atoi (cl_style c) of None \<Rightarrow> Inl CellStyle | Some i \<Rightarrow> if i < 0 then Inl CellStyle else Inr i))
       (\<lambda>style.
         if style \<ge> int (length formats) \<and> cl_style c \<noteq> '''' then Inl MissingFormat
         else Inr (if style < int (length formats) then
                     (let id = atoi_value (formats ! nat style) in
                      if id = 0 then ''General'' else if id = 1 then ''0''
                      else (case custom id of None \<Rightarrow> '''' | Some f \<Rightarrow> f))
                   else ''General''))"

definition account_value :: "cell \<Rightarrow> string list \<Rightarrow> string list \<Rightarrow> (int \<rightharpoonup> string) \<Rightarrow> xlsx_error + string" where
  "account_value c shared formats custom =
     (if cl_formula c then Inl FormulaAccount
      else if cl_type c \<in> {''s'', ''inlineStr'', ''str''} then rbind (text_value c shared) (\<lambda>t. Inr (trim_space t))
      else if cl_type c \<noteq> '''' \<and> cl_type c \<noteq> ''n'' then Inl AccountType
      else if \<not> integer_value (cl_value c) then Inl AmbiguousNumber
      else
        let digits = account_digits (cl_value c) in
        rbind (account_format c formats custom) (\<lambda>format.
          if format = ''General'' then Inr digits
          else if format = '''' \<or> \<not> list_all (\<lambda>x. x = CHR ''0'') format then Inl AmbiguousFormat
          else Inr (replicate (length format - length digits) (CHR ''0'') @ digits)))"

section \<open>Inspect\<close>

record sheet_row =
  sr_number :: int
  sr_account :: string

record workbook =
  wb_sheet :: string
  wb_header_row :: int
  wb_account_column :: string
  wb_balance_column :: string
  wb_rate_column :: string
  wb_rows :: "sheet_row list"

definition empty_workbook :: workbook where
  "empty_workbook = \<lparr>wb_sheet = '''', wb_header_row = 0, wb_account_column = '''', wb_balance_column = '''',
     wb_rate_column = '''', wb_rows = []\<rparr>"

definition bom :: string where
  "bom = [CHR 0xEF, CHR 0xBB, CHR 0xBF]"

definition header_text :: "(string \<Rightarrow> string) \<Rightarrow> string \<Rightarrow> string" where
  "header_text uni text = to_lower uni (trim_space (trim_prefix bom (trim_space text)))"

text \<open>The headers found in a row so far, newest first, and whether one of them occurred twice.\<close>

fun collect_headers ::
  "(string \<Rightarrow> string) \<Rightarrow> string list \<Rightarrow> (string \<times> string) list \<times> bool \<Rightarrow> cell list
     \<Rightarrow> xlsx_error + (string \<times> string) list \<times> bool"
where
  "collect_headers uni shared h [] = Inr h"
| "collect_headers uni shared (headers, dup) (c # cs) =
     (case text_value c shared of Inl e \<Rightarrow> Inl e
      | Inr t \<Rightarrow>
          let text = header_text uni t in
          if text \<in> {''nomorekeningfasilitas'', ''bakidebet'', ''sukubungaimbalan''}
          then collect_headers uni shared
                 ((text, cl_column c) # headers,
                  dup \<or> (case map_of headers text of None \<Rightarrow> False | Some col \<Rightarrow> col \<noteq> '''')) cs
          else collect_headers uni shared (headers, dup) cs)"

definition visit_header ::
  "(string \<Rightarrow> string) \<Rightarrow> string list \<Rightarrow> string \<Rightarrow> int \<Rightarrow> cell list \<Rightarrow> nat \<Rightarrow> workbook \<Rightarrow> xlsx_error + workbook" where
  "visit_header uni shared name row cells row_end candidate =
     rbind (collect_headers uni shared ([], False) cells) (\<lambda>(headers, dup).
       case (map_of headers ''nomorekeningfasilitas'', map_of headers ''bakidebet'', map_of headers ''sukubungaimbalan'') of
         (Some account, Some balance, Some rate) \<Rightarrow>
           if dup then Inl DuplicateHeader
           else if wb_header_row candidate \<noteq> 0 then Inl MultipleHeaderRows
           else Inr \<lparr>wb_sheet = name, wb_header_row = row, wb_account_column = account,
                     wb_balance_column = balance, wb_rate_column = rate, wb_rows = []\<rparr>
       | _ \<Rightarrow> Inr candidate)"

fun select_sheet ::
  "decoder \<Rightarrow> (string \<Rightarrow> string) \<Rightarrow> zip_file list \<Rightarrow> string list \<Rightarrow> workbook \<Rightarrow> string list \<Rightarrow> xlsx_error + workbook" where
  "select_sheet dec uni files shared selected [] = Inr selected"
| "select_sheet dec uni files shared selected (name # names) =
     rbind (read_named files name) (\<lambda>data.
     rbind (walk_sheet dec data (visit_header uni shared name) empty_workbook) (\<lambda>candidate.
       if wb_header_row candidate = 0 then select_sheet dec uni files shared selected names
       else if wb_header_row selected \<noteq> 0 then Inl MultipleSheets
       else select_sheet dec uni files shared candidate names))"

definition supported_target :: "cell \<Rightarrow> bool" where
  "supported_target c \<longleftrightarrow> \<not> cl_formula c \<and> cl_type c \<in> {'''', ''n'', ''s'', ''str'', ''inlineStr''}"

definition visit_row ::
  "workbook \<Rightarrow> string list \<Rightarrow> string list \<Rightarrow> (int \<rightharpoonup> string) \<Rightarrow> int \<Rightarrow> cell list \<Rightarrow> nat \<Rightarrow> sheet_row list
     \<Rightarrow> xlsx_error + sheet_row list" where
  "visit_row wb shared formats custom row cells row_end rows =
     (if row \<le> wb_header_row wb then Inr rows
      else rbind (case find (\<lambda>c. cl_column c = wb_account_column wb) cells of
                    None \<Rightarrow> Inr '''' | Some c \<Rightarrow> account_value c shared formats custom) (\<lambda>account.
        if account = '''' then Inr rows
        else if list_ex (\<lambda>c. (cl_column c = wb_balance_column wb \<or> cl_column c = wb_rate_column wb)
                \<and> \<not> supported_target c) cells then Inl UnsupportedTarget
        else Inr (rows @ [\<lparr>sr_number = row, sr_account = account\<rparr>])))"

text \<open>The scan of every member: XML parts are decoded, all sizes are counted as they are read.\<close>

fun scan_members :: "decoder \<Rightarrow> int \<Rightarrow> zip_file list \<Rightarrow> xlsx_error + unit" where
  "scan_members dec scanned [] = Inr ()"
| "scan_members dec scanned (f # fs) =
     (let n = min (int (length (zf_data f))) (uint max_member + 1);
          scanned' = scanned + n;
          xml = suffix ''.xml'' (zf_name f) \<or> suffix ''.rels'' (zf_name f)
      in if n = uint max_member + 1 \<or> scanned' > uint max_uncompressed then Inl ExpandsBeyondLimit
         else if xml \<and> \<not> snd (dec (zf_data f)) then Inl MalformedXML
         else scan_members dec scanned' fs)"

definition inspect ::
  "decoder \<Rightarrow> (string \<Rightarrow> string) \<Rightarrow> string \<Rightarrow> zip_file list \<Rightarrow> xlsx_error + workbook" where
  "inspect dec uni original files =
     (if \<not> equal_fold (path_ext original) ''.xlsx'' then Inl OnlyXlsx
      else rbind (open_workbook uni files) (\<lambda>_.
        rbind (validate_relationships dec files) (\<lambda>_.
        rbind (scan_members dec 0 files) (\<lambda>_.
        rbind (sheet_paths dec files) (\<lambda>paths.
        rbind (shared_strings dec files) (\<lambda>shared.
        rbind (number_formats dec files) (\<lambda>(formats, custom).
        rbind (select_sheet dec uni files shared empty_workbook paths) (\<lambda>selected.
          if wb_header_row selected = 0 then Inl NoHeaders
          else rbind (read_named files (wb_sheet selected)) (\<lambda>data.
            rbind (walk_sheet dec data (visit_row selected shared formats custom) []) (\<lambda>rows.
              if rows = [] then Inl NoRows else Inr (selected\<lparr>wb_rows := rows\<rparr>)))))))))))"

section \<open>Patching\<close>

text \<open>The bytes a regular expression's \<open>\\s\<close> matches.\<close>

definition is_re_space :: "char \<Rightarrow> bool" where
  "is_re_space c \<longleftrightarrow> byte c \<in> {9, 10, 12, 13, 32}"

text \<open>The shortest text up to and including \<open>close\<close>, as a length.\<close>

fun upto_close :: "string \<Rightarrow> string \<Rightarrow> nat option" where
  "upto_close close [] = (if close = [] then Some 0 else None)"
| "upto_close close (c # s) =
     (if prefix close (c # s) then Some (length close) else map_option Suc (upto_close close s))"

text \<open>
  A match of \<open>valueElement\<close> or \<open>inlineElement\<close> (\<open>el\<close> is \<open>v\<close> or \<open>is\<close>) at the start of a text, as its length: a start tag,
  with attributes up to the first closing bracket or none, and the text to the first end tag, or a
  self-closing tag.
\<close>

definition element_match :: "string \<Rightarrow> string \<Rightarrow> nat option" where
  "element_match el s =
     (let head = CHR ''<'' # el; close = ''</'' @ el @ ''>'' in
      if \<not> prefix head s then None
      else
        let r = drop (length head) s;
            body = (\<lambda>k. map_option (\<lambda>n. length head + k + 1 + n) (upto_close close (drop (k + 1) r)));
            k = length (takeWhile (\<lambda>c. c \<noteq> CHR ''>'') r);
            with_attrs =
              (if r \<noteq> [] \<and> is_re_space (hd r) \<and> k < length r then
                 (case body k of Some n \<Rightarrow> Some n
                  | None \<Rightarrow> if 2 \<le> k \<and> r ! (k - 1) = CHR ''/'' then Some (length head + k + 1) else None)
               else None)
        in case with_attrs of Some n \<Rightarrow> Some n
           | None \<Rightarrow> if prefix ''/>'' r then Some (length head + 2)
                     else if prefix ''>'' r then body 0 else None)"

lemma element_match_pos: "element_match el s = Some n \<Longrightarrow> 0 < n"
  by (auto simp: element_match_def Let_def split: if_split_asm option.split_asm)

definition has_element :: "string \<Rightarrow> string \<Rightarrow> bool" where
  "has_element el s \<longleftrightarrow> list_ex (\<lambda>i. element_match el (drop i s) \<noteq> None) [0..<Suc (length s)]"

text \<open>\<open>ReplaceAllString\<close>; the replacement holds no dollar sign, since amounts are decimal numbers.\<close>

function replace_elements :: "string \<Rightarrow> string \<Rightarrow> string \<Rightarrow> string" where
  "replace_elements el new s =
     (case s of [] \<Rightarrow> []
      | c # r \<Rightarrow> (case element_match el s of
                    Some n \<Rightarrow> new @ replace_elements el new (drop n s)
                  | None \<Rightarrow> c # replace_elements el new r))"
  by pat_completeness auto
termination
  by (relation "measure (\<lambda>(el, new, s). length s)") (auto dest: element_match_pos)

declare replace_elements.simps [simp del]

text \<open>A match of \<open>typeAttribute\<close> at the start of a text, and the replacement of all of them.\<close>

definition type_match :: "string \<Rightarrow> nat option" where
  "type_match s =
     (let ws = length (takeWhile is_re_space s); r = drop ws s in
      if ws = 0 \<or> \<not> prefix ''t='' r then None
      else
        let q = drop 2 r in
        (case q of [] \<Rightarrow> None
         | d # rest \<Rightarrow>
             if d \<noteq> CHR 0x22 \<and> d \<noteq> CHR 0x27 then None
             else
               let k = length (takeWhile (\<lambda>c. c \<noteq> d) rest)
               in if k < length rest then Some (ws + 2 + 1 + k + 1) else None))"

lemma type_match_pos: "type_match s = Some n \<Longrightarrow> 0 < n"
  by (auto simp: type_match_def Let_def split: if_split_asm list.split_asm)

function replace_types :: "string \<Rightarrow> string \<Rightarrow> string" where
  "replace_types new s =
     (case s of [] \<Rightarrow> []
      | c # r \<Rightarrow> (case type_match s of
                    Some n \<Rightarrow> new @ replace_types new (drop n s)
                  | None \<Rightarrow> c # replace_types new r))"
  by pat_completeness auto
termination
  by (relation "measure (\<lambda>(new, s). length s)") (auto dest: type_match_pos)

declare replace_types.simps [simp del]

definition type_inline :: string where
  "type_inline = '' t='' @ [CHR 0x22] @ ''inlineStr'' @ [CHR 0x22]"

definition patch_cell :: "string \<Rightarrow> cell \<Rightarrow> string \<Rightarrow> xlsx_error + string" where
  "patch_cell data c amount =
     (if cl_formula c then Inl TargetFormula
      else
        let raw0 = drop (cl_start c) (take (cl_end c) data);
            raw = (if suffix ''/>'' raw0 then trim_suffix ''/>'' raw0 @ ''></c>'' else raw0)
        in if cl_type c \<in> {''s'', ''inlineStr'', ''str''} then
             let e = length (takeWhile (\<lambda>x. x \<noteq> CHR ''>'') raw);
                 raw2 = (if cl_type c = ''inlineStr'' then raw else replace_types type_inline (take e raw) @ drop e raw);
                 new = ''<is><t>'' @ amount @ ''</t></is>''
             in Inr (if has_element ''is'' raw2 then replace_elements ''is'' new raw2
                     else if has_element ''v'' raw2 then replace_elements ''v'' new raw2
                     else replace_first ''</c>'' (new @ ''</c>'') raw2)
           else if cl_type c \<noteq> '''' \<and> cl_type c \<noteq> ''n'' then Inl TargetType
           else
             let new = ''<v>'' @ amount @ ''</v>''
             in Inr (if has_element ''v'' raw then replace_elements ''v'' new raw
                     else replace_first ''</c>'' (new @ ''</c>'') raw))"

record replacement =
  rp_start :: nat
  rp_end :: nat
  rp_data :: string

definition new_cell :: "string \<Rightarrow> int \<Rightarrow> string \<Rightarrow> string" where
  "new_cell col row amount =
     ''<c r='' @ [CHR 0x22] @ col @ itoa row @ [CHR 0x22] @ ''><v>'' @ amount @ ''</v></c>''"

definition insert_position :: "cell list \<Rightarrow> string \<Rightarrow> nat \<Rightarrow> nat" where
  "insert_position cells col row_end =
     (case find (\<lambda>c. column_index (cl_column c) > column_index col) cells of None \<Rightarrow> row_end | Some c \<Rightarrow> cl_start c)"

definition target_change ::
  "string \<Rightarrow> int \<Rightarrow> cell list \<Rightarrow> nat \<Rightarrow> string \<times> string \<Rightarrow> xlsx_error + replacement" where
  "target_change data row cells row_end = (\<lambda>(col, amount).
     case find (\<lambda>c. cl_column c = col) cells of
       Some c \<Rightarrow> rbind (patch_cell data c amount) (\<lambda>patched.
         Inr \<lparr>rp_start = cl_start c, rp_end = cl_end c, rp_data = patched\<rparr>)
     | None \<Rightarrow>
         let p = insert_position cells col row_end
         in Inr \<lparr>rp_start = p, rp_end = p, rp_data = new_cell col row amount\<rparr>)"

definition row_targets :: "workbook \<Rightarrow> slik_values \<Rightarrow> (string \<times> string) list" where
  "row_targets wb v =
     sort_key (\<lambda>(col, _). column_index col)
       [(wb_balance_column wb, sv_balance v), (wb_rate_column wb, sv_rate v)]"

text \<open>The map from row numbers to accounts: the last row with a number counts.\<close>

definition account_of_row :: "workbook \<Rightarrow> int \<Rightarrow> string" where
  "account_of_row wb row =
     (case find (\<lambda>r. sr_number r = row) (rev (wb_rows wb)) of None \<Rightarrow> '''' | Some r \<Rightarrow> sr_account r)"

definition visit_patch ::
  "string \<Rightarrow> workbook \<Rightarrow> (string \<rightharpoonup> slik_values) \<Rightarrow> int \<Rightarrow> cell list \<Rightarrow> nat \<Rightarrow> replacement list
     \<Rightarrow> xlsx_error + replacement list" where
  "visit_patch data wb results row cells row_end changes =
     (let account = account_of_row wb row in
      if account = '''' then Inr changes
      else (case results account of None \<Rightarrow> Inl MissingResult
        | Some v \<Rightarrow> rbind (traverse (target_change data row cells row_end) (row_targets wb v)) (\<lambda>cs.
            Inr (changes @ cs))))"

text \<open>The writing loop: \<open>offset\<close> is the end of the last change, the result what is written after it.\<close>

fun write_changes :: "string \<Rightarrow> nat \<Rightarrow> replacement list \<Rightarrow> xlsx_error + string" where
  "write_changes data offset [] = Inr (drop offset data)"
| "write_changes data offset (c # cs) =
     (if rp_start c < offset then Inl OverlappingPatches
      else rbind (write_changes data (rp_end c) cs) (\<lambda>rest.
        Inr (drop offset (take (rp_start c) data) @ rp_data c @ rest)))"

definition write_sheet ::
  "decoder \<Rightarrow> string \<Rightarrow> workbook \<Rightarrow> (string \<rightharpoonup> slik_values) \<Rightarrow> xlsx_error + string" where
  "write_sheet dec data wb results =
     rbind (walk_sheet dec data (visit_patch data wb results) []) (\<lambda>changes.
       write_changes data 0 (sort_key rp_start changes))"

text \<open>
  \<open>Patch\<close>: the other members are copied, the worksheet is rewritten, and the result is inspected before
  it becomes the output.
\<close>

definition patch_workbook ::
  "decoder \<Rightarrow> (string \<Rightarrow> string) \<Rightarrow> zip_file list \<Rightarrow> workbook \<Rightarrow> (string \<rightharpoonup> slik_values)
     \<Rightarrow> xlsx_error + zip_file list" where
  "patch_workbook dec uni files wb results =
     rbind (open_workbook uni files) (\<lambda>_.
       case zip_lookup files (wb_sheet wb) of None \<Rightarrow> Inl SheetMissing
       | Some f \<Rightarrow> rbind (read_part f) (\<lambda>data.
           rbind (traverse (\<lambda>g.
               if zf_name g \<noteq> wb_sheet wb then Inr g
               else rbind (write_sheet dec data wb results) (\<lambda>new. Inr (g\<lparr>zf_data := new, zf_size := of_nat (length new)\<rparr>))) files)
             (\<lambda>output. rbind (inspect dec uni ''verified.xlsx'' output) (\<lambda>_. Inr output))))"

end
