(* ===== verification/Slik_Workbook.thy ===== *)
theory Slik_Workbook
  imports Slik_Xlsx
begin

text \<open>
  Properties of the SLIK workbook code: what an accepted archive, an inspected workbook, an account cell
  and a patched worksheet satisfy.
\<close>

section \<open>Accepted archives\<close>

lemma check_entries_Inr:
  "check_entries uni seen used files = Inr () \<Longrightarrow> unat used \<le> unat max_uncompressed \<Longrightarrow>
     list_all (\<lambda>f. safe_entry_name (zf_name f) \<and> \<not> zf_symlink f \<and> zf_size f \<le> max_member) files
     \<and> distinct (map zf_name files) \<and> (\<forall>f \<in> set files. zf_name f \<notin> set seen)
     \<and> unat used + sum_list (map (\<lambda>f. unat (zf_size f)) files) \<le> unat max_uncompressed"
proof (induction files arbitrary: seen used)
  case (Cons f fs)
  let ?used = "used + zf_size f"
  from Cons.prems(1) have f: "safe_entry_name (zf_name f)" "\<not> zf_symlink f" "zf_name f \<notin> set seen"
      "zf_size f \<le> max_member" "?used \<le> max_uncompressed"
    and rec: "check_entries uni (zf_name f # seen) ?used fs = Inr ()"
    by (auto simp: Let_def not_less split: if_split_asm)
  have nowrap: "unat ?used = unat used + unat (zf_size f)"
  proof -
    have "unat (zf_size f) \<le> 268435456" using f(4) by (simp add: max_member_def word_le_nat_alt)
    moreover have "unat used \<le> 536870912" using Cons.prems(2) by (simp add: max_uncompressed_def)
    ultimately show ?thesis by (simp add: unat_add_lem [THEN iffD1])
  qed
  have "unat ?used \<le> unat max_uncompressed" using f(5) by (simp add: word_le_nat_alt)
  from Cons.IH [OF rec this] show ?case using f nowrap by auto
qed simp


text \<open>The elements kept by \<open>path.Clean\<close> on a relative path: names, below leading dot-dots.\<close>

definition plain_name :: "string \<Rightarrow> bool" where
  "plain_name e \<longleftrightarrow> e \<noteq> '''' \<and> e \<noteq> ''.'' \<and> e \<noteq> ''..''"

lemma clean_elements_shape:
  "list_all plain_name ns \<Longrightarrow> acc = ns @ replicate k ''..'' \<Longrightarrow>
   \<exists>ns' k'. clean_elements False acc es = ns' @ replicate k' ''..'' \<and> list_all plain_name ns'
      \<and> set ns' \<subseteq> set ns \<union> set es"
proof (induction es arbitrary: acc ns k)
  case Nil
  then show ?case by (intro exI [of _ ns] exI [of _ k]) auto
next
  case (Cons e es)
  consider (skip) "e = '''' \<or> e = ''.''" | (up) "e = ''..''" | (name) "plain_name e"
    by (auto simp: plain_name_def)
  then show ?case
  proof cases
    case skip
    then show ?thesis using Cons.IH [OF Cons.prems] by auto
  next
    case name
    then show ?thesis using Cons.IH [of "e # ns" "e # acc" k] Cons.prems by (auto simp: plain_name_def)
  next
    case up
    show ?thesis
    proof (cases ns)
      case Nil
      then have "clean_elements False acc (e # es) = clean_elements False (replicate (Suc k) ''..'') es"
        using up Cons.prems by (cases k) auto
      then show ?thesis using Cons.IH [of "[]" "replicate (Suc k) ''..''" "Suc k"] Nil by auto
    next
      case (Cons n ns2)
      then have "clean_elements False acc (e # es) = clean_elements False (ns2 @ replicate k ''..'') es"
        using up Cons.prems by (auto simp: plain_name_def)
      then show ?thesis using Cons.IH [of ns2 "ns2 @ replicate k ''..''" k] Cons Cons.prems by auto
    qed
  qed
qed

lemma split_byte_parts: "p \<in> set (split_byte c s) \<Longrightarrow> c \<notin> set p"
  by (induction s arbitrary: p) (auto split: list.splits if_split_asm)

lemma prefix_join_parent: "prefix ''../'' (join ''/'' (''..'' # e # es))"
  by simp

text \<open>A safe entry name has no empty and no dot-dot element.\<close>

lemma safe_entry_elements:
  assumes "safe_entry_name name"
  shows "'''' \<notin> set (split_byte (CHR ''/'') (trim_suffix ''/'' name))
    \<and> ''..'' \<notin> set (split_byte (CHR ''/'') (trim_suffix ''/'' name))"
proof -
  define clean where "clean = trim_suffix ''/'' name"
  have c: "clean \<noteq> ''..''" "\<not> prefix ''/'' clean" "path_clean clean = clean" "\<not> prefix ''../'' clean" "clean \<noteq> ''''"
    using assms by (auto simp: safe_entry_name_def clean_def Let_def)
  let ?es = "split_byte (CHR ''/'') clean"
  obtain ns k where el: "clean_elements False [] ?es = ns @ replicate k ''..''" "list_all plain_name ns" "set ns \<subseteq> set ?es"
    using clean_elements_shape [of "[]" "[]" 0 ?es] by auto
  define parts where "parts = replicate k ''..'' @ rev ns"
  have joined: "path_clean clean = (if join ''/'' parts = '''' then ''.'' else join ''/'' parts)"
    using c(2) el(1) by (simp add: path_clean_def Let_def parts_def)
  have free: "list_all (\<lambda>p. CHR ''/'' \<notin> set p) parts"
    using el(3) split_byte_parts [of _ "CHR ''/''" clean] by (auto simp: parts_def list_all_iff)
  show ?thesis
  proof (cases "join ''/'' parts = ''''")
    case True
    then have "clean = ''.''" using joined c(3) by simp
    then show ?thesis by (simp add: clean_def [symmetric])
  next
    case False
    then have eq: "clean = join ''/'' parts" "parts \<noteq> []" using joined c(3) by auto
    have "k = 0"
    proof (rule ccontr)
      assume "k \<noteq> 0"
      then obtain rest where "parts = ''..'' # rest" by (cases k) (auto simp: parts_def)
      then show False using c(1,4) eq(1) by (cases rest) auto
    qed
    then have "list_all plain_name parts" using el(2) by (auto simp: parts_def list_all_iff)
    moreover have "split_byte (CHR ''/'') clean = parts" using split_join [of parts "CHR ''/''"] eq free by (simp add: list_all_iff)
    ultimately show ?thesis by (auto simp: clean_def [symmetric] plain_name_def list_all_iff)
  qed
qed

text \<open>
  C21. An accepted archive is bounded and safe: at most 2048 entries with distinct names, no symbolic link,
  no name with an empty or dot-dot element, every declared size at most 256 MiB and the true sum of the
  declared sizes, without wrap-around, at most 512 MiB; and the parts of a workbook are there.
\<close>

theorem open_workbook_bounds:
  "open_workbook uni files = Inr () \<longrightarrow>
     length files \<le> 2048 \<and> distinct (map zf_name files)
     \<and> sum_list (map (\<lambda>f. unat (zf_size f)) files) \<le> 512 * 2 ^ 20
     \<and> (\<forall>f \<in> set files. unat (zf_size f) \<le> 256 * 2 ^ 20 \<and> \<not> zf_symlink f
          \<and> '''' \<notin> set (split_byte (CHR ''/'') (trim_suffix ''/'' (zf_name f)))
          \<and> ''..'' \<notin> set (split_byte (CHR ''/'') (trim_suffix ''/'' (zf_name f))))
     \<and> set required_parts \<subseteq> zf_name ` set files"
proof
  assume a: "open_workbook uni files = Inr ()"
  then have len: "length files \<le> 2048" and ce: "check_entries uni [] 0 files = Inr ()"
    and req: "find (\<lambda>n. zip_lookup files n = None) required_parts = None"
    by (auto simp: open_workbook_def max_zip_entries_def res_simps split: if_split_asm option.split_asm)
  have c: "list_all (\<lambda>f. safe_entry_name (zf_name f) \<and> \<not> zf_symlink f \<and> zf_size f \<le> max_member) files"
      "distinct (map zf_name files)" "sum_list (map (\<lambda>f. unat (zf_size f)) files) \<le> unat max_uncompressed"
    using check_entries_Inr [OF ce] by simp_all
  have "\<exists>f \<in> set files. zf_name f = n" if "n \<in> set required_parts" for n
    using req that by (force simp: find_None_iff zip_lookup_def)
  then have "set required_parts \<subseteq> zf_name ` set files" by force
  moreover have "unat (zf_size f) \<le> 256 * 2 ^ 20 \<and> \<not> zf_symlink f
          \<and> '''' \<notin> set (split_byte (CHR ''/'') (trim_suffix ''/'' (zf_name f)))
          \<and> ''..'' \<notin> set (split_byte (CHR ''/'') (trim_suffix ''/'' (zf_name f)))" if "f \<in> set files" for f
    using c(1) that safe_entry_elements [of "zf_name f"] by (auto simp: list_all_iff max_member_def word_le_nat_alt)
  moreover have "sum_list (map (\<lambda>f. unat (zf_size f)) files) \<le> 512 * 2 ^ 20"
    using c(3) by (simp add: max_uncompressed_def)
  ultimately show "length files \<le> 2048 \<and> distinct (map zf_name files)
     \<and> sum_list (map (\<lambda>f. unat (zf_size f)) files) \<le> 512 * 2 ^ 20
     \<and> (\<forall>f \<in> set files. unat (zf_size f) \<le> 256 * 2 ^ 20 \<and> \<not> zf_symlink f
          \<and> '''' \<notin> set (split_byte (CHR ''/'') (trim_suffix ''/'' (zf_name f)))
          \<and> ''..'' \<notin> set (split_byte (CHR ''/'') (trim_suffix ''/'' (zf_name f))))
     \<and> set required_parts \<subseteq> zf_name ` set files"
    using len c(2) by blast
qed

definition sample_member :: "string \<Rightarrow> zip_file" where
  "sample_member name = \<lparr>zf_name = name, zf_size = 2, zf_symlink = False, zf_dir = False, zf_data = ''<a''\<rparr>"

theorem open_workbook_bounds_witness:
  "open_workbook id (map sample_member required_parts) = Inr ()
   \<and> sum_list (map (\<lambda>f. unat (zf_size f)) (map sample_member required_parts)) \<le> 512 * 2 ^ 20"
proof -
  have "open_workbook id (map sample_member required_parts) = Inr ()" by code_simp
  then show ?thesis using open_workbook_bounds by blast
qed

section \<open>Row visitors\<close>

text \<open>
  The contract between \<open>walkSheet\<close> and the functions it calls: row numbers never decrease and stay in
  Excel's range, so a property of the collected state that holds up to a row is kept to the end.
\<close>

locale row_visitor =
  fixes visit :: "int \<Rightarrow> cell list \<Rightarrow> nat \<Rightarrow> 's \<Rightarrow> xlsx_error + 's"
    and upto :: "int \<Rightarrow> 's \<Rightarrow> bool"
  assumes upto_mono: "upto r s \<Longrightarrow> r \<le> r' \<Longrightarrow> r' \<le> 1048576 \<Longrightarrow> upto r' s"
    and visit_upto: "upto r s \<Longrightarrow> 0 \<le> r \<Longrightarrow> r \<le> 1048576 \<Longrightarrow> visit r cells p s = Inr s' \<Longrightarrow> upto r s'"
begin

definition walk_inv :: "walk_state \<Rightarrow> 's \<Rightarrow> bool" where
  "walk_inv wk s \<longleftrightarrow> wk_row wk = wk_last_row wk \<and> 0 \<le> wk_row wk \<and> wk_row wk \<le> 1048576 \<and> upto (wk_row wk) s"

lemma walk_start_inv:
  assumes "walk_start p n attrs wk = Inr wk'" and "walk_inv wk s"
  shows "walk_inv wk' s"
  using assms upto_mono [of "wk_row wk" s]
  by (auto simp: walk_start_def walk_inv_def Let_def split: if_split_asm option.split_asm prod.split_asm)

lemma walk_end_inv:
  assumes "walk_end visit p q name (wk, s) = Inr (wk', s')" and "walk_inv wk s"
  shows "walk_inv wk' s'"
  using assms visit_upto [of "wk_row wk" s]
  by (auto simp: walk_end_def walk_inv_def res_simps split: if_split_asm option.split_asm)

lemma walk_text_inv: "walk_inv wk s \<Longrightarrow> walk_inv (walk_text text wk) s"
  by (auto simp: walk_text_def walk_inv_def)

lemma walk_event_inv:
  assumes "walk_event visit e wk s = Inr (wk', s')" and "walk_inv wk s"
  shows "walk_inv wk' s'"
  using assms
  by (cases "xe_token e")
    (auto simp: walk_event_def rbind_eq_Inr intro: walk_start_inv walk_end_inv walk_text_inv)

lemma walk_events_inv:
  "walk_events visit es (wk, s) = Inr (wk', s') \<Longrightarrow> walk_inv wk s \<Longrightarrow> walk_inv wk' s'"
proof (induction es arbitrary: wk s)
  case (Cons e es)
  from Cons.prems(1) obtain wk1 s1 where "walk_event visit e wk s = Inr (wk1, s1)"
    and rec: "walk_events visit es (wk1, s1) = Inr (wk', s')"
    by (auto simp: rbind_eq_Inr)
  then show ?case using Cons.IH [OF rec] walk_event_inv Cons.prems(2) by blast
qed simp

lemma walk_sheet_upto:
  assumes "walk_sheet dec data visit s = Inr s'" and "upto 0 s"
  shows "\<exists>r. 0 \<le> r \<and> r \<le> 1048576 \<and> upto r s'"
proof -
  obtain wk where "walk_events visit (fst (dec data)) (walk_init, s) = Inr (wk, s')"
    using assms(1) by (auto simp: walk_sheet_def rbind_eq_Inr split: if_split_asm)
  then have "walk_inv wk s'"
    by (rule walk_events_inv) (simp add: walk_inv_def walk_init_def assms(2))
  then show ?thesis by (auto simp: walk_inv_def)
qed

end

text \<open>The two visitors of \<open>Inspect\<close>.\<close>

definition header_upto :: "string \<Rightarrow> int \<Rightarrow> workbook \<Rightarrow> bool" where
  "header_upto name r wb \<longleftrightarrow>
     wb_rows wb = [] \<and> 0 \<le> wb_header_row wb \<and> wb_header_row wb \<le> r \<and> (wb_header_row wb \<noteq> 0 \<longrightarrow> wb_sheet wb = name)"

definition rows_upto :: "workbook \<Rightarrow> int \<Rightarrow> sheet_row list \<Rightarrow> bool" where
  "rows_upto wb r rows \<longleftrightarrow>
     sorted (map sr_number rows)
     \<and> (\<forall>x \<in> set rows. wb_header_row wb < sr_number x \<and> sr_number x \<le> r \<and> sr_account x \<noteq> '''')"

lemma visit_header_Inr:
  assumes "visit_header uni shared name row cells p wb = Inr wb'"
  shows "wb' = wb \<or> (wb_header_row wb' = row \<and> wb_sheet wb' = name \<and> wb_rows wb' = [])"
proof -
  obtain headers dup where
    h: "(case (map_of headers ''nomorekeningfasilitas'', map_of headers ''bakidebet'', map_of headers ''sukubungaimbalan'') of
         (Some account, Some balance, Some rate) \<Rightarrow>
           if dup then Inl DuplicateHeader
           else if wb_header_row wb \<noteq> 0 then Inl MultipleHeaderRows
           else Inr \<lparr>wb_sheet = name, wb_header_row = row, wb_account_column = account,
                     wb_balance_column = balance, wb_rate_column = rate, wb_rows = []\<rparr>
       | _ \<Rightarrow> Inr wb) = Inr wb'"
    using assms unfolding visit_header_def rbind_eq_Inr by (auto split: prod.split_asm)
  show ?thesis
    using h by (cases "map_of headers ''nomorekeningfasilitas''"; cases "map_of headers ''bakidebet''";
        cases "map_of headers ''sukubungaimbalan''") (auto split: if_split_asm)
qed

interpretation header_visitor: row_visitor "visit_header uni shared name" "header_upto name" for uni shared name
proof unfold_locales
  fix r s cells p s'
  assume "header_upto name r s" and "0 \<le> r" and "visit_header uni shared name r cells p s = Inr s'"
  then show "header_upto name r s'" using visit_header_Inr by (force simp: header_upto_def)
qed (auto simp: header_upto_def)

interpretation account_visitor: row_visitor "visit_row wb shared formats custom" "rows_upto wb"
  for wb shared formats custom
proof unfold_locales
  fix r s r'
  assume "rows_upto wb r s" and "r \<le> r'"
  then show "rows_upto wb r' s" by (force simp: rows_upto_def)
next
  fix r s cells p s'
  assume "rows_upto wb r s" and "visit_row wb shared formats custom r cells p s = Inr s'"
  then show "rows_upto wb r s'"
    by (auto simp: rows_upto_def visit_row_def res_simps sorted_append split: if_split_asm)
qed

section \<open>Inspected workbooks\<close>

lemma worksheet_targets_names:
  "worksheet_targets files seen by_id rels = Inr m \<Longrightarrow>
   \<forall>(i, n) \<in> set by_id. prefix ''xl/worksheets/'' n \<and> zip_lookup files n \<noteq> None \<Longrightarrow>
   \<forall>(i, n) \<in> set m. prefix ''xl/worksheets/'' n \<and> zip_lookup files n \<noteq> None"
proof (induction rels arbitrary: seen by_id)
  case (Cons rel rels)
  from Cons.prems show ?case
    by (auto simp: Let_def split: if_split_asm option.split_asm dest!: Cons.IH simp del: prefix_Cons prefix_code)
qed simp

lemma sheet_paths_names:
  assumes "sheet_paths dec files = Inr paths" and "n \<in> set paths"
  shows "prefix ''xl/worksheets/'' n \<and> zip_lookup files n \<noteq> None"
proof -
  from assms(1) obtain rels by_id sheets where
    t: "worksheet_targets files [] [] rels = Inr by_id" and
    tr: "traverse (\<lambda>s. case map_of by_id (attr_field s ''id'') of None \<Rightarrow> Inl UnsafeWorksheet
        | Some name \<Rightarrow> if name = '''' then Inl UnsafeWorksheet else Inr name) sheets = Inr paths"
    unfolding sheet_paths_def by (auto simp: rbind_eq_Inr split: if_split_asm prod.split_asm)
  obtain i where "i < length paths" "paths ! i = n" using assms(2) by (auto simp: in_set_conv_nth)
  then have "map_of by_id (attr_field (sheets ! i) ''id'') = Some n"
    using traverse_Inr_nth [OF tr, of i] traverse_Inr_length [OF tr] by (auto split: option.split_asm if_split_asm)
  then show ?thesis using worksheet_targets_names [OF t] by (auto dest: map_of_SomeD)
qed

lemma select_sheet_result:
  "select_sheet dec uni files shared sel names = Inr wb \<Longrightarrow> wb_header_row wb \<noteq> 0 \<Longrightarrow>
   (wb = sel \<or> (wb_rows wb = [] \<and> 0 < wb_header_row wb \<and> wb_sheet wb \<in> set names))"
proof (induction names arbitrary: sel)
  case (Cons name names)
  from Cons.prems(1) obtain data cand where
    w: "walk_sheet dec data (visit_header uni shared name) empty_workbook = Inr cand" and
    rec: "select_sheet dec uni files shared (if wb_header_row cand = 0 then sel else cand) names = Inr wb"
    by (auto simp: rbind_eq_Inr split: if_split_asm)
  have c: "\<exists>r. header_upto name r cand"
    using header_visitor.walk_sheet_upto [OF w] by (auto simp: header_upto_def empty_workbook_def)
  from Cons.IH [OF rec Cons.prems(2)] show ?case
    using c Cons.prems(2) by (auto simp: header_upto_def split: if_split_asm)
qed simp

text \<open>
  C26. What \<open>Inspect\<close> returns can be processed: the workbook names a worksheet member of the archive below
  \<open>xl/worksheets\<close>, has at least one row, all rows lie below the header row and within Excel's range in
  non-decreasing order, and every row has an account that is not empty.
\<close>

theorem inspect_rows_ok:
  "inspect dec uni original files = Inr wb \<longrightarrow>
     wb_rows wb \<noteq> [] \<and> 0 < wb_header_row wb \<and> sorted (map sr_number (wb_rows wb))
     \<and> (\<forall>r \<in> set (wb_rows wb). wb_header_row wb < sr_number r \<and> sr_number r \<le> 1048576 \<and> sr_account r \<noteq> '''')
     \<and> zip_lookup files (wb_sheet wb) \<noteq> None \<and> prefix ''xl/worksheets/'' (wb_sheet wb)"
proof
  assume "inspect dec uni original files = Inr wb"
  then obtain paths shared formats custom sel data rows where
    paths: "sheet_paths dec files = Inr paths" and
    sel: "select_sheet dec uni files shared empty_workbook paths = Inr sel" "wb_header_row sel \<noteq> 0" and
    rows: "walk_sheet dec data (visit_row sel shared formats custom) [] = Inr rows" "rows \<noteq> []" and
    wb: "wb = sel\<lparr>wb_rows := rows\<rparr>"
    unfolding inspect_def by (auto simp: rbind_eq_Inr split: if_split_asm prod.split_asm)
  have s: "0 < wb_header_row sel" "wb_sheet sel \<in> set paths"
    using select_sheet_result [OF sel] sel(2) by (auto simp: empty_workbook_def)
  obtain r where r: "r \<le> 1048576" "rows_upto sel r rows"
    using account_visitor.walk_sheet_upto [OF rows(1)] by (auto simp: rows_upto_def)
  show "wb_rows wb \<noteq> [] \<and> 0 < wb_header_row wb \<and> sorted (map sr_number (wb_rows wb))
     \<and> (\<forall>r \<in> set (wb_rows wb). wb_header_row wb < sr_number r \<and> sr_number r \<le> 1048576 \<and> sr_account r \<noteq> '''')
     \<and> zip_lookup files (wb_sheet wb) \<noteq> None \<and> prefix ''xl/worksheets/'' (wb_sheet wb)"
    using s rows(2) r sheet_paths_names [OF paths s(2)] by (force simp: wb rows_upto_def)
qed

section \<open>Account cells\<close>

lemma account_digits_value:
  assumes "integer_value s"
  shows "list_all is_digit (account_digits s)" and "digits_value (account_digits s) = digits_value s"
    and "account_digits s = ''0'' \<or> (account_digits s \<noteq> '''' \<and> hd (account_digits s) \<noteq> CHR ''0'')"
proof -
  let ?z = "takeWhile (\<lambda>c. c = CHR ''0'') s" and ?d = "trim_left_byte (CHR ''0'') s"
  have s: "s = ?z @ ?d" by (simp add: trim_left_byte_def)
  have z: "?z = replicate (length ?z) (CHR ''0'')"
    by (intro replicate_eqI) (auto dest: set_takeWhileD)
  have dig: "list_all is_digit ?d" using assms s by (metis integer_value_def list_all_append)
  have "digits_value s = digits_value ?d"
    by (subst s, subst z) (simp add: digits_value_append)
  then show "list_all is_digit (account_digits s)" "digits_value (account_digits s) = digits_value s"
    using dig by (auto simp: account_digits_def Let_def digit_value_def byte_def)
  show "account_digits s = ''0'' \<or> (account_digits s \<noteq> '''' \<and> hd (account_digits s) \<noteq> CHR ''0'')"
    using hd_dropWhile [of "\<lambda>x. x = CHR ''0''" s] unfolding account_digits_def Let_def trim_left_byte_def by simp
qed

text \<open>
  A numeric account cell keeps its number: the account text has the digits of the cell's value, with no
  leading zeros under the General format, and padded with zeros exactly to the width of an all-zero
  format; nothing else is accepted.
\<close>

theorem account_value_numeric:
  "account_value c shared formats custom = Inr account \<and> cl_type c \<in> {'''', ''n''} \<longrightarrow>
     list_all is_digit account \<and> account \<noteq> '''' \<and> digits_value account = digits_value (cl_value c)
     \<and> (\<exists>format. account_format c formats custom = Inr format
          \<and> (if format = ''General'' then account = ''0'' \<or> hd account \<noteq> CHR ''0''
             else list_all (\<lambda>x. x = CHR ''0'') format
               \<and> length account = max (length format) (length (account_digits (cl_value c)))))"
proof
  assume a: "account_value c shared formats custom = Inr account \<and> cl_type c \<in> {'''', ''n''}"
  then obtain format where iv: "integer_value (cl_value c)" and f: "account_format c formats custom = Inr format"
    and acc: "if format = ''General'' then account = account_digits (cl_value c)
      else list_all (\<lambda>x. x = CHR ''0'') format
        \<and> account = replicate (length format - length (account_digits (cl_value c))) (CHR ''0'') @ account_digits (cl_value c)"
    by (auto simp: account_value_def Let_def rbind_eq_Inr split: if_split_asm)
  note d = account_digits_value [OF iv]
  let ?n = "length format - length (account_digits (cl_value c))"
  have ne: "account_digits (cl_value c) \<noteq> ''''" using d(3) by auto
  show "list_all is_digit account \<and> account \<noteq> '''' \<and> digits_value account = digits_value (cl_value c)
     \<and> (\<exists>format. account_format c formats custom = Inr format
          \<and> (if format = ''General'' then account = ''0'' \<or> hd account \<noteq> CHR ''0''
             else list_all (\<lambda>x. x = CHR ''0'') format
               \<and> length account = max (length format) (length (account_digits (cl_value c)))))"
  proof (cases "format = ''General''")
    case True
    then have "account = account_digits (cl_value c)" using acc by simp
    then show ?thesis using f d ne True by metis
  next
    case False
    then have ac: "account = replicate ?n (CHR ''0'') @ account_digits (cl_value c)" "list_all (\<lambda>x. x = CHR ''0'') format"
      using acc by auto
    have "list_all is_digit account" unfolding ac(1) list_all_append using d(1) by (simp add: list_all_iff)
    moreover have "digits_value account = digits_value (cl_value c)"
      unfolding ac(1) digits_value_append using d(2) by simp
    moreover have "account \<noteq> ''''" using ne ac(1) by simp
    moreover have "length account = max (length format) (length (account_digits (cl_value c)))" by (simp add: ac(1))
    ultimately show ?thesis using f False ac(2) by auto
  qed
qed

definition sample_cell :: cell where
  "sample_cell = \<lparr>cl_ref = ''A2'', cl_column = ''A'', cl_type = ''n'', cl_style = ''1'', cl_value = ''0012'',
     cl_start = 0, cl_end = 0, cl_formula = False\<rparr>"

theorem account_value_numeric_witness:
  "account_value sample_cell [] [''0'', ''164''] [164 \<mapsto> ''00000''] = Inr ''00012'' \<and> digits_value ''00012'' = digits_value ''0012''"
proof -
  have "account_value sample_cell [] [''0'', ''164''] [164 \<mapsto> ''00000''] = Inr ''00012''" by code_simp
  moreover have "cl_type sample_cell = ''n''" "cl_value sample_cell = ''0012''" by (simp_all add: sample_cell_def)
  ultimately show ?thesis
    using account_value_numeric [of sample_cell "[]" "[''0'', ''164'']" "[164 \<mapsto> ''00000'']" "''00012''"] by simp
qed

section \<open>Patched worksheets\<close>

fun weave :: "string list \<Rightarrow> string list \<Rightarrow> string" where
  "weave (g # gs) (p # ps) = g @ p @ weave gs ps"
| "weave gs ps = concat gs @ concat ps"

definition old_text :: "string \<Rightarrow> replacement \<Rightarrow> string" where
  "old_text data c = drop (rp_start c) (take (rp_end c) data)"

lemma drop_split: "a \<le> b \<Longrightarrow> b \<le> c \<Longrightarrow> c \<le> length xs \<Longrightarrow>
  drop a xs = drop a (take b xs) @ drop b (take c xs) @ drop c xs"
proof -
  assume le: "a \<le> b" "b \<le> c" "c \<le> length xs"
  have "drop a xs = take (b - a) (drop a xs) @ drop b xs" using le by (metis append_take_drop_id drop_drop le_add_diff_inverse2)
  moreover have "drop b xs = take (c - b) (drop b xs) @ drop c xs" using le by (metis append_take_drop_id drop_drop le_add_diff_inverse2)
  ultimately show ?thesis by (simp add: drop_take)
qed

lemma write_changes_weave:
  "write_changes data off cs = Inr out \<Longrightarrow> off \<le> length data \<Longrightarrow>
   \<forall>c \<in> set cs. rp_start c \<le> rp_end c \<and> rp_end c \<le> length data \<Longrightarrow>
   \<exists>gaps. length gaps = Suc (length cs) \<and> drop off data = weave gaps (map (old_text data) cs)
      \<and> out = weave gaps (map rp_data cs)"
proof (induction cs arbitrary: off out)
  case Nil
  then show ?case by (intro exI [of _ "[drop off data]"]) simp
next
  case (Cons c cs)
  from Cons.prems(1) obtain rest where le: "off \<le> rp_start c"
    and rest: "write_changes data (rp_end c) cs = Inr rest"
    and out: "out = drop off (take (rp_start c) data) @ rp_data c @ rest"
    by (auto simp: rbind_eq_Inr not_less split: if_split_asm)
  obtain gaps where "length gaps = Suc (length cs)" "drop (rp_end c) data = weave gaps (map (old_text data) cs)"
    "rest = weave gaps (map rp_data cs)"
    using Cons.IH [OF rest] Cons.prems(3) by auto
  moreover have "drop off data = drop off (take (rp_start c) data) @ old_text data c @ drop (rp_end c) data"
    using drop_split [of off "rp_start c" "rp_end c" data] le Cons.prems(3) by (simp add: old_text_def)
  ultimately show ?case
    using out by (intro exI [of _ "drop off (take (rp_start c) data) # gaps"]) simp
qed

text \<open>
  Documented behaviour of \<open>Decoder.InputOffset\<close>: it gives the end of the last token and the beginning of
  the next one, so offsets do not decrease and stay within the input.
\<close>

fun offsets_from :: "nat \<Rightarrow> nat \<Rightarrow> xml_event list \<Rightarrow> bool" where
  "offsets_from p n [] \<longleftrightarrow> p \<le> n"
| "offsets_from p n (e # es) \<longleftrightarrow> p \<le> xe_start e \<and> xe_start e \<le> xe_end e \<and> offsets_from (xe_end e) n es"

lemma offsets_from_le: "offsets_from p n es \<Longrightarrow> p \<le> n"
  by (induction es arbitrary: p) force+

definition cells_before :: "nat \<Rightarrow> cell list \<Rightarrow> bool" where
  "cells_before p cells \<longleftrightarrow> (\<forall>c \<in> set cells. cl_start c \<le> cl_end c \<and> cl_end c \<le> p)"

text \<open>
  The contract for visitors that record positions: the cells of a row lie before the offset of its end,
  and what has been recorded up to an offset stays recorded.
\<close>

locale span_visitor =
  fixes visit :: "int \<Rightarrow> cell list \<Rightarrow> nat \<Rightarrow> 's \<Rightarrow> xlsx_error + 's"
    and before :: "nat \<Rightarrow> 's \<Rightarrow> bool"
  assumes before_mono: "before p s \<Longrightarrow> p \<le> q \<Longrightarrow> before q s"
    and visit_before: "before p s \<Longrightarrow> cells_before p cells \<Longrightarrow> visit r cells p s = Inr s' \<Longrightarrow> before p s'"
begin

definition span_inv :: "nat \<Rightarrow> walk_state \<Rightarrow> 's \<Rightarrow> bool" where
  "span_inv p wk s \<longleftrightarrow>
     cells_before p (wk_cells wk) \<and> (\<forall>c. wk_current wk = Some c \<longrightarrow> cl_start c \<le> p) \<and> before p s"

lemma span_inv_mono: "span_inv p wk s \<Longrightarrow> p \<le> q \<Longrightarrow> span_inv q wk s"
  using before_mono by (fastforce simp: span_inv_def cells_before_def)

lemma walk_start_span: "walk_start p n attrs wk = Inr wk' \<Longrightarrow> span_inv p wk s \<Longrightarrow> span_inv p wk' s"
  by (auto simp: walk_start_def span_inv_def cells_before_def Let_def
      split: if_split_asm option.split_asm prod.split_asm)

lemma walk_text_span: "span_inv p wk s \<Longrightarrow> span_inv p (walk_text text wk) s"
  by (auto simp: walk_text_def span_inv_def)

lemma walk_end_span:
  assumes "walk_end visit p q name (wk, s) = Inr (wk', s')" and "span_inv p wk s" and "p \<le> q"
  shows "span_inv q wk' s'"
proof (cases "name = ''row''")
  case True
  then have "visit (wk_row wk) (wk_cells wk) p s = Inr s'" and "wk' = wk"
    using assms(1) by (auto simp: walk_end_def res_simps split: if_split_asm)
  then have "span_inv p wk' s'" using assms(2) visit_before unfolding span_inv_def by blast
  then show ?thesis using assms(3) by (rule span_inv_mono)
next
  case False
  have "span_inv q wk s" using assms(2,3) by (rule span_inv_mono)
  then show ?thesis
    using assms(1,3) False assms(2)
    by (auto simp: walk_end_def span_inv_def cells_before_def split: if_split_asm option.split_asm)
qed

lemma walk_event_span:
  assumes "walk_event visit e wk s = Inr (wk', s')" and "span_inv (xe_start e) wk s" and le: "xe_start e \<le> xe_end e"
  shows "span_inv (xe_end e) wk' s'"
proof (cases "xe_token e")
  case (StartElement n attrs)
  then have "span_inv (xe_start e) wk' s'"
    using assms by (auto simp: walk_event_def rbind_eq_Inr intro: walk_start_span)
  then show ?thesis using le by (rule span_inv_mono)
next
  case (EndElement name)
  then show ?thesis using assms walk_end_span by (simp add: walk_event_def)
next
  case (CharData content)
  then have "span_inv (xe_start e) wk' s'" using assms walk_text_span by (auto simp: walk_event_def)
  then show ?thesis using le by (rule span_inv_mono)
next
  case OtherToken
  then show ?thesis using assms span_inv_mono by (simp add: walk_event_def)
qed

lemma walk_events_span:
  "walk_events visit es (wk, s) = Inr (wk', s') \<Longrightarrow> offsets_from p n es \<Longrightarrow> span_inv p wk s \<Longrightarrow> span_inv n wk' s'"
proof (induction es arbitrary: wk s p)
  case Nil
  then show ?case using span_inv_mono by simp
next
  case (Cons e es)
  from Cons.prems(1) obtain wk1 s1 where st: "walk_event visit e wk s = Inr (wk1, s1)"
    and rec: "walk_events visit es (wk1, s1) = Inr (wk', s')"
    by (auto simp: rbind_eq_Inr)
  have "span_inv (xe_start e) wk s" using Cons.prems(2,3) span_inv_mono by simp
  then have "span_inv (xe_end e) wk1 s1" using walk_event_span [OF st] Cons.prems(2) by simp
  moreover have "offsets_from (xe_end e) n es" using Cons.prems(2) by simp
  ultimately show ?case using Cons.IH [OF rec] by blast
qed

lemma walk_sheet_before:
  assumes "walk_sheet dec data visit s = Inr s'" and "offsets_from 0 n (fst (dec data))" and "before 0 s"
  shows "before n s'"
proof -
  obtain wk where "walk_events visit (fst (dec data)) (walk_init, s) = Inr (wk, s')"
    using assms(1) by (auto simp: walk_sheet_def rbind_eq_Inr split: if_split_asm)
  then have "span_inv n wk s'"
    by (rule walk_events_span [OF _ assms(2)]) (simp add: span_inv_def cells_before_def walk_init_def assms(3))
  then show ?thesis by (simp add: span_inv_def)
qed

end

text \<open>A change that writes the balance or the rate of the account of a row.\<close>

definition change_ok :: "string \<Rightarrow> workbook \<Rightarrow> (string \<rightharpoonup> slik_values) \<Rightarrow> replacement \<Rightarrow> bool" where
  "change_ok data wb results ch \<longleftrightarrow>
     (\<exists>row cells row_end v col amount.
        account_of_row wb row \<noteq> '''' \<and> results (account_of_row wb row) = Some v
        \<and> (col, amount) \<in> {(wb_balance_column wb, sv_balance v), (wb_rate_column wb, sv_rate v)}
        \<and> target_change data row cells row_end (col, amount) = Inr ch)"

definition changes_before :: "string \<Rightarrow> workbook \<Rightarrow> (string \<rightharpoonup> slik_values) \<Rightarrow> nat \<Rightarrow> replacement list \<Rightarrow> bool" where
  "changes_before data wb results p chs \<longleftrightarrow>
     (\<forall>ch \<in> set chs. rp_start ch \<le> rp_end ch \<and> rp_end ch \<le> p \<and> change_ok data wb results ch)"

lemma target_change_span:
  assumes "target_change data row cells p t = Inr ch" and "cells_before p cells"
  shows "rp_start ch \<le> rp_end ch \<and> rp_end ch \<le> p"
proof (cases "find (\<lambda>c. cl_column c = fst t) cells")
  case None
  have "insert_position cells col p \<le> p" for col
  proof (cases "find (\<lambda>c. column_index (cl_column c) > column_index col) cells")
    case (Some c)
    then have "c \<in> set cells" by (auto simp: find_Some_iff)
    then show ?thesis using assms(2) Some by (force simp: insert_position_def cells_before_def)
  qed (simp add: insert_position_def)
  then show ?thesis using assms(1) None by (auto simp: target_change_def Let_def split: prod.split_asm)
next
  case (Some c)
  then have "c \<in> set cells" by (auto simp: find_Some_iff)
  then show ?thesis
    using assms Some by (auto simp: target_change_def rbind_eq_Inr cells_before_def split: prod.split_asm)
qed

lemma visit_patch_new:
  assumes "visit_patch data wb results row cells p chs = Inr chs'" and "cells_before p cells" and "ch \<in> set chs'"
  shows "ch \<in> set chs \<or> (rp_start ch \<le> rp_end ch \<and> rp_end ch \<le> p \<and> change_ok data wb results ch)"
proof (cases "ch \<in> set chs")
  case False
  then obtain v new where v: "account_of_row wb row \<noteq> ''''" "results (account_of_row wb row) = Some v"
    and new: "traverse (target_change data row cells p) (row_targets wb v) = Inr new" "ch \<in> set new"
    using assms(1,3) by (auto simp: visit_patch_def Let_def rbind_eq_Inr split: if_split_asm option.split_asm)
  then obtain i where i: "i < length new" "new ! i = ch" by (auto simp: in_set_conv_nth)
  have len: "length new = length (row_targets wb v)" using traverse_Inr_length [OF new(1)] .
  obtain col amount where t: "row_targets wb v ! i = (col, amount)" by force
  have ch: "target_change data row cells p (col, amount) = Inr ch"
    using traverse_Inr_nth [OF new(1), of i] i len t by simp
  have "(col, amount) \<in> set (row_targets wb v)" using t i(1) len by (metis nth_mem)
  then have "(col, amount) \<in> {(wb_balance_column wb, sv_balance v), (wb_rate_column wb, sv_rate v)}"
    by (auto simp: row_targets_def split: if_split_asm)
  then show ?thesis using v ch target_change_span [OF ch assms(2)] unfolding change_ok_def by blast
qed simp

interpretation patch_visitor: span_visitor "visit_patch data wb results" "changes_before data wb results"
  for data wb results
proof unfold_locales
  fix p q s
  assume "changes_before data wb results p s" and "p \<le> q"
  then show "changes_before data wb results q s" by (force simp: changes_before_def)
next
  fix p s cells r s'
  assume "changes_before data wb results p s" and "cells_before p cells" and "visit_patch data wb results r cells p s = Inr s'"
  then show "changes_before data wb results p s'" unfolding changes_before_def using visit_patch_new by blast
qed


lemma open_workbook_bounds_distinct: "open_workbook uni files = Inr () \<Longrightarrow> distinct (map zf_name files)"
  using check_entries_Inr [of uni "[]" 0 files] by (auto simp: open_workbook_def res_simps split: if_split_asm)

lemma zip_lookup_distinct:
  assumes "distinct (map zf_name files)" and "i < length files"
  shows "zip_lookup files (zf_name (files ! i)) = Some (files ! i)"
  unfolding zip_lookup_def find_Some_iff
  using assms by (intro exI [of _ i]) (auto simp: distinct_conv_nth)

text \<open>
  C28. The generated workbook is the input with one worksheet rewritten: \<open>Patch\<close> keeps the number, order and
  names of the members and every other member as it is, the worksheet becomes what \<open>writeSheet\<close> gives for
  it, and the result has passed the same inspection as an upload.
\<close>

theorem patch_keeps_members:
  "patch_workbook dec uni files wb results = Inr out \<longrightarrow>
     length out = length files
     \<and> (\<forall>i < length files. zf_name (out ! i) = zf_name (files ! i)
          \<and> (if zf_name (files ! i) = wb_sheet wb
             then write_sheet dec (zf_data (files ! i)) wb results = Inr (zf_data (out ! i))
             else out ! i = files ! i))
     \<and> (\<exists>wb'. inspect dec uni ''verified.xlsx'' out = Inr wb')"
proof
  assume a: "patch_workbook dec uni files wb results = Inr out"
  then obtain f data wb' where op: "open_workbook uni files = Inr ()"
    and f: "zip_lookup files (wb_sheet wb) = Some f" and data: "read_part f = Inr data"
    and tr: "traverse (\<lambda>g. if zf_name g \<noteq> wb_sheet wb then Inr g
        else rbind (write_sheet dec data wb results) (\<lambda>new. Inr (g\<lparr>zf_data := new, zf_size := of_nat (length new)\<rparr>)))
        files = Inr out"
    and ins: "inspect dec uni ''verified.xlsx'' out = Inr wb'"
    by (auto simp: patch_workbook_def rbind_eq_Inr split: option.split_asm)
  have dist: "distinct (map zf_name files)" using open_workbook_bounds_distinct [OF op] .
  have "zf_name (out ! i) = zf_name (files ! i)
          \<and> (if zf_name (files ! i) = wb_sheet wb
             then write_sheet dec (zf_data (files ! i)) wb results = Inr (zf_data (out ! i))
             else out ! i = files ! i)" if i: "i < length files" for i
  proof (cases "zf_name (files ! i) = wb_sheet wb")
    case True
    then have "f = files ! i" using zip_lookup_distinct [OF dist i] f by simp
    then have "data = zf_data (files ! i)" using data by (simp add: read_part_def split: if_split_asm)
    moreover obtain new where "write_sheet dec data wb results = Inr new"
      "out ! i = (files ! i)\<lparr>zf_data := new, zf_size := of_nat (length new)\<rparr>"
      using traverse_Inr_nth [OF tr i] True by (auto simp: rbind_eq_Inr)
    ultimately show ?thesis using True by simp
  next
    case False
    then show ?thesis using traverse_Inr_nth [OF tr i] by simp
  qed
  then show "length out = length files
     \<and> (\<forall>i < length files. zf_name (out ! i) = zf_name (files ! i)
          \<and> (if zf_name (files ! i) = wb_sheet wb
             then write_sheet dec (zf_data (files ! i)) wb results = Inr (zf_data (out ! i))
             else out ! i = files ! i))
     \<and> (\<exists>wb'. inspect dec uni ''verified.xlsx'' out = Inr wb')"
    using traverse_Inr_length [OF tr] ins by blast
qed

section \<open>A sample workbook\<close>

definition main_element :: "string \<Rightarrow> xml_attrs \<Rightarrow> xml_token" where
  "main_element name attrs = StartElement \<lparr>xn_space = spreadsheet_ns, xn_local = name\<rparr> attrs"

definition event_at :: "nat \<Rightarrow> nat \<Rightarrow> xml_token \<Rightarrow> xml_event" where
  "event_at p q t = \<lparr>xe_token = t, xe_start = p, xe_end = q\<rparr>"

definition text_cell :: "string \<Rightarrow> string \<Rightarrow> xml_event list" where
  "text_cell ref content =
     map (event_at 0 0) [main_element ''c'' [(''r'', ref), (''t'', ''inlineStr'')], main_element ''t'' [], CharData content,
      EndElement ''t'', EndElement ''c'']"

text \<open>A header row, and a row whose balance cell is the text \<open><c></c>\<close> and whose rate cell is missing.\<close>

definition sample_events :: "xml_event list" where
  "sample_events =
     map (event_at 0 0) [main_element ''worksheet'' [], main_element ''row'' [(''r'', ''1'')]]
     @ text_cell ''A1'' ''NomoRekeningFasilitas'' @ text_cell ''B1'' ''BakiDebet'' @ text_cell ''C1'' ''SukuBungaImbalan''
     @ map (event_at 0 0) [EndElement ''row'', main_element ''row'' [(''r'', ''2'')]]
     @ text_cell ''A2'' ''7'' @ [event_at 0 3 (main_element ''c'' [(''r'', ''B2'')]), event_at 3 7 (EndElement ''c'')]
     @ [event_at 7 7 (EndElement ''row''), event_at 7 7 (EndElement ''worksheet'')]"

definition sample_decoder :: decoder where
  "sample_decoder data =
     (if data = ''types'' then
        (map (event_at 0 0) [StartElement \<lparr>xn_space = content_types_ns, xn_local = ''Types''\<rparr> [],
          main_element ''Override'' [(''PartName'', ''/xl/workbook.xml''),
            (''ContentType'', ''application/vnd.openxmlformats-officedocument.spreadsheetml.sheet.main+xml'')],
          EndElement ''Override'', EndElement ''Types''], True)
      else if data = ''root'' then
        (map (event_at 0 0) [StartElement \<lparr>xn_space = package_rels_ns, xn_local = ''Relationships''\<rparr> [],
          main_element ''Relationship'' [(''Id'', ''a''), (''Type'', ''x/officeDocument''), (''Target'', ''xl/workbook.xml'')],
          EndElement ''Relationship'', EndElement ''Relationships''], True)
      else if data = ''book'' then
        (map (event_at 0 0) [main_element ''workbook'' [], main_element ''sheets'' [], main_element ''sheet'' [(''id'', ''r1'')],
          EndElement ''sheet'', EndElement ''sheets'', EndElement ''workbook''], True)
      else if data = ''rels'' then
        (map (event_at 0 0) [StartElement \<lparr>xn_space = package_rels_ns, xn_local = ''Relationships''\<rparr> [],
          main_element ''Relationship'' [(''Id'', ''r1''), (''Type'', ''x/worksheet''), (''Target'', ''worksheets/s.xml'')],
          EndElement ''Relationship'', EndElement ''Relationships''], True)
      else (sample_events, True))"

definition sample_archive :: "zip_file list" where
  "sample_archive = map (\<lambda>(n, d). \<lparr>zf_name = n, zf_size = 7, zf_symlink = False, zf_dir = False, zf_data = d\<rparr>)
     [(''[Content_Types].xml'', ''types''), (''_rels/.rels'', ''root''), (''xl/workbook.xml'', ''book''),
      (''xl/_rels/workbook.xml.rels'', ''rels''), (''xl/worksheets/s.xml'', ''<c></c>'')]"

definition sample_workbook :: workbook where
  "sample_workbook = \<lparr>wb_sheet = ''xl/worksheets/s.xml'', wb_header_row = 1, wb_account_column = ''A'',
     wb_balance_column = ''B'', wb_rate_column = ''C'', wb_rows = [\<lparr>sr_number = 2, sr_account = ''7''\<rparr>]\<rparr>"

definition sample_results :: "string \<rightharpoonup> slik_values" where
  "sample_results = [''7'' \<mapsto> \<lparr>sv_balance = ''9'', sv_rate = ''8''\<rparr>]"

definition sample_output :: string where
  "sample_output = ''<c><v>9</v></c>'' @ new_cell ''C'' 2 ''8''"

lemma sample_inspect: "inspect sample_decoder id ''june.XLSX'' sample_archive = Inr sample_workbook"
  by code_simp

lemma sample_write: "write_sheet sample_decoder ''<c></c>'' sample_workbook sample_results = Inr sample_output"
  by code_simp

lemma sample_patch: "\<not> isl (patch_workbook sample_decoder id sample_archive sample_workbook sample_results)"
  by code_simp

theorem inspect_rows_ok_witness:
  "inspect sample_decoder id ''june.XLSX'' sample_archive = Inr sample_workbook
   \<and> 0 < wb_header_row sample_workbook \<and> prefix ''xl/worksheets/'' (wb_sheet sample_workbook)"
  using inspect_rows_ok [of sample_decoder id "''june.XLSX''" sample_archive sample_workbook] sample_inspect by blast


theorem patch_keeps_members_witness:
  "\<exists>out. patch_workbook sample_decoder id sample_archive sample_workbook sample_results = Inr out
     \<and> length out = length sample_archive \<and> zf_data (out ! 4) = sample_output"
proof -
  obtain out where o: "patch_workbook sample_decoder id sample_archive sample_workbook sample_results = Inr out"
    using sample_patch by (auto simp: isl_def split: sum.split_asm) (metis sum.exhaust)
  have m: "zf_name (sample_archive ! 4) = wb_sheet sample_workbook" "zf_data (sample_archive ! 4) = ''<c></c>''"
    "4 < length sample_archive"
    by (simp_all add: sample_archive_def sample_workbook_def)
  have p: "length out = length sample_archive"
      "\<forall>i < length sample_archive. if zf_name (sample_archive ! i) = wb_sheet sample_workbook
        then write_sheet sample_decoder (zf_data (sample_archive ! i)) sample_workbook sample_results = Inr (zf_data (out ! i))
        else out ! i = sample_archive ! i"
    using patch_keeps_members [of sample_decoder id sample_archive sample_workbook sample_results out] o by blast+
  have "write_sheet sample_decoder ''<c></c>'' sample_workbook sample_results = Inr (zf_data (out ! 4))"
    using p(2) m by metis
  then show ?thesis using o p(1) sample_write by auto
qed

end
