(* ===== verification/Slik_Run.thy ===== *)
theory Slik_Run
  imports Slik_Jobs Slik_Workbook
begin

text \<open>
  One run of a SLIK job, \<open>run\<close> and \<open>finish\<close> of \<open>src/internal/slik/manager.go\<close>: the preparation, the producer and the account
  workers as a step relation, and the conclusion. \<open>Slik_Jobs\<close> abstracts from it: there a worker process saves
  checkpoints in any order. Here the run sees the storage directory, its context, the advisory lock and the
  transactions of others.
\<close>

section \<open>State\<close>

type_synonym storage = "string \<rightharpoonup> zip_file list"

record slik_env =
  se_uni :: "string \<Rightarrow> string"
  se_dec :: decoder
  se_concurrency :: nat

record slik_run =
  ru_db :: slik_db
  ru_disk :: storage
  ru_audit :: "audit_event list"
  ru_after :: string
  ru_todo :: "string list"
  ru_busy :: "string list"
  ru_workers :: nat
  ru_closed :: bool
  ru_ctx_done :: bool
  ru_failure :: "(string \<times> string) option"

datatype run_outcome = RunLeft | RunCanceled | RunFinished job_status | RunUnrecorded

definition output_name :: "slik_job \<Rightarrow> string" where
  "output_name job = jb_id job @ ''.output.xlsx''"

text \<open>
  \<open>finish\<close>: the terminal update, which may fail (\<open>ok\<close>); then the output is removed, and only a recorded
  completion is audited.
\<close>

definition completion_event :: "int \<Rightarrow> slik_job \<Rightarrow> audit_event" where
  "completion_event now job =
     \<lparr>ev_attribution =
        \<lparr>att_actor = Some \<lparr>idt_user_id = jb_actor_id job, idt_username = jb_actor_username job\<rparr>,
         att_effective = Some \<lparr>idt_user_id = jb_owner_id job, idt_username = jb_owner_username job\<rparr>, att_system_actor = ''''\<rparr>,
      ev_action = ''reporting.generate'', ev_resource = '''', ev_resource_id = 0,
      ev_metadata = Some (Reporting (jb_as_of job) (jb_total_rows job) 0), ev_created_at = now\<rparr>"

definition run_finish ::
  "bool \<Rightarrow> int \<Rightarrow> slik_job \<Rightarrow> job_status \<Rightarrow> string \<Rightarrow> string \<Rightarrow> string \<Rightarrow> slik_run \<Rightarrow> run_outcome \<times> slik_run" where
  "run_finish ok now job status account reason output s =
     (case (if ok then slik_terminal now (jb_id job) status account reason output (ru_db s) else Inl StorageError) of
        Inl _ \<Rightarrow> (RunUnrecorded, if output \<noteq> '''' then s\<lparr>ru_disk := (ru_disk s)(output := None)\<rparr> else s)
      | Inr db \<Rightarrow>
          (RunFinished status,
           s\<lparr>ru_db := db, ru_audit := (if status = COMPLETED then ru_audit s @ [completion_event now job] else ru_audit s)\<rparr>))"

section \<open>Construction\<close>

text \<open>
  \<open>NewManager\<close> checks its configuration and the storage directory. The operating system is a parameter: absolute paths,
  the creation of a directory, what \<open>Lstat\<close> finds, and the resolution of symbolic links. \<open>filepath.Rel\<close> is applied to
  clean absolute paths only.
\<close>

datatype found = NotFound | RealDirectory | Symlink | OtherFile

record file_system =
  fs_abs :: "string \<Rightarrow> string option"
  fs_mkdir :: "string \<Rightarrow> bool"
  fs_lstat :: "string \<Rightarrow> found"
  fs_resolve :: "string \<Rightarrow> string option"
  fs_chmod :: "string \<Rightarrow> bool"

definition under_dir :: "string \<Rightarrow> string \<Rightarrow> bool" where
  "under_dir parent child \<longleftrightarrow> child = parent \<or> Sublist.prefix (if parent = ''/'' then ''/'' else parent @ ''/'') child"

definition storage_is_public :: "string \<Rightarrow> string \<Rightarrow> bool" where
  "storage_is_public public dir \<longleftrightarrow>
     under_dir public dir \<or> sublist ''/web/static/'' dir \<or> Sublist.suffix ''/web/static'' dir"

definition new_manager :: "file_system \<Rightarrow> int \<Rightarrow> int \<Rightarrow> string \<Rightarrow> string + string" where
  "new_manager fs concurrency max_upload configured =
     (if concurrency < 1 \<or> 32 < concurrency \<or> max_upload < 1 \<or> 256 * 2 ^ 20 < max_upload \<or> configured = ''''
      then Inl ''invalid SLIK manager configuration''
      else case (fs_abs fs configured, fs_abs fs ''web/static'') of
        (Some dir, Some public) \<Rightarrow>
          if storage_is_public public dir then Inl ''SLIK storage cannot be under web/static''
          else if \<not> fs_mkdir fs dir \<or> fs_lstat fs dir = NotFound then Inl ''storage''
          else if fs_lstat fs dir \<noteq> RealDirectory then Inl ''SLIK storage must be a directory, not a symlink''
          else (case fs_resolve fs dir of
              None \<Rightarrow> Inl ''storage''
            | Some resolved \<Rightarrow>
                if (case fs_resolve fs public of None \<Rightarrow> False | Some p \<Rightarrow> under_dir p resolved)
                then Inl ''SLIK storage cannot be under web/static''
                else if \<not> fs_chmod fs dir then Inl ''storage'' else Inr dir)
      | _ \<Rightarrow> Inl ''storage'')"

text \<open>No file of an accepted storage directory is served as a static file, with or without symbolic links.\<close>

lemma storage_private:
  assumes "new_manager fs concurrency max_upload configured = Inr dir" and "fs_abs fs ''web/static'' = Some public"
  shows "\<not> under_dir public dir"
    and "fs_resolve fs dir = Some d \<Longrightarrow> fs_resolve fs public = Some p \<Longrightarrow> \<not> under_dir p d"
    and "1 \<le> concurrency \<and> concurrency \<le> 32 \<and> 1 \<le> max_upload \<and> max_upload \<le> 268435456"
  using assms
  by (auto simp: new_manager_def storage_is_public_def split: if_split_asm option.split_asm)

section \<open>Preparation\<close>

text \<open>What the preparation meets: the removal of an old output, the answer about a cancellation, the lock.\<close>

record prepare_events =
  pe_removable :: bool
  pe_query_ok :: bool
  pe_lock_lost :: bool
  pe_finish_ok :: bool
  pe_now :: int

text \<open>The failure recorded for an error: only the first one, and none once the context is done.\<close>

definition run_fail :: "string \<Rightarrow> bool \<Rightarrow> err \<Rightarrow> slik_run \<Rightarrow> slik_run" where
  "run_fail account deadline e s =
     (if ru_ctx_done s then s else s\<lparr>ru_failure := Some (account, safe_failure deadline e), ru_ctx_done := True\<rparr>)"

text \<open>\<open>Inl\<close>: the run ends here; \<open>Inr\<close>: the workers start for the reporting date.\<close>

definition run_prepare ::
  "slik_env \<Rightarrow> prepare_events \<Rightarrow> slik_job \<Rightarrow> slik_db \<Rightarrow> storage \<Rightarrow> audit_event list \<Rightarrow> run_outcome \<times> slik_run + slik_run" where
  "run_prepare env ev job db disk events =
     (let s = \<lparr>ru_db = db, ru_disk = disk, ru_audit = events, ru_after = '''', ru_todo = [], ru_busy = [],
               ru_workers = se_concurrency env, ru_closed = False, ru_ctx_done = False, ru_failure = None\<rparr>;
          s1 = s\<lparr>ru_disk := disk(output_name job := None)\<rparr> in
      if \<not> valid_job_id (se_uni env) (jb_id job)
      then Inl (run_finish (pe_finish_ok ev) (pe_now ev) job FAILED '''' ''invalid SLIK job identifier'' '''' s)
      else if \<not> pe_removable ev
      then Inl (run_finish (pe_finish_ok ev) (pe_now ev) job FAILED '''' ''SLIK output storage unavailable'' '''' s)
      else if \<not> pe_query_ok ev then Inl (RunLeft, s1)
      else if slik_is_canceled (jb_id job) db then Inl (RunCanceled, s1)
      else if pe_lock_lost ev then Inl (RunLeft, s1)
      else Inr (case parse_date (jb_as_of job) (Some ''UTC'') of Inl e \<Rightarrow> run_fail '''' False e s1 | Inr _ \<Rightarrow> s1))"

section \<open>Producer and workers\<close>

definition page_size :: nat where
  "page_size = 128"

text \<open>
  One step of the producer (\<open>page\<close>, \<open>last_page\<close>, \<open>page_error\<close>, \<open>send\<close>, \<open>stop\<close>), of a worker (\<open>quit\<close>, \<open>position_error\<close>,
  \<open>rate_error\<close>, \<open>save_error\<close>, \<open>save\<close>), of the watcher or the shutdown (\<open>context_done\<close>), or of another transaction
  that leaves the accounts of the job alone. A worker returns after an error.
\<close>

inductive run_step :: "slik_job \<Rightarrow> slik_run \<Rightarrow> slik_run \<Rightarrow> bool" for job where
  page: "\<not> ru_closed s \<Longrightarrow> \<not> ru_ctx_done s \<Longrightarrow> ru_todo s = [] \<Longrightarrow>
    slik_pending (jb_id job) (ru_after s) page_size (ru_db s) = a # as \<Longrightarrow> run_step job s (s\<lparr>ru_todo := a # as\<rparr>)"
| last_page: "\<not> ru_closed s \<Longrightarrow> \<not> ru_ctx_done s \<Longrightarrow> ru_todo s = [] \<Longrightarrow>
    slik_pending (jb_id job) (ru_after s) page_size (ru_db s) = [] \<Longrightarrow> run_step job s (s\<lparr>ru_closed := True\<rparr>)"
| page_error: "\<not> ru_closed s \<Longrightarrow> \<not> ru_ctx_done s \<Longrightarrow> ru_todo s = [] \<Longrightarrow>
    run_step job s ((run_fail '''' deadline e s)\<lparr>ru_closed := True\<rparr>)"
| send: "\<not> ru_closed s \<Longrightarrow> ru_todo s = a # as \<Longrightarrow> length (ru_busy s) < ru_workers s \<Longrightarrow>
    run_step job s (s\<lparr>ru_todo := as, ru_after := a, ru_busy := a # ru_busy s\<rparr>)"
| stop: "\<not> ru_closed s \<Longrightarrow> ru_ctx_done s \<Longrightarrow> run_step job s (s\<lparr>ru_closed := True, ru_todo := []\<rparr>)"
| quit: "a \<in> set (ru_busy s) \<Longrightarrow> ru_ctx_done s \<Longrightarrow>
    run_step job s (s\<lparr>ru_busy := remove1 a (ru_busy s), ru_workers := ru_workers s - 1\<rparr>)"
| position_error: "a \<in> set (ru_busy s) \<Longrightarrow>
    run_step job s ((run_fail a deadline e s)\<lparr>ru_busy := remove1 a (ru_busy s), ru_workers := ru_workers s - 1\<rparr>)"
| rate_error: "a \<in> set (ru_busy s) \<Longrightarrow> account_values resolved = Inl e \<Longrightarrow>
    run_step job s ((run_fail a False e s)\<lparr>ru_busy := remove1 a (ru_busy s), ru_workers := ru_workers s - 1\<rparr>)"
| save_error: "a \<in> set (ru_busy s) \<Longrightarrow> account_values resolved = Inr (primary, vals) \<Longrightarrow>
    run_step job s ((run_fail a deadline e s)\<lparr>ru_busy := remove1 a (ru_busy s), ru_workers := ru_workers s - 1\<rparr>)"
| save: "a \<in> set (ru_busy s) \<Longrightarrow> account_values resolved = Inr (primary, vals) \<Longrightarrow>
    slik_save now (jb_id job) a primary vals (ru_db s) = Inr db \<Longrightarrow>
    run_step job s (s\<lparr>ru_db := db, ru_busy := remove1 a (ru_busy s)\<rparr>)"
| context_done: "run_step job s (s\<lparr>ru_ctx_done := True\<rparr>)"
| other: "accounts_of (jb_id job) db = accounts_of (jb_id job) (ru_db s) \<Longrightarrow> run_step job s (s\<lparr>ru_db := db\<rparr>)"

text \<open>The producer has closed the channel and all workers are done.\<close>

definition run_drained :: "slik_run \<Rightarrow> bool" where
  "run_drained s \<longleftrightarrow> ru_closed s \<and> ru_busy s = []"

section \<open>Conclusion\<close>

text \<open>
  What the conclusion meets: whether the lock is lost at its four checks and the shutdown has begun, whether its queries are
  answered, and what other transactions do before each of its accesses to the database.
\<close>

record conclude_events =
  ce_lock_lost :: "nat \<Rightarrow> bool"
  ce_root_done :: bool
  ce_query_ok :: "nat \<Rightarrow> bool"
  ce_other :: "nat \<Rightarrow> slik_db \<Rightarrow> slik_db"
  ce_finish_ok :: bool
  ce_now :: int

definition others :: "conclude_events \<Rightarrow> nat \<Rightarrow> slik_run \<Rightarrow> slik_run" where
  "others ev n s = s\<lparr>ru_db := ce_other ev n (ru_db s)\<rparr>"

definition drop_output :: "slik_job \<Rightarrow> slik_run \<Rightarrow> slik_run" where
  "drop_output job s = s\<lparr>ru_disk := (ru_disk s)(output_name job := None)\<rparr>"

definition conclude_failed :: "conclude_events \<Rightarrow> slik_job \<Rightarrow> string \<Rightarrow> string \<Rightarrow> slik_run \<Rightarrow> run_outcome \<times> slik_run" where
  "conclude_failed ev job account reason s =
     run_finish (ce_finish_ok ev) (ce_now ev) job FAILED account reason '''' (others ev 4 s)"

text \<open>From the generated archive to the completion.\<close>

definition conclude_output :: "conclude_events \<Rightarrow> slik_job \<Rightarrow> zip_file list \<Rightarrow> slik_run \<Rightarrow> run_outcome \<times> slik_run" where
  "conclude_output ev job out s =
     (let s1 = s\<lparr>ru_disk := (ru_disk s)(output_name job \<mapsto> out)\<rparr>; s2 = others ev 3 s1 in
      if ce_lock_lost ev 2 then (RunLeft, drop_output job s1)
      else if \<not> ce_query_ok ev 3 \<or> slik_is_canceled (jb_id job) (ru_db s2) then (RunCanceled, drop_output job s2)
      else if ce_lock_lost ev 3 then (RunLeft, drop_output job s2)
      else run_finish (ce_finish_ok ev) (ce_now ev) job COMPLETED '''' '''' (output_name job) (others ev 4 s2))"

text \<open>From complete checkpoints to the generated archive; \<open>stored_input\<close> is the uploaded workbook on disk.\<close>

definition stored_input :: "slik_env \<Rightarrow> slik_job \<Rightarrow> storage \<Rightarrow> zip_file list option" where
  "stored_input env job disk =
     (case safe_path (se_uni env) (jb_input_file job) (jb_id job) ''.input.xlsx'' of None \<Rightarrow> None | Some name \<Rightarrow> disk name)"

definition conclude_generate :: "slik_env \<Rightarrow> conclude_events \<Rightarrow> slik_job \<Rightarrow> slik_run \<Rightarrow> run_outcome \<times> slik_run" where
  "conclude_generate env ev job s =
     (case stored_input env job (ru_disk s) of
        None \<Rightarrow> conclude_failed ev job '''' ''stored workbook unavailable'' s
      | Some files \<Rightarrow>
          (case inspect (se_dec env) (se_uni env) (jb_original_filename job) files of
             Inl _ \<Rightarrow> conclude_failed ev job '''' ''stored workbook unavailable'' s
           | Inr wb \<Rightarrow>
               let s1 = others ev 2 s in
               if \<not> ce_query_ok ev 2 then conclude_failed ev job '''' ''SLIK checkpoints unavailable'' s1
               else (case patch_workbook (se_dec env) (se_uni env) files wb (map_of (slik_results (jb_id job) (ru_db s1))) of
                       Inl _ \<Rightarrow> conclude_failed ev job '''' ''XLSX generation failed'' (drop_output job s1)
                     | Inr out \<Rightarrow> conclude_output ev job out s1)))"

definition run_conclude :: "slik_env \<Rightarrow> conclude_events \<Rightarrow> slik_job \<Rightarrow> slik_run \<Rightarrow> run_outcome \<times> slik_run" where
  "run_conclude env ev job s =
     (let s1 = others ev 0 s; s2 = others ev 1 s1 in
      if ce_lock_lost ev 0 \<or> ce_root_done ev then (RunLeft, s)
      else if \<not> ce_query_ok ev 0 then (RunLeft, s1)
      else if slik_is_canceled (jb_id job) (ru_db s1) then (RunCanceled, s1)
      else case ru_failure s1 of
        Some (account, reason) \<Rightarrow> conclude_failed ev job account reason s1
      | None \<Rightarrow>
          if ru_ctx_done s1 then
            (if ce_lock_lost ev 1 then (RunLeft, s1) else conclude_failed ev job '''' ''SLIK processing interrupted'' s1)
          else if \<not> ce_query_ok ev 1 \<or> slik_check_complete (jb_id job) (ru_db s2) \<noteq> Inr ()
          then conclude_failed ev job '''' ''SLIK checkpoints incomplete'' s2
          else conclude_generate env ev job s2)"

section \<open>The polling loop\<close>

text \<open>
  One round of \<open>loop\<close> up to the run: the advisory lock, \<open>Recover\<close>, and \<open>ClaimNext\<close> when no other transaction runs between
  its statements, so that its loop ends in the first round.
\<close>

definition claim_next :: "int \<Rightarrow> slik_db \<Rightarrow> slik_job option \<times> slik_db" where
  "claim_next now db =
     (case claim_select db of
        None \<Rightarrow> (None, db)
      | Some job_id \<Rightarrow>
          let db' = fst (claim_update now job_id db) in
          (case slik_get job_id 0 True db' of Inl _ \<Rightarrow> (None, db') | Inr job \<Rightarrow> (Some job, db')))"

definition manager_poll :: "bool \<Rightarrow> bool \<Rightarrow> int \<Rightarrow> slik_db \<Rightarrow> slik_job option \<times> slik_db" where
  "manager_poll acquired recovered now db =
     (if \<not> acquired \<or> \<not> recovered then (None, db) else claim_next now (slik_recover db))"

section \<open>No account is forgotten\<close>

definition queued :: "slik_job \<Rightarrow> slik_db \<Rightarrow> string set" where
  "queued job db = ac_requested ` {a \<in> set (accounts_of (jb_id job) db). ac_status a = AccountQueued}"

text \<open>
  As long as nothing has ended the context, every account without checkpoint is with a worker, on the current page, or
  after everything read so far; and when the channel is closed, it is with a worker.
\<close>

definition run_ok :: "slik_job \<Rightarrow> slik_run \<Rightarrow> bool" where
  "run_ok job s \<longleftrightarrow>
     (ru_failure s \<noteq> None \<longrightarrow> ru_ctx_done s)
     \<and> (\<not> ru_ctx_done s \<longrightarrow>
        (\<forall>k \<in> queued job (ru_db s). k \<in> set (ru_busy s) \<or> k \<in> set (ru_todo s)
            \<or> (\<not> ru_closed s \<and> k > ru_after s \<and> (\<forall>t \<in> set (ru_todo s). t < k)))
        \<and> (ru_closed s \<longrightarrow> ru_todo s = []))"

lemma run_fail_simps [simp]:
  "ru_ctx_done (run_fail a d e s)" "ru_failure (run_fail a d e s) \<noteq> None \<longleftrightarrow> ru_failure s \<noteq> None \<or> \<not> ru_ctx_done s"
  by (auto simp: run_fail_def)

lemma pending_page:
  assumes "k \<in> queued job db" and "k > after" and "0 < n"
  shows "slik_pending (jb_id job) after n db \<noteq> [] \<and>
    (k \<in> set (slik_pending (jb_id job) after n db) \<or> (\<forall>t \<in> set (slik_pending (jb_id job) after n db). t < k))"
proof -
  define xs where "xs = sort (map ac_requested (filter (\<lambda>a. ac_job_id a = jb_id job \<and> ac_status a = AccountQueued
        \<and> ac_requested a > after) (tb_accounts db)))"
  have k: "k \<in> set xs" using assms(1,2) by (auto simp: xs_def queued_def)
  have page: "slik_pending (jb_id job) after n db = take n xs" by (simp add: slik_pending_def xs_def)
  have "t \<le> k" if "k \<notin> set (take n xs)" and t: "t \<in> set (take n xs)" for t
  proof -
    have "sorted (take n xs @ drop n xs)" by (simp add: xs_def)
    moreover have "k \<in> set (drop n xs)" using k that(1) by (metis Un_iff append_take_drop_id set_append)
    ultimately show ?thesis using t by (simp add: sorted_append del: append_take_drop_id)
  qed
  then have "k \<in> set (take n xs) \<or> (\<forall>t \<in> set (take n xs). t < k)" by (metis order_le_less)
  moreover have "take n xs \<noteq> []" using k assms(3) by auto
  ultimately show ?thesis unfolding page by blast
qed

lemma save_queued:
  assumes "slik_save now (jb_id job) a primary vals db = Inr db'"
  shows "queued job db' = queued job db - {a}"
proof -
  let ?hit = "\<lambda>x. ac_job_id x = jb_id job \<and> ac_requested x = a \<and> ac_status x = AccountQueued"
  let ?new = "\<lambda>x. x\<lparr>ac_status := AccountCompleted, ac_primary := primary, ac_values := vals, ac_processed_at := Some now\<rparr>"
  let ?g = "\<lambda>x. if ?hit x then ?new x else x"
  have "tb_accounts db' = map ?g (tb_accounts db)"
    using assms by (auto simp: slik_save_def update_jobs_def update_accounts_def Let_def split: if_split_asm)
  then have acc: "tb_accounts db' = map ?g (tb_accounts db)" .
  have g: "ac_job_id (?g x) = jb_id job \<and> ac_status (?g x) = AccountQueued
      \<longleftrightarrow> ac_job_id x = jb_id job \<and> ac_status x = AccountQueued \<and> ac_requested x \<noteq> a" "ac_requested (?g x) = ac_requested x" for x
    by auto
  have q: "queued job d = {ac_requested x | x. x \<in> set (tb_accounts d) \<and> ac_job_id x = jb_id job \<and> ac_status x = AccountQueued}" for d
    by (auto simp: queued_def)
  have "queued job db' = {ac_requested (?g x) | x. x \<in> set (tb_accounts db) \<and> ac_job_id (?g x) = jb_id job \<and> ac_status (?g x) = AccountQueued}"
    unfolding q acc by auto
  also have "\<dots> = {ac_requested x | x. x \<in> set (tb_accounts db) \<and> ac_job_id x = jb_id job \<and> ac_status x = AccountQueued \<and> ac_requested x \<noteq> a}"
    unfolding g ..
  also have "\<dots> = queued job db - {a}" unfolding q by auto
  finally show ?thesis .
qed

lemma run_step_ok:
  assumes "run_step job s t" and "run_ok job s"
  shows "run_ok job t"
  using assms
proof (induction rule: run_step.induct)
  case (page s a as)
  have p: "0 < page_size" by (simp add: page_size_def)
  have "k \<in> set (ru_busy s) \<or> k \<in> set (a # as) \<or> (k > ru_after s \<and> (\<forall>t \<in> set (a # as). t < k))"
    if k: "k \<in> queued job (ru_db s)" for k
  proof (cases "k \<in> set (ru_busy s)")
    case False
    then have "k > ru_after s" using page.prems page.hyps k by (auto simp: run_ok_def)
    from pending_page [OF k this p] show ?thesis using page.hyps(4) \<open>k > ru_after s\<close> by auto
  qed simp
  then show ?case using page by (simp add: run_ok_def)
next
  case (last_page s)
  have p: "0 < page_size" by (simp add: page_size_def)
  have "k \<in> set (ru_busy s)" if k: "k \<in> queued job (ru_db s)" for k
    using last_page.prems last_page.hyps k pending_page [OF k _ p, of "ru_after s"] by (auto simp: run_ok_def)
  then show ?case using last_page by (simp add: run_ok_def)
next
  case (save a s resolved primary vals now db)
  have "k \<in> set (remove1 a (ru_busy s))" if "k \<in> set (ru_busy s)" "k \<noteq> a" for k using that by simp
  then show ?case using save save_queued [OF save.hyps(3)] by (auto simp: run_ok_def)
next
  case (other db s)
  then show ?case by (simp add: run_ok_def queued_def)
qed (auto simp: run_ok_def)

lemma run_steps_ok: "(run_step job)\<^sup>*\<^sup>* s t \<Longrightarrow> run_ok job s \<Longrightarrow> run_ok job t"
  by (induction rule: rtranclp_induct) (auto intro: run_step_ok)

lemma prepare_ok:
  assumes "run_prepare env ev job db disk events = Inr s" and "db_ok db"
  shows "run_ok job s" and "ru_disk s (output_name job) = None"
proof -
  have "k > ''''" if "k \<in> queued job db" for k
    using that assms(2) by (auto simp: queued_def db_ok_def neq_Nil_conv)
  then show "run_ok job s" "ru_disk s (output_name job) = None"
    using assms(1)
    by (auto simp: run_prepare_def run_ok_def run_fail_def Let_def split: if_split_asm sum.split_asm)
qed

section \<open>What the conclusion leaves\<close>

lemma run_finish_disk:
  "run_finish ok now job status account reason '''' s = (out, s') \<Longrightarrow> ru_disk s' = ru_disk s"
  by (auto simp: run_finish_def split: sum.split_asm)

lemma conclude_failed_result:
  "conclude_failed ev job account reason s = (out, s') \<Longrightarrow>
     ru_disk s' = ru_disk s \<and> (out = RunFinished FAILED \<or> out = RunUnrecorded)"
  by (auto simp: conclude_failed_def run_finish_def others_def split: sum.split_asm)

lemma conclude_output_result:
  assumes "conclude_output ev job outp s = (out, s')"
  shows "if out = RunFinished COMPLETED
    then ru_disk s' = (ru_disk s)(output_name job \<mapsto> outp)
      \<and> slik_terminal (ce_now ev) (jb_id job) COMPLETED '''' '''' (output_name job) (ce_other ev 4 (ce_other ev 3 (ru_db s))) = Inr (ru_db s')
    else ru_disk s' = (ru_disk s)(output_name job := None)"
proof -
  have "output_name job \<noteq> ''''" by (simp add: output_name_def)
  then show ?thesis
    using assms
    by (auto simp: conclude_output_def run_finish_def others_def drop_output_def Let_def split: if_split_asm sum.split_asm)
qed

lemma conclude_generate_result:
  assumes "conclude_generate env ev job s = (out, s')" and "ru_disk s (output_name job) = None"
  shows "if out = RunFinished COMPLETED
    then \<exists>files wb outp. stored_input env job (ru_disk s) = Some files
      \<and> inspect (se_dec env) (se_uni env) (jb_original_filename job) files = Inr wb
      \<and> patch_workbook (se_dec env) (se_uni env) files wb (map_of (slik_results (jb_id job) (ce_other ev 2 (ru_db s)))) = Inr outp
      \<and> ru_disk s' = (ru_disk s)(output_name job \<mapsto> outp)
      \<and> (\<exists>db. slik_terminal (ce_now ev) (jb_id job) COMPLETED '''' '''' (output_name job) db = Inr (ru_db s'))
    else ru_disk s' = ru_disk s"
proof -
  let ?s1 = "others ev 2 s"
  have disk: "ru_disk ?s1 = ru_disk s" "(ru_disk s)(output_name job := None) = ru_disk s"
    using assms(2) by (auto simp: others_def)
  have failed: "out \<noteq> RunFinished COMPLETED \<and> ru_disk s' = ru_disk s"
    if "conclude_failed ev job '''' reason t = (out, s')" "ru_disk t = ru_disk s" for reason t
    using conclude_failed_result [OF that(1)] that(2) by auto
  show ?thesis
  proof (cases "stored_input env job (ru_disk s)")
    case None
    then show ?thesis using assms(1) failed by (simp add: conclude_generate_def)
  next
    case (Some files)
    show ?thesis
    proof (cases "inspect (se_dec env) (se_uni env) (jb_original_filename job) files")
      case (Inl e)
      then show ?thesis using assms(1) failed Some by (simp add: conclude_generate_def)
    next
      case (Inr wb)
      let ?p = "patch_workbook (se_dec env) (se_uni env) files wb (map_of (slik_results (jb_id job) (ru_db ?s1)))"
      show ?thesis
      proof (cases "ce_query_ok ev 2")
        case False
        then show ?thesis using assms(1) failed [OF _ disk(1)] Some Inr by (simp add: conclude_generate_def Let_def)
      next
        case True
        show ?thesis
        proof (cases ?p)
          case (Inl e)
          then show ?thesis
            using assms(1) failed [of _ "drop_output job ?s1"] disk Some Inr True
            by (simp add: conclude_generate_def Let_def drop_output_def others_def)
        next
          case (Inr outp)
          then have "conclude_output ev job outp ?s1 = (out, s')"
            using assms(1) Some \<open>inspect _ _ _ _ = Inr wb\<close> True by (simp add: conclude_generate_def Let_def)
          from conclude_output_result [OF this] show ?thesis
            using Some Inr \<open>inspect _ _ _ _ = Inr wb\<close> disk by (auto simp: others_def)
        qed
      qed
    qed
  qed
qed

section \<open>Properties of a run\<close>

text \<open>
  C16. A run leaves an output file exactly when it completed its job: then no failure was recorded, the checkpoints were
  complete, and the file is the uploaded workbook patched with the saved results; in every other case (failure,
  cancellation, lost lock, shutdown, refused query, failed terminal update) the storage is as it was.
\<close>

theorem run_output_exact:
  assumes "run_conclude env ev job s = (out, s')" and "ru_disk s (output_name job) = None"
  shows "if out = RunFinished COMPLETED
    then ru_failure s = None \<and> \<not> ru_ctx_done s
      \<and> slik_check_complete (jb_id job) (ce_other ev 1 (ce_other ev 0 (ru_db s))) = Inr ()
      \<and> (\<exists>files wb outp. stored_input env job (ru_disk s) = Some files
          \<and> inspect (se_dec env) (se_uni env) (jb_original_filename job) files = Inr wb
          \<and> patch_workbook (se_dec env) (se_uni env) files wb
              (map_of (slik_results (jb_id job) (ce_other ev 2 (ce_other ev 1 (ce_other ev 0 (ru_db s)))))) = Inr outp
          \<and> ru_disk s' = (ru_disk s)(output_name job \<mapsto> outp))
      \<and> (\<exists>db. slik_terminal (ce_now ev) (jb_id job) COMPLETED '''' '''' (output_name job) db = Inr (ru_db s'))
    else ru_disk s' = ru_disk s"
proof -
  let ?s1 = "others ev 0 s" and ?s2 = "others ev 1 (others ev 0 s)"
  have same: "ru_disk ?s1 = ru_disk s" "ru_disk ?s2 = ru_disk s" "ru_failure ?s1 = ru_failure s" "ru_ctx_done ?s1 = ru_ctx_done s"
    "ru_db ?s2 = ce_other ev 1 (ce_other ev 0 (ru_db s))"
    by (simp_all add: others_def)
  have failed: "out \<noteq> RunFinished COMPLETED \<and> ru_disk s' = ru_disk s"
    if "conclude_failed ev job account reason t = (out, s')" "ru_disk t = ru_disk s" for account reason t
    using conclude_failed_result [OF that(1)] that(2) by auto
  consider "out \<noteq> RunFinished COMPLETED" "ru_disk s' = ru_disk s"
    | "ru_failure s = None" "\<not> ru_ctx_done s" "slik_check_complete (jb_id job) (ru_db ?s2) = Inr ()"
      "conclude_generate env ev job ?s2 = (out, s')"
    using assms(1) failed same unfolding run_conclude_def Let_def
    by (auto split: if_split_asm option.split_asm)
  then show ?thesis
  proof cases
    case 2
    from conclude_generate_result [OF 2(4)] show ?thesis using 2 same assms(2) by (auto split: if_split)
  qed auto
qed

text \<open>
  C17. A run that is not disturbed forgets no account: when the producer and the workers are done and neither an error nor
  a cancellation has ended the context, every account of the job has its checkpoint, so that the
  conclusion goes on to generate the output.
\<close>

theorem run_undisturbed_generates:
  assumes "run_prepare env pev job db disk events = Inr s0" and "db_ok db" and "(run_step job)\<^sup>*\<^sup>* s0 s"
    and "run_drained s" and "\<not> ru_ctx_done s"
    and "\<not> ce_lock_lost ev 0" and "\<not> ce_root_done ev" and "ce_query_ok ev 0" and "ce_query_ok ev 1" and "ce_other ev = (\<lambda>_. id)"
    and "\<not> slik_is_canceled (jb_id job) (ru_db s)"
  shows "run_conclude env ev job s = conclude_generate env ev job s"
proof -
  have ok: "run_ok job s" using run_steps_ok [OF assms(3)] prepare_ok(1) [OF assms(1,2)] by blast
  then have "queued job (ru_db s) = {}" using assms(4,5) by (auto simp: run_ok_def run_drained_def)
  then have "ac_status a = AccountCompleted" if "a \<in> set (accounts_of (jb_id job) (ru_db s))" for a
    using that by (cases "ac_status a") (auto simp: queued_def)
  then have "slik_check_complete (jb_id job) (ru_db s) = Inr ()" by (auto simp: slik_check_complete_def filter_empty_conv)
  moreover have "ru_failure s = None" using ok assms(5) by (cases "ru_failure s") (auto simp: run_ok_def)
  moreover have "others ev n s = s" for n by (simp add: others_def assms(10))
  ultimately show ?thesis using assms(5-9,11) by (simp add: run_conclude_def Let_def)
qed

text \<open>
  C18. No job is stranded: whoever holds the advisory lock and finds an unfinished job, queued or left in processing by a
  worker that stopped, claims one, the oldest by creation time and identifier, with the saved
  checkpoints as they are.
\<close>

theorem poll_resumes_oldest:
  assumes "db_ok db" and "j \<in> set (tb_jobs db)" and "jb_status j \<in> {QUEUED, PROCESSING}"
  shows "\<exists>claimed db'. manager_poll True True now db = (Some claimed, db') \<and> claimed \<in> set (tb_jobs db')
    \<and> jb_status claimed = PROCESSING \<and> tb_accounts db' = tb_accounts db
    \<and> (jb_created_at claimed, jb_id claimed) \<le> (jb_created_at j, jb_id j)"
proof -
  let ?key = "\<lambda>j. (jb_created_at j, jb_id j)"
  let ?r = "slik_recover db"
  let ?open = "filter (\<lambda>j. jb_status j = QUEUED) (tb_jobs ?r)"
  have r: "db_ok ?r" "tb_accounts ?r = tb_accounts db"
    using update_jobs_ok [OF assms(1), of "\<lambda>j. j\<lparr>jb_status := QUEUED\<rparr>"] by (auto simp: slik_recover_def)
  obtain j' where j': "j' \<in> set ?open" "?key j' = ?key j"
  proof (cases "jb_status j = QUEUED")
    case True
    then show ?thesis using that [of j] assms(2) by (force simp: slik_recover_def update_jobs_def)
  next
    case False
    then show ?thesis using that [of "j\<lparr>jb_status := QUEUED\<rparr>"] assms(2,3) by (force simp: slik_recover_def update_jobs_def)
  qed
  then have "sort_key ?key ?open \<noteq> []" by (metis empty_iff empty_set set_sort)
  then obtain o1 os where sorted_open: "sort_key ?key ?open = o1 # os" by (cases "sort_key ?key ?open") auto
  have "o1 \<in> set ?open" using set_sort [of ?key ?open] unfolding sorted_open by auto
  then have o1: "o1 \<in> set (tb_jobs ?r)" "jb_status o1 = QUEUED" by auto
  have "sorted (map ?key (o1 # os))" using sorted_sort_key [of ?key ?open] unfolding sorted_open .
  moreover have "j' \<in> set (o1 # os)" using j'(1) set_sort [of ?key ?open] unfolding sorted_open by simp
  ultimately have least: "?key o1 \<le> ?key j" using j'(2) by auto
  have select: "claim_select ?r = Some (jb_id o1)" by (simp add: claim_select_def sorted_open)
  let ?f = "\<lambda>j. j\<lparr>jb_status := PROCESSING, jb_started_at := (case jb_started_at j of None \<Rightarrow> Some now | Some t \<Rightarrow> Some t)\<rparr>"
  let ?db = "fst (claim_update now (jb_id o1) ?r)"
  have u: "db_ok ?db" "tb_accounts ?db = tb_accounts ?r"
    using update_jobs_ok [OF r(1), of ?f] by (auto simp: claim_update_def)
  have in_db: "?f o1 \<in> set (tb_jobs ?db)" using o1 by (force simp: claim_update_def update_jobs_def)
  then obtain x where x: "find (\<lambda>x. jb_id x = jb_id o1) (tb_jobs ?db) = Some x"
    by (cases "find (\<lambda>x. jb_id x = jb_id o1) (tb_jobs ?db)") (auto simp: find_None_iff)
  then have "x \<in> set (tb_jobs ?db)" "jb_id x = jb_id (?f o1)" by (auto simp: find_Some_iff dest: nth_mem)
  then have "x = ?f o1" using u(1) in_db by (auto simp: db_ok_def distinct_map inj_on_def)
  then have "manager_poll True True now db = (Some (?f o1), ?db)"
    using x by (simp add: manager_poll_def claim_next_def select slik_get_def Let_def)
  then show ?thesis using in_db u(2) r(2) least by auto
qed

text \<open>
  A shutdown that begins after the check for it fails the job: the query of the checkpoints runs in the context of the
  manager, and its error is taken for missing checkpoints. The source means to leave such a job for recovery.
\<close>

lemma late_shutdown_fails_job:
  assumes "\<not> ce_lock_lost ev 0" and "\<not> ce_root_done ev" and "ce_query_ok ev 0" and "\<not> slik_is_canceled (jb_id job) (ce_other ev 0 (ru_db s))"
    and "ru_failure s = None" and "\<not> ru_ctx_done s" and shutdown: "\<not> ce_query_ok ev 1"
  shows "run_conclude env ev job s = conclude_failed ev job '''' ''SLIK checkpoints incomplete'' (others ev 1 (others ev 0 s))"
  using assms by (simp add: run_conclude_def others_def Let_def)

section \<open>A concrete run\<close>

definition sample_job :: slik_job where
  "sample_job = hd (tb_jobs sample_claimed)"

definition sample_env :: slik_env where
  "sample_env = \<lparr>se_uni = id, se_dec = sample_decoder, se_concurrency = 1\<rparr>"

definition sample_disk :: storage where
  "sample_disk = [sample_token @ ''.input.xlsx'' \<mapsto> sample_archive]"

definition sample_prepare :: prepare_events where
  "sample_prepare = \<lparr>pe_removable = True, pe_query_ok = True, pe_lock_lost = False, pe_finish_ok = True, pe_now = 6\<rparr>"

definition sample_conclude :: conclude_events where
  "sample_conclude = \<lparr>ce_lock_lost = (\<lambda>_. False), ce_root_done = False, ce_query_ok = (\<lambda>_. True), ce_other = (\<lambda>_. id),
     ce_finish_ok = True, ce_now = 8\<rparr>"

definition sample_run :: slik_run where
  "sample_run = \<lparr>ru_db = sample_claimed, ru_disk = sample_disk(sample_token @ ''.output.xlsx'' := None), ru_audit = [],
     ru_after = '''', ru_todo = [], ru_busy = [], ru_workers = 1, ru_closed = False, ru_ctx_done = False, ru_failure = None\<rparr>"

definition sample_drained :: slik_run where
  "sample_drained = sample_run\<lparr>ru_db := sample_saved, ru_after := ''7'', ru_closed := True\<rparr>"

definition sample_resolved :: resolved_position where
  "sample_resolved =
     (let loan = \<lparr>cd_primary_account = ''70'', cd_alternate_account = ''7'', cd_cif = ''C'', cd_customer_name = ''N'',
            cd_branch = ''B'', cd_product = ''K'', cd_plafond_limit = 10, cd_tenor_months = 1, cd_flat_rate_percent = 12,
            cd_reference_rate_percent = 0, cd_current_collectability = 1, cd_current_principal_due = 0,
            cd_current_interest_due = 0, cd_penalty_due = 0, cd_status = ''A'', cd_close_date = zero_date,
            cd_raw_schedule_count = 0, cd_contract_schedule_evidence = None, cd_contract_schedule = [], cd_repayments = []\<rparr>;
          p = empty_position\<lparr>lp_principal_outstanding := 10\<rparr> in
      \<lparr>res_loan = loan, res_position = p, res_actual_position = p, res_trace = empty_trace, res_contractual_schedule = []\<rparr>)"

lemma sample_run_facts:
  "jb_id sample_job = sample_token" "jb_as_of sample_job = ''2025-06-30''" "jb_original_filename sample_job = ''june.xlsx''"
  "safe_path id (jb_input_file sample_job) (jb_id sample_job) ''.input.xlsx'' = Some (sample_token @ ''.input.xlsx'')"
  "valid_job_id id sample_token" "\<not> slik_is_canceled sample_token sample_claimed" "\<not> slik_is_canceled sample_token sample_saved"
  "slik_pending sample_token ''7'' 1 sample_saved = []"
  "\<not> isl (parse_date ''2025-06-30'' (Some ''UTC''))"
  "account_values sample_resolved = Inr (''70'', sample_values)"
  "inspect sample_decoder id ''june.xlsx'' sample_archive = Inr sample_workbook"
  "length (slik_pending sample_token '''' 1 sample_claimed) = 1"
  by code_simp+

lemma sample_pages:
  "slik_pending sample_token '''' page_size sample_claimed = [''7'']"
  "slik_pending sample_token ''7'' page_size sample_saved = []"
  by code_simp+

lemma sample_patched:
  "\<not> isl (patch_workbook sample_decoder id sample_archive sample_workbook (map_of [(''7'', sample_values)]))"
  by code_simp

lemma sample_terminal: "\<not> isl (slik_terminal 8 sample_token COMPLETED '''' '''' (sample_token @ ''.output.xlsx'') sample_saved)"
  by code_simp

lemma sample_results_saved: "slik_results sample_token sample_saved = [(''7'', sample_values)]"
  by (simp add: slik_results_def results_loop.simps [of 256 sample_token "''''"] results_loop.simps [of 256 sample_token "''7''"]
      sample_facts(6,7))

lemma sample_conclude_simps [simp]:
  "others sample_conclude n s = s" "ce_query_ok sample_conclude n" "\<not> ce_lock_lost sample_conclude n"
  "\<not> ce_root_done sample_conclude" "ce_finish_ok sample_conclude" "ce_now sample_conclude = 8" "ce_other sample_conclude n db = db"
  by (simp_all add: others_def sample_conclude_def)

lemma sample_env_simps [simp]:
  "se_uni sample_env = id" "se_dec sample_env = sample_decoder" "se_concurrency sample_env = 1"
  by (simp_all add: sample_env_def)

lemma sample_drained_simps [simp]:
  "ru_db sample_drained = sample_saved" "ru_busy sample_drained = []" "ru_closed sample_drained" "\<not> ru_ctx_done sample_drained"
  "ru_failure sample_drained = None" "ru_disk sample_drained = sample_disk(sample_token @ ''.output.xlsx'' := None)"
  "ru_audit sample_drained = []"
  by (simp_all add: sample_drained_def sample_run_def)

lemma sample_job_simps [simp]: "jb_id sample_job = sample_token" "output_name sample_job = sample_token @ ''.output.xlsx''"
  by (simp_all add: sample_run_facts(1) output_name_def)

lemma sample_finishes:
  "\<exists>s'. run_conclude sample_env sample_conclude sample_job sample_drained = (RunFinished COMPLETED, s')"
proof -
  obtain outp where p: "patch_workbook sample_decoder id sample_archive sample_workbook (map_of [(''7'', sample_values)]) = Inr outp"
    using sample_patched by (metis isl_def sum.exhaust_sel)
  obtain db where t: "slik_terminal 8 sample_token COMPLETED '''' '''' (sample_token @ ''.output.xlsx'') sample_saved = Inr db"
    using sample_terminal by (metis isl_def sum.exhaust_sel)
  have i: "stored_input sample_env sample_job (ru_disk sample_drained) = Some sample_archive"
    using sample_run_facts(4) by (simp add: stored_input_def sample_disk_def)
  obtain s' where o: "conclude_output sample_conclude sample_job outp sample_drained = (RunFinished COMPLETED, s')"
    using t by (simp add: conclude_output_def run_finish_def sample_run_facts(7))
  have "conclude_generate sample_env sample_conclude sample_job sample_drained
      = conclude_output sample_conclude sample_job outp sample_drained"
    using p by (simp add: conclude_generate_def i sample_run_facts(3,11) sample_results_saved del: sample_drained_simps(6))
  moreover have "run_conclude sample_env sample_conclude sample_job sample_drained
      = conclude_generate sample_env sample_conclude sample_job sample_drained"
    by (simp add: run_conclude_def sample_run_facts(7) sample_facts(5))
  ultimately show ?thesis using o by simp
qed

theorem run_output_exact_witness:
  "\<exists>s' outp. run_conclude sample_env sample_conclude sample_job sample_drained = (RunFinished COMPLETED, s')
    \<and> ru_disk s' = sample_disk(output_name sample_job \<mapsto> outp)"
proof -
  obtain s' where s': "run_conclude sample_env sample_conclude sample_job sample_drained = (RunFinished COMPLETED, s')"
    using sample_finishes by blast
  have "ru_disk sample_drained (output_name sample_job) = None" by simp
  from run_output_exact [OF s' this] obtain outp where "ru_disk s' = (ru_disk sample_drained)(output_name sample_job \<mapsto> outp)"
    by (auto split: if_splits)
  then show ?thesis using s' by auto
qed

lemma sample_prepared: "run_prepare sample_env sample_prepare sample_job sample_claimed sample_disk [] = Inr sample_run"
proof -
  obtain d where "parse_date ''2025-06-30'' (Some ''UTC'') = Inr d" using sample_run_facts(9) by (metis isl_def sum.exhaust)
  then show ?thesis
    by (simp add: run_prepare_def sample_prepare_def sample_run_facts(2,5,6) sample_run_def Let_def)
qed

lemma sample_claimed_ok: "db_ok sample_claimed"
  unfolding db_ok_def by code_simp

lemma sample_ran: "(run_step sample_job)\<^sup>*\<^sup>* sample_run sample_drained"
proof -
  let ?s1 = "sample_run\<lparr>ru_todo := [''7'']\<rparr>"
  let ?s2 = "?s1\<lparr>ru_todo := [], ru_after := ''7'', ru_busy := [''7'']\<rparr>"
  let ?s3 = "?s2\<lparr>ru_db := sample_saved, ru_busy := []\<rparr>"
  have "run_step sample_job sample_run ?s1"
    using run_step.page [of sample_run sample_job "''7''" "[]"] by (simp add: sample_run_def sample_pages)
  moreover have "run_step sample_job ?s1 ?s2"
    using run_step.send [of ?s1 "''7''" "[]" sample_job] by (simp add: sample_run_def)
  moreover have "run_step sample_job ?s2 ?s3"
    using run_step.save [of "''7''" ?s2 sample_resolved "''70''" sample_values 7 sample_job sample_saved]
    by (simp add: sample_run_def sample_run_facts(10) sample_facts(4))
  moreover have "run_step sample_job ?s3 sample_drained"
    using run_step.last_page [of ?s3 sample_job] by (simp add: sample_run_def sample_drained_def sample_pages)
  ultimately show ?thesis by (meson converse_rtranclp_into_rtranclp rtranclp.rtrancl_refl)
qed

theorem run_undisturbed_generates_witness:
  "run_conclude sample_env sample_conclude sample_job sample_drained = conclude_generate sample_env sample_conclude sample_job sample_drained"
  by (rule run_undisturbed_generates [OF sample_prepared sample_claimed_ok sample_ran])
    (simp_all add: run_drained_def sample_run_facts(7) sample_conclude_def)

lemma sample_unfinished: "sample_job \<in> set (tb_jobs sample_claimed)" "jb_status sample_job = PROCESSING"
  by code_simp+

theorem poll_resumes_oldest_witness:
  "\<exists>claimed db'. manager_poll True True 9 sample_claimed = (Some claimed, db') \<and> jb_status claimed = PROCESSING
    \<and> tb_accounts db' = tb_accounts sample_claimed"
  using poll_resumes_oldest [OF sample_claimed_ok sample_unfinished(1), of 9] sample_unfinished(2) by auto

end
