(* ===== verification/Slik_Pages.thy ===== *)
theory Slik_Pages
  imports Slik_Jobs Browser_Auth
begin

text \<open>
  The SLIK pages, \<open>src/internal/features/slik/handler.go\<close>: upload, status, download and cancellation of the jobs of
  \<open>Slik_Jobs\<close>. A page is the data its template is given; a principal with \<open>reporting.view_all\<close> sees every job,
  any other only the own ones.
\<close>

section \<open>SLIK pages\<close>

datatype slik_response =
    SlikIndex int string string "slik_job list"
  | SlikStatus slik_job
  | SlikFile string string
  | SlikRedirect string
  | SlikPlain int string
  | SlikMissing
  | SlikInternal string

definition permission_generate :: string where "permission_generate = ''reporting.generate''"
definition permission_view_all :: string where "permission_view_all = ''reporting.view_all''"

text \<open>The owner and the scope of a request; without a principal they are the zero value.\<close>

definition request_owner :: "browser_principal option \<Rightarrow> int" where
  "request_owner p = (case p of None \<Rightarrow> 0 | Some pr \<Rightarrow> pr_user_id pr)"

definition request_views_all :: "browser_principal option \<Rightarrow> bool" where
  "request_views_all p = (case p of None \<Rightarrow> False | Some pr \<Rightarrow> principal_can pr permission_view_all)"

text \<open>An upload: the client's file name, the bytes copied, and what \<open>Inspect\<close> finds.\<close>

record slik_upload =
  up_filename :: string
  up_copied :: int
  up_inspect :: "string + string list"

datatype slik_request =
    SlikIndexRequest
  | SlikSubmitRequest form_parse string "slik_upload option" string
  | SlikStatusRequest string
  | SlikDownloadRequest string
  | SlikCancelRequest string

record slik_site =
  ss_uni :: "string \<Rightarrow> string"
  ss_location :: location
  ss_max_upload :: int

text \<open>What a request meets: whether the database answers reads and writes, the stored files, the clock and its civil date.\<close>

record slik_world =
  sw_reads :: bool
  sw_writes :: bool
  sw_exists :: "string \<Rightarrow> bool"
  sw_now :: int
  sw_today :: date

definition slik_index :: "slik_world \<Rightarrow> browser_principal option \<Rightarrow> slik_db \<Rightarrow> slik_response" where
  "slik_index w p db =
     (if \<not> sw_reads w then SlikInternal ''list SLIK jobs''
      else SlikIndex 200 (date_string (default_reporting_date (sw_today w))) '''' (slik_history (request_owner p) (request_views_all p) db))"

text \<open>\<open>inputError\<close>: the list is empty when it cannot be read.\<close>

definition slik_input_error :: "slik_world \<Rightarrow> browser_principal option \<Rightarrow> int \<Rightarrow> string \<Rightarrow> string \<Rightarrow> slik_db \<Rightarrow> slik_response" where
  "slik_input_error w p status message as_of db =
     SlikIndex status as_of message (if sw_reads w then slik_history (request_owner p) (request_views_all p) db else [])"

definition slik_submit_request ::
  "slik_site \<Rightarrow> slik_world \<Rightarrow> browser_principal option \<Rightarrow> form_parse \<Rightarrow> string \<Rightarrow> slik_upload option \<Rightarrow> string \<Rightarrow> slik_db
     \<Rightarrow> slik_response \<times> slik_db" where
  "slik_submit_request site w p parse raw upload token db =
     (if parse \<noteq> FormOk then (slik_input_error w p 400 ''Upload a valid XLSX within the size limit.'' raw db, db)
      else case parse_date (trim_space raw) (ss_location site) of
        Inl _ \<Rightarrow> (slik_input_error w p 422 ''Enter a valid reporting date up to today.'' raw db, db)
      | Inr as_of \<Rightarrow>
          if date_after as_of (sw_today w) then (slik_input_error w p 422 ''Enter a valid reporting date up to today.'' raw db, db)
          else case upload of
            None \<Rightarrow> (slik_input_error w p 422 ''Select a SLIK .xlsx workbook.'' raw db, db)
          | Some u \<Rightarrow>
              (case p of None \<Rightarrow> (SlikInternal ''submit SLIK job'', db)
               | Some pr \<Rightarrow>
                   (case rbind (slik_submit (sw_now w) (ss_max_upload site) token (principal_attribution pr) (up_filename u) (date_string as_of)
                                  (up_copied u) (up_inspect u) db) (\<lambda>result. if sw_writes w then Inr result else Inl StorageError) of
                      Inl (ValidationError reason) \<Rightarrow> (slik_input_error w p 422 reason raw db, db)
                    | Inl _ \<Rightarrow> (SlikInternal ''submit SLIK job'', db)
                    | Inr (job, db') \<Rightarrow> (SlikRedirect (''/slik/'' @ jb_id job), db'))))"

definition slik_status :: "slik_world \<Rightarrow> browser_principal option \<Rightarrow> string \<Rightarrow> slik_db \<Rightarrow> slik_response" where
  "slik_status w p job_id db =
     (if \<not> sw_reads w then SlikInternal ''read SLIK job''
      else case slik_get job_id (request_owner p) (request_views_all p) db of Inl _ \<Rightarrow> SlikMissing | Inr job \<Rightarrow> SlikStatus job)"

definition slik_download :: "slik_site \<Rightarrow> slik_world \<Rightarrow> browser_principal option \<Rightarrow> string \<Rightarrow> slik_db \<Rightarrow> slik_response" where
  "slik_download site w p job_id db =
     (if \<not> sw_reads w then SlikInternal ''open SLIK output''
      else case slik_get job_id (request_owner p) (request_views_all p) db of
        Inl _ \<Rightarrow> SlikMissing
      | Inr job \<Rightarrow>
          (case open_output (ss_uni site) (sw_exists w) (sw_now w) job_id (request_owner p) (request_views_all p) db of
             Inr name \<Rightarrow> SlikFile (''slik_'' @ jb_as_of job @ ''.xlsx'') name
           | Inl e \<Rightarrow> if e = SlikNotReady then SlikPlain 409 ''SLIK output unavailable'' else SlikPlain 410 ''SLIK output expired''))"

definition slik_cancel_request :: "slik_world \<Rightarrow> browser_principal option \<Rightarrow> string \<Rightarrow> slik_db \<Rightarrow> slik_response \<times> slik_db" where
  "slik_cancel_request w p job_id db =
     (if \<not> sw_writes w then (SlikInternal ''cancel SLIK job'', db)
      else case slik_cancel (sw_now w) job_id (request_owner p) (request_views_all p) db of
        (Inl _, db') \<Rightarrow> (SlikMissing, db')
      | (Inr _, db') \<Rightarrow> (SlikRedirect (''/slik/'' @ job_id), db'))"

definition slik_handle :: "slik_site \<Rightarrow> slik_world \<Rightarrow> browser_principal option \<Rightarrow> slik_request \<Rightarrow> slik_db \<Rightarrow> slik_response \<times> slik_db" where
  "slik_handle site w p request db =
     (case request of
        SlikIndexRequest \<Rightarrow> (slik_index w p db, db)
      | SlikSubmitRequest parse raw upload token \<Rightarrow> slik_submit_request site w p parse raw upload token db
      | SlikStatusRequest job_id \<Rightarrow> (slik_status w p job_id db, db)
      | SlikDownloadRequest job_id \<Rightarrow> (slik_download site w p job_id db, db)
      | SlikCancelRequest job_id \<Rightarrow> slik_cancel_request w p job_id db)"

text \<open>The jobs of a response and the job a download serves.\<close>

definition shown_jobs :: "slik_response \<Rightarrow> slik_job list" where
  "shown_jobs r = (case r of SlikIndex _ _ _ jobs \<Rightarrow> jobs | SlikStatus job \<Rightarrow> [job] | _ \<Rightarrow> [])"

definition own_rows :: "int \<Rightarrow> slik_db \<Rightarrow> slik_job list" where
  "own_rows owner db = filter (\<lambda>j. jb_owner_id j = owner) (tb_jobs db)"

definition others_rows :: "int \<Rightarrow> slik_db \<Rightarrow> slik_job list" where
  "others_rows owner db = filter (\<lambda>j. jb_owner_id j \<noteq> owner) (tb_jobs db)"

section \<open>Facts about the SLIK pages\<close>

lemma slik_get_owned: "slik_get job_id owner False db = Inr j \<Longrightarrow> j \<in> set (tb_jobs db) \<and> jb_owner_id j = owner \<and> jb_id j = job_id"
  by (auto simp: slik_get_def find_Some_iff split: option.split_asm)

lemma slik_history_owned: "j \<in> set (slik_history owner False db) \<Longrightarrow> j \<in> set (tb_jobs db) \<and> jb_owner_id j = owner"
  by (auto simp: slik_history_def dest: in_set_takeD)

lemma cancel_others:
  "others_rows owner (cancel_update now job_id owner False db) = others_rows owner db"
  "tb_accounts (cancel_update now job_id owner False db) = tb_accounts db"
proof -
  let ?P = "\<lambda>j. jb_id j = job_id \<and> jb_status j \<in> {QUEUED, PROCESSING} \<and> (False \<or> jb_owner_id j = owner)"
  let ?f = "\<lambda>j. j\<lparr>jb_status := CANCELED, jb_finished_at := Some now, jb_expires_at := Some (now + seven_days)\<rparr>"
  have "filter (\<lambda>j. jb_owner_id j \<noteq> owner) (map (\<lambda>j. if ?P j then ?f j else j) js) = filter (\<lambda>j. jb_owner_id j \<noteq> owner) js" for js
    by (induction js) auto
  then show "others_rows owner (cancel_update now job_id owner False db) = others_rows owner db"
    by (simp add: others_rows_def cancel_update_def update_jobs_def)
  show "tb_accounts (cancel_update now job_id owner False db) = tb_accounts db"
    by (simp add: cancel_update_def update_jobs_def)
qed


lemma create_others:
  assumes "slik_create job accounts db = Inr db'" and "jb_owner_id job = owner"
  shows "others_rows owner db' = others_rows owner db"
    and "k \<in> jb_id ` set (tb_jobs db) \<Longrightarrow> accounts_of k db' = accounts_of k db"
proof -
  let ?job = "job\<lparr>jb_status := QUEUED, jb_total_accounts := int (length accounts), jb_processed := 0, jb_started_at := None,
     jb_finished_at := None, jb_failed_account := '''', jb_failure_reason := '''', jb_output_file := '''', jb_expires_at := None\<rparr>"
  from assms(1) have j: "tb_jobs db' = tb_jobs db @ [?job]"
    and a: "tb_accounts db' = tb_accounts db @ map (new_account (jb_id job)) accounts" and fresh: "jb_id job \<notin> jb_id ` set (tb_jobs db)"
    by (auto simp: slik_create_def insert_batches_eq insert_accounts_Inr split: if_split_asm)
  show "others_rows owner db' = others_rows owner db" by (simp add: others_rows_def j assms(2))
  assume "k \<in> jb_id ` set (tb_jobs db)"
  then have "k \<noteq> jb_id job" using fresh by blast
  then show "accounts_of k db' = accounts_of k db" by (auto simp: a new_account_def filter_empty_conv)
qed

lemma submit_owner:
  "slik_submit now max_upload token att name as_of copied inspect db = Inr (job, db') \<Longrightarrow>
   jb_owner_id job = idt_user_id (the (att_effective att)) \<and> (\<exists>accounts. slik_create job accounts db = Inr db')"
  by (auto simp: slik_submit_def Let_def res_simps split: if_split_asm sum.split_asm)

lemma slik_submit_request_state:
  assumes "slik_submit_request site w p parse raw upload token db = (r, db')"
  shows "db' = db \<or> (\<exists>job accounts. jb_owner_id job = request_owner p \<and> slik_create job accounts db = Inr db')"
  using assms
  by (auto simp: slik_submit_request_def request_owner_def principal_attribution_def Let_def res_simps dest!: submit_owner
      split: if_split_asm option.split_asm sum.split_asm slik_error.split_asm) 

lemma slik_submit_request_response:
  assumes "slik_submit_request site w p parse raw upload token db = (r, db')"
  shows "(\<exists>status message as_of. r = slik_input_error w p status message as_of db) \<or> (\<exists>op. r = SlikInternal op) \<or> (\<exists>u. r = SlikRedirect u)"
  using assms
  by (auto simp: slik_submit_request_def split: if_split_asm option.split_asm sum.split_asm slik_error.split_asm)

lemma slik_handle_state:
  assumes "slik_handle site w p request db = (r, db')"
  shows "db' = db \<or> (\<exists>job accounts. jb_owner_id job = request_owner p \<and> slik_create job accounts db = Inr db')
     \<or> (\<exists>job_id. db' = cancel_update (sw_now w) job_id (request_owner p) (request_views_all p) db)"
proof (cases request)
  case (SlikSubmitRequest parse raw upload token)
  then have "slik_submit_request site w p parse raw upload token db = (r, db')" using assms by (simp add: slik_handle_def)
  from slik_submit_request_state [OF this] show ?thesis by blast
qed (use assms in \<open>auto simp: slik_handle_def slik_cancel_request_def slik_cancel_def Let_def split: if_split_asm prod.split_asm sum.split_asm\<close>)

lemma slik_handle_shown:
  assumes "slik_handle site w p request db = (r, db')" and "j \<in> set (shown_jobs r)"
  shows "j \<in> set (slik_history (request_owner p) (request_views_all p) db)
     \<or> (\<exists>job_id. slik_get job_id (request_owner p) (request_views_all p) db = Inr j)"
proof (cases request)
  case (SlikSubmitRequest parse raw upload token)
  then have "slik_submit_request site w p parse raw upload token db = (r, db')" using assms(1) by (simp add: slik_handle_def)
  from slik_submit_request_response [OF this] assms(2) show ?thesis
    by (auto simp: slik_input_error_def shown_jobs_def split: if_split_asm)
qed (use assms in \<open>auto simp: slik_handle_def slik_index_def slik_status_def slik_download_def slik_cancel_request_def shown_jobs_def
       split: if_split_asm sum.split_asm prod.split_asm\<close>)

lemma slik_handle_file:
  assumes "slik_handle site w p request db = (SlikFile name stored, db')"
  shows "\<exists>job_id j. slik_get job_id (request_owner p) (request_views_all p) db = Inr j \<and> name = ''slik_'' @ jb_as_of j @ ''.xlsx''
     \<and> open_output (ss_uni site) (sw_exists w) (sw_now w) job_id (request_owner p) (request_views_all p) db = Inr stored \<and> db' = db"
proof (cases request)
  case (SlikSubmitRequest parse raw upload token)
  then have "slik_submit_request site w p parse raw upload token db = (SlikFile name stored, db')" using assms by (simp add: slik_handle_def)
  from slik_submit_request_response [OF this] show ?thesis by (auto simp: slik_input_error_def)
qed (use assms in \<open>auto simp: slik_handle_def slik_index_def slik_status_def slik_download_def slik_cancel_request_def
       split: if_split_asm sum.split_asm prod.split_asm\<close>)

lemma open_output_job:
  assumes "open_output uni exists now job_id owner view_all db = Inr stored" and "slik_get job_id owner view_all db = Inr j"
  shows "stored = job_id @ ''.output.xlsx''" and "job_available now j" and "exists stored"
  using assms
  by (auto simp: open_output_def slik_get_def safe_path_def find_Some_iff res_simps split: if_split_asm option.split_asm)

section \<open>The property\<close>

text \<open>
  C20. SLIK jobs are private to their owners. A request of a user without \<open>reporting.view_all\<close>, whatever it asks
  for, shows only jobs of that user, serves as a file only the output of a completed and unexpired job of that
  user, and leaves all job rows of other users and the account rows of all existing jobs as they were, also when it
  submits or cancels.
\<close>

theorem slik_owner_isolation:
  "\<not> request_views_all p \<and> slik_handle site w p request db = (r, db') \<longrightarrow>
     (\<forall>j \<in> set (shown_jobs r). j \<in> set (tb_jobs db) \<and> jb_owner_id j = request_owner p)
     \<and> (\<forall>name stored. r = SlikFile name stored \<longrightarrow>
          (\<exists>j \<in> set (own_rows (request_owner p) db). stored = jb_id j @ ''.output.xlsx'' \<and> name = ''slik_'' @ jb_as_of j @ ''.xlsx''
             \<and> jb_status j = COMPLETED \<and> (\<exists>t. jb_expires_at j = Some t \<and> sw_now w < t)))
     \<and> others_rows (request_owner p) db' = others_rows (request_owner p) db
     \<and> (\<forall>j \<in> set (tb_jobs db). accounts_of (jb_id j) db' = accounts_of (jb_id j) db)"
proof
  assume "\<not> request_views_all p \<and> slik_handle site w p request db = (r, db')"
  then have va: "request_views_all p = False" and h: "slik_handle site w p request db = (r, db')" by simp_all
  have "\<forall>j \<in> set (shown_jobs r). j \<in> set (tb_jobs db) \<and> jb_owner_id j = request_owner p"
    using slik_handle_shown [OF h] va by (auto dest: slik_history_owned slik_get_owned)
  moreover have "\<exists>j \<in> set (own_rows (request_owner p) db). stored = jb_id j @ ''.output.xlsx'' \<and> name = ''slik_'' @ jb_as_of j @ ''.xlsx''
       \<and> jb_status j = COMPLETED \<and> (\<exists>t. jb_expires_at j = Some t \<and> sw_now w < t)" if r: "r = SlikFile name stored" for name stored
  proof -
    from slik_handle_file [OF h [unfolded r]] obtain job_id j where g: "slik_get job_id (request_owner p) False db = Inr j"
      and n: "name = ''slik_'' @ jb_as_of j @ ''.xlsx''"
      and o: "open_output (ss_uni site) (sw_exists w) (sw_now w) job_id (request_owner p) False db = Inr stored" unfolding va by blast
    have "jb_status j = COMPLETED \<and> (\<exists>t. jb_expires_at j = Some t \<and> sw_now w < t)"
      using open_output_job(2) [OF o g] by (auto simp: job_available_def split: option.split_asm)
    moreover have "stored = jb_id j @ ''.output.xlsx''" "j \<in> set (own_rows (request_owner p) db)"
      using open_output_job(1) [OF o g] slik_get_owned [OF g] by (auto simp: own_rows_def)
    ultimately show ?thesis using n by blast
  qed
  moreover have "others_rows (request_owner p) db' = others_rows (request_owner p) db
      \<and> (\<forall>j \<in> set (tb_jobs db). accounts_of (jb_id j) db' = accounts_of (jb_id j) db)"
    using slik_handle_state [OF h] unfolding va by (auto simp: cancel_others create_others)
  ultimately show "(\<forall>j \<in> set (shown_jobs r). j \<in> set (tb_jobs db) \<and> jb_owner_id j = request_owner p)
     \<and> (\<forall>name stored. r = SlikFile name stored \<longrightarrow>
          (\<exists>j \<in> set (own_rows (request_owner p) db). stored = jb_id j @ ''.output.xlsx'' \<and> name = ''slik_'' @ jb_as_of j @ ''.xlsx''
             \<and> jb_status j = COMPLETED \<and> (\<exists>t. jb_expires_at j = Some t \<and> sw_now w < t)))
     \<and> others_rows (request_owner p) db' = others_rows (request_owner p) db
     \<and> (\<forall>j \<in> set (tb_jobs db). accounts_of (jb_id j) db' = accounts_of (jb_id j) db)" by blast
qed

section \<open>A sample\<close>

definition sample_viewer :: browser_principal where
  "sample_viewer = \<lparr>pr_user_id = 1, pr_username = ''ani'', pr_name = ''Ani'', pr_permissions = new_permission_set [permission_generate],
     pr_session_id = 3, pr_remember_me = False\<rparr>"

definition sample_site :: slik_site where
  "sample_site = \<lparr>ss_uni = id, ss_location = Some ''Asia/Jakarta'', ss_max_upload = 100\<rparr>"

definition sample_world :: slik_world where
  "sample_world = \<lparr>sw_reads = True, sw_writes = True, sw_exists = (\<lambda>_. True), sw_now = 9, sw_today = mk_date 2025 7 1\<rparr>"

text \<open>The finished job of user 1 beside a job of user 2.\<close>

definition sample_shared :: slik_db where
  "sample_shared = sample_finished\<lparr>tb_jobs := tb_jobs sample_finished @
     [(hd (tb_jobs sample_finished))\<lparr>jb_id := ''fedcba9876543210fedcba9876543210'', jb_owner_id := 2\<rparr>]\<rparr>"

theorem slik_owner_isolation_witness:
  "slik_handle sample_site sample_world (Some sample_viewer) (SlikDownloadRequest sample_token) sample_shared
     = (SlikFile ''slik_2025-06-30.xlsx'' (sample_token @ ''.output.xlsx''), sample_shared)
   \<and> slik_handle sample_site sample_world (Some sample_viewer) (SlikDownloadRequest ''fedcba9876543210fedcba9876543210'') sample_shared
     = (SlikMissing, sample_shared)
   \<and> (\<exists>j \<in> set (own_rows 1 sample_shared). jb_status j = COMPLETED)"
proof -
  have a: "slik_handle sample_site sample_world (Some sample_viewer) (SlikDownloadRequest sample_token) sample_shared
     = (SlikFile ''slik_2025-06-30.xlsx'' (sample_token @ ''.output.xlsx''), sample_shared)" by code_simp
  have b: "slik_handle sample_site sample_world (Some sample_viewer) (SlikDownloadRequest ''fedcba9876543210fedcba9876543210'') sample_shared
     = (SlikMissing, sample_shared)" by code_simp
  have "\<not> request_views_all (Some sample_viewer)" and o: "request_owner (Some sample_viewer) = 1" by code_simp+
  then show ?thesis
    using a b slik_owner_isolation [of "Some sample_viewer" sample_site sample_world "SlikDownloadRequest sample_token" sample_shared
        "SlikFile ''slik_2025-06-30.xlsx'' (sample_token @ ''.output.xlsx'')" sample_shared] unfolding o by blast
qed

end
