(* ===== verification/System_Pages.thy ===== *)
theory System_Pages
  imports Lps_Report Snapshot Navigation
begin

text \<open>
  The LPS page (\<open>src/internal/features/lps/handler.go\<close>), the snapshot page (\<open>snapshots/handler.go\<close>) and the pages of the
  audit history (\<open>auditlogs/handler.go\<close>, \<open>auditlogs/model.go\<close>), with the notices of \<open>src/internal/render/notice.go\<close> that
  redirects name. A page is the data its template is given.
\<close>

section \<open>LPS generation\<close>

datatype lps_response =
    LpsPage int lps_input string
  | LpsFile string "(string \<times> string) list"
  | LpsPlain int
  | LpsInternal string

text \<open>\<open>time.Parse("20060102")\<close> and \<open>Format(time.DateOnly)\<close>.\<close>

definition date_input_value :: "lps_input \<Rightarrow> string" where
  "date_input_value inp =
     (case time_parse_compact (li_reporting_date inp) of None \<Rightarrow> '''' | Some d \<Rightarrow> time_format_dashed d)"

definition lps_index :: "string \<Rightarrow> date \<Rightarrow> lps_response" where
  "lps_index default_code today =
     LpsPage 200 \<lparr>li_participant_code = default_code, li_reporting_date = time_format_compact (default_reporting_date today),
                  li_period = '''', li_version = ''''\<rparr> ''''"

text \<open>The input read from a form; a missing field is empty.\<close>

definition lps_form :: "(string \<Rightarrow> string) \<Rightarrow> lps_input" where
  "lps_form field =
     \<lparr>li_participant_code = trim_space (field ''participant_code''),
      li_reporting_date = remove_byte (CHR ''-'') (trim_space (field ''reporting_date'')),
      li_period = trim_space (field ''period''), li_version = trim_space (field ''version'')\<rparr>"

text \<open>What a request meets: the temporary file, the cancellation of the request, and the text of an error.\<close>

record lps_request_run =
  lq_file_ok :: bool
  lq_seek_ok :: bool
  lq_canceled :: "err \<Rightarrow> bool"
  lq_message :: "err \<Rightarrow> string"
  lq_insert_ok :: bool
  lq_now :: int

definition safe_generation_error :: "lps_request_run \<Rightarrow> err \<Rightarrow> string" where
  "safe_generation_error q e =
     (if lq_canceled q e then ''LPS generation was canceled.''
      else ''LPS generation failed because mandatory source data is unavailable or malformed. '' @ lq_message q e)"

definition lps_event :: "browser_principal \<Rightarrow> lps_input \<Rightarrow> lps_result \<Rightarrow> int \<Rightarrow> audit_event" where
  "lps_event p inp result now =
     \<lparr>ev_attribution = principal_attribution p, ev_action = ''lps.generate'', ev_resource = '''', ev_resource_id = 0,
      ev_metadata = Some (LPSReport (li_participant_code inp) (li_reporting_date inp)
                            (int (lr_dn_rows result + lr_dsn_rows result + lr_dk_rows result))),
      ev_created_at = now\<rparr>"

definition lps_generate_request ::
  "lps_sources \<Rightarrow> (audit_metadata \<Rightarrow> string) \<Rightarrow> lps_request_run \<Rightarrow> browser_principal option \<Rightarrow> form_parse \<Rightarrow> (string \<Rightarrow> string)
     \<Rightarrow> audit_row list \<Rightarrow> lps_response \<times> audit_row list" where
  "lps_generate_request src marshal q p parse field rows =
     (if parse \<noteq> FormOk then (LpsPlain 400, rows)
      else if \<not> lq_file_ok q then (LpsInternal ''create LPS artifact'', rows)
      else
        let inp = lps_form field in
        case generate src inp of
          Inl e \<Rightarrow> (LpsPage (if errors_is e ErrInvalidInput then 422 else 503) inp (safe_generation_error q e), rows)
        | Inr (result, files) \<Rightarrow>
            if \<not> lq_seek_ok q then (LpsInternal ''seek LPS artifact'', rows)
            else (case p of None \<Rightarrow> (LpsInternal ''audit LPS artifact'', rows)
              | Some pr \<Rightarrow>
                  (LpsFile (lr_filename result) files,
                   (case audit_append marshal (lq_insert_ok q) (lps_event pr inp result (lq_now q)) rows of
                      Inl _ \<Rightarrow> rows | Inr rows' \<Rightarrow> rows'))))"

section \<open>The snapshot page\<close>

datatype snapshot_response =
    SnapshotPage int refresh_status bool string
  | SnapshotRedirect string
  | SnapshotInternal string

definition permission_snapshot_refresh :: string where "permission_snapshot_refresh = ''snapshot.refresh''"

definition snapshot_index :: "bool \<Rightarrow> browser_principal option \<Rightarrow> snapshot_db \<Rightarrow> snapshot_response" where
  "snapshot_index status_ok p db =
     (if \<not> status_ok then SnapshotInternal ''read snapshot status''
      else SnapshotPage 200 (sd_status db) (case p of None \<Rightarrow> False | Some pr \<Rightarrow> principal_can pr permission_snapshot_refresh) '''')"

definition refresh_failed_text :: string where
  "refresh_failed_text = ''Snapshot refresh failed; the previous successful dataset was preserved.''"

definition snapshot_refresh_request ::
  "(audit_metadata \<Rightarrow> string) \<Rightarrow> refresh_run \<Rightarrow> bool \<Rightarrow> browser_principal option \<Rightarrow> snapshot_db \<Rightarrow> snapshot_response \<times> snapshot_db" where
  "snapshot_refresh_request marshal run status_ok p db =
     (case p of None \<Rightarrow> (SnapshotInternal ''manual snapshot refresh'', db)
      | Some pr \<Rightarrow>
          (case refresh marshal run TriggerManual (principal_attribution pr) db of
             (Inr _, db') \<Rightarrow> (SnapshotRedirect ''/snapshot?notice=snapshot-refreshed'', db')
           | (Inl e, db') \<Rightarrow>
               (if e = RefreshInProgress then SnapshotRedirect ''/snapshot?notice=snapshot-refresh-running''
                else if \<not> status_ok then SnapshotInternal ''read failed snapshot status''
                else SnapshotPage 503 (sd_status db') True refresh_failed_text, db')))"

section \<open>Notices\<close>

record notice =
  no_severity :: string
  no_title :: string
  no_message :: string

definition notices :: "(string \<times> notice) list" where
  "notices =
     [(''user-activated'', \<lparr>no_severity = ''success'', no_title = ''User activated'', no_message = ''The user can sign in again.''\<rparr>),
      (''user-deactivated'', \<lparr>no_severity = ''success'', no_title = ''User deactivated'', no_message = ''The user's THOR sessions were signed out.''\<rparr>),
      (''permissions-updated'', \<lparr>no_severity = ''success'', no_title = ''Permissions updated'', no_message = ''The user's explicit permissions were updated.''\<rparr>),
      (''user-status-updated'', \<lparr>no_severity = ''success'', no_title = ''Status updated'', no_message = ''The user's local THOR access was updated.''\<rparr>),
      (''snapshot-refreshed'', \<lparr>no_severity = ''success'', no_title = ''Snapshot refreshed'', no_message = ''Current-day positions were replaced successfully.''\<rparr>),
      (''snapshot-refresh-running'', \<lparr>no_severity = ''info'', no_title = ''Refresh already running'', no_message = ''Wait for the active snapshot refresh to finish.''\<rparr>)]"

definition notice_from_id :: "string \<Rightarrow> notice option" where
  "notice_from_id i = map_of notices i"

section \<open>Audit history pages\<close>

definition em_dash :: string where
  "em_dash = [CHR 0xE2, CHR 0x80, CHR 0x94]"

record identity_view =
  iw_label :: string
  iw_user_id :: "int option"
  iw_username :: string

text \<open>A NULL name is the empty name.\<close>

definition identity_view :: "string \<Rightarrow> bool \<Rightarrow> int option \<Rightarrow> string \<Rightarrow> identity_view" where
  "identity_view action actor user_id username =
     (if username \<noteq> '''' then \<lparr>iw_label = ''@'' @ username, iw_user_id = user_id, iw_username = username\<rparr>
      else if actor \<and> action = ''auth.registration'' then \<lparr>iw_label = ''Public'', iw_user_id = None, iw_username = ''''\<rparr>
      else if actor \<and> action = ''admin.bootstrap'' then \<lparr>iw_label = ''System'', iw_user_id = None, iw_username = ''''\<rparr>
      else \<lparr>iw_label = em_dash, iw_user_id = user_id, iw_username = ''''\<rparr>)"

definition null_text :: "string option \<Rightarrow> string" where
  "null_text s = (case s of None \<Rightarrow> '''' | Some t \<Rightarrow> t)"

definition record_actor :: "audit_row \<Rightarrow> identity_view" where
  "record_actor r = identity_view (al_action r) True (al_actor_user_id r) (null_text (al_actor_username r))"

definition record_effective :: "audit_row \<Rightarrow> identity_view" where
  "record_effective r = identity_view (al_action r) False (al_effective_user_id r) (null_text (al_effective_username r))"

definition resource_label :: "audit_row \<Rightarrow> string" where
  "resource_label r =
     (case al_resource_id r of
        Some i \<Rightarrow> if null_text (al_resource_type r) = '''' then em_dash else null_text (al_resource_type r) @ '' #'' @ itoa i
      | None \<Rightarrow> em_dash)"

text \<open>\<open>indent\<close> is \<open>json.Indent\<close>, which fails on a text that is not JSON.\<close>

definition metadata_text :: "(string \<Rightarrow> string option) \<Rightarrow> audit_row \<Rightarrow> string" where
  "metadata_text indent r =
     (let m = null_text (al_metadata r) in
      if m = '''' then em_dash else case indent m of Some pretty \<Rightarrow> pretty | None \<Rightarrow> m)"

datatype audit_response =
    AuditList "(int \<times> audit_row) list" string page_info string string
  | AuditShow audit_row
  | AuditMissing
  | AuditInternal string

definition audit_page_url :: "string \<Rightarrow> int \<Rightarrow> string" where
  "audit_page_url action page = page_url ''/audit-logs'' ''action'' action page"

definition audit_index :: "bool \<Rightarrow> string \<Rightarrow> string \<Rightarrow> access_db \<Rightarrow> audit_response" where
  "audit_index reads action page db =
     (if \<not> reads then AuditInternal ''list audit logs''
      else case audit_list action (query_page page) db of
        (rows, shown, p) \<Rightarrow> AuditList rows shown p (audit_page_url shown (pg_previous p)) (audit_page_url shown (pg_next p)))"

definition audit_show :: "bool \<Rightarrow> string \<Rightarrow> access_db \<Rightarrow> audit_response" where
  "audit_show reads raw_id db =
     (case route_id raw_id of None \<Rightarrow> AuditMissing
      | Some i \<Rightarrow>
          if \<not> reads then AuditInternal ''find audit log''
          else case audit_find i db of None \<Rightarrow> AuditMissing | Some r \<Rightarrow> AuditShow r)"

section \<open>Facts about the pages\<close>

lemma padded_digits: "length t = w \<Longrightarrow> list_all is_digit t \<Longrightarrow> 0 < w \<Longrightarrow> pad_zero w (itoa (int (digits_value t))) = t"
proof -
  assume l: "length t = w" and d: "list_all is_digit t" and w: "0 < w"
  have "int (digits_value t) < 10 ^ w" using digits_value_bound [OF d] l
    by (metis of_nat_less_iff of_nat_numeral of_nat_power)
  note f = text_of_field [OF _ this w]
  show ?thesis using f l d by (intro digits_text_unique) auto
qed

lemma compact_texts:
  assumes "time_parse_compact s = Some d"
  obtains y m e where "s = y @ m @ e" "time_format_compact d = s" "time_format_dashed d = y @ ''-'' @ m @ ''-'' @ e"
    "list_all is_digit (y @ m @ e)" "length y = 4" "length e = 2"
proof -
  let ?y = "take 4 s" and ?m = "take 2 (drop 4 s)" and ?e = "drop 6 s"
  from assms have l: "length s = 8" and c: "civil_of_texts ?y ?m ?e = Some d" by (auto simp: time_parse_compact_def split: if_split_asm)
  have s: "s = ?y @ ?m @ ?e" using append_take_drop_id [of 4 s] append_take_drop_id [of 2 "drop 4 s"] by simp
  from c have v: "year d = int (digits_value ?y)" "month d = int (digits_value ?m)" "day d = int (digits_value ?e)"
    and g: "list_all is_digit (?y @ ?m @ ?e)" and w: "length ?y = 4" "length ?m = 2" "length ?e = 2" by (simp_all add: civil_of_texts_Some)
  have g3: "list_all is_digit ?y" "list_all is_digit ?m" "list_all is_digit ?e" using g unfolding list_all_append by simp_all
  have p: "pad_zero 4 (itoa (year d)) = ?y" "pad_zero 2 (itoa (month d)) = ?m" "pad_zero 2 (itoa (day d)) = ?e"
    unfolding v by (rule padded_digits [OF w(1) g3(1)] padded_digits [OF w(2) g3(2)] padded_digits [OF w(3) g3(3)], simp)+
  have "time_format_compact d = s" "time_format_dashed d = ?y @ ''-'' @ ?m @ ''-'' @ ?e"
    unfolding time_format_compact_def time_format_dashed_def p using s by simp_all
  then show thesis using s g w by (intro that [of ?y ?m ?e]) simp_all
qed

lemma digits_no_dash: "list_all is_digit s \<Longrightarrow> CHR ''-'' \<notin> set s"
  by (auto simp: list_all_iff is_digit_def byte_def)

lemma remove_absent: "c \<notin> set s \<Longrightarrow> filter (\<lambda>x. x \<noteq> c) s = s"
  by (auto simp: filter_id_conv)

lemma dashed_input:
  assumes "time_parse_compact s = Some d"
  shows "trim_space (time_format_dashed d) = time_format_dashed d" and "remove_byte (CHR ''-'') (time_format_dashed d) = s"
proof -
  from assms obtain y m e where t: "s = y @ m @ e" "time_format_dashed d = y @ ''-'' @ m @ ''-'' @ e"
    "list_all is_digit (y @ m @ e)" "length y = 4" "length e = 2" by (rule compact_texts)
  have g: "list_all is_digit y" "list_all is_digit m" "list_all is_digit e" using t(3) by simp_all
  have ne: "y \<noteq> []" "e \<noteq> []" using t(4,5) by auto
  have "is_digit (hd y)" "is_digit (last e)" using g(1,3) ne by (auto simp: list_all_iff)
  then have "trimmed (y @ ''-'' @ m @ ''-'' @ e)"
    using ne by (intro graphic_ends_trimmed) (auto simp: is_digit_def)
  then show "trim_space (time_format_dashed d) = time_format_dashed d" by (simp add: t(2) trim_space_trimmed)
  show "remove_byte (CHR ''-'') (time_format_dashed d) = s"
    using g [THEN digits_no_dash] by (simp add: t(1,2) remove_byte_def remove_absent)
qed

lemma compact_format:
  assumes "civil d" and "0 \<le> year d" and "year d \<le> 9999"
  shows "time_parse_compact (time_format_compact d) = Some d"
proof -
  note b = civil_bounds [OF assms(1)]
  have y: "0 \<le> year d" "year d < 10 ^ 4" and m: "0 \<le> month d" "month d < 10 ^ 2" and d: "0 \<le> day d" "day d < 10 ^ 2"
    using b assms by auto
  note ty = text_of_field [OF y] and tm = text_of_field [OF m] and td = text_of_field [OF d]
  show ?thesis
    using ty tm td assms(1) by (simp add: time_parse_compact_def time_format_compact_def civil_of_texts_def Let_def)
qed

lemma default_reporting_calendar:
  assumes "calendar today" and "1 \<le> year today"
  shows "calendar (default_reporting_date today)"
proof -
  have "year today - 1 \<le> year (default_reporting_date today) \<and> year (default_reporting_date today) \<le> year today"
    by (auto simp: default_reporting_date_def prev_day_def mk_date_def)
  then show ?thesis
    using assms default_reporting_date_spec(1) [of today] by (auto simp: calendar_def month_end_def)
qed

section \<open>Properties\<close>

text \<open>The fields as the page carries them.\<close>

definition page_fields :: "lps_input \<Rightarrow> string \<Rightarrow> string" where
  "page_fields inp name =
     (if name = ''participant_code'' then li_participant_code inp else if name = ''reporting_date'' then date_input_value inp
      else if name = ''period'' then li_period inp else if name = ''version'' then li_version inp else '''')"

text \<open>
  The LPS form keeps its input: when a request fails and its reporting date was a date, submitting the fields of
  the returned page again reads back the same input, and the date on the first page is read back as the default
  reporting date, which the generator's own parser accepts.
\<close>

theorem lps_form_round_trip:
  "(fst (lps_generate_request src marshal q p parse field rows) = LpsPage status inp message
      \<and> time_parse_compact (li_reporting_date inp) \<noteq> None \<longrightarrow>
      inp = lps_form field \<and> lps_form (page_fields inp) = inp \<and> status \<in> {422, 503}
      \<and> snd (lps_generate_request src marshal q p parse field rows) = rows)
   \<and> (calendar today \<and> 1 \<le> year today \<and> lps_index code today = LpsPage status0 inp0 message0 \<longrightarrow>
      time_parse_compact (li_reporting_date (lps_form (page_fields inp0))) = Some (default_reporting_date today))"
proof (intro conjI impI)
  assume "fst (lps_generate_request src marshal q p parse field rows) = LpsPage status inp message
    \<and> time_parse_compact (li_reporting_date inp) \<noteq> None"
  then obtain d where r: "fst (lps_generate_request src marshal q p parse field rows) = LpsPage status inp message"
    and d: "time_parse_compact (li_reporting_date inp) = Some d" by blast
  from r show inp: "inp = lps_form field"
    by (auto simp: lps_generate_request_def Let_def split: if_split_asm sum.split_asm prod.split_asm option.split_asm)
  show "status \<in> {422, 503}" "snd (lps_generate_request src marshal q p parse field rows) = rows"
    using r by (auto simp: lps_generate_request_def Let_def split: if_split_asm sum.split_asm prod.split_asm option.split_asm)
  have "lps_form (page_fields inp) = \<lparr>li_participant_code = trim_space (li_participant_code inp),
     li_reporting_date = li_reporting_date inp, li_period = trim_space (li_period inp), li_version = trim_space (li_version inp)\<rparr>"
    using dashed_input [OF d] by (simp add: lps_form_def page_fields_def date_input_value_def d)
  then show "lps_form (page_fields inp) = inp" by (simp add: inp lps_form_def)
next
  assume a: "calendar today \<and> 1 \<le> year today \<and> lps_index code today = LpsPage status0 inp0 message0"
  let ?d = "default_reporting_date today"
  have c: "calendar ?d" using a by (intro default_reporting_calendar) simp_all
  have p: "time_parse_compact (time_format_compact ?d) = Some ?d" using c by (intro compact_format) (auto simp: calendar_def)
  have "li_reporting_date inp0 = time_format_compact ?d" using a by (auto simp: lps_index_def)
  then show "time_parse_compact (li_reporting_date (lps_form (page_fields inp0))) = Some ?d"
    using dashed_input [OF p] by (simp add: lps_form_def page_fields_def date_input_value_def p)
qed

lemma snapshot_audit_rows:
  "\<exists>new. sd_audit (snapshot_audit marshal ok att action m now db) = sd_audit db @ new
     \<and> (\<forall>a \<in> set new. al_actor_user_id a = map_option idt_user_id (att_actor att))"
  by (auto simp: snapshot_audit_def audit_append_def res_simps audit_row_of_def Let_def split: sum.split if_split_asm)

lemma mark_audit [simp]: "sd_audit (mark_attempt now db) = sd_audit db" "sd_audit (mark_failure now summary db) = sd_audit db"
  by (simp_all add: mark_attempt_def mark_failure_def)

lemma replace_all_audit: "replace_all accepts commits now ps db = Inr db' \<Longrightarrow> sd_audit db' = sd_audit db"
  by (auto simp: replace_all_def res_simps split: if_split_asm)

text \<open>All rows a refresh logs are on the user of its attribution.\<close>

definition logged_by :: "int option \<Rightarrow> snapshot_db \<Rightarrow> snapshot_db \<Rightarrow> bool" where
  "logged_by actor db db' \<longleftrightarrow> (\<exists>new. sd_audit db' = sd_audit db @ new \<and> (\<forall>a \<in> set new. al_actor_user_id a = actor))"

lemma logged_by_trans: "logged_by u a b \<Longrightarrow> logged_by u b c \<Longrightarrow> logged_by u a c"
  by (fastforce simp: logged_by_def)

lemma logged_by_audit: "logged_by (map_option idt_user_id (att_actor att)) db (snapshot_audit marshal ok att action m now db)"
  using snapshot_audit_rows [of marshal ok att action m now db] by (simp add: logged_by_def)

lemma logged_by_eq: "sd_audit db' = sd_audit db \<Longrightarrow> logged_by u db db'"
  by (simp add: logged_by_def)

lemma refresh_logged: "logged_by (map_option idt_user_id (att_actor att)) db (snd (refresh marshal run trg att db))"
proof (cases "rr_lock run = LockHeld \<and> rr_attempt_ok run")
  case False
  then show ?thesis using refresh_unlocked [of run marshal trg att db] by (auto intro: logged_by_eq)
next
  case True
  let ?u = "map_option idt_user_id (att_actor att)"
  define db1 where "db1 = snapshot_audit marshal (rr_audit_ok run) att ''snapshot.refresh.started''
    (SnapshotRefresh (trigger_text trg) 0 '''') (rr_clock run 0) (mark_attempt (rr_clock run 0) db)"
  have 1: "logged_by ?u db db1"
    unfolding db1_def by (rule logged_by_trans [OF logged_by_eq logged_by_audit]) simp
  have lost: "logged_by ?u db (snapshot_audit marshal ok att action m now (mark_failure t summary db1))" for ok action m now t summary
    by (rule logged_by_trans [OF logged_by_trans [OF 1 logged_by_eq] logged_by_audit]) simp
  have unmarked: "logged_by ?u db (snapshot_audit marshal ok att action m now db1)" for ok action m now
    by (rule logged_by_trans [OF 1 logged_by_audit])
  have succeed: "logged_by ?u db (snapshot_audit marshal ok att action m now db2)" if "replace_all accepts commits t ps db1 = Inr db2"
    for ok action m now accepts commits t ps db2
    by (rule logged_by_trans [OF logged_by_trans [OF 1 logged_by_eq] logged_by_audit]) (rule replace_all_audit [OF that])
  show ?thesis
    using True lost unmarked succeed
    by (simp add: refresh_def Let_def flip: db1_def split: sum.split prod.split) (auto simp: res_simps)
qed

text \<open>
  The refresh button tells the truth. The notice of a successful refresh is shown exactly when the table now holds
  the rows of the report, with their number as the recorded count; after every other answer the rows and the
  recorded last success are as before, the notice of a running refresh is shown only when another refresh
  held the lock and nothing changed, every notice a redirect names is defined, and all rows
  added to the audit log name the user who pressed the button.
\<close>

theorem snapshot_button:
  "snapshot_refresh_request marshal run status_ok (Some p) db = (r, db') \<longrightarrow>
     (r = SnapshotRedirect ''/snapshot?notice=snapshot-refreshed'' \<longrightarrow>
        (\<exists>ps. rr_report run (rr_today run) = Inr ps \<and> validate_rows ps (rr_today run) = Inr ()
           \<and> map (\<lambda>(row, _). Some row) (sd_rows db') = map stored_row ps \<and> rs_row_count (sd_status db') = int (length ps)))
     \<and> (r \<noteq> SnapshotRedirect ''/snapshot?notice=snapshot-refreshed'' \<longrightarrow>
          sd_rows db' = sd_rows db \<and> rs_successful_at (sd_status db') = rs_successful_at (sd_status db))
     \<and> (r = SnapshotRedirect ''/snapshot?notice=snapshot-refresh-running'' \<longrightarrow> rr_lock run = LockBusy \<and> db' = db)
     \<and> (\<forall>target. r = SnapshotRedirect target \<longrightarrow> (\<exists>i. target = ''/snapshot?notice='' @ i \<and> notice_from_id i \<noteq> None))
     \<and> logged_by (Some (pr_user_id p)) db db'"
proof
  assume h: "snapshot_refresh_request marshal run status_ok (Some p) db = (r, db')"
  obtain out db2 where o: "refresh marshal run TriggerManual (principal_attribution p) db = (out, db2)" by fastforce
  have db2: "db2 = db'" using h o by (auto simp: snapshot_refresh_request_def split: sum.split_asm)
  have log: "logged_by (Some (pr_user_id p)) db db'"
    using refresh_logged [of "principal_attribution p" db marshal run TriggerManual] o
    by (simp add: principal_attribution_def db2 Let_def)
  have known: "\<exists>i. target = ''/snapshot?notice='' @ i \<and> notice_from_id i \<noteq> None" if "r = SnapshotRedirect target" for target
  proof -
    have "target = ''/snapshot?notice='' @ ''snapshot-refreshed'' \<or> target = ''/snapshot?notice='' @ ''snapshot-refresh-running''"
      using h that by (auto simp: snapshot_refresh_request_def split: sum.split_asm prod.split_asm if_split_asm)
    moreover have "notice_from_id ''snapshot-refreshed'' \<noteq> None" "notice_from_id ''snapshot-refresh-running'' \<noteq> None" by code_simp+
    ultimately show ?thesis by blast
  qed
  show "(r = SnapshotRedirect ''/snapshot?notice=snapshot-refreshed'' \<longrightarrow>
        (\<exists>ps. rr_report run (rr_today run) = Inr ps \<and> validate_rows ps (rr_today run) = Inr ()
           \<and> map (\<lambda>(row, _). Some row) (sd_rows db') = map stored_row ps \<and> rs_row_count (sd_status db') = int (length ps)))
     \<and> (r \<noteq> SnapshotRedirect ''/snapshot?notice=snapshot-refreshed'' \<longrightarrow>
          sd_rows db' = sd_rows db \<and> rs_successful_at (sd_status db') = rs_successful_at (sd_status db))
     \<and> (r = SnapshotRedirect ''/snapshot?notice=snapshot-refresh-running'' \<longrightarrow> rr_lock run = LockBusy \<and> db' = db)
     \<and> (\<forall>target. r = SnapshotRedirect target \<longrightarrow> (\<exists>i. target = ''/snapshot?notice='' @ i \<and> notice_from_id i \<noteq> None))
     \<and> logged_by (Some (pr_user_id p)) db db'"
  proof (cases out)
    case (Inl e)
    have r: "r = (if e = RefreshInProgress then SnapshotRedirect ''/snapshot?notice=snapshot-refresh-running''
        else if \<not> status_ok then SnapshotInternal ''read failed snapshot status'' else SnapshotPage 503 (sd_status db') True refresh_failed_text)"
      using h o db2 by (simp add: snapshot_refresh_request_def Inl)
    have busy: "rr_lock run = LockBusy \<and> db' = db" if "e = RefreshInProgress"
      using o that db2 by (auto simp: refresh_def Let_def Inl split: lock_outcome.split_asm if_split_asm sum.split_asm prod.split_asm)
    show ?thesis using refresh_Inl [OF o [unfolded Inl]] busy known log db2 by (simp add: r)
  next
    case (Inr n)
    from o have "refresh marshal run TriggerManual (principal_attribution p) db = (Inr n, db2)" by (simp add: Inr)
    then obtain ps where ps: "rr_report run (rr_today run) = Inr ps" "validate_rows ps (rr_today run) = Inr ()" "n = int (length ps)"
      "sd_rows db2 = map (\<lambda>p. (the (stored_row p), rr_clock run 1)) ps" "None \<notin> stored_row ` set ps" "rs_row_count (sd_status db2) = n"
      by (rule refresh_Inr) simp
    have "map (\<lambda>(row, _). Some row) (sd_rows db2) = map stored_row ps"
      using ps(5) by (simp add: ps(4)) (metis image_eqI option.collapse)
    moreover have "r = SnapshotRedirect ''/snapshot?notice=snapshot-refreshed''" using h o by (simp add: snapshot_refresh_request_def Inr)
    ultimately show ?thesis using ps known log db2 by simp
  qed
qed

section \<open>Samples\<close>

definition sample_officer :: browser_principal where
  "sample_officer = \<lparr>pr_user_id = 4, pr_username = ''rina'', pr_name = ''Rina'', pr_permissions = new_permission_set [''lps.generate''],
     pr_session_id = 3, pr_remember_me = False\<rparr>"

definition sample_attempt :: lps_request_run where
  "sample_attempt = \<lparr>lq_file_ok = True, lq_seek_ok = True, lq_canceled = (\<lambda>_. False), lq_message = (\<lambda>_. ''''), lq_insert_ok = True, lq_now = 9\<rparr>"

definition sample_fields :: "string \<Rightarrow> string" where
  "sample_fields name =
     (if name = ''participant_code'' then '' 1234'' else if name = ''reporting_date'' then ''2026-06-30 ''
      else if name = ''period'' then ''M'' else if name = ''version'' then ''R'' else '''')"

theorem snapshot_button_witness:
  "\<exists>db'. snapshot_refresh_request (\<lambda>_. '''') Snapshot.sample_run True (Some sample_officer) new_snapshot_db
       = (SnapshotRedirect ''/snapshot?notice=snapshot-refreshed'', db')
     \<and> rs_row_count (sd_status db') = 1 \<and> logged_by (Some 4) new_snapshot_db db'"
proof -
  obtain db' where "refresh (\<lambda>_. '''') Snapshot.sample_run TriggerManual (principal_attribution sample_officer) new_snapshot_db = (Inr 1, db')"
    using Snapshot.sample_refresh by blast
  then have h: "snapshot_refresh_request (\<lambda>_. '''') Snapshot.sample_run True (Some sample_officer) new_snapshot_db
      = (SnapshotRedirect ''/snapshot?notice=snapshot-refreshed'', db')" by (simp add: snapshot_refresh_request_def)
  have report: "rr_report Snapshot.sample_run (rr_today Snapshot.sample_run) = Inr [sample_position]"
    by (simp add: Snapshot.sample_run_def fetch_positions_def sample_parse)
  have "pr_user_id sample_officer = 4" by (simp add: sample_officer_def)
  then show ?thesis
    using h report snapshot_button [of "\<lambda>_. ''''" Snapshot.sample_run True sample_officer new_snapshot_db _ db'] by auto
qed

theorem lps_form_round_trip_witness:
  "\<exists>message. fst (lps_generate_request sample_sources (\<lambda>_. '''') sample_attempt (Some sample_officer) FormOk sample_fields [])
       = LpsPage 422 (lps_form sample_fields) message
     \<and> li_reporting_date (lps_form sample_fields) = ''20260630'' \<and> lps_form (page_fields (lps_form sample_fields)) = lps_form sample_fields"
proof -
  have f: "lps_form sample_fields = \<lparr>li_participant_code = ''1234'', li_reporting_date = ''20260630'', li_period = ''M'', li_version = ''R''\<rparr>"
    by code_simp
  have g: "generate sample_sources (lps_form sample_fields) = Inl [ErrInvalidInput]"
    unfolding f generate_def lps_validate_def by (simp add: lps_digits_def rbind_def)
  have e: "errors_is [ErrInvalidInput] ErrInvalidInput" by code_simp
  have h: "fst (lps_generate_request sample_sources (\<lambda>_. '''') sample_attempt (Some sample_officer) FormOk sample_fields [])
      = LpsPage 422 (lps_form sample_fields) (safe_generation_error sample_attempt [ErrInvalidInput])"
    by (simp add: lps_generate_request_def g e sample_attempt_def)
  have t: "time_parse_compact ''20260630'' \<noteq> None" by code_simp
  have r: "lps_form (page_fields (lps_form sample_fields)) = lps_form sample_fields"
    using lps_form_round_trip [of sample_sources "\<lambda>_. ''''" sample_attempt "Some sample_officer" FormOk sample_fields "[]"] h t
    by (simp add: f)
  show ?thesis using h r f by simp
qed

end
