(* ===== verification/Loan_Api.thy ===== *)
theory Loan_Api
  imports Position Audit_Log Go_Text
begin

text \<open>
  The loan endpoint, \<open>src/internal/api/handler.go\<close>: the bearer key, the request for a contractual position, the classes of
  errors, the repayment history and the audit event of every request that passed the key. A response body is the record
  of its fields; an amount is the text of its JSON number. SHA-256 is a parameter.
\<close>

section \<open>Authentication\<close>

definition bearer_key :: "string list \<Rightarrow> string option" where
  "bearer_key headers =
     (case headers of
        [h] \<Rightarrow>
          (case cut_byte (CHR '' '') h of (scheme, key, found) \<Rightarrow>
             if \<not> found \<or> \<not> equal_fold scheme ''Bearer'' \<or> key = ''''
                \<or> list_ex (\<lambda>c. c \<in> set [CHR '' '', CHR 0x09, CHR 0x0D, CHR 0x0A]) key
             then None else Some key)
      | _ \<Rightarrow> None)"

definition api_authenticated :: "(string \<Rightarrow> string) \<Rightarrow> string \<Rightarrow> string list \<Rightarrow> bool" where
  "api_authenticated sha key headers =
     (case bearer_key headers of None \<Rightarrow> False | Some supplied \<Rightarrow> sha supplied = sha key)"

section \<open>Responses\<close>

record repayment_response =
  rr_payment_date :: string
  rr_principal :: string
  rr_interest :: string
  rr_penalty :: string
  rr_early_penalty :: string
  rr_dwp :: string
  rr_total_payment :: string
  rr_journal_number :: string

record contractual_response =
  co_requested_account :: string
  co_primary_account :: string
  co_as_of :: string
  co_contract_rate :: string
  co_outstanding :: string
  co_source :: "position_source option"
  co_repayments :: "repayment_response list"

datatype api_response = ApiError int string | ApiOk contractual_response

definition money_number :: "money \<Rightarrow> string" where
  "money_number m = money_format 2 m"

definition position_error :: "err \<Rightarrow> int \<times> string" where
  "position_error e =
     (if errors_is e ErrInvalidInput then (400, ''bad_request'')
      else if errors_is e ErrAmbiguousAccountResolution then (409, ''ambiguous_account'')
      else if errors_is e ErrUnsupportedCalculation then (422, ''unsupported_calculation'')
      else if list_ex (errors_is e) [ErrHistoricalEvidence, ErrCurrentSnapshot, ErrFincloudCredentials, ErrFincloudSession,
                ErrFincloudUnavailable, ErrDWHUnavailable, ErrMSOUnavailable] then (503, ''service_unavailable'')
      else if errors_is e ErrNotFound then (404, ''not_found'')
      else (500, ''internal_error''))"

text \<open>The stable sort by date and source order; the comparison of dates is by their days.\<close>

definition api_history :: "repayment list \<Rightarrow> repayment list" where
  "api_history = sort_key (\<lambda>p. (date_key (rp_date p), rp_source_order p))"

definition repayment_view :: "repayment \<Rightarrow> repayment_response" where
  "repayment_view p =
     \<lparr>rr_payment_date = date_string (rp_date p), rr_principal = money_number (rp_principal_component p),
      rr_interest = money_number (rp_interest_component p), rr_penalty = money_number (rp_penalty_component p),
      rr_early_penalty = money_number (rp_early_penalty_component p), rr_dwp = money_number (rp_dwp_component p),
      rr_total_payment = money_number (rp_total_payment p), rr_journal_number = rp_journal_number p\<rparr>"

definition contractual_view :: "string \<Rightarrow> date \<Rightarrow> resolved_position \<Rightarrow> contractual_response" where
  "contractual_view account as_of r =
     \<lparr>co_requested_account = account, co_primary_account = cd_primary_account (res_loan r), co_as_of = date_string as_of,
      co_contract_rate = money_number (cd_flat_rate_percent (res_loan r)),
      co_outstanding = money_number (lp_principal_outstanding (res_position r)), co_source = lp_source (res_position r),
      co_repayments = map repayment_view (api_history (cd_repayments (res_loan r)))\<rparr>"

section \<open>The handler\<close>

text \<open>The audit event of a lookup; \<open>as_of\<close> is the zero date while the request is not accepted.\<close>

definition api_audit :: "string \<Rightarrow> string \<Rightarrow> date \<Rightarrow> string \<Rightarrow> string \<Rightarrow> int \<Rightarrow> audit_event" where
  "api_audit account primary as_of outcome request_id now =
     \<lparr>ev_attribution = \<lparr>att_actor = None, att_effective = None, att_system_actor = ''system:api''\<rparr>,
      ev_action = ''api.loan_lookup'', ev_resource = '''', ev_resource_id = 0,
      ev_metadata = Some (APILoanLookup account primary (date_string as_of) outcome request_id), ev_created_at = now\<rparr>"

text \<open>The date of a request: one value, in the form the program prints itself.\<close>

definition api_date :: "location \<Rightarrow> string \<Rightarrow> string list \<Rightarrow> date option" where
  "api_date loc account dates =
     (case dates of
        [raw] \<Rightarrow>
          if account = '''' then None
          else (case parse_date raw loc of Inl _ \<Rightarrow> None
            | Inr d \<Rightarrow> if date_string d \<noteq> raw \<or> length raw \<noteq> 10 then None else Some d)
      | _ \<Rightarrow> None)"

text \<open>\<open>contractual\<close>: the response and the event of the deferred audit.\<close>

definition api_contractual ::
  "(string \<Rightarrow> date \<Rightarrow> resolved_position res) \<Rightarrow> location \<Rightarrow> date \<Rightarrow> string \<Rightarrow> int \<Rightarrow> string \<Rightarrow> string list \<Rightarrow> api_response \<times> audit_event" where
  "api_contractual lookup loc today request_id now param dates =
     (let account = trim_space param;
          event = (\<lambda>primary as_of outcome. api_audit account primary as_of outcome request_id now) in
      case api_date loc account dates of
        None \<Rightarrow> (ApiError 400 ''bad_request'', event '''' zero_date ''bad_request'')
      | Some as_of \<Rightarrow>
          if date_after as_of today then (ApiError 400 ''bad_request'', event '''' as_of ''bad_request'')
          else (case lookup account as_of of
             Inl e \<Rightarrow> (case position_error e of (status, code) \<Rightarrow> (ApiError status code, event '''' as_of code))
           | Inr r \<Rightarrow> (ApiOk (contractual_view account as_of r), event (cd_primary_account (res_loan r)) as_of ''success'')))"

text \<open>A request: the key first; a failed append of the event is logged and does not change the answer.\<close>

record api_handler =
  ah_lookup :: "string \<Rightarrow> date \<Rightarrow> resolved_position res"
  ah_location :: location
  ah_key :: string
  ah_sha :: "string \<Rightarrow> string"
  ah_marshal :: "audit_metadata \<Rightarrow> string"

definition api_request ::
  "api_handler \<Rightarrow> date \<Rightarrow> string \<Rightarrow> int \<Rightarrow> bool \<Rightarrow> string list \<Rightarrow> string \<Rightarrow> string list \<Rightarrow> audit_row list \<Rightarrow> api_response \<times> audit_row list" where
  "api_request h today request_id now insert_ok headers param dates rows =
     (if \<not> api_authenticated (ah_sha h) (ah_key h) headers then (ApiError 401 ''unauthorized'', rows)
      else
        (case api_contractual (ah_lookup h) (ah_location h) today request_id now param dates of
           (response, event) \<Rightarrow>
             (response, case audit_append (ah_marshal h) insert_ok event rows of Inl _ \<Rightarrow> rows | Inr rows' \<Rightarrow> rows')))"

definition response_status :: "api_response \<Rightarrow> int" where
  "response_status r = (case r of ApiError status _ \<Rightarrow> status | ApiOk _ \<Rightarrow> 200)"

definition response_outcome :: "api_response \<Rightarrow> string" where
  "response_outcome r = (case r of ApiError _ code \<Rightarrow> code | ApiOk _ \<Rightarrow> ''success'')"

section \<open>Properties of the endpoint\<close>

lemma api_date_Some:
  "api_date loc account dates = Some d \<Longrightarrow>
     dates = [date_string d] \<and> parse_date (date_string d) loc = Inr d \<and> length (date_string d) = 10 \<and> account \<noteq> ''''"
  by (auto simp: api_date_def split: list.split_asm if_split_asm sum.split_asm)

lemma api_audit_row:
  assumes "now \<noteq> 0" and "ev_metadata (api_audit account primary d outcome request_id now) = Some m"
  shows "audit_append marshal True (api_audit account primary d outcome request_id now) rows =
      (if int (length (marshal m)) \<le> max_metadata_bytes
       then Inr (rows @ [audit_row_of (api_audit account primary d outcome request_id now) (Some (marshal m))]) else Inl MetadataTooLarge)"
  using assms
  by (simp add: audit_append_def audit_check_def api_audit_def known_action_def known_actions_def validate_identity_def
      rbind_def)

lemma api_contractual_cases:
  assumes "api_contractual lookup loc today request_id now param dates = (response, event)"
  shows "(\<exists>primary d. event = api_audit (trim_space param) primary d (response_outcome response) request_id now)
    \<and> (\<forall>c. response = ApiOk c \<longrightarrow>
        (\<exists>d r. dates = [date_string d] \<and> parse_date (date_string d) loc = Inr d \<and> \<not> date_after d today
          \<and> trim_space param \<noteq> '''' \<and> lookup (trim_space param) d = Inr r \<and> c = contractual_view (trim_space param) d r))"
proof (cases "api_date loc (trim_space param) dates")
  case None
  then have "response = ApiError 400 ''bad_request''" "event = api_audit (trim_space param) '''' zero_date ''bad_request'' request_id now"
    using assms by (simp_all add: api_contractual_def Let_def)
  then show ?thesis by (auto simp: response_outcome_def)
next
  case (Some d)
  note date = api_date_Some [OF Some]
  show ?thesis
  proof (cases "date_after d today")
    case True
    then have "response = ApiError 400 ''bad_request''" "event = api_audit (trim_space param) '''' d ''bad_request'' request_id now"
      using assms Some by (simp_all add: api_contractual_def Let_def)
    then show ?thesis by (auto simp: response_outcome_def)
  next
    case False
    show ?thesis
    proof (cases "lookup (trim_space param) d")
      case (Inl e)
      then have "response = ApiError (fst (position_error e)) (snd (position_error e))"
        "event = api_audit (trim_space param) '''' d (snd (position_error e)) request_id now"
        using assms Some False by (simp_all add: api_contractual_def Let_def split: prod.split_asm)
      then show ?thesis by (auto simp: response_outcome_def)
    next
      case (Inr r)
      then have "response = ApiOk (contractual_view (trim_space param) d r)"
        "event = api_audit (trim_space param) (cd_primary_account (res_loan r)) d ''success'' request_id now"
        using assms Some False by (simp_all add: api_contractual_def Let_def)
      then show ?thesis using date False Inr by (auto simp: response_outcome_def)
    qed
  qed
qed


text \<open>A request for the sample loan.\<close>

definition sample_handler :: api_handler where
  "sample_handler =
     \<lparr>ah_lookup = get_loan_position sample_service, ah_location = Some ''Asia/Jakarta'', ah_key = ''k1'', ah_sha = id, ah_marshal = (\<lambda>_. ''{}'')\<rparr>"

lemma get_loan_position_trimmed: "get_loan_position svc (trim_space account) d = get_loan_position svc account d"
  by (simp add: get_loan_position_def resolve_position_def)

lemma sample_api_facts:
  "api_authenticated id ''k1'' [''bearer k1'']" "trim_space '' P1'' = ''P1''"
  "api_date (Some ''Asia/Jakarta'') ''P1'' [''2025-12-31''] = Some (mk_date 2025 12 31)"
  "\<not> date_after (mk_date 2025 12 31) (mk_date 2026 1 5)"
  by code_simp+


end
