(* ===== verification/Loan_Pages.thy ===== *)
theory Loan_Pages
  imports Loan_Api Browser_Auth Fincloud_Loan
begin

text \<open>
  The loan inquiry page, \<open>src/internal/features/loaninquiry/handler.go\<close>, and the request for its print-out,
  \<open>pdf.go\<close>: the form, the view built from a resolved position (amounts, dates, schedule, installment summary, print link), the
  answers to errors, the audit event, and the name of the PDF file. Drawing the pages is the work of the PDF library.
\<close>

section \<open>Texts of the view\<close>

definition month_names :: "string list" where
  "month_names = [''Jan'', ''Feb'', ''Mar'', ''Apr'', ''May'', ''Jun'', ''Jul'', ''Aug'', ''Sep'', ''Oct'', ''Nov'', ''Dec'']"

text \<open>The dates of the program are civil, so the month is in range.\<close>

definition format_date :: "date \<Rightarrow> string" where
  "format_date d =
     (if date_is_zero d then ''-''
      else pad_zero 2 (itoa (day d)) @ '' '' @ month_names ! nat (month d - 1) @ '' '' @ pad_zero 4 (itoa (year d)))"

function insert_commas :: "nat \<Rightarrow> string \<Rightarrow> string" where
  "insert_commas i s = (if 0 < i then insert_commas (i - 3) (take i s @ '','' @ drop i s) else s)"
  by pat_completeness auto
termination
  by (relation "measure fst") auto

declare insert_commas.simps [simp del]

definition format_currency :: "money \<Rightarrow> string" where
  "format_currency m =
     (case cut_byte (CHR ''.'') (money_format 2 m) of (i, decimal, _) \<Rightarrow>
        let (sign, digits) = (if prefix ''-'' i then (''-'', drop 1 i) else ('''', i)) in
        ''Rp '' @ sign @ insert_commas (length digits - 3) digits @ ''.'' @ decimal)"

definition format_rate :: "money \<Rightarrow> string" where
  "format_rate m = money_format 2 m @ ''%''"

definition display_text :: "string \<Rightarrow> string" where
  "display_text v = (if trim_space v \<noteq> '''' then trim_space v else ''-'')"

definition first_non_empty :: "string list \<Rightarrow> string" where
  "first_non_empty vs = (case find (\<lambda>v. trim_space v \<noteq> '''') vs of None \<Rightarrow> '''' | Some v \<Rightarrow> v)"

section \<open>The view\<close>

record schedule_row_view =
  sw_number :: int
  sw_date :: string
  sw_installment :: string
  sw_principal :: string
  sw_interest :: string
  sw_outstanding :: string
  sw_status :: string

record result_view =
  rv_reporting_date :: string
  rv_period_label :: string
  rv_customer_name :: string
  rv_primary_account :: string
  rv_alternate_account :: string
  rv_branch :: string
  rv_product :: string
  rv_loan_period :: string
  rv_installment_summary :: string
  rv_principal_outstanding :: string
  rv_principal_due :: string
  rv_interest_due :: string
  rv_penalty_due :: string
  rv_contract_principal :: string
  rv_reference_rate :: string
  rv_flat_rate :: string
  rv_collectability :: string
  rv_early_termination :: string
  rv_is_reconstructed :: bool
  rv_print_url :: string
  rv_schedule_rows :: "schedule_row_view list"

definition schedule_evidence :: "resolved_position \<Rightarrow> contractual_installment_evidence list" where
  "schedule_evidence r = (case cd_contract_schedule_evidence (res_loan r) of None \<Rightarrow> [] | Some es \<Rightarrow> es)"

text \<open>\<open>loanStartDate\<close>: the date of the first readable row of installment 0.\<close>

fun evidence_start :: "contractual_installment_evidence list \<Rightarrow> date" where
  "evidence_start [] = zero_date"
| "evidence_start (e # es) =
     (if ie_number e \<noteq> 0 then evidence_start es
      else (case parse_date (take 10 (trim_space (ie_raw_due_date e))) (Some ''UTC'') of
              Inr d \<Rightarrow> d | Inl _ \<Rightarrow> evidence_start es))"

definition loan_start_date :: "resolved_position \<Rightarrow> date" where
  "loan_start_date r =
     (if \<not> date_is_zero (lp_loan_start_date (res_position r)) then lp_loan_start_date (res_position r)
      else evidence_start (schedule_evidence r))"

definition contractual_due_dates :: "resolved_position \<Rightarrow> date list" where
  "contractual_due_dates r =
     (if res_contractual_schedule r \<noteq> [] then map sr_due_date (res_contractual_schedule r)
      else map ci_due_date (cd_contract_schedule (res_loan r)))"

text \<open>The installment of the early-termination estimate: principal and interest of a period.\<close>

definition period_amounts :: "resolved_position \<Rightarrow> (money \<times> money) res" where
  "period_amounts r =
     (if lp_source (res_position r) = Some SourceReconstructed
      then (case res_contractual_schedule r of
              [] \<Rightarrow> Inl [ErrInvariant] | row # _ \<Rightarrow> Inr (sr_principal row, sr_interest row))
      else rbind (div_int (cd_plafond_limit (res_loan r)) (cd_tenor_months (res_loan r))) (\<lambda>p.
           rbind (div_int (cd_plafond_limit (res_loan r) * cd_flat_rate_percent (res_loan r)) 1200) (\<lambda>i. Inr (p, i))))"

definition schedule_views :: "resolved_position \<Rightarrow> schedule_row_view list" where
  "schedule_views r =
     (let start = loan_start_date r; status = map_of (rev (map (\<lambda>e. (ie_number e, ie_raw_payment_status e)) (schedule_evidence r))) in
      (if date_is_zero start then []
       else [\<lparr>sw_number = 0, sw_date = format_date start, sw_installment = format_currency 0, sw_principal = format_currency 0,
              sw_interest = format_currency 0, sw_outstanding = format_currency (cd_plafond_limit (res_loan r)), sw_status = ''DISBURSED''\<rparr>])
      @ map (\<lambda>row.
          \<lparr>sw_number = sr_number row, sw_date = format_date (sr_due_date row), sw_installment = format_currency (sr_installment row),
           sw_principal = format_currency (sr_principal row), sw_interest = format_currency (sr_interest row),
           sw_outstanding = format_currency (sr_scheduled_balance row),
           sw_status = display_text (case status (sr_number row) of None \<Rightarrow> '''' | Some s \<Rightarrow> s)\<rparr>) (res_contractual_schedule r))"

definition installment_summary :: "date \<Rightarrow> date list \<Rightarrow> string" where
  "installment_summary as_of dates =
     (if dates = [] then ''-''
      else itoa (int (length (filter (\<lambda>d. \<not> date_after d as_of) dates))) @ '' dari '' @ itoa (int (length dates)))"

definition loan_period :: "resolved_position \<Rightarrow> date list \<Rightarrow> string" where
  "loan_period r dates =
     (if \<not> date_is_zero (loan_start_date r) \<and> dates \<noteq> [] \<and> 0 < cd_tenor_months (res_loan r)
      then format_date (loan_start_date r) @ '' | '' @ itoa (cd_tenor_months (res_loan r)) @ '' bln | '' @ format_date (last dates)
      else ''-'')"

definition print_path :: string where
  "print_path = ''/loans/inquiry/pdf?''"

definition print_url :: "string \<Rightarrow> date \<Rightarrow> string" where
  "print_url account as_of = print_path @ ''account='' @ query_escape account @ ''&as_of='' @ query_escape (date_string as_of)"

definition new_result_view :: "resolved_position \<Rightarrow> string \<Rightarrow> date \<Rightarrow> result_view res" where
  "new_result_view r requested as_of =
     rbind (period_amounts r) (\<lambda>(p, i).
       let loan = res_loan r; pos = res_position r; actual = res_actual_position r; dates = contractual_due_dates r in
       Inr \<lparr>rv_reporting_date = date_string as_of, rv_period_label = ''Periode '' @ format_date as_of,
            rv_customer_name = display_text (cd_customer_name loan),
            rv_primary_account = display_text (first_non_empty [cd_primary_account loan, lp_account_number pos]),
            rv_alternate_account = display_text (cd_alternate_account loan),
            rv_branch = display_text (first_non_empty [cd_branch loan, lp_branch pos]),
            rv_product = display_text (first_non_empty [cd_product loan, lp_product pos]),
            rv_loan_period = loan_period r dates, rv_installment_summary = installment_summary as_of dates,
            rv_principal_outstanding = format_currency (lp_principal_outstanding pos),
            rv_principal_due = format_currency (lp_principal_due actual), rv_interest_due = format_currency (lp_interest_due actual),
            rv_penalty_due = format_currency (lp_penalty_due actual), rv_contract_principal = format_currency (cd_plafond_limit loan),
            rv_reference_rate = format_rate (cd_reference_rate_percent loan), rv_flat_rate = format_rate (cd_flat_rate_percent loan),
            rv_collectability = itoa (lp_collectability_bi pos), rv_early_termination = format_currency ((p + i) * 6),
            rv_is_reconstructed = (lp_source pos = Some SourceReconstructed), rv_print_url = print_url requested as_of,
            rv_schedule_rows = schedule_views r\<rparr>)"

section \<open>The page\<close>

record inquiry_page =
  pg_account :: string
  pg_as_of :: string
  pg_error :: string
  pg_result :: "result_view option"

datatype inquiry_response = InquiryPage int inquiry_page | InquiryPlain int

text \<open>The status and the message of an error; the text of the error itself, appended on the page, is not modelled.\<close>

definition inquiry_error :: "err \<Rightarrow> int \<times> string" where
  "inquiry_error e =
     (if errors_is e ErrInvalidInput then (422, '''')
      else if errors_is e ErrUnsupportedCalculation then (422, ''Contractual reconstruction is not supported for this account.'')
      else if errors_is e ErrAmbiguousAccountResolution then (409, ''Alternate account resolves to multiple primary accounts.'')
      else if errors_is e ErrCurrentSnapshot then (503, ''Current-day snapshot is unavailable.'')
      else if errors_is e ErrHistoricalEvidence then (503, ''Required historical evidence is unavailable.'')
      else if list_ex (errors_is e) [ErrFincloudCredentials, ErrFincloudSession, ErrFincloudUnavailable, ErrDWHUnavailable, ErrMSOUnavailable]
      then (503, ''Required banking service is unavailable.'')
      else if errors_is e ErrNotFound then (404, ''Loan account was not found.'')
      else (500, ''Loan inquiry failed.''))"

definition resolve_result ::
  "(string \<Rightarrow> date \<Rightarrow> resolved_position res) \<Rightarrow> string \<Rightarrow> date \<Rightarrow> (resolved_position \<times> result_view) res" where
  "resolve_result lookup account as_of =
     rbind (lookup account as_of) (\<lambda>r. rbind (new_result_view r account as_of) (\<lambda>view. Inr (r, view)))"

definition source_text :: "position_source option \<Rightarrow> string" where
  "source_text s =
     (case s of None \<Rightarrow> '''' | Some SourceMSO \<Rightarrow> ''MSO'' | Some SourceDWH \<Rightarrow> ''DWH'' | Some SourceTodaySnapshot \<Rightarrow> ''current_snapshot''
      | Some SourceReconstructed \<Rightarrow> ''reconstructed'' | Some SourceClosed \<Rightarrow> ''closed'')"

definition inquiry_event :: "browser_principal \<Rightarrow> resolved_position \<Rightarrow> date \<Rightarrow> int \<Rightarrow> audit_event" where
  "inquiry_event p r as_of now =
     \<lparr>ev_attribution = principal_attribution p, ev_action = ''loan.inquiry'', ev_resource = '''', ev_resource_id = 0,
      ev_metadata = Some (audit_metadata.LoanInquiry (lp_account_number (res_position r)) (date_string as_of) (source_text (lp_source (res_position r)))),
      ev_created_at = now\<rparr>"

definition audit_inquiry ::
  "(audit_metadata \<Rightarrow> string) \<Rightarrow> bool \<Rightarrow> browser_principal option \<Rightarrow> resolved_position \<Rightarrow> date \<Rightarrow> int \<Rightarrow> audit_row list \<Rightarrow> audit_row list" where
  "audit_inquiry marshal insert_ok p r as_of now rows =
     (case p of None \<Rightarrow> rows
      | Some pr \<Rightarrow> (case audit_append marshal insert_ok (inquiry_event pr r as_of now) rows of Inl _ \<Rightarrow> rows | Inr rows' \<Rightarrow> rows'))"

definition inquiry_index :: "date \<Rightarrow> inquiry_response" where
  "inquiry_index today = InquiryPage 200 \<lparr>pg_account = '''', pg_as_of = date_string today, pg_error = '''', pg_result = None\<rparr>"

definition loan_inquiry ::
  "(string \<Rightarrow> date \<Rightarrow> resolved_position res) \<Rightarrow> location \<Rightarrow> (audit_metadata \<Rightarrow> string) \<Rightarrow> bool \<Rightarrow> browser_principal option \<Rightarrow> int
     \<Rightarrow> form_parse \<Rightarrow> (string \<Rightarrow> string) \<Rightarrow> audit_row list \<Rightarrow> inquiry_response \<times> audit_row list" where
  "loan_inquiry lookup loc marshal insert_ok p now parse field rows =
     (if parse \<noteq> FormOk then (InquiryPlain 400, rows)
      else
        let account = trim_space (field ''account_number''); raw = trim_space (field ''as_of'');
            page = \<lparr>pg_account = account, pg_as_of = raw, pg_error = '''', pg_result = None\<rparr> in
        case (if account = '''' then Inl [] else parse_date raw loc) of
          Inl _ \<Rightarrow> (InquiryPage 422 (page\<lparr>pg_error := ''Enter an account number and valid reporting date.''\<rparr>), rows)
        | Inr as_of \<Rightarrow>
            (case resolve_result lookup account as_of of
               Inl e \<Rightarrow> (case inquiry_error e of (status, message) \<Rightarrow> (InquiryPage status (page\<lparr>pg_error := message\<rparr>), rows))
             | Inr (r, view) \<Rightarrow>
                 (InquiryPage 200 (page\<lparr>pg_result := Some view\<rparr>), audit_inquiry marshal insert_ok p r as_of now rows)))"

section \<open>The print-out\<close>

text \<open>\<open>Request.URL.Query\<close>: pairs with a semicolon or a malformed escape are dropped.\<close>

definition query_pair :: "string \<Rightarrow> (string \<times> string) list" where
  "query_pair s =
     (if s = '''' \<or> CHR '';'' \<in> set s then []
      else case cut_byte (CHR ''='') s of (k, v, _) \<Rightarrow>
        (case (unescape True k, unescape True v) of (Some k', Some v') \<Rightarrow> [(k', v')] | _ \<Rightarrow> []))"

definition parse_query :: "string \<Rightarrow> (string \<times> string) list" where
  "parse_query q = concat (map query_pair (split_byte (CHR ''&'') q))"

definition query_values :: "string \<Rightarrow> (string \<times> string) list \<Rightarrow> string list" where
  "query_values key q = map snd (filter (\<lambda>(k, _). k = key) q)"

definition filename_char :: "char \<Rightarrow> bool" where
  "filename_char c \<longleftrightarrow>
     (let b = byte c in (97 \<le> b \<and> b \<le> 122) \<or> (65 \<le> b \<and> b \<le> 90) \<or> (48 \<le> b \<and> b \<le> 57) \<or> c = CHR ''-'' \<or> c = CHR ''_'')"

text \<open>The loop of \<open>safeFilenamePart\<close>; a rune of several bytes is replaced like its first byte, as one dash.\<close>

fun filename_loop :: "string \<Rightarrow> string \<Rightarrow> string" where
  "filename_loop acc [] = acc"
| "filename_loop acc (c # cs) =
     (if filename_char c then filename_loop (acc @ [c]) cs
      else if acc \<noteq> [] \<and> last acc \<noteq> CHR ''-'' then filename_loop (acc @ ''-'') cs
      else filename_loop acc cs)"

definition safe_filename_part :: "string \<Rightarrow> string" where
  "safe_filename_part v =
     (let r = trim_left_byte (CHR ''-'') (trim_right_byte (CHR ''-'') (filename_loop [] (trim_space v)))
      in if r \<noteq> '''' then r else ''account'')"

definition pdf_filename :: "string \<Rightarrow> date \<Rightarrow> string" where
  "pdf_filename account as_of = ''jadwal-pembayaran-'' @ safe_filename_part account @ ''-'' @ date_string as_of @ ''.pdf''"

definition pdf_reporting_date :: "result_view \<Rightarrow> string" where
  "pdf_reporting_date view =
     (if prefix ''Periode '' (rv_period_label view) then trim_prefix ''Periode '' (rv_period_label view) else rv_reporting_date view)"

datatype pdf_response = PdfError int string | PdfDocument string string

text \<open>\<open>render\<close> draws the document of a view.\<close>

definition loan_pdf ::
  "(string \<Rightarrow> date \<Rightarrow> resolved_position res) \<Rightarrow> location \<Rightarrow> (result_view \<Rightarrow> string option) \<Rightarrow> (string \<times> string) list \<Rightarrow> pdf_response" where
  "loan_pdf lookup loc render q =
     (case (query_values ''account'' q, query_values ''as_of'' q) of
        ([raw_account], [raw_date]) \<Rightarrow>
          (let account = trim_space raw_account in
           case (if account = '''' then Inl [] else parse_date (trim_space raw_date) loc) of
             Inl _ \<Rightarrow> PdfError 422 ''Account and reporting date are required.''
           | Inr as_of \<Rightarrow>
               (case resolve_result lookup account as_of of
                  Inl e \<Rightarrow> (case inquiry_error e of (status, message) \<Rightarrow> PdfError status message)
                | Inr (_, view) \<Rightarrow>
                    (case render view of
                       None \<Rightarrow> PdfError 500 ''Internal Server Error''
                     | Some document \<Rightarrow> PdfDocument (pdf_filename account as_of) document)))
      | _ \<Rightarrow> PdfError 422 ''Account and reporting date are required.'')"

section \<open>Amounts read back\<close>

lemma insert_commas_step: "0 < i \<Longrightarrow> insert_commas i s = insert_commas (i - 3) (take i s @ '','' @ drop i s)"
  by (simp add: insert_commas.simps [of i])

lemma insert_commas_0 [simp]: "insert_commas 0 s = s"
  by (simp add: insert_commas.simps)

text \<open>The specification of the loop: groups of three digits from the right.\<close>

function thousands :: "string \<Rightarrow> string" where
  "thousands s = (if length s \<le> 3 then s else thousands (take (length s - 3) s) @ '','' @ drop (length s - 3) s)"
  by pat_completeness auto
termination
  by (relation "measure length") auto

declare thousands.simps [simp del]

lemma insert_commas_thousands: "insert_commas (length a - 3) (a @ t) = thousands a @ t"
proof (induction a arbitrary: t rule: thousands.induct)
  case (1 a)
  show ?case
  proof (cases "length a \<le> 3")
    case True
    then show ?thesis by (simp add: thousands.simps)
  next
    case False
    let ?i = "length a - 3"
    have "insert_commas ?i (a @ t) = insert_commas (?i - 3) (take ?i a @ '','' @ drop ?i a @ t)"
      using False insert_commas_step [of ?i "a @ t"] by simp
    also have "\<dots> = thousands (take ?i a) @ '','' @ drop ?i a @ t"
      using "1.IH" [OF False, of "'','' @ drop ?i a @ t"] by simp
    also have "\<dots> = thousands a @ t" using False by (simp add: thousands.simps [of a])
    finally show ?thesis .
  qed
qed

lemma remove_thousands: "CHR '','' \<notin> set s \<Longrightarrow> remove_byte (CHR '','') (thousands s) = s"
proof (induction s rule: thousands.induct)
  case (1 s)
  show ?case
  proof (cases "length s \<le> 3")
    case True
    then show ?thesis using 1 by (simp add: thousands.simps remove_byte_absent)
  next
    case False
    let ?i = "length s - 3"
    have c: "CHR '','' \<notin> set (take ?i s)" "CHR '','' \<notin> set (drop ?i s)" using "1.prems" by (meson in_set_takeD in_set_dropD)+
    then show ?thesis
      using False "1.IH" [OF False c(1)] remove_byte_absent [OF c(2)] by (simp add: thousands.simps [of s] remove_byte_def)
  qed
qed

text \<open>
  Every amount on the page and the print-out can be read back: without the currency and the grouping it is the exact amount rounded
  to cents, and its integer digits are grouped by thousands.
\<close>

theorem currency_round_trip:
  "\<exists>sign digits cents. format_currency m = ''Rp '' @ sign @ thousands digits @ ''.'' @ cents \<and> list_all is_digit digits \<and> length cents = 2
    \<and> remove_byte (CHR '','') (drop 3 (format_currency m)) = money_format 2 m
    \<and> parse_money (remove_byte (CHR '','') (drop 3 (format_currency m))) = Inr (round_away 2 m)"
proof -
  obtain i f where t: "float_string 2 m = decimal_text (m < 0) i f" and i: "list_all is_digit i" "i \<noteq> []" and f: "list_all is_digit f" "length f = 2"
    using float_string_text by blast
  have absent: "CHR ''.'' \<notin> set i" "CHR '','' \<notin> set i" "CHR '','' \<notin> set f" "CHR ''-'' \<notin> set i"
    using i(1) f(1) by (auto simp: list_all_iff is_digit_def byte_def)
  let ?sign = "if m < 0 then ''-'' else ''''"
  have money: "money_format 2 m = (?sign @ i) @ CHR ''.'' # f" using f(2) by (auto simp: money_format_def t decimal_text_def)
  have "cut_byte (CHR ''.'') (money_format 2 m) = (?sign @ i, f, True)"
    unfolding money using absent(1) by (intro cut_byte_found) auto
  moreover have "prefix ''-'' (?sign @ i) \<longleftrightarrow> m < 0" using absent(4) i(2) by (cases i) auto
  ultimately have c: "format_currency m = ''Rp '' @ ?sign @ thousands i @ ''.'' @ f"
    using insert_commas_thousands [of i "[]"] by (auto simp: format_currency_def Let_def)
  then have "remove_byte (CHR '','') (drop 3 (format_currency m)) = money_format 2 m"
    using remove_thousands [OF absent(2)] remove_byte_absent [OF absent(3)] by (auto simp: money remove_byte_def)
  moreover from this have "parse_money (remove_byte (CHR '','') (drop 3 (format_currency m))) = Inr (round_away 2 m)"
    using parse_float_string [of 2 m] by (simp add: money_format_def)
  ultimately show ?thesis using c i(1) f(2) by blast
qed

section \<open>The print link\<close>

lemma escape_chars: "c \<in> set (query_escape s) \<Longrightarrow> unreserved c \<or> c = CHR ''+'' \<or> c = CHR ''%''"
proof -
  have hex: "unreserved (upper_hex n)" if "n < 16" for n
    using that by (auto simp: upper_hex_def unreserved_def byte_def of_char_of)
  have "unreserved (upper_hex (byte b div 16))" "unreserved (upper_hex (byte b mod 16))" for b
    using byte_less [of b] by (auto intro!: hex)
  then show "c \<in> set (query_escape s) \<Longrightarrow> ?thesis"
    by (auto simp: query_escape_def escape_byte_def split: if_split_asm)
qed

lemma escape_separators:
  "CHR ''&'' \<notin> set (query_escape s)" "CHR ''='' \<notin> set (query_escape s)" "CHR '';'' \<notin> set (query_escape s)"
proof -
  have "\<not> unreserved (CHR ''&'')" "\<not> unreserved (CHR ''='')" "\<not> unreserved (CHR '';'')" by code_simp+
  then show "CHR ''&'' \<notin> set (query_escape s)" "CHR ''='' \<notin> set (query_escape s)" "CHR '';'' \<notin> set (query_escape s)"
    using escape_chars [of "CHR ''&''" s] escape_chars [of "CHR ''=''" s] escape_chars [of "CHR '';''" s] by auto
qed

lemma query_pair_escaped:
  assumes "CHR ''='' \<notin> set k" and "CHR '';'' \<notin> set k" and "unescape True k = Some k"
  shows "query_pair (k @ ''='' @ query_escape v) = [(k, v)]"
  using assms escape_separators [of v] cut_byte_found [OF assms(1), of "query_escape v"]
  by (simp add: query_pair_def query_round_trip)

lemma print_url_query: "parse_query (drop (length print_path) (print_url account as_of)) = [(''account'', account), (''as_of'', date_string as_of)]"
proof -
  let ?a = "''account='' @ query_escape account" and ?d = "''as_of='' @ query_escape (date_string as_of)"
  have "drop (length print_path) (print_url account as_of) = ?a @ CHR ''&'' # ?d" by (simp add: print_url_def)
  moreover have "split_byte (CHR ''&'') (?a @ CHR ''&'' # ?d) = [?a, ?d]"
  proof -
    have "CHR ''&'' \<notin> set ?a" "CHR ''&'' \<notin> set ?d" using escape_separators by auto
    then show ?thesis using split_byte_append [of "CHR ''&''" ?a ?d] split_byte_absent [of "CHR ''&''" ?d] by metis
  qed
  moreover have "query_pair ?a = [(''account'', account)]" "query_pair ?d = [(''as_of'', date_string as_of)]"
    using query_pair_escaped [of "''account''" account] query_pair_escaped [of "''as_of''" "date_string as_of"] by simp_all
  ultimately show ?thesis by (simp add: parse_query_def)
qed

lemma new_result_view_url: "new_result_view r requested as_of = Inr view \<Longrightarrow> rv_print_url view = print_url requested as_of"
  by (auto simp: new_result_view_def rbind_eq_Inr Let_def split: prod.split_asm)

lemma filename_loop_chars: "list_all filename_char acc \<Longrightarrow> list_all filename_char (filename_loop acc s)"
  by (induction acc s rule: filename_loop.induct) (auto simp: filename_char_def [of "CHR ''-''"])

lemma safe_filename_part_chars: "list_all filename_char (safe_filename_part v)"
proof -
  have "list_all filename_char (trim_left_byte (CHR ''-'') (trim_right_byte (CHR ''-'') (filename_loop [] (trim_space v))))"
    using filename_loop_chars [of "[]" "trim_space v"]
    by (auto simp: trim_left_byte_def trim_right_byte_def list_all_iff dest!: set_dropWhileD)
  moreover have "list_all filename_char ''account''" by code_simp
  ultimately show ?thesis by (simp add: safe_filename_part_def Let_def)
qed

text \<open>
  The print link of a shown inquiry leads to the same inquiry: its query carries exactly the account and the date that were
  asked for, whatever bytes the account has, so the document is drawn from the same view the page shows; and its file name is made of
  letters, digits, dashes and underscores only.
\<close>

theorem print_link_same_inquiry:
  assumes "loan_inquiry (get_loan_position svc) loc marshal insert_ok p now parse field rows = (InquiryPage 200 page, rows')"
    and "render (the (pg_result page)) = Some document"
  shows "\<exists>view as_of. pg_result page = Some view
    \<and> loan_pdf (get_loan_position svc) loc render (parse_query (drop (length print_path) (rv_print_url view)))
        = PdfDocument (pdf_filename (pg_account page) as_of) document
    \<and> rv_reporting_date view = date_string as_of \<and> list_all filename_char (safe_filename_part (pg_account page))"
proof -
  let ?account = "trim_space (field ''account_number'')"
  obtain as_of where a: "?account \<noteq> ''''" "parse_date (trim_space (field ''as_of'')) loc = Inr as_of"
    and res: "case resolve_result (get_loan_position svc) ?account as_of of Inl e \<Rightarrow> fst (inquiry_error e) = 200
      | Inr (r, view) \<Rightarrow> pg_result page = Some view" and account: "pg_account page = ?account"
    using assms(1) by (auto simp: loan_inquiry_def Let_def split: if_split_asm sum.split_asm prod.split_asm)
  have "fst (inquiry_error e) \<noteq> 200" for e by (simp add: inquiry_error_def)
  then obtain r view where v: "resolve_result (get_loan_position svc) ?account as_of = Inr (r, view)" and page: "pg_result page = Some view"
    using res by (auto split: sum.split_asm prod.split_asm)
  then have pos: "get_loan_position svc ?account as_of = Inr r" and view: "new_result_view r ?account as_of = Inr view"
    by (auto simp: resolve_result_def rbind_eq_Inr)
  have nz: "\<not> date_is_zero as_of"
    using pos by (auto simp: get_loan_position_def resolve_position_def rbind_eq_Inr Let_def split: if_split_asm)
  then have "date_string as_of = trim_space (field ''as_of'')" using date_string_parse [OF a(2)] by simp
  then have date: "parse_date (trim_space (date_string as_of)) loc = Inr as_of" using a(2) by simp
  have "parse_query (drop (length print_path) (rv_print_url view)) = [(''account'', ?account), (''as_of'', date_string as_of)]"
    unfolding new_result_view_url [OF view] by (rule print_url_query)
  then have "loan_pdf (get_loan_position svc) loc render (parse_query (drop (length print_path) (rv_print_url view)))
      = PdfDocument (pdf_filename ?account as_of) document"
    using a(1) date v assms(2) page by (simp add: loan_pdf_def query_values_def Let_def)
  moreover have "rv_reporting_date view = date_string as_of"
    using view by (auto simp: new_result_view_def rbind_eq_Inr Let_def split: prod.split_asm)
  ultimately show ?thesis using page account safe_filename_part_chars by auto
qed

text \<open>The page and the endpoint agree on every error but invalid input, unless it is of two kinds at once.\<close>

lemma statuses_agree:
  assumes "\<not> (errors_is e ErrUnsupportedCalculation \<and> errors_is e ErrAmbiguousAccountResolution)"
  shows "fst (inquiry_error e) = (if errors_is e ErrInvalidInput then 422 else fst (position_error e))"
  using assms by (auto simp: inquiry_error_def position_error_def)

section \<open>A sample page\<close>

definition sample_field :: "string \<Rightarrow> string" where
  "sample_field key = (if key = ''account_number'' then '' P1'' else ''2025-12-31'')"

lemma sample_periods: "case get_loan_position sample_service ''P1'' (mk_date 2025 12 31) of Inr r \<Rightarrow> \<not> isl (period_amounts r) | Inl _ \<Rightarrow> False"
  by code_simp

lemma sample_view: "\<exists>r view. resolve_result (get_loan_position sample_service) ''P1'' (mk_date 2025 12 31) = Inr (r, view)"
  using sample_periods
  by (cases "get_loan_position sample_service ''P1'' (mk_date 2025 12 31)")
    (auto simp: resolve_result_def new_result_view_def rbind_def isl_def Let_def split: sum.split)

lemma sample_fields:
  "trim_space (sample_field ''account_number'') = ''P1''" "trim_space (sample_field ''as_of'') = ''2025-12-31''"
  "parse_date ''2025-12-31'' (Some ''Asia/Jakarta'') = Inr (mk_date 2025 12 31)"
  by code_simp+

theorem print_link_same_inquiry_witness:
  "\<exists>page rows view as_of.
     loan_inquiry (get_loan_position sample_service) (Some ''Asia/Jakarta'') (\<lambda>_. '''') True None 7 FormOk sample_field [] = (InquiryPage 200 page, rows)
     \<and> pg_result page = Some view
     \<and> loan_pdf (get_loan_position sample_service) (Some ''Asia/Jakarta'') (\<lambda>_. Some ''%PDF'') (parse_query (drop (length print_path) (rv_print_url view)))
         = PdfDocument (pdf_filename ''P1'' as_of) ''%PDF''"
proof -
  obtain r view where "resolve_result (get_loan_position sample_service) ''P1'' (mk_date 2025 12 31) = Inr (r, view)"
    using sample_view by blast
  then obtain page rows where q: "loan_inquiry (get_loan_position sample_service) (Some ''Asia/Jakarta'') (\<lambda>_. '''') True None 7 FormOk sample_field []
      = (InquiryPage 200 page, rows)" and account: "pg_account page = ''P1''"
    by (simp add: loan_inquiry_def sample_fields Let_def)
  show ?thesis using print_link_same_inquiry [OF q, of "\<lambda>_. Some ''%PDF''" "''%PDF''"] q account by auto
qed

end
