(* ===== verification/Web_App.thy ===== *)
theory Web_App
  imports Slik_Pages System_Pages Loan_Pages
begin

text \<open>
  The HTTP surface: the router of \<open>src/internal/server/router.go\<close> with the routes of all features, the middleware in
  front of them (\<open>server/middleware.go\<close>, and \<open>RequireAuth\<close>, \<open>RequireGuest\<close> and \<open>RequirePermission\<close> of the sessions), and the
  error pages of \<open>src/internal/render/errors.go\<close>. Matching a path against the patterns is chi's: it is
  the argument \<open>router\<close>, which returns the matched pattern and the values of its placeholders.
\<close>

section \<open>Routes\<close>

datatype endpoint =
    Health | Ready | StaticFiles | BrandingLogo | BrandingWideLogo | BrandingFavicon
  | ApiContractual
  | LoginPage | LoginPost | LogoutPost
  | DashboardIndex
  | UsersIndex | UsersShow | UsersReplacePermissions | UsersActivate | UsersDeactivate
  | AuditIndex | AuditShowPage
  | InquiryIndex | InquiryPdf | InquiryPost
  | SlikIndexPage | SlikSubmit | SlikStatusPage | SlikStatusPartial | SlikDownload | SlikCancel
  | LpsIndexPage | LpsGenerate
  | SnapshotIndexPage | SnapshotRefreshPost

text \<open>
  The group a route is registered in: without any session, behind the API key, or in the browser group for
  guests, for everybody, or for holders of a permission.
\<close>

datatype guard = Unguarded | ApiKey | GuestOnly | AnySession | Permission string

record route =
  rt_method :: string
  rt_pattern :: string
  rt_guard :: guard
  rt_endpoint :: endpoint

definition mk_route :: "guard \<Rightarrow> string \<Rightarrow> string \<Rightarrow> endpoint \<Rightarrow> route" where
  "mk_route g m p e = \<lparr>rt_method = m, rt_pattern = p, rt_guard = g, rt_endpoint = e\<rparr>"

text \<open>\<open>Handle\<close> registers every method, written here as an asterisk.\<close>

definition public_routes :: "route list" where
  "public_routes =
     [mk_route Unguarded ''GET'' ''/health'' Health, mk_route Unguarded ''GET'' ''/ready'' Ready,
      mk_route Unguarded ''*'' ''/static/*'' StaticFiles, mk_route Unguarded ''GET'' ''/branding/logo'' BrandingLogo,
      mk_route Unguarded ''GET'' ''/branding/logo-wide'' BrandingWideLogo, mk_route Unguarded ''GET'' ''/branding/favicon'' BrandingFavicon]"

definition api_routes :: "route list" where
  "api_routes =
     [mk_route ApiKey ''GET'' ''/api/v1/loans/{account}/contractual'' ApiContractual,
      mk_route ApiKey ''GET'' ''/api/v1/loans//contractual'' ApiContractual]"

definition login_routes :: "route list" where
  "login_routes =
     [mk_route GuestOnly ''GET'' ''/login'' LoginPage, mk_route GuestOnly ''POST'' ''/login'' LoginPost,
      mk_route AnySession ''POST'' ''/logout'' LogoutPost]"

definition dashboard_routes :: "route list" where
  "dashboard_routes = [mk_route (Permission ''dashboard.view'') ''GET'' ''/'' DashboardIndex]"

definition users_routes :: "route list" where
  "users_routes =
     [mk_route (Permission permission_manage) ''GET'' ''/access'' UsersIndex,
      mk_route (Permission permission_manage) ''GET'' ''/access/{id}'' UsersShow,
      mk_route (Permission permission_manage) ''POST'' ''/access/{id}/permissions'' UsersReplacePermissions,
      mk_route (Permission permission_manage) ''POST'' ''/access/{id}/activate'' UsersActivate,
      mk_route (Permission permission_manage) ''POST'' ''/access/{id}/deactivate'' UsersDeactivate]"

definition auditlogs_routes :: "route list" where
  "auditlogs_routes =
     [mk_route (Permission ''audit.view'') ''GET'' ''/audit-logs'' AuditIndex,
      mk_route (Permission ''audit.view'') ''GET'' ''/audit-logs/{id}'' AuditShowPage]"

definition loaninquiry_routes :: "route list" where
  "loaninquiry_routes =
     [mk_route (Permission permission_loan_inquiry) ''GET'' ''/loans'' InquiryIndex,
      mk_route (Permission permission_loan_inquiry) ''GET'' ''/loans/inquiry'' InquiryIndex,
      mk_route (Permission permission_loan_inquiry) ''GET'' ''/loans/inquiry/pdf'' InquiryPdf,
      mk_route (Permission permission_loan_inquiry) ''POST'' ''/loans/inquiry'' InquiryPost]"

definition slik_routes :: "route list" where
  "slik_routes =
     [mk_route (Permission permission_generate) ''GET'' ''/slik'' SlikIndexPage,
      mk_route (Permission permission_generate) ''POST'' ''/slik'' SlikSubmit,
      mk_route (Permission permission_generate) ''GET'' ''/slik/{id}'' SlikStatusPage,
      mk_route (Permission permission_generate) ''GET'' ''/slik/{id}/status'' SlikStatusPartial,
      mk_route (Permission permission_generate) ''GET'' ''/slik/{id}/download'' SlikDownload,
      mk_route (Permission permission_generate) ''POST'' ''/slik/{id}/cancel'' SlikCancel]"

definition lps_routes :: "route list" where
  "lps_routes =
     [mk_route (Permission ''lps.generate'') ''GET'' ''/lps'' LpsIndexPage,
      mk_route (Permission ''lps.generate'') ''POST'' ''/lps'' LpsGenerate]"

definition snapshots_routes :: "route list" where
  "snapshots_routes =
     [mk_route (Permission ''snapshot.view'') ''GET'' ''/snapshot'' SnapshotIndexPage,
      mk_route (Permission permission_snapshot_refresh) ''POST'' ''/snapshot/refresh'' SnapshotRefreshPost]"

definition feature_routes :: "route list" where
  "feature_routes =
     dashboard_routes @ users_routes @ auditlogs_routes @ loaninquiry_routes @ slik_routes @ lps_routes @ snapshots_routes"

text \<open>The API is registered only when a key is configured.\<close>

definition app_routes :: "string \<Rightarrow> route list" where
  "app_routes api_key = public_routes @ (if api_key \<noteq> '''' then api_routes else []) @ login_routes @ feature_routes"

section \<open>Middleware\<close>

text \<open>
  A request as the middleware sees it; \<open>wr_origin_host\<close> is the host of a parsed \<open>Origin\<close> header, \<open>Some None\<close> when the
  header does not parse.
\<close>

record web_request =
  wr_method :: string
  wr_path :: string
  wr_uri :: string
  wr_host :: string
  wr_fetch_site :: string
  wr_origin_host :: "string option option"
  wr_hx :: bool
  wr_authorization :: "string list"
  wr_cookies :: "(string \<times> string) list"

text \<open>\<open>http.CrossOriginProtection\<close> without exceptions.\<close>

definition cross_origin_allowed :: "web_request \<Rightarrow> bool" where
  "cross_origin_allowed q \<longleftrightarrow>
     (if wr_method q \<in> {''GET'', ''HEAD'', ''OPTIONS''} then True
      else if wr_fetch_site q \<in> {''same-origin'', ''none''} then True
      else if wr_fetch_site q \<noteq> '''' then False
      else (case wr_origin_host q of None \<Rightarrow> True | Some None \<Rightarrow> False | Some (Some h) \<Rightarrow> h = wr_host q))"

definition content_security_policy :: string where
  "content_security_policy =
     ''default-src 'self'; script-src 'self'; style-src 'self'; style-src-attr 'unsafe-inline'; img-src 'self' data:; font-src 'self'; connect-src 'self'; object-src 'none'; base-uri 'self'; form-action 'self'; frame-ancestors 'none'' @ [CHR 0x27]"

definition security_headers :: "(string \<times> string) list" where
  "security_headers =
     [(''X-Content-Type-Options'', ''nosniff''), (''X-Frame-Options'', ''DENY''), (''Referrer-Policy'', ''same-origin''),
      (''Permissions-Policy'', ''camera=(), microphone=(), geolocation=()''), (''Content-Security-Policy'', content_security_policy)]"

definition no_store :: "(string \<times> string) list" where
  "no_store = [(''Cache-Control'', ''no-store'')]"

text \<open>The headers set before the handler of a route runs.\<close>

definition route_headers :: "route option \<Rightarrow> (string \<times> string) list" where
  "route_headers r =
     security_headers @ (case r of None \<Rightarrow> [] | Some x \<Rightarrow> if rt_guard x = Unguarded then [] else no_store)"

definition quiet_routes :: "string list" where
  "quiet_routes = [''/health'', ''/ready'', ''/static/*'', ''/slik/{id}/status'']"

text \<open>\<open>accessLog\<close>: the status recorded and whether a record is written.\<close>

definition access_logged :: "int \<Rightarrow> string \<Rightarrow> int option" where
  "access_logged written pattern =
     (let status = (if written = 0 then 200 else written) in
      if status < 400 \<and> pattern \<in> set quiet_routes then None else Some status)"

section \<open>Error pages\<close>

record error_page_data =
  ep_heading :: string
  ep_message :: string
  ep_request_id :: string

datatype error_reply = ErrorPage int string error_page_data | ErrorPlain int | NothingWritten

text \<open>\<open>written\<close> is the status already sent, 0 when none; the page may fail to render before or after its header.\<close>

datatype render_outcome = Rendered | RenderFailed | RenderBroke

definition render_error :: "int \<Rightarrow> render_outcome \<Rightarrow> int \<Rightarrow> string \<Rightarrow> error_page_data \<Rightarrow> error_reply" where
  "render_error written shown status page data =
     (if written \<noteq> 0 then NothingWritten
      else case shown of Rendered \<Rightarrow> ErrorPage status page data | RenderFailed \<Rightarrow> ErrorPlain status | RenderBroke \<Rightarrow> NothingWritten)"

definition error_not_found :: "int \<Rightarrow> render_outcome \<Rightarrow> error_reply" where
  "error_not_found written shown =
     render_error written shown 404 ''not_found''
       \<lparr>ep_heading = ''Page not found'', ep_message = ''The page may have moved, or the address may be incorrect.'', ep_request_id = ''''\<rparr>"

definition error_internal :: "string \<Rightarrow> int \<Rightarrow> render_outcome \<Rightarrow> error_reply" where
  "error_internal request_id written shown =
     render_error written shown 500 ''internal_server_error''
       \<lparr>ep_heading = ''Something went wrong'', ep_message = ''The request could not be completed. Please try again.'',
        ep_request_id = request_id\<rparr>"

text \<open>\<open>Recoverer\<close>: a panicking handler that has written the status \<open>written\<close> so far.\<close>

definition recoverer :: "string \<Rightarrow> bool \<Rightarrow> int \<Rightarrow> render_outcome \<Rightarrow> error_reply option" where
  "recoverer request_id panicked written shown =
     (if panicked then Some (error_internal request_id written shown) else None)"

section \<open>From a request to its handler\<close>

datatype dispatched =
    Reached endpoint "string list" "browser_principal option"
  | Refused admin_response
  | CrossOrigin
  | Unauthorized
  | Unrouted

definition for_method :: "string \<Rightarrow> route list \<Rightarrow> route list" where
  "for_method m rs = filter (\<lambda>r. rt_method r = m \<or> rt_method r = ''*'') rs"

text \<open>What the routes are served with: chi's matching, the cookies, the hashes and the API key.\<close>

record web_site =
  ws_router :: "string list \<Rightarrow> string \<Rightarrow> (string \<times> string list) option"
  ws_cookies :: cookie_manager
  ws_hash :: "string \<Rightarrow> string"
  ws_sha :: "string \<Rightarrow> string"
  ws_api_key :: string

definition find_route :: "web_site \<Rightarrow> string \<Rightarrow> string \<Rightarrow> (route \<times> string list) option" where
  "find_route site m path =
     (let rs = for_method m (app_routes (ws_api_key site)) in
      case ws_router site (map rt_pattern rs) path of None \<Rightarrow> None
      | Some (pattern, params) \<Rightarrow> (case find (\<lambda>r. rt_pattern r = pattern) rs of None \<Rightarrow> None | Some r \<Rightarrow> Some (r, params)))"

text \<open>The checks after the principal is loaded; \<open>None\<close> passes the request on.\<close>

definition session_guard :: "guard \<Rightarrow> browser_principal option \<Rightarrow> web_request \<Rightarrow> admin_response option" where
  "session_guard g p q =
     (case g of
        GuestOnly \<Rightarrow> map_option FromBrowser (require_guest p)
      | Permission k \<Rightarrow>
          (case require_auth p (wr_uri q) (wr_hx q) of Some r \<Rightarrow> Some (FromBrowser r) | None \<Rightarrow> require_any_permission [k] p)
      | _ \<Rightarrow> None)"

definition dispatch :: "web_site \<Rightarrow> db_call list \<Rightarrow> int \<Rightarrow> web_request \<Rightarrow> access_db \<Rightarrow> dispatched \<times> cookie list \<times> access_db" where
  "dispatch site fails now q db =
     (case find_route site (wr_method q) (wr_path q) of None \<Rightarrow> (Unrouted, [], db)
      | Some (r, params) \<Rightarrow>
          if rt_guard r = Unguarded then (Reached (rt_endpoint r) params None, [], db)
          else if rt_guard r = ApiKey then
            (if api_authenticated (ws_sha site) (ws_api_key site) (wr_authorization q) then Reached (rt_endpoint r) params None
             else Unauthorized, [], db)
          else if \<not> cross_origin_allowed q then (CrossOrigin, [], db)
          else
            (case load_principal (ws_cookies site) (ws_hash site) fails now (wr_cookies q) db of
               (Inl failure, cks, db1) \<Rightarrow> (Refused (FromBrowser failure), cks, db1)
             | (Inr p, cks, db1) \<Rightarrow>
                 (case session_guard (rt_guard r) p q of
                    Some answer \<Rightarrow> (Refused answer, cks, db1)
                  | None \<Rightarrow> (Reached (rt_endpoint r) params p, cks, db1))))"

section \<open>Facts about the routes\<close>

text \<open>Every endpoint is registered behind one guard, and method and pattern name a route.\<close>

definition guards_agree :: "route list \<Rightarrow> bool" where
  "guards_agree rs \<longleftrightarrow>
     list_all (\<lambda>r. list_all (\<lambda>x. rt_endpoint x = rt_endpoint r \<longrightarrow> rt_guard x = rt_guard r) rs) rs
     \<and> distinct (map (\<lambda>r. (rt_method r, rt_pattern r)) rs)"

lemma guards_agree_all:
  "guards_agree (public_routes @ api_routes @ login_routes @ feature_routes)"
  "guards_agree (public_routes @ login_routes @ feature_routes)"
  by code_simp+

lemma app_routes_guard:
  "r \<in> set (app_routes k) \<Longrightarrow> x \<in> set (app_routes k) \<Longrightarrow> rt_endpoint x = rt_endpoint r \<Longrightarrow> rt_guard x = rt_guard r"
  using guards_agree_all by (auto simp: app_routes_def guards_agree_def list_all_iff split: if_split_asm) 

lemma find_member: "find P xs = Some x \<Longrightarrow> x \<in> set xs \<and> P x"
  by (auto simp: find_Some_iff)

lemma find_route_Some:
  assumes "find_route site m path = Some (r, params)"
  shows "r \<in> set (app_routes (ws_api_key site))" and "rt_method r = m \<or> rt_method r = ''*''"
  using assms by (auto simp: find_route_def for_method_def Let_def dest!: find_member split: option.split_asm)

lemma guarded_endpoints:
  "r \<in> set (app_routes k) \<Longrightarrow> rt_guard r = Unguarded \<longleftrightarrow> r \<in> set public_routes"
  "r \<in> set (app_routes k) \<Longrightarrow> rt_guard r = ApiKey \<longleftrightarrow> rt_endpoint r = ApiContractual"
  "r \<in> set (app_routes k) \<Longrightarrow> rt_guard r = ApiKey \<Longrightarrow> k \<noteq> ''''"
proof -
  have l: "list_all (\<lambda>r. rt_guard r = Unguarded) public_routes"
    "list_all (\<lambda>r. rt_guard r \<noteq> Unguarded) (api_routes @ login_routes @ feature_routes)"
    "list_all (\<lambda>r. rt_guard r = ApiKey \<longleftrightarrow> rt_endpoint r = ApiContractual) (public_routes @ api_routes @ login_routes @ feature_routes)"
    "list_all (\<lambda>r. rt_guard r \<noteq> ApiKey) (public_routes @ login_routes @ feature_routes)" by code_simp+
  show "r \<in> set (app_routes k) \<Longrightarrow> rt_guard r = Unguarded \<longleftrightarrow> r \<in> set public_routes"
    using l(1,2) by (auto simp: app_routes_def list_all_iff split: if_split_asm)
  show "r \<in> set (app_routes k) \<Longrightarrow> rt_guard r = ApiKey \<longleftrightarrow> rt_endpoint r = ApiContractual"
    using l(3) by (auto simp: app_routes_def list_all_iff split: if_split_asm)
  show "r \<in> set (app_routes k) \<Longrightarrow> rt_guard r = ApiKey \<Longrightarrow> k \<noteq> ''''"
    using l(4) by (auto simp: app_routes_def list_all_iff split: if_split_asm)
qed

lemma require_any_one: "require_any_permission [k] p = None \<longleftrightarrow> (\<exists>pr. p = Some pr \<and> principal_can pr k)"
  by (cases p) auto

lemma session_guard_None:
  "session_guard g p q = None \<longleftrightarrow>
     (case g of GuestOnly \<Rightarrow> p = None | Permission k \<Rightarrow> \<exists>pr. p = Some pr \<and> principal_can pr k | _ \<Rightarrow> True)"
  by (auto simp: session_guard_def require_guest_def require_auth_def require_any_one split: guard.split option.split)

lemma dispatch_Reached:
  assumes "dispatch site fails now q db = (Reached e params p, cks, db')"
  obtains r where "find_route site (wr_method q) (wr_path q) = Some (r, params)" "rt_endpoint r = e"
    "rt_guard r = Unguarded \<and> p = None \<and> db' = db
     \<or> rt_guard r = ApiKey \<and> p = None \<and> db' = db \<and> api_authenticated (ws_sha site) (ws_api_key site) (wr_authorization q)
     \<or> rt_guard r \<noteq> Unguarded \<and> rt_guard r \<noteq> ApiKey \<and> cross_origin_allowed q \<and> session_guard (rt_guard r) p q = None
       \<and> load_principal (ws_cookies site) (ws_hash site) fails now (wr_cookies q) db = (Inr p, cks, db')"
  using assms
  by (auto simp: dispatch_def split: option.split_asm prod.split_asm if_split_asm sum.split_asm)

text \<open>The principal of a request comes from a live session of an active user, and may do what the tables grant.\<close>

lemma load_principal_user:
  assumes "load_principal c hash fails now cookies db = (Inr (Some pr), cks, db')" and "principal_can pr k"
  shows "\<exists>raw s u. cookie_read c cookies = Some raw \<and> s \<in> set (ad_sessions db) \<and> se_token_hash s = hash raw \<and> now < se_expires_at s
     \<and> u \<in> set (ad_users db) \<and> us_id u = se_user_id s \<and> us_active u \<and> pr_user_id pr = us_id u
     \<and> (user_has_permission (us_id u) k db \<or> k = ''loan.inquiry'')"
proof -
  from assms(1) obtain raw where raw: "cookie_read c cookies = Some raw" and rs: "resolve_session fails (hash raw) now db = (Inr pr, db')"
    by (rule load_principal_Some)
  from rs obtain s u where s: "find_valid_session (hash raw) now db = Inr s" and u: "find_user (se_user_id s) db = Inr u" "us_active u"
    and p: "pr = \<lparr>pr_user_id = us_id u, pr_username = us_username u, pr_name = us_name u,
              pr_permissions = new_permission_set (list_permission_keys (us_id u) db @ [permission_loan_inquiry]),
              pr_session_id = se_id s, pr_remember_me = se_remember_me s\<rparr>"
    by (rule resolve_session_Inr)
  have "user_has_permission (us_id u) k db \<or> k = ''loan.inquiry''"
    using assms(2) by (auto simp: p principal_can_def permission_set_has_def new_permission_set_def list_permission_keys_iff
        permission_loan_inquiry_def)
  moreover have "pr_user_id pr = us_id u" by (simp add: p)
  ultimately show ?thesis
    using raw find_valid_session_Inr [OF s] find_user_Inr [OF u(1)] u(2)
    by (intro exI [of _ raw] exI [of _ s] exI [of _ u]) simp
qed

text \<open>The entries of the navigation and the routes they lead to.\<close>

definition nav_entries :: "nav_item list" where
  "nav_entries = concat (map ng_items navigation_groups)"

definition entry_routed :: "route list \<Rightarrow> nav_item \<Rightarrow> bool" where
  "entry_routed rs i \<longleftrightarrow>
     CHR ''{'' \<notin> set (ni_path i) \<and> CHR ''*'' \<notin> set (ni_path i)
     \<and> (case find (\<lambda>r. rt_pattern r = ni_path i) (for_method ''GET'' rs) of
          None \<Rightarrow> False | Some r \<Rightarrow> rt_guard r = Permission (ni_permission i))"

lemma entries_routed: "list_all (entry_routed (app_routes k)) nav_entries"
proof -
  have "list_all (entry_routed (public_routes @ api_routes @ login_routes @ feature_routes)) nav_entries"
    "list_all (entry_routed (public_routes @ [] @ login_routes @ feature_routes)) nav_entries" by code_simp+
  then show ?thesis by (cases "k = ''''") (simp_all only: app_routes_def if_False if_True not_True_eq_False simp_thms)
qed

lemma nav_route:
  assumes "\<And>patterns path. path \<in> set patterns \<Longrightarrow> CHR ''{'' \<notin> set path \<Longrightarrow> CHR ''*'' \<notin> set path \<Longrightarrow>
      ws_router site patterns path = Some (path, [])"
    and "i \<in> set nav_entries"
  obtains r where "find_route site ''GET'' (ni_path i) = Some (r, [])" and "rt_guard r = Permission (ni_permission i)"
proof -
  have "entry_routed (app_routes (ws_api_key site)) i" using entries_routed assms(2) by (auto simp: list_all_iff)
  then obtain r where r: "find (\<lambda>r. rt_pattern r = ni_path i) (for_method ''GET'' (app_routes (ws_api_key site))) = Some r"
    and g: "rt_guard r = Permission (ni_permission i)" and c: "CHR ''{'' \<notin> set (ni_path i)" "CHR ''*'' \<notin> set (ni_path i)"
    by (auto simp: entry_routed_def split: option.split_asm)
  have "ni_path i \<in> set (map rt_pattern (for_method ''GET'' (app_routes (ws_api_key site))))"
    using r by (auto simp: find_Some_iff intro!: image_eqI [of _ _ r] nth_mem)
  from assms(1) [OF this c] have "find_route site ''GET'' (ni_path i) = Some (r, [])"
    using r by (simp add: find_route_def Let_def)
  then show thesis using g that by blast
qed

lemma allowed_leaves_set: "set (allowed_leaves_all current can is) = (\<Union>i \<in> set is. set (allowed_leaves current can i))"
  by (induction "is") auto

text \<open>All entries are leaves with different paths and one permission each.\<close>

definition plain_entry :: "nav_item \<Rightarrow> bool" where
  "plain_entry i \<longleftrightarrow> ni_children i = [] \<and> ni_any i = [] \<and> ni_permission i \<noteq> ''''"

lemma entries_plain: "list_all plain_entry nav_entries" "distinct (map ni_path nav_entries)"
  by code_simp+

lemma plain_allowed:
  "plain_entry i \<Longrightarrow> set (allowed_leaves current can i) = (if can (ni_permission i) then {(ni_path i, nav_matches (ni_match i) (ni_path i) current)} else {})"
  by (cases i) (auto simp: plain_entry_def item_visible_def)

lemma entries_shown:
  assumes "i \<in> set nav_entries"
  shows "(\<exists>active. (ni_path i, active) \<in> set (concat (map (\<lambda>g. allowed_leaves_all current can (ng_items g)) navigation_groups)))
     \<longleftrightarrow> can (ni_permission i)"
proof -
  have "set (concat (map (\<lambda>g. allowed_leaves_all current can (ng_items g)) navigation_groups))
      = (\<Union>e \<in> set nav_entries. set (allowed_leaves current can e))"
    by (auto simp: allowed_leaves_set nav_entries_def)
  also have "\<dots> = (\<Union>e \<in> set nav_entries. if can (ni_permission e) then {(ni_path e, nav_matches (ni_match e) (ni_path e) current)} else {})"
    using entries_plain(1) plain_allowed by (intro SUP_cong) (auto simp: list_all_iff)
  finally show ?thesis
    using assms entries_plain(2) by (auto simp: distinct_map inj_on_def split: if_split_asm) 
qed

section \<open>Properties\<close>

text \<open>
  C31. No handler runs unguarded. However chi matches paths, a request reaches the handler of a feature only with the
  cookie of an unexpired session of an active user who holds the permission the feature is registered with (the
  loan inquiry is everybody's), and as that user; it reaches the API only with the configured key, which is not
  empty; a request of another method than GET, HEAD or OPTIONS reaches a browser handler only from the
  same origin; and every other reached endpoint is one of the six public ones or the login and logout.
\<close>

theorem routes_guarded:
  "dispatch site fails now q db = (Reached e params p, cks, db') \<longrightarrow>
     (\<forall>r k. r \<in> set (app_routes (ws_api_key site)) \<and> rt_endpoint r = e \<and> rt_guard r = Permission k \<longrightarrow>
        (\<exists>pr raw s u. p = Some pr \<and> cookie_read (ws_cookies site) (wr_cookies q) = Some raw \<and> s \<in> set (ad_sessions db)
           \<and> se_token_hash s = ws_hash site raw \<and> now < se_expires_at s \<and> u \<in> set (ad_users db) \<and> us_id u = se_user_id s
           \<and> us_active u \<and> pr_user_id pr = us_id u \<and> (user_has_permission (us_id u) k db \<or> k = ''loan.inquiry'')))
     \<and> (e = ApiContractual \<longrightarrow>
          ws_api_key site \<noteq> '''' \<and> api_authenticated (ws_sha site) (ws_api_key site) (wr_authorization q))
     \<and> (e \<noteq> ApiContractual \<and> e \<notin> rt_endpoint ` set public_routes \<longrightarrow> cross_origin_allowed q)
     \<and> (e \<in> rt_endpoint ` set (public_routes @ api_routes @ login_routes) \<or> p \<noteq> None)"
proof
  assume "dispatch site fails now q db = (Reached e params p, cks, db')"
  then obtain r where f: "find_route site (wr_method q) (wr_path q) = Some (r, params)" and e: "rt_endpoint r = e"
    and g: "rt_guard r = Unguarded \<and> p = None \<and> db' = db
     \<or> rt_guard r = ApiKey \<and> p = None \<and> db' = db \<and> api_authenticated (ws_sha site) (ws_api_key site) (wr_authorization q)
     \<or> rt_guard r \<noteq> Unguarded \<and> rt_guard r \<noteq> ApiKey \<and> cross_origin_allowed q \<and> session_guard (rt_guard r) p q = None
       \<and> load_principal (ws_cookies site) (ws_hash site) fails now (wr_cookies q) db = (Inr p, cks, db')"
    by (rule dispatch_Reached)
  note r = find_route_Some(1) [OF f]
  have perm: "\<exists>pr raw s u. p = Some pr \<and> cookie_read (ws_cookies site) (wr_cookies q) = Some raw \<and> s \<in> set (ad_sessions db)
           \<and> se_token_hash s = ws_hash site raw \<and> now < se_expires_at s \<and> u \<in> set (ad_users db) \<and> us_id u = se_user_id s
           \<and> us_active u \<and> pr_user_id pr = us_id u \<and> (user_has_permission (us_id u) k db \<or> k = ''loan.inquiry'')"
    if "x \<in> set (app_routes (ws_api_key site))" "rt_endpoint x = e" "rt_guard x = Permission k" for x k
  proof -
    have "rt_guard r = Permission k" using app_routes_guard [OF r that(1)] that(2,3) e by simp
    then obtain pr where "p = Some pr" "principal_can pr k"
      "load_principal (ws_cookies site) (ws_hash site) fails now (wr_cookies q) db = (Inr (Some pr), cks, db')"
      using g by (auto simp: session_guard_None)
    then show ?thesis using load_principal_user by blast
  qed
  have groups: "r \<in> set public_routes \<or> r \<in> set api_routes \<or> r \<in> set login_routes \<or> (\<exists>k. rt_guard r = Permission k)"
  proof -
    have "list_all (\<lambda>r. case rt_guard r of Permission _ \<Rightarrow> True | _ \<Rightarrow> False) feature_routes" by code_simp
    then have "r \<in> set feature_routes \<Longrightarrow> \<exists>k. rt_guard r = Permission k" by (cases "rt_guard r") (auto simp: list_all_iff)
    then show ?thesis using r by (auto simp: app_routes_def split: if_split_asm)
  qed
  have "e = ApiContractual \<longrightarrow> ws_api_key site \<noteq> '''' \<and> api_authenticated (ws_sha site) (ws_api_key site) (wr_authorization q)"
    using guarded_endpoints(2,3) [OF r] g e by auto
  moreover have "e \<noteq> ApiContractual \<and> e \<notin> rt_endpoint ` set public_routes \<longrightarrow> cross_origin_allowed q"
    using guarded_endpoints(1,2) [OF r] g e by auto
  moreover have "e \<in> rt_endpoint ` set (public_routes @ api_routes @ login_routes) \<or> p \<noteq> None"
    using groups e perm [OF r] by auto
  ultimately show "(\<forall>r k. r \<in> set (app_routes (ws_api_key site)) \<and> rt_endpoint r = e \<and> rt_guard r = Permission k \<longrightarrow>
        (\<exists>pr raw s u. p = Some pr \<and> cookie_read (ws_cookies site) (wr_cookies q) = Some raw \<and> s \<in> set (ad_sessions db)
           \<and> se_token_hash s = ws_hash site raw \<and> now < se_expires_at s \<and> u \<in> set (ad_users db) \<and> us_id u = se_user_id s
           \<and> us_active u \<and> pr_user_id pr = us_id u \<and> (user_has_permission (us_id u) k db \<or> k = ''loan.inquiry'')))
     \<and> (e = ApiContractual \<longrightarrow>
          ws_api_key site \<noteq> '''' \<and> api_authenticated (ws_sha site) (ws_api_key site) (wr_authorization q))
     \<and> (e \<noteq> ApiContractual \<and> e \<notin> rt_endpoint ` set public_routes \<longrightarrow> cross_origin_allowed q)
     \<and> (e \<in> rt_endpoint ` set (public_routes @ api_routes @ login_routes) \<or> p \<noteq> None)"
    using perm by blast
qed

text \<open>
  C32. The navigation opens what it shows and hides what it does not: for every entry of the shipped navigation, a GET of
  its path with the session of a principal reaches a handler exactly when the navigation prepared for that
  principal shows the entry, and is answered with the forbidden page otherwise. A pattern without
  placeholders is matched by exactly the path it spells (chi's documentation).
\<close>

theorem navigation_links_open:
  assumes "\<And>patterns path. path \<in> set patterns \<Longrightarrow> CHR ''{'' \<notin> set path \<Longrightarrow> CHR ''*'' \<notin> set path \<Longrightarrow>
      ws_router site patterns path = Some (path, [])"
    and "load_principal (ws_cookies site) (ws_hash site) fails now (wr_cookies q) db = (Inr (Some pr), cks, db1)"
    and "i \<in> set (concat (map ng_items navigation_groups))" and "wr_method q = ''GET''" and "wr_path q = ni_path i"
  shows "if (\<exists>active. (ni_path i, active) \<in>
           set (concat (map (\<lambda>g. views_leaves (gv_items g)) (prepare navigation_groups (wr_path q) (principal_can pr)))))
         then \<exists>e. dispatch site fails now q db = (Reached e [] (Some pr), cks, db1)
         else dispatch site fails now q db = (Refused (AdminPage 403 ''forbidden''), cks, db1)"
proof -
  have shown: "(\<exists>active. (ni_path i, active) \<in>
      set (concat (map (\<lambda>g. views_leaves (gv_items g)) (prepare navigation_groups (wr_path q) (principal_can pr)))))
      \<longleftrightarrow> principal_can pr (ni_permission i)"
    unfolding prepared_leaves using entries_shown [of i "wr_path q" "principal_can pr"] assms(3) by (simp add: nav_entries_def)
  have "i \<in> set nav_entries" using assms(3) by (simp add: nav_entries_def)
  with assms(1) obtain r where f: "find_route site ''GET'' (ni_path i) = Some (r, [])" and g: "rt_guard r = Permission (ni_permission i)"
    by (rule nav_route)
  have "cross_origin_allowed q" using assms(4) by (simp add: cross_origin_allowed_def)
  then show ?thesis
    unfolding shown using f g assms(2,4,5)
    by (simp add: dispatch_def session_guard_def require_auth_def)
qed

section \<open>A sample site\<close>

definition literal_router :: "string list \<Rightarrow> string \<Rightarrow> (string \<times> string list) option" where
  "literal_router patterns path = (if path \<in> set patterns then Some (path, []) else None)"

definition sample_web :: web_site where
  "sample_web = \<lparr>ws_router = literal_router, ws_cookies = sample_cookies, ws_hash = (\<lambda>_. ''h''), ws_sha = id, ws_api_key = ''k1''\<rparr>"

definition sample_get :: "string \<Rightarrow> web_request" where
  "sample_get path =
     \<lparr>wr_method = ''GET'', wr_path = path, wr_uri = path, wr_host = ''trs'', wr_fetch_site = '''', wr_origin_host = None,
      wr_hx = False, wr_authorization = [], wr_cookies = [(''trs'', generate_token (replicate 32 200))]\<rparr>"

definition sample_visit :: "string \<Rightarrow> dispatched \<times> cookie list \<times> access_db" where
  "sample_visit path = dispatch sample_web [] 20 (sample_get path) sample_session_db"

text \<open>The outcome of a visit by its endpoint or its status.\<close>

definition visit_outcome :: "dispatched \<Rightarrow> endpoint option \<times> int" where
  "visit_outcome d =
     (case d of Reached e _ _ \<Rightarrow> (Some e, 200) | Refused (AdminPage status _) \<Rightarrow> (None, status) | _ \<Rightarrow> (None, 0))"

lemma sample_principal:
  "fst (load_principal sample_cookies (\<lambda>_. ''h'') [] 20 (wr_cookies (sample_get path)) sample_session_db) \<noteq> Inr None
   \<and> \<not> isl (fst (load_principal sample_cookies (\<lambda>_. ''h'') [] 20 (wr_cookies (sample_get path)) sample_session_db))"
proof -
  have c: "wr_cookies (sample_get path) = [(''trs'', generate_token (replicate 32 200))]" by (simp add: sample_get_def)
  show ?thesis unfolding c sample_session_db_def sample_db_def by code_simp
qed

lemma sample_access_visit: "visit_outcome (fst (sample_visit ''/access'')) = (Some UsersIndex, 200)"
  unfolding sample_visit_def sample_session_db_def sample_db_def by code_simp

lemma sample_sel:
  "path \<in> set patterns \<Longrightarrow> CHR ''{'' \<notin> set path \<Longrightarrow> CHR ''*'' \<notin> set path \<Longrightarrow> ws_router sample_web patterns path = Some (path, [])"
  "ws_cookies sample_web = sample_cookies" "ws_hash sample_web = (\<lambda>_. ''h'')" "wr_path (sample_get path) = path"
  "wr_method (sample_get path) = ''GET''"
  by (simp_all add: sample_web_def literal_router_def sample_get_def)

theorem routes_guarded_witness:
  "\<exists>params p. fst (sample_visit ''/access'') = Reached UsersIndex params p
     \<and> (\<exists>pr u. p = Some pr \<and> u \<in> set (ad_users sample_session_db) \<and> us_active u \<and> pr_user_id pr = us_id u
          \<and> user_has_permission (us_id u) ''access.manage'' sample_session_db)"
proof -
  obtain params p cks db' where v: "sample_visit ''/access'' = (Reached UsersIndex params p, cks, db')"
    using sample_access_visit
    by (cases "sample_visit ''/access''") (auto simp: visit_outcome_def split: dispatched.split_asm admin_response.split_asm)
  then have d: "dispatch sample_web [] 20 (sample_get ''/access'') sample_session_db = (Reached UsersIndex params p, cks, db')"
    by (simp add: sample_visit_def)
  have "mk_route (Permission permission_manage) ''GET'' ''/access'' UsersIndex \<in> set (app_routes (ws_api_key sample_web))"
    by (simp add: app_routes_def feature_routes_def users_routes_def)
  moreover have "rt_endpoint (mk_route g m pat e) = e" "rt_guard (mk_route g m pat e) = g" for g m pat e by (simp_all add: mk_route_def)
  ultimately have "\<exists>pr raw s u. p = Some pr \<and> cookie_read (ws_cookies sample_web) (wr_cookies (sample_get ''/access'')) = Some raw
      \<and> s \<in> set (ad_sessions sample_session_db) \<and> se_token_hash s = ws_hash sample_web raw \<and> 20 < se_expires_at s
      \<and> u \<in> set (ad_users sample_session_db) \<and> us_id u = se_user_id s \<and> us_active u \<and> pr_user_id pr = us_id u
      \<and> (user_has_permission (us_id u) permission_manage sample_session_db \<or> permission_manage = ''loan.inquiry'')"
    using conjunct1 [OF mp [OF routes_guarded d]] by blast
  then show ?thesis unfolding v by (simp add: permission_manage_def) blast
qed

theorem navigation_links_open_witness:
  "(\<exists>e params p. fst (sample_visit ''/access'') = Reached e params p)
   \<and> (\<exists>i \<in> set nav_entries. ni_path i = ''/access'' \<and> fst (sample_visit (ni_path i)) \<noteq> Unrouted)"
proof -
  obtain p cks db1 where l: "load_principal sample_cookies (\<lambda>_. ''h'') [] 20 (wr_cookies (sample_get ''/access'')) sample_session_db = (Inr (Some p), cks, db1)"
    using sample_principal [of "''/access''"]
    by (cases "load_principal sample_cookies (\<lambda>_. ''h'') [] 20 (wr_cookies (sample_get ''/access'')) sample_session_db")
      (metis fst_conv isl_def not_Some_eq sum.collapse(2))
  have i: "users_navigation \<in> set (concat (map ng_items navigation_groups))" "ni_path users_navigation = ''/access''"
    by (simp_all add: navigation_groups_def users_navigation_def leaf_item_def)
  have "if (\<exists>active. (ni_path users_navigation, active) \<in> set (concat (map (\<lambda>g. views_leaves (gv_items g))
             (prepare navigation_groups (wr_path (sample_get ''/access'')) (principal_can p)))))
         then \<exists>e. dispatch sample_web [] 20 (sample_get ''/access'') sample_session_db = (Reached e [] (Some p), cks, db1)
         else dispatch sample_web [] 20 (sample_get ''/access'') sample_session_db = (Refused (AdminPage 403 ''forbidden''), cks, db1)"
    by (rule navigation_links_open) (use l i in \<open>simp_all add: sample_sel\<close>)
  then have "\<exists>e. sample_visit ''/access'' = (Reached e [] (Some p), cks, db1)"
    using sample_access_visit by (auto simp: visit_outcome_def sample_visit_def split: if_split_asm)
  then show ?thesis using i by (auto simp: nav_entries_def intro!: bexI [of _ users_navigation])
qed

end
