(* ===== verification/Settings.thy ===== *)
theory Settings
  imports Go_Text Go_Float
begin

text \<open>
  The configuration, \<open>src/internal/config/config.go\<close>: reading the environment variables with their defaults, the
  texts of booleans, numbers and durations (\<open>time.ParseDuration\<close>, a \<open>time.Duration\<close> is a number of nanoseconds), and the
  validation for the server. The environment is a lookup function; \<open>url.Parse\<close> and the time zone database are
  parameters.
\<close>

section \<open>Durations\<close>

definition nanosecond_units :: "(string \<times> int) list" where
  "nanosecond_units =
     [(''ns'', 1), (''us'', 1000), ([CHR 0xC2, CHR 0xB5] @ ''s'', 1000), ([CHR 0xCE, CHR 0xBC] @ ''s'', 1000),
      (''ms'', 1000000), (''s'', 1000000000), (''m'', 60000000000), (''h'', 3600000000000)]"

text \<open>
  \<open>leadingInt\<close>: the leading digits as a number of at most \<open>2 ^ 63\<close>, whether there were any, and the rest;
  \<open>leadingFraction\<close>: further digits are read but ignored once the number is too big.
\<close>

fun leading_int :: "int \<Rightarrow> bool \<Rightarrow> string \<Rightarrow> (int \<times> bool \<times> string) option" where
  "leading_int x seen [] = Some (x, seen, [])"
| "leading_int x seen (c # cs) =
     (if \<not> is_digit c then Some (x, seen, c # cs)
      else if 2 ^ 63 div 10 < x \<or> 2 ^ 63 < x * 10 + int (digit_value c) then None
      else leading_int (x * 10 + int (digit_value c)) True cs)"

fun leading_fraction :: "int \<Rightarrow> nat \<Rightarrow> bool \<Rightarrow> bool \<Rightarrow> string \<Rightarrow> int \<times> nat \<times> bool \<times> string" where
  "leading_fraction x k over seen [] = (x, k, seen, [])"
| "leading_fraction x k over seen (c # cs) =
     (if \<not> is_digit c then (x, k, seen, c # cs)
      else if over \<or> (2 ^ 63 - 1) div 10 < x \<or> 2 ^ 63 < x * 10 + int (digit_value c) then leading_fraction x k True True cs
      else leading_fraction (x * 10 + int (digit_value c)) (Suc k) False True cs)"

text \<open>The fraction of a unit is computed in \<open>float64\<close>: \<open>uint64(float64(f) * (float64(unit) / scale))\<close>.\<close>

definition fraction_of_unit :: "int \<Rightarrow> nat \<Rightarrow> int \<Rightarrow> int" where
  "fraction_of_unit f k u = \<lfloor>round_mag (round_mag (of_int f) * round_mag (of_int u / 10 ^ k))\<rfloor>"

definition unit_text :: "string \<Rightarrow> string \<times> string" where
  "unit_text s = (let letter = (\<lambda>c. c \<noteq> CHR ''.'' \<and> \<not> is_digit c) in (takeWhile letter s, dropWhile letter s))"

definition after_point :: "string \<Rightarrow> int \<times> nat \<times> bool \<times> string" where
  "after_point s = (if s \<noteq> [] \<and> hd s = CHR ''.'' then leading_fraction 0 0 False False (tl s) else (0, 0, False, s))"

text \<open>One element of a duration: its nanoseconds, at most \<open>2 ^ 63\<close>, and the rest of the text.\<close>

definition duration_element :: "string \<Rightarrow> (int \<times> string) option" where
  "duration_element s =
     (case leading_int 0 False s of None \<Rightarrow> None
      | Some (v, pre, s1) \<Rightarrow>
        (case after_point s1 of (f, k, post, s2) \<Rightarrow>
         case unit_text s2 of (u, s3) \<Rightarrow>
           if \<not> pre \<and> \<not> post \<or> u = [] then None
           else (case map_of nanosecond_units u of None \<Rightarrow> None
             | Some unit \<Rightarrow>
                 if 2 ^ 63 div unit < v then None
                 else (let w = v * unit + (if 0 < f then fraction_of_unit f k unit else 0) in
                   if 2 ^ 63 < w then None else Some (w, s3)))))"

lemma leading_int_rest: "leading_int x seen s = Some (v, pre, r) \<Longrightarrow> length r \<le> length s"
  by (induction x seen s rule: leading_int.induct) (auto split: if_split_asm)

lemma leading_fraction_rest: "leading_fraction x k over seen s = (f, m, post, r) \<Longrightarrow> length r \<le> length s"
  by (induction x k over seen s rule: leading_fraction.induct) (auto split: if_split_asm)

lemma duration_element_rest:
  assumes "duration_element s = Some (w, r)"
  shows "length r < length s"
proof -
  obtain v pre s1 f k post s2 u where e: "leading_int 0 False s = Some (v, pre, s1)" "after_point s1 = (f, k, post, s2)"
    "unit_text s2 = (u, r)" "u \<noteq> []"
    using assms by (auto simp: duration_element_def Let_def split: option.split_asm prod.split_asm if_split_asm)
  have "length s1 \<le> length s" by (rule leading_int_rest [OF e(1)])
  moreover have "length s2 \<le> length s1"
    using e(2) leading_fraction_rest [of 0 0 False False "tl s1"] by (fastforce simp: after_point_def split: if_split_asm)
  moreover have "length r < length s2"
  proof -
    have "s2 = u @ r" using e(3) by (auto simp: unit_text_def Let_def)
    then show ?thesis using e(4) by simp
  qed
  ultimately show ?thesis by simp
qed

function duration_sum :: "int \<Rightarrow> string \<Rightarrow> int option" where
  "duration_sum d s =
     (if s = [] then Some d
      else case duration_element s of None \<Rightarrow> None
        | Some (w, r) \<Rightarrow>
            let d' = (d + w) mod 2 ^ 64 in if 2 ^ 63 < d' then None else duration_sum d' r)"
  by pat_completeness auto
termination
  by (relation "measure (\<lambda>(d, s). length s)") (auto dest: duration_element_rest)

declare duration_sum.simps [simp del]

text \<open>\<open>time.ParseDuration\<close>; the sum is a \<open>uint64\<close> and wraps before it is compared.\<close>

definition time_parse_duration :: "string \<Rightarrow> int option" where
  "time_parse_duration s =
     (case split_sign s of (neg, t) \<Rightarrow>
        if t = ''0'' then Some 0 else if t = [] then None
        else (case duration_sum 0 t of None \<Rightarrow> None
          | Some d \<Rightarrow> if neg then Some (- d) else if d = 2 ^ 63 then None else Some d))"

text \<open>\<open>Duration.String\<close> of a whole number of seconds, at least one, as the defaults are.\<close>

definition duration_text :: "nat \<Rightarrow> string" where
  "duration_text n =
     (if n < 60 then utoa n @ ''s''
      else if n < 3600 then utoa (n div 60) @ ''m'' @ utoa (n mod 60) @ ''s''
      else utoa (n div 3600) @ ''h'' @ utoa (n div 60 mod 60) @ ''m'' @ utoa (n mod 60) @ ''s'')"

lemma leading_int_digits:
  assumes "list_all is_digit s" and "int (digits_value_from x s) \<le> 2 ^ 63" and "r = [] \<or> \<not> is_digit (hd r)"
  shows "leading_int (int x) seen (s @ r) = Some (int (digits_value_from x s), seen \<or> s \<noteq> [], r)"
  using assms
proof (induction s arbitrary: x seen)
  case Nil
  then show ?case by (cases r) auto
next
  case (Cons c s)
  have grow: "y \<le> digits_value_from y s" for y
  proof -
    have "y * 1 \<le> y * 10 ^ length s" by (rule mult_le_mono2) simp
    then show ?thesis using digits_value_from_eq [of y s] by linarith
  qed
  have "10 * x + digit_value c \<le> digits_value_from (10 * x + digit_value c) s" by (rule grow)
  then have small: "int (10 * x + digit_value c) \<le> 2 ^ 63" using Cons.prems(2) by simp
  then have "\<not> 2 ^ 63 div 10 < int x" by simp
  then show ?case
    using Cons.IH [of "10 * x + digit_value c" True] Cons.prems small by (simp add: mult.commute)
qed

lemma leading_int_utoa:
  assumes "int n \<le> 2 ^ 63" and "r = [] \<or> \<not> is_digit (hd r)"
  shows "leading_int 0 False (utoa n @ r) = Some (int n, True, r)"
  using leading_int_digits [OF utoa_digits [of n] _ assms(2), of 0 False] assms(1) digits_value_utoa [of n]
  by (simp add: digits_value_def)

lemma duration_element_unit:
  assumes "map_of nanosecond_units [c] = Some unit" and "0 < unit" and "int n * unit \<le> 2 ^ 63" and "c \<noteq> CHR ''.''" and "\<not> is_digit c"
    and "r = [] \<or> is_digit (hd r)"
  shows "duration_element (utoa n @ c # r) = Some (int n * unit, r)"
proof -
  have "int n \<le> 2 ^ 63 div unit" using zdiv_mono1 [OF assms(3,2)] assms(2) by simp
  moreover have "int n * 1 \<le> int n * unit" using assms(2) by (intro mult_left_mono) simp_all
  then have "int n \<le> 2 ^ 63" using assms(3) by linarith
  moreover have "unit_text (c # r) = ([c], r)" using assms(4-6) by (cases r) (auto simp: unit_text_def)
  ultimately show ?thesis
    using assms leading_int_utoa [of n "c # r"] by (auto simp: duration_element_def after_point_def)
qed

lemma nanosecond_units_simps [simp]:
  "map_of nanosecond_units ''s'' = Some 1000000000" "map_of nanosecond_units ''m'' = Some 60000000000"
  "map_of nanosecond_units ''h'' = Some 3600000000000"
  by (simp_all add: nanosecond_units_def)

lemma utoa_hd: "is_digit (hd (utoa n @ r))"
  using utoa_digits [of n] by (cases "utoa n") auto

text \<open>The text of a duration reads back as the duration.\<close>

lemma duration_text_roundtrip:
  assumes "int n * 1000000000 < 2 ^ 63"
  shows "time_parse_duration (duration_text n) = Some (int n * 1000000000)"
proof -
  have letters: "\<not> is_digit (CHR ''s'')" "\<not> is_digit (CHR ''m'')" "\<not> is_digit (CHR ''h'')" by code_simp+
  let ?h = "n div 3600" and ?m = "n div 60 mod 60" and ?s = "n mod 60"
  have sec: "duration_sum d (utoa k @ ''s'') = Some (d + int k * 1000000000)" if "0 \<le> d" "d + int k * 1000000000 < 2 ^ 63" for d k
  proof -
    have "duration_element (utoa k @ ''s'') = Some (int k * 1000000000, [])"
      using duration_element_unit [of "CHR ''s''" _ k "[]"] letters that by simp
    then show ?thesis using that by (simp add: duration_sum.simps [of d] duration_sum.simps [of _ "[]"] Let_def)
  qed
  have min: "duration_sum d (utoa k @ ''m'' @ utoa j @ ''s'') = Some (d + int k * 60000000000 + int j * 1000000000)"
    if "0 \<le> d" "d + int k * 60000000000 + int j * 1000000000 < 2 ^ 63" for d k j
  proof -
    have "duration_element (utoa k @ CHR ''m'' # utoa j @ ''s'') = Some (int k * 60000000000, utoa j @ ''s'')"
      using duration_element_unit [of "CHR ''m''" _ k "utoa j @ ''s''"] letters that utoa_hd [of j "''s''"] by simp
    then show ?thesis using that sec [of "d + int k * 60000000000" j]
      by (simp add: duration_sum.simps [of d "utoa k @ CHR ''m'' # utoa j @ ''s''"] Let_def)
  qed
  have sign: "split_sign (duration_text n) = (False, duration_text n)" "duration_text n \<noteq> ''0''" "duration_text n \<noteq> []"
  proof -
    have "\<exists>k r. duration_text n = utoa k @ r \<and> r \<noteq> []"
      unfolding duration_text_def by (split if_split, split if_split) blast
    then obtain k r where t: "duration_text n = utoa k @ r" and r: "r \<noteq> []" by blast
    have "\<not> is_digit (CHR ''-'')" "\<not> is_digit (CHR ''+'')" by code_simp+
    then show "split_sign (duration_text n) = (False, duration_text n)" "duration_text n \<noteq> []"
      using utoa_hd [of k r] unfolding t split_sign_def by auto
    show "duration_text n \<noteq> ''0''"
      unfolding t using r utoa_not_Nil [of k] by (cases "utoa k") auto
  qed
  have "duration_sum 0 (duration_text n) = Some (int n * 1000000000)"
  proof -
    consider "n < 60" | "60 \<le> n" "n < 3600" | "3600 \<le> n" by linarith
    then show ?thesis
    proof cases
      case 1
      then show ?thesis using sec [of 0 n] assms by (simp add: duration_text_def)
    next
      case 2
      have "n = n div 60 * 60 + n mod 60" by simp
      then have "int n = int (n div 60) * 60 + int (n mod 60)" by linarith
      then show ?thesis using min [of 0 "n div 60" "n mod 60"] assms 2 by (simp add: duration_text_def algebra_simps)
    next
      case 3
      have n: "int n = int ?h * 3600 + int ?m * 60 + int ?s"
      proof -
        have "n = n div 60 * 60 + n mod 60" "n div 60 = n div 60 div 60 * 60 + n div 60 mod 60" by simp_all
        moreover have "n div 60 div 60 = n div 3600" by (simp add: div_mult2_eq [symmetric])
        ultimately show ?thesis by linarith
      qed
      have "duration_element (utoa ?h @ CHR ''h'' # utoa ?m @ ''m'' @ utoa ?s @ ''s'')
          = Some (int ?h * 3600000000000, utoa ?m @ ''m'' @ utoa ?s @ ''s'')"
        using duration_element_unit [of "CHR ''h''" _ ?h "utoa ?m @ ''m'' @ utoa ?s @ ''s''"] letters assms n
          utoa_hd [of ?m "''m'' @ utoa ?s @ ''s''"] by simp
      then show ?thesis
        using 3 n assms min [of "int ?h * 3600000000000" ?m ?s]
        by (simp add: duration_text_def duration_sum.simps [of 0 "utoa ?h @ CHR ''h'' # utoa ?m @ CHR ''m'' # utoa ?s @ ''s''"] Let_def algebra_simps)
    qed
  qed
  moreover have "int n * 1000000000 \<noteq> 2 ^ 63" using assms by simp
  ultimately show ?thesis using sign by (simp add: time_parse_duration_def)
qed

section \<open>The configuration\<close>

record app_config =
  ap_name :: string
  ap_environment :: string
  ap_url :: string
  ap_bind_host :: string
  ap_port :: int
  ap_shutdown_timeout :: int
  ap_timezone :: string
  ap_logo_file :: string
  ap_wide_logo_file :: string
  ap_favicon_file :: string

record database_config =
  db_network :: string
  db_host :: string
  db_port :: int
  db_socket :: string
  db_name :: string
  db_user :: string
  db_password :: string

record auth_config =
  au_failure_window :: int
  au_max_failures :: int
  au_lockout :: int

record session_config =
  se_cookie_name :: string
  se_lifetime :: int
  se_remember_lifetime :: int
  se_secure :: bool

record fincloud_config =
  fc_base_url :: string
  fc_username :: string
  fc_password :: string
  fc_location_id :: string
  fc_role_id :: string
  fc_ca_file :: string
  fc_insecure_tls :: bool
  fc_timeout :: int
  fc_max_report_size :: int

record snapshot_config =
  sn_refresh_interval :: int
  sn_refresh_on_start :: bool

record slik_config =
  sk_concurrency :: int
  sk_max_upload_bytes :: int
  sk_storage_dir :: string

record settings =
  cf_app :: app_config
  cf_api_key :: string
  cf_bootstrap_managers :: string
  cf_database :: database_config
  cf_session :: session_config
  cf_auth :: auth_config
  cf_dwh_dsn :: string
  cf_mso_dsn :: string
  cf_fincloud :: fincloud_config
  cf_snapshot :: snapshot_config
  cf_slik :: slik_config
  cf_lps_participant_code :: string

definition is_development :: "app_config \<Rightarrow> bool" where
  "is_development c \<longleftrightarrow> ap_environment c = ''development''"

text \<open>\<open>net.JoinHostPort\<close>: an IPv6 address is put in brackets.\<close>

definition listen_address :: "app_config \<Rightarrow> string" where
  "listen_address c =
     (if CHR '':'' \<in> set (ap_bind_host c) then ''['' @ ap_bind_host c @ '']:'' @ itoa (ap_port c)
      else ap_bind_host c @ '':'' @ itoa (ap_port c))"

section \<open>Reading values\<close>

type_synonym environment = "string \<Rightarrow> string option"
type_synonym 'a setting = "string + 'a"

definition env_value :: "environment \<Rightarrow> string \<Rightarrow> string \<Rightarrow> string" where
  "env_value lookup key fallback = (case lookup key of Some v \<Rightarrow> v | None \<Rightarrow> fallback)"

definition parse_port :: "string \<Rightarrow> string \<Rightarrow> int setting" where
  "parse_port key v =
     (case atoi v of
        Some port \<Rightarrow> if port < 1 \<or> 65535 < port then Inl (key @ '' must be an integer between 1 and 65535'') else Inr port
      | None \<Rightarrow> Inl (key @ '' must be an integer between 1 and 65535''))"

text \<open>\<open>strconv.ParseBool\<close>.\<close>

definition str_parse_bool :: "string \<Rightarrow> bool option" where
  "str_parse_bool v =
     (if v \<in> set [''1'', ''t'', ''T'', ''true'', ''TRUE'', ''True''] then Some True
      else if v \<in> set [''0'', ''f'', ''F'', ''false'', ''FALSE'', ''False''] then Some False else None)"

definition parse_bool_setting :: "string \<Rightarrow> string \<Rightarrow> bool setting" where
  "parse_bool_setting key v = (case str_parse_bool v of None \<Rightarrow> Inl (key @ '' must be a boolean'') | Some b \<Rightarrow> Inr b)"

definition parse_duration_setting :: "string \<Rightarrow> string \<Rightarrow> int setting" where
  "parse_duration_setting key v =
     (case time_parse_duration v of
        Some d \<Rightarrow> if d \<le> 0 then Inl (key @ '' must be a positive duration'') else Inr d
      | None \<Rightarrow> Inl (key @ '' must be a positive duration''))"

definition parse_positive_int :: "string \<Rightarrow> string \<Rightarrow> int \<Rightarrow> int setting" where
  "parse_positive_int key v maximum =
     (case atoi v of
        Some n \<Rightarrow> if n \<le> 0 \<or> maximum < n then Inl (key @ '' must be an integer between 1 and '' @ itoa maximum) else Inr n
      | None \<Rightarrow> Inl (key @ '' must be an integer between 1 and '' @ itoa maximum))"

text \<open>\<open>strconv.ParseInt\<close> in base 10 with 64 bits accepts what \<open>Atoi\<close> accepts.\<close>

definition parse_positive_int64 :: "string \<Rightarrow> string \<Rightarrow> int setting" where
  "parse_positive_int64 key v =
     (case atoi v of
        Some n \<Rightarrow> if n \<le> 0 then Inl (key @ '' must be a positive integer'') else Inr n
      | None \<Rightarrow> Inl (key @ '' must be a positive integer''))"

section \<open>Validation\<close>

record url =
  ur_scheme :: string
  ur_host :: string
  ur_query :: string
  ur_fragment :: string

text \<open>The parameters of the validation: \<open>url.Parse\<close> and the names of the installed time zones.\<close>

record platform =
  pf_url :: "string \<Rightarrow> url option"
  pf_timezone :: "string \<Rightarrow> bool"

fun required_fields :: "string \<Rightarrow> (string \<times> string) list \<Rightarrow> unit setting" where
  "required_fields msg [] = Inr ()"
| "required_fields msg ((key, v) # rest) = (if v = '''' then Inl (key @ msg) else required_fields msg rest)"

definition validate_network :: "database_config \<Rightarrow> unit setting" where
  "validate_network d =
     (if db_network d = ''tcp'' then (if db_host d = '''' then Inl ''DB_HOST must not be empty'' else Inr ())
      else if db_network d = ''unix'' then (if db_socket d = '''' then Inl ''DB_SOCKET must not be empty when DB_NETWORK=unix'' else Inr ())
      else Inl ''DB_NETWORK must be one of tcp or unix'')"

definition app_environments :: "string list" where
  "app_environments = [''development'', ''production'', ''test'']"

definition web_url :: "platform \<Rightarrow> string list \<Rightarrow> string \<Rightarrow> bool" where
  "web_url pf schemes v \<longleftrightarrow> (case pf_url pf v of None \<Rightarrow> False | Some u \<Rightarrow> ur_host u \<noteq> '''' \<and> ur_scheme u \<in> set schemes)"

definition validate_settings :: "platform \<Rightarrow> settings \<Rightarrow> unit setting" where
  "validate_settings pf c =
     rbind (required_fields '' must not be empty''
        [(''APP_NAME'', ap_name (cf_app c)), (''APP_ENV'', ap_environment (cf_app c)), (''APP_TIMEZONE'', ap_timezone (cf_app c)),
         (''DB_NAME'', db_name (cf_database c)), (''DB_USER'', db_user (cf_database c)),
         (''SESSION_COOKIE_NAME'', se_cookie_name (cf_session c)), (''SLIK_STORAGE_DIR'', sk_storage_dir (cf_slik c))]) (\<lambda>_.
     rbind (validate_network (cf_database c)) (\<lambda>_.
     rbind (if ap_environment (cf_app c) \<in> set app_environments then Inr ()
            else Inl ''APP_ENV must be one of development, production, or test'') (\<lambda>_.
     rbind (if web_url pf [''http'', ''https''] (ap_url (cf_app c)) then Inr ()
            else Inl ''APP_URL must be an absolute http or https URL'') (\<lambda>_.
     if pf_timezone pf (ap_timezone (cf_app c)) then Inr () else Inl ''APP_TIMEZONE must name an installed timezone''))))"

definition validate_server :: "platform \<Rightarrow> settings \<Rightarrow> unit setting" where
  "validate_server pf c =
     rbind (required_fields '' must not be empty for server startup''
        [(''DWH_DBSTRING'', trim_space (cf_dwh_dsn c)), (''MSO_DBSTRING'', trim_space (cf_mso_dsn c)),
         (''FINCLOUD_BASE_URL'', trim_space (fc_base_url (cf_fincloud c))),
         (''FINCLOUD_SYSTEM_USERNAME'', trim_space (fc_username (cf_fincloud c))),
         (''FINCLOUD_SYSTEM_PASSWORD'', trim_space (fc_password (cf_fincloud c))),
         (''FINCLOUD_SYSTEM_LOCATION_ID'', trim_space (fc_location_id (cf_fincloud c))),
         (''FINCLOUD_SYSTEM_ROLE_ID'', trim_space (fc_role_id (cf_fincloud c)))]) (\<lambda>_.
     if web_url pf [''https''] (fc_base_url (cf_fincloud c)) then Inr ()
     else Inl ''FINCLOUD_BASE_URL must be an absolute https URL'')"

section \<open>Reading the environment\<close>

text \<open>
  The numbers, durations and booleans of \<open>parse\<close> in the order of the code, the first error wins; then the texts, and the
  validation.
\<close>

record parsed_values =
  pv_app_port :: int
  pv_database_port :: int
  pv_shutdown_timeout :: int
  pv_max_failures :: int
  pv_failure_window :: int
  pv_lockout :: int
  pv_session_secure :: bool
  pv_session_lifetime :: int
  pv_remember_lifetime :: int
  pv_insecure_tls :: bool
  pv_snapshot_interval :: int
  pv_snapshot_on_start :: bool
  pv_fincloud_timeout :: int
  pv_max_report_size :: int
  pv_slik_concurrency :: int
  pv_slik_upload_limit :: int

definition env_text :: "environment \<Rightarrow> string \<Rightarrow> string \<Rightarrow> string" where
  "env_text lookup key fallback = trim_space (env_value lookup key fallback)"

definition parse_values :: "environment \<Rightarrow> parsed_values setting" where
  "parse_values lookup =
     (let v = env_value lookup in
      rbind (parse_port ''APP_PORT'' (v ''APP_PORT'' ''8080'')) (\<lambda>app_port.
      rbind (if env_text lookup ''DB_NETWORK'' ''tcp'' = ''tcp'' then parse_port ''DB_PORT'' (v ''DB_PORT'' ''3306'') else Inr 0) (\<lambda>database_port.
      rbind (parse_duration_setting ''APP_SHUTDOWN_TIMEOUT'' (v ''APP_SHUTDOWN_TIMEOUT'' (duration_text 45))) (\<lambda>shutdown_timeout.
      rbind (parse_positive_int ''AUTH_LOGIN_MAX_FAILURES'' (v ''AUTH_LOGIN_MAX_FAILURES'' ''5'') 1000) (\<lambda>max_failures.
      rbind (parse_duration_setting ''AUTH_LOGIN_FAILURE_WINDOW'' (v ''AUTH_LOGIN_FAILURE_WINDOW'' ''15m'')) (\<lambda>failure_window.
      rbind (parse_duration_setting ''AUTH_LOGIN_LOCKOUT'' (v ''AUTH_LOGIN_LOCKOUT'' ''15m'')) (\<lambda>lockout.
      rbind (parse_bool_setting ''SESSION_SECURE'' (v ''SESSION_SECURE'' ''false'')) (\<lambda>session_secure.
      rbind (parse_duration_setting ''SESSION_LIFETIME'' (v ''SESSION_LIFETIME'' (duration_text 86400))) (\<lambda>session_lifetime.
      rbind (parse_duration_setting ''SESSION_REMEMBER_LIFETIME'' (v ''SESSION_REMEMBER_LIFETIME'' (duration_text 2592000)))
        (\<lambda>remember_lifetime.
      rbind (parse_bool_setting ''FINCLOUD_INSECURE_TLS'' (v ''FINCLOUD_INSECURE_TLS'' ''false'')) (\<lambda>insecure_tls.
      rbind (parse_duration_setting ''TODAY_SNAPSHOT_REFRESH_INTERVAL'' (v ''TODAY_SNAPSHOT_REFRESH_INTERVAL'' (duration_text 10800)))
        (\<lambda>snapshot_interval.
      rbind (parse_bool_setting ''TODAY_SNAPSHOT_REFRESH_ON_START'' (v ''TODAY_SNAPSHOT_REFRESH_ON_START'' ''true'')) (\<lambda>snapshot_on_start.
      rbind (parse_duration_setting ''FINCLOUD_HTTP_TIMEOUT'' (v ''FINCLOUD_HTTP_TIMEOUT'' (duration_text 30))) (\<lambda>fincloud_timeout.
      rbind (parse_positive_int64 ''FINCLOUD_MAX_REPORT_BYTES'' (v ''FINCLOUD_MAX_REPORT_BYTES'' ''104857600'')) (\<lambda>max_report_size.
      rbind (parse_positive_int ''SLIK_CONCURRENCY'' (v ''SLIK_CONCURRENCY'' ''16'') 32) (\<lambda>slik_concurrency.
      rbind (parse_positive_int64 ''SLIK_MAX_UPLOAD_BYTES'' (v ''SLIK_MAX_UPLOAD_BYTES'' ''67108864'')) (\<lambda>slik_upload_limit.
      if 268435456 < slik_upload_limit then Inl ''SLIK_MAX_UPLOAD_BYTES must not exceed 268435456''
      else Inr \<lparr>pv_app_port = app_port, pv_database_port = database_port, pv_shutdown_timeout = shutdown_timeout,
             pv_max_failures = max_failures, pv_failure_window = failure_window, pv_lockout = lockout,
             pv_session_secure = session_secure, pv_session_lifetime = session_lifetime, pv_remember_lifetime = remember_lifetime,
             pv_insecure_tls = insecure_tls, pv_snapshot_interval = snapshot_interval, pv_snapshot_on_start = snapshot_on_start,
             pv_fincloud_timeout = fincloud_timeout, pv_max_report_size = max_report_size, pv_slik_concurrency = slik_concurrency,
             pv_slik_upload_limit = slik_upload_limit\<rparr>)))))))))))))))))"

definition settings_of :: "environment \<Rightarrow> parsed_values \<Rightarrow> settings" where
  "settings_of lookup n =
     (let t = env_text lookup in
      \<lparr>cf_app =
         \<lparr>ap_name = t ''APP_NAME'' ''THOR Rate Sync'', ap_environment = t ''APP_ENV'' ''development'',
          ap_url = t ''APP_URL'' ''http://localhost:8080'', ap_bind_host = t ''APP_BIND_HOST'' '''', ap_port = pv_app_port n,
          ap_shutdown_timeout = pv_shutdown_timeout n, ap_timezone = t ''APP_TIMEZONE'' ''Asia/Jakarta'',
          ap_logo_file = t ''APP_LOGO_FILE'' '''', ap_wide_logo_file = t ''APP_LOGO_WIDE_FILE'' '''',
          ap_favicon_file = t ''APP_FAVICON_FILE'' ''''\<rparr>,
       cf_api_key = t ''THOR_API_KEY'' '''', cf_bootstrap_managers = t ''THOR_BOOTSTRAP_ACCESS_MANAGERS'' '''',
       cf_database =
         \<lparr>db_network = t ''DB_NETWORK'' ''tcp'', db_host = t ''DB_HOST'' ''127.0.0.1'', db_port = pv_database_port n,
          db_socket = t ''DB_SOCKET'' '''', db_name = t ''DB_NAME'' '''', db_user = t ''DB_USER'' '''',
          db_password = env_value lookup ''DB_PASSWORD'' ''''\<rparr>,
       cf_session =
         \<lparr>se_cookie_name = t ''SESSION_COOKIE_NAME'' ''trs_session'', se_lifetime = pv_session_lifetime n,
          se_remember_lifetime = pv_remember_lifetime n, se_secure = pv_session_secure n\<rparr>,
       cf_auth = \<lparr>au_failure_window = pv_failure_window n, au_max_failures = pv_max_failures n, au_lockout = pv_lockout n\<rparr>,
       cf_dwh_dsn = t ''DWH_DBSTRING'' '''', cf_mso_dsn = t ''MSO_DBSTRING'' '''',
       cf_fincloud =
         \<lparr>fc_base_url = t ''FINCLOUD_BASE_URL'' '''', fc_username = t ''FINCLOUD_SYSTEM_USERNAME'' '''',
          fc_password = env_value lookup ''FINCLOUD_SYSTEM_PASSWORD'' '''', fc_location_id = t ''FINCLOUD_SYSTEM_LOCATION_ID'' '''',
          fc_role_id = t ''FINCLOUD_SYSTEM_ROLE_ID'' '''', fc_ca_file = t ''FINCLOUD_CA_FILE'' '''',
          fc_insecure_tls = pv_insecure_tls n, fc_timeout = pv_fincloud_timeout n, fc_max_report_size = pv_max_report_size n\<rparr>,
       cf_snapshot = \<lparr>sn_refresh_interval = pv_snapshot_interval n, sn_refresh_on_start = pv_snapshot_on_start n\<rparr>,
       cf_slik =
         \<lparr>sk_concurrency = pv_slik_concurrency n, sk_max_upload_bytes = pv_slik_upload_limit n,
          sk_storage_dir = t ''SLIK_STORAGE_DIR'' ''./data/slik''\<rparr>,
       cf_lps_participant_code = t ''LPS_DEFAULT_KODE_KEPESERTAAN'' ''31300082''\<rparr>)"

definition parse_settings :: "platform \<Rightarrow> environment \<Rightarrow> settings setting" where
  "parse_settings pf lookup =
     rbind (parse_values lookup) (\<lambda>n.
       let config = settings_of lookup n in rbind (validate_settings pf config) (\<lambda>_. Inr config))"

text \<open>\<open>Load\<close>: a missing \<open>.env\<close> file is no error; the variables it sets are part of \<open>lookup\<close> then.\<close>

datatype dotenv = DotenvLoaded | DotenvMissing | DotenvBroken

definition load_settings :: "platform \<Rightarrow> dotenv \<Rightarrow> environment \<Rightarrow> settings setting" where
  "load_settings pf file lookup = (if file = DotenvBroken then Inl ''load .env'' else parse_settings pf lookup)"

section \<open>What an accepted configuration is\<close>

abbreviation ok_duration :: "int \<Rightarrow> bool" where
  "ok_duration d \<equiv> 0 < d \<and> d < 2 ^ 63"

definition settings_ok :: "platform \<Rightarrow> settings \<Rightarrow> bool" where
  "settings_ok pf c \<longleftrightarrow>
     (1 \<le> ap_port (cf_app c) \<and> ap_port (cf_app c) \<le> 65535)
     \<and> (db_network (cf_database c) = ''tcp'' \<and> db_host (cf_database c) \<noteq> '''' \<and> 1 \<le> db_port (cf_database c) \<and> db_port (cf_database c) \<le> 65535
        \<or> db_network (cf_database c) = ''unix'' \<and> db_socket (cf_database c) \<noteq> '''' \<and> db_port (cf_database c) = 0)
     \<and> list_all ok_duration [ap_shutdown_timeout (cf_app c), au_failure_window (cf_auth c), au_lockout (cf_auth c),
          se_lifetime (cf_session c), se_remember_lifetime (cf_session c), sn_refresh_interval (cf_snapshot c), fc_timeout (cf_fincloud c)]
     \<and> (1 \<le> au_max_failures (cf_auth c) \<and> au_max_failures (cf_auth c) \<le> 1000)
     \<and> (1 \<le> sk_concurrency (cf_slik c) \<and> sk_concurrency (cf_slik c) \<le> 32)
     \<and> (1 \<le> sk_max_upload_bytes (cf_slik c) \<and> sk_max_upload_bytes (cf_slik c) \<le> 268435456)
     \<and> 1 \<le> fc_max_report_size (cf_fincloud c)
     \<and> '''' \<notin> set [ap_name (cf_app c), ap_timezone (cf_app c), db_name (cf_database c), db_user (cf_database c),
          se_cookie_name (cf_session c), sk_storage_dir (cf_slik c)]
     \<and> ap_environment (cf_app c) \<in> set app_environments
     \<and> web_url pf [''http'', ''https''] (ap_url (cf_app c)) \<and> pf_timezone pf (ap_timezone (cf_app c))"

section \<open>Accepted values\<close>

named_theorems setting_facts \<open>what an accepted value of a setting satisfies\<close>

lemma parse_port_Inr [setting_facts]: "parse_port key v = Inr p \<Longrightarrow> 1 \<le> p \<and> p \<le> 65535"
  by (auto simp: parse_port_def split: option.split_asm if_split_asm)

lemma parse_positive_int_Inr [setting_facts]: "parse_positive_int key v maximum = Inr n \<Longrightarrow> 1 \<le> n \<and> n \<le> maximum"
  by (auto simp: parse_positive_int_def split: option.split_asm if_split_asm)

lemma parse_positive_int64_Inr [setting_facts]: "parse_positive_int64 key v = Inr n \<Longrightarrow> 1 \<le> n"
  by (auto simp: parse_positive_int64_def split: option.split_asm if_split_asm)

lemma duration_sum_bounds:
  "duration_sum d s = Some t \<Longrightarrow> 0 \<le> d \<Longrightarrow> d \<le> 2 ^ 63 \<Longrightarrow> 0 \<le> t \<and> t \<le> 2 ^ 63"
proof (induction d s rule: duration_sum.induct)
  case (1 d s)
  show ?case
  proof (cases "s = []")
    case False
    then obtain w r where e: "duration_element s = Some (w, r)" "\<not> 2 ^ 63 < (d + w) mod 2 ^ 64" "duration_sum ((d + w) mod 2 ^ 64) r = Some t"
      using "1.prems"(1) by (auto simp: duration_sum.simps [of d s] Let_def split: option.split_asm if_split_asm)
    show ?thesis using "1.IH" [OF False e(1) _ refl e(2,3)] e(2) by simp
  qed (use 1 in \<open>simp add: duration_sum.simps\<close>)
qed

lemma parse_duration_Inr [setting_facts]: "parse_duration_setting key v = Inr d \<Longrightarrow> 0 < d \<and> d < 2 ^ 63"
proof -
  assume "parse_duration_setting key v = Inr d"
  then have d: "time_parse_duration v = Some d" "0 < d"
    by (auto simp: parse_duration_setting_def split: option.split_asm if_split_asm)
  obtain neg t where sg: "split_sign v = (neg, t)" by (cases "split_sign v")
  then have sum: "t \<noteq> ''0''" "t \<noteq> []" using d by (auto simp: time_parse_duration_def)
  then obtain e where e: "duration_sum 0 t = Some e" using d(1) sg by (auto simp: time_parse_duration_def split: option.split_asm)
  have "0 \<le> e \<and> e \<le> 2 ^ 63" using duration_sum_bounds [OF e] by simp
  then show ?thesis using d e sum sg by (auto simp: time_parse_duration_def split: if_split_asm)
qed

lemma required_fields_Inr: "required_fields msg fs = Inr () \<longleftrightarrow> '''' \<notin> snd ` set fs"
  by (induction msg fs rule: required_fields.induct) auto

lemma validate_settings_Inr:
  assumes "validate_settings pf c = Inr ()"
  shows "'''' \<notin> set [ap_name (cf_app c), ap_timezone (cf_app c), db_name (cf_database c), db_user (cf_database c),
          se_cookie_name (cf_session c), sk_storage_dir (cf_slik c)]"
    and "validate_network (cf_database c) = Inr ()" and "ap_environment (cf_app c) \<in> set app_environments"
    and "web_url pf [''http'', ''https''] (ap_url (cf_app c))" and "pf_timezone pf (ap_timezone (cf_app c))"
  using assms unfolding validate_settings_def rbind_eq_Inr by (auto simp: required_fields_Inr split: if_split_asm)

lemma parse_values_Inr:
  assumes "parse_values lookup = Inr n"
  shows "1 \<le> pv_app_port n \<and> pv_app_port n \<le> 65535 \<and> 1 \<le> pv_max_failures n \<and> pv_max_failures n \<le> 1000
    \<and> 1 \<le> pv_slik_concurrency n \<and> pv_slik_concurrency n \<le> 32 \<and> 1 \<le> pv_slik_upload_limit n \<and> pv_slik_upload_limit n \<le> 268435456
    \<and> 1 \<le> pv_max_report_size n
    \<and> list_all ok_duration [pv_shutdown_timeout n, pv_failure_window n, pv_lockout n, pv_session_lifetime n, pv_remember_lifetime n,
        pv_snapshot_interval n, pv_fincloud_timeout n]
    \<and> (if env_text lookup ''DB_NETWORK'' ''tcp'' = ''tcp'' then 1 \<le> pv_database_port n \<and> pv_database_port n \<le> 65535 else pv_database_port n = 0)"
  using assms unfolding parse_values_def rbind_eq_Inr Let_def
  by (elim exE conjE) (simp split: if_split_asm; clarsimp dest!: setting_facts)

lemma parsed_settings_ok:
  assumes "parse_settings pf lookup = Inr c"
  shows "settings_ok pf c"
proof -
  obtain n where n: "parse_values lookup = Inr n" and c: "c = settings_of lookup n" and v: "validate_settings pf c = Inr ()"
    using assms by (auto simp: parse_settings_def rbind_eq_Inr Let_def)
  note numbers = parse_values_Inr [OF n] and texts = validate_settings_Inr [OF v]
  from numbers texts show ?thesis
    unfolding settings_ok_def c by (auto simp: settings_of_def Let_def validate_network_def split: if_split_asm)
qed

text \<open>
  C36. Every configuration the program starts with is well formed: ports, counts and sizes are in their ranges, all durations are positive
  and fit into 64 bits, the database is reached over TCP with a host and port or over a socket, no required text is empty, and
  the public URL is an absolute web address.
\<close>

theorem settings_well_formed:
  assumes "load_settings pf file lookup = Inr c"
  shows "settings_ok pf c"
  using assms by (auto simp: load_settings_def intro: parsed_settings_ok split: if_split_asm)

section \<open>The defaults\<close>

text \<open>The configuration when nothing but the name and the user of the database is set.\<close>

definition default_settings :: "string \<Rightarrow> string \<Rightarrow> settings" where
  "default_settings name user =
     \<lparr>cf_app =
        \<lparr>ap_name = ''THOR Rate Sync'', ap_environment = ''development'', ap_url = ''http://localhost:8080'', ap_bind_host = '''',
         ap_port = 8080, ap_shutdown_timeout = 45 * 10 ^ 9, ap_timezone = ''Asia/Jakarta'', ap_logo_file = '''',
         ap_wide_logo_file = '''', ap_favicon_file = ''''\<rparr>,
      cf_api_key = '''', cf_bootstrap_managers = '''',
      cf_database =
        \<lparr>db_network = ''tcp'', db_host = ''127.0.0.1'', db_port = 3306, db_socket = '''', db_name = name, db_user = user,
         db_password = ''''\<rparr>,
      cf_session =
        \<lparr>se_cookie_name = ''trs_session'', se_lifetime = 86400 * 10 ^ 9, se_remember_lifetime = 2592000 * 10 ^ 9, se_secure = False\<rparr>,
      cf_auth = \<lparr>au_failure_window = 900 * 10 ^ 9, au_max_failures = 5, au_lockout = 900 * 10 ^ 9\<rparr>,
      cf_dwh_dsn = '''', cf_mso_dsn = '''',
      cf_fincloud =
        \<lparr>fc_base_url = '''', fc_username = '''', fc_password = '''', fc_location_id = '''', fc_role_id = '''', fc_ca_file = '''',
         fc_insecure_tls = False, fc_timeout = 30 * 10 ^ 9, fc_max_report_size = 104857600\<rparr>,
      cf_snapshot = \<lparr>sn_refresh_interval = 10800 * 10 ^ 9, sn_refresh_on_start = True\<rparr>,
      cf_slik = \<lparr>sk_concurrency = 16, sk_max_upload_bytes = 67108864, sk_storage_dir = ''./data/slik''\<rparr>,
      cf_lps_participant_code = ''31300082''\<rparr>"

definition minimal_environment :: "string \<Rightarrow> string \<Rightarrow> environment" where
  "minimal_environment name user = [''DB_NAME'' \<mapsto> name, ''DB_USER'' \<mapsto> user]"

lemma default_numbers:
  "atoi ''8080'' = Some 8080" "atoi ''3306'' = Some 3306" "atoi ''5'' = Some 5" "atoi ''16'' = Some 16"
  "atoi ''104857600'' = Some 104857600" "atoi ''67108864'' = Some 67108864"
  by (simp_all add: atoi_def digits_value_def is_digit_def digit_value_def byte_def in_int64_def)

lemma default_durations:
  "time_parse_duration (duration_text 45) = Some 45000000000" "time_parse_duration (duration_text 86400) = Some 86400000000000"
  "time_parse_duration (duration_text 2592000) = Some 2592000000000000" "time_parse_duration (duration_text 10800) = Some 10800000000000"
  "time_parse_duration (duration_text 30) = Some 30000000000"
  by (simp_all add: duration_text_roundtrip)

lemma fifteen_minutes: "time_parse_duration ''15m'' = Some 900000000000"
  by code_simp

lemma default_texts:
  "trim_space ''tcp'' = ''tcp''" "trim_space ''THOR Rate Sync'' = ''THOR Rate Sync''" "trim_space ''development'' = ''development''"
  "trim_space ''http://localhost:8080'' = ''http://localhost:8080''" "trim_space ''Asia/Jakarta'' = ''Asia/Jakarta''"
  "trim_space ''127.0.0.1'' = ''127.0.0.1''" "trim_space ''trs_session'' = ''trs_session''" "trim_space ''./data/slik'' = ''./data/slik''"
  "trim_space ''31300082'' = ''31300082''"
  by code_simp+

lemma default_values:
  "parse_values (minimal_environment name user) =
     Inr \<lparr>pv_app_port = 8080, pv_database_port = 3306, pv_shutdown_timeout = 45 * 10 ^ 9, pv_max_failures = 5,
        pv_failure_window = 900 * 10 ^ 9, pv_lockout = 900 * 10 ^ 9, pv_session_secure = False, pv_session_lifetime = 86400 * 10 ^ 9,
        pv_remember_lifetime = 2592000 * 10 ^ 9, pv_insecure_tls = False, pv_snapshot_interval = 10800 * 10 ^ 9,
        pv_snapshot_on_start = True, pv_fincloud_timeout = 30 * 10 ^ 9, pv_max_report_size = 104857600, pv_slik_concurrency = 16,
        pv_slik_upload_limit = 67108864\<rparr>"
  by (simp add: parse_values_def env_value_def env_text_def minimal_environment_def parse_port_def parse_duration_setting_def
      parse_positive_int_def parse_positive_int64_def parse_bool_setting_def str_parse_bool_def default_numbers default_durations
      fifteen_minutes default_texts rbind_def Let_def)

text \<open>
  With nothing but the database name and user set the program runs with the documented defaults: port 8080, TCP to 127.0.0.1:3306,
  a development environment in Jakarta time, sessions of a day and of thirty days, lockout after five failures for fifteen
  minutes, a snapshot every three hours and sixteen SLIK workers.
\<close>

theorem settings_defaults:
  assumes "trim_space name \<noteq> ''''" and "trim_space user \<noteq> ''''" and "web_url pf [''http'', ''https''] ''http://localhost:8080''"
    and "pf_timezone pf ''Asia/Jakarta''"
  shows "parse_settings pf (minimal_environment name user) = Inr (default_settings (trim_space name) (trim_space user))"
proof -
  have s: "settings_of (minimal_environment name user) n =
      (default_settings (trim_space name) (trim_space user))
        \<lparr>cf_app := (cf_app (default_settings '''' ''''))\<lparr>ap_port := pv_app_port n, ap_shutdown_timeout := pv_shutdown_timeout n\<rparr>,
         cf_database := (cf_database (default_settings (trim_space name) (trim_space user)))\<lparr>db_port := pv_database_port n\<rparr>,
         cf_session := (cf_session (default_settings '''' ''''))
           \<lparr>se_lifetime := pv_session_lifetime n, se_remember_lifetime := pv_remember_lifetime n, se_secure := pv_session_secure n\<rparr>,
         cf_auth := \<lparr>au_failure_window = pv_failure_window n, au_max_failures = pv_max_failures n, au_lockout = pv_lockout n\<rparr>,
         cf_fincloud := (cf_fincloud (default_settings '''' ''''))
           \<lparr>fc_insecure_tls := pv_insecure_tls n, fc_timeout := pv_fincloud_timeout n, fc_max_report_size := pv_max_report_size n\<rparr>,
         cf_snapshot := \<lparr>sn_refresh_interval = pv_snapshot_interval n, sn_refresh_on_start = pv_snapshot_on_start n\<rparr>,
         cf_slik := (cf_slik (default_settings '''' ''''))
           \<lparr>sk_concurrency := pv_slik_concurrency n, sk_max_upload_bytes := pv_slik_upload_limit n\<rparr>\<rparr>" for n
    by (simp add: settings_of_def env_text_def env_value_def minimal_environment_def default_texts default_settings_def Let_def)
  have "validate_settings pf (default_settings (trim_space name) (trim_space user)) = Inr ()"
    using assms by (simp add: validate_settings_def default_settings_def validate_network_def app_environments_def rbind_def)
  then show ?thesis
    by (simp add: parse_settings_def default_values s rbind_def default_settings_def)
qed

definition sample_platform :: platform where
  "sample_platform =
     \<lparr>pf_url = (\<lambda>s. if s = ''http://localhost:8080'' then Some \<lparr>ur_scheme = ''http'', ur_host = ''localhost:8080'', ur_query = '''', ur_fragment = ''''\<rparr>
        else None),
      pf_timezone = (\<lambda>z. z = ''Asia/Jakarta'')\<rparr>"

theorem settings_defaults_witness:
  "parse_settings sample_platform (minimal_environment ''thor'' '' trs'') = Inr (default_settings ''thor'' ''trs'')"
proof -
  have "trim_space ''thor'' = ''thor''" "trim_space '' trs'' = ''trs''" by code_simp+
  then show ?thesis
    using settings_defaults [of "''thor''" "'' trs''" sample_platform] by (simp add: sample_platform_def web_url_def)
qed

lemma sample_settings: "\<exists>c. parse_settings sample_platform (minimal_environment ''thor'' '' trs'') = Inr c"
proof -
  have "validate_settings sample_platform (settings_of (minimal_environment ''thor'' '' trs'') n) = Inr ()" for n by code_simp
  then show ?thesis by (simp add: parse_settings_def default_values rbind_def)
qed

theorem settings_well_formed_witness:
  "\<exists>c. load_settings sample_platform DotenvMissing (minimal_environment ''thor'' '' trs'') = Inr c \<and> settings_ok sample_platform c"
  using sample_settings settings_well_formed [of sample_platform DotenvMissing "minimal_environment ''thor'' '' trs''"]
  by (fastforce simp: load_settings_def)

end
