(* ===== verification/Migrations.thy ===== *)
theory Migrations
  imports Settings
begin

text \<open>
  The database schema: the versions embedded in the binary and the check of the Goose history against them
  (\<open>src/internal/dbschema/dbschema.go\<close>), and the migration command with its guards (\<open>src/cmd/migrate/main.go\<close>). Running the
  SQL files is goose's work; the command is modelled by the goose commands it starts.
\<close>

section \<open>Versions and history\<close>

record migration_state =
  mg_table_exists :: bool
  mg_records :: "(int \<times> bool) list"

text \<open>\<open>Versions\<close> of the embedded file names; \<open>None\<close> when a name has no positive number in front.\<close>

definition file_version :: "string \<Rightarrow> int option" where
  "file_version name =
     (case cut_byte (CHR ''_'') name of (front, _, _) \<Rightarrow>
        (case atoi front of None \<Rightarrow> None | Some v \<Rightarrow> if v \<le> 0 then None else Some v))"

definition versions_from :: "string list \<Rightarrow> int list option" where
  "versions_from names = (if None \<in> set (map file_version names) then None else Some (sort (map (the \<circ> file_version) names)))"

text \<open>The last record of each known version counts; version 0 and unknown versions are skipped.\<close>

definition latest_records :: "int list \<Rightarrow> (int \<times> bool) list \<Rightarrow> int \<Rightarrow> bool" where
  "latest_records known records =
     fold (\<lambda>(v, a) m. if v = 0 \<or> v \<notin> set known then m else m(v := a)) records (\<lambda>_. False)"

fun prefix_loop :: "(int \<Rightarrow> bool) \<Rightarrow> bool \<Rightarrow> nat \<Rightarrow> int list \<Rightarrow> nat option" where
  "prefix_loop latest missing applied [] = Some applied"
| "prefix_loop latest missing applied (v # vs) =
     (if latest v then (if missing then None else prefix_loop latest missing (applied + 1) vs)
      else prefix_loop latest True applied vs)"

definition validate_migration_prefix :: "migration_state \<Rightarrow> int list \<Rightarrow> nat option" where
  "validate_migration_prefix state versions =
     (if \<not> mg_table_exists state then Some 0
      else prefix_loop (latest_records versions (mg_records state)) False 0 versions)"

text \<open>\<open>VerifyRuntime\<close>; the state is \<open>None\<close> when it cannot be read.\<close>

definition verify_runtime :: "string list \<Rightarrow> migration_state option \<Rightarrow> bool" where
  "verify_runtime names state =
     (case (versions_from names, state) of
        (Some versions, Some s) \<Rightarrow>
          (case validate_migration_prefix s versions of None \<Rightarrow> False
           | Some applied \<Rightarrow> \<not> (\<not> mg_table_exists s \<or> applied \<noteq> length versions))
      | _ \<Rightarrow> False)"

section \<open>The migration command\<close>

definition name_start :: "char \<Rightarrow> bool" where
  "name_start c \<longleftrightarrow> (let b = byte c in (65 \<le> b \<and> b \<le> 90) \<or> (97 \<le> b \<and> b \<le> 122) \<or> (48 \<le> b \<and> b \<le> 57))"

definition migration_name_ok :: "string \<Rightarrow> bool" where
  "migration_name_ok name \<longleftrightarrow>
     name \<noteq> '''' \<and> name_start (hd name) \<and> list_all (\<lambda>c. name_start c \<or> c = CHR ''_'' \<or> c = CHR ''-'') (tl name)"

text \<open>What the command meets; the second state is the one after goose ran.\<close>

record migrate_world =
  mw_config :: "settings setting"
  mw_open_ok :: bool
  mw_selected :: "string option"
  mw_files :: "string list"
  mw_state :: "migration_state option"
  mw_tables :: "int option"
  mw_goose_ok :: "string \<Rightarrow> bool"
  mw_state_after :: "migration_state option"

definition policy_ok :: "settings \<Rightarrow> string \<Rightarrow> string \<Rightarrow> bool" where
  "policy_ok c command confirmed \<longleftrightarrow>
     (if command \<noteq> ''status'' \<and> db_name (cf_database c) = '''' then False
      else if ap_environment (cf_app c) \<noteq> ''production'' then True
      else if command = ''down'' then False
      else \<not> (command = ''up'' \<and> confirmed \<noteq> db_name (cf_database c)))"

definition selected_ok :: "string option \<Rightarrow> string \<Rightarrow> string \<Rightarrow> bool" where
  "selected_ok selected configured confirmed \<longleftrightarrow>
     (case selected of None \<Rightarrow> False
      | Some s \<Rightarrow> \<not> (s = '''' \<or> s \<noteq> configured) \<and> \<not> (confirmed \<noteq> '''' \<and> s \<noteq> confirmed))"

definition preflight_up :: "migrate_world \<Rightarrow> bool" where
  "preflight_up w \<longleftrightarrow>
     (case (mw_state w, versions_from (mw_files w)) of
        (Some state, Some versions) \<Rightarrow>
          (case validate_migration_prefix state versions of None \<Rightarrow> False
           | Some applied \<Rightarrow>
               (case mw_tables w of None \<Rightarrow> False
                | Some tables \<Rightarrow>
                    \<not> (\<not> mg_table_exists state \<and> tables \<noteq> 0)
                    \<and> \<not> (mg_table_exists state \<and> applied = 0 \<and> tables \<noteq> 1)))
      | _ \<Rightarrow> False)"

text \<open>The confirmed name of the arguments; \<open>None\<close> is a usage error.\<close>

definition migrate_arguments :: "string list \<Rightarrow> (string \<times> string) option" where
  "migrate_arguments arguments =
     (case arguments of
        [command] \<Rightarrow> if command \<in> {''up'', ''down'', ''status''} then Some (command, '''') else None
      | [command, flag, name] \<Rightarrow>
          if command = ''up'' \<and> flag = ''--confirm-database'' \<and> trim_space name \<noteq> '''' then Some (command, trim_space name) else None
      | _ \<Rightarrow> None)"

text \<open>The result: whether it succeeds, and the goose commands it started.\<close>

definition migrate_database :: "migrate_world \<Rightarrow> string \<Rightarrow> string \<Rightarrow> bool \<times> string list" where
  "migrate_database w command confirmed =
     (case mw_config w of Inl _ \<Rightarrow> (False, [])
      | Inr c \<Rightarrow>
          if \<not> policy_ok c command confirmed then (False, [])
          else if \<not> mw_open_ok w then (False, [])
          else if (command = ''up'' \<or> command = ''down'') \<and> \<not> selected_ok (mw_selected w) (db_name (cf_database c)) confirmed
          then (False, [])
          else if command = ''up'' \<and> \<not> preflight_up w then (False, [])
          else if \<not> mw_goose_ok w command then (False, [command])
          else if command = ''up'' \<and> \<not> verify_runtime (mw_files w) (mw_state_after w) then (False, [command])
          else (True, [command]))"

definition migrate_run :: "migrate_world \<Rightarrow> string list \<Rightarrow> bool \<times> string list" where
  "migrate_run w arguments =
     (case arguments of [] \<Rightarrow> (False, [])
      | command # rest \<Rightarrow>
          if command = ''create'' then
            (case rest of
               [name] \<Rightarrow> if migration_name_ok name then (mw_goose_ok w ''create'', [''create'']) else (False, [])
             | _ \<Rightarrow> (False, []))
          else (case migrate_arguments arguments of None \<Rightarrow> (False, [])
                | Some (c, confirmed) \<Rightarrow> migrate_database w c confirmed))"

section \<open>Facts about the history\<close>

text \<open>The specification of an applied version: its last record says so.\<close>

definition last_applied :: "(int \<times> bool) list \<Rightarrow> int \<Rightarrow> bool" where
  "last_applied records v \<longleftrightarrow> (\<exists>front back. records = front @ (v, True) # back \<and> v \<notin> fst ` set back)"

lemma last_applied_snoc: "last_applied (rs @ [(v, a)]) u \<longleftrightarrow> (if v = u then a else last_applied rs u)"
proof (cases "v = u")
  case True
  have "last_applied (rs @ [(u, a)]) u \<longleftrightarrow> a"
  proof
    assume "last_applied (rs @ [(u, a)]) u"
    then obtain f b where e: "rs @ [(u, a)] = f @ (u, True) # b" "u \<notin> fst ` set b" by (auto simp: last_applied_def)
    then have "b = []" by (cases b rule: rev_cases) auto
    then show a using e(1) by simp
  next
    assume a
    then show "last_applied (rs @ [(u, a)]) u" unfolding last_applied_def by (intro exI [of _ rs] exI [of _ "[]"]) simp
  qed
  then show ?thesis using True by simp
next
  case False
  have "last_applied (rs @ [(v, a)]) u" if "last_applied rs u"
    using that False unfolding last_applied_def by (metis (no_types, lifting) Un_iff append_Cons append_assoc empty_iff empty_set
        fst_conv image_Un image_insert insertE list.simps(15) set_append image_empty)
  moreover have "last_applied rs u" if l: "last_applied (rs @ [(v, a)]) u"
  proof -
    from l obtain f b where e: "rs @ [(v, a)] = f @ (u, True) # b" "u \<notin> fst ` set b" by (auto simp: last_applied_def)
    then obtain b' where "b = b' @ [(v, a)]" using False by (cases b rule: rev_cases) auto
    then show ?thesis using e by (auto simp: last_applied_def)
  qed
  ultimately have "last_applied (rs @ [(v, a)]) u \<longleftrightarrow> last_applied rs u" by (rule iffI [rotated])
  then show ?thesis using False by simp
qed

lemma latest_records_last:
  assumes "u \<in> set known" and "u \<noteq> 0"
  shows "latest_records known records u \<longleftrightarrow> last_applied records u"
proof (induction records rule: rev_induct)
  case Nil
  then show ?case by (simp add: latest_records_def last_applied_def)
next
  case (snoc r rs)
  then show ?case using assms by (cases r) (auto simp: latest_records_def last_applied_snoc)
qed

lemma prefix_loop_Some:
  "prefix_loop latest missing k vs = Some n \<longleftrightarrow>
     (\<exists>m \<le> length vs. n = k + m \<and> list_all latest (take m vs) \<and> list_all (\<lambda>v. \<not> latest v) (drop m vs) \<and> (missing \<longrightarrow> m = 0))"
proof (induction vs arbitrary: missing k)
  case (Cons v vs)
  show ?case
  proof (cases "latest v")
    case True
    have "(\<exists>m \<le> length (v # vs). n = k + m \<and> list_all latest (take m (v # vs)) \<and> list_all (\<lambda>v. \<not> latest v) (drop m (v # vs)) \<and> (missing \<longrightarrow> m = 0))
      \<longleftrightarrow> \<not> missing \<and> (\<exists>m \<le> length vs. n = k + 1 + m \<and> list_all latest (take m vs) \<and> list_all (\<lambda>v. \<not> latest v) (drop m vs))" (is "?L \<longleftrightarrow> ?R")
    proof
      assume ?L
      then obtain m where m: "m \<le> length (v # vs)" "n = k + m" "list_all latest (take m (v # vs))"
        "list_all (\<lambda>v. \<not> latest v) (drop m (v # vs))" "missing \<longrightarrow> m = 0" by blast
      then obtain j where "m = Suc j" using True by (cases m) auto
      then show ?R using m by (intro conjI exI [of _ j]) auto
    next
      assume ?R
      then obtain m where "\<not> missing" "m \<le> length vs" "n = k + 1 + m" "list_all latest (take m vs)" "list_all (\<lambda>v. \<not> latest v) (drop m vs)"
        by blast
      then show ?L using True by (intro exI [of _ "Suc m"]) simp
    qed
    then show ?thesis using True Cons.IH [of False "k + 1"] by simp
  next
    case False
    have "(\<exists>m \<le> length (v # vs). n = k + m \<and> list_all latest (take m (v # vs)) \<and> list_all (\<lambda>v. \<not> latest v) (drop m (v # vs)) \<and> (missing \<longrightarrow> m = 0))
      \<longleftrightarrow> n = k \<and> list_all (\<lambda>v. \<not> latest v) vs" (is "?L \<longleftrightarrow> ?R")
    proof
      assume ?L
      then obtain m where m: "n = k + m" "list_all latest (take m (v # vs))" "list_all (\<lambda>v. \<not> latest v) (drop m (v # vs))" by blast
      then have "m = 0" using False by (cases m) auto
      then show ?R using m by simp
    qed (use False in \<open>auto intro!: exI [of _ 0]\<close>)
    moreover have "prefix_loop latest True k vs = Some n \<longleftrightarrow> n = k \<and> list_all (\<lambda>v. \<not> latest v) vs"
      using Cons.IH [of True k] by auto
    ultimately show ?thesis using False by simp
  qed
qed auto

lemma versions_positive: "versions_from names = Some vs \<Longrightarrow> v \<in> set vs \<Longrightarrow> 0 < v"
proof -
  assume s: "versions_from names = Some vs" and v: "v \<in> set vs"
  then obtain name where n: "name \<in> set names" "v = the (file_version name)" by (auto simp: versions_from_def split: if_split_asm)
  moreover have "file_version name \<noteq> None" using s n(1) by (force simp: versions_from_def split: if_split_asm)
  ultimately show "0 < v" by (auto simp: file_version_def split: prod.split_asm option.split_asm if_split_asm)
qed

lemma validated_prefix:
  assumes "versions_from names = Some vs" and "validate_migration_prefix s vs = Some n" and "mg_table_exists s"
  shows "n \<le> length vs" and "\<forall>v \<in> set (take n vs). last_applied (mg_records s) v"
    and "\<forall>v \<in> set (drop n vs). \<not> last_applied (mg_records s) v"
proof -
  have latest: "latest_records vs (mg_records s) v \<longleftrightarrow> last_applied (mg_records s) v" if "v \<in> set vs" for v
    using that versions_positive [OF assms(1) that] by (intro latest_records_last) auto
  from assms(2,3) show "n \<le> length vs" by (auto simp: validate_migration_prefix_def prefix_loop_Some)
  show "\<forall>v \<in> set (take n vs). last_applied (mg_records s) v" "\<forall>v \<in> set (drop n vs). \<not> last_applied (mg_records s) v"
    using assms(2,3) latest
    by (auto simp: validate_migration_prefix_def prefix_loop_Some list_all_iff dest: in_set_takeD in_set_dropD)
qed

lemma verified:
  "verify_runtime names state \<longleftrightarrow>
     (\<exists>vs s. versions_from names = Some vs \<and> state = Some s \<and> mg_table_exists s \<and> list_all (last_applied (mg_records s)) vs)"
proof (cases "versions_from names")
  case (Some vs)
  show ?thesis
  proof (cases state)
    case s: (Some s)
    have latest: "latest_records vs (mg_records s) v \<longleftrightarrow> last_applied (mg_records s) v" if "v \<in> set vs" for v
      using that versions_positive [OF Some that] by (intro latest_records_last) auto
    have "validate_migration_prefix s vs = Some (length vs) \<longleftrightarrow> list_all (last_applied (mg_records s)) vs" if "mg_table_exists s"
      using that latest by (auto simp: validate_migration_prefix_def prefix_loop_Some list_all_iff)
    then show ?thesis by (auto simp: verify_runtime_def Some s split: option.split)
  qed (simp add: verify_runtime_def split: option.split)
qed (simp add: verify_runtime_def split: option.split)

section \<open>Properties\<close>

text \<open>
  C39. The server runs only on its own schema: the check succeeds exactly when Goose's table exists and the last record
  of every embedded version says it is applied, in whatever order the records stand and whatever other
  versions they name.
\<close>

theorem schema_verified:
  "verify_runtime names state \<longleftrightarrow>
     (\<exists>vs s. versions_from names = Some vs \<and> state = Some s \<and> mg_table_exists s
        \<and> (\<forall>v \<in> set vs. \<exists>front back. mg_records s = front @ (v, True) # back \<and> v \<notin> fst ` set back))"
  unfolding verified by (simp add: list_all_iff last_applied_def)

lemma migrate_arguments_Some:
  "migrate_arguments arguments = Some (command, confirmed) \<Longrightarrow>
     command \<in> {''up'', ''down'', ''status''}
     \<and> (confirmed \<noteq> '''' \<longrightarrow> (\<exists>name. arguments = [''up'', ''--confirm-database'', name] \<and> trim_space name = confirmed))"
  by (auto simp: migrate_arguments_def split: list.split_asm if_split_asm)


section \<open>A sample database\<close>

definition sample_migration_files :: "string list" where
  "sample_migration_files = [''2_sessions.sql'', ''1_users.sql'']"

definition sample_history :: "(int \<times> bool) list \<Rightarrow> migration_state" where
  "sample_history records = \<lparr>mg_table_exists = True, mg_records = records\<rparr>"

definition sample_migration :: migrate_world where
  "sample_migration =
     \<lparr>mw_config = Inr (default_settings ''thor'' ''trs''), mw_open_ok = True, mw_selected = Some ''thor'', mw_files = sample_migration_files,
      mw_state = Some (sample_history [(0, True), (1, True), (7, True)]), mw_tables = Some 3, mw_goose_ok = (\<lambda>_. True),
      mw_state_after = Some (sample_history [(0, True), (1, True), (7, True), (2, True)])\<rparr>"

theorem schema_verified_witness:
  "verify_runtime sample_migration_files (Some (sample_history [(0, True), (1, True), (2, True)]))
   \<and> \<not> verify_runtime sample_migration_files (Some (sample_history [(0, True), (1, True), (2, True), (1, False)]))
   \<and> (\<exists>front back. [(0, True), (1, True), (2, True)] = front @ (1::int, True) # back \<and> 1 \<notin> fst ` set back)"
proof -
  have v: "versions_from sample_migration_files = Some [1, 2]" by code_simp
  have good: "verify_runtime sample_migration_files (Some (sample_history [(0, True), (1, True), (2, True)]))"
    and bad: "\<not> verify_runtime sample_migration_files (Some (sample_history [(0, True), (1, True), (2, True), (1, False)]))" by code_simp+
  from good have "\<exists>front back. mg_records (sample_history [(0, True), (1, True), (2, True)]) = front @ (1, True) # back \<and> 1 \<notin> fst ` set back"
    unfolding schema_verified by (simp add: v)
  then show ?thesis using good bad by (simp add: sample_history_def)
qed


end
