(* ===== verification/Branding.thy ===== *)
theory Branding
  imports Go_Text
begin

text \<open>
  \<open>src/internal/branding/branding.go\<close>: the logos and the icon of the site, read at the start from files the operator names, or a badge
  generated from the name of the application. The file system and the Unicode case tables are parameters.
\<close>

section \<open>Assets\<close>

definition max_file_bytes :: int where
  "max_file_bytes = 2 * 2 ^ 20"

definition content_types :: "(string \<times> string) list" where
  "content_types =
     [(''.svg'', ''image/svg+xml''), (''.png'', ''image/png''), (''.jpg'', ''image/jpeg''), (''.jpeg'', ''image/jpeg''),
      (''.webp'', ''image/webp''), (''.gif'', ''image/gif''), (''.ico'', ''image/x-icon'')]"

record asset =
  as_body :: string
  as_content_type :: string
  as_mod_time :: int

record branding =
  br_logo :: asset
  br_wide_logo :: asset
  br_favicon :: asset
  br_wide :: bool

text \<open>What \<open>os.Stat\<close> says of a file, and what reading it gives.\<close>

record stat_info =
  si_regular :: bool
  si_size :: int
  si_mod_time :: int

record disk_files =
  df_stat :: "string \<Rightarrow> stat_info option"
  df_read :: "string \<Rightarrow> string option"

text \<open>The cases of runes: \<open>strings.ToLower\<close> on a text and \<open>unicode.ToUpper\<close> on one rune, both as UTF-8.\<close>

record case_tables =
  ct_lower :: "string \<Rightarrow> string"
  ct_upper :: "string \<Rightarrow> string"

text \<open>\<open>html.EscapeString\<close>.\<close>

definition html_escape_char :: "char \<Rightarrow> string" where
  "html_escape_char c =
     (if c = CHR ''&'' then ''&amp;'' else if c = CHR 0x27 then ''&#39;'' else if c = CHR ''<'' then ''&lt;''
      else if c = CHR ''>'' then ''&gt;'' else if c = CHR 0x22 then ''&#34;'' else [c])"

definition html_escape :: "string \<Rightarrow> string" where
  "html_escape s = concat (map html_escape_char s)"

text \<open>\<open>utf8.DecodeRuneInString\<close> as the bytes of the first rune; \<open>None\<close> is \<open>RuneError\<close>, also for an encoded U+FFFD.\<close>

definition first_rune :: "string \<Rightarrow> string option" where
  "first_rune s =
     (let r = take (rune_width s) s in
      if s = '''' \<or> (rune_width s = 1 \<and> 128 \<le> byte (hd s)) \<or> r = [CHR 0xEF, CHR 0xBF, CHR 0xBD] then None else Some r)"

definition badge_before :: string where
  "badge_before =
     ''<svg xmlns=\"http://www.w3.org/2000/svg\" viewBox=\"0 0 40 40\"><rect width=\"40\" height=\"40\" rx=\"10\" fill=\"#10b981\"/>''
     @ ''<text x=\"20\" y=\"27\" text-anchor=\"middle\" font-family=\"system-ui,sans-serif\" font-size=\"20\" font-weight=\"700\" fill=\"#020617\">''"

definition default_badge :: "case_tables \<Rightarrow> string \<Rightarrow> asset" where
  "default_badge ct app_name =
     (let letter = (case first_rune (trim_space app_name) of None \<Rightarrow> ''A'' | Some r \<Rightarrow> r) in
      \<lparr>as_body = badge_before @ html_escape (ct_upper ct letter) @ ''</text></svg>'',
       as_content_type = ''image/svg+xml'', as_mod_time = 0\<rparr>)"

text \<open>The asset of a configured file; an error names the variable and the reason.\<close>

datatype asset_error = BadExtension string | StatFailed string | NotServable string | ReadFailed string

definition load_asset :: "disk_files \<Rightarrow> case_tables \<Rightarrow> string \<Rightarrow> string \<Rightarrow> asset \<Rightarrow> asset_error + asset" where
  "load_asset df ct key path fallback =
     (if path = '''' then Inr fallback
      else case map_of content_types (ct_lower ct (path_ext path)) of
        None \<Rightarrow> Inl (BadExtension key)
      | Some content_type \<Rightarrow>
          (case df_stat df path of
             None \<Rightarrow> Inl (StatFailed key)
           | Some info \<Rightarrow>
               if \<not> si_regular info \<or> max_file_bytes < si_size info then Inl (NotServable key)
               else (case df_read df path of
                   None \<Rightarrow> Inl (ReadFailed key)
                 | Some body \<Rightarrow> Inr \<lparr>as_body = body, as_content_type = content_type, as_mod_time = si_mod_time info\<rparr>)))"

definition new_branding :: "disk_files \<Rightarrow> case_tables \<Rightarrow> string \<Rightarrow> string \<Rightarrow> string \<Rightarrow> string \<Rightarrow> asset_error + branding" where
  "new_branding df ct app_name logo_file wide_logo_file favicon_file =
     (let fallback = default_badge ct app_name in
      case load_asset df ct ''APP_LOGO_FILE'' logo_file fallback of
        Inl e \<Rightarrow> Inl e
      | Inr logo \<Rightarrow>
          (case load_asset df ct ''APP_LOGO_WIDE_FILE'' wide_logo_file fallback of
             Inl e \<Rightarrow> Inl e
           | Inr wide_logo \<Rightarrow>
               (case load_asset df ct ''APP_FAVICON_FILE'' favicon_file fallback of
                  Inl e \<Rightarrow> Inl e
                | Inr favicon \<Rightarrow>
                    Inr \<lparr>br_logo = logo, br_wide_logo = wide_logo, br_favicon = favicon, br_wide = (wide_logo_file \<noteq> '''')\<rparr>)))"

text \<open>The headers an asset is served with; \<open>http.ServeContent\<close> sends its body.\<close>

definition asset_headers :: "asset \<Rightarrow> (string \<times> string) list" where
  "asset_headers a =
     [(''Content-Type'', as_content_type a), (''Cache-Control'', ''no-cache''),
      (''Content-Security-Policy'', ''default-src ''  @ [CHR 0x27] @ ''none'' @ [CHR 0x27] @ ''; style-src ''
        @ [CHR 0x27] @ ''unsafe-inline'' @ [CHR 0x27] @ ''; sandbox'')]"

section \<open>What is served\<close>

text \<open>An asset that may be served: the badge, or the content of a regular file of a listed type within the limit.\<close>

definition servable :: "disk_files \<Rightarrow> case_tables \<Rightarrow> string \<Rightarrow> string \<Rightarrow> asset \<Rightarrow> bool" where
  "servable df ct app_name path a \<longleftrightarrow>
     (if path = '''' then a = default_badge ct app_name
      else \<exists>info. df_stat df path = Some info \<and> si_regular info \<and> si_size info \<le> max_file_bytes
             \<and> df_read df path = Some (as_body a) \<and> as_mod_time a = si_mod_time info
             \<and> map_of content_types (ct_lower ct (path_ext path)) = Some (as_content_type a))"

lemma load_asset_servable:
  "load_asset df ct key path (default_badge ct app_name) = Inr a \<Longrightarrow> servable df ct app_name path a"
  by (auto simp: load_asset_def servable_def split: if_split_asm option.split_asm)

lemma new_branding_servable:
  assumes "new_branding df ct app_name logo_file wide_logo_file favicon_file = Inr b"
  shows "servable df ct app_name logo_file (br_logo b) \<and> servable df ct app_name wide_logo_file (br_wide_logo b)
     \<and> servable df ct app_name favicon_file (br_favicon b) \<and> (br_wide b \<longleftrightarrow> wide_logo_file \<noteq> '''')"
  using assms load_asset_servable by (auto simp: new_branding_def Let_def split: sum.split_asm)

text \<open>The letter on the badge cannot break out of the text element.\<close>

lemma html_escape_no_markup: "CHR ''<'' \<notin> set (html_escape s) \<and> CHR ''>'' \<notin> set (html_escape s) \<and> CHR 0x22 \<notin> set (html_escape s)"
  by (induction s) (auto simp: html_escape_def html_escape_char_def)

lemma default_badge_text:
  "\<exists>t. as_body (default_badge ct app_name) = badge_before @ t @ ''</text></svg>'' \<and> CHR ''<'' \<notin> set t"
  using html_escape_no_markup by (auto simp: default_badge_def Let_def)

end
