(* ===== verification/Startup.thy ===== *)
theory Startup
  imports Web_App Slik_Run Migrations Branding
begin

text \<open>
  The start and the end of the server, \<open>src/internal/app/app.go\<close>: the steps of \<open>Run\<close> in their order with the resources
  they open, the deferred releases, the HTTP phase, and the constructors whose checks read the
  configuration (\<open>fincloud/client.go\<close>, \<open>authenticator.go\<close>, \<open>transport.go\<close>, \<open>database/mysql.go\<close>, and those of the session
  service, the SLIK manager, the position service, the LPS generator and the navigation). Contexts with deadlines, logging
  and the goroutines themselves are not represented.
\<close>

section \<open>Constructors\<close>

text \<open>The system's certificates and files: the content of a CA file, and whether certificates are found in it.\<close>

record trust_store =
  ts_read :: "string \<Rightarrow> string option"
  ts_system_ok :: bool
  ts_has_certificates :: "string \<Rightarrow> bool"

definition new_http_client :: "trust_store \<Rightarrow> string \<Rightarrow> bool" where
  "new_http_client ts ca_file \<longleftrightarrow>
     (if ca_file = '''' then True
      else case ts_read ts ca_file of None \<Rightarrow> False
           | Some pem \<Rightarrow> if \<not> ts_system_ok ts then False else ts_has_certificates ts pem)"

definition base_url_ok :: "platform \<Rightarrow> string \<Rightarrow> bool" where
  "base_url_ok pf raw \<longleftrightarrow>
     (case pf_url pf (trim_right_byte (CHR ''/'') (trim_space raw)) of None \<Rightarrow> False
      | Some u \<Rightarrow> \<not> (ur_scheme u = '''' \<or> ur_host u = '''' \<or> ur_query u \<noteq> '''' \<or> ur_fragment u \<noteq> ''''))"

text \<open>\<open>NewClient\<close>: the timeout and the report limit it works with.\<close>

definition new_client :: "platform \<Rightarrow> trust_store \<Rightarrow> fincloud_config \<Rightarrow> (int \<times> int) option" where
  "new_client pf ts c =
     (if \<not> base_url_ok pf (fc_base_url c) then None
      else if trim_space (fc_username c) = '''' \<or> fc_password c = '''' \<or> trim_space (fc_location_id c) = '''' \<or> trim_space (fc_role_id c) = ''''
      then None
      else
        let timeout = (if fc_timeout c \<le> 0 then 30 * 1000000000 else fc_timeout c);
            limit = (if fc_max_report_size c \<le> 0 then default_report_limit else fc_max_report_size c) in
        if \<not> new_http_client ts (fc_ca_file c) then None else Some (timeout, limit))"

definition new_authenticator :: "platform \<Rightarrow> trust_store \<Rightarrow> fincloud_config \<Rightarrow> int option" where
  "new_authenticator pf ts c =
     (if \<not> base_url_ok pf (fc_base_url c) then None
      else if \<not> new_http_client ts (fc_ca_file c) then None
      else Some (if fc_timeout c \<le> 0 then 30 * 1000000000 else fc_timeout c))"

definition new_position_service :: "location \<Rightarrow> date option" where
  "new_position_service loc =
     (if loc = None then None else case parse_date ''2025-10-12'' loc of Inl _ \<Rightarrow> None | Inr cutoff_date \<Rightarrow> Some cutoff_date)"

definition new_generator :: "location \<Rightarrow> bool" where
  "new_generator loc \<longleftrightarrow> loc \<noteq> None"

text \<open>\<open>MySQLConfig\<close>: the network and address; \<open>net.JoinHostPort\<close> puts a host with a colon in brackets.\<close>

definition join_host_port :: "string \<Rightarrow> string \<Rightarrow> string" where
  "join_host_port host port =
     (if CHR '':'' \<in> set host then ''['' @ host @ '']:'' @ port else host @ '':'' @ port)"

definition mysql_config :: "database_config \<Rightarrow> (string \<times> string) option" where
  "mysql_config c =
     (if db_network c = '''' \<or> db_network c = ''tcp'' then Some (''tcp'', join_host_port (db_host c) (itoa (db_port c)))
      else if db_network c = ''unix'' then (if db_socket c = '''' then None else Some (''unix'', db_socket c))
      else None)"

text \<open>\<open>database.Open\<close> and \<open>OpenDSN\<close>: a data source name must parse; only \<open>Open\<close> asks the server.\<close>

record sql_driver =
  sd_open_ok :: "string \<times> string \<Rightarrow> bool"
  sd_ping_ok :: "string \<times> string \<Rightarrow> bool"
  sd_dsn_ok :: "string \<Rightarrow> bool"
  sd_dsn_open_ok :: "string \<Rightarrow> bool"

definition database_open :: "sql_driver \<Rightarrow> database_config \<Rightarrow> bool" where
  "database_open d c \<longleftrightarrow>
     (case mysql_config c of None \<Rightarrow> False | Some target \<Rightarrow> if \<not> sd_open_ok d target then False else sd_ping_ok d target)"

definition open_dsn :: "sql_driver \<Rightarrow> string \<Rightarrow> location \<Rightarrow> bool" where
  "open_dsn d dsn loc \<longleftrightarrow> (if \<not> sd_dsn_ok d dsn then False else if loc = None then False else sd_dsn_open_ok d dsn)"

section \<open>The steps of \<open>Run\<close>\<close>

datatype startup_step =
    LoadConfig | ValidateServer | LoadLocation | OpenDatabase | VerifySchema | OpenDwh | OpenMso | NewFincloudClient | NewAuthenticator
  | BootstrapAccess | NewAuthService | NewRenderer | SubStatic | NewBranding | NewPositionService | NewSlikManager | NewLpsGenerator
  | NewNavigation

datatype resource =
    Database | DwhDatabase | MsoDatabase | FincloudClient | SessionCleanup | SlikWorkers | SnapshotScheduler | HttpServer

text \<open>A step that may fail, and a resource whose release is deferred from here on.\<close>

datatype startup_action = Try startup_step | Open resource

definition startup_plan :: "startup_action list" where
  "startup_plan =
     [Try LoadConfig, Try ValidateServer, Try LoadLocation, Try OpenDatabase, Open Database, Try VerifySchema,
      Try OpenDwh, Open DwhDatabase, Try OpenMso, Open MsoDatabase, Try NewFincloudClient, Try NewAuthenticator, Open FincloudClient,
      Try BootstrapAccess, Try NewAuthService, Open SessionCleanup, Try NewRenderer, Try SubStatic, Try NewBranding,
      Try NewPositionService, Try NewSlikManager, Open SlikWorkers, Try NewLpsGenerator, Try NewNavigation, Open SnapshotScheduler]"

text \<open>Everything a start meets outside the program.\<close>

record start_world =
  st_platform :: platform
  st_dotenv :: dotenv
  st_lookup :: "string \<Rightarrow> string option"
  st_trust :: trust_store
  st_driver :: sql_driver
  st_files :: file_system
  st_schema :: "migration_state option"
  st_migrations :: "string list"
  st_marshal :: "audit_metadata \<Rightarrow> string"
  st_access :: access_db
  st_now :: int
  st_templates_ok :: bool
  st_static_ok :: bool
  st_disk :: disk_files
  st_cases :: case_tables

definition access_refused :: "start_world \<Rightarrow> settings \<Rightarrow> bool" where
  "access_refused w c \<longleftrightarrow>
     isl (access_bootstrap (st_marshal w) permission_definitions (cf_bootstrap_managers c) (st_now w) (st_access w))"

definition lockout_of :: "auth_config \<Rightarrow> lockout_config" where
  "lockout_of a = \<lparr>lc_window = au_failure_window a, lc_max_failures = au_max_failures a, lc_lockout = au_lockout a\<rparr>"

text \<open>Whether a step fails, given the settings (which every step after the first two has).\<close>

definition configured_step_fails :: "start_world \<Rightarrow> settings \<Rightarrow> startup_step \<Rightarrow> bool" where
  "configured_step_fails w c step =
     (let pf = st_platform w; loc = Some (ap_timezone (cf_app c)) in
      case step of
        LoadConfig \<Rightarrow> False
      | ValidateServer \<Rightarrow> isl (validate_server pf c)
      | LoadLocation \<Rightarrow> \<not> pf_timezone pf (ap_timezone (cf_app c))
      | OpenDatabase \<Rightarrow> \<not> database_open (st_driver w) (cf_database c)
      | VerifySchema \<Rightarrow> \<not> verify_runtime (st_migrations w) (st_schema w)
      | OpenDwh \<Rightarrow> \<not> open_dsn (st_driver w) (cf_dwh_dsn c) loc
      | OpenMso \<Rightarrow> \<not> open_dsn (st_driver w) (cf_mso_dsn c) loc
      | NewFincloudClient \<Rightarrow> new_client pf (st_trust w) (cf_fincloud c) = None
      | NewAuthenticator \<Rightarrow> new_authenticator pf (st_trust w) (cf_fincloud c) = None
      | BootstrapAccess \<Rightarrow> access_refused w c
      | NewAuthService \<Rightarrow> new_service (se_lifetime (cf_session c)) (se_remember_lifetime (cf_session c)) (lockout_of (cf_auth c)) (st_access w) = None
      | NewRenderer \<Rightarrow> \<not> st_templates_ok w
      | SubStatic \<Rightarrow> \<not> st_static_ok w
      | NewBranding \<Rightarrow>
          isl (new_branding (st_disk w) (st_cases w) (ap_name (cf_app c)) (ap_logo_file (cf_app c)) (ap_wide_logo_file (cf_app c))
            (ap_favicon_file (cf_app c)))
      | NewPositionService \<Rightarrow> new_position_service loc = None
      | NewSlikManager \<Rightarrow> isl (new_manager (st_files w) (sk_concurrency (cf_slik c)) (sk_max_upload_bytes (cf_slik c)) (sk_storage_dir (cf_slik c)))
      | NewLpsGenerator \<Rightarrow> \<not> new_generator loc
      | NewNavigation \<Rightarrow> new_registry navigation_groups permission_definitions = None)"

definition step_fails :: "start_world \<Rightarrow> startup_step \<Rightarrow> bool" where
  "step_fails w step =
     (case load_settings (st_platform w) (st_dotenv w) (st_lookup w) of Inl _ \<Rightarrow> step = LoadConfig | Inr c \<Rightarrow> configured_step_fails w c step)"

datatype app_event = Acquired resource | Released resource

text \<open>The plan up to the first failing step: that step, the deferred releases (last first), and the events.\<close>

fun run_plan :: "(startup_step \<Rightarrow> bool) \<Rightarrow> startup_action list \<Rightarrow> resource list \<Rightarrow> app_event list
    \<Rightarrow> startup_step option \<times> resource list \<times> app_event list" where
  "run_plan fails [] defers events = (None, defers, events)"
| "run_plan fails (Try s # plan) defers events =
     (if fails s then (Some s, defers, events) else run_plan fails plan defers events)"
| "run_plan fails (Open r # plan) defers events = run_plan fails plan (r # defers) (events @ [Acquired r])"

text \<open>
  The HTTP phase: what the select received first (the server's result or, with \<open>None\<close>, the signal), the result of the
  shutdown, and what the second receive finds. The errors joined at the end are given as a list.
\<close>

record serve_run =
  sr_served :: "string option option"
  sr_shutdown :: "string option"
  sr_late :: "string option option"

definition serve_errors :: "serve_run \<Rightarrow> string list" where
  "serve_errors r =
     (let first = (case sr_served r of None \<Rightarrow> None | Some e \<Rightarrow> e);
          serve = (if first = None then (case sr_late r of None \<Rightarrow> None | Some e \<Rightarrow> e) else first)
      in concat (map (\<lambda>e. case e of None \<Rightarrow> [] | Some m \<Rightarrow> [m]) [serve, sr_shutdown r]))"

datatype run_result = FailedAt startup_step | Served "string list"

definition app_run :: "(startup_step \<Rightarrow> bool) \<Rightarrow> serve_run \<Rightarrow> run_result \<times> app_event list" where
  "app_run fails serve =
     (case run_plan fails startup_plan [] [] of
        (Some s, defers, events) \<Rightarrow> (FailedAt s, events @ map Released defers)
      | (None, defers, events) \<Rightarrow>
          (Served (serve_errors serve), events @ [Acquired HttpServer, Released HttpServer] @ map Released defers))"

section \<open>Health\<close>

definition ready_status :: "bool \<Rightarrow> string list \<Rightarrow> migration_state option \<Rightarrow> int \<times> string" where
  "ready_status ping names state =
     (if ping \<and> verify_runtime names state then (200, ''{\"status\":\"ready\"}'' @ [CHR 0x0A])
      else (503, ''{\"status\":\"not ready\"}'' @ [CHR 0x0A]))"

text \<open>\<open>RunSessionCleanup\<close>: once at the start and at every tick; a failed deletion is logged.\<close>

definition run_session_cleanup :: "(int \<times> bool) list \<Rightarrow> access_db \<Rightarrow> access_db" where
  "run_session_cleanup runs db = fold (\<lambda>(now, ok) d. if ok then fst (session_delete_expired now d) else d) runs db"

section \<open>The command\<close>

text \<open>\<open>run\<close> of \<open>src/cmd/app/main.go\<close>: the server, the help, or an error.\<close>

datatype app_command = RunServer | ShowUsage string | RefuseArguments string

definition usage_text :: string where
  "usage_text = ''trs [serve]''"

definition app_arguments :: "string list \<Rightarrow> app_command" where
  "app_arguments args =
     (case args of
        [] \<Rightarrow> RunServer
      | a # rest \<Rightarrow>
          if a = ''serve'' then (if rest \<noteq> [] then RefuseArguments (''usage: '' @ usage_text) else RunServer)
          else if a = ''-h'' \<or> a = ''--help'' then ShowUsage (usage_text @ [CHR 0x0A])
          else RefuseArguments (''usage: '' @ usage_text))"

section \<open>Facts about the start\<close>

definition opens :: "startup_action list \<Rightarrow> resource list" where
  "opens plan = concat (map (\<lambda>a. case a of Try _ \<Rightarrow> [] | Open r \<Rightarrow> [r]) plan)"

lemma run_plan_outcome:
  "run_plan fails plan defers events = (out, defers', events') \<Longrightarrow>
     \<exists>pre post. plan = pre @ post \<and> defers' = rev (opens pre) @ defers \<and> events' = events @ map Acquired (opens pre)
       \<and> (\<forall>t. Try t \<in> set pre \<longrightarrow> \<not> fails t)
       \<and> (case out of None \<Rightarrow> post = [] | Some s \<Rightarrow> fails s \<and> (\<exists>rest. post = Try s # rest))"
proof (induction fails plan defers events rule: run_plan.induct)
  case (1 fails defers events)
  then show ?case by (auto simp: opens_def)
next
  case (2 fails s plan defers events)
  show ?case
  proof (cases "fails s")
    case True
    then show ?thesis using 2 by (intro exI [of _ "[]"] exI [of _ "Try s # plan"]) (auto simp: opens_def)
  next
    case False
    then obtain pre post where "plan = pre @ post" "defers' = rev (opens pre) @ defers" "events' = events @ map Acquired (opens pre)"
      "\<forall>t. Try t \<in> set pre \<longrightarrow> \<not> fails t" "case out of None \<Rightarrow> post = [] | Some s \<Rightarrow> fails s \<and> (\<exists>rest. post = Try s # rest)"
      using 2 by auto
    then show ?thesis using False by (intro exI [of _ "Try s # pre"] exI [of _ post]) (auto simp: opens_def)
  qed
next
  case (3 fails r plan defers events)
  then obtain pre post where "plan = pre @ post" "defers' = rev (opens pre) @ r # defers" "events' = (events @ [Acquired r]) @ map Acquired (opens pre)"
      "\<forall>t. Try t \<in> set pre \<longrightarrow> \<not> fails t" "case out of None \<Rightarrow> post = [] | Some s \<Rightarrow> fails s \<and> (\<exists>rest. post = Try s # rest)" by auto
  then show ?case by (intro exI [of _ "Open r # pre"] exI [of _ post]) (auto simp: opens_def)
qed

text \<open>What is acquired and released by events, and what is in use after some of them.\<close>

definition acquired :: "app_event list \<Rightarrow> resource list" where
  "acquired es = concat (map (\<lambda>e. case e of Acquired r \<Rightarrow> [r] | _ \<Rightarrow> []) es)"

definition released :: "app_event list \<Rightarrow> resource list" where
  "released es = concat (map (\<lambda>e. case e of Released r \<Rightarrow> [r] | _ \<Rightarrow> []) es)"

definition live :: "app_event list \<Rightarrow> resource list" where
  "live es = fold (\<lambda>e xs. case e of Acquired r \<Rightarrow> r # xs | Released r \<Rightarrow> filter (\<lambda>x. x \<noteq> r) xs) es []"

text \<open>Which resource works with which other.\<close>

definition uses :: "(resource \<times> resource) list" where
  "uses =
     [(SessionCleanup, Database), (SlikWorkers, Database), (SlikWorkers, DwhDatabase), (SlikWorkers, MsoDatabase), (SlikWorkers, FincloudClient),
      (SnapshotScheduler, Database), (SnapshotScheduler, FincloudClient), (HttpServer, Database), (HttpServer, DwhDatabase),
      (HttpServer, MsoDatabase), (HttpServer, FincloudClient), (HttpServer, SlikWorkers)]"

definition orderly :: "app_event list \<Rightarrow> bool" where
  "orderly es \<longleftrightarrow>
     list_all (\<lambda>n. list_all (\<lambda>(x, y). x \<in> set (live (take n es)) \<longrightarrow> y \<in> set (live (take n es))) uses) [0..<Suc (length es)]
     \<and> live es = [] \<and> distinct (acquired es) \<and> released es = rev (acquired es)"

definition stopped_at :: "nat \<Rightarrow> app_event list" where
  "stopped_at n = map Acquired (take n (opens startup_plan)) @ map Released (rev (take n (opens startup_plan)))"

lemma stopped_orderly: "list_all (\<lambda>n. orderly (stopped_at n)) [0..<8]"
  by code_simp

lemma served_orderly:
  "orderly (map Acquired (opens startup_plan) @ [Acquired HttpServer, Released HttpServer] @ map Released (rev (opens startup_plan)))"
  by code_simp

lemma opens_prefix: "startup_plan = pre @ post \<Longrightarrow> \<exists>n < 8. opens pre = take n (opens startup_plan)"
proof -
  assume "startup_plan = pre @ post"
  moreover have "opens (a @ b) = opens a @ opens b" for a b by (simp add: opens_def)
  ultimately have p: "opens startup_plan = opens pre @ opens post" by metis
  have "length (opens startup_plan) = 7" by code_simp
  then show ?thesis unfolding p by (intro exI [of _ "length (opens pre)"]) auto
qed

lemma app_run_cases:
  assumes "app_run fails serve = (result, es)"
  shows "(\<exists>s pre rest n. result = FailedAt s \<and> startup_plan = pre @ Try s # rest \<and> fails s \<and> (\<forall>t. Try t \<in> set pre \<longrightarrow> \<not> fails t)
            \<and> n < 8 \<and> es = stopped_at n)
     \<or> (result = Served (serve_errors serve) \<and> (\<forall>t. Try t \<in> set startup_plan \<longrightarrow> \<not> fails t)
         \<and> es = map Acquired (opens startup_plan) @ [Acquired HttpServer, Released HttpServer] @ map Released (rev (opens startup_plan)))"
proof -
  obtain out defers events where r: "run_plan fails startup_plan [] [] = (out, defers, events)" by (metis prod_cases3)
  from run_plan_outcome [OF r] obtain pre post where p: "startup_plan = pre @ post" "defers = rev (opens pre)" "events = map Acquired (opens pre)"
    "\<forall>t. Try t \<in> set pre \<longrightarrow> \<not> fails t" and out: "case out of None \<Rightarrow> post = [] | Some s \<Rightarrow> fails s \<and> (\<exists>rest. post = Try s # rest)" by auto
  show ?thesis
  proof (cases out)
    case None
    then show ?thesis using assms r p out by (auto simp: app_run_def)
  next
    case (Some s)
    then obtain rest where rest: "post = Try s # rest" "fails s" using out by auto
    from opens_prefix [OF p(1)] obtain n where n: "n < 8" "opens pre = take n (opens startup_plan)" by blast
    have "result = FailedAt s" "es = stopped_at n" using assms r p(2,3) n(2) Some by (auto simp: app_run_def stopped_at_def)
    then show ?thesis using p(1,4) rest n(1) by blast
  qed
qed

section \<open>Properties\<close>


section \<open>Why a start fails\<close>

text \<open>The steps in front of a step.\<close>

definition steps_before :: "startup_step \<Rightarrow> startup_action list" where
  "steps_before s = takeWhile (\<lambda>a. a \<noteq> Try s) startup_plan"

lemma plan_before:
  assumes "startup_plan = pre @ Try s # rest"
  shows "pre = steps_before s"
proof -
  have "distinct startup_plan" by code_simp
  then have "distinct (pre @ Try s # rest)" unfolding assms .
  then have "Try s \<notin> set pre" by simp
  then show ?thesis unfolding steps_before_def assms by (induction pre) auto
qed

lemma before_steps:
  "s \<noteq> LoadConfig \<Longrightarrow> Try LoadConfig \<in> set (steps_before s)"
  "s \<notin> {LoadConfig, ValidateServer} \<Longrightarrow> Try ValidateServer \<in> set (steps_before s)"
  "Try NewFincloudClient \<in> set (steps_before NewAuthenticator)"
  by (cases s; simp add: steps_before_def startup_plan_def)+

lemma validate_server_fields:
  assumes "validate_server pf c = Inr ()"
  shows "trim_space (fc_username (cf_fincloud c)) \<noteq> ''''" and "fc_password (cf_fincloud c) \<noteq> ''''"
    and "trim_space (fc_location_id (cf_fincloud c)) \<noteq> ''''" and "trim_space (fc_role_id (cf_fincloud c)) \<noteq> ''''"
  using assms unfolding validate_server_def rbind_eq_Inr by (auto simp: required_fields_Inr split: if_split_asm)

lemma settings_steps:
  assumes "settings_ok (st_platform w) c" and "s \<in> {LoadLocation, NewAuthService, NewPositionService, NewLpsGenerator, NewNavigation}"
  shows "\<not> configured_step_fails w c s"
proof -
  have d: "parse_date ''2025-10-12'' (Some z) = Inr (mk_date 2025 10 12)" for z
    by (simp add: parse_date_Inr) code_simp
  have r: "new_registry navigation_groups permission_definitions \<noteq> None" by code_simp
  show ?thesis
    using assms r
    by (auto simp: configured_step_fails_def settings_ok_def new_service_def lockout_of_def lockout_valid_def new_position_service_def
        new_generator_def d Let_def)
qed

lemma manager_refused:
  assumes "1 \<le> n" and "n \<le> 32" and "1 \<le> m" and "m \<le> 268435456" and "configured \<noteq> ''''"
  shows "new_manager fs n m configured \<noteq> Inl ''invalid SLIK manager configuration''"
proof -
  have "\<not> (n < 1 \<or> 32 < n \<or> m < 1 \<or> 256 * 2 ^ 20 < m \<or> configured = '''')" using assms by simp
  then have "new_manager fs n m configured =
      (case (fs_abs fs configured, fs_abs fs ''web/static'') of
        (Some dir, Some public) \<Rightarrow>
          if storage_is_public public dir then Inl ''SLIK storage cannot be under web/static''
          else if \<not> fs_mkdir fs dir \<or> fs_lstat fs dir = NotFound then Inl ''storage''
          else if fs_lstat fs dir \<noteq> RealDirectory then Inl ''SLIK storage must be a directory, not a symlink''
          else (case fs_resolve fs dir of
              None \<Rightarrow> Inl ''storage''
            | Some resolved \<Rightarrow>
                if (case fs_resolve fs public of None \<Rightarrow> False | Some p \<Rightarrow> under_dir p resolved)
                then Inl ''SLIK storage cannot be under web/static''
                else if \<not> fs_chmod fs dir then Inl ''storage'' else Inr dir)
      | _ \<Rightarrow> Inl ''storage'')" by (simp only: new_manager_def if_False)
  then show ?thesis by (auto split: option.split)
qed

lemma manager_configuration:
  assumes "settings_ok pf c"
  shows "new_manager fs (sk_concurrency (cf_slik c)) (sk_max_upload_bytes (cf_slik c)) (sk_storage_dir (cf_slik c))
     \<noteq> Inl ''invalid SLIK manager configuration''"
proof (rule manager_refused)
  show "1 \<le> sk_concurrency (cf_slik c)" "sk_concurrency (cf_slik c) \<le> 32" "1 \<le> sk_max_upload_bytes (cf_slik c)"
    "sk_max_upload_bytes (cf_slik c) \<le> 268435456" using assms unfolding settings_ok_def by blast+
  show "sk_storage_dir (cf_slik c) \<noteq> ''''" using assms unfolding settings_ok_def by auto
qed


section \<open>Samples\<close>

definition sample_serve :: serve_run where
  "sample_serve = \<lparr>sr_served = None, sr_shutdown = None, sr_late = Some None\<rparr>"


text \<open>A start with nothing but the database's name and user: the server settings are missing.\<close>

definition sample_start :: start_world where
  "sample_start =
     \<lparr>st_platform = sample_platform, st_dotenv = DotenvMissing, st_lookup = minimal_environment ''thor'' '' trs'',
      st_trust = \<lparr>ts_read = (\<lambda>_. None), ts_system_ok = True, ts_has_certificates = (\<lambda>_. True)\<rparr>,
      st_driver = \<lparr>sd_open_ok = (\<lambda>_. True), sd_ping_ok = (\<lambda>_. True), sd_dsn_ok = (\<lambda>_. True), sd_dsn_open_ok = (\<lambda>_. True)\<rparr>,
      st_files = \<lparr>fs_abs = (\<lambda>_. None), fs_mkdir = (\<lambda>_. True), fs_lstat = (\<lambda>_. RealDirectory), fs_resolve = (\<lambda>_. None), fs_chmod = (\<lambda>_. True)\<rparr>,
      st_schema = None, st_migrations = [], st_marshal = (\<lambda>_. ''''), st_access = sample_db, st_now = 9,
      st_templates_ok = True, st_static_ok = True,
      st_disk = \<lparr>df_stat = (\<lambda>_. None), df_read = (\<lambda>_. None)\<rparr>, st_cases = \<lparr>ct_lower = id, ct_upper = id\<rparr>\<rparr>"


end
