(* ===== verification/Rename_Module.thy ===== *)
theory Rename_Module
  imports Csv Go_Text
begin

text \<open>
  The tool that renames the Go module, \<open>src/cmd/rename-module/main.go\<close>: the checks of the new path, the module directive,
  the import paths of Go files, the names in documents, and the plan that is written only when it is
  complete. The positions of the imports come from Go's parser, the argument \<open>imports\<close>.
\<close>

section \<open>Module paths\<close>

definition path_char :: "char \<Rightarrow> bool" where
  "path_char c \<longleftrightarrow> (let b = byte c in (97 \<le> b \<and> b \<le> 122) \<or> (48 \<le> b \<and> b \<le> 57) \<or> c \<in> set ''-._~'')"

definition segment_ok :: "string \<Rightarrow> bool" where
  "segment_ok s \<longleftrightarrow>
     \<not> (s = '''' \<or> s = ''.'' \<or> s = ''..'' \<or> prefix ''.'' s \<or> Sublist.suffix ''.'' s) \<and> list_all path_char s"

definition validate_module_path :: "string \<Rightarrow> bool" where
  "validate_module_path path \<longleftrightarrow>
     (if path = '''' \<or> path \<noteq> trim_space path \<or> 255 < length path \<or> prefix ''/'' path \<or> Sublist.suffix ''/'' path \<or> contains path ''//''
      then False
      else
        let segments = split_byte (CHR ''/'') path in
        if length segments < 2 \<or> CHR ''.'' \<notin> set (hd segments) then False else list_all segment_ok segments)"

section \<open>The module directive\<close>

text \<open>\<open>bytes.SplitAfter\<close> at line ends; after a last line end there is one more, empty line.\<close>

fun split_after_newline :: "string \<Rightarrow> string list" where
  "split_after_newline [] = [[]]"
| "split_after_newline (c # cs) =
     (if c = CHR 0x0A then [c] # split_after_newline cs
      else case split_after_newline cs of [] \<Rightarrow> [[c]] | l # ls \<Rightarrow> (c # l) # ls)"

text \<open>\<open>bytes.Index\<close>.\<close>

fun byte_index :: "string \<Rightarrow> string \<Rightarrow> nat option" where
  "byte_index sub [] = (if sub = [] then Some 0 else None)"
| "byte_index sub (c # cs) =
     (if prefix sub (c # cs) then Some 0 else map_option Suc (byte_index sub cs))"

datatype directive_error = MalformedDirective | NoDirective

text \<open>The value of the directive with its first and last offset.\<close>

fun directive_lines :: "nat \<Rightarrow> string list \<Rightarrow> directive_error + string \<times> nat \<times> nat" where
  "directive_lines offset [] = Inl NoDirective"
| "directive_lines offset (line # rest) =
     (let trimmed_line = trim_space line in
      if prefix ''module'' trimmed_line then
        (case text_fields trimmed_line of
           [keyword, v] \<Rightarrow>
             if keyword \<noteq> ''module'' then Inl MalformedDirective
             else (case byte_index v line of
                 None \<Rightarrow> Inr (v, offset - 1, offset - 1 + length v)
               | Some i \<Rightarrow> Inr (v, offset + i, offset + i + length v))
         | _ \<Rightarrow> Inl MalformedDirective)
      else directive_lines (offset + length line) rest)"

definition module_directive :: "string \<Rightarrow> directive_error + string \<times> nat \<times> nat" where
  "module_directive data = directive_lines 0 (split_after_newline data)"

definition replace_bytes :: "string \<Rightarrow> nat \<Rightarrow> nat \<Rightarrow> string \<Rightarrow> string" where
  "replace_bytes data first last_offset replacement = take first data @ replacement @ drop last_offset data"

section \<open>Documents\<close>

definition module_character :: "char \<Rightarrow> bool" where
  "module_character c \<longleftrightarrow>
     (let b = byte c in (97 \<le> b \<and> b \<le> 122) \<or> (65 \<le> b \<and> b \<le> 90) \<or> (48 \<le> b \<and> b \<le> 57) \<or> c \<in> set ''-._~!/'')"

text \<open>
  The loop of \<open>replaceDocumentModule\<close>: \<open>before\<close> is the byte in front of the rest of the data. The name is never
  empty, since it is a field of the module directive.
\<close>

definition before_ok :: "char option \<Rightarrow> bool" where
  "before_ok c \<longleftrightarrow> (case c of None \<Rightarrow> True | Some b \<Rightarrow> \<not> module_character b)"

definition after_ok :: "string \<Rightarrow> bool" where
  "after_ok s \<longleftrightarrow> (case s of [] \<Rightarrow> True | c # _ \<Rightarrow> c = CHR ''/'' \<or> \<not> module_character c)"

function replace_loop :: "string \<Rightarrow> string \<Rightarrow> char option \<Rightarrow> string \<Rightarrow> string" where
  "replace_loop name target before rest =
     (if rest = [] \<or> name = [] then rest
      else case byte_index name rest of None \<Rightarrow> rest
        | Some i \<Rightarrow>
            let front = (if i = 0 then before else Some (rest ! (i - 1))); behind = drop (i + length name) rest in
            if before_ok front \<and> after_ok behind
            then take i rest @ target @ replace_loop name target (Some (last name)) behind
            else take (i + 1) rest @ replace_loop name target (Some (rest ! i)) (drop (i + 1) rest))"
  by pat_completeness auto
termination
  by (relation "measure (\<lambda>(name, target, before, rest). length rest)") auto

declare replace_loop.simps [simp del]

definition replace_document_module :: "string \<Rightarrow> string \<Rightarrow> string \<Rightarrow> string" where
  "replace_document_module data name target = replace_loop name target None data"

section \<open>Import paths\<close>

text \<open>
  The parser gives the offsets of each import path and its unquoted value, in the order of the file; a module path
  needs no escape when it is quoted.
\<close>

definition import_edits :: "string \<Rightarrow> string \<Rightarrow> (nat \<times> nat \<times> string) list \<Rightarrow> (nat \<times> nat \<times> string) list" where
  "import_edits name target specs =
     map (\<lambda>(s, e, v). (s, e, ''\"'' @ target @ trim_prefix name v @ ''\"''))
       (filter (\<lambda>(s, e, v). v = name \<or> prefix (name @ ''/'') v) specs)"

definition replace_go_imports :: "(string \<Rightarrow> (nat \<times> nat \<times> string) list option) \<Rightarrow> string \<Rightarrow> string \<Rightarrow> string \<Rightarrow> string option" where
  "replace_go_imports imports data name target =
     (case imports data of None \<Rightarrow> None
      | Some specs \<Rightarrow> Some (foldr (\<lambda>(s, e, v) d. replace_bytes d s e v) (import_edits name target specs) data))"

section \<open>The plan and its execution\<close>

definition skipped_directory :: "string \<Rightarrow> bool" where
  "skipped_directory path \<longleftrightarrow>
     path \<in> {''.git'', ''node_modules'', ''bin'', ''tmp'', ''web/static''}
     \<or> list_ex (\<lambda>d. prefix d path) [''.git/'', ''node_modules/'', ''bin/'', ''tmp/'', ''web/static/'']"

text \<open>A file of the tree: its slash path, content and mode; unreadable files have no content.\<close>

record tree_file =
  tf_path :: string
  tf_data :: "string option"
  tf_mode :: int

text \<open>The directories above a path, and whether the walk reaches it.\<close>

fun parent_paths :: "string list \<Rightarrow> string list" where
  "parent_paths (a # b # cs) = a # map (\<lambda>p. a @ ''/'' @ p) (parent_paths (b # cs))"
| "parent_paths _ = []"

definition walked :: "string \<Rightarrow> bool" where
  "walked path \<longleftrightarrow> list_all (\<lambda>d. \<not> skipped_directory d) (parent_paths (split_byte (CHR ''/'') path))"

datatype rename_error =
    InvalidModulePath | ReadFailed string | DirectiveFailed directive_error | ImportsFailed string | WriteFailed string

text \<open>What the walk decides about a file: an update, or nothing.\<close>

definition plan_file ::
  "(string \<Rightarrow> (nat \<times> nat \<times> string) list option) \<Rightarrow> string \<Rightarrow> string \<Rightarrow> string \<Rightarrow> tree_file \<Rightarrow> rename_error + tree_file option" where
  "plan_file imports module_data name target f =
     (let path = tf_path f in
      if path = ''go.mod'' then
        (case module_directive module_data of Inl e \<Rightarrow> Inl (DirectiveFailed e)
         | Inr (_, s, e) \<Rightarrow> Inr (Some (f\<lparr>tf_data := Some (replace_bytes module_data s e target)\<rparr>)))
      else if Sublist.suffix ''.go'' path then
        (case tf_data f of None \<Rightarrow> Inl (ReadFailed path)
         | Some data \<Rightarrow>
             (case replace_go_imports imports data name target of None \<Rightarrow> Inl (ImportsFailed path)
              | Some updated \<Rightarrow> Inr (if updated = data then None else Some (f\<lparr>tf_data := Some updated\<rparr>))))
      else if Sublist.suffix ''.md'' path \<or> Sublist.suffix ''.markdown'' path then
        (case tf_data f of None \<Rightarrow> Inl (ReadFailed path)
         | Some data \<Rightarrow>
             (let updated = replace_document_module data name target in
              Inr (if updated = data then None else Some (f\<lparr>tf_data := Some updated\<rparr>))))
      else Inr None)"

definition plan_rename ::
  "(string \<Rightarrow> (nat \<times> nat \<times> string) list option) \<Rightarrow> string \<Rightarrow> string \<Rightarrow> string \<Rightarrow> tree_file list \<Rightarrow> rename_error + tree_file list" where
  "plan_rename imports module_data name target tree =
     (case traverse (plan_file imports module_data name target) (filter (\<lambda>f. walked (tf_path f)) tree) of
        Inl e \<Rightarrow> Inl e | Inr updates \<Rightarrow> Inr (map the (filter (\<lambda>u. u \<noteq> None) updates)))"

text \<open>
  The writes, one file after the other, each by renaming a temporary file: the tree afterwards, and the failure
  that stopped them.
\<close>

fun write_files :: "(string \<Rightarrow> bool) \<Rightarrow> tree_file list \<Rightarrow> tree_file list \<Rightarrow> rename_error option \<times> tree_file list" where
  "write_files write_ok [] tree = (None, tree)"
| "write_files write_ok (u # us) tree =
     (if \<not> write_ok (tf_path u) then (Some (WriteFailed (tf_path u)), tree)
      else write_files write_ok us (map (\<lambda>f. if tf_path f = tf_path u then u else f) tree))"

definition rename_module ::
  "(string \<Rightarrow> (nat \<times> nat \<times> string) list option) \<Rightarrow> (string \<Rightarrow> bool) \<Rightarrow> string \<Rightarrow> tree_file list
     \<Rightarrow> (rename_error + string list) \<times> tree_file list" where
  "rename_module imports write_ok target tree =
     (if \<not> validate_module_path target then (Inl InvalidModulePath, tree)
      else case map_of (map (\<lambda>f. (tf_path f, tf_data f)) tree) ''go.mod'' of
        Some (Some module_data) \<Rightarrow>
          (case module_directive module_data of Inl e \<Rightarrow> (Inl (DirectiveFailed e), tree)
           | Inr (name, _, _) \<Rightarrow>
               if name = target then (Inr [], tree)
               else (case plan_rename imports module_data name target tree of
                   Inl e \<Rightarrow> (Inl e, tree)
                 | Inr updates \<Rightarrow>
                     (case write_files write_ok updates tree of
                        (Some e, tree') \<Rightarrow> (Inl e, tree')
                      | (None, tree') \<Rightarrow> (Inr (sort (map tf_path updates)), tree'))))
      | _ \<Rightarrow> (Inl (ReadFailed ''go.mod''), tree))"

section \<open>Renaming by words\<close>

text \<open>
  The specification: a document is cut into the longest runs of characters that may occur in a module path, and a
  run is renamed when it is the name or continues it with a slash.
\<close>

definition rename_run :: "string \<Rightarrow> string \<Rightarrow> string \<Rightarrow> string" where
  "rename_run name target run = (if run = name \<or> prefix (name @ ''/'') run then target @ drop (length name) run else run)"

function rename_runs :: "string \<Rightarrow> string \<Rightarrow> string \<Rightarrow> string" where
  "rename_runs name target s =
     rename_run name target (takeWhile module_character s)
       @ (case dropWhile module_character s of [] \<Rightarrow> [] | c # cs \<Rightarrow> c # rename_runs name target cs)"
  by pat_completeness auto
termination
proof (relation "measure (\<lambda>(name, target, s). length s)")
  fix name target :: string and s c cs
  assume "dropWhile module_character s = c # cs"
  then have "length (c # cs) \<le> length s" by (metis length_dropWhile_le)
  then show "((name, target, cs), name, target, s) \<in> measure (\<lambda>(name, target, s). length s)" by simp
qed simp

declare rename_runs.simps [simp del]

text \<open>The same inside a run that is already known not to be renamed at this point.\<close>

definition after_run :: "string \<Rightarrow> string \<Rightarrow> string \<Rightarrow> string" where
  "after_run name target s =
     takeWhile module_character s @ (case dropWhile module_character s of [] \<Rightarrow> [] | c # cs \<Rightarrow> c # rename_runs name target cs)"

lemma replace_loop_Nil [simp]: "replace_loop name target before [] = []"
  by (simp add: replace_loop.simps)

lemma replace_loop_skip:
  assumes "name \<noteq> []" and "\<not> prefix name (c # cs)"
  shows "replace_loop name target before (c # cs) = c # replace_loop name target (Some c) cs"
proof (cases "byte_index name cs")
  case None
  then show ?thesis using assms by (simp add: replace_loop.simps [of name target before "c # cs"] replace_loop.simps [of name target "Some c" cs])
next
  case (Some i)
  then have "cs \<noteq> []" using assms(1) by (cases cs) auto
  then show ?thesis
    using Some assms by (cases i)
      (simp_all add: replace_loop.simps [of name target before "c # cs"] replace_loop.simps [of name target "Some c" cs] Let_def)
qed

lemma replace_loop_match:
  assumes "name \<noteq> []" and "prefix name (c # cs)"
  shows "replace_loop name target before (c # cs) =
    (if before_ok before \<and> after_ok (drop (length name) (c # cs))
     then target @ replace_loop name target (Some (last name)) (drop (length name) (c # cs))
     else c # replace_loop name target (Some c) cs)"
  using assms by (simp add: replace_loop.simps [of name target before "c # cs"] Let_def)

lemma takeWhile_prefix:
  assumes "list_all P name" and "s = name @ t"
  shows "takeWhile P s = name @ takeWhile P t" and "dropWhile P s = dropWhile P t"
  using assms by (auto simp: list_all_iff takeWhile_append2 dropWhile_append2)

lemma after_run_Cons:
  "after_run name target (c # cs) =
     (if module_character c then c # after_run name target cs else c # rename_runs name target cs)"
  by (simp add: after_run_def)

lemma rename_runs_not_renamed:
  assumes "rename_run name target (takeWhile module_character s) = takeWhile module_character s"
  shows "rename_runs name target s = after_run name target s"
  using assms by (simp add: rename_runs.simps [of name target s] after_run_def)

lemma replace_loop_runs:
  assumes "name \<noteq> []" and "list_all module_character name"
  shows "replace_loop name target before s =
    (if before_ok before then rename_runs name target s else after_run name target s)"
proof (induction "length s" arbitrary: before s rule: less_induct)
  case less
  show ?case
  proof (cases s)
    case Nil
    then show ?thesis using assms(1) by (simp add: rename_runs.simps rename_run_def after_run_def)
  next
    case (Cons c cs)
    have tail: "replace_loop name target (Some c) cs = (if module_character c then after_run name target cs else rename_runs name target cs)"
      using less [of cs "Some c"] by (simp add: Cons before_ok_def)
    have step: "c # replace_loop name target (Some c) cs = after_run name target s"
      by (simp add: Cons tail after_run_Cons)
    show ?thesis
    proof (cases "prefix name s")
      case True
      then obtain t where t: "s = name @ t" by (auto simp: prefix_def)
      note run = takeWhile_prefix [OF assms(2) t]
      have dropped: "drop (length name) s = t" by (simp add: t)
      have renamed: "after_ok t \<longleftrightarrow> takeWhile module_character s = name \<or> prefix (name @ ''/'') (takeWhile module_character s)"
        unfolding run(1) by (cases t) (auto simp: after_ok_def module_character_def)
      have "last name \<in> set name" using assms(1) by simp
      then have last: "module_character (last name)" using assms(2) by (auto simp: list_all_iff)
      have shorter: "length t < length s" using assms(1) by (simp add: t)
      have rest: "replace_loop name target (Some (last name)) t = after_run name target t"
        using less [OF shorter, of "Some (last name)"] last by (simp add: before_ok_def)
      show ?thesis
      proof (cases "before_ok before \<and> after_ok t")
        case both: True
        then have "rename_runs name target s = target @ after_run name target t"
          using renamed by (simp add: rename_runs.simps [of name target s] rename_run_def run after_run_def)
        then show ?thesis
          using both replace_loop_match [OF assms(1), of c cs target before] True rest by (simp add: Cons [symmetric] dropped)
      next
        case False
        then have "replace_loop name target before s = after_run name target s"
          using replace_loop_match [OF assms(1), of c cs target before] True step dropped by (simp only: Cons [symmetric] if_False)
        moreover have "rename_runs name target s = after_run name target s" if "before_ok before"
          using that False renamed by (intro rename_runs_not_renamed) (simp add: rename_run_def)
        ultimately show ?thesis by simp
      qed
    next
      case False
      have "\<not> (takeWhile module_character s = name \<or> prefix (name @ ''/'') (takeWhile module_character s))"
      proof
        assume "takeWhile module_character s = name \<or> prefix (name @ ''/'') (takeWhile module_character s)"
        then have "prefix name (takeWhile module_character s)" by (auto dest: append_prefixD)
        then have "prefix name s" using takeWhile_is_prefix prefix_order.trans by blast
        then show False using False by simp
      qed
      then have "rename_runs name target s = after_run name target s"
        by (intro rename_runs_not_renamed) (simp add: rename_run_def)
      then show ?thesis using replace_loop_skip [OF assms(1), of c cs target before] False step by (simp add: Cons [symmetric])
    qed
  qed
qed

text \<open>Renaming there and back, run by run.\<close>

lemma rename_run_back:
  assumes "rename_run target name run = run" and "target \<noteq> name"
  shows "rename_run target name (rename_run name target run) = run"
proof (cases "run = name \<or> prefix (name @ ''/'') run")
  case True
  then obtain t where t: "run = name @ t" "t = [] \<or> prefix ''/'' t" by (auto simp: prefix_def)
  then show ?thesis by (auto simp: rename_run_def prefix_def)
qed (use assms in \<open>simp add: rename_run_def\<close>)

lemma rename_run_chars:
  "list_all module_character run \<Longrightarrow> list_all module_character target \<Longrightarrow> list_all module_character (rename_run name target run)"
  by (auto simp: rename_run_def list_all_iff dest: in_set_dropD)

lemma rename_runs_there:
  assumes "list_all module_character target"
  shows "takeWhile module_character (rename_runs name target s) = rename_run name target (takeWhile module_character s)"
    and "dropWhile module_character (rename_runs name target s) =
      (case dropWhile module_character s of [] \<Rightarrow> [] | c # cs \<Rightarrow> c # rename_runs name target cs)"
proof -
  let ?run = "takeWhile module_character s"
  have run: "list_all module_character (rename_run name target ?run)"
    using assms by (intro rename_run_chars) (auto simp: list_all_iff dest: set_takeWhileD)
  have stop: "takeWhile module_character (case dropWhile module_character s of [] \<Rightarrow> [] | c # cs \<Rightarrow> c # rename_runs name target cs) = []"
    "dropWhile module_character (case dropWhile module_character s of [] \<Rightarrow> [] | c # cs \<Rightarrow> c # rename_runs name target cs)
       = (case dropWhile module_character s of [] \<Rightarrow> [] | c # cs \<Rightarrow> c # rename_runs name target cs)"
    by (auto split: list.split dest: dropWhile_eq_Cons_conv [THEN iffD1])
  show "takeWhile module_character (rename_runs name target s) = rename_run name target ?run"
    "dropWhile module_character (rename_runs name target s) =
      (case dropWhile module_character s of [] \<Rightarrow> [] | c # cs \<Rightarrow> c # rename_runs name target cs)"
    using takeWhile_prefix [OF run rename_runs.simps [of name target s]] stop by simp_all
qed

lemma rename_runs_eq:
  "rename_runs name target s = s \<longleftrightarrow>
     rename_run name target (takeWhile module_character s) = takeWhile module_character s
     \<and> (case dropWhile module_character s of [] \<Rightarrow> True | c # cs \<Rightarrow> rename_runs name target cs = cs)"
  if "list_all module_character target"
proof -
  note t = rename_runs_there [OF that, of name s]
  have "rename_runs name target s = s \<longleftrightarrow>
      takeWhile module_character (rename_runs name target s) = takeWhile module_character s
      \<and> dropWhile module_character (rename_runs name target s) = dropWhile module_character s"
    by (metis takeWhile_dropWhile_id)
  then show ?thesis unfolding t by (cases "dropWhile module_character s") (simp_all only: list.case list.inject list.distinct simp_thms)
qed

lemma rename_runs_back:
  assumes "list_all module_character name" and "list_all module_character target" and "rename_runs target name s = s" and "target \<noteq> name"
  shows "rename_runs target name (rename_runs name target s) = s"
  using assms(3)
proof (induction "length s" arbitrary: s rule: less_induct)
  case less
  note eq = rename_runs_eq [OF assms(1), of target s] and there = rename_runs_there [OF assms(2), of name s]
  have run: "rename_run target name (takeWhile module_character s) = takeWhile module_character s" using eq less.prems by simp
  show ?case
  proof (cases "dropWhile module_character s")
    case Nil
    then have "takeWhile module_character s = s" by (metis takeWhile_dropWhile_id append_Nil2)
    then show ?thesis
      unfolding rename_runs.simps [of target name "rename_runs name target s"] there Nil
      using rename_run_back [OF run assms(4)] by simp
  next
    case (Cons c cs)
    then have "length (c # cs) \<le> length s" by (metis length_dropWhile_le)
    moreover have "rename_runs target name cs = cs" using eq less.prems Cons by simp
    ultimately have "rename_runs target name (rename_runs name target cs) = cs" using less.hyps by simp
    then show ?thesis
      unfolding rename_runs.simps [of target name "rename_runs name target s"] there Cons
      using rename_run_back [OF run assms(4)] takeWhile_dropWhile_id [of module_character s] Cons by simp
  qed
qed

lemma path_char_module: "path_char c \<Longrightarrow> module_character c"
  by (auto simp: path_char_def module_character_def Let_def)

lemma split_byte_member: "x \<in> set s \<Longrightarrow> x \<noteq> c \<Longrightarrow> \<exists>p \<in> set (split_byte c s). x \<in> set p"
proof (induction s)
  case (Cons y s)
  then show ?case by (cases "split_byte c s") auto
qed simp

lemma validated_characters:
  assumes "validate_module_path path"
  shows "path \<noteq> []" and "list_all module_character path"
proof -
  have segs: "list_all segment_ok (split_byte (CHR ''/'') path)" and ne: "path \<noteq> []"
    using assms by (auto simp: validate_module_path_def Let_def split: if_split_asm)
  show "path \<noteq> []" by (rule ne)
  have "module_character c" if c: "c \<in> set path" for c
  proof (cases "c = CHR ''/''")
    case False
    with c obtain s where "s \<in> set (split_byte (CHR ''/'') path)" "c \<in> set s" using split_byte_member by blast
    then show ?thesis using segs by (intro path_char_module) (auto simp: list_all_iff segment_ok_def)
  qed (simp add: module_character_def)
  then show "list_all module_character path" by (simp add: list_all_iff)
qed

section \<open>Properties\<close>

text \<open>
  Renaming a module in a document renames exactly the whole names: the loop over occurrences equals renaming run
  by run, where a run of path characters is renamed when it is the name or the name continued by a slash, and
  renaming back restores every document that did not mention the new name.
\<close>

theorem document_rename_round_trip:
  assumes "validate_module_path target" and "name \<noteq> ''''" and "list_all module_character name"
  shows "replace_document_module data name target = rename_runs name target data
     \<and> (replace_document_module data target name = data \<and> target \<noteq> name \<longrightarrow>
          replace_document_module (replace_document_module data name target) target name = data)"
proof -
  note t = validated_characters [OF assms(1)]
  have there: "replace_document_module d name target = rename_runs name target d" for d
    using replace_loop_runs [OF assms(2,3)] by (simp add: replace_document_module_def before_ok_def)
  have again: "replace_document_module d target name = rename_runs target name d" for d
    using replace_loop_runs [OF t] by (simp add: replace_document_module_def before_ok_def)
  show ?thesis using rename_runs_back [OF assms(3) t(2)] by (simp add: there again)
qed

theorem document_rename_round_trip_witness:
  "replace_document_module ''o.a/b xo.a'' ''o.a'' ''n.b/c'' = ''n.b/c/b xo.a''
   \<and> replace_document_module ''n.b/c/b xo.a'' ''n.b/c'' ''o.a'' = ''o.a/b xo.a''"
proof -
  have v: "validate_module_path ''n.b/c''" "list_all module_character ''o.a''" by code_simp+
  have there: "replace_document_module ''o.a/b xo.a'' ''o.a'' ''n.b/c'' = ''n.b/c/b xo.a''"
    and same: "replace_document_module ''o.a/b xo.a'' ''n.b/c'' ''o.a'' = ''o.a/b xo.a''" by code_simp+
  have "replace_document_module ''o.a/b xo.a'' ''n.b/c'' ''o.a'' = ''o.a/b xo.a'' \<and> ''n.b/c'' \<noteq> ''o.a'' \<longrightarrow>
      replace_document_module (replace_document_module ''o.a/b xo.a'' ''o.a'' ''n.b/c'') ''n.b/c'' ''o.a'' = ''o.a/b xo.a''"
    using document_rename_round_trip [OF v(1) _ v(2), of "''o.a/b xo.a''"] by blast
  then show ?thesis unfolding there by (simp add: same)
qed

text \<open>
  The directive's value is looked up from the start of its line, so a module whose name occurs in the keyword is
  not found at its own place: renaming the module \<open>mod\<close> breaks the keyword instead.
\<close>

lemma module_name_in_keyword:
  "module_directive (''module mod'' @ [CHR 0x0A]) = Inr (''mod'', 0, 3)"
  "replace_bytes (''module mod'' @ [CHR 0x0A]) 0 3 ''new.org/c'' = ''new.org/cule mod'' @ [CHR 0x0A]"
  by code_simp+

end
