(* ===== verification/Advisory_Lock.thy ===== *)
theory Advisory_Lock
  imports Snapshot
begin

text \<open>
  The named locks of the database that keep one SLIK worker and one snapshot refresh running: \<open>AcquireLock\<close> of
  \<open>src/internal/slik/repository.go\<close> with its monitor, and \<open>AcquireRefreshLock\<close> of \<open>src/internal/snapshot/repository.go\<close>. The
  server's part is MySQL's documented behaviour: a lock belongs to a connection, \<open>GET_LOCK\<close> without a
  timeout gives 0 while another connection has it, and a dead connection loses it. The
  pool's part is that of \<open>database/sql\<close>: closing a connection taken from the pool gives it back to the pool, alive,
  and a query whose context ends takes its connection down.
\<close>

section \<open>The server and the pool\<close>

record lock_server =
  ls_owner :: "nat option"
  ls_alive :: "nat list"
  ls_idle :: "nat list"
  ls_next :: nat

text \<open>A connection of the pool: an idle one when the pool reuses it, a new one otherwise.\<close>

definition new_connection :: "lock_server \<Rightarrow> nat \<times> lock_server" where
  "new_connection s = (ls_next s, s\<lparr>ls_alive := ls_next s # ls_alive s, ls_next := ls_next s + 1\<rparr>)"

definition take_connection :: "bool \<Rightarrow> lock_server \<Rightarrow> nat \<times> lock_server" where
  "take_connection reuse s =
     (case ls_idle s of
        [] \<Rightarrow> new_connection s
      | c # rest \<Rightarrow> if reuse then (c, s\<lparr>ls_idle := rest\<rparr>) else new_connection s)"

definition give_back :: "nat \<Rightarrow> lock_server \<Rightarrow> lock_server" where
  "give_back c s = (if c \<in> set (ls_alive s) then s\<lparr>ls_idle := c # ls_idle s\<rparr> else s)"

text \<open>A connection ends.\<close>

definition disconnect :: "nat \<Rightarrow> lock_server \<Rightarrow> lock_server" where
  "disconnect c s =
     s\<lparr>ls_alive := filter (\<lambda>x. x \<noteq> c) (ls_alive s), ls_idle := filter (\<lambda>x. x \<noteq> c) (ls_idle s),
       ls_owner := (if ls_owner s = Some c then None else ls_owner s)\<rparr>"

definition get_lock :: "nat \<Rightarrow> lock_server \<Rightarrow> int option \<times> lock_server" where
  "get_lock c s =
     (if ls_owner s = None \<or> ls_owner s = Some c then (Some 1, s\<lparr>ls_owner := Some c\<rparr>) else (Some 0, s))"

definition release_lock :: "nat \<Rightarrow> lock_server \<Rightarrow> lock_server" where
  "release_lock c s = (if ls_owner s = Some c then s\<lparr>ls_owner := None\<rparr> else s)"

section \<open>The program\<close>

text \<open>
  How a statement over the connection ends: it is answered, the server refuses it, or its context ends first. In the last
  case the server may have done the work, and the connection is taken down.
\<close>

datatype statement_end = Answered | Refused | Broken

text \<open>
  An acquisition: whether a connection is had and how the statement ends. A lock that is not acquired leaves
  no connection out of the pool. \<open>NULL\<close> is an answer, too; it is the one of a server out of memory or a killed query.
\<close>

definition acquire_lock :: "bool \<Rightarrow> bool \<Rightarrow> statement_end \<Rightarrow> lock_server \<Rightarrow> (lock_outcome \<times> nat option) \<times> lock_server" where
  "acquire_lock connects reuse ends s =
     (if \<not> connects then ((LockFailed, None), s)
      else case take_connection reuse s of (c, s1) \<Rightarrow>
        case ends of
          Refused \<Rightarrow> ((LockFailed, None), give_back c s1)
        | Broken \<Rightarrow> ((LockFailed, None), give_back c (disconnect c (snd (get_lock c s1))))
        | Answered \<Rightarrow>
            (case get_lock c s1 of (answer, s2) \<Rightarrow>
               if answer \<noteq> Some 1 then ((LockBusy, None), give_back c s2) else ((LockHeld, Some c), s2)))"

text \<open>
  The monitor's check of a held lock, over its own connection: a failed query, no owner, or another owner is a loss.
\<close>

definition monitor_lost :: "nat \<Rightarrow> lock_server \<Rightarrow> bool" where
  "monitor_lost c s \<longleftrightarrow>
     (if c \<notin> set (ls_alive s) then True else case ls_owner s of None \<Rightarrow> True | Some d \<Rightarrow> c \<noteq> d)"

text \<open>
  The release function, which does its work once: a release that is not answered in time takes the connection down.
\<close>

definition release_held :: "bool \<Rightarrow> nat \<Rightarrow> lock_server \<Rightarrow> lock_server" where
  "release_held answered c s = give_back c (if answered then release_lock c s else disconnect c s)"

section \<open>Workers over one server\<close>

datatype holder = Without | Holding nat | LostSignal nat

record lock_system =
  ly_server :: lock_server
  ly_holder :: "nat \<Rightarrow> holder"

definition lock_start :: lock_system where
  "lock_start = \<lparr>ly_server = \<lparr>ls_owner = None, ls_alive = [], ls_idle = [], ls_next = 0\<rparr>, ly_holder = (\<lambda>_. Without)\<rparr>"

definition with_holder :: "nat \<Rightarrow> holder \<Rightarrow> lock_server \<Rightarrow> lock_system \<Rightarrow> lock_system" where
  "with_holder p h s y = \<lparr>ly_server = s, ly_holder = (ly_holder y)(p := h)\<rparr>"

text \<open>
  A worker acquires, its monitor ticks, it releases; and any connection may die at any time. A query of the monitor that fails
  on a living connection counts as a loss, too. The refresh has no monitor: for it the tick does not happen.
\<close>

inductive lock_step :: "lock_system \<Rightarrow> lock_system \<Rightarrow> bool" where
  acquire: "ly_holder y p = Without \<Longrightarrow> acquire_lock connects reuse ends (ly_server y) = ((result, conn), s)
    \<Longrightarrow> lock_step y (with_holder p (case conn of None \<Rightarrow> Without | Some c \<Rightarrow> Holding c) s y)"
| tick: "ly_holder y p = Holding c \<Longrightarrow>
    lock_step y (with_holder p (if failed \<or> monitor_lost c (ly_server y) then LostSignal c else Holding c) (ly_server y) y)"
| release: "ly_holder y p = Holding c \<or> ly_holder y p = LostSignal c
    \<Longrightarrow> lock_step y (with_holder p Without (release_held answered c (ly_server y)) y)"
| die: "lock_step y (y\<lparr>ly_server := disconnect c (ly_server y)\<rparr>)"

inductive lock_reachable :: "lock_system \<Rightarrow> bool" where
  init: "lock_reachable lock_start"
| step: "lock_reachable y \<Longrightarrow> lock_step y z \<Longrightarrow> lock_reachable z"

inductive_cases lock_stepE: "lock_step y z"

section \<open>The invariant\<close>

fun holder_connection :: "holder \<Rightarrow> nat option" where
  "holder_connection Without = None"
| "holder_connection (Holding c) = Some c"
| "holder_connection (LostSignal c) = Some c"

text \<open>The server's own part.\<close>

definition pool_ok :: "lock_server \<Rightarrow> bool" where
  "pool_ok s \<longleftrightarrow> (\<forall>c \<in> set (ls_alive s). c < ls_next s) \<and> set (ls_idle s) \<subseteq> set (ls_alive s) \<and> distinct (ls_idle s)
     \<and> (\<forall>c. ls_owner s = Some c \<longrightarrow> c \<in> set (ls_alive s) \<and> c \<notin> set (ls_idle s))"

text \<open>The worker's part: a connection in use that lives owns the lock, and the owner is in use.\<close>

definition held_ok :: "lock_server \<Rightarrow> (nat \<Rightarrow> nat option) \<Rightarrow> bool" where
  "held_ok s h \<longleftrightarrow>
     (\<forall>p c. h p = Some c \<longrightarrow> c < ls_next s \<and> c \<notin> set (ls_idle s) \<and> (c \<in> set (ls_alive s) \<longrightarrow> ls_owner s = Some c))
     \<and> (\<forall>p q c. h p = Some c \<and> h q = Some c \<longrightarrow> p = q)
     \<and> (\<forall>c. ls_owner s = Some c \<longrightarrow> (\<exists>p. h p = Some c))"

definition lock_ok :: "lock_system \<Rightarrow> bool" where
  "lock_ok y \<longleftrightarrow> pool_ok (ly_server y) \<and> held_ok (ly_server y) (\<lambda>p. holder_connection (ly_holder y p))"

text \<open>What a step leaves of the connections that were neither idle nor new.\<close>

definition keeps_used :: "lock_server \<Rightarrow> lock_server \<Rightarrow> bool" where
  "keeps_used s t \<longleftrightarrow> ls_next s \<le> ls_next t
     \<and> (\<forall>c. c < ls_next s \<and> c \<notin> set (ls_idle s) \<longrightarrow> c \<notin> set (ls_idle t) \<and> (c \<in> set (ls_alive t) \<longrightarrow> c \<in> set (ls_alive s)))"

lemma take_connection_ok:
  assumes "take_connection reuse s = (c, t)" and "pool_ok s"
  shows "pool_ok t" "keeps_used s t" "ls_owner t = ls_owner s" "c \<in> set (ls_alive t)" "c \<notin> set (ls_idle t)" "ls_owner s \<noteq> Some c"
    "c < ls_next t" "c \<in> set (ls_idle s) \<or> ls_next s \<le> c"
proof -
  have new: "pool_ok t \<and> keeps_used s t \<and> ls_owner t = ls_owner s \<and> c \<in> set (ls_alive t) \<and> c \<notin> set (ls_idle t)
      \<and> ls_owner s \<noteq> Some c \<and> c < ls_next t \<and> (c \<in> set (ls_idle s) \<or> ls_next s \<le> c)" if "new_connection s = (c, t)"
    using assms(2) that unfolding new_connection_def pool_ok_def keeps_used_def by fastforce
  have "pool_ok t \<and> keeps_used s t \<and> ls_owner t = ls_owner s \<and> c \<in> set (ls_alive t) \<and> c \<notin> set (ls_idle t)
      \<and> ls_owner s \<noteq> Some c \<and> c < ls_next t \<and> (c \<in> set (ls_idle s) \<or> ls_next s \<le> c)"
  proof (cases "ls_idle s")
    case Nil
    then show ?thesis using new assms(1) by (simp add: take_connection_def)
  next
    case (Cons d rest)
    show ?thesis
    proof (cases reuse)
      case True
      then have "c = d" "t = s\<lparr>ls_idle := rest\<rparr>" using assms(1) Cons by (auto simp: take_connection_def)
      then show ?thesis using assms(2) Cons by (auto simp: pool_ok_def keeps_used_def)
    next
      case False
      then show ?thesis using new assms(1) Cons by (simp add: take_connection_def)
    qed
  qed
  then show "pool_ok t" "keeps_used s t" "ls_owner t = ls_owner s" "c \<in> set (ls_alive t)" "c \<notin> set (ls_idle t)" "ls_owner s \<noteq> Some c"
    "c < ls_next t" "c \<in> set (ls_idle s) \<or> ls_next s \<le> c" by auto
qed

lemma give_back_ok:
  assumes "pool_ok s" and "c \<notin> set (ls_idle s)" and "ls_owner s \<noteq> Some c"
  shows "pool_ok (give_back c s)"
  using assms by (auto simp: pool_ok_def give_back_def)

lemma give_back_same [simp]:
  "ls_owner (give_back c s) = ls_owner s" "ls_alive (give_back c s) = ls_alive s" "ls_next (give_back c s) = ls_next s"
  "set (ls_idle (give_back c s)) = (if c \<in> set (ls_alive s) then insert c (set (ls_idle s)) else set (ls_idle s))"
  by (simp_all add: give_back_def)

lemma disconnect_same [simp]:
  "ls_owner (disconnect c s) = (if ls_owner s = Some c then None else ls_owner s)" "set (ls_alive (disconnect c s)) = set (ls_alive s) - {c}"
  "set (ls_idle (disconnect c s)) = set (ls_idle s) - {c}" "ls_next (disconnect c s) = ls_next s"
  by (auto simp: disconnect_def)

lemma disconnect_ok: "pool_ok s \<Longrightarrow> pool_ok (disconnect c s)"
  by (auto simp: pool_ok_def disconnect_def)

lemma acquire_lock_ok:
  assumes "acquire_lock connects reuse ends s = ((result, conn), t)" and "pool_ok s"
  shows "pool_ok t \<and> keeps_used s t
     \<and> (conn = None \<and> result \<noteq> LockHeld \<and> ls_owner t = ls_owner s
        \<or> (\<exists>c. conn = Some c \<and> result = LockHeld \<and> ls_owner s = None \<and> ls_owner t = Some c \<and> c < ls_next t
             \<and> c \<notin> set (ls_idle t) \<and> (c \<in> set (ls_idle s) \<or> ls_next s \<le> c)))"
proof (cases connects)
  case False
  then show ?thesis using assms by (auto simp: acquire_lock_def keeps_used_def)
next
  case True
  obtain c u where u: "take_connection reuse s = (c, u)" by (cases "take_connection reuse s")
  note k = take_connection_ok [OF u assms(2)]
  show ?thesis
  proof (cases ends)
    case Refused
    then have "t = give_back c u" "conn = None" "result = LockFailed" using assms(1) True u by (simp_all add: acquire_lock_def)
    then show ?thesis using give_back_ok [OF k(1,5)] k unfolding keeps_used_def by auto
  next
    case Broken
    have "disconnect c (snd (get_lock c u)) = disconnect c u" using k(3,6) by (auto simp: get_lock_def disconnect_def)
    then have "t = give_back c (disconnect c u)" "conn = None" "result = LockFailed"
      using assms(1) True u Broken by (simp_all add: acquire_lock_def)
    then show ?thesis using disconnect_ok [OF k(1)] k unfolding keeps_used_def by (auto simp: give_back_def)
  next
    case Answered
    show ?thesis
    proof (cases "ls_owner s")
      case None
      then have "t = u\<lparr>ls_owner := Some c\<rparr>" "conn = Some c" "result = LockHeld"
        using assms(1) True u Answered k(3) by (auto simp: acquire_lock_def get_lock_def)
      then show ?thesis using k None by (auto simp: pool_ok_def keeps_used_def)
    next
      case (Some d)
      then have "t = give_back c u" "conn = None" "result = LockBusy"
        using assms(1) True u Answered k(3,6) by (simp_all add: acquire_lock_def get_lock_def)
      then show ?thesis using give_back_ok [OF k(1,5)] k unfolding keeps_used_def by auto
    qed
  qed
qed

lemma held_ok_keeps:
  assumes "held_ok s h" and "keeps_used s t" and "ls_owner t = ls_owner s"
  shows "held_ok t h"
  using assms unfolding held_ok_def keeps_used_def by (metis order_less_le_trans)

lemma held_ok_acquired:
  assumes "held_ok s h" and "keeps_used s t" and "ls_owner s = None" and "ls_owner t = Some c" and "h p = None"
    and "c < ls_next t" and "c \<notin> set (ls_idle t)" and "c \<in> set (ls_idle s) \<or> ls_next s \<le> c"
  shows "held_ok t (h(p := Some c))"
proof -
  have other: "d \<noteq> c" if "h q = Some d" for q d using assms(1,8) that unfolding held_ok_def by (metis not_le)
  have dead: "d < ls_next t \<and> d \<notin> set (ls_idle t) \<and> d \<notin> set (ls_alive t)" if "h q = Some d" for q d
    using assms(1-3) that unfolding held_ok_def keeps_used_def by (metis option.distinct(1) order_less_le_trans)
  have single: "q = r" if "h q = Some d" "h r = Some d" for q r d using assms(1) that unfolding held_ok_def by blast
  have "d < ls_next t \<and> d \<notin> set (ls_idle t) \<and> (d \<in> set (ls_alive t) \<longrightarrow> ls_owner t = Some d)"
    if "(h(p := Some c)) q = Some d" for q d
    using that dead [of q d] assms(4,6,7) by (cases "q = p") auto
  moreover have "q = r" if "(h(p := Some c)) q = Some d" "(h(p := Some c)) r = Some d" for q r d
    using that other single by (cases "q = p"; cases "r = p") auto
  moreover have "\<exists>q. (h(p := Some c)) q = Some d" if "ls_owner t = Some d" for d
    using that assms(4) by (intro exI [of _ p]) simp
  ultimately show ?thesis unfolding held_ok_def by blast
qed

lemma held_ok_released:
  assumes "held_ok s h" and "h p = Some c"
  shows "held_ok (release_held answered c s) (h(p := None))"
proof -
  have other: "d \<noteq> c" if "h q = Some d" "q \<noteq> p" for q d using assms that unfolding held_ok_def by metis
  have used: "d < ls_next s \<and> d \<notin> set (ls_idle s) \<and> (d \<in> set (ls_alive s) \<longrightarrow> ls_owner s = Some d)" if "h q = Some d" for q d
    using assms(1) that unfolding held_ok_def by blast
  have same: "q = r" if "h q = Some d" "h r = Some d" for q r d using assms(1) that unfolding held_ok_def by blast
  let ?t = "release_held answered c s"
  have t: "ls_next ?t = ls_next s" "ls_owner ?t = (if ls_owner s = Some c then None else ls_owner s)"
    "set (ls_alive ?t) \<subseteq> set (ls_alive s)" "set (ls_idle ?t) \<subseteq> insert c (set (ls_idle s))"
    by (auto simp: release_held_def release_lock_def)
  have "d < ls_next ?t \<and> d \<notin> set (ls_idle ?t) \<and> (d \<in> set (ls_alive ?t) \<longrightarrow> ls_owner ?t = Some d)"
    if "(h(p := None)) q = Some d" for q d
  proof -
    have "h q = Some d" "q \<noteq> p" using that by (simp_all split: if_split_asm)
    then show ?thesis using used [of q d] other [of q d] t by auto
  qed
  moreover have "q = r" if "(h(p := None)) q = Some d" "(h(p := None)) r = Some d" for q r d
    using that same by (simp split: if_split_asm)
  moreover have "\<exists>q. (h(p := None)) q = Some d" if "ls_owner ?t = Some d" for d
  proof -
    have d: "ls_owner s = Some d" "d \<noteq> c" using that t(2) by (auto split: if_split_asm)
    then obtain q where "h q = Some d" using assms(1) unfolding held_ok_def by blast
    then show ?thesis using d assms(2) by (intro exI [of _ q]) auto
  qed
  ultimately show ?thesis unfolding held_ok_def by blast
qed

lemma held_ok_disconnect: "held_ok s h \<Longrightarrow> held_ok (disconnect c s) h"
  by (auto simp: held_ok_def)

lemma with_holder_parts:
  "ly_server (with_holder p h s y) = s"
  "(\<lambda>q. holder_connection (ly_holder (with_holder p h s y) q)) = (\<lambda>q. holder_connection (ly_holder y q))(p := holder_connection h)"
  by (auto simp: with_holder_def)

lemma lock_ok_step:
  assumes "lock_step y z" and "lock_ok y"
  shows "lock_ok z"
  using assms(1)
proof (rule lock_stepE)
  fix p connects reuse ends result conn s
  assume z: "z = with_holder p (case conn of None \<Rightarrow> Without | Some c \<Rightarrow> Holding c) s y" and w: "ly_holder y p = Without"
    and a: "acquire_lock connects reuse ends (ly_server y) = ((result, conn), s)"
  note k = acquire_lock_ok [OF a]
  show ?thesis
  proof (cases conn)
    case None
    then have "held_ok s (\<lambda>q. holder_connection (ly_holder y q))"
      using k assms(2) held_ok_keeps by (auto simp: lock_ok_def)
    moreover have "(\<lambda>q. holder_connection (ly_holder y q))(p := None) = (\<lambda>q. holder_connection (ly_holder y q))" using w by auto
    ultimately show ?thesis using k assms(2) None by (simp add: z lock_ok_def with_holder_parts)
  next
    case (Some c)
    then have "held_ok s ((\<lambda>q. holder_connection (ly_holder y q))(p := Some c))"
      using k assms(2) w by (intro held_ok_acquired [of "ly_server y"]) (auto simp: lock_ok_def)
    then show ?thesis using k assms(2) Some by (simp add: z lock_ok_def with_holder_parts)
  qed
next
  fix p c failed
  assume z: "z = with_holder p (if failed \<or> monitor_lost c (ly_server y) then LostSignal c else Holding c) (ly_server y) y"
    and w: "ly_holder y p = Holding c"
  have "(\<lambda>q. holder_connection (ly_holder y q))(p := Some c) = (\<lambda>q. holder_connection (ly_holder y q))" using w by auto
  then show ?thesis using assms(2) by (simp add: z lock_ok_def with_holder_parts)
next
  fix p c answered
  assume z: "z = with_holder p Without (release_held answered c (ly_server y)) y" and w: "ly_holder y p = Holding c \<or> ly_holder y p = LostSignal c"
  then have c: "holder_connection (ly_holder y p) = Some c" by auto
  have "c \<notin> set (ls_idle (ly_server y))" using assms(2) c unfolding lock_ok_def held_ok_def by blast
  then have "pool_ok (release_held answered c (ly_server y))"
    using assms(2) by (auto simp: lock_ok_def pool_ok_def release_held_def release_lock_def give_back_def disconnect_def)
  moreover have "held_ok (release_held answered c (ly_server y)) ((\<lambda>q. holder_connection (ly_holder y q))(p := None))"
    using held_ok_released [of "ly_server y" "\<lambda>q. holder_connection (ly_holder y q)" p c answered] assms(2) c by (simp add: lock_ok_def)
  ultimately show ?thesis by (simp add: z lock_ok_def with_holder_parts)
next
  fix c
  assume z: "z = y\<lparr>ly_server := disconnect c (ly_server y)\<rparr>"
  show ?thesis using assms(2) disconnect_ok held_ok_disconnect by (simp add: z lock_ok_def)
qed

lemma lock_reachable_ok: "lock_reachable y \<Longrightarrow> lock_ok y"
proof (induction rule: lock_reachable.induct)
  case init
  then show ?case by (simp add: lock_ok_def pool_ok_def held_ok_def lock_start_def)
qed (rule lock_ok_step)

section \<open>The property\<close>

text \<open>
  C15. The lock is held by one worker at a time, however the connections die and whichever statements fail: two workers that hold it
  over living connections are the same; the monitor's next check reports the loss exactly when the lock is no longer
  the worker's own; releasing never takes the lock from another worker, and no connection left in the pool owns the
  lock; a lock nobody owns is acquired, and one that another connection owns is not.
\<close>

theorem lock_exclusive:
  "lock_reachable y \<longrightarrow>
     (\<forall>p q c d. ly_holder y p = Holding c \<and> ly_holder y q = Holding d
        \<and> c \<in> set (ls_alive (ly_server y)) \<and> d \<in> set (ls_alive (ly_server y)) \<longrightarrow> p = q)
     \<and> (\<forall>p c. ly_holder y p = Holding c \<longrightarrow> (monitor_lost c (ly_server y) \<longleftrightarrow> ls_owner (ly_server y) \<noteq> Some c))
     \<and> (\<forall>p q c d answered. holder_connection (ly_holder y p) = Some c \<and> holder_connection (ly_holder y q) = Some d \<and> p \<noteq> q
          \<and> ls_owner (ly_server y) = Some d \<longrightarrow> ls_owner (release_held answered c (ly_server y)) = Some d)
     \<and> (\<forall>c \<in> set (ls_idle (ly_server y)). ls_owner (ly_server y) \<noteq> Some c)
     \<and> (\<forall>reuse. fst (fst (acquire_lock True reuse Answered (ly_server y)))
           = (if ls_owner (ly_server y) = None then LockHeld else LockBusy))"
proof
  assume "lock_reachable y"
  then have ok: "pool_ok (ly_server y)" "held_ok (ly_server y) (\<lambda>p. holder_connection (ly_holder y p))"
    using lock_reachable_ok by (simp_all add: lock_ok_def)
  have owner: "ls_owner (ly_server y) = Some c" if "ly_holder y p = Holding c" "c \<in> set (ls_alive (ly_server y))" for p c
    using ok(2) that unfolding held_ok_def by (metis holder_connection.simps(2))
  have unique: "p = q" if "holder_connection (ly_holder y p) = Some c" "holder_connection (ly_holder y q) = Some c" for p q c
    using ok(2) that unfolding held_ok_def by blast
  have alive: "c \<in> set (ls_alive (ly_server y))" if "ls_owner (ly_server y) = Some c" for c
    using ok(1) that unfolding pool_ok_def by blast
  have "p = q" if "ly_holder y p = Holding c" "ly_holder y q = Holding d" "c \<in> set (ls_alive (ly_server y))" "d \<in> set (ls_alive (ly_server y))"
    for p q c d
  proof -
    have "c = d" using owner that by (metis option.inject)
    then show ?thesis using unique [of p c q] that by simp
  qed
  moreover have "monitor_lost c (ly_server y) \<longleftrightarrow> ls_owner (ly_server y) \<noteq> Some c" if "ly_holder y p = Holding c" for p c
    using alive owner [OF that] by (auto simp: monitor_lost_def split: option.split)
  moreover have "ls_owner (release_held answered c (ly_server y)) = Some d"
    if "holder_connection (ly_holder y p) = Some c" "holder_connection (ly_holder y q) = Some d" "p \<noteq> q" "ls_owner (ly_server y) = Some d"
    for p q c d answered
  proof -
    have "c \<noteq> d" using unique that by blast
    then show ?thesis using that(4) by (simp add: release_held_def release_lock_def)
  qed
  moreover have "ls_owner (ly_server y) \<noteq> Some c" if "c \<in> set (ls_idle (ly_server y))" for c
    using ok(1) that unfolding pool_ok_def by blast
  moreover have "fst (fst (acquire_lock True reuse Answered (ly_server y))) = (if ls_owner (ly_server y) = None then LockHeld else LockBusy)" for reuse
  proof -
    obtain c u where u: "take_connection reuse (ly_server y) = (c, u)" by (cases "take_connection reuse (ly_server y)")
    then show ?thesis using take_connection_ok(3,6) [OF u ok(1)] by (simp add: acquire_lock_def get_lock_def)
  qed
  ultimately show "(\<forall>p q c d. ly_holder y p = Holding c \<and> ly_holder y q = Holding d
        \<and> c \<in> set (ls_alive (ly_server y)) \<and> d \<in> set (ls_alive (ly_server y)) \<longrightarrow> p = q)
     \<and> (\<forall>p c. ly_holder y p = Holding c \<longrightarrow> (monitor_lost c (ly_server y) \<longleftrightarrow> ls_owner (ly_server y) \<noteq> Some c))
     \<and> (\<forall>p q c d answered. holder_connection (ly_holder y p) = Some c \<and> holder_connection (ly_holder y q) = Some d \<and> p \<noteq> q
          \<and> ls_owner (ly_server y) = Some d \<longrightarrow> ls_owner (release_held answered c (ly_server y)) = Some d)
     \<and> (\<forall>c \<in> set (ls_idle (ly_server y)). ls_owner (ly_server y) \<noteq> Some c)
     \<and> (\<forall>reuse. fst (fst (acquire_lock True reuse Answered (ly_server y)))
           = (if ls_owner (ly_server y) = None then LockHeld else LockBusy))" by blast
qed

text \<open>Two workers: the first gets the lock, the second does not, then the first one's connection dies and the second acquires.\<close>

definition lock_one :: lock_system where
  "lock_one = with_holder 1 (Holding 0) (snd (acquire_lock True False Answered (ly_server lock_start))) lock_start"

definition lock_two :: lock_system where
  "lock_two = lock_one\<lparr>ly_server := disconnect 0 (ly_server lock_one)\<rparr>"

definition lock_three :: lock_system where
  "lock_three = with_holder 2 (Holding 1) (snd (acquire_lock True False Answered (ly_server lock_two))) lock_two"

lemma lock_three_reachable: "lock_reachable lock_three"
proof -
  have "lock_step lock_start lock_one"
    using lock_step.acquire [of lock_start 1 True False Answered LockHeld "Some 0" "snd (acquire_lock True False Answered (ly_server lock_start))"]
    by (simp add: lock_one_def lock_start_def acquire_lock_def take_connection_def new_connection_def get_lock_def)
  moreover have "lock_step lock_one lock_two" unfolding lock_two_def by (rule lock_step.die)
  moreover have "lock_step lock_two lock_three"
    using lock_step.acquire [of lock_two 2 True False Answered LockHeld "Some 1" "snd (acquire_lock True False Answered (ly_server lock_two))"]
    by (simp add: lock_three_def lock_two_def lock_one_def lock_start_def with_holder_def acquire_lock_def take_connection_def new_connection_def
        get_lock_def disconnect_def)
  ultimately show ?thesis using lock_reachable.init lock_reachable.step by blast
qed

theorem lock_exclusive_witness:
  "lock_reachable lock_three \<and> ly_holder lock_three 1 = Holding 0 \<and> ly_holder lock_three 2 = Holding 1
     \<and> monitor_lost 0 (ly_server lock_three) \<and> \<not> monitor_lost 1 (ly_server lock_three)
     \<and> ls_owner (release_held True 0 (ly_server lock_three)) = Some 1
     \<and> fst (fst (acquire_lock True True Answered (ly_server lock_three))) = LockBusy"
proof -
  have h: "ly_holder lock_three 1 = Holding 0" "ly_holder lock_three 2 = Holding 1" "ls_owner (ly_server lock_three) = Some 1"
    by (simp_all add: lock_three_def lock_two_def lock_one_def lock_start_def with_holder_def acquire_lock_def take_connection_def
        new_connection_def get_lock_def disconnect_def)
  note facts = lock_exclusive [of lock_three, THEN mp, OF lock_three_reachable]
  have "monitor_lost 0 (ly_server lock_three)" "\<not> monitor_lost 1 (ly_server lock_three)"
    using facts [THEN conjunct2, THEN conjunct1] h by auto
  moreover have "ls_owner (release_held True 0 (ly_server lock_three)) = Some 1"
    using facts [THEN conjunct2, THEN conjunct2, THEN conjunct1, rule_format, of 1 0 2 1 True] h by simp
  moreover have "fst (fst (acquire_lock True True Answered (ly_server lock_three))) = LockBusy"
    using facts h(3) by simp
  ultimately show ?thesis using h lock_three_reachable by simp
qed

end
