(* ===== verification/Slik_Control.thy ===== *)
theory Slik_Control
  imports Slik_Run
begin

text \<open>
  The parts of \<open>src/internal/slik/manager.go\<close> around a run: the loop of the manager with the lock and the clean-up, the
  registration of the active run, the cancellation of a job with its signal to that run, and the watcher that notices the
  cancellation of another process. The tables are those of \<open>Slik_Jobs\<close>, with all its transactions going on.
\<close>

section \<open>The active run of a process\<close>

text \<open>The registered job (\<open>activeID\<close> with \<open>activeCancel\<close>), whether the watcher has been started, and whether the context is done.\<close>

record run_control =
  rc_active :: "string option"
  rc_watching :: bool
  rc_done :: bool

definition no_run :: run_control where
  "no_run = \<lparr>rc_active = None, rc_watching = False, rc_done = False\<rparr>"

definition run_enter :: "string \<Rightarrow> run_control" where
  "run_enter job_id = \<lparr>rc_active = Some job_id, rc_watching = False, rc_done = False\<rparr>"

text \<open>The check before the workers start: an unanswered query, a canceled job or a lost lock ends the run.\<close>

definition run_check :: "bool \<Rightarrow> bool \<Rightarrow> slik_db \<Rightarrow> run_control \<Rightarrow> run_control" where
  "run_check answered lock_lost db c =
     (case rc_active c of
        None \<Rightarrow> c
      | Some job_id \<Rightarrow>
          if \<not> answered then no_run
          else if slik_is_canceled job_id db then no_run
          else if lock_lost then no_run
          else c\<lparr>rc_watching := True\<rparr>)"

text \<open>The watcher: a tick asks whether the job is canceled; a failed query is not taken for a cancellation.\<close>

definition watch_tick :: "bool \<Rightarrow> slik_db \<Rightarrow> run_control \<Rightarrow> run_control" where
  "watch_tick answered db c =
     (case rc_active c of
        None \<Rightarrow> c
      | Some job_id \<Rightarrow>
          if rc_watching c \<and> \<not> rc_done c \<and> answered \<and> slik_is_canceled job_id db then c\<lparr>rc_done := True\<rparr> else c)"

definition watch_lock_lost :: "run_control \<Rightarrow> run_control" where
  "watch_lock_lost c = (if rc_watching c then c\<lparr>rc_done := True\<rparr> else c)"

text \<open>The signal of a cancellation in the same process.\<close>

definition signal_run :: "string \<Rightarrow> run_control \<Rightarrow> run_control" where
  "signal_run job_id c = (if rc_active c = Some job_id then c\<lparr>rc_done := True\<rparr> else c)"

section \<open>Processes over the tables\<close>

record control =
  ct_jobs :: slik_system
  ct_run :: "nat \<Rightarrow> run_control"

definition control_start :: control where
  "control_start = \<lparr>ct_jobs = initial_system, ct_run = (\<lambda>_. no_run)\<rparr>"

definition set_run :: "nat \<Rightarrow> run_control \<Rightarrow> control \<Rightarrow> control" where
  "set_run p c y = y\<lparr>ct_run := (ct_run y)(p := c)\<rparr>"

text \<open>\<open>Cancel\<close> in process \<open>p\<close>: the transaction, and after its success the signal.\<close>

definition manager_cancel :: "bool \<Rightarrow> int \<Rightarrow> string \<Rightarrow> int \<Rightarrow> bool \<Rightarrow> nat \<Rightarrow> control \<Rightarrow> (slik_error + unit) \<times> control" where
  "manager_cancel answered now job_id owner view_all p y =
     (if \<not> answered then (Inl StorageError, y)
      else case slik_cancel now job_id owner view_all (sy_db (ct_jobs y)) of (result, db) \<Rightarrow>
        let y1 = y\<lparr>ct_jobs := set_db db (ct_jobs y)\<rparr> in
        (result, case result of Inl _ \<Rightarrow> y1 | Inr _ \<Rightarrow> set_run p (signal_run job_id (ct_run y1 p)) y1))"

text \<open>
  The steps: any step of the tables; a run begins, is checked, ends; its watcher ticks or sees the lock lost; its context ends
  for another reason (a failed account, the shutdown); a request cancels.
\<close>

inductive control_step :: "control \<Rightarrow> control \<Rightarrow> bool" where
  jobs: "slik_step (ct_jobs y) s \<Longrightarrow> control_step y (y\<lparr>ct_jobs := s\<rparr>)"
| enter: "rc_active (ct_run y p) = None \<Longrightarrow> control_step y (set_run p (run_enter job_id) y)"
| check: "\<not> rc_watching (ct_run y p) \<Longrightarrow>
    control_step y (set_run p (run_check answered lock_lost (sy_db (ct_jobs y)) (ct_run y p)) y)"
| tick: "control_step y (set_run p (watch_tick answered (sy_db (ct_jobs y)) (ct_run y p)) y)"
| lock_lost: "control_step y (set_run p (watch_lock_lost (ct_run y p)) y)"
| context_end: "rc_active (ct_run y p) \<noteq> None \<Longrightarrow> control_step y (set_run p ((ct_run y p)\<lparr>rc_done := True\<rparr>) y)"
| leave: "control_step y (set_run p no_run y)"
| cancel: "control_step y (snd (manager_cancel answered now job_id owner view_all p y))"

inductive control_reachable :: "control \<Rightarrow> bool" where
  init: "control_reachable control_start"
| step: "control_reachable y \<Longrightarrow> control_step y z \<Longrightarrow> control_reachable z"

inductive_cases control_stepE: "control_step y z"

section \<open>The loop\<close>

datatype loop_event = LockTaken | LockReleased | JobRun string | FilesCleaned

datatype loop_wait = RootDone | Woken | Ticked | CleanupDue

text \<open>
  What a round of the loop meets: the shutdown, the lock, the recovery, the effect of the run on the tables, what the select
  receives, and for a clean-up the answer about expired jobs and the files that can be removed.
\<close>

record loop_round =
  lo_root_done :: bool
  lo_acquired :: bool
  lo_recovered :: bool
  lo_now :: int
  lo_run :: "slik_job \<Rightarrow> slik_db \<Rightarrow> slik_db"
  lo_wait :: loop_wait
  lo_expired_ok :: bool
  lo_removable :: "string \<Rightarrow> bool"

definition manager_cleanup :: "(string \<Rightarrow> string) \<Rightarrow> loop_round \<Rightarrow> slik_db \<Rightarrow> slik_db" where
  "manager_cleanup uni r db =
     (if \<not> lo_expired_ok r then db
      else fold (\<lambda>job d. fst (cleanup_job uni (lo_removable r) (lo_now r) job d)) (slik_expired (lo_now r) db) db)"

definition round_events :: "bool \<Rightarrow> slik_job option \<Rightarrow> loop_event list" where
  "round_events acquired claimed =
     (if acquired then LockTaken # (case claimed of None \<Rightarrow> [] | Some job \<Rightarrow> [JobRun (jb_id job)]) @ [LockReleased] else [])"

fun manager_loop :: "(string \<Rightarrow> string) \<Rightarrow> loop_round list \<Rightarrow> slik_db \<Rightarrow> loop_event list \<times> slik_db" where
  "manager_loop uni [] db = ([], db)"
| "manager_loop uni (r # rounds) db =
     (if lo_root_done r then ([], db)
      else case manager_poll (lo_acquired r) (lo_recovered r) (lo_now r) db of (claimed, db1) \<Rightarrow>
        let db2 = (case claimed of None \<Rightarrow> db1 | Some job \<Rightarrow> lo_run r job db1);
            events = round_events (lo_acquired r) claimed
        in case lo_wait r of
             RootDone \<Rightarrow> (events, db2)
           | CleanupDue \<Rightarrow>
               (case manager_loop uni rounds (manager_cleanup uni r db2) of (rest, db3) \<Rightarrow> (events @ FilesCleaned # rest, db3))
           | _ \<Rightarrow> (case manager_loop uni rounds db2 of (rest, db3) \<Rightarrow> (events @ rest, db3)))"

text \<open>Locks are taken and released in turns, and jobs run and files are removed on the right side of them.\<close>

fun loop_locked :: "bool \<Rightarrow> loop_event list \<Rightarrow> bool" where
  "loop_locked held [] \<longleftrightarrow> \<not> held"
| "loop_locked held (LockTaken # es) \<longleftrightarrow> \<not> held \<and> loop_locked True es"
| "loop_locked held (LockReleased # es) \<longleftrightarrow> held \<and> loop_locked False es"
| "loop_locked held (JobRun j # es) \<longleftrightarrow> held \<and> loop_locked True es"
| "loop_locked held (FilesCleaned # es) \<longleftrightarrow> \<not> held \<and> loop_locked False es"

lemma round_events_locked [simp]:
  "loop_locked False (round_events acquired claimed @ es) \<longleftrightarrow> loop_locked False es"
  "loop_locked False (round_events acquired claimed)"
  by (simp_all add: round_events_def split: option.split)

lemma manager_loop_locked: "loop_locked False (fst (manager_loop uni rounds db))"
proof (induction rounds arbitrary: db)
  case (Cons r rounds)
  obtain claimed db1 where p: "manager_poll (lo_acquired r) (lo_recovered r) (lo_now r) db = (claimed, db1)"
    by (cases "manager_poll (lo_acquired r) (lo_recovered r) (lo_now r) db")
  show ?case by (cases "lo_wait r") (simp_all add: p Let_def case_prod_beta Cons.IH)
qed simp

section \<open>A cancellation reaches the run\<close>

lemma same_id:
  assumes "db_ok db" and "i \<in> set (tb_jobs db)" and "j \<in> set (tb_jobs db)" and "jb_id i = jb_id j"
  shows "i = j"
  using assms inj_onD [of jb_id "set (tb_jobs db)" i j] by (simp add: db_ok_def distinct_map)

lemma canceled_iff:
  assumes "db_ok db"
  shows "slik_is_canceled job_id db \<longleftrightarrow> (\<exists>j \<in> set (tb_jobs db). jb_id j = job_id \<and> jb_status j = CANCELED)"
proof (cases "find (\<lambda>j. jb_id j = job_id) (tb_jobs db)")
  case None
  then show ?thesis unfolding slik_is_canceled_def find_None_iff by (metis (no_types, lifting) None option.simps(4))
next
  case (Some j)
  then have j: "j \<in> set (tb_jobs db)" "jb_id j = job_id" by (auto simp: find_Some_iff)
  have "i = j" if "i \<in> set (tb_jobs db)" "jb_id i = job_id" for i
    using same_id [OF assms that(1) j(1)] that(2) j(2) by simp
  moreover have "slik_is_canceled job_id db \<longleftrightarrow> jb_status j = CANCELED" by (simp add: slik_is_canceled_def Some)
  ultimately show ?thesis using j by blast
qed

lemma canceled_step:
  assumes "slik_step s t" and "slik_reachable s" and "slik_is_canceled job_id (sy_db s)"
  shows "slik_is_canceled job_id (sy_db t)"
proof -
  have ok: "system_ok s" "db_ok (sy_db s)" using slik_reachable_ok [OF assms(2)] by (simp_all add: system_ok_def)
  have "db_ok (sy_db t)" using slik_step_ok [OF assms(1) ok(1)] by (simp add: system_ok_def)
  moreover obtain j where j: "j \<in> set (tb_jobs (sy_db s))" "jb_id j = job_id" "jb_status j = CANCELED"
    using assms(3) canceled_iff [OF ok(2)] by blast
  moreover have "outcome j \<in> outcome ` set (tb_jobs (sy_db t))"
    using step_outcome [OF assms(1) ok(1) j(1)] j(3) by (simp add: is_terminal_def)
  ultimately show ?thesis using canceled_iff by (auto simp: outcome_def)
qed

lemma set_run_jobs [simp]: "ct_jobs (set_run p c y) = ct_jobs y"
  by (simp add: set_run_def)

lemma manager_cancel_jobs:
  "ct_jobs (snd (manager_cancel answered now job_id owner view_all p y)) = ct_jobs y
   \<or> ct_jobs (snd (manager_cancel answered now job_id owner view_all p y))
      = set_db (cancel_update now job_id owner view_all (sy_db (ct_jobs y))) (ct_jobs y)"
  by (auto simp: manager_cancel_def slik_cancel_def Let_def split: sum.split)

lemma control_step_jobs:
  assumes "control_step y z"
  shows "ct_jobs z = ct_jobs y \<or> slik_step (ct_jobs y) (ct_jobs z)"
  using assms
proof cases
  case (cancel answered now job_id owner view_all p)
  then show ?thesis using manager_cancel_jobs slik_step.cancel by metis
qed auto

lemma control_reachable_jobs: "control_reachable y \<Longrightarrow> slik_reachable (ct_jobs y)"
proof (induction rule: control_reachable.induct)
  case init
  then show ?case by (simp add: control_start_def slik_reachable.init)
next
  case (step y z)
  then show ?case using control_step_jobs [OF step(2)] slik_reachable.step by metis
qed

lemma control_steps_canceled:
  assumes "control_step\<^sup>*\<^sup>* y z" and "control_reachable y" and "slik_is_canceled job_id (sy_db (ct_jobs y))"
  shows "control_reachable z \<and> slik_is_canceled job_id (sy_db (ct_jobs z))"
  using assms
proof (induction rule: rtranclp_induct)
  case (step u z)
  then show ?case
    using control_step_jobs [OF step(2)] canceled_step [OF _ control_reachable_jobs] control_reachable.step by metis
qed simp

lemma cancel_update_cancels:
  assumes "db_ok db" and "j \<in> set (tb_jobs db)" and "jb_id j = job_id" and "jb_status j \<in> {QUEUED, PROCESSING}"
    and "view_all \<or> jb_owner_id j = owner"
  shows "slik_is_canceled job_id (cancel_update now job_id owner view_all db)"
proof -
  have "db_ok (cancel_update now job_id owner view_all db)" using job_updates_ok(3) [OF assms(1)] .
  moreover have "j\<lparr>jb_status := CANCELED, jb_finished_at := Some now, jb_expires_at := Some (now + seven_days)\<rparr>
      \<in> set (tb_jobs (cancel_update now job_id owner view_all db))"
    unfolding cancel_update_def update_jobs_def using assms(2-5) by (simp add: image_iff) (rule disjI1, rule bexI [of _ j], simp_all)
  then have "\<exists>i \<in> set (tb_jobs (cancel_update now job_id owner view_all db)). jb_id i = job_id \<and> jb_status i = CANCELED"
    by (rule rev_bexI) (simp add: assms(3))
  ultimately show ?thesis by (simp add: canceled_iff)
qed

text \<open>
  C19. A cancellation reaches the run of the job in whatever process: after a successful cancellation of an unfinished job, a run of it in the
  process of the request has its context ended at once; and in every state that follows, whatever all processes do, the job stays
  canceled, the next answered check of the watcher ends the context of a run of it elsewhere, and a run of it that has not
  started its workers ends at its check. A refused cancellation signals no run.
\<close>

theorem cancellation_reaches_run:
  "control_reachable y \<and> manager_cancel answered now job_id owner view_all p y = (result, y') \<longrightarrow>
     (isl result \<longrightarrow> ct_run y' = ct_run y)
     \<and> (\<forall>j \<in> set (tb_jobs (sy_db (ct_jobs y))).
          result = Inr () \<and> jb_id j = job_id \<and> jb_status j \<in> {QUEUED, PROCESSING} \<longrightarrow>
          (rc_active (ct_run y' p) = Some job_id \<longrightarrow> rc_done (ct_run y' p))
          \<and> (\<forall>z. control_step\<^sup>*\<^sup>* y' z \<longrightarrow>
               slik_is_canceled job_id (sy_db (ct_jobs z))
               \<and> (\<forall>q. rc_active (ct_run z q) = Some job_id \<longrightarrow>
                    (rc_watching (ct_run z q) \<longrightarrow> rc_done (watch_tick True (sy_db (ct_jobs z)) (ct_run z q)))
                    \<and> run_check True lock_lost (sy_db (ct_jobs z)) (ct_run z q) = no_run)))"
proof
  assume a: "control_reachable y \<and> manager_cancel answered now job_id owner view_all p y = (result, y')"
  let ?db = "sy_db (ct_jobs y)"
  have refused: "isl result \<longrightarrow> ct_run y' = ct_run y"
    using a by (auto simp: manager_cancel_def Let_def split: if_split_asm prod.split_asm sum.split_asm)
  have ok: "db_ok ?db" using slik_reachable_ok control_reachable_jobs a by (auto simp: system_ok_def)
  have reach: "control_reachable y'"
    using a control_reachable.step control_step.cancel by (metis snd_conv)
  have "(rc_active (ct_run y' p) = Some job_id \<longrightarrow> rc_done (ct_run y' p)) \<and> slik_is_canceled job_id (sy_db (ct_jobs y'))"
    if j: "j \<in> set (tb_jobs ?db)" "result = Inr ()" "jb_id j = job_id" "jb_status j \<in> {QUEUED, PROCESSING}" for j
  proof -
    let ?db' = "cancel_update now job_id owner view_all ?db"
    have y': "y' = set_run p (signal_run job_id (ct_run y p)) (y\<lparr>ct_jobs := set_db ?db' (ct_jobs y)\<rparr>)"
      and seen: "\<exists>i. slik_get job_id owner view_all ?db' = Inr i"
      using a j(2) by (auto simp: manager_cancel_def slik_cancel_def Let_def rbind_def split: if_split_asm sum.split_asm)
    obtain i where i: "i \<in> set (tb_jobs ?db')" "jb_id i = job_id" "view_all \<or> jb_owner_id i = owner"
      proof -
      obtain i where "find (\<lambda>j. jb_id j = job_id \<and> (view_all \<or> jb_owner_id j = owner)) (tb_jobs ?db') = Some i"
        using seen by (auto simp: slik_get_def split: option.split_asm)
      then show thesis using that [of i] by (metis (mono_tags, lifting) find_Some_iff nth_mem)
    qed
    obtain j2 where j2: "j2 \<in> set (tb_jobs ?db)" "jb_id j2 = job_id" "jb_owner_id j2 = jb_owner_id i"
    proof -
      have "i \<in> (\<lambda>j. if jb_id j = job_id \<and> jb_status j \<in> {QUEUED, PROCESSING} \<and> (view_all \<or> jb_owner_id j = owner)
          then j\<lparr>jb_status := CANCELED, jb_finished_at := Some now, jb_expires_at := Some (now + seven_days)\<rparr> else j) ` set (tb_jobs ?db)"
        using i(1) by (simp add: cancel_update_def update_jobs_def)
      then obtain j2 where "j2 \<in> set (tb_jobs ?db)" "jb_id i = jb_id j2" "jb_owner_id i = jb_owner_id j2"
        by (auto split: if_split_asm)
      then show thesis using that [of j2] i(2) by simp
    qed
    have "j2 = j" using same_id [OF ok j2(1) j(1)] j(3) j2(2) by simp
    then have "slik_is_canceled job_id ?db'"
      using cancel_update_cancels [OF ok j(1,3,4)] i(3) j2(3) by simp
    then show ?thesis by (simp add: y' set_run_def signal_run_def set_db_def)
  qed
  moreover have "rc_watching (ct_run z q) \<longrightarrow> rc_done (watch_tick True (sy_db (ct_jobs z)) (ct_run z q))"
    "run_check True lock_lost (sy_db (ct_jobs z)) (ct_run z q) = no_run"
    if "slik_is_canceled job_id (sy_db (ct_jobs z))" "rc_active (ct_run z q) = Some job_id" for z q
    using that by (auto simp: watch_tick_def run_check_def)
  ultimately show "(isl result \<longrightarrow> ct_run y' = ct_run y)
     \<and> (\<forall>j \<in> set (tb_jobs ?db).
          result = Inr () \<and> jb_id j = job_id \<and> jb_status j \<in> {QUEUED, PROCESSING} \<longrightarrow>
          (rc_active (ct_run y' p) = Some job_id \<longrightarrow> rc_done (ct_run y' p))
          \<and> (\<forall>z. control_step\<^sup>*\<^sup>* y' z \<longrightarrow>
               slik_is_canceled job_id (sy_db (ct_jobs z))
               \<and> (\<forall>q. rc_active (ct_run z q) = Some job_id \<longrightarrow>
                    (rc_watching (ct_run z q) \<longrightarrow> rc_done (watch_tick True (sy_db (ct_jobs z)) (ct_run z q)))
                    \<and> run_check True lock_lost (sy_db (ct_jobs z)) (ct_run z q) = no_run)))"
    using refused control_steps_canceled [OF _ reach] by blast
qed

text \<open>A job runs in process 1, with its watcher; its owner cancels it in process 2.\<close>

definition sample_control :: control where
  "sample_control = set_run 1 (run_check True False sample_claimed (run_enter sample_token))
     (set_run 1 (run_enter sample_token)
       (control_start\<lparr>ct_jobs := set_worker 0 (Running sample_token) (set_db sample_claimed initial_system)\<rparr>))"

lemma sample_control_jobs: "slik_reachable (set_worker 0 (Running sample_token) (set_db sample_claimed initial_system))"
proof -
  define s1 where "s1 = set_db sample_queued initial_system"
  have r1: "slik_reachable s1"
    using slik_reachable.init slik_step.submit [of 5 100 sample_token sample_attribution "''june.xlsx''" "''2025-06-30''" 10
        "[''7'', ''7'']" initial_system "hd (tb_jobs sample_queued)" sample_queued] sample_facts(1)
    by (auto simp: s1_def sample_submission_def intro: slik_reachable.step)
  define s2 where "s2 = set_worker 0 (Claiming sample_token) s1"
  have r2: "slik_reachable s2"
    using slik_reachable.step [OF r1 slik_step.select [of s1 0 sample_token]] sample_facts(2)
    by (simp add: s2_def s1_def set_db_def initial_system_def)
  have "slik_reachable (set_worker 0 (Running sample_token) (set_db sample_claimed s2))"
    using slik_reachable.step [OF r2 slik_step.claim [of s2 0 sample_token 6 sample_claimed 1]] sample_facts(3)
    by (simp add: s2_def s1_def set_db_def set_worker_def)
  then show ?thesis by (simp add: s2_def s1_def set_db_def set_worker_def)
qed

lemma sample_control_reachable: "control_reachable sample_control"
proof -
  have lift: "control_reachable (control_start\<lparr>ct_jobs := s\<rparr>)" if "slik_reachable s" for s
    using that
  proof (induction rule: slik_reachable.induct)
    case init
    then show ?case using control_reachable.init by (simp add: control_start_def)
  next
    case (step s t)
    then show ?case using control_reachable.step [OF step.IH control_step.jobs [of "control_start\<lparr>ct_jobs := s\<rparr>" t]] by simp
  qed
  let ?y0 = "control_start\<lparr>ct_jobs := set_worker 0 (Running sample_token) (set_db sample_claimed initial_system)\<rparr>"
  let ?y1 = "set_run 1 (run_enter sample_token) ?y0"
  have "control_step ?y0 ?y1"
    by (rule control_step.enter) (simp add: control_start_def no_run_def)
  moreover have "control_step ?y1 sample_control"
    using control_step.check [of ?y1 1 True False] by (simp add: sample_control_def set_run_def run_enter_def set_db_def set_worker_def)
  ultimately show ?thesis using lift [OF sample_control_jobs] control_reachable.step by blast
qed

lemma sample_cancel:
  "fst (slik_cancel 9 sample_token 1 False sample_claimed) = Inr ()"
  "map (\<lambda>j. (jb_id j, jb_status j)) (tb_jobs sample_claimed) = [(sample_token, PROCESSING)]"
  "slik_is_canceled sample_token sample_claimed = False"
  by code_simp+

theorem cancellation_reaches_run_witness:
  "control_reachable sample_control \<and> rc_active (ct_run sample_control 1) = Some sample_token
     \<and> fst (manager_cancel True 9 sample_token 1 False 2 sample_control) = Inr ()
     \<and> \<not> rc_done (ct_run (snd (manager_cancel True 9 sample_token 1 False 2 sample_control)) 1)
     \<and> rc_done (watch_tick True (sy_db (ct_jobs (snd (manager_cancel True 9 sample_token 1 False 2 sample_control))))
          (ct_run (snd (manager_cancel True 9 sample_token 1 False 2 sample_control)) 1))"
proof -
  let ?m = "manager_cancel True 9 sample_token 1 False 2 sample_control"
  have run: "ct_run sample_control 1 = \<lparr>rc_active = Some sample_token, rc_watching = True, rc_done = False\<rparr>"
    by (simp add: sample_control_def set_run_def run_check_def run_enter_def sample_cancel(3))
  have db: "sy_db (ct_jobs sample_control) = sample_claimed" by (simp add: sample_control_def set_worker_def set_db_def control_start_def)
  have done_ok: "fst ?m = Inr ()"
    using sample_cancel(1) by (cases "slik_cancel 9 sample_token 1 False sample_claimed") (simp add: manager_cancel_def db Let_def)
  have keeps: "ct_run (snd ?m) 1 = ct_run sample_control 1"
    by (simp add: manager_cancel_def set_run_def Let_def split: prod.split sum.split)
  obtain j where j: "j \<in> set (tb_jobs sample_claimed)" "jb_id j = sample_token" "jb_status j = PROCESSING"
    using sample_cancel(2) by (cases "tb_jobs sample_claimed") auto
  have "control_reachable sample_control \<and> ?m = (fst ?m, snd ?m)" using sample_control_reachable by simp
  note facts = cancellation_reaches_run [of sample_control True 9 sample_token 1 False 2 "fst ?m" "snd ?m" False, THEN mp, OF this]
  have "rc_done (watch_tick True (sy_db (ct_jobs (snd ?m))) (ct_run (snd ?m) 1))"
    using facts [THEN conjunct2, rule_format, of j] j done_ok db run keeps by (metis insertI1 insertI2 rtranclp.rtrancl_refl run_control.select_convs(1,2))
  then show ?thesis using sample_control_reachable run keeps done_ok by simp
qed

end
