(* ===== verification/Logging.thy ===== *)
theory Logging
  imports Go_Text
begin

text \<open>
  \<open>src/internal/logging/logging.go\<close>: what a log record says of an error, a panic and a route. Error messages may quote statements,
  bound values and payloads, so only types and codes are to appear.
\<close>

section \<open>Errors\<close>

text \<open>
  An error value as the standard library sees it: its dynamic type as \<open>%T\<close> prints it, its message, whether its own \<open>Is\<close> or identity
  matches \<open>context.Canceled\<close> and \<open>context.DeadlineExceeded\<close>, number and state if it is a \<open>*mysql.MySQLError\<close>, and
  what it wraps: one error (\<open>Unwrap() error\<close>), several (\<open>Unwrap() []error\<close>) or none.
\<close>

record error_node =
  en_type :: string
  en_text :: string
  en_canceled :: bool
  en_deadline :: bool
  en_mysql :: "(int \<times> string) option"

datatype go_error =
    Leaf error_node
  | Wraps error_node go_error
  | Joins error_node "go_error list"

fun error_head :: "go_error \<Rightarrow> error_node" where
  "error_head (Leaf n) = n"
| "error_head (Wraps n _) = n"
| "error_head (Joins n _) = n"

fun error_unwrap :: "go_error \<Rightarrow> go_error option" where
  "error_unwrap (Wraps _ e) = Some e"
| "error_unwrap _ = None"

text \<open>The nodes in the order in which \<open>errors.Is\<close> and \<open>errors.As\<close> visit them.\<close>

fun error_nodes :: "go_error \<Rightarrow> error_node list" where
  "error_nodes (Leaf n) = [n]"
| "error_nodes (Wraps n e) = n # error_nodes e"
| "error_nodes (Joins n es) = n # concat (map error_nodes es)"

section \<open>The attributes\<close>

text \<open>\<open>errorType\<close>: the first error of the chain that is not a plain \<open>fmt\<close> wrapper.\<close>

definition fmt_wrapper :: string where
  "fmt_wrapper = ''*fmt.wrapError''"

fun error_type :: "go_error \<Rightarrow> string" where
  "error_type (Wraps n e) = (if en_type n \<noteq> fmt_wrapper then en_type n else error_type e)"
| "error_type (Leaf n) = en_type n"
| "error_type (Joins n es) = en_type n"

definition error_attrs :: "go_error option \<Rightarrow> (string \<times> string) list" where
  "error_attrs err =
     (case err of
        None \<Rightarrow> []
      | Some e \<Rightarrow>
          if list_ex en_canceled (error_nodes e) then [(''error_type'', error_type e), (''error_kind'', ''cancelled'')]
          else if list_ex en_deadline (error_nodes e) then [(''error_type'', error_type e), (''error_kind'', ''deadline_exceeded'')]
          else (case List.map_filter en_mysql (error_nodes e) of
              (number, state) # _ \<Rightarrow>
                [(''error_type'', ''*mysql.MySQLError''), (''mysql_error'', itoa number), (''sqlstate'', state)]
            | [] \<Rightarrow> [(''error_type'', error_type e)]))"

text \<open>\<open>Panic\<close>: the type of the recovered value, given as type and text.\<close>

definition panic_attrs :: "string \<times> string \<Rightarrow> (string \<times> string) list" where
  "panic_attrs recovered = [(''panic_type'', fst recovered)]"

text \<open>\<open>Route\<close>: the pattern of the router, when there is a route context and it has one.\<close>

definition log_route :: "string option \<Rightarrow> string" where
  "log_route pattern = (case pattern of None \<Rightarrow> ''unmatched'' | Some p \<Rightarrow> if p \<noteq> '''' then p else ''unmatched'')"

text \<open>\<open>New\<close>: format and least level of the process logger.\<close>

datatype log_format = JsonRecords | TextRecords
datatype log_level = LevelDebug | LevelInfo

definition new_logger :: "string \<Rightarrow> string \<Rightarrow> log_format \<times> log_level \<times> (string \<times> string) list" where
  "new_logger service environment =
     (if environment = ''development'' then (TextRecords, LevelDebug, [(''service'', service), (''environment'', environment)])
      else (JsonRecords, LevelInfo, [(''service'', service), (''environment'', environment)]))"

section \<open>Messages stay out\<close>

text \<open>All messages of an error replaced.\<close>

fun rewrite_texts :: "(error_node \<Rightarrow> string) \<Rightarrow> go_error \<Rightarrow> go_error" where
  "rewrite_texts f (Leaf n) = Leaf (n\<lparr>en_text := f n\<rparr>)"
| "rewrite_texts f (Wraps n e) = Wraps (n\<lparr>en_text := f n\<rparr>) (rewrite_texts f e)"
| "rewrite_texts f (Joins n es) = Joins (n\<lparr>en_text := f n\<rparr>) (map (rewrite_texts f) es)"

lemma error_nodes_rewrite: "error_nodes (rewrite_texts f e) = map (\<lambda>n. n\<lparr>en_text := f n\<rparr>) (error_nodes e)"
proof (induction e)
  case (Joins n es)
  then show ?case by (auto simp: map_concat intro!: arg_cong [of _ _ concat])
qed auto

lemma error_type_rewrite: "error_type (rewrite_texts f e) = error_type e"
  by (induction e rule: error_type.induct) auto

lemma error_type_member: "error_type e \<in> en_type ` set (error_nodes e)"
  by (induction e rule: error_type.induct) auto

text \<open>
  C34. A log record carries no error message: whatever the messages along the chain of an error are, the attributes are the same; every
  value is the type of an error of the chain, one of two fixed words, or number or state of the first MySQL error; a cancellation
  and a missed deadline are recognised anywhere in the chain; and chains of plain \<open>fmt\<close> wrappers report the error they wrap.
\<close>

theorem log_hides_messages:
  "error_attrs (Some (rewrite_texts f e)) = error_attrs (Some e)
   \<and> snd ` set (error_attrs (Some e)) \<subseteq>
       en_type ` set (error_nodes e) \<union> {''cancelled'', ''deadline_exceeded'', ''*mysql.MySQLError''}
       \<union> (\<Union>(number, state) \<in> set (List.map_filter en_mysql (error_nodes e)). {itoa number, state})
   \<and> ((''error_kind'', ''cancelled'') \<in> set (error_attrs (Some e)) \<longleftrightarrow> list_ex en_canceled (error_nodes e))
   \<and> ((''error_kind'', ''deadline_exceeded'') \<in> set (error_attrs (Some e))
        \<longleftrightarrow> list_ex en_deadline (error_nodes e) \<and> \<not> list_ex en_canceled (error_nodes e))
   \<and> error_attrs (Some (Wraps \<lparr>en_type = fmt_wrapper, en_text = t, en_canceled = False, en_deadline = False, en_mysql = None\<rparr> e))
       = error_attrs (Some e)"
proof -
  let ?f = "\<lambda>n. n\<lparr>en_text := f n\<rparr>"
  have any: "list_ex en_canceled (map ?f ns) = list_ex en_canceled ns" "list_ex en_deadline (map ?f ns) = list_ex en_deadline ns"
    "List.map_filter en_mysql (map ?f ns) = List.map_filter en_mysql ns" for ns
    by (induction ns) (auto simp: List.map_filter_def)
  have "error_attrs (Some (rewrite_texts f e)) = error_attrs (Some e)"
    by (simp add: error_attrs_def error_nodes_rewrite error_type_rewrite any split: list.split)
  moreover have "snd ` set (error_attrs (Some e)) \<subseteq>
       en_type ` set (error_nodes e) \<union> {''cancelled'', ''deadline_exceeded'', ''*mysql.MySQLError''}
       \<union> (\<Union>(number, state) \<in> set (List.map_filter en_mysql (error_nodes e)). {itoa number, state})"
    using error_type_member [of e] by (auto simp: error_attrs_def split: list.split prod.split)
  moreover have "(''error_kind'', ''cancelled'') \<in> set (error_attrs (Some e)) \<longleftrightarrow> list_ex en_canceled (error_nodes e)"
    "(''error_kind'', ''deadline_exceeded'') \<in> set (error_attrs (Some e))
        \<longleftrightarrow> list_ex en_deadline (error_nodes e) \<and> \<not> list_ex en_canceled (error_nodes e)"
    by (auto simp: error_attrs_def split: list.split)
  moreover have "error_attrs (Some (Wraps \<lparr>en_type = fmt_wrapper, en_text = t, en_canceled = False, en_deadline = False, en_mysql = None\<rparr> e))
       = error_attrs (Some e)"
    by (simp add: error_attrs_def List.map_filter_def split: list.split)
  ultimately show ?thesis by blast
qed

end
