(* ===== verification/Web_Forms.thy ===== *)
theory Web_Forms
  imports Loan_Pages
begin

text \<open>
  \<open>url.Values.Encode\<close> for one value per key, as the program uses it for query texts and form bodies, and what the receiver reads
  back with \<open>ParseQuery\<close> (\<open>parse_query\<close> of \<open>Loan_Pages\<close>).
\<close>

definition form_pair :: "string \<times> string \<Rightarrow> string" where
  "form_pair p = query_escape (fst p) @ ''='' @ query_escape (snd p)"

definition form_encode :: "(string \<times> string) list \<Rightarrow> string" where
  "form_encode fs = join ''&'' (map form_pair (sort_key fst fs))"

lemma query_pair_form: "query_pair (form_pair p) = [p]"
proof -
  have "cut_byte (CHR ''='') (form_pair p) = (query_escape (fst p), query_escape (snd p), True)"
    using cut_byte_found [OF escape_separators(2) [of "fst p"], of "query_escape (snd p)"] by (simp add: form_pair_def)
  moreover have "CHR '';'' \<notin> set (form_pair p)" using escape_separators(3) by (auto simp: form_pair_def)
  moreover have "form_pair p \<noteq> ''''" by (simp add: form_pair_def)
  ultimately show ?thesis by (simp add: query_pair_def query_round_trip)
qed

text \<open>What is encoded is read back, sorted by key, whatever bytes keys and values have.\<close>

lemma form_round_trip: "parse_query (form_encode fs) = sort_key fst fs"
proof (cases "fs = []")
  case True
  then show ?thesis by (simp add: parse_query_def form_encode_def query_pair_def)
next
  case False
  let ?ps = "sort_key fst fs"
  have "?ps \<noteq> []" using False by (metis length_0_conv length_sort)
  moreover have "\<forall>x \<in> set (map form_pair ?ps). CHR ''&'' \<notin> set x"
    using escape_separators(1) by (auto simp: form_pair_def)
  ultimately have "split_byte (CHR ''&'') (form_encode fs) = map form_pair ?ps"
    by (simp add: form_encode_def split_join)
  moreover have "concat (map (query_pair \<circ> form_pair) ps) = ps" for ps by (induction ps) (simp_all add: query_pair_form)
  ultimately show ?thesis by (simp add: parse_query_def)
qed

text \<open>\<open>Values.Get\<close>: the first value of a key.\<close>

definition query_get :: "string \<Rightarrow> (string \<times> string) list \<Rightarrow> string" where
  "query_get key q = (case query_values key q of [] \<Rightarrow> '''' | v # _ \<Rightarrow> v)"

end
