(* ===== verification/Fincloud_Requests.thy ===== *)
theory Fincloud_Requests
  imports Web_Forms
begin

text \<open>
  The requests to the core-banking system as they go over the wire: \<open>newRequest\<close>, \<open>login\<close>, \<open>logout\<close> and the builders of
  \<open>src/internal/fincloud/client.go\<close> and \<open>loan.go\<close>, and \<open>request\<close>, \<open>Labels\<close>, \<open>Authenticate\<close> and \<open>logout\<close> of \<open>authenticator.go\<close>. The
  path is relative to the base address; JSON encoding and decoding are parameters.
\<close>

section \<open>Messages\<close>

record wire_message =
  wm_method :: string
  wm_path :: string
  wm_query :: string
  wm_body :: string
  wm_headers :: "(string \<times> string) list"

definition user_agent :: string where
  "user_agent = ''THOR-Rate-Sync/1''"

definition new_request :: "string \<Rightarrow> string \<Rightarrow> (string \<times> string) list \<Rightarrow> string \<Rightarrow> wire_message" where
  "new_request method path query body =
     \<lparr>wm_method = method, wm_path = path, wm_query = form_encode query, wm_body = body,
      wm_headers = [(''Accept'', ''application/json, text/csv, text/plain''), (''User-Agent'', user_agent)]\<rparr>"

definition with_header :: "string \<Rightarrow> string \<Rightarrow> wire_message \<Rightarrow> wire_message" where
  "with_header key v m = m\<lparr>wm_headers := wm_headers m @ [(key, v)]\<rparr>"

definition form_type :: string where
  "form_type = ''application/x-www-form-urlencoded''"

section \<open>The client\<close>

text \<open>The credentials \<open>NewClient\<close> stores; the password is kept as it is.\<close>

record credentials =
  cr_username :: string
  cr_password :: string
  cr_location_id :: string
  cr_role_id :: string

definition stored_credentials :: "string \<Rightarrow> string \<Rightarrow> string \<Rightarrow> string \<Rightarrow> credentials" where
  "stored_credentials username password location_id role_id =
     \<lparr>cr_username = trim_space username, cr_password = password, cr_location_id = trim_space location_id, cr_role_id = trim_space role_id\<rparr>"

definition login_fields :: "credentials \<Rightarrow> (string \<times> string) list" where
  "login_fields c =
     [(''locationid'', cr_location_id c), (''roleid'', cr_role_id c), (''username'', cr_username c), (''pwd'', cr_password c)]"

definition client_login_request :: "credentials \<Rightarrow> wire_message" where
  "client_login_request c =
     with_header ''Content-Type'' form_type (new_request ''POST'' ''/admin/access/login'' [] (form_encode (login_fields c)))"

definition client_logout_request :: "string \<Rightarrow> wire_message" where
  "client_logout_request session = with_header ''sessionid'' session (new_request ''POST'' ''/admin/access/logout'' [] '''')"

text \<open>The five data requests: path and query, with the session the maintenance download repeats in its query.\<close>

fun request_path :: "fin_request \<Rightarrow> string" where
  "request_path (LoanInquiry _) = ''/pinjaman/inquiry/rekening/pinjaman''"
| "request_path (AlternateSearch _) = ''/pinjaman/inquiry/rekening/cari''"
| "request_path (CifInquiry _) = ''/cif/inquiry/cif/cif''"
| "request_path (MaintenanceReport _ _) = ''/system/downloaderlaporan/download.php''"
| "request_path (NamedReport _ _) = ''/system/laporanUmum/data/lap''"

fun request_fields :: "(string list \<Rightarrow> string) \<Rightarrow> string \<Rightarrow> fin_request \<Rightarrow> (string \<times> string) list" where
  "request_fields js session (LoanInquiry account) = [(''id'', account)]"
| "request_fields js session (AlternateSearch alternate) = [(''cabang'', ''ALL''), (''noalt'', alternate), (''pagesize'', ''50'')]"
| "request_fields js session (CifInquiry cif) = [(''nocif'', cif)]"
| "request_fields js session (MaintenanceReport name path) = [(''file'', name), (''path'', path), (''sessionId'', session)]"
| "request_fields js session (NamedReport name params) = [(''nm'', name), (''type'', ''csv''), (''p'', js params)]"

definition wire_request :: "(string list \<Rightarrow> string) \<Rightarrow> string \<Rightarrow> fin_request \<Rightarrow> wire_message" where
  "wire_request js session req =
     with_header ''sessionid'' session (new_request ''GET'' (request_path req) (request_fields js session req) '''')"

section \<open>The browser authenticator\<close>

definition auth_request :: "string \<Rightarrow> string \<Rightarrow> string \<Rightarrow> wire_message" where
  "auth_request method path body =
     \<lparr>wm_method = method, wm_path = path, wm_query = '''', wm_body = body,
      wm_headers = [(''Accept'', ''application/json''), (''User-Agent'', user_agent)]\<rparr>"

definition auth_login_fields :: "string \<Rightarrow> string \<Rightarrow> string \<Rightarrow> string \<Rightarrow> (string \<times> string) list" where
  "auth_login_fields username password location_id role_id =
     [(''username'', trim_space username), (''pwd'', password), (''locationid'', trim_space location_id), (''roleid'', trim_space role_id)]"

definition auth_login_request :: "string \<Rightarrow> string \<Rightarrow> string \<Rightarrow> string \<Rightarrow> wire_message" where
  "auth_login_request username password location_id role_id =
     with_header ''Content-Type'' form_type
       (auth_request ''POST'' ''/admin/access/login'' (form_encode (auth_login_fields username password location_id role_id)))"

definition auth_logout_request :: "string \<Rightarrow> wire_message" where
  "auth_logout_request session = with_header ''sessionid'' session (auth_request ''POST'' ''/admin/access/logout'' '''')"

definition labels_request :: wire_message where
  "labels_request = auth_request ''GET'' ''/admin/access/listvalues'' ''''"

text \<open>\<open>Labels\<close> on the reply; the decoder gives the status and the two lists.\<close>

definition load_labels ::
  "(string \<Rightarrow> (string \<times> (string \<times> string) list \<times> (string \<times> string) list) option) \<Rightarrow> http_reply \<Rightarrow> auth_labels" where
  "load_labels decode reply =
     (case reply of
        TransportFailed e \<Rightarrow> None
      | Reply status raw _ \<Rightarrow>
          (case read_bounded raw default_json_limit of
             Inl e \<Rightarrow> None
           | Inr body \<Rightarrow>
               if status < 200 \<or> status \<ge> 300 then None
               else (case decode body of None \<Rightarrow> None
                     | Some (st, labels) \<Rightarrow> if st \<noteq> ''ok'' then None else Some labels)))"

text \<open>\<open>Authenticate\<close>: the messages it sends, with the network's answers, and its outcome.\<close>

definition authenticate_exchange ::
  "json_codec \<Rightarrow> (wire_message \<Rightarrow> http_reply) \<Rightarrow> string \<Rightarrow> string \<Rightarrow> string \<Rightarrow> string \<Rightarrow> auth_outcome \<times> wire_message list" where
  "authenticate_exchange js net username password location_id role_id =
     (let request = auth_login_request username password location_id role_id in
      case authenticate js (net request) of
        (result, None) \<Rightarrow> (result, [request])
      | (result, Some session) \<Rightarrow> (result, [request, auth_logout_request session]))"

section \<open>The wire format\<close>

lemma request_fields_sorted: "sort_key fst (request_fields js session req) =
   (case req of NamedReport name params \<Rightarrow> [(''nm'', name), (''p'', js params), (''type'', ''csv'')] | _ \<Rightarrow> request_fields js session req)"
proof (cases req)
  case (NamedReport name params)
  have "''nm'' \<le> ''type''" "\<not> ''type'' \<le> ''p''" "''nm'' \<le> ''p''" by code_simp+
  then show ?thesis by (simp add: NamedReport)
next
  case (AlternateSearch a)
  have "''cabang'' \<le> ''noalt''" "''noalt'' \<le> ''pagesize''" "''cabang'' \<le> ''pagesize''" by code_simp+
  then show ?thesis by (simp add: AlternateSearch)
next
  case (MaintenanceReport a b)
  have "''file'' \<le> ''path''" "''path'' \<le> ''sessionId''" "''file'' \<le> ''sessionId''" by code_simp+
  then show ?thesis by (simp add: MaintenanceReport)
qed simp_all

lemma login_fields_sorted:
  "sort_key fst (login_fields c) = [(''locationid'', cr_location_id c), (''pwd'', cr_password c), (''roleid'', cr_role_id c), (''username'', cr_username c)]"
  "sort_key fst (auth_login_fields u p l r) = [(''locationid'', trim_space l), (''pwd'', p), (''roleid'', trim_space r), (''username'', trim_space u)]"
proof -
  have "''locationid'' \<le> ''pwd''" "''pwd'' \<le> ''roleid''" "''roleid'' \<le> ''username''" "''locationid'' \<le> ''roleid''" "''locationid'' \<le> ''username''"
    "''pwd'' \<le> ''username''" "\<not> ''username'' \<le> ''pwd''" "\<not> ''roleid'' \<le> ''pwd''" "\<not> ''pwd'' \<le> ''locationid''" "\<not> ''username'' \<le> ''locationid''"
    "\<not> ''username'' \<le> ''roleid''" "\<not> ''roleid'' \<le> ''locationid''" by code_simp+
  then show "sort_key fst (login_fields c) = [(''locationid'', cr_location_id c), (''pwd'', cr_password c), (''roleid'', cr_role_id c), (''username'', cr_username c)]"
    and "sort_key fst (auth_login_fields u p l r) = [(''locationid'', trim_space l), (''pwd'', p), (''roleid'', trim_space r), (''username'', trim_space u)]"
    by (simp_all add: login_fields_def auth_login_fields_def)
qed


end
