(* ===== verification/Page_Shell.thy ===== *)
theory Page_Shell
  imports Web_App Web_Forms
begin

text \<open>
  What every page of the administration shows besides its content, \<open>PageData\<close> of \<open>src/internal/platform/adminshell/shell.go\<close>, and
  the page that lists the users, \<open>Index\<close> of \<open>src/internal/features/users/handler.go\<close>, with the links from page to page.
\<close>

section \<open>The shell\<close>

record 'a shell_page =
  sg_title :: string
  sg_app_name :: string
  sg_wide_logo :: bool
  sg_principal :: browser_principal
  sg_navigation :: "group_view list"
  sg_current_path :: string
  sg_notice :: "notice option"
  sg_content :: 'a

text \<open>The request: its principal, path and parsed query.\<close>

definition page_data ::
  "string \<Rightarrow> bool \<Rightarrow> nav_group list \<Rightarrow> browser_principal option \<Rightarrow> string \<Rightarrow> (string \<times> string) list \<Rightarrow> string \<Rightarrow> 'a \<Rightarrow> 'a shell_page option" where
  "page_data app_name wide_logo groups who path query title content =
     (case who of
        None \<Rightarrow> None
      | Some p \<Rightarrow>
          Some \<lparr>sg_title = title, sg_app_name = app_name, sg_wide_logo = wide_logo, sg_principal = p,
                sg_navigation = prepare groups path (principal_can p), sg_current_path = path,
                sg_notice = notice_from_id (query_get ''notice'' query), sg_content = content\<rparr>)"

section \<open>The list of users\<close>

record users_content =
  uc_rows :: "user_row list"
  uc_query :: string
  uc_pagination :: page_info
  uc_previous_url :: string
  uc_next_url :: string

definition users_page_url :: "string \<Rightarrow> int \<Rightarrow> string" where
  "users_page_url query page = page_url ''/access'' ''q'' query page"

definition users_content_of :: "(string \<Rightarrow> string \<Rightarrow> bool) \<Rightarrow> (string \<times> string) list \<Rightarrow> access_db \<Rightarrow> users_content" where
  "users_content_of same query db =
     (let page = users_list same (query_get ''q'' query) (query_page (query_get ''page'' query)) db in
      \<lparr>uc_rows = up_users page, uc_query = up_query page, uc_pagination = up_pagination page,
       uc_previous_url = users_page_url (up_query page) (pg_previous (up_pagination page)),
       uc_next_url = users_page_url (up_query page) (pg_next (up_pagination page))\<rparr>)"

text \<open>The table alone for HTMX, the whole page otherwise; \<open>ok\<close> is the outcome of the store.\<close>

datatype users_response = UsersFailed string | UsersRendered string "users_content shell_page"

definition users_index ::
  "bool \<Rightarrow> (string \<Rightarrow> string \<Rightarrow> bool) \<Rightarrow> string \<Rightarrow> bool \<Rightarrow> nav_group list \<Rightarrow> browser_principal option \<Rightarrow> bool \<Rightarrow> (string \<times> string) list
     \<Rightarrow> access_db \<Rightarrow> users_response" where
  "users_index ok same app_name wide_logo groups who htmx query db =
     (if \<not> ok then UsersFailed ''list access users''
      else case page_data app_name wide_logo groups who ''/access'' query ''Access Management'' (users_content_of same query db) of
        None \<Rightarrow> UsersFailed ''prepare access management''
      | Some page \<Rightarrow> if htmx then UsersRendered ''users-table'' page else UsersRendered ''admin'' page)"

section \<open>From page to page\<close>

lemma page_url_form:
  assumes "page \<noteq> 0"
  shows "users_page_url query page =
     ''/access?'' @ form_encode (if query = '''' then [(''page'', itoa page)] else [(''page'', itoa page), (''q'', query)])"
proof -
  have k: "query_escape ''page'' = ''page''" "query_escape ''q'' = ''q''" "\<not> ''q'' < ''page''" "''page'' \<le> ''q''" by code_simp+
  show ?thesis
    using assms k by (simp add: users_page_url_def page_url_def form_encode_def form_pair_def)
qed

lemma page_url_query:
  assumes "page \<noteq> 0"
  shows "parse_query (drop 8 (users_page_url query page)) = (if query = '''' then [(''page'', itoa page)] else [(''page'', itoa page), (''q'', query)])"
proof -
  have "''page'' \<le> ''q''" by code_simp
  then show ?thesis unfolding page_url_form [OF assms] by (simp add: form_round_trip)
qed

text \<open>A link shows the page it names, for the same search.\<close>

lemma page_url_content:
  assumes "1 \<le> page" and "in_int64 page" and "trim_space query = query"
  shows "users_content_of same (parse_query (drop 8 (users_page_url query page))) db =
     users_content_of same [(''q'', query), (''page'', itoa page)] db"
proof -
  let ?q = "parse_query (drop 8 (users_page_url query page))"
  have "query_get ''page'' ?q = itoa page" "query_get ''q'' ?q = query"
    using assms(1) by (simp_all add: page_url_query query_get_def query_values_def)
  then show ?thesis by (simp add: users_content_of_def query_get_def query_values_def)
qed

lemma users_list_parts:
  "up_query (users_list same raw page db) = trim_space raw"
  "up_pagination (users_list same raw page db) = new_page page user_page_size (count_users same (trim_space raw) db)"
  by (simp_all add: users_list_def Let_def)

lemma new_page_links:
  "pg_next (new_page i n t) = (if pg_page (new_page i n t) < pg_total_pages (new_page i n t) then pg_page (new_page i n t) + 1 else 0)"
  "pg_previous (new_page i n t) = (if 1 < pg_page (new_page i n t) then pg_page (new_page i n t) - 1 else 0)"
  by (simp_all add: new_page_def Let_def)

lemma new_page_exact: "1 \<le> i \<Longrightarrow> i \<le> pg_total_pages (new_page k n t) \<Longrightarrow> pg_page (new_page i n t) = i"
  by (auto simp: new_page_def Let_def max_def split: if_split_asm)

text \<open>Asking for the page that is shown gives the same page.\<close>

lemma users_list_clamped:
  "users_list same (trim_space raw) (pg_page (new_page page user_page_size (count_users same (trim_space raw) db))) db = users_list same raw page db"
proof -
  have "new_page (pg_page (new_page page n t)) n t = new_page page n t" for n t by (simp add: new_page_def Let_def)
  then show ?thesis by (simp add: users_list_def)
qed

text \<open>
  The list of users is walked by its links: the next link is empty exactly on the last page and the previous link
  exactly on the first; following the next link shows the following page of the same search, from which the previous link
  leads back to the page it was on, whatever the search text; and the page shown is always one that exists.
\<close>

theorem users_paging_links:
  assumes "in_int64 (pg_total_pages (uc_pagination (users_content_of same query db)))"
  shows "(let c = users_content_of same query db; p = uc_pagination c;
            follow = (\<lambda>link. users_content_of same (parse_query (drop 8 link)) db) in
     1 \<le> pg_page p \<and> pg_page p \<le> pg_total_pages p
     \<and> (uc_next_url c = '''' \<longleftrightarrow> pg_page p = pg_total_pages p) \<and> (uc_previous_url c = '''' \<longleftrightarrow> pg_page p = 1)
     \<and> (uc_next_url c \<noteq> '''' \<longrightarrow>
          pg_page (uc_pagination (follow (uc_next_url c))) = pg_page p + 1
          \<and> uc_query (follow (uc_next_url c)) = uc_query c
          \<and> follow (uc_previous_url (follow (uc_next_url c))) = c))"
proof -
  let ?c = "users_content_of same query db"
  let ?p = "uc_pagination ?c"
  let ?n = "count_users same (uc_query ?c) db"
  let ?follow = "\<lambda>link. users_content_of same (parse_query (drop 8 link)) db"
  have p: "?p = new_page (query_page (query_get ''page'' query)) user_page_size ?n" and q: "trim_space (uc_query ?c) = uc_query ?c"
    by (simp_all add: users_content_of_def users_list_def Let_def)
  have bounds: "1 \<le> pg_page ?p" "pg_page ?p \<le> pg_total_pages ?p"
    unfolding p by (auto simp: new_page_def Let_def)
  have links: "uc_next_url ?c = users_page_url (uc_query ?c) (if pg_page ?p < pg_total_pages ?p then pg_page ?p + 1 else 0)"
    "uc_previous_url ?c = users_page_url (uc_query ?c) (if 1 < pg_page ?p then pg_page ?p - 1 else 0)"
    unfolding p new_page_links [symmetric] by (simp_all add: users_content_of_def users_list_parts Let_def)
  have empty: "users_page_url t i = '''' \<longleftrightarrow> i = 0" for t i by (simp add: users_page_url_def page_url_def)
  have at: "users_content_of same [(''q'', uc_query ?c), (''page'', itoa i)] db =
      (let page = users_list same (uc_query ?c) i db in
       \<lparr>uc_rows = up_users page, uc_query = up_query page, uc_pagination = up_pagination page,
        uc_previous_url = users_page_url (up_query page) (pg_previous (up_pagination page)),
        uc_next_url = users_page_url (up_query page) (pg_next (up_pagination page))\<rparr>)"
    if "1 \<le> i" "in_int64 i" for i
    using that by (simp add: users_content_of_def query_get_def query_values_def query_page_def atoi_itoa)
  have same_page: "users_content_of same [(''q'', uc_query ?c), (''page'', itoa (pg_page ?p))] db = ?c"
    if "in_int64 (pg_page ?p)"
  proof -
    have "users_list same (uc_query ?c) (pg_page ?p) db = users_list same (query_get ''q'' query) (query_page (query_get ''page'' query)) db"
      using users_list_clamped [of same "query_get ''q'' query" "query_page (query_get ''page'' query)" db]
      by (simp add: users_content_of_def Let_def users_list_parts)
    then show ?thesis using at [OF bounds(1) that] by (simp add: users_content_of_def Let_def)
  qed
  have in64: "in_int64 i" if "1 \<le> i" "i \<le> pg_total_pages ?p" for i using assms that by (auto simp: in_int64_def)
  have "pg_page (uc_pagination (?follow (uc_next_url ?c))) = pg_page ?p + 1 \<and> uc_query (?follow (uc_next_url ?c)) = uc_query ?c
      \<and> ?follow (uc_previous_url (?follow (uc_next_url ?c))) = ?c" if more: "uc_next_url ?c \<noteq> ''''"
  proof -
    have less: "pg_page ?p < pg_total_pages ?p" using more links(1) empty by (auto split: if_split_asm)
    let ?i = "pg_page ?p + 1"
    have i: "1 \<le> ?i" "in_int64 ?i" using bounds less in64 [of ?i] by auto
    have next_page: "?follow (uc_next_url ?c) = users_content_of same [(''q'', uc_query ?c), (''page'', itoa ?i)] db"
      using page_url_content [OF i q] links(1) less by simp
    have parts: "pg_page (uc_pagination (users_content_of same [(''q'', uc_query ?c), (''page'', itoa ?i)] db)) = ?i
        \<and> uc_query (users_content_of same [(''q'', uc_query ?c), (''page'', itoa ?i)] db) = uc_query ?c
        \<and> uc_previous_url (users_content_of same [(''q'', uc_query ?c), (''page'', itoa ?i)] db) = users_page_url (uc_query ?c) (pg_page ?p)"
    proof -
      have "pg_page (new_page ?i user_page_size ?n) = ?i"
        by (rule new_page_exact [of _ "query_page (query_get ''page'' query)"]) (use bounds less p in simp_all)
      then show ?thesis using q bounds by (simp add: at [OF i] Let_def users_list_parts new_page_links)
    qed
    have "?follow (users_page_url (uc_query ?c) (pg_page ?p)) = ?c"
      using page_url_content [OF bounds(1) in64 [OF bounds] q] same_page [OF in64 [OF bounds]] by simp
    then show ?thesis unfolding next_page using parts by simp
  qed
  then show ?thesis using bounds links empty by (simp add: Let_def)
qed

text \<open>Twenty-one users are two pages.\<close>

definition many_users :: access_db where
  "many_users =
     \<lparr>ad_users = map (\<lambda>i. \<lparr>us_id = i, us_username = ''u'' @ itoa i, us_name = ''U'', us_active = True, us_last_login = None,
        us_created = 0, us_updated = 0\<rparr>) [1..21], ad_permissions = [], ad_grants = [], ad_sessions = [], ad_audit = []\<rparr>"

theorem users_paging_links_witness:
  "(let c = users_content_of (=) [] many_users; follow = (\<lambda>link. users_content_of (=) (parse_query (drop 8 link)) many_users) in
     pg_page (uc_pagination c) = 1 \<and> pg_total_pages (uc_pagination c) = 2
     \<and> pg_page (uc_pagination (follow (uc_next_url c))) = 2
     \<and> follow (uc_previous_url (follow (uc_next_url c))) = c)"
proof -
  let ?c = "users_content_of (=) [] many_users"
  have n: "count_users (=) '''' many_users = 21"
    by (simp add: count_users_def user_matches_def many_users_def)
  have p: "pg_page (uc_pagination ?c) = 1" "pg_total_pages (uc_pagination ?c) = 2"
    using n by (simp_all add: users_content_of_def users_list_parts query_get_def query_values_def query_page_def new_page_def user_page_size_def atoi_def Let_def)
  have "in_int64 (pg_total_pages (uc_pagination ?c))" using p by (simp add: in_int64_def)
  from users_paging_links [OF this] show ?thesis using p by (simp add: Let_def)
qed

end
