(* ===== verification/Renderer.thy ===== *)
theory Renderer
  imports Go_Text
begin

text \<open>
  \<open>src/internal/render/render.go\<close>: which template files make a page, the pages parsed at the start, and rendering. The file tree and
  \<open>html/template\<close> are parameters: the files in the order of \<open>fs.WalkDir\<close>, parsing a list of files, and executing a
  template. The patterns of \<open>fs.Glob\<close> are those of the source with directory names that hold no pattern characters.
\<close>

section \<open>Templates\<close>

record 't template_tree =
  tt_files :: "string list"
  tt_walkable :: "string \<Rightarrow> bool"
  tt_parse :: "string \<Rightarrow> string list \<Rightarrow> 't option"
  tt_execute :: "'t \<Rightarrow> string \<Rightarrow> string option"

definition page_roots :: "string list" where
  "page_roots = [''templates/pages'', ''templates/features'']"

text \<open>The walk: pages are the files with the extension of HTML whose name does not begin with an underscore.\<close>

definition is_page :: "string \<Rightarrow> string \<Rightarrow> bool" where
  "is_page dir f \<longleftrightarrow> Sublist.prefix (dir @ ''/'') f \<and> path_ext f = ''.html'' \<and> \<not> Sublist.prefix ''_'' (path_base f)"

definition page_name :: "string \<Rightarrow> string" where
  "page_name f = trim_prefix ''pages/'' (trim_suffix ''.html'' (trim_prefix ''templates/'' f))"

definition walked_pages :: "'t template_tree \<Rightarrow> string list" where
  "walked_pages tt = concat (map (\<lambda>dir. filter (is_page dir) (tt_files tt)) page_roots)"

text \<open>The direct children of a directory with a given beginning of their name and the extension of HTML.\<close>

definition glob_html :: "'t template_tree \<Rightarrow> string \<Rightarrow> string \<Rightarrow> string list" where
  "glob_html tt dir start =
     filter (\<lambda>f. path_dir f = dir \<and> Sublist.prefix start (path_base f) \<and> Sublist.suffix ''.html'' (drop (length start) (path_base f))) (tt_files tt)"

definition page_file :: "string \<Rightarrow> string" where
  "page_file name = (if CHR ''/'' \<in> set name then ''templates/'' @ name @ ''.html'' else ''templates/pages/'' @ name @ ''.html'')"

definition page_parts :: "'t template_tree \<Rightarrow> string \<Rightarrow> string list" where
  "page_parts tt name =
     glob_html tt ''templates/layouts'' '''' @ glob_html tt ''templates/components'' '''' @ glob_html tt ''templates/partials'' ''''
     @ glob_html tt (path_dir (page_file name)) ''_'' @ [page_file name]"

definition parse_page :: "'t template_tree \<Rightarrow> string \<Rightarrow> 't option" where
  "parse_page tt name =
     (if glob_html tt ''templates/layouts'' '''' = [] then None
      else if page_file name \<notin> set (tt_files tt) then None
      else tt_parse tt name (page_parts tt name))"

section \<open>The renderer\<close>

record 't renderer =
  rn_tree :: "'t template_tree"
  rn_reload :: bool
  rn_pages :: "(string \<times> 't) list"

text \<open>Every page is parsed at the start; the result is kept unless templates are reloaded.\<close>

definition new_renderer :: "'t template_tree \<Rightarrow> bool \<Rightarrow> 't renderer option" where
  "new_renderer tt reload =
     (if \<not> list_all (tt_walkable tt) page_roots then None
      else let names = map page_name (walked_pages tt) in
        if names = [] then None
        else if \<not> list_all (\<lambda>n. parse_page tt n \<noteq> None) names then None
        else Some \<lparr>rn_tree = tt, rn_reload = reload,
                   rn_pages = (if reload then [] else map (\<lambda>n. (n, the (parse_page tt n))) names)\<rparr>)"

text \<open>\<open>fs.ValidPath\<close> for a name other than the root.\<close>

definition valid_path :: "string \<Rightarrow> bool" where
  "valid_path name \<longleftrightarrow> name = ''.'' \<or> list_all (\<lambda>e. e \<noteq> '''' \<and> e \<noteq> ''.'' \<and> e \<noteq> ''..'') (split_byte (CHR ''/'') name)"

text \<open>The table has one entry per name: a later page of the same name replaces the earlier one.\<close>

definition find_template :: "'t renderer \<Rightarrow> string \<Rightarrow> 't option" where
  "find_template r name =
     (if name = '''' \<or> \<not> valid_path name \<or> path_ext name \<noteq> '''' then None
      else if \<not> rn_reload r then map_of (rev (rn_pages r)) name
      else parse_page (rn_tree r) name)"

text \<open>The answer: the template is executed into a buffer first, so a failure writes nothing.\<close>

datatype written = NothingSent | Sent int string string

definition render_named :: "'t renderer \<Rightarrow> int \<Rightarrow> string \<Rightarrow> string \<Rightarrow> bool \<times> written" where
  "render_named r status page name =
     (case find_template r page of
        None \<Rightarrow> (False, NothingSent)
      | Some t \<Rightarrow>
          (case tt_execute (rn_tree r) t name of
             None \<Rightarrow> (False, NothingSent)
           | Some body \<Rightarrow> (True, Sent status ''text/html; charset=utf-8'' body)))"

definition render_page :: "'t renderer \<Rightarrow> int \<Rightarrow> string \<Rightarrow> bool \<times> written" where
  "render_page r status page = render_named r status page ''admin''"

definition render_partial :: "'t renderer \<Rightarrow> int \<Rightarrow> string \<Rightarrow> string \<Rightarrow> bool \<times> written" where
  "render_partial r status page name = render_named r status page name"

definition render_with_layout :: "'t renderer \<Rightarrow> int \<Rightarrow> string \<Rightarrow> string \<Rightarrow> bool \<times> written" where
  "render_with_layout r status page layout =
     (if layout = '''' \<or> path_base layout \<noteq> layout then (False, NothingSent) else render_named r status page layout)"

section \<open>Pages found at the start are served\<close>

lemma page_parts_templates:
  assumes "f \<in> set (page_parts tt name)" and "page_file name \<in> set (tt_files tt)"
  shows "f \<in> set (tt_files tt)"
  using assms by (auto simp: page_parts_def glob_html_def)

lemma map_of_table: "n \<in> set names \<Longrightarrow> map_of (rev (map (\<lambda>n. (n, g n)) names)) n = Some (g n)"
proof -
  assume "n \<in> set names"
  moreover have "map_of (rev (map (\<lambda>n. (n, g n)) names)) = map_of (map (\<lambda>n. (n, g n)) (rev names))" by (simp add: rev_map)
  ultimately show ?thesis by (simp add: map_of_map_restrict)
qed

text \<open>
  After a successful start every page that was found can be rendered under its name, from the same parsed
  files whether or not templates are reloaded, and all of these are files of the tree; a name that is not a clean relative path
  without extension is refused; a page that was not found at the start is served only when templates are reloaded; and whenever
  rendering fails nothing has been written.
\<close>

theorem rendered_pages:
  assumes "new_renderer tt reload = Some r"
  shows "(\<forall>f \<in> set (walked_pages tt). valid_path (page_name f) \<and> page_name f \<noteq> '''' \<and> path_ext (page_name f) = '''' \<longrightarrow>
       find_template r (page_name f) = parse_page tt (page_name f) \<and> parse_page tt (page_name f) \<noteq> None
       \<and> set (page_parts tt (page_name f)) \<subseteq> set (tt_files tt))
   \<and> (\<forall>name. find_template r name \<noteq> None \<longrightarrow> name \<noteq> '''' \<and> valid_path name \<and> path_ext name = ''''
        \<and> (reload \<or> name \<in> page_name ` set (walked_pages tt)))
   \<and> (\<forall>status page name. \<not> fst (render_named r status page name) \<longrightarrow> snd (render_named r status page name) = NothingSent)"
proof -
  let ?names = "map page_name (walked_pages tt)"
  have ok: "\<forall>n \<in> set ?names. parse_page tt n \<noteq> None" and r: "rn_tree r = tt" "rn_reload r = reload"
    "rn_pages r = (if reload then [] else map (\<lambda>n. (n, the (parse_page tt n))) ?names)"
    using assms by (auto simp: new_renderer_def Let_def list_all_iff split: if_split_asm)
  have "find_template r (page_name f) = parse_page tt (page_name f) \<and> parse_page tt (page_name f) \<noteq> None
       \<and> set (page_parts tt (page_name f)) \<subseteq> set (tt_files tt)"
    if "f \<in> set (walked_pages tt)" "valid_path (page_name f) \<and> page_name f \<noteq> '''' \<and> path_ext (page_name f) = ''''" for f
  proof -
    have n: "page_name f \<in> set ?names" using that(1) by simp
    have "find_template r (page_name f) = parse_page tt (page_name f)"
      using that(2) r map_of_table [OF n, of "\<lambda>n. the (parse_page tt n)"] bspec [OF ok n] by (simp add: find_template_def)
    moreover have "page_file (page_name f) \<in> set (tt_files tt)"
      using bspec [OF ok n] by (simp add: parse_page_def split: if_split_asm)
    then have "set (page_parts tt (page_name f)) \<subseteq> set (tt_files tt)" using page_parts_templates by blast
    ultimately show ?thesis using bspec [OF ok n] by blast
  qed
  moreover have "name \<noteq> '''' \<and> valid_path name \<and> path_ext name = '''' \<and> (reload \<or> name \<in> page_name ` set (walked_pages tt))"
    if "find_template r name \<noteq> None" for name
    using that r by (auto simp: find_template_def split: if_split_asm dest!: map_of_SomeD)
  moreover have "snd (render_named r status page name) = NothingSent" if "\<not> fst (render_named r status page name)" for status page name
    using that by (auto simp: render_named_def split: option.split_asm option.split)
  ultimately show ?thesis by blast
qed

text \<open>A tree with one layout, one page and one feature; a page in a nested directory of the pages stops the start.\<close>

definition sample_tree :: "string list \<Rightarrow> string list template_tree" where
  "sample_tree more_files =
     \<lparr>tt_files = [''templates/layouts/admin.html'', ''templates/pages/login.html'', ''templates/features/lps/index.html'',
        ''templates/features/lps/_form.html''] @ more_files,
      tt_walkable = (\<lambda>_. True), tt_parse = (\<lambda>name parts. Some parts), tt_execute = (\<lambda>t name. if name = ''admin'' then Some ''page'' else None)\<rparr>"

lemma sample_tree_start:
  "map_option rn_pages (new_renderer (sample_tree []) False) =
     Some [(''login'', [''templates/layouts/admin.html'', ''templates/pages/login.html'']),
           (''features/lps/index'', [''templates/layouts/admin.html'', ''templates/features/lps/_form.html'', ''templates/features/lps/index.html''])]"
  "new_renderer (sample_tree [''templates/pages/help/faq.html'']) False = None"
  "valid_path ''features/lps/index'' \<and> path_ext ''features/lps/index'' = ''''"
  "page_name ''templates/features/lps/index.html'' = ''features/lps/index''"
  "''templates/features/lps/index.html'' \<in> set (walked_pages (sample_tree []))"
  by code_simp+

theorem rendered_pages_witness:
  "\<exists>r. new_renderer (sample_tree []) False = Some r \<and> find_template r ''features/lps/index'' \<noteq> None
     \<and> render_partial r 200 ''features/lps/index'' ''lps-row'' = (False, NothingSent)"
proof -
  obtain r where r: "new_renderer (sample_tree []) False = Some r" using sample_tree_start(1) by auto
  note facts = rendered_pages [OF r]
  have f: "find_template r ''features/lps/index'' \<noteq> None"
    using bspec [OF facts [THEN conjunct1] sample_tree_start(5)] sample_tree_start(3,4) by auto
  have "rn_tree r = sample_tree []" using r by (auto simp: new_renderer_def Let_def split: if_split_asm)
  then have "\<not> fst (render_named r 200 ''features/lps/index'' ''lps-row'')"
    using f by (auto simp: render_named_def sample_tree_def)
  then have "render_partial r 200 ''features/lps/index'' ''lps-row'' = (False, NothingSent)"
    using facts [THEN conjunct2, THEN conjunct2, rule_format, of 200 "''features/lps/index''" "''lps-row''"]
    by (simp add: render_partial_def prod_eq_iff)
  then show ?thesis using r f by blast
qed

end
