(* ===== verification/Spec2Isabelle.thy ===== *)
theory Spec2Isabelle
  imports Position Fincloud_Session Fincloud_Loan Navigation Snapshot Lps_Report Slik_Run Startup
    Rename_Module Advisory_Lock Slik_Control Logging Fincloud_Requests Page_Shell Renderer
begin

text \<open>
  THOR Rate Sync (\<open>src/\<close>): a Go service of a bank that answers what a loan owed on a given day, fills the
  regulator's SLIK workbooks with these answers, and keeps users, permissions, sessions and an audit log. This
  library models the service in HOL, from its configuration to its pages, and proves what makes it correct.

  \<^bold>\<open>Parts and theories.\<close> Each theory names the files it models.
  \<^item> Values and calculation: \<open>Loan_Values\<close> (exact money as \<^typ>\<open>rat\<close>, civil dates, sentinel errors),
    \<open>Loan_Model\<close> (the shared structs), \<open>Contractual\<close> (\<open>contractual/calculator.go\<close>: schedule, effective repayments,
    accrual and allocation), \<open>Evidence\<close> (the rows read from the data warehouse, the MSO database and the
    snapshot), \<open>Position\<close> (\<open>position/service.go\<close>: which source answers, and the reconstruction).
  \<^item> The core-banking gateway: \<open>Fincloud_Session\<close> (one login shared by concurrent requests, as a step
    relation), \<open>Fincloud_Client\<close> (requests with one renewal, replies, the browser authenticator), \<open>Fincloud_Loan\<close>
    (resolution of loan accounts and reading of decimals).
  \<^item> SLIK: \<open>Slik_Jobs\<close> (job and account tables, submission, any number of workers as a step relation),
    \<open>Slik_Xlsx\<close> and \<open>Slik_Workbook\<close> (the workbook archive: checks, inspection, patching), \<open>Slik_Run\<close> (one run of a job on
    top of both: storage directory, context, producer, account workers, conclusion).
  \<^item> Access: \<open>Audit_Log\<close>, \<open>Access_Store\<close> (tables and transactions), \<open>Access_Control\<close> (what they keep), \<open>Login_Guard\<close>
    (lockout), \<open>Web_Text\<close> (redirect targets, tokens), \<open>Browser_Auth\<close> (login, sessions, cookies, handlers),
    \<open>Admin_Lists\<close>, \<open>User_Admin\<close> and \<open>Navigation\<close> (the administration pages behind their middleware).
  \<^item> The snapshot: \<open>Csv\<close> (Go's \<open>encoding/csv\<close>), \<open>Snapshot\<close> (\<open>snapshot/\<close>: the report, its rows, the refresh transaction, the
    scheduler, and its composition with the lookup of \<open>Evidence\<close>).
  \<^item> The LPS report: \<open>Go_Float\<close> (\<open>float64\<close> as the report uses it), \<open>Lps_Table\<close> (tables, columns, codes), \<open>Lps_Accounts\<close> (rates,
    account and loan lines), \<open>Lps_Report\<close> (customer lines, the pool that fetches missing customers, downloads, the archive).
  \<^item> The HTTP surface: \<open>Loan_Api\<close> (\<open>api/handler.go\<close>), \<open>Loan_Pages\<close>, \<open>Slik_Pages\<close> and \<open>System_Pages\<close> (the handlers under
    \<open>features/\<close>), \<open>Web_App\<close> (\<open>server/\<close>: every route with its guard and middleware, and the error pages), \<open>Page_Shell\<close> (what surrounds
    a page, and the list of users), \<open>Renderer\<close> (which files make a page), \<open>Web_Forms\<close> and \<open>Fincloud_Requests\<close> (form encoding
    and the requests to the gateway on the wire).
  \<^item> Operation: \<open>Settings\<close> (\<open>config/config.go\<close>), \<open>Branding\<close>, \<open>Startup\<close> (\<open>app/app.go\<close>, \<open>cmd/app\<close>: the steps of a start, what they open and
    release), \<open>Migrations\<close> (\<open>dbschema/\<close>, \<open>cmd/migrate\<close>), \<open>Advisory_Lock\<close> (the named locks of the database, as a step relation over
    any number of workers), \<open>Slik_Control\<close> (the loop of the manager, cancellation and its watcher), \<open>Logging\<close>, and
    \<open>Rename_Module\<close> (the tool \<open>cmd/rename-module\<close>).
  \<^item> \<open>Prelude\<close> and \<open>Go_Text\<close> hold what the components share: results, decimal text, trimming, splitting,
  UTF-8, paths.

  \<^bold>\<open>How code becomes definitions.\<close> A struct is a record, a set of error values a datatype, a function that returns
  an error has a sum as its result (\<open>Inl\<close> the error). A method with state takes the state and returns the
  new one; a database transaction is a function from tables to an error or new tables, so that a
  rollback leaves them unchanged. Loops are recursive functions with a termination proof, so each
  of them returns. Integers are unbounded except where the code relies on the width (\<open>64 word\<close> for the
  sizes of archive members). Goroutines are step relations over any number of threads. Strings are
  lists of bytes.

  \<^bold>\<open>Parameters.\<close> Code that is not in the repository is an argument: the answers of the databases and of the
  gateway, the XML decoder, JSON decoding and encoding, SHA-256, the Unicode tables (\<open>uni\<close>), the clock. A
  property never assumes more of them than its statement shows; database calls may fail at every
  point where the code checks for it.

  \<^bold>\<open>Interfaces.\<close> Locales state what one component relies on: \<open>evidence_source\<close> (a source of positions, with
  instances for the warehouse, the MSO database and the snapshot), \<open>position_deps\<close> (what the position service needs of its sources), \<open>row_visitor\<close> and \<open>span_visitor\<close> (what a visitor of worksheet
  rows keeps), \<open>paged_store\<close> (a store behind a paged list, with instances for users and
  audit rows). Each is interpreted on the definitions of the model.

  \<^bold>\<open>What is shown.\<close> The calculator equals a fold over dated events and conserves money; a position comes from
  the right source, is well formed, and its errors are classified; schedules repay the principal. One
  login is in flight at a time, waiters wake, and no session leaks. A completed SLIK job has every
  account and an output made from exactly these values; archives are bounded and patching changes
  only target cells. An access manager always remains, permissions change exactly as asked, a session is
  good only for an active user before it expires, the lockout table refines one counter per
  user, and redirects stay on the server. A refresh of the snapshot is all or nothing and the lookup then answers with
  its rows. The LPS archive is well formed, and every customer it names has one line, whatever the order in which the
  pool delivers. Every answer of the API is classified; a handler is reached only through the guard of its
  route; a user without the permission sees only the own jobs; requests to the gateway parse back to what was asked. Loaded settings are
  within their bounds, a start that fails releases what it opened, one worker holds a named lock at a time, a
  cancellation ends the run it names, logs quote no error message, and the migration command changes a database only under its
  guards. Properties are numbered C1 to C40 beside their theorems.

  \<^bold>\<open>Bounds and fuel.\<close> No definition uses fuel; recursion on worksheets, texts and tables is bounded by the input. The
  client's retry loop counts its two attempts down, as the code does.

  \<^bold>\<open>Not modelled.\<close> The calls that draw the PDF (\<open>loaninquiry/pdf.go\<close> below its request and file name) and the HTML templates only lay out
  text. \<open>cmd/feature\<close> writes the source text of a new feature from fixed templates, and \<open>internal/testutil\<close> serves tests. The SQL files of
  the migrations, goose, chi's matching of paths, \<open>html/template\<close>, the sockets of \<open>net/http\<close> and the MySQL driver are not in the
  repository or not Go: what the code relies on is an argument or a hypothesis. Deadlines and timeouts appear as errors that a
  call may return, not as time, except where a clock value is compared (sessions, lockout, snapshot schedule). Log lines are
  modelled where they are computed from an error, a panic or a route; elsewhere they are left out.
\<close>

end
